(* ===== verification/Prelude.thy ===== *)
theory Prelude imports "HOL-Library.Word" begin

unbundle bit_operations_syntax

text \<open>
  The shared vocabulary of the development: machine integers at Go's widths, the outcome
  of a Go call (a value, an error, a run-time panic, or a call that never returns), byte
  slices with the two operations the storage code performs on them (reading a window and
  overwriting a window), and the little-endian codec of \<^verbatim>\<open>encoding/binary\<close>.
\<close>

section \<open>Machine integers\<close>

type_synonym byte = "8 word"
type_synonym u16 = "16 word"
type_synonym u32 = "32 word"
type_synonym u64 = "64 word"
type_synonym i32 = "32 word"
type_synonym i64 = "64 word"

named_theorems codec \<comment> \<open>rewrite rules of the byte codecs and windows\<close>
named_theorems layout \<comment> \<open>constants of the on-disk layouts, unfolded for arithmetic\<close>

section \<open>Outcomes of Go calls\<close>

text \<open>
  \<open>Ok v\<close>: the call returns \<open>v\<close> and a nil error. \<open>Err e\<close>: it returns a non-nil error.
  \<open>Panic\<close>: a run-time panic (slice bounds, nil dereference) unwinds to the caller.
  \<open>Hang\<close>: the call never returns (a self-deadlock or a loop that makes no progress).
\<close>

datatype ('e, 'a) outcome = Ok 'a | Err 'e | Panic | Hang

fun bind_out :: "('e, 'a) outcome \<Rightarrow> ('a \<Rightarrow> ('e, 'b) outcome) \<Rightarrow> ('e, 'b) outcome" where
  "bind_out (Ok a) f = f a"
| "bind_out (Err e) f = Err e"
| "bind_out Panic f = Panic"
| "bind_out Hang f = Hang"

fun map_err :: "('e \<Rightarrow> 'f) \<Rightarrow> ('e, 'a) outcome \<Rightarrow> ('f, 'a) outcome" where
  "map_err g (Ok a) = Ok a"
| "map_err g (Err e) = Err (g e)"
| "map_err g Panic = Panic"
| "map_err g Hang = Hang"

fun is_Ok :: "('e, 'a) outcome \<Rightarrow> bool" where
  "is_Ok (Ok _) = True"
| "is_Ok _ = False"

lemma bind_out_Ok_iff:
  "bind_out r f = Ok b \<longleftrightarrow> (\<exists>a. r = Ok a \<and> f a = Ok b)"
  by (cases r) auto

lemma map_err_Ok_iff [simp]: "map_err g r = Ok a \<longleftrightarrow> r = Ok a"
  by (cases r) auto

text \<open>The call comes back, with a value or with an error.\<close>

fun returns :: "('e, 'a) outcome \<Rightarrow> bool" where
  "returns (Ok _) = True"
| "returns (Err _) = True"
| "returns _ = False"

lemma returns_iff: "returns r \<longleftrightarrow> r \<noteq> Panic \<and> r \<noteq> Hang"
  by (cases r) auto

lemma returns_bind [simp]: "returns (bind_out r f) \<longleftrightarrow> returns r \<and> (\<forall>a. r = Ok a \<longrightarrow> returns (f a))"
  by (cases r) auto

lemma bind_out_Panic_iff: "bind_out r f = Panic \<longleftrightarrow> r = Panic \<or> (\<exists>a. r = Ok a \<and> f a = Panic)"
  by (cases r) auto

lemma returns_if: "returns (if b then r else r') \<longleftrightarrow> (b \<longrightarrow> returns r) \<and> (\<not> b \<longrightarrow> returns r')"
  by simp

section \<open>Windows of byte sequences\<close>

definition slice :: "nat \<Rightarrow> nat \<Rightarrow> 'a list \<Rightarrow> 'a list" where
  "slice i j xs = take (j - i) (drop i xs)"

definition overwrite :: "nat \<Rightarrow> 'a list \<Rightarrow> 'a list \<Rightarrow> 'a list" where
  "overwrite i ys xs = take i xs @ ys @ drop (i + length ys) xs"

text \<open>
  Go's checked accesses: \<^verbatim>\<open>xs[i:j]\<close> of a slice without spare capacity, \<^verbatim>\<open>xs[i]\<close> and \<^verbatim>\<open>xs[i] = x\<close>.
  Out of range they panic.
\<close>

definition go_slice :: "nat \<Rightarrow> nat \<Rightarrow> 'a list \<Rightarrow> ('e, 'a list) outcome" where
  "go_slice i j xs = (if i \<le> j \<and> j \<le> length xs then Ok (slice i j xs) else Panic)"

definition go_index :: "nat \<Rightarrow> 'a list \<Rightarrow> ('e, 'a) outcome" where
  "go_index i xs = (if i < length xs then Ok (xs ! i) else Panic)"

definition go_store :: "nat \<Rightarrow> 'a \<Rightarrow> 'a list \<Rightarrow> ('e, 'a list) outcome" where
  "go_store i x xs = (if i < length xs then Ok (xs[i := x]) else Panic)"

lemma go_access_Ok [simp]:
  "i \<le> j \<Longrightarrow> j \<le> length xs \<Longrightarrow> go_slice i j xs = Ok (slice i j xs)"
  "i < length xs \<Longrightarrow> go_index i xs = Ok (xs ! i)"
  "i < length xs \<Longrightarrow> go_store i x xs = Ok (xs[i := x])"
  by (simp_all add: go_slice_def go_index_def go_store_def)

lemma length_slice [simp]: "length (slice i j xs) = min (length xs - i) (j - i)"
  by (simp add: slice_def)

lemma length_overwrite [simp]:
  "i + length ys \<le> length xs \<Longrightarrow> length (overwrite i ys xs) = length xs"
  by (simp add: overwrite_def)

lemma slice_overwrite_same [codec]:
  "i + length ys \<le> length xs \<Longrightarrow> j = i + length ys \<Longrightarrow> slice i j (overwrite i ys xs) = ys"
  by (simp add: slice_def overwrite_def)

lemma slice_append_left: "j \<le> length xs \<Longrightarrow> slice i j (xs @ ys) = slice i j xs"
  by (cases "i \<le> length xs") (auto simp: slice_def)

lemma slice_take: "j \<le> i \<Longrightarrow> slice a j (take i xs) = slice a j xs"
  by (simp add: slice_def drop_take)

lemma slice_overwrite_before [codec]:
  "j \<le> i \<Longrightarrow> i \<le> length xs \<Longrightarrow> slice a j (overwrite i ys xs) = slice a j xs"
  by (simp add: overwrite_def slice_append_left slice_take)

lemma slice_overwrite_after [codec]:
  assumes "i + length ys \<le> a" "i + length ys \<le> length xs"
  shows "slice a j (overwrite i ys xs) = slice a j xs"
proof -
  have "drop a (overwrite i ys xs) = drop (a - (i + length ys)) (drop (i + length ys) xs)"
    using assms by (simp add: overwrite_def)
  also have "\<dots> = drop a xs" using assms by simp
  finally show ?thesis by (simp add: slice_def)
qed

lemma slice_append_right:
  "length xs \<le> i \<Longrightarrow> slice i j (xs @ ys) = slice (i - length xs) (j - length xs) ys"
  by (auto simp: slice_def)

lemma slice_append_mid:
  "i = length xs \<Longrightarrow> j = length xs + length ys \<Longrightarrow> slice i j (xs @ ys @ zs) = ys"
  by (simp add: slice_def)

lemma slice_all [simp]: "length xs \<le> j \<Longrightarrow> slice 0 j xs = xs"
  by (simp add: slice_def)

section \<open>Little-endian codec (encoding/binary.LittleEndian)\<close>

fun le_bytes :: "nat \<Rightarrow> nat \<Rightarrow> byte list" where
  "le_bytes 0 x = []"
| "le_bytes (Suc n) x = word_of_nat x # le_bytes n (x div 256)"

fun le_nat :: "byte list \<Rightarrow> nat" where
  "le_nat [] = 0"
| "le_nat (b # bs) = unat b + 256 * le_nat bs"

lemma length_le_bytes [simp]: "length (le_bytes n x) = n"
  by (induction n arbitrary: x) auto

lemma unat_byte_less: "unat (b::byte) < 256"
  using unsigned_less [of b] by simp

lemma unat_u16_less: "unat (w::u16) < 65536"
  using unsigned_less [of w] by simp

lemma unat_u32_less: "unat (w::u32) < 4294967296"
  using unsigned_less [of w] by simp

lemma unat_u64_less: "unat (w::u64) < 18446744073709551616"
  using unsigned_less [of w] by simp

lemma le_nat_bound: "le_nat bs < 256 ^ length bs"
proof (induction bs)
  case (Cons b bs)
  have "unat b < 256" by (rule unat_byte_less)
  with Cons show ?case by simp
qed simp

lemma le_nat_append: "le_nat (xs @ ys) = le_nat xs + 256 ^ length xs * le_nat ys"
  by (induction xs) (simp_all add: algebra_simps)

lemma le_nat_bytes: "le_nat (le_bytes n x) = x mod 256 ^ n"
proof (induction n arbitrary: x)
  case (Suc n)
  have "le_nat (le_bytes (Suc n) x) = x mod 256 + 256 * (x div 256 mod 256 ^ n)"
    by (simp add: Suc unat_of_nat)
  also have "\<dots> = x mod (256 * 256 ^ n)"
    by (simp add: mod_mult2_eq)
  finally show ?case by simp
qed simp

lemma le_bytes_nat: "le_bytes (length bs) (le_nat bs) = bs"
proof (induction bs)
  case (Cons b bs)
  have "unat b < 256" by (rule unat_byte_less)
  moreover have "word_of_nat (unat b + 256 * le_nat bs) = b"
  proof -
    have "(256 :: byte) = 0" by simp
    then have "(256 :: byte) * word_of_nat (le_nat bs) = 0" by (metis mult_zero_left)
    then show ?thesis by simp
  qed
  ultimately show ?case using Cons by simp
qed simp

definition put16 :: "u16 \<Rightarrow> byte list" where "put16 w = le_bytes 2 (unat w)"
definition put32 :: "u32 \<Rightarrow> byte list" where "put32 w = le_bytes 4 (unat w)"
definition put64 :: "u64 \<Rightarrow> byte list" where "put64 w = le_bytes 8 (unat w)"

definition get16 :: "byte list \<Rightarrow> u16" where "get16 bs = word_of_nat (le_nat bs)"
definition get32 :: "byte list \<Rightarrow> u32" where "get32 bs = word_of_nat (le_nat bs)"
definition get64 :: "byte list \<Rightarrow> u64" where "get64 bs = word_of_nat (le_nat bs)"

text \<open>\<^verbatim>\<open>binary.LittleEndian.Uint16\<close> and its siblings index the last byte they need first.\<close>

definition Uint16 :: "byte list \<Rightarrow> ('e, u16) outcome" where
  "Uint16 b = (if 2 \<le> length b then Ok (get16 (take 2 b)) else Panic)"
definition Uint32 :: "byte list \<Rightarrow> ('e, u32) outcome" where
  "Uint32 b = (if 4 \<le> length b then Ok (get32 (take 4 b)) else Panic)"
definition Uint64 :: "byte list \<Rightarrow> ('e, u64) outcome" where
  "Uint64 b = (if 8 \<le> length b then Ok (get64 (take 8 b)) else Panic)"

lemma Uint_Ok [simp]:
  "length b = 2 \<Longrightarrow> Uint16 b = Ok (get16 b)" "length b = 4 \<Longrightarrow> Uint32 b = Ok (get32 b)"
  "length b = 8 \<Longrightarrow> Uint64 b = Ok (get64 b)"
  by (simp_all add: Uint16_def Uint32_def Uint64_def)

lemma length_put [simp]:
  "length (put16 a) = 2" "length (put32 b) = 4" "length (put64 c) = 8"
  by (simp_all add: put16_def put32_def put64_def)

lemma get16_put16 [codec, simp]: "get16 (put16 w) = w"
  by (simp add: get16_def put16_def le_nat_bytes unat_u16_less)

lemma get32_put32 [codec, simp]: "get32 (put32 w) = w"
  by (simp add: get32_def put32_def le_nat_bytes unat_u32_less)

lemma get64_put64 [codec, simp]: "get64 (put64 w) = w"
  by (simp add: get64_def put64_def le_nat_bytes unat_u64_less)

end
