(* ===== verification/StorageTypes.thy ===== *)
theory StorageTypes imports Prelude begin

text \<open>
  The data types shared by the files of \<^verbatim>\<open>pkg/storage\<close>: column types, table schemas, row
  identifiers, and the errors the package returns. Each error constructor stands for one
  \<^verbatim>\<open>fmt.Errorf\<close> of the package and carries the values its message formats; a wrapped error
  (\<^verbatim>\<open>%w\<close>) is an argument.
\<close>

text \<open>
  \<^verbatim>\<open>ColumnType\<close> is an \<^verbatim>\<open>int\<close> in Go with four named values; a catalog file may hold any other
  number, which the \<^verbatim>\<open>default\<close> branches of the code treat: \<open>TypeOther\<close>.
\<close>

datatype ColumnType = TypeInt | TypeFloat | TypeText | TypeBool | TypeOther int

record ColumnDef =
  col_Name :: string
  col_ColType :: ColumnType
  col_Nullable :: bool
  col_PrimaryKey :: bool
  col_AutoIncrement :: bool
  col_Unique :: bool
  col_Default :: string
  col_Check :: string
  col_References :: string

record TableSchema =
  sch_Name :: string
  sch_Columns :: "ColumnDef list"

record RID =
  rid_PageID :: u64
  rid_SlotID :: u16

definition InvalidRID :: RID where
  "InvalidRID = \<lparr>rid_PageID = 0, rid_SlotID = 0\<rparr>"

datatype storage_err =
    RowTooLong nat
  | NoSpaceOnPage
  | SlotDoesNotExist u16 u16
  | RowIsDeleted u16
  | NoSuchSlot
  | ColumnCountMismatch nat nat
  | EmptyRowData
  | NoDataForBitmap
  | NoDataForColumn ColumnType nat
  | InvalidSyntax string
  | ValueOutOfRange string
  | InvalidBool string
  | UnknownColumnType
  | CannotReadPage u64
  | CannotWritePage u64
  | AllPagesPinned
  | FlushFailed nat storage_err
  | SerializeFailed storage_err
  | AllocateFailed storage_err
  | PageInsertFailed storage_err
  | PageLoadFailed u64 storage_err
  | OldRowDeleteFailed storage_err
  | TableExists string
  | TableNotFound string
  | CatalogWriteFailed
  | NodeTooShort nat

end
