(* ===== verification/Page.thy ===== *)
theory Page imports StorageTypes begin

text \<open>
  \<^verbatim>\<open>pkg/storage/page.go\<close>: the slotted 4 KB page. A page is its 4096 bytes, its number and the
  dirty flag. The header occupies the first 24 bytes, the slot directory grows upwards
  behind it, the row data grows downwards from the end. All offsets are \<^verbatim>\<open>uint16\<close> and wrap; a
  slice expression with bounds out of order or past 4096 panics.
\<close>

section \<open>The page and its header\<close>

definition PageSize :: nat where "PageSize = 4096"
definition HeaderSize :: nat where "HeaderSize = 24"
definition SlotSize :: nat where "SlotSize = 4"
definition MaxSlots :: nat where "MaxSlots = (PageSize - HeaderSize) div SlotSize"

lemmas page_consts [layout] = PageSize_def HeaderSize_def SlotSize_def MaxSlots_def

record page =
  pg_Data :: "byte list"
  pg_ID :: u64
  pg_Dirty :: bool

record PageHeader =
  h_PageID :: u64
  h_TableID :: u32
  h_FreeSpaceOff :: u16
  h_FreeSpaceEnd :: u16
  h_RowCount :: u16
  h_Flags :: u16
  h_Checksum :: u32

record Slot =
  sl_Offset :: u16
  sl_Length :: u16

definition put_at :: "nat \<Rightarrow> byte list \<Rightarrow> page \<Rightarrow> page" where
  "put_at i bs p = p\<lparr>pg_Data := overwrite i bs (pg_Data p)\<rparr>"

definition Page_ReadHeader :: "page \<Rightarrow> PageHeader" where
  "Page_ReadHeader p = \<lparr>
     h_PageID = get64 (slice 0 8 (pg_Data p)),
     h_TableID = get32 (slice 8 12 (pg_Data p)),
     h_FreeSpaceOff = get16 (slice 12 14 (pg_Data p)),
     h_FreeSpaceEnd = get16 (slice 14 16 (pg_Data p)),
     h_RowCount = get16 (slice 16 18 (pg_Data p)),
     h_Flags = get16 (slice 18 20 (pg_Data p)),
     h_Checksum = get32 (slice 20 24 (pg_Data p))\<rparr>"

definition Page_writeHeader :: "PageHeader \<Rightarrow> page \<Rightarrow> page" where
  "Page_writeHeader h p =
     (let p1 = put_at 0 (put64 (h_PageID h)) p;
          p2 = put_at 8 (put32 (h_TableID h)) p1;
          p3 = put_at 12 (put16 (h_FreeSpaceOff h)) p2;
          p4 = put_at 14 (put16 (h_FreeSpaceEnd h)) p3;
          p5 = put_at 16 (put16 (h_RowCount h)) p4;
          p6 = put_at 18 (put16 (h_Flags h)) p5
      in put_at 20 (put32 (h_Checksum h)) p6)"

definition zero_page :: "u64 \<Rightarrow> page" where
  "zero_page pid = \<lparr>pg_Data = replicate PageSize 0, pg_ID = pid, pg_Dirty = False\<rparr>"

definition NewPage :: "u64 \<Rightarrow> page" where
  "NewPage pageID =
     Page_writeHeader \<lparr>h_PageID = pageID, h_TableID = 0,
       h_FreeSpaceOff = word_of_nat HeaderSize, h_FreeSpaceEnd = word_of_nat PageSize,
       h_RowCount = 0, h_Flags = 0, h_Checksum = 0\<rparr> (zero_page pageID)"

section \<open>Slots, free space, rows\<close>

text \<open>A slice expression \<open>Data[a:b]\<close> with \<^verbatim>\<open>uint16\<close> bounds is in range:\<close>

definition in_page :: "u16 \<Rightarrow> u16 \<Rightarrow> bool" where
  "in_page a b \<longleftrightarrow> unat a \<le> unat b \<and> unat b \<le> PageSize"

definition slot_off :: "u16 \<Rightarrow> u16" where
  "slot_off slotID = word_of_nat HeaderSize + slotID * word_of_nat SlotSize"

definition Page_GetSlot :: "page \<Rightarrow> u16 \<Rightarrow> (storage_err, Slot) outcome" where
  "Page_GetSlot p slotID =
     (let offset = slot_off slotID in
      if in_page offset (offset + 2) \<and> in_page (offset + 2) (offset + 4)
      then Ok \<lparr>sl_Offset = get16 (slice (unat offset) (unat (offset + 2)) (pg_Data p)),
               sl_Length = get16 (slice (unat (offset + 2)) (unat (offset + 4)) (pg_Data p))\<rparr>
      else Panic)"

definition Page_setSlot :: "u16 \<Rightarrow> Slot \<Rightarrow> page \<Rightarrow> (storage_err, unit) outcome \<times> page" where
  "Page_setSlot slotID s p =
     (let offset = slot_off slotID in
      if in_page offset (offset + 2) then
        let p1 = put_at (unat offset) (put16 (sl_Offset s)) p in
        if in_page (offset + 2) (offset + 4)
        then (Ok (), put_at (unat (offset + 2)) (put16 (sl_Length s)) p1)
        else (Panic, p1)
      else (Panic, p))"

definition Page_FreeSpace :: "page \<Rightarrow> u16" where
  "Page_FreeSpace p =
     (let h = Page_ReadHeader p;
          free = int (unat (h_FreeSpaceEnd h)) - int (unat (h_FreeSpaceOff h))
      in if free < 0 then 0 else word_of_int free)"

definition Page_CanFit :: "page \<Rightarrow> u16 \<Rightarrow> bool" where
  "Page_CanFit p rowSize = (let needed = rowSize + word_of_nat SlotSize in Page_FreeSpace p \<ge> needed)"

definition Page_InsertRow :: "byte list \<Rightarrow> page \<Rightarrow> (storage_err, u16) outcome \<times> page" where
  "Page_InsertRow data p =
     (if length data > 65535 then (Err (RowTooLong (length data)), p)
      else let rowSize = word_of_nat (length data) in
      if \<not> Page_CanFit p rowSize then (Err NoSpaceOnPage, p)
      else let h = Page_ReadHeader p;
               slotID = h_RowCount h;
               newEnd = h_FreeSpaceEnd h - rowSize
      in if \<not> in_page newEnd (newEnd + rowSize) then (Panic, p)
      else let p1 = put_at (unat newEnd) (take (unat (newEnd + rowSize) - unat newEnd) data) p
      in case Page_setSlot slotID \<lparr>sl_Offset = newEnd, sl_Length = rowSize\<rparr> p1 of
           (Ok _, p2) \<Rightarrow>
             (let h' = h\<lparr>h_RowCount := h_RowCount h + 1,
                         h_FreeSpaceEnd := newEnd,
                         h_FreeSpaceOff := word_of_nat HeaderSize
                            + (h_RowCount h + 1) * word_of_nat SlotSize\<rparr>
              in (Ok slotID, (Page_writeHeader h' p2)\<lparr>pg_Dirty := True\<rparr>))
         | (_, p2) \<Rightarrow> (Panic, p2))"

definition Page_GetRow :: "page \<Rightarrow> u16 \<Rightarrow> (storage_err, byte list) outcome" where
  "Page_GetRow p slotID =
     (let h = Page_ReadHeader p in
      if slotID \<ge> h_RowCount h then Err (SlotDoesNotExist slotID (h_RowCount h))
      else case Page_GetSlot p slotID of
        Ok slot \<Rightarrow>
          (if sl_Length slot = 0 then Err (RowIsDeleted slotID)
           else if in_page (sl_Offset slot) (sl_Offset slot + sl_Length slot)
           then Ok (slice (unat (sl_Offset slot)) (unat (sl_Offset slot + sl_Length slot))
                      (pg_Data p))
           else Panic)
      | _ \<Rightarrow> Panic)"

definition Page_DeleteRow :: "u16 \<Rightarrow> page \<Rightarrow> (storage_err, unit) outcome \<times> page" where
  "Page_DeleteRow slotID p =
     (let h = Page_ReadHeader p in
      if slotID \<ge> h_RowCount h then (Err NoSuchSlot, p)
      else case Page_setSlot slotID \<lparr>sl_Offset = 0, sl_Length = 0\<rparr> p of
        (Ok _, p1) \<Rightarrow> (Ok (), p1\<lparr>pg_Dirty := True\<rparr>)
      | (_, p1) \<Rightarrow> (Panic, p1))"


section \<open>Layout lemmas\<close>

lemma length_put_at [simp]:
  "i + length bs \<le> length (pg_Data p) \<Longrightarrow> length (pg_Data (put_at i bs p)) = length (pg_Data p)"
  by (simp add: put_at_def)

lemma put_at_fields [simp]:
  "pg_ID (put_at i bs p) = pg_ID p" "pg_Dirty (put_at i bs p) = pg_Dirty p"
  "pg_Data (put_at i bs p) = overwrite i bs (pg_Data p)"
  by (simp_all add: put_at_def)

lemma writeHeader_fields [simp]:
  "pg_ID (Page_writeHeader h p) = pg_ID p" "pg_Dirty (Page_writeHeader h p) = pg_Dirty p"
  by (simp_all add: Page_writeHeader_def Let_def)

lemma length_writeHeader [simp]:
  "length (pg_Data p) = PageSize \<Longrightarrow> length (pg_Data (Page_writeHeader h p)) = PageSize"
  by (simp add: Page_writeHeader_def Let_def layout)

lemma slice_writeHeader [codec]:
  "length (pg_Data p) = PageSize \<Longrightarrow> HeaderSize \<le> a \<Longrightarrow>
     slice a j (pg_Data (Page_writeHeader h p)) = slice a j (pg_Data p)"
  by (simp add: Page_writeHeader_def Let_def layout codec)

lemma ReadHeader_writeHeader [simp]:
  "length (pg_Data p) = PageSize \<Longrightarrow> Page_ReadHeader (Page_writeHeader h p) = h"
  by (simp add: Page_ReadHeader_def Page_writeHeader_def Let_def layout codec)

lemma ReadHeader_cong:
  "slice 0 24 (pg_Data p) = slice 0 24 (pg_Data q) \<Longrightarrow> Page_ReadHeader p = Page_ReadHeader q"
proof -
  assume h: "slice 0 24 (pg_Data p) = slice 0 24 (pg_Data q)"
  have sub: "slice i j xs = slice i j (slice 0 24 xs)" if "j \<le> 24" for i j :: nat and xs :: "byte list"
    using that slice_take [of j 24 i xs] by (simp add: slice_def)
  have "slice i j (pg_Data p) = slice i j (pg_Data q)" if "j \<le> 24" for i j
    using sub [OF that, of i "pg_Data p"] sub [OF that, of i "pg_Data q"] h by simp
  then show ?thesis by (simp add: Page_ReadHeader_def)
qed

lemma ReadHeader_put_at [simp]:
  "HeaderSize \<le> i \<Longrightarrow> i \<le> length (pg_Data p) \<Longrightarrow> Page_ReadHeader (put_at i bs p) = Page_ReadHeader p"
  by (rule ReadHeader_cong) (simp add: layout codec)

lemma ReadHeader_dirty [simp]: "Page_ReadHeader (p\<lparr>pg_Dirty := b\<rparr>) = Page_ReadHeader p"
  by (simp add: Page_ReadHeader_def)

section \<open>The page invariant and the abstract page\<close>

text \<open>
  Read with natural numbers: \<open>rows_of\<close> the row count, \<open>free_off\<close> and \<open>free_end\<close> the free
  window, \<open>slot_at i\<close> the slot \<open>i\<close> as an (offset, length) pair.
\<close>

definition rows_of :: "page \<Rightarrow> nat" where
  "rows_of p = unat (h_RowCount (Page_ReadHeader p))"

definition free_off :: "page \<Rightarrow> nat" where
  "free_off p = unat (h_FreeSpaceOff (Page_ReadHeader p))"

definition free_end :: "page \<Rightarrow> nat" where
  "free_end p = unat (h_FreeSpaceEnd (Page_ReadHeader p))"

definition slot_at :: "page \<Rightarrow> nat \<Rightarrow> nat \<times> nat" where
  "slot_at p i = (unat (get16 (slice (24 + 4 * i) (26 + 4 * i) (pg_Data p))),
                  unat (get16 (slice (26 + 4 * i) (28 + 4 * i) (pg_Data p))))"

definition slot_ok :: "nat \<Rightarrow> nat \<times> nat \<Rightarrow> bool" where
  "slot_ok e s \<longleftrightarrow> snd s = 0 \<or> (e \<le> fst s \<and> fst s + snd s \<le> PageSize)"

definition page_ok :: "page \<Rightarrow> bool" where
  "page_ok p \<longleftrightarrow> length (pg_Data p) = PageSize
     \<and> free_off p = HeaderSize + SlotSize * rows_of p
     \<and> free_off p \<le> free_end p \<and> free_end p \<le> PageSize
     \<and> (\<forall>i < rows_of p. slot_ok (free_end p) (slot_at p i))"

text \<open>The abstract page: its rows by slot number, \<open>None\<close> for a deleted one.\<close>

definition row_at :: "page \<Rightarrow> nat \<Rightarrow> byte list option" where
  "row_at p i = (if snd (slot_at p i) = 0 then None
     else Some (slice (fst (slot_at p i)) (fst (slot_at p i) + snd (slot_at p i)) (pg_Data p)))"

definition page_rows :: "page \<Rightarrow> byte list option list" where
  "page_rows p = map (row_at p) [0..<rows_of p]"

lemma length_page_rows [simp]: "length (page_rows p) = rows_of p"
  by (simp add: page_rows_def)

lemma page_ok_length [simp, dest]: "page_ok p \<Longrightarrow> length (pg_Data p) = PageSize"
  by (simp add: page_ok_def)

lemma page_ok_rows_bound: "page_ok p \<Longrightarrow> HeaderSize + SlotSize * rows_of p \<le> PageSize"
  by (auto simp: page_ok_def)

lemma view_dirty [simp]:
  "rows_of (p\<lparr>pg_Dirty := b\<rparr>) = rows_of p" "free_off (p\<lparr>pg_Dirty := b\<rparr>) = free_off p"
  "free_end (p\<lparr>pg_Dirty := b\<rparr>) = free_end p" "slot_at (p\<lparr>pg_Dirty := b\<rparr>) = slot_at p"
  by (simp_all add: rows_of_def free_off_def free_end_def slot_at_def fun_eq_iff)

lemma page_rows_dirty [simp]: "page_rows (p\<lparr>pg_Dirty := b\<rparr>) = page_rows p"
  by (simp add: page_rows_def row_at_def fun_eq_iff)

lemma page_ok_dirty [simp]: "page_ok (p\<lparr>pg_Dirty := b\<rparr>) = page_ok p"
  by (simp add: page_ok_def)

lemma length_zero_page [simp]: "length (pg_Data (zero_page i)) = PageSize"
  by (simp add: zero_page_def)

lemma NewPage_fields [simp]: "pg_ID (NewPage i) = i" "pg_Dirty (NewPage i) = False"
  "length (pg_Data (NewPage i)) = PageSize"
  by (simp_all add: NewPage_def zero_page_def)

lemma ReadHeader_NewPage:
  "Page_ReadHeader (NewPage i) = \<lparr>h_PageID = i, h_TableID = 0, h_FreeSpaceOff = 24,
     h_FreeSpaceEnd = 4096, h_RowCount = 0, h_Flags = 0, h_Checksum = 0\<rparr>"
  unfolding NewPage_def by (subst ReadHeader_writeHeader) (simp_all add: layout)

lemma NewPage_ok: "page_ok (NewPage i)"
  by (simp add: page_ok_def rows_of_def free_off_def free_end_def ReadHeader_NewPage layout)

lemma page_rows_NewPage: "page_rows (NewPage i) = []"
  by (simp add: page_rows_def rows_of_def ReadHeader_NewPage)

text \<open>Within a well-formed page every \<^verbatim>\<open>uint16\<close> offset computation is exact.\<close>

lemma unat_slot_off:
  assumes "HeaderSize + SlotSize * unat s \<le> PageSize"
  shows "unat (slot_off s) = 24 + 4 * unat s"
proof -
  have "unat (24 + s * 4) = (24 + unat s * 4) mod 65536"
    by (simp add: unat_word_ariths mod_simps)
  also have "\<dots> = 24 + 4 * unat s" using assms by (simp add: layout)
  finally show ?thesis by (simp add: slot_off_def layout)
qed

lemma unat_add_small: "unat (a::u16) + k < 65536 \<Longrightarrow> unat (a + word_of_nat k) = unat a + k"
  by (simp add: unat_word_ariths unat_of_nat)

lemma slot_window:
  assumes "HeaderSize + SlotSize * Suc (unat s) \<le> PageSize"
  shows "unat (slot_off s) = 24 + 4 * unat s"
    and "unat (slot_off s + 2) = 26 + 4 * unat s"
    and "unat (slot_off s + 4) = 28 + 4 * unat s"
    and "in_page (slot_off s) (slot_off s + 2)"
    and "in_page (slot_off s + 2) (slot_off s + 4)"
proof -
  show o: "unat (slot_off s) = 24 + 4 * unat s"
    by (rule unat_slot_off) (use assms in \<open>simp add: layout\<close>)
  show t: "unat (slot_off s + 2) = 26 + 4 * unat s"
    using unat_add_small [of "slot_off s" 2] o assms by (simp add: layout)
  show f: "unat (slot_off s + 4) = 28 + 4 * unat s"
    using unat_add_small [of "slot_off s" 4] o assms by (simp add: layout)
  show "in_page (slot_off s) (slot_off s + 2)" "in_page (slot_off s + 2) (slot_off s + 4)"
    using o t f assms by (simp_all add: in_page_def layout)
qed

lemma GetSlot_ok:
  assumes "HeaderSize + SlotSize * Suc (unat s) \<le> PageSize"
  shows "\<exists>sl. Page_GetSlot p s = Ok sl \<and>
     (unat (sl_Offset sl), unat (sl_Length sl)) = slot_at p (unat s)"
  using slot_window [OF assms] by (simp add: Page_GetSlot_def slot_at_def)

lemma setSlot_ok:
  assumes "HeaderSize + SlotSize * Suc (unat s) \<le> PageSize"
  shows "Page_setSlot s sl p = (Ok (),
     put_at (26 + 4 * unat s) (put16 (sl_Length sl)) (put_at (24 + 4 * unat s) (put16 (sl_Offset sl)) p))"
  using slot_window [OF assms] by (simp add: Page_setSlot_def Let_def)

section \<open>Reading, deleting, inserting\<close>

lemma slot_in_range:
  "page_ok p \<Longrightarrow> unat s < rows_of p \<Longrightarrow> HeaderSize + SlotSize * Suc (unat s) \<le> PageSize"
  using page_ok_rows_bound [of p] by (simp add: layout)

lemma GetRow_refines:
  assumes ok: "page_ok p"
  shows "Page_GetRow p s =
    (if rows_of p \<le> unat s then Err (SlotDoesNotExist s (h_RowCount (Page_ReadHeader p)))
     else case page_rows p ! unat s of None \<Rightarrow> Err (RowIsDeleted s) | Some d \<Rightarrow> Ok d)"
proof (cases "rows_of p \<le> unat s")
  case True
  then show ?thesis by (simp add: Page_GetRow_def rows_of_def word_le_nat_alt)
next
  case False
  then have lt: "unat s < rows_of p" by simp
  then have nl: "\<not> h_RowCount (Page_ReadHeader p) \<le> s"
    by (simp add: rows_of_def word_le_nat_alt)
  obtain sl where g: "Page_GetSlot p s = Ok sl"
    and v: "(unat (sl_Offset sl), unat (sl_Length sl)) = slot_at p (unat s)"
    using GetSlot_ok [OF slot_in_range [OF ok lt]] by blast
  have so: "slot_ok (free_end p) (slot_at p (unat s))" using ok lt by (simp add: page_ok_def)
  have row: "page_rows p ! unat s = row_at p (unat s)" using lt by (simp add: page_rows_def)
  show ?thesis
  proof (cases "sl_Length sl = 0")
    case True
    then have "snd (slot_at p (unat s)) = 0" by (simp flip: v)
    then show ?thesis using True g nl lt row by (simp add: Page_GetRow_def row_at_def)
  next
    case nz: False
    then have sn: "snd (slot_at p (unat s)) \<noteq> 0" by (simp flip: v add: unat_gt_0)
    then have b: "unat (sl_Offset sl) + unat (sl_Length sl) \<le> PageSize"
      using so by (simp add: slot_ok_def flip: v)
    then have u: "unat (sl_Offset sl + sl_Length sl) = unat (sl_Offset sl) + unat (sl_Length sl)"
      using unat_add_small [of "sl_Offset sl" "unat (sl_Length sl)"] by (simp add: layout)
    have "row_at p (unat s) = Some (slice (unat (sl_Offset sl))
        (unat (sl_Offset sl) + unat (sl_Length sl)) (pg_Data p))"
      using sn by (simp add: row_at_def flip: v)
    then show ?thesis using nz g nl lt row b u by (simp add: Page_GetRow_def in_page_def)
  qed
qed

lemma DeleteRow_refines:
  assumes ok: "page_ok p" and lt: "unat s < rows_of p"
  shows "\<exists>p'. Page_DeleteRow s p = (Ok (), p') \<and> page_ok p'
    \<and> page_rows p' = (page_rows p)[unat s := None]
    \<and> Page_ReadHeader p' = Page_ReadHeader p \<and> pg_ID p' = pg_ID p \<and> pg_Dirty p'"
proof -
  have nl: "\<not> h_RowCount (Page_ReadHeader p) \<le> s"
    using lt by (simp add: rows_of_def word_le_nat_alt)
  have r: "28 + 4 * unat s \<le> 4096" using slot_in_range [OF ok lt] by (simp add: layout)
  have len: "length (pg_Data p) = 4096" using ok by (simp add: page_ok_def layout)
  define q where "q = put_at (26 + 4 * unat s) (put16 0) (put_at (24 + 4 * unat s) (put16 0) p)"
  have hq: "Page_ReadHeader q = Page_ReadHeader p" using r len by (simp add: q_def layout)
  have lq: "length (pg_Data q) = PageSize" using r len by (simp add: q_def layout)
  have views: "rows_of q = rows_of p" "free_off q = free_off p" "free_end q = free_end p"
    by (simp_all add: rows_of_def free_off_def free_end_def hq)
  have foff: "free_off p = 24 + 4 * rows_of p" "free_off p \<le> free_end p"
    using ok by (simp_all add: page_ok_def layout)
  have slots: "slot_at q i = (if i = unat s then (0, 0) else slot_at p i)" for i
  proof (cases "i = unat s")
    case True
    then show ?thesis using r len by (simp add: slot_at_def q_def codec)
  next
    case False
    then have "i < unat s \<or> unat s < i" by arith
    then show ?thesis using r len by (auto simp: slot_at_def q_def codec)
  qed
  have win: "slice a b (pg_Data q) = slice a b (pg_Data p)" if "28 + 4 * unat s \<le> a" for a b
    using that r len by (simp add: q_def codec)
  have okq: "page_ok q"
    unfolding page_ok_def views
  proof (intro conjI allI impI)
    fix i assume "i < rows_of p"
    then show "slot_ok (free_end p) (slot_at q i)"
      using ok by (cases "i = unat s") (simp_all add: page_ok_def slots slot_ok_def)
  qed (use ok lq in \<open>simp_all add: page_ok_def\<close>)
  have rows: "row_at q i = (if i = unat s then None else row_at p i)" if i: "i < rows_of p" for i
  proof (cases "i = unat s \<or> snd (slot_at p i) = 0")
    case True
    then show ?thesis by (auto simp: row_at_def slots)
  next
    case False
    then have "free_end p \<le> fst (slot_at p i)"
      using ok i by (auto simp: page_ok_def slot_ok_def)
    then have "28 + 4 * unat s \<le> fst (slot_at p i)" using foff lt by simp
    then show ?thesis using False by (simp add: row_at_def slots win)
  qed
  have "page_rows q = (page_rows p)[unat s := None]"
    using lt by (intro nth_equalityI) (auto simp: page_rows_def views rows nth_list_update)
  moreover have "Page_DeleteRow s p = (Ok (), q\<lparr>pg_Dirty := True\<rparr>)"
    using nl setSlot_ok [OF slot_in_range [OF ok lt], of "\<lparr>sl_Offset = 0, sl_Length = 0\<rparr>" p]
    by (simp add: Page_DeleteRow_def q_def)
  moreover have "pg_ID q = pg_ID p" by (simp add: q_def)
  ultimately show ?thesis using okq hq by (intro exI [of _ "q\<lparr>pg_Dirty := True\<rparr>"]) simp
qed

lemma unat_FreeSpace: "page_ok p \<Longrightarrow> unat (Page_FreeSpace p) = free_end p - free_off p"
proof -
  assume ok: "page_ok p"
  then have le: "free_off p \<le> free_end p" "free_end p \<le> 4096"
    by (simp_all add: page_ok_def layout)
  define k where "k = free_end p - free_off p"
  have k: "int (free_end p) - int (free_off p) = int k" "k < 65536" using le by (simp_all add: k_def)
  have "Page_FreeSpace p = word_of_nat k"
    using k(1) unfolding Page_FreeSpace_def Let_def free_end_def [symmetric] free_off_def [symmetric]
    by (metis of_int_of_nat_eq of_nat_less_0_iff)
  moreover have "unat (word_of_nat k :: u16) = k" using k(2) by (simp add: unat_of_nat)
  ultimately show ?thesis using k_def by metis
qed

text \<open>The space test, exact up to 65531 bytes; the four longest row sizes wrap to 0..3.\<close>

lemma CanFit_iff:
  assumes "page_ok p" "n \<le> 65531"
  shows "Page_CanFit p (word_of_nat n) \<longleftrightarrow> n + SlotSize \<le> free_end p - free_off p"
proof -
  have "unat (word_of_nat n + word_of_nat 4 :: u16) = n + 4"
    using assms unat_add_small [of "word_of_nat n" 4] by (simp add: unat_of_nat)
  then show ?thesis using unat_FreeSpace [OF assms(1)]
    by (simp add: Page_CanFit_def word_le_nat_alt SlotSize_def)
qed

lemma CanFit_wraps:
  assumes "page_ok p" "65532 \<le> n" "n \<le> 65535"
  shows "Page_CanFit p (word_of_nat n) \<longleftrightarrow> n - 65532 \<le> free_end p - free_off p"
proof -
  have "(word_of_nat n :: u16) + 4 = word_of_nat (n + 4)" by simp
  then have "unat ((word_of_nat n :: u16) + 4) = (n + 4) mod 65536"
    by (simp only: unat_of_nat) simp
  moreover have "(n + 4) mod 65536 = n - 65532" using assms by (simp add: mod_if)
  ultimately show ?thesis using unat_FreeSpace [OF assms(1)]
    by (simp add: Page_CanFit_def word_le_nat_alt SlotSize_def)
qed

lemma InsertRow_refines:
  assumes ok: "page_ok p" and fit: "length d + SlotSize \<le> free_end p - free_off p"
  shows "\<exists>p'. Page_InsertRow d p = (Ok (h_RowCount (Page_ReadHeader p)), p') \<and> page_ok p'
    \<and> page_rows p' = page_rows p @ [if d = [] then None else Some d]
    \<and> h_TableID (Page_ReadHeader p') = h_TableID (Page_ReadHeader p)
    \<and> h_PageID (Page_ReadHeader p') = h_PageID (Page_ReadHeader p)
    \<and> free_end p' - free_off p' = free_end p - free_off p - (length d + SlotSize)
    \<and> pg_ID p' = pg_ID p \<and> pg_Dirty p'"
proof -
  let ?h = "Page_ReadHeader p"
  define r where "r = rows_of p"
  define ne where "ne = free_end p - length d"
  define sz where "sz = (word_of_nat (length d) :: u16)"
  define nE where "nE = h_FreeSpaceEnd ?h - sz"
  have foff: "free_off p = 24 + 4 * r" "free_off p \<le> free_end p" "free_end p \<le> 4096"
    and len: "length (pg_Data p) = 4096"
    using ok by (simp_all add: page_ok_def layout r_def)
  have bnd: "28 + 4 * r \<le> ne" "ne + length d = free_end p" "length d \<le> 4068"
    using fit foff by (simp_all add: layout ne_def)
  have sz: "unat sz = length d" using bnd by (simp add: sz_def unat_of_nat)
  have nE: "unat nE = ne"
    using bnd sz by (simp add: nE_def ne_def free_end_def unat_sub word_le_nat_alt)
  have nEsz: "unat (nE + sz) = free_end p"
    using unat_add_small [of nE "length d"] bnd foff sz by (simp add: sz_def nE)
  have rc: "unat (h_RowCount ?h) = r" by (simp add: r_def rows_of_def)
  have rc1: "unat (h_RowCount ?h + 1) = Suc r"
    using unat_add_small [of "h_RowCount ?h" 1] rc bnd foff by simp
  define h' where "h' = ?h\<lparr>h_RowCount := h_RowCount ?h + 1, h_FreeSpaceEnd := nE,
     h_FreeSpaceOff := word_of_nat HeaderSize + (h_RowCount ?h + 1) * word_of_nat SlotSize\<rparr>"
  define p1 where "p1 = put_at ne d p"
  define p2 where "p2 = put_at (26 + 4 * r) (put16 sz) (put_at (24 + 4 * r) (put16 nE) p1)"
  define p3 where "p3 = Page_writeHeader h' p2"
  have len2: "length (pg_Data p1) = PageSize" "length (pg_Data p2) = PageSize"
    using len bnd foff by (simp_all add: p1_def p2_def layout)
  have run: "Page_InsertRow d p = (Ok (h_RowCount ?h), p3\<lparr>pg_Dirty := True\<rparr>)"
  proof -
    have "Page_setSlot (h_RowCount ?h) \<lparr>sl_Offset = nE, sl_Length = sz\<rparr> p1 = (Ok (), p2)"
      using setSlot_ok [of "h_RowCount ?h"] bnd foff by (simp add: rc p2_def layout)
    moreover have "Page_CanFit p sz"
      unfolding sz_def by (subst CanFit_iff) (use ok fit bnd in auto)
    moreover have "in_page nE (nE + sz)"
      using bnd foff by (simp add: in_page_def nE nEsz layout)
    moreover have "put_at (unat nE) (take (unat (nE + sz) - unat nE) d) p = p1"
      using bnd by (simp add: nE nEsz p1_def)
    ultimately show ?thesis
      using bnd unfolding Page_InsertRow_def Let_def sz_def [symmetric] nE_def [symmetric]
      by (simp add: p3_def h'_def)
  qed
  have hdr: "Page_ReadHeader p3 = h'" using len2 by (simp add: p3_def)
  have v: "rows_of p3 = Suc r" "free_end p3 = ne" "free_off p3 = 28 + 4 * r"
    using rc1 unat_slot_off [of "h_RowCount ?h + 1"] bnd foff
    by (simp_all add: rows_of_def free_end_def free_off_def hdr h'_def nE slot_off_def layout)
  have win: "slice a b (pg_Data p3) = slice a b (pg_Data p1)"
    if "28 + 4 * r \<le> a \<or> (24 \<le> a \<and> b \<le> 24 + 4 * r)" for a b
    using that len len2 bnd foff by (auto simp: p3_def p2_def codec layout)
  have high: "slice a b (pg_Data p3) = slice a b (pg_Data p)" if "free_end p \<le> a" for a b
    using that win [of a b] len bnd foff by (simp add: p1_def codec)
  have low: "slice a b (pg_Data p3) = slice a b (pg_Data p)" if "24 \<le> a" "b \<le> 24 + 4 * r" for a b
    using that win [of a b] len bnd foff by (simp add: p1_def codec)
  have new: "slice ne (ne + length d) (pg_Data p3) = d"
    using win [of ne "ne + length d"] len bnd foff by (simp add: p1_def codec)
  have slots: "slot_at p3 i = (if i = r then (ne, length d) else slot_at p i)" if "i \<le> r" for i
  proof (cases "i = r")
    case True
    have "slice (24 + 4 * r) (26 + 4 * r) (pg_Data p3) = put16 nE"
      "slice (26 + 4 * r) (28 + 4 * r) (pg_Data p3) = put16 sz"
      using len2 bnd foff by (simp_all add: p3_def p2_def codec layout)
    then show ?thesis using True by (simp add: slot_at_def nE sz)
  next
    case False
    then show ?thesis using that by (simp add: slot_at_def low)
  qed
  have okp: "slot_ok (free_end p) (slot_at p i)" if "i < r" for i
    using ok that by (simp add: page_ok_def r_def)
  have ok3: "page_ok p3"
    unfolding page_ok_def v
  proof (intro conjI allI impI)
    fix i assume i: "i < Suc r"
    then show "slot_ok ne (slot_at p3 i)"
      using okp [of i] slots [of i] bnd foff by (cases "i = r") (auto simp: slot_ok_def layout)
  qed (use len2 bnd foff in \<open>simp_all add: layout p3_def\<close>)
  have rows: "row_at p3 i = row_at p i" if i: "i < r" for i
    using i slots [of i] okp [OF i] by (auto simp: row_at_def slot_ok_def high)
  have newrow: "row_at p3 r = (if d = [] then None else Some d)"
    using slots [of r] new by (simp add: row_at_def)
  have "page_rows p3 = page_rows p @ [if d = [] then None else Some d]"
    by (simp add: page_rows_def v r_def [symmetric] newrow rows)
  moreover have "pg_ID p3 = pg_ID p" by (simp add: p3_def p2_def p1_def)
  moreover have "free_end p3 - free_off p3 = free_end p - free_off p - (length d + SlotSize)"
    using bnd foff by (simp add: v layout)
  ultimately show ?thesis using run ok3 hdr
    by (intro exI [of _ "p3\<lparr>pg_Dirty := True\<rparr>"]) (simp add: h'_def)
qed

lemma InsertRow_no_space:
  assumes "page_ok p" "length d \<le> 65531" "free_end p - free_off p < length d + SlotSize"
  shows "Page_InsertRow d p = (Err NoSpaceOnPage, p)"
  using CanFit_iff [OF assms(1,2)] assms by (simp add: Page_InsertRow_def)

lemma InsertRow_too_long:
  "65535 < length d \<Longrightarrow> Page_InsertRow d p = (Err (RowTooLong (length d)), p)"
  by (simp add: Page_InsertRow_def)

lemma InsertRow_wrapped_size:
  assumes ok: "page_ok p" and d: "65532 \<le> length d" "length d \<le> 65535"
    and sp: "length d - 65532 \<le> free_end p - free_off p"
  shows "Page_InsertRow d p = (Panic, p)"
proof -
  define sz where "sz = (word_of_nat (length d) :: u16)"
  define e where "e = h_FreeSpaceEnd (Page_ReadHeader p)"
  have sz: "unat sz = length d" using d by (simp add: sz_def unat_of_nat)
  have e: "unat e \<le> 4096" using ok by (simp add: page_ok_def free_end_def e_def layout)
  have lt: "unat e < unat sz" using e sz d by simp
  have "unat (e - sz) = unat e + 65536 - length d"
    using lt sz by (simp add: unat_sub_if')
  moreover have "unat (e - sz + sz) = unat e" by simp
  moreover have "unat e < unat e + 65536 - length d" using d by arith
  ultimately have "\<not> in_page (e - sz) (e - sz + sz)" by (simp add: in_page_def)
  moreover have "Page_CanFit p sz" using CanFit_wraps [OF ok d] sp by (simp add: sz_def)
  ultimately show ?thesis
    using d unfolding Page_InsertRow_def Let_def sz_def [symmetric] e_def [symmetric] by simp
qed

end
