(* ===== verification/Disk.thy ===== *)
theory Disk imports Page begin

text \<open>
  \<^verbatim>\<open>pkg/storage/disk_manager.go\<close> and \<^verbatim>\<open>index_adapter.go\<close>. The database file is its bytes;
  \<^verbatim>\<open>ReadAt\<close> and \<^verbatim>\<open>WriteAt\<close> follow package os: a negative offset is an error, a read past the
  end is short, a write past the end fills the gap with zero bytes. The operating system
  may refuse any page: \<open>dm_rfail\<close> and \<open>dm_wfail\<close> say for which pages a read or a write
  returns an I/O error. A file that cannot be opened is outside the model: \<^verbatim>\<open>NewDiskManager\<close> then gives
  its error and no disk manager.
\<close>

record DiskManager =
  dm_file :: "byte list"
  dm_pageCount :: u64
  dm_rfail :: "u64 \<Rightarrow> bool"
  dm_wfail :: "u64 \<Rightarrow> bool"

definition NewDiskManager :: "byte list \<Rightarrow> (u64 \<Rightarrow> bool) \<Rightarrow> (u64 \<Rightarrow> bool) \<Rightarrow> DiskManager" where
  "NewDiskManager content rfail wfail =
     (let pageCount = word_of_nat (length content) div word_of_nat PageSize in
      \<lparr>dm_file = content, dm_pageCount = (if pageCount = 0 then 1 else pageCount),
       dm_rfail = rfail, dm_wfail = wfail\<rparr>)"

text \<open>\<^verbatim>\<open>int64(pageID * PageSize)\<close>: the product wraps at 64 bits and may be negative.\<close>

definition page_offset :: "u64 \<Rightarrow> u64" where
  "page_offset pageID = pageID * word_of_nat PageSize"

definition read_at :: "nat \<Rightarrow> byte list \<Rightarrow> byte list" where
  "read_at off file = take PageSize (drop off file)"

definition write_at :: "nat \<Rightarrow> byte list \<Rightarrow> byte list \<Rightarrow> byte list" where
  "write_at off bs file =
     take off (file @ replicate (off - length file) 0) @ bs @ drop (off + length bs) file"

definition DiskManager_ReadPage :: "u64 \<Rightarrow> DiskManager \<Rightarrow> (storage_err, page) outcome" where
  "DiskManager_ReadPage pageID dm =
     (let offset = page_offset pageID in
      if sint offset < 0 \<or> dm_rfail dm pageID then Err (CannotReadPage pageID)
      else let got = read_at (unat offset) (dm_file dm);
               page = \<lparr>pg_Data = got @ replicate (PageSize - length got) 0, pg_ID = pageID,
                       pg_Dirty = False\<rparr>
        in if length got = 0 \<or> h_PageID (Page_ReadHeader page) \<noteq> pageID
           then Ok (NewPage pageID) else Ok page)"

definition DiskManager_WritePage ::
    "page \<Rightarrow> DiskManager \<Rightarrow> (storage_err, unit) outcome \<times> page \<times> DiskManager" where
  "DiskManager_WritePage page dm =
     (let offset = page_offset (pg_ID page) in
      if sint offset < 0 \<or> dm_wfail dm (pg_ID page)
      then (Err (CannotWritePage (pg_ID page)), page, dm)
      else let dm1 = dm\<lparr>dm_file := write_at (unat offset) (pg_Data page) (dm_file dm)\<rparr>;
               dm2 = (if pg_ID page \<ge> dm_pageCount dm1
                      then dm1\<lparr>dm_pageCount := pg_ID page + 1\<rparr> else dm1)
        in (Ok (), page\<lparr>pg_Dirty := False\<rparr>, dm2))"

definition DiskManager_AllocatePage :: "DiskManager \<Rightarrow> u64 \<times> DiskManager" where
  "DiskManager_AllocatePage dm = (dm_pageCount dm, dm\<lparr>dm_pageCount := dm_pageCount dm + 1\<rparr>)"

definition DiskManager_PageCount :: "DiskManager \<Rightarrow> u64" where
  "DiskManager_PageCount dm = dm_pageCount dm"

section \<open>IndexDiskAdapter\<close>

definition Adapter_AllocatePage :: "DiskManager \<Rightarrow> u64 \<times> DiskManager" where
  "Adapter_AllocatePage dm = DiskManager_AllocatePage dm"

definition Adapter_ReadPage :: "u64 \<Rightarrow> DiskManager \<Rightarrow> (storage_err, byte list) outcome" where
  "Adapter_ReadPage pageID dm = bind_out (DiskManager_ReadPage pageID dm) (\<lambda>page. Ok (pg_Data page))"

text \<open>\<^verbatim>\<open>copy(page.Data[:], data)\<close> copies at most 4096 bytes over a zeroed array.\<close>

definition Adapter_WritePage ::
    "u64 \<Rightarrow> byte list \<Rightarrow> DiskManager \<Rightarrow> (storage_err, unit) outcome \<times> DiskManager" where
  "Adapter_WritePage pageID data dm =
     (let page = \<lparr>pg_Data = overwrite 0 (take PageSize data) (replicate PageSize 0),
                  pg_ID = pageID, pg_Dirty = True\<rparr>;
          (r, _, dm') = DiskManager_WritePage page dm
      in (r, dm'))"

section \<open>Reading back what was written\<close>

text \<open>A file is whole when it ends at a page boundary, as every file this code writes does.\<close>

definition disk_ok :: "DiskManager \<Rightarrow> bool" where
  "disk_ok dm \<longleftrightarrow> PageSize dvd length (dm_file dm)"

text \<open>A page number the file offsets can reach without going negative.\<close>

definition pid_ok :: "u64 \<Rightarrow> bool" where
  "pid_ok pid \<longleftrightarrow> unat pid < 2 ^ 51"

lemma unat_page_offset: "pid_ok pid \<Longrightarrow> unat (page_offset pid) = unat pid * PageSize"
proof -
  assume p: "pid_ok pid"
  have "unat (pid * 4096) = unat pid * 4096 mod 2 ^ 64" by (simp add: unat_word_ariths)
  also have "\<dots> = unat pid * 4096" using p by (simp add: pid_ok_def)
  finally show ?thesis by (simp add: page_offset_def layout)
qed

lemma sint_small: "unat (w :: u64) < 2 ^ 63 \<Longrightarrow> sint w = int (unat w)"
proof -
  assume "unat w < 2 ^ 63"
  then have "int (unat w) < int (2 ^ 63)" by (simp only: of_nat_less_iff)
  then have "uint w < 2 ^ 63" by simp
  then have "signed_take_bit 63 (uint w) = uint w"
    by (intro signed_take_bit_int_eq_self) (auto intro: order_trans [OF _ uint_nonnegative])
  then show ?thesis by (simp add: sint_uint)
qed

lemma page_offset_nonneg: "pid_ok pid \<Longrightarrow> \<not> sint (page_offset pid) < 0"
  using sint_small [of "page_offset pid"] unat_page_offset [of pid]
  by (simp add: pid_ok_def layout)

lemma length_write_at: "length (write_at off bs file) = max (length file) (off + length bs)"
  by (simp add: write_at_def)

lemma read_write_same:
  "length bs = PageSize \<Longrightarrow> read_at off (write_at off bs file) = bs"
  by (simp add: read_at_def write_at_def)

lemma drop_write_before:
  assumes "k + PageSize \<le> off"
  shows "read_at k (write_at off bs file) =
    take PageSize (drop k file @ replicate (off - max k (length file)) 0)"
proof -
  have "drop k (write_at off bs file) = drop k (take off (file @ replicate (off - length file) 0))
      @ bs @ drop (off + length bs) file"
    using assms by (simp add: write_at_def)
  moreover have "length (drop k (take off (file @ replicate (off - length file) 0))) = off - k"
    by simp
  ultimately have "read_at k (write_at off bs file)
      = take PageSize (drop k (take off (file @ replicate (off - length file) 0)))"
    using assms by (simp add: read_at_def)
  also have "\<dots> = take PageSize (drop k (file @ replicate (off - length file) 0))"
    using assms by (simp add: drop_take min_def)
  also have "drop k (file @ replicate (off - length file) 0)
      = drop k file @ replicate (off - max k (length file)) 0"
    by (cases "k \<le> length file") (auto simp: max_def)
  finally show ?thesis .
qed

lemma read_write_after:
  assumes "off + length bs \<le> k"
  shows "read_at k (write_at off bs file) = read_at k file"
proof -
  have gap: "min (length file) off + (off - length file) = off" by auto
  have "drop k (write_at off bs file) = drop (k - (off + length bs)) (drop (off + length bs) file)"
    using assms by (simp add: write_at_def gap)
  then show ?thesis using assms by (simp add: read_at_def)
qed

section \<open>The disk as a map from page numbers to page contents\<close>

definition stored_id :: "byte list \<Rightarrow> u64" where
  "stored_id bs = get64 (slice 0 8 bs)"

definition disk_data :: "DiskManager \<Rightarrow> u64 \<Rightarrow> byte list" where
  "disk_data dm pid =
     (let got = read_at (unat pid * PageSize) (dm_file dm) in
      if got = [] \<or> stored_id got \<noteq> pid then pg_Data (NewPage pid) else got)"

lemma h_PageID_stored: "h_PageID (Page_ReadHeader p) = stored_id (pg_Data p)"
  by (simp add: Page_ReadHeader_def stored_id_def)

lemma read_at_whole:
  assumes "disk_ok dm"
  shows "read_at (k * PageSize) (dm_file dm) = [] \<or> length (read_at (k * PageSize) (dm_file dm)) = PageSize"
proof -
  obtain m where m: "length (dm_file dm) = PageSize * m" using assms by (auto simp: disk_ok_def)
  show ?thesis
  proof (cases "k < m")
    case True
    then have "k * PageSize + PageSize \<le> m * PageSize"
      by (metis Suc_leI add.commute mult_Suc mult_le_mono1)
    then show ?thesis by (simp add: read_at_def m mult.commute)
  next
    case False
    then have "length (dm_file dm) \<le> k * PageSize" by (simp add: m mult.commute)
    then show ?thesis by (simp add: read_at_def)
  qed
qed

lemma ReadPage_disk_data:
  assumes "disk_ok dm" "pid_ok pid" "\<not> dm_rfail dm pid"
  shows "DiskManager_ReadPage pid dm = Ok \<lparr>pg_Data = disk_data dm pid, pg_ID = pid, pg_Dirty = False\<rparr>"
proof -
  have new: "NewPage pid = \<lparr>pg_Data = pg_Data (NewPage pid), pg_ID = pid, pg_Dirty = False\<rparr>"
    by (rule page.equality) simp_all
  show ?thesis
    using read_at_whole [OF assms(1), of "unat pid"] page_offset_nonneg [OF assms(2)] assms(3) new
    by (auto simp: DiskManager_ReadPage_def disk_data_def unat_page_offset [OF assms(2)]
        h_PageID_stored Let_def)
qed

lemma length_disk_data: "disk_ok dm \<Longrightarrow> length (disk_data dm pid) = PageSize"
  using read_at_whole [of dm "unat pid"] by (auto simp: disk_data_def Let_def)

lemma stored_id_NewPage [simp]: "stored_id (pg_Data (NewPage pid)) = pid"
  using ReadHeader_NewPage [of pid] by (simp flip: h_PageID_stored)

lemma stored_id_disk_data [simp]: "stored_id (disk_data dm pid) = pid"
  by (auto simp: disk_data_def Let_def)

lemma stored_id_zeros: "stored_id (replicate n 0) = 0"
proof -
  have "le_nat (replicate k 0) = 0" for k by (induction k) simp_all
  then show ?thesis by (simp add: stored_id_def slice_def get64_def)
qed

text \<open>A page as the pool holds it: full length, and its header names it.\<close>

definition page_wf :: "page \<Rightarrow> bool" where
  "page_wf p \<longleftrightarrow> length (pg_Data p) = PageSize \<and> stored_id (pg_Data p) = pg_ID p"

lemma disk_data_write_same:
  assumes "page_wf p"
  shows "disk_data (dm\<lparr>dm_file := write_at (unat (pg_ID p) * PageSize) (pg_Data p) f, dm_pageCount := c\<rparr>)
    (pg_ID p) = pg_Data p"
  using assms read_write_same [of "pg_Data p"]
  by (auto simp: disk_data_def page_wf_def Let_def layout)

lemma pages_apart: "k < (m::nat) \<Longrightarrow> k * PageSize + PageSize \<le> m * PageSize"
  by (metis Suc_leI add.commute mult_Suc mult_le_mono1)

lemma disk_data_write_other:
  assumes ok: "disk_ok dm" and len: "length bs = PageSize" and ne: "pid \<noteq> q" and nz: "pid \<noteq> 0"
  shows "disk_data (dm\<lparr>dm_file := write_at (unat q * PageSize) bs (dm_file dm), dm_pageCount := c\<rparr>) pid
    = disk_data dm pid"
proof (cases "unat q < unat pid")
  case True
  then have "unat q * PageSize + length bs \<le> unat pid * PageSize"
    using pages_apart len by simp
  then show ?thesis by (simp add: disk_data_def read_write_after)
next
  case False
  then have "unat pid < unat q" using ne by (simp add: word_unat_eq_iff)
  then have gap: "unat pid * PageSize + PageSize \<le> unat q * PageSize" by (rule pages_apart)
  let ?k = "unat pid * PageSize" and ?o = "unat q * PageSize"
  have r: "read_at ?k (write_at ?o bs (dm_file dm)) =
      take PageSize (drop ?k (dm_file dm) @ replicate (?o - max ?k (length (dm_file dm))) 0)"
    by (rule drop_write_before [OF gap])
  show ?thesis
  proof (cases "read_at ?k (dm_file dm) = []")
    case True
    then have "length (dm_file dm) \<le> ?k" by (simp add: read_at_def layout)
    then have "read_at ?k (write_at ?o bs (dm_file dm)) = replicate PageSize 0"
      using r gap by (simp add: max_def min_def)
    then show ?thesis using True nz stored_id_zeros [of PageSize]
      by (auto simp: disk_data_def layout)
  next
    case False
    then have "length (read_at ?k (dm_file dm)) = PageSize" using read_at_whole [OF ok] by blast
    then have "PageSize \<le> length (drop ?k (dm_file dm))" by (auto simp: read_at_def)
    then have "read_at ?k (write_at ?o bs (dm_file dm)) = read_at ?k (dm_file dm)"
      using r by (simp add: read_at_def)
    then show ?thesis by (simp add: disk_data_def)
  qed
qed

lemma disk_ok_write:
  assumes "disk_ok dm" "length bs = PageSize"
  shows "disk_ok (dm\<lparr>dm_file := write_at (k * PageSize) bs (dm_file dm), dm_pageCount := c\<rparr>)"
proof -
  have "PageSize dvd k * PageSize + PageSize" by simp
  then show ?thesis using assms by (simp add: disk_ok_def length_write_at max_def)
qed

lemma disk_data_pageCount [simp]: "disk_data (dm\<lparr>dm_pageCount := c\<rparr>) pid = disk_data dm pid"
  by (simp add: disk_data_def)

text \<open>\<^verbatim>\<open>WritePage\<close> of a well-formed page stores exactly that page.\<close>

lemma WritePage_spec:
  assumes "disk_ok dm" "page_wf p" "pid_ok (pg_ID p)" "\<not> dm_wfail dm (pg_ID p)"
  shows "\<exists>dm'. DiskManager_WritePage p dm = (Ok (), p\<lparr>pg_Dirty := False\<rparr>, dm')
    \<and> disk_ok dm' \<and> disk_data dm' (pg_ID p) = pg_Data p
    \<and> (\<forall>pid. pid \<noteq> pg_ID p \<longrightarrow> pid \<noteq> 0 \<longrightarrow> disk_data dm' pid = disk_data dm pid)
    \<and> dm_pageCount dm' = (if pg_ID p \<ge> dm_pageCount dm then pg_ID p + 1 else dm_pageCount dm)
    \<and> dm_rfail dm' = dm_rfail dm \<and> dm_wfail dm' = dm_wfail dm"
proof -
  define c where "c = (if pg_ID p \<ge> dm_pageCount dm then pg_ID p + 1 else dm_pageCount dm)"
  define dm' where "dm' = dm\<lparr>dm_file := write_at (unat (pg_ID p) * PageSize) (pg_Data p) (dm_file dm),
    dm_pageCount := c\<rparr>"
  have "DiskManager_WritePage p dm = (Ok (), p\<lparr>pg_Dirty := False\<rparr>, dm')"
    using page_offset_nonneg [OF assms(3)] assms(4)
    by (simp add: DiskManager_WritePage_def Let_def unat_page_offset [OF assms(3)] dm'_def c_def)
  moreover have "length (pg_Data p) = PageSize" using assms(2) by (simp add: page_wf_def)
  ultimately show ?thesis
    using assms disk_data_write_same [OF assms(2)] disk_data_write_other [OF assms(1)]
      disk_ok_write [OF assms(1)]
    by (intro exI [of _ dm']) (auto simp: dm'_def c_def)
qed

end
