(* ===== verification/BufferPool.thy ===== *)
theory BufferPool imports Disk begin

text \<open>
  \<^verbatim>\<open>pkg/storage/buffer_pool.go\<close>: the page cache. A \<^verbatim>\<open>*Page\<close> handed out by \<^verbatim>\<open>FetchPage\<close> is the
  index of the frame that holds it: the callers use the pointer only while the page is
  pinned, and a pinned frame is never reused. An element of the LRU list is identified
  with the frame index it carries (the invariant shows each index occurs at most once);
  the list is front to back. \<open>view\<close> is what a reader of a page sees, from the cache or from
  the disk, \<open>pins\<close> how often a page is pinned: the cache must change neither behind a
  caller's back.
\<close>

section \<open>State and operations\<close>

record Frame =
  fr_Page :: "page option"
  fr_PinCount :: nat
  fr_LRUNode :: "nat option"

record BufferPool =
  bp_frames :: "Frame list"
  bp_pageMap :: "u64 \<Rightarrow> nat option"
  bp_lruList :: "nat list"
  bp_capacity :: nat

record store =
  st_bp :: BufferPool
  st_disk :: DiskManager

definition NewBufferPool :: "nat \<Rightarrow> BufferPool" where
  "NewBufferPool capacity =
     \<lparr>bp_frames = replicate capacity \<lparr>fr_Page = None, fr_PinCount = 0, fr_LRUNode = None\<rparr>,
      bp_pageMap = (\<lambda>_. None), bp_lruList = [], bp_capacity = capacity\<rparr>"

fun free_from :: "nat \<Rightarrow> Frame list \<Rightarrow> nat option" where
  "free_from i [] = None"
| "free_from i (f # fs) = (if fr_Page f = None then Some i else free_from (Suc i) fs)"

definition BufferPool_findFreeFrame :: "BufferPool \<Rightarrow> nat option" where
  "BufferPool_findFreeFrame bp = free_from 0 (bp_frames bp)"

text \<open>The body of \<^verbatim>\<open>evictPage\<close> once a victim is found: unmap it, unlink it, empty the frame.\<close>

definition drop_frame :: "nat \<Rightarrow> page \<Rightarrow> BufferPool \<Rightarrow> BufferPool" where
  "drop_frame idx page bp =
     bp\<lparr>bp_pageMap := (bp_pageMap bp)(pg_ID page := None),
        bp_lruList := remove1 idx (bp_lruList bp),
        bp_frames := (bp_frames bp)[idx := (bp_frames bp ! idx)\<lparr>fr_Page := None, fr_LRUNode := None\<rparr>]\<rparr>"

fun evict_scan :: "nat list \<Rightarrow> store \<Rightarrow> (storage_err, unit) outcome \<times> store" where
  "evict_scan [] st = (Err AllPagesPinned, st)"
| "evict_scan (idx # back) st =
     (let frame = bp_frames (st_bp st) ! idx in
      if fr_PinCount frame = 0 then
        (case fr_Page frame of
           None \<Rightarrow> (Panic, st)
         | Some page \<Rightarrow>
             if pg_Dirty page then
               (case DiskManager_WritePage page (st_disk st) of
                  (Ok _, page', d) \<Rightarrow> (Ok (), st\<lparr>st_disk := d, st_bp := drop_frame idx page' (st_bp st)\<rparr>)
                | (r, page', d) \<Rightarrow> (r, st\<lparr>st_disk := d\<rparr>))
             else (Ok (), st\<lparr>st_bp := drop_frame idx page (st_bp st)\<rparr>))
      else evict_scan back st)"

definition BufferPool_evictPage :: "store \<Rightarrow> (storage_err, unit) outcome \<times> store" where
  "BufferPool_evictPage st = evict_scan (rev (bp_lruList (st_bp st))) st"

text \<open>\<^verbatim>\<open>list.MoveToFront\<close> of an element, nil included (which panics).\<close>

definition move_front :: "nat option \<Rightarrow> nat list \<Rightarrow> nat list option" where
  "move_front node l = (case node of None \<Rightarrow> None | Some e \<Rightarrow> Some (e # remove1 e l))"

definition load_frame :: "u64 \<Rightarrow> nat \<Rightarrow> page \<Rightarrow> BufferPool \<Rightarrow> BufferPool" where
  "load_frame pageID frameIdx page bp =
     (let frame = bp_frames bp ! frameIdx;
          pm = (case fr_Page frame of None \<Rightarrow> bp_pageMap bp
                | Some old \<Rightarrow> (bp_pageMap bp)(pg_ID old := None))
      in bp\<lparr>bp_frames := (bp_frames bp)[frameIdx :=
               \<lparr>fr_Page = Some page, fr_PinCount = 1, fr_LRUNode = Some frameIdx\<rparr>],
            bp_lruList := frameIdx # bp_lruList bp,
            bp_pageMap := pm(pageID \<mapsto> frameIdx)\<rparr>)"

definition read_into :: "u64 \<Rightarrow> nat option \<Rightarrow> store \<Rightarrow> (storage_err, nat) outcome \<times> store" where
  "read_into pageID slot st =
     (case DiskManager_ReadPage pageID (st_disk st) of
        Ok page \<Rightarrow>
          (case slot of
             None \<Rightarrow> (Panic, st)
           | Some frameIdx \<Rightarrow> (Ok frameIdx, st\<lparr>st_bp := load_frame pageID frameIdx page (st_bp st)\<rparr>))
      | Err e \<Rightarrow> (Err e, st)
      | Panic \<Rightarrow> (Panic, st)
      | Hang \<Rightarrow> (Hang, st))"

definition BufferPool_FetchPage :: "u64 \<Rightarrow> store \<Rightarrow> (storage_err, nat) outcome \<times> store" where
  "BufferPool_FetchPage pageID st =
     (let bp = st_bp st in
      case bp_pageMap bp pageID of
        Some idx \<Rightarrow>
          (let frame = bp_frames bp ! idx;
               frame' = frame\<lparr>fr_PinCount := fr_PinCount frame + 1\<rparr>;
               bp' = bp\<lparr>bp_frames := (bp_frames bp)[idx := frame']\<rparr>
           in case move_front (fr_LRUNode frame) (bp_lruList bp) of
                None \<Rightarrow> (Panic, st\<lparr>st_bp := bp'\<rparr>)
              | Some l \<Rightarrow> (Ok idx, st\<lparr>st_bp := bp'\<lparr>bp_lruList := l\<rparr>\<rparr>))
      | None \<Rightarrow>
          (case BufferPool_findFreeFrame bp of
             Some frameIdx \<Rightarrow> read_into pageID (Some frameIdx) st
           | None \<Rightarrow>
               (case BufferPool_evictPage st of
                  (Ok _, st1) \<Rightarrow> read_into pageID (BufferPool_findFreeFrame (st_bp st1)) st1
                | (Err e, st1) \<Rightarrow> (Err e, st1)
                | (Panic, st1) \<Rightarrow> (Panic, st1)
                | (Hang, st1) \<Rightarrow> (Hang, st1))))"

definition mark_dirty :: "bool \<Rightarrow> page option \<Rightarrow> page option" where
  "mark_dirty dirty p = map_option (\<lambda>page. if dirty then page\<lparr>pg_Dirty := True\<rparr> else page) p"

definition BufferPool_UnpinPage :: "u64 \<Rightarrow> bool \<Rightarrow> store \<Rightarrow> (storage_err, unit) outcome \<times> store" where
  "BufferPool_UnpinPage pageID dirty st =
     (let bp = st_bp st in
      case bp_pageMap bp pageID of
        None \<Rightarrow> (Ok (), st)
      | Some idx \<Rightarrow>
          (let frame = bp_frames bp ! idx;
               frame1 = frame\<lparr>fr_PinCount := fr_PinCount frame - 1\<rparr>;
               frame2 = frame1\<lparr>fr_Page := mark_dirty dirty (fr_Page frame1)\<rparr>
           in (if dirty \<and> fr_Page frame = None then Panic else Ok (),
               st\<lparr>st_bp := bp\<lparr>bp_frames := (bp_frames bp)[idx := frame2]\<rparr>\<rparr>)))"

text \<open>\<^verbatim>\<open>FlushAll\<close> writes the dirty frames in order and stops at the first write that fails.\<close>

fun flush_from :: "nat \<Rightarrow> Frame list \<Rightarrow> DiskManager
    \<Rightarrow> (storage_err, unit) outcome \<times> Frame list \<times> DiskManager" where
  "flush_from i [] d = (Ok (), [], d)"
| "flush_from i (f # fs) d =
     (case fr_Page f of
        Some page \<Rightarrow>
          if pg_Dirty page then
            (case DiskManager_WritePage page d of
               (Ok _, page', d') \<Rightarrow>
                 (let (r, fs', d'') = flush_from (Suc i) fs d'
                  in (r, f\<lparr>fr_Page := Some page'\<rparr> # fs', d''))
             | (r, page', d') \<Rightarrow> (map_err (FlushFailed i) r, f\<lparr>fr_Page := Some page'\<rparr> # fs, d'))
          else (let (r, fs', d'') = flush_from (Suc i) fs d in (r, f # fs', d''))
      | None \<Rightarrow> (let (r, fs', d'') = flush_from (Suc i) fs d in (r, f # fs', d'')))"

definition BufferPool_FlushAll :: "store \<Rightarrow> (storage_err, unit) outcome \<times> store" where
  "BufferPool_FlushAll st =
     (let (r, fs, d) = flush_from 0 (bp_frames (st_bp st)) (st_disk st)
      in (r, st\<lparr>st_disk := d, st_bp := (st_bp st)\<lparr>bp_frames := fs\<rparr>\<rparr>))"

text \<open>A caller that holds the page pointer of frame \<open>idx\<close> reads and mutates the page in place.\<close>

definition page_at :: "nat \<Rightarrow> store \<Rightarrow> page option" where
  "page_at idx st = (if idx < length (bp_frames (st_bp st)) then fr_Page (bp_frames (st_bp st) ! idx) else None)"

definition set_page :: "nat \<Rightarrow> page \<Rightarrow> store \<Rightarrow> store" where
  "set_page idx p st = st\<lparr>st_bp := (st_bp st)\<lparr>bp_frames :=
     (bp_frames (st_bp st))[idx := (bp_frames (st_bp st) ! idx)\<lparr>fr_Page := Some p\<rparr>]\<rparr>\<rparr>"

section \<open>Invariant and views\<close>

definition frame_pid :: "Frame \<Rightarrow> u64 option" where
  "frame_pid f = map_option pg_ID (fr_Page f)"

definition map_ok :: "BufferPool \<Rightarrow> bool" where
  "map_ok bp \<longleftrightarrow> (\<forall>pid i. bp_pageMap bp pid = Some i \<longleftrightarrow>
     i < length (bp_frames bp) \<and> frame_pid (bp_frames bp ! i) = Some pid)"

definition lru_ok :: "BufferPool \<Rightarrow> bool" where
  "lru_ok bp \<longleftrightarrow> distinct (bp_lruList bp) \<and>
     (\<forall>i. i \<in> set (bp_lruList bp) \<longleftrightarrow> i < length (bp_frames bp) \<and> fr_Page (bp_frames bp ! i) \<noteq> None) \<and>
     (\<forall>i < length (bp_frames bp). fr_Page (bp_frames bp ! i) \<noteq> None \<longrightarrow> fr_LRUNode (bp_frames bp ! i) = Some i)"

definition cached_ok :: "DiskManager \<Rightarrow> page \<Rightarrow> bool" where
  "cached_ok d p \<longleftrightarrow> page_wf p \<and> pid_ok (pg_ID p) \<and>
     (\<not> pg_Dirty p \<longrightarrow> pg_ID p \<noteq> 0 \<longrightarrow> pg_Data p = disk_data d (pg_ID p))"

definition frame_ok :: "DiskManager \<Rightarrow> Frame \<Rightarrow> bool" where
  "frame_ok d f \<longleftrightarrow> (\<forall>p. fr_Page f = Some p \<longrightarrow> cached_ok d p)"

definition pool_ok :: "store \<Rightarrow> bool" where
  "pool_ok st \<longleftrightarrow> disk_ok (st_disk st) \<and> map_ok (st_bp st) \<and> lru_ok (st_bp st) \<and>
     (\<forall>f \<in> set (bp_frames (st_bp st)). frame_ok (st_disk st) f)"

definition view :: "store \<Rightarrow> u64 \<Rightarrow> byte list" where
  "view st pid = (case bp_pageMap (st_bp st) pid of
       Some i \<Rightarrow> (case fr_Page (bp_frames (st_bp st) ! i) of Some p \<Rightarrow> pg_Data p | None \<Rightarrow> [])
     | None \<Rightarrow> disk_data (st_disk st) pid)"

definition pins :: "store \<Rightarrow> u64 \<Rightarrow> nat" where
  "pins st pid = (case bp_pageMap (st_bp st) pid of
       Some i \<Rightarrow> fr_PinCount (bp_frames (st_bp st) ! i) | None \<Rightarrow> 0)"

text \<open>Two stores show a caller the same pages. Page 0 is never used for rows.\<close>

definition same_view :: "store \<Rightarrow> store \<Rightarrow> bool" where
  "same_view st st' \<longleftrightarrow> (\<forall>pid. pid \<noteq> 0 \<longrightarrow> view st' pid = view st pid)"

text \<open>What no pool operation changes: the I/O faults of the disk.\<close>

definition same_faults :: "DiskManager \<Rightarrow> DiskManager \<Rightarrow> bool" where
  "same_faults d d' \<longleftrightarrow> dm_rfail d' = dm_rfail d \<and> dm_wfail d' = dm_wfail d"


lemma same_view_refl [simp]: "same_view st st"
  by (simp add: same_view_def)

lemma same_view_trans: "same_view a b \<Longrightarrow> same_view b c \<Longrightarrow> same_view a c"
  by (simp add: same_view_def)

lemma same_faults_refl [simp]: "same_faults d d"
  by (simp add: same_faults_def)

lemma same_faults_trans: "same_faults a b \<Longrightarrow> same_faults b c \<Longrightarrow> same_faults a c"
  by (simp add: same_faults_def)

lemma frame_pid_simps [simp]:
  "frame_pid (f\<lparr>fr_Page := Some p\<rparr>) = Some (pg_ID p)" "frame_pid (f\<lparr>fr_Page := None\<rparr>) = None"
  "frame_pid (f\<lparr>fr_PinCount := n\<rparr>) = frame_pid f" "frame_pid (f\<lparr>fr_LRUNode := l\<rparr>) = frame_pid f"
  "frame_pid \<lparr>fr_Page = Some p, fr_PinCount = n, fr_LRUNode = l\<rparr> = Some (pg_ID p)"
  by (simp_all add: frame_pid_def)

lemma frame_pid_Some: "frame_pid f = Some pid \<longleftrightarrow> (\<exists>p. fr_Page f = Some p \<and> pg_ID p = pid)"
  by (simp add: frame_pid_def)

lemma frame_pid_None: "frame_pid f = None \<longleftrightarrow> fr_Page f = None"
  by (simp add: frame_pid_def)

lemma map_okD: "map_ok bp \<Longrightarrow> bp_pageMap bp pid = Some i \<Longrightarrow>
    i < length (bp_frames bp) \<and> (\<exists>p. fr_Page (bp_frames bp ! i) = Some p \<and> pg_ID p = pid)"
  by (auto simp: map_ok_def frame_pid_Some)

lemma map_okI': "map_ok bp \<Longrightarrow> i < length (bp_frames bp) \<Longrightarrow> fr_Page (bp_frames bp ! i) = Some p \<Longrightarrow>
    bp_pageMap bp (pg_ID p) = Some i"
  by (auto simp: map_ok_def frame_pid_Some)

lemma map_ok_frame: "map_ok bp \<Longrightarrow> i < length (bp_frames bp) \<Longrightarrow> frame_pid (bp_frames bp ! i) = Some pid \<Longrightarrow>
    bp_pageMap bp pid = Some i"
  by (simp add: map_ok_def)

lemma map_ok_update:
  assumes "map_ok bp" "frame_pid f = frame_pid (bp_frames bp ! idx)"
  shows "map_ok (bp\<lparr>bp_frames := (bp_frames bp)[idx := f]\<rparr>)"
proof -
  have "frame_pid ((bp_frames bp)[idx := f] ! i) = frame_pid (bp_frames bp ! i)" for i
    using assms(2) by (metis list_update_beyond not_le nth_list_update_eq nth_list_update_neq)
  then show ?thesis using assms(1) by (simp add: map_ok_def)
qed

lemma lru_ok_update:
  assumes "lru_ok bp" "(fr_Page f = None) = (fr_Page (bp_frames bp ! idx) = None)"
    and "fr_LRUNode f = fr_LRUNode (bp_frames bp ! idx)"
  shows "lru_ok (bp\<lparr>bp_frames := (bp_frames bp)[idx := f]\<rparr>)"
proof -
  have "(fr_Page ((bp_frames bp)[idx := f] ! i) = None) = (fr_Page (bp_frames bp ! i) = None)"
    "fr_LRUNode ((bp_frames bp)[idx := f] ! i) = fr_LRUNode (bp_frames bp ! i)" for i
    using assms(2,3) by (metis list_update_beyond not_le nth_list_update_eq nth_list_update_neq)+
  then show ?thesis using assms(1) by (simp add: lru_ok_def del: not_None_eq)
qed

lemma lru_ok_front:
  assumes "lru_ok bp" "e \<in> set (bp_lruList bp)"
  shows "lru_ok (bp\<lparr>bp_lruList := e # remove1 e (bp_lruList bp)\<rparr>)"
  using assms by (auto simp: lru_ok_def)

lemma map_ok_lru [simp]: "map_ok (bp\<lparr>bp_lruList := l\<rparr>) = map_ok bp"
  by (simp add: map_ok_def)

lemma frames_ok_update:
  "\<forall>f \<in> set fs. frame_ok d f \<Longrightarrow> frame_ok d f' \<Longrightarrow> \<forall>f \<in> set (fs[i := f']). frame_ok d f"
  using set_update_subset_insert [of fs i f'] by blast

lemma frame_ok_nth:
  "pool_ok st \<Longrightarrow> i < length (bp_frames (st_bp st)) \<Longrightarrow> frame_ok (st_disk st) (bp_frames (st_bp st) ! i)"
  by (simp add: pool_ok_def)

section \<open>Emptying and filling a frame\<close>

lemma drop_frame_ok:
  assumes "map_ok bp" "lru_ok bp" "i < length (bp_frames bp)"
    and "fr_Page (bp_frames bp ! i) = Some p" "pg_ID q = pg_ID p"
  shows "map_ok (drop_frame i q bp)" "lru_ok (drop_frame i q bp)"
proof -
  have m: "bp_pageMap bp (pg_ID p) = Some i" using map_okI' assms by blast
  have old: "frame_pid (bp_frames bp ! i) = Some (pg_ID p)" using assms(4) by (simp add: frame_pid_def)
  have uniq: "j = i" if "bp_pageMap bp (pg_ID p) = Some j" for j using m that by simp
  show "map_ok (drop_frame i q bp)"
    using assms(1,3,5) m old
    by (auto simp: map_ok_def drop_frame_def nth_list_update frame_pid_None)
       (metis option.inject)+
  show "lru_ok (drop_frame i q bp)"
    using assms(2,3,4) by (auto simp: lru_ok_def drop_frame_def nth_list_update)
qed

lemma load_frame_ok:
  assumes "map_ok bp" "lru_ok bp" "i < length (bp_frames bp)"
    and "fr_Page (bp_frames bp ! i) = None" "bp_pageMap bp (pg_ID p) = None"
  shows "map_ok (load_frame (pg_ID p) i p bp)" "lru_ok (load_frame (pg_ID p) i p bp)"
proof -
  have no: "pid' \<noteq> pg_ID p" if "bp_pageMap bp pid' = Some j" for pid' j using that assms(5) by auto
  have none: "frame_pid (bp_frames bp ! i) = None" using assms(4) by (simp add: frame_pid_def)
  have free: "frame_pid (bp_frames bp ! j) \<noteq> Some (pg_ID p)" if "j < length (bp_frames bp)" for j
    using map_ok_frame [OF assms(1) that] assms(5) by auto
  show "map_ok (load_frame (pg_ID p) i p bp)"
    using assms(1,3,4) no none free by (auto simp: map_ok_def load_frame_def nth_list_update)
  show "lru_ok (load_frame (pg_ID p) i p bp)"
    using assms(2,3,4) by (auto simp: lru_ok_def load_frame_def nth_list_update)
qed

lemma free_from_Some:
  "free_from k fs = Some i \<Longrightarrow> k \<le> i \<and> i < k + length fs \<and> fr_Page (fs ! (i - k)) = None"
proof (induction fs arbitrary: k)
  case (Cons f fs)
  show ?case
  proof (cases "fr_Page f = None")
    case False
    then have "free_from (Suc k) fs = Some i" using Cons.prems by (simp del: not_None_eq)
    from Cons.IH [OF this] have i: "Suc k \<le> i" "i < Suc k + length fs" "fr_Page (fs ! (i - Suc k)) = None"
      by simp_all
    have "i - k = Suc (i - Suc k)" using i(1) by simp
    then show ?thesis using i by simp
  qed (use Cons.prems in auto)
qed simp

lemma free_from_None: "free_from k fs = None \<longleftrightarrow> (\<forall>f \<in> set fs. fr_Page f \<noteq> None)"
  by (induction fs arbitrary: k) auto

lemma findFreeFrame_Some:
  "BufferPool_findFreeFrame bp = Some i \<Longrightarrow> i < length (bp_frames bp) \<and> fr_Page (bp_frames bp ! i) = None"
  using free_from_Some [of 0 "bp_frames bp" i] by (simp add: BufferPool_findFreeFrame_def)

section \<open>Writing back a cached page\<close>

text \<open>
  Writing a frame's page, dirty or not, changes nothing any other frame relies on.
\<close>

lemma cached_ok_other:
  "cached_ok d p \<Longrightarrow> (\<And>pid. pid \<noteq> q \<Longrightarrow> pid \<noteq> 0 \<Longrightarrow> disk_data d' pid = disk_data d pid) \<Longrightarrow> pg_ID p \<noteq> q
    \<Longrightarrow> cached_ok d' p"
  by (simp add: cached_ok_def)

lemma WritePage_cases:
  assumes "disk_ok d" "cached_ok d p"
  obtains (failed) "DiskManager_WritePage p d = (Err (CannotWritePage (pg_ID p)), p, d)" "dm_wfail d (pg_ID p)"
  | (written) d' where "DiskManager_WritePage p d = (Ok (), p\<lparr>pg_Dirty := False\<rparr>, d')" "disk_ok d'"
      "disk_data d' (pg_ID p) = pg_Data p" "same_faults d d'" "\<not> dm_wfail d (pg_ID p)"
      "\<And>pid. pid \<noteq> pg_ID p \<Longrightarrow> pid \<noteq> 0 \<Longrightarrow> disk_data d' pid = disk_data d pid"
      "dm_pageCount d' = (if pg_ID p \<ge> dm_pageCount d then pg_ID p + 1 else dm_pageCount d)"
proof (cases "dm_wfail d (pg_ID p)")
  case True
  then show ?thesis using failed by (simp add: DiskManager_WritePage_def Let_def)
next
  case False
  have wf: "page_wf p" "pid_ok (pg_ID p)" using assms by (simp_all add: cached_ok_def)
  obtain d' where "DiskManager_WritePage p d = (Ok (), p\<lparr>pg_Dirty := False\<rparr>, d')" "disk_ok d'"
      "disk_data d' (pg_ID p) = pg_Data p" "same_faults d d'"
      "\<And>pid. pid \<noteq> pg_ID p \<Longrightarrow> pid \<noteq> 0 \<Longrightarrow> disk_data d' pid = disk_data d pid"
      "dm_pageCount d' = (if pg_ID p \<ge> dm_pageCount d then pg_ID p + 1 else dm_pageCount d)"
    using WritePage_spec [OF assms(1) wf False] by (auto simp: same_faults_def)
  then show ?thesis using written False by blast
qed

text \<open>Every page the cache holds lies below the page count, so write-back never moves it.\<close>

definition cached_below :: "store \<Rightarrow> bool" where
  "cached_below st \<longleftrightarrow> (\<forall>pid i. bp_pageMap (st_bp st) pid = Some i \<longrightarrow> pid < dm_pageCount (st_disk st))"

text \<open>What every step of the cache on its own account (eviction, write-back) guarantees.\<close>

definition pool_step :: "store \<Rightarrow> store \<Rightarrow> bool" where
  "pool_step st st' \<longleftrightarrow> pool_ok st' \<and> same_view st st' \<and> pins st' = pins st
     \<and> same_faults (st_disk st) (st_disk st')
     \<and> length (bp_frames (st_bp st')) = length (bp_frames (st_bp st))
     \<and> (\<forall>pid. bp_pageMap (st_bp st) pid = None \<longrightarrow> bp_pageMap (st_bp st') pid = None)
     \<and> (cached_below st \<longrightarrow> cached_below st' \<and> dm_pageCount (st_disk st') = dm_pageCount (st_disk st))"

lemma pool_step_refl: "pool_ok st \<Longrightarrow> pool_step st st"
  by (simp add: pool_step_def)

lemma drop_frame_frames [simp]: "length (bp_frames (drop_frame i q bp)) = length (bp_frames bp)"
  by (simp add: drop_frame_def)

text \<open>
  Eviction of frame \<open>i\<close> holding page \<open>p\<close>, when the disk already has (or has just got) its bytes.
\<close>

lemma drop_frame_step:
  assumes ok: "pool_ok st" and i: "i < length (bp_frames (st_bp st))"
    and p: "fr_Page (bp_frames (st_bp st) ! i) = Some p" and q: "pg_ID q = pg_ID p"
    and pin: "fr_PinCount (bp_frames (st_bp st) ! i) = 0"
    and d: "disk_ok d" "same_faults (st_disk st) d" "pg_ID p \<noteq> 0 \<longrightarrow> disk_data d (pg_ID p) = pg_Data p"
    and same: "\<And>pid. pid \<noteq> pg_ID p \<Longrightarrow> pid \<noteq> 0 \<Longrightarrow> disk_data d pid = disk_data (st_disk st) pid"
    and count: "pg_ID p < dm_pageCount (st_disk st) \<longrightarrow> dm_pageCount d = dm_pageCount (st_disk st)"
  shows "pool_step st (st\<lparr>st_disk := d, st_bp := drop_frame i q (st_bp st)\<rparr>)"
proof -
  let ?bp = "st_bp st" and ?st = "st\<lparr>st_disk := d, st_bp := drop_frame i q (st_bp st)\<rparr>"
  have mok: "map_ok ?bp" and lok: "lru_ok ?bp" using ok by (simp_all add: pool_ok_def)
  have m: "bp_pageMap ?bp (pg_ID p) = Some i" using map_okI' [OF mok i p] .
  have uniq: "pid = pg_ID p" if "bp_pageMap ?bp pid = Some i" for pid
    using map_okD [OF mok that] p by simp
  have frame: "frame_ok d f" if f: "f \<in> set (bp_frames (drop_frame i q ?bp))" for f
  proof -
    obtain j where j: "j < length (bp_frames ?bp)" "f = bp_frames (drop_frame i q ?bp) ! j"
      using f by (auto simp: in_set_conv_nth)
    show ?thesis
    proof (cases "j = i")
      case True
      then show ?thesis using j by (simp add: drop_frame_def frame_ok_def)
    next
      case False
      then have fj: "f = bp_frames ?bp ! j" using j by (simp add: drop_frame_def)
      have "pg_ID p' \<noteq> pg_ID p" if "fr_Page f = Some p'" for p'
        using map_okI' [OF mok j(1), of p'] that fj m False by auto
      then show ?thesis
        using frame_ok_nth [OF ok j(1)] fj cached_ok_other [OF _ same] by (simp add: frame_ok_def)
    qed
  qed
  have "pool_ok ?st"
    using drop_frame_ok [OF mok lok i p q] d(1) frame by (simp add: pool_ok_def)
  moreover have "same_view st ?st"
    unfolding same_view_def
  proof (intro allI impI)
    fix pid :: u64 assume nz: "pid \<noteq> 0"
    show "view ?st pid = view st pid"
    proof (cases "pid = pg_ID p")
      case True
      then show ?thesis using m p q d(3) nz by (simp add: view_def drop_frame_def)
    next
      case False
      show ?thesis
      proof (cases "bp_pageMap ?bp pid")
        case None
        then show ?thesis using same [OF False nz] False q by (simp add: view_def drop_frame_def)
      next
        case (Some j)
        then have "j \<noteq> i" using uniq False by blast
        then show ?thesis using Some False q by (simp add: view_def drop_frame_def)
      qed
    qed
  qed
  moreover have "pins ?st = pins st"
  proof
    fix pid show "pins ?st pid = pins st pid"
    proof (cases "pid = pg_ID p")
      case True
      then show ?thesis using m q pin by (simp add: pins_def drop_frame_def)
    next
      case False
      then have "bp_pageMap ?bp pid \<noteq> Some i" using uniq by blast
      then show ?thesis using False q
        by (cases "bp_pageMap ?bp pid") (auto simp: pins_def drop_frame_def)
    qed
  qed
  moreover have "cached_below st \<longrightarrow> cached_below ?st \<and> dm_pageCount d = dm_pageCount (st_disk st)"
    using count m q by (auto simp: cached_below_def drop_frame_def)
  ultimately show ?thesis using d(2) q by (simp add: pool_step_def drop_frame_def)
qed

lemma lru_frame:
  assumes "pool_ok st" "i \<in> set (bp_lruList (st_bp st))"
  obtains p where "i < length (bp_frames (st_bp st))" "fr_Page (bp_frames (st_bp st) ! i) = Some p"
    "cached_ok (st_disk st) p"
proof -
  have "i < length (bp_frames (st_bp st)) \<and> fr_Page (bp_frames (st_bp st) ! i) \<noteq> None"
    using assms unfolding pool_ok_def lru_ok_def by blast
  then show ?thesis
    using that frame_ok_nth [OF assms(1)] by (auto simp: frame_ok_def)
qed

lemma findFree_drop:
  assumes "i < length (bp_frames bp)"
  shows "BufferPool_findFreeFrame (drop_frame i q bp) \<noteq> None"
proof -
  let ?f = "(bp_frames bp ! i)\<lparr>fr_Page := None, fr_LRUNode := None\<rparr>"
  have "?f \<in> set (bp_frames (drop_frame i q bp))"
    using set_update_memI [OF assms] by (simp add: drop_frame_def)
  moreover have "fr_Page ?f = None" by simp
  ultimately show ?thesis unfolding BufferPool_findFreeFrame_def free_from_None by blast
qed

lemma evict_scan_step:
  assumes "pool_ok st" "set es \<subseteq> set (bp_lruList (st_bp st))"
  shows "case evict_scan es st of (r, st') \<Rightarrow>
      pool_step st st' \<and> r \<noteq> Panic \<and> r \<noteq> Hang \<and>
      (r = Ok () \<longrightarrow> BufferPool_findFreeFrame (st_bp st') \<noteq> None) \<and>
      ((\<exists>i \<in> set es. fr_PinCount (bp_frames (st_bp st) ! i) = 0) \<longrightarrow>
         (\<forall>pid. \<not> dm_wfail (st_disk st) pid) \<longrightarrow> r = Ok ())"
  using assms(2)
proof (induction es)
  case Nil
  then show ?case using assms(1) by (simp add: pool_step_refl)
next
  case (Cons i es)
  obtain p where i: "i < length (bp_frames (st_bp st))" and p: "fr_Page (bp_frames (st_bp st) ! i) = Some p"
    and c: "cached_ok (st_disk st) p" using lru_frame [OF assms(1)] Cons.prems by auto
  have d: "disk_ok (st_disk st)" using assms(1) by (simp add: pool_ok_def)
  show ?case
  proof (cases "fr_PinCount (bp_frames (st_bp st) ! i) = 0")
    case False
    then show ?thesis using Cons by auto
  next
    case pin: True
    show ?thesis
    proof (cases "pg_Dirty p")
      case False
      have "pool_step st (st\<lparr>st_disk := st_disk st, st_bp := drop_frame i p (st_bp st)\<rparr>)"
        by (rule drop_frame_step [OF assms(1) i p _ pin d])
           (use c False in \<open>auto simp: cached_ok_def\<close>)
      then show ?thesis using pin p False findFree_drop [OF i] by simp
    next
      case True
      from d c show ?thesis
      proof (cases rule: WritePage_cases)
        case failed
        then show ?thesis using pin p True assms(1) by (auto simp: pool_step_refl)
      next
        case (written d')
        have "pool_step st (st\<lparr>st_disk := d', st_bp := drop_frame i (p\<lparr>pg_Dirty := False\<rparr>) (st_bp st)\<rparr>)"
          by (rule drop_frame_step [OF assms(1) i p _ pin written(2,4)])
             (use written in \<open>auto simp: not_le\<close>)
        then show ?thesis using pin p True written(1) findFree_drop [OF i] by simp
      qed
    qed
  qed
qed

section \<open>FetchPage, UnpinPage\<close>

text \<open>After a successful fetch the page is mapped to the returned frame and pinned once more.\<close>

definition fetched :: "store \<Rightarrow> u64 \<Rightarrow> nat \<Rightarrow> store \<Rightarrow> bool" where
  "fetched st pid i st' \<longleftrightarrow> pool_ok st' \<and> same_view st st' \<and> pins st' = (pins st)(pid := pins st pid + 1)
     \<and> same_faults (st_disk st) (st_disk st')
     \<and> length (bp_frames (st_bp st')) = length (bp_frames (st_bp st))
     \<and> bp_pageMap (st_bp st') pid = Some i
     \<and> (cached_below st \<longrightarrow> pid < dm_pageCount (st_disk st) \<longrightarrow>
          cached_below st' \<and> dm_pageCount (st_disk st') = dm_pageCount (st_disk st))"

lemma NewPage_wf: "page_wf (NewPage pid)"
  using NewPage_ok [of pid] by (simp add: page_wf_def page_ok_def)

lemma ReadPage_cases:
  assumes "disk_ok d" "pid_ok pid"
  obtains (failed) "DiskManager_ReadPage pid d = Err (CannotReadPage pid)" "dm_rfail d pid"
  | (read) p where "DiskManager_ReadPage pid d = Ok p" "pg_ID p = pid" "cached_ok d p"
      "pg_Data p = disk_data d pid" "\<not> dm_rfail d pid"
proof (cases "dm_rfail d pid")
  case True
  then show ?thesis using failed by (simp add: DiskManager_ReadPage_def Let_def)
next
  case False
  show ?thesis
    by (rule read [OF ReadPage_disk_data [OF assms False]])
       (use assms False length_disk_data in \<open>auto simp: cached_ok_def page_wf_def\<close>)
qed

lemma read_into_fetched:
  assumes ok: "pool_ok st" and pid: "pid_ok pid" and free: "BufferPool_findFreeFrame (st_bp st) = Some i"
    and none: "bp_pageMap (st_bp st) pid = None"
  shows "case read_into pid (Some i) st of (r, st') \<Rightarrow>
     (case r of Ok j \<Rightarrow> j = i \<and> fetched st pid i st' | Err e \<Rightarrow> st' = st \<and> dm_rfail (st_disk st) pid | _ \<Rightarrow> False)"
proof -
  let ?bp = "st_bp st"
  have i: "i < length (bp_frames ?bp)" "fr_Page (bp_frames ?bp ! i) = None"
    using findFreeFrame_Some [OF free] by simp_all
  have mok: "map_ok ?bp" and lok: "lru_ok ?bp" and d: "disk_ok (st_disk st)"
    using ok by (simp_all add: pool_ok_def)
  from d pid show ?thesis
  proof (cases rule: ReadPage_cases)
    case failed
    then show ?thesis by (simp add: read_into_def)
  next
    case (read p)
    let ?st = "st\<lparr>st_bp := load_frame pid i p ?bp\<rparr>"
    have lf: "map_ok (load_frame pid i p ?bp)" "lru_ok (load_frame pid i p ?bp)"
      using load_frame_ok [OF mok lok i, of p] none read(2) by simp_all
    have uniq: "bp_pageMap ?bp q \<noteq> Some i" for q using map_okD [OF mok, of q i] i(2) by auto
    have "frame_ok (st_disk st) \<lparr>fr_Page = Some p, fr_PinCount = 1, fr_LRUNode = Some i\<rparr>"
      using read(3) by (simp add: frame_ok_def)
    with ok have "\<forall>f \<in> set (bp_frames (load_frame pid i p ?bp)). frame_ok (st_disk st) f"
      unfolding load_frame_def Let_def pool_ok_def by (auto dest!: subsetD [OF set_update_subset_insert])
    then have "pool_ok ?st" using lf d by (simp add: pool_ok_def)
    moreover have "view ?st q = view st q" for q
      using none uniq [of q] read(4) i
      by (auto simp: view_def load_frame_def split: option.splits)
    moreover have "pins ?st = (pins st)(pid := pins st pid + 1)"
    proof
      fix q show "pins ?st q = ((pins st)(pid := pins st pid + 1)) q"
        using none uniq [of q] i
        by (cases "bp_pageMap ?bp q"; cases "q = pid") (auto simp: pins_def load_frame_def)
    qed
    moreover have "cached_below st \<longrightarrow> pid < dm_pageCount (st_disk st) \<longrightarrow> cached_below ?st"
      using i by (auto simp: cached_below_def load_frame_def)
    ultimately show ?thesis
      using read(1) i by (simp add: read_into_def fetched_def same_view_def load_frame_def)
  qed
qed

lemma read_into_succeeds:
  assumes "pool_ok st" "pid_ok pid" "BufferPool_findFreeFrame (st_bp st) = Some i"
    and "bp_pageMap (st_bp st) pid = None" "\<not> dm_rfail (st_disk st) pid"
  shows "\<exists>st'. read_into pid (Some i) st = (Ok i, st') \<and> fetched st pid i st'"
proof -
  obtain r st' where "read_into pid (Some i) st = (r, st')" by fastforce
  then show ?thesis using read_into_fetched [OF assms(1-4)] assms(5) by (cases r) auto
qed

lemma fetched_step: "pool_step a b \<Longrightarrow> fetched b pid i c \<Longrightarrow> fetched a pid i c"
  unfolding pool_step_def fetched_def by (auto intro: same_view_trans same_faults_trans)

text \<open>Replacing the contents of the frame that holds page \<open>pid\<close> changes the view of that page only.\<close>

lemma map_ok_unique:
  "map_ok bp \<Longrightarrow> bp_pageMap bp pid = Some i \<Longrightarrow> q \<noteq> pid \<Longrightarrow> bp_pageMap bp q \<noteq> Some i"
  using map_okD [of bp q i] map_okD [of bp pid i] by auto

lemma frame_update_view:
  assumes mok: "map_ok (st_bp st)" and i: "bp_pageMap (st_bp st) pid = Some i"
    and p: "map_option pg_Data (fr_Page f) = Some bs"
  shows "view (st\<lparr>st_bp := (st_bp st)\<lparr>bp_frames := (bp_frames (st_bp st))[i := f]\<rparr>\<rparr>) = (view st)(pid := bs)"
proof
  fix q
  have il: "i < length (bp_frames (st_bp st))" using map_okD [OF mok i] by simp
  show "view (st\<lparr>st_bp := (st_bp st)\<lparr>bp_frames := (bp_frames (st_bp st))[i := f]\<rparr>\<rparr>) q = ((view st)(pid := bs)) q"
  proof (cases "q = pid")
    case True
    then show ?thesis using i p il by (auto simp: view_def)
  next
    case False
    then show ?thesis using map_ok_unique [OF mok i False]
      by (cases "bp_pageMap (st_bp st) q") (auto simp: view_def)
  qed
qed

lemma frame_update_pins:
  assumes mok: "map_ok (st_bp st)" and i: "bp_pageMap (st_bp st) pid = Some i"
  shows "pins (st\<lparr>st_bp := (st_bp st)\<lparr>bp_frames := (bp_frames (st_bp st))[i := f]\<rparr>\<rparr>)
    = (pins st)(pid := fr_PinCount f)"
proof
  fix q
  have il: "i < length (bp_frames (st_bp st))" using map_okD [OF mok i] by simp
  show "pins (st\<lparr>st_bp := (st_bp st)\<lparr>bp_frames := (bp_frames (st_bp st))[i := f]\<rparr>\<rparr>) q
      = ((pins st)(pid := fr_PinCount f)) q"
  proof (cases "q = pid")
    case True
    then show ?thesis using i il by (simp add: pins_def)
  next
    case False
    then show ?thesis using map_ok_unique [OF mok i False]
      by (cases "bp_pageMap (st_bp st) q") (auto simp: pins_def)
  qed
qed

lemma view_lru [simp]: "view (st\<lparr>st_bp := bp\<lparr>bp_lruList := l\<rparr>\<rparr>) = view (st\<lparr>st_bp := bp\<rparr>)"
  by (rule ext) (simp add: view_def split: option.split)

lemma pins_lru [simp]: "pins (st\<lparr>st_bp := bp\<lparr>bp_lruList := l\<rparr>\<rparr>) = pins (st\<lparr>st_bp := bp\<rparr>)"
  by (rule ext) (simp add: pins_def split: option.split)

lemma fetch_hit:
  assumes ok: "pool_ok st" and hit: "bp_pageMap (st_bp st) pid = Some i"
  shows "\<exists>st'. BufferPool_FetchPage pid st = (Ok i, st') \<and> fetched st pid i st'"
proof -
  let ?bp = "st_bp st"
  let ?f = "bp_frames ?bp ! i"
  let ?bp' = "?bp\<lparr>bp_frames := (bp_frames ?bp)[i := ?f\<lparr>fr_PinCount := fr_PinCount ?f + 1\<rparr>]\<rparr>"
  let ?st = "st\<lparr>st_bp := ?bp'\<lparr>bp_lruList := i # remove1 i (bp_lruList ?bp)\<rparr>\<rparr>"
  have mok: "map_ok ?bp" and lok: "lru_ok ?bp" using ok by (simp_all add: pool_ok_def)
  have i: "i < length (bp_frames ?bp)" and pg: "fr_Page ?f \<noteq> None" using map_okD [OF mok hit] by auto
  have lru: "fr_LRUNode ?f = Some i" "i \<in> set (bp_lruList ?bp)"
    using lok i pg unfolding lru_ok_def by blast+
  have "lru_ok ?bp'" using lok by (rule lru_ok_update) simp_all
  then have "lru_ok (?bp'\<lparr>bp_lruList := i # remove1 i (bp_lruList ?bp')\<rparr>)"
    by (rule lru_ok_front) (use lru(2) in simp)
  moreover have "map_ok ?bp'" using mok by (rule map_ok_update) simp
  moreover have "\<forall>f \<in> set (bp_frames ?bp'). frame_ok (st_disk st) f"
    using ok frame_ok_nth [OF ok i] unfolding pool_ok_def frame_ok_def
    by (auto dest!: subsetD [OF set_update_subset_insert])
  ultimately have "pool_ok ?st" using ok by (simp add: pool_ok_def)
  moreover have "view ?st = (view st)(pid := view st pid)"
    using frame_update_view [OF mok hit, of "?f\<lparr>fr_PinCount := fr_PinCount ?f + 1\<rparr>" "view st pid"] hit pg
    by (auto simp: view_def)
  moreover have "pins ?st = (pins st)(pid := pins st pid + 1)"
    using frame_update_pins [OF mok hit, of "?f\<lparr>fr_PinCount := fr_PinCount ?f + 1\<rparr>"] hit
    by (simp add: pins_def)
  ultimately have "fetched st pid i ?st"
    using hit by (simp add: fetched_def same_view_def cached_below_def)
  moreover have "BufferPool_FetchPage pid st = (Ok i, ?st)"
    using hit lru(1) by (simp add: BufferPool_FetchPage_def move_front_def Let_def)
  ultimately show ?thesis by blast
qed

text \<open>
  \<^verbatim>\<open>FetchPage\<close>: a successful call pins exactly the requested page, a failed one leaves every
  page's contents and pin count alone, and the call never panics. It fails only when the
  disk refuses, or when the cache is full of pinned pages.
\<close>

lemma FetchPage_spec:
  assumes ok: "pool_ok st" and pid: "pid_ok pid"
  shows "case BufferPool_FetchPage pid st of (r, st') \<Rightarrow>
     (case r of Ok i \<Rightarrow> fetched st pid i st' | Err e \<Rightarrow> pool_step st st' | _ \<Rightarrow> False)"
proof (cases "bp_pageMap (st_bp st) pid")
  case (Some i)
  then show ?thesis using fetch_hit [OF ok Some] by auto
next
  case None
  show ?thesis
  proof (cases "BufferPool_findFreeFrame (st_bp st)")
    case (Some i)
    then show ?thesis using read_into_fetched [OF ok pid Some None] None ok pool_step_refl
      by (auto simp: BufferPool_FetchPage_def split: outcome.splits prod.splits)
  next
    case full: None
    obtain r st1 where e: "BufferPool_evictPage st = (r, st1)" by fastforce
    have s: "pool_step st st1" "r \<noteq> Panic" "r \<noteq> Hang" "r = Ok () \<longrightarrow> BufferPool_findFreeFrame (st_bp st1) \<noteq> None"
      using evict_scan_step [OF ok, of "rev (bp_lruList (st_bp st))"] e by (auto simp: BufferPool_evictPage_def)
    show ?thesis
    proof (cases r)
      case (Ok u)
      then obtain i where i: "BufferPool_findFreeFrame (st_bp st1) = Some i" using s(4) by auto
      have ok1: "pool_ok st1" and none1: "bp_pageMap (st_bp st1) pid = None"
        using s(1) None by (auto simp: pool_step_def)
      show ?thesis
        using read_into_fetched [OF ok1 pid i none1] None full e Ok i s(1)
        by (auto simp: BufferPool_FetchPage_def intro: fetched_step split: outcome.splits prod.splits)
    qed (use None full e s in \<open>auto simp: BufferPool_FetchPage_def\<close>)
  qed
qed

text \<open>
  When the disk is healthy and some page is unpinned (or a frame is free), a fetch succeeds.
\<close>

definition healthy :: "store \<Rightarrow> bool" where
  "healthy st \<longleftrightarrow> (\<forall>pid. \<not> dm_rfail (st_disk st) pid \<and> \<not> dm_wfail (st_disk st) pid)"

definition quiet :: "store \<Rightarrow> bool" where
  "quiet st \<longleftrightarrow> (\<forall>pid. pins st pid = 0)"

lemma healthy_faults: "healthy st \<Longrightarrow> same_faults (st_disk st) (st_disk st') \<Longrightarrow> healthy st'"
  by (simp add: healthy_def same_faults_def)

lemma quiet_frame:
  assumes "pool_ok st" "quiet st" "i \<in> set (bp_lruList (st_bp st))"
  shows "fr_PinCount (bp_frames (st_bp st) ! i) = 0"
proof -
  obtain p where "i < length (bp_frames (st_bp st))" "fr_Page (bp_frames (st_bp st) ! i) = Some p"
    using lru_frame [OF assms(1,3)] by blast
  then have "bp_pageMap (st_bp st) (pg_ID p) = Some i"
    using map_okI' assms(1) by (auto simp: pool_ok_def)
  then have "pins st (pg_ID p) = fr_PinCount (bp_frames (st_bp st) ! i)" by (simp add: pins_def)
  then show ?thesis using assms(2) by (simp add: quiet_def)
qed

lemma FetchPage_succeeds:
  assumes ok: "pool_ok st" and pid: "pid_ok pid" and h: "healthy st" and q: "quiet st"
    and room: "bp_frames (st_bp st) \<noteq> []"
  shows "\<exists>i st'. BufferPool_FetchPage pid st = (Ok i, st') \<and> fetched st pid i st'"
proof (cases "bp_pageMap (st_bp st) pid")
  case (Some i)
  then show ?thesis using fetch_hit [OF ok Some] by auto
next
  case None
  show ?thesis
  proof (cases "BufferPool_findFreeFrame (st_bp st)")
    case (Some i)
    then show ?thesis using read_into_succeeds [OF ok pid Some None] None h
      by (auto simp: BufferPool_FetchPage_def healthy_def)
  next
    case full: None
    then have "fr_Page (bp_frames (st_bp st) ! 0) \<noteq> None" using room
      by (auto simp: BufferPool_findFreeFrame_def free_from_None simp del: not_None_eq)
    then have "0 \<in> set (bp_lruList (st_bp st))" using ok room unfolding pool_ok_def lru_ok_def by blast
    then have "\<exists>i \<in> set (rev (bp_lruList (st_bp st))). fr_PinCount (bp_frames (st_bp st) ! i) = 0"
      using quiet_frame [OF ok q] by auto
    then obtain st1 where e: "BufferPool_evictPage st = (Ok (), st1)" and s: "pool_step st st1"
        "BufferPool_findFreeFrame (st_bp st1) \<noteq> None"
      using evict_scan_step [OF ok, of "rev (bp_lruList (st_bp st))"] h
      by (auto simp: BufferPool_evictPage_def healthy_def split: prod.splits)
    then obtain i where i: "BufferPool_findFreeFrame (st_bp st1) = Some i" by auto
    have ok1: "pool_ok st1" and none1: "bp_pageMap (st_bp st1) pid = None"
      and h1: "\<not> dm_rfail (st_disk st1) pid"
      using s(1) None h by (auto simp: pool_step_def healthy_def same_faults_def)
    obtain st' where st': "read_into pid (Some i) st1 = (Ok i, st')" "fetched st1 pid i st'"
      using read_into_succeeds [OF ok1 pid i none1 h1] by blast
    then have "BufferPool_FetchPage pid st = (Ok i, st')"
      using None full e i by (simp add: BufferPool_FetchPage_def)
    then show ?thesis using fetched_step [OF s(1) st'(2)] by blast
  qed
qed

text \<open>
  A caller that fetched page \<open>pid\<close> into frame \<open>i\<close>, changed it to \<open>p\<close> and unpins it. A change
  must be announced, by the dirty flag of the page or by the argument of \<^verbatim>\<open>UnpinPage\<close>.
\<close>

definition unpinned :: "store \<Rightarrow> u64 \<Rightarrow> byte list \<Rightarrow> store \<Rightarrow> bool" where
  "unpinned st pid bs st' \<longleftrightarrow> pool_ok st' \<and> view st' = (view st)(pid := bs)
     \<and> pins st' = (pins st)(pid := pins st pid - 1) \<and> st_disk st' = st_disk st
     \<and> length (bp_frames (st_bp st')) = length (bp_frames (st_bp st))
     \<and> (cached_below st \<longrightarrow> cached_below st')"

lemma Unpin_after_write:
  assumes ok: "pool_ok st" and i: "bp_pageMap (st_bp st) pid = Some i"
    and p: "page_wf p" "pg_ID p = pid" "pg_Dirty p \<or> dirty \<or> pid = 0 \<or> page_at i st = Some p"
  shows "\<exists>st'. BufferPool_UnpinPage pid dirty (set_page i p st) = (Ok (), st') \<and> unpinned st pid (pg_Data p) st'"
proof -
  let ?bp = "st_bp st"
  let ?f = "bp_frames ?bp ! i"
  define f' where "f' = ?f\<lparr>fr_PinCount := fr_PinCount ?f - 1,
      fr_Page := Some (if dirty then p\<lparr>pg_Dirty := True\<rparr> else p)\<rparr>"
  let ?bp' = "?bp\<lparr>bp_frames := (bp_frames ?bp)[i := f']\<rparr>"
  let ?st = "st\<lparr>st_bp := ?bp'\<rparr>"
  have mok: "map_ok ?bp" and lok: "lru_ok ?bp" using ok by (simp_all add: pool_ok_def)
  obtain p0 where il: "i < length (bp_frames ?bp)" and p0: "fr_Page ?f = Some p0" "pg_ID p0 = pid"
    using map_okD [OF mok i] by auto
  have run: "BufferPool_UnpinPage pid dirty (set_page i p st) = (Ok (), ?st)"
    using i il by (simp add: BufferPool_UnpinPage_def set_page_def mark_dirty_def f'_def Let_def)
  have "map_ok ?bp'" using mok by (rule map_ok_update) (use p0 p(2) in \<open>simp add: f'_def frame_pid_def\<close>)
  moreover have "lru_ok ?bp'" using lok by (rule lru_ok_update) (use p0 in \<open>simp_all add: f'_def\<close>)
  moreover have "cached_ok (st_disk st) p0" using frame_ok_nth [OF ok il] p0 by (simp add: frame_ok_def)
  then have "frame_ok (st_disk st) f'"
    using p p0 il
    by (cases dirty) (auto simp: frame_ok_def f'_def cached_ok_def page_wf_def page_at_def)
  then have "\<forall>f \<in> set (bp_frames ?bp'). frame_ok (st_disk st) f"
    using ok unfolding pool_ok_def by (auto dest!: subsetD [OF set_update_subset_insert])
  ultimately have "pool_ok ?st" using ok by (simp add: pool_ok_def)
  moreover have "view ?st = (view st)(pid := pg_Data p)"
    by (rule frame_update_view [OF mok i]) (simp add: f'_def)
  moreover have "pins ?st = (pins st)(pid := pins st pid - 1)"
    using frame_update_pins [OF mok i, of f'] i by (simp add: f'_def pins_def)
  ultimately have "unpinned st pid (pg_Data p) ?st"
    by (simp add: unpinned_def cached_below_def)
  with run show ?thesis by blast
qed

section \<open>FlushAll\<close>

text \<open>
  A successful flush leaves no dirty page and makes the disk hold what the readers see;
  a failed one loses nothing: the pages it did not reach stay dirty.
\<close>

definition same_page :: "Frame \<Rightarrow> Frame \<Rightarrow> bool" where
  "same_page f f' \<longleftrightarrow> fr_PinCount f' = fr_PinCount f \<and> fr_LRUNode f' = fr_LRUNode f
     \<and> map_option (\<lambda>p. (pg_ID p, pg_Data p)) (fr_Page f') = map_option (\<lambda>p. (pg_ID p, pg_Data p)) (fr_Page f)"

definition clean_frame :: "Frame \<Rightarrow> bool" where
  "clean_frame f \<longleftrightarrow> (\<forall>p. fr_Page f = Some p \<longrightarrow> \<not> pg_Dirty p)"

lemma same_page_refl [simp]: "same_page f f"
  by (simp add: same_page_def)

definition frame_pids :: "Frame list \<Rightarrow> u64 list" where
  "frame_pids fs = map pg_ID (concat (map (\<lambda>f. case fr_Page f of None \<Rightarrow> [] | Some p \<Rightarrow> [p]) fs))"

lemma frame_pids_Cons:
  "frame_pids (f # fs) = (case frame_pid f of None \<Rightarrow> frame_pids fs | Some q \<Rightarrow> q # frame_pids fs)"
  by (cases "fr_Page f") (simp_all add: frame_pids_def frame_pid_def)

lemma set_frame_pids: "set (frame_pids fs) = {pid. \<exists>f \<in> set fs. frame_pid f = Some pid}"
proof (induction fs)
  case (Cons f fs)
  then show ?case by (cases "frame_pid f") (auto simp: frame_pids_Cons)
qed (simp add: frame_pids_def)

lemma frame_ok_other:
  assumes "frame_ok d f" "\<And>pid. pid \<noteq> q \<Longrightarrow> pid \<noteq> 0 \<Longrightarrow> disk_data d' pid = disk_data d pid"
    and "frame_pid f \<noteq> Some q"
  shows "frame_ok d' f"
  using assms cached_ok_other [of d _ q d'] by (auto simp: frame_ok_def frame_pid_def)

lemma flush_from_spec:
  assumes "disk_ok d" "\<forall>f \<in> set fs. frame_ok d f" "distinct (frame_pids fs)"
  shows "case flush_from k fs d of (r, fs', d') \<Rightarrow>
     disk_ok d' \<and> same_faults d d' \<and> list_all2 same_page fs fs' \<and> (\<forall>f \<in> set fs'. frame_ok d' f) \<and>
     (\<forall>pid. pid \<noteq> 0 \<longrightarrow> pid \<notin> set (frame_pids fs) \<longrightarrow> disk_data d' pid = disk_data d pid) \<and>
     r \<noteq> Panic \<and> r \<noteq> Hang \<and> (r = Ok () \<longrightarrow> (\<forall>f \<in> set fs'. clean_frame f)) \<and>
     ((\<forall>pid \<in> set (frame_pids fs). \<not> dm_wfail d pid) \<longrightarrow> r = Ok ()) \<and>
     ((\<forall>pid \<in> set (frame_pids fs). pid < dm_pageCount d) \<longrightarrow> dm_pageCount d' = dm_pageCount d)"
  using assms
proof (induction fs arbitrary: k d)
  case Nil
  then show ?case by (simp add: clean_frame_def)
next
  case (Cons f fs)
  have d: "disk_ok d" and f: "frame_ok d f" and fs: "\<forall>f \<in> set fs. frame_ok d f"
    and dist: "distinct (frame_pids fs)" using Cons.prems by (auto simp: frame_pids_def)
  show ?case
  proof (cases "\<exists>p. fr_Page f = Some p \<and> pg_Dirty p")
    case False
    have run: "flush_from k (f # fs) d = (case flush_from (Suc k) fs d of (r, fs', d') \<Rightarrow> (r, f # fs', d'))"
      using False by (cases "fr_Page f") (auto simp: Let_def split: prod.split)
    have clean: "clean_frame f" using False by (auto simp: clean_frame_def)
    obtain r fs' d' where e: "flush_from (Suc k) fs d = (r, fs', d')" by (metis prod_cases3)
    have nin: "frame_pid f = Some q \<Longrightarrow> q \<notin> set (frame_pids fs)" for q
      using Cons.prems(3) by (simp add: frame_pids_Cons)
    have IH: "disk_ok d'" "same_faults d d'" "list_all2 same_page fs fs'" "\<forall>f \<in> set fs'. frame_ok d' f"
      "\<forall>pid. pid \<noteq> 0 \<longrightarrow> pid \<notin> set (frame_pids fs) \<longrightarrow> disk_data d' pid = disk_data d pid"
      "r \<noteq> Panic" "r \<noteq> Hang" "r = Ok () \<longrightarrow> (\<forall>f \<in> set fs'. clean_frame f)"
      "(\<forall>pid \<in> set (frame_pids fs). \<not> dm_wfail d pid) \<longrightarrow> r = Ok ()"
      "(\<forall>pid \<in> set (frame_pids fs). pid < dm_pageCount d) \<longrightarrow> dm_pageCount d' = dm_pageCount d"
      using Cons.IH [OF d fs dist, of "Suc k"] e by simp_all
    have "frame_ok d' f"
      using f IH(5) nin by (auto simp: frame_ok_def cached_ok_def frame_pid_def)
    moreover have "set (frame_pids fs) \<subseteq> set (frame_pids (f # fs))"
      by (auto simp: frame_pids_Cons split: option.split)
    ultimately show ?thesis using run e IH clean by auto
  next
    case True
    then obtain p where p: "fr_Page f = Some p" "pg_Dirty p" by blast
    have pids: "frame_pids (f # fs) = pg_ID p # frame_pids fs" using p by (simp add: frame_pids_def)
    have c: "cached_ok d p" using f p by (simp add: frame_ok_def)
    from d c show ?thesis
    proof (cases rule: WritePage_cases)
      case failed
      then show ?thesis using p d f fs pids
        by (auto simp: list_all2_refl same_page_def list.rel_refl frame_ok_def)
    next
      case (written d1)
      let ?f = "f\<lparr>fr_Page := Some (p\<lparr>pg_Dirty := False\<rparr>)\<rparr>"
      have run: "flush_from k (f # fs) d = (case flush_from (Suc k) fs d1 of (r, fs', d') \<Rightarrow> (r, ?f # fs', d'))"
        using p written(1) by (simp add: Let_def split: prod.split)
      have fs1: "\<forall>f \<in> set fs. frame_ok d1 f"
      proof
        fix g assume g: "g \<in> set fs"
        have "frame_pid g \<noteq> Some (pg_ID p)"
          using Cons.prems(3) pids g set_frame_pids [of fs] by auto
        then show "frame_ok d1 g" using frame_ok_other [OF _ written(6)] fs g by blast
      qed
      obtain r fs' d' where e: "flush_from (Suc k) fs d1 = (r, fs', d')" by (metis prod_cases3)
      have IH: "disk_ok d'" "same_faults d1 d'" "list_all2 same_page fs fs'" "\<forall>f \<in> set fs'. frame_ok d' f"
        "\<forall>pid. pid \<noteq> 0 \<longrightarrow> pid \<notin> set (frame_pids fs) \<longrightarrow> disk_data d' pid = disk_data d1 pid"
        "r \<noteq> Panic" "r \<noteq> Hang" "r = Ok () \<longrightarrow> (\<forall>f \<in> set fs'. clean_frame f)"
        "(\<forall>pid \<in> set (frame_pids fs). \<not> dm_wfail d1 pid) \<longrightarrow> r = Ok ()"
        "(\<forall>pid \<in> set (frame_pids fs). pid < dm_pageCount d1) \<longrightarrow> dm_pageCount d' = dm_pageCount d1"
        using Cons.IH [OF written(2) fs1 dist, of "Suc k"] e by simp_all
      have nin: "pg_ID p \<notin> set (frame_pids fs)" using Cons.prems(3) pids by simp
      have "frame_ok d' ?f"
        using c IH(5) nin written(3) by (auto simp: frame_ok_def cached_ok_def page_wf_def)
      moreover have "same_page f ?f" using p by (simp add: same_page_def)
      moreover have "clean_frame ?f" by (simp add: clean_frame_def)
      moreover have "same_faults d d'" using written(4) IH(2) by (rule same_faults_trans)
      moreover have "dm_wfail d1 = dm_wfail d" using written(4) by (simp add: same_faults_def)
      moreover have "pg_ID p < dm_pageCount d \<longrightarrow> dm_pageCount d1 = dm_pageCount d"
        using written(7) by auto
      ultimately show ?thesis
        using run e IH written(6) pids by (simp del: flush_from.simps)
    qed
  qed
qed

lemma distinct_frame_pids:
  assumes "\<And>i j q. i < length fs \<Longrightarrow> j < length fs \<Longrightarrow> frame_pid (fs ! i) = Some q \<Longrightarrow>
    frame_pid (fs ! j) = Some q \<Longrightarrow> i = j"
  shows "distinct (frame_pids fs)"
  using assms
proof (induction fs)
  case (Cons f fs)
  have tail: "distinct (frame_pids fs)"
  proof (rule Cons.IH)
    fix i j q assume "i < length fs" "j < length fs" "frame_pid (fs ! i) = Some q" "frame_pid (fs ! j) = Some q"
    then show "i = j" using Cons.prems [of "Suc i" "Suc j" q] by simp
  qed
  have "q \<notin> set (frame_pids fs)" if q: "frame_pid f = Some q" for q
  proof
    assume "q \<in> set (frame_pids fs)"
    then obtain j where "j < length fs" "frame_pid (fs ! j) = Some q"
      by (auto simp: set_frame_pids in_set_conv_nth)
    then show False using Cons.prems [of 0 "Suc j" q] q by simp
  qed
  with tail show ?case by (auto simp: frame_pids_Cons split: option.split)
qed (simp add: frame_pids_def)

lemma same_page_pid: "same_page f f' \<Longrightarrow> frame_pid f' = frame_pid f"
  by (cases "fr_Page f"; cases "fr_Page f'") (auto simp: same_page_def frame_pid_def)

lemma same_page_lists:
  assumes "list_all2 same_page fs fs'" "i < length fs"
  shows "same_page (fs ! i) (fs' ! i)" "length fs' = length fs"
  using assms by (auto simp: list_all2_conv_all_nth)

lemma same_page_None: "same_page f f' \<Longrightarrow> (fr_Page f' = None) = (fr_Page f = None)"
  by (cases "fr_Page f"; cases "fr_Page f'") (auto simp: same_page_def)

lemma FlushAll_spec:
  assumes ok: "pool_ok st"
  shows "case BufferPool_FlushAll st of (r, st') \<Rightarrow>
     pool_step st st' \<and> bp_pageMap (st_bp st') = bp_pageMap (st_bp st) \<and> r \<noteq> Panic \<and> r \<noteq> Hang
     \<and> (r = Ok () \<longrightarrow> (\<forall>pid. pid \<noteq> 0 \<longrightarrow> disk_data (st_disk st') pid = view st pid))
     \<and> (healthy st \<longrightarrow> r = Ok ())"
proof -
  let ?bp = "st_bp st"
  obtain r fs d where e: "flush_from 0 (bp_frames ?bp) (st_disk st) = (r, fs, d)" by (metis prod_cases3)
  let ?st = "st\<lparr>st_disk := d, st_bp := ?bp\<lparr>bp_frames := fs\<rparr>\<rparr>"
  have run: "BufferPool_FlushAll st = (r, ?st)" using e by (simp add: BufferPool_FlushAll_def)
  have mok: "map_ok ?bp" and lok: "lru_ok ?bp" using ok by (simp_all add: pool_ok_def)
  have pids: "q \<in> set (frame_pids (bp_frames ?bp)) \<longleftrightarrow> bp_pageMap ?bp q \<noteq> None" for q
  proof -
    have "q \<in> set (frame_pids (bp_frames ?bp))
        \<longleftrightarrow> (\<exists>i < length (bp_frames ?bp). frame_pid (bp_frames ?bp ! i) = Some q)"
      by (auto simp: set_frame_pids in_set_conv_nth intro: nth_mem)
    then show ?thesis using mok unfolding map_ok_def by blast
  qed
  have dist: "distinct (frame_pids (bp_frames ?bp))"
    by (rule distinct_frame_pids) (metis map_ok_frame [OF mok] option.inject)
  have S: "disk_ok d" "same_faults (st_disk st) d" "list_all2 same_page (bp_frames ?bp) fs"
    "\<forall>f \<in> set fs. frame_ok d f"
    "\<forall>pid. pid \<noteq> 0 \<longrightarrow> bp_pageMap ?bp pid = None \<longrightarrow> disk_data d pid = disk_data (st_disk st) pid"
    "r \<noteq> Panic" "r \<noteq> Hang" "r = Ok () \<longrightarrow> (\<forall>f \<in> set fs. clean_frame f)"
    "healthy st \<longrightarrow> r = Ok ()"
    "cached_below st \<longrightarrow> dm_pageCount d = dm_pageCount (st_disk st)"
    using flush_from_spec [OF _ _ dist, of "st_disk st" 0] ok e pids
    by (auto simp: pool_ok_def healthy_def cached_below_def)
  have len: "length fs = length (bp_frames ?bp)" using S(3) by (simp add: list_all2_lengthD)
  have sp: "same_page (bp_frames ?bp ! i) (fs ! i)" if "i < length fs" for i
    using same_page_lists [OF S(3)] that len by simp
  have "map_ok (?bp\<lparr>bp_frames := fs\<rparr>)"
    using mok len sp same_page_pid by (fastforce simp: map_ok_def)
  moreover have "lru_ok (?bp\<lparr>bp_frames := fs\<rparr>)"
    using lok len same_page_None [OF sp] sp
    by (simp add: lru_ok_def same_page_def del: not_None_eq) metis
  ultimately have "pool_ok ?st" using S(1,4) by (simp add: pool_ok_def)
  have frame: "i < length fs \<and> map_option pg_Data (fr_Page (fs ! i)) = map_option pg_Data (fr_Page (bp_frames ?bp ! i))
      \<and> fr_PinCount (fs ! i) = fr_PinCount (bp_frames ?bp ! i) \<and> fr_Page (fs ! i) \<noteq> None"
    if "bp_pageMap ?bp pid = Some i" for pid i
    using map_okD [OF mok that] sp [of i] len by (auto simp: same_page_def)
  have v: "view ?st pid = view st pid" if "pid \<noteq> 0" for pid
    using S(5) that frame [of pid] by (fastforce simp: view_def split: option.splits)
  have "pins ?st = pins st"
    using frame by (auto simp: pins_def fun_eq_iff split: option.splits)
  moreover have "disk_data d pid = view st pid" if "r = Ok ()" "pid \<noteq> 0" for pid
  proof (cases "bp_pageMap ?bp pid")
    case None
    then show ?thesis using S(5) that by (simp add: view_def)
  next
    case (Some i)
    obtain p where p: "fr_Page (fs ! i) = Some p" "fs ! i \<in> set fs" "pg_ID p = pid"
      using frame [OF Some] map_okD [OF \<open>map_ok (?bp\<lparr>bp_frames := fs\<rparr>)\<close>, of pid i] Some by auto
    then have "disk_data d pid = pg_Data p"
      using S(4,8) that by (auto simp: frame_ok_def clean_frame_def cached_ok_def)
    then show ?thesis using v [OF that(2)] Some p by (simp add: view_def)
  qed
  ultimately show ?thesis
    using run S v \<open>pool_ok ?st\<close> len by (simp add: pool_step_def same_view_def cached_below_def)
qed

end
