(* ===== verification/PageCache.thy ===== *)
theory PageCache imports BufferPool begin

text \<open>
  The contract between the heap files and the buffer pool. A client sees the contents of
  every page and how often it is pinned; it fetches a page, may replace it through the
  handle it got, and unpins it. The laws say that fetching changes no contents, that a
  change made through a pinned handle is kept if it is announced as dirty, and that pins
  balance. The client lemmas are proved from the laws alone; the buffer pool is shown to
  satisfy them at the end.
\<close>

locale page_cache =
  fixes inv :: "'s \<Rightarrow> bool"
    and contents :: "'s \<Rightarrow> u64 \<Rightarrow> byte list"
    and pinned :: "'s \<Rightarrow> u64 \<Rightarrow> nat"
    and extent :: "'s \<Rightarrow> u64"
    and ready :: "'s \<Rightarrow> bool"
    and deref :: "'h \<Rightarrow> 's \<Rightarrow> page option"
    and holds :: "'s \<Rightarrow> u64 \<Rightarrow> 'h \<Rightarrow> bool"
    and fetch :: "u64 \<Rightarrow> 's \<Rightarrow> ('e, 'h) outcome \<times> 's"
    and put :: "'h \<Rightarrow> page \<Rightarrow> 's \<Rightarrow> 's"
    and unpin :: "u64 \<Rightarrow> bool \<Rightarrow> 's \<Rightarrow> ('e, unit) outcome \<times> 's"
  assumes fetch_ok: "inv s \<Longrightarrow> pid_ok pid \<Longrightarrow> pid < extent s \<Longrightarrow> fetch pid s = (Ok h, s') \<Longrightarrow>
        inv s' \<and> extent s' = extent s \<and> holds s' pid h \<and> pinned s' = (pinned s)(pid := pinned s pid + 1)
        \<and> (\<forall>q. q \<noteq> 0 \<longrightarrow> contents s' q = contents s q) \<and> ready s' = ready s"
    and fetch_total: "inv s \<Longrightarrow> pid_ok pid \<Longrightarrow> pid < extent s \<Longrightarrow> ready s \<Longrightarrow> (\<And>q. pinned s q = 0) \<Longrightarrow>
        \<exists>h s'. fetch pid s = (Ok h, s')"
    and holds_deref: "inv s \<Longrightarrow> holds s pid h \<Longrightarrow>
        \<exists>p. deref h s = Some p \<and> page_wf p \<and> pg_ID p = pid \<and> pg_Data p = contents s pid"
    and put_deref: "deref h s = Some p \<Longrightarrow> put h p s = s"
    and deref_put: "inv s \<Longrightarrow> holds s pid h \<Longrightarrow> deref h (put h p s) = Some p"
    and put_put: "put h p (put h q s) = put h p s"
    and unpin_put: "inv s \<Longrightarrow> holds s pid h \<Longrightarrow> page_wf p \<Longrightarrow> pg_ID p = pid \<Longrightarrow>
        pg_Dirty p \<or> dirty \<or> deref h s = Some p \<Longrightarrow>
        \<exists>s'. unpin pid dirty (put h p s) = (Ok (), s') \<and> inv s' \<and> extent s' = extent s
          \<and> contents s' = (contents s)(pid := pg_Data p)
          \<and> pinned s' = (pinned s)(pid := pinned s pid - 1) \<and> ready s' = ready s"
begin

text \<open>A store at rest: usable, and no page pinned.\<close>

definition at_rest :: "'s \<Rightarrow> bool" where
  "at_rest s \<longleftrightarrow> inv s \<and> ready s \<and> (\<forall>q. pinned s q = 0)"

text \<open>
  One complete access to a page: it is opened (fetched), possibly replaced by a page that is
  announced as changed, and closed (unpinned). The store is then at rest again, the page
  has its new contents and every other page its old ones.
\<close>

definition opened :: "'s \<Rightarrow> u64 \<Rightarrow> 'h \<Rightarrow> 's \<Rightarrow> page \<Rightarrow> bool" where
  "opened s pid h s1 p \<longleftrightarrow> inv s1 \<and> ready s1 \<and> holds s1 pid h \<and> deref h s1 = Some p \<and> page_wf p \<and> pg_ID p = pid
     \<and> pg_Data p = contents s pid \<and> extent s1 = extent s \<and> (\<forall>q. pinned s1 q = (if q = pid then 1 else 0))
     \<and> (\<forall>q. q \<noteq> 0 \<longrightarrow> contents s1 q = contents s q)"

definition closed :: "'s \<Rightarrow> u64 \<Rightarrow> byte list \<Rightarrow> 's \<Rightarrow> bool" where
  "closed s pid bs s2 \<longleftrightarrow> at_rest s2 \<and> extent s2 = extent s
     \<and> (\<forall>r. r \<noteq> 0 \<longrightarrow> contents s2 r = (if r = pid then bs else contents s r))"

lemma open_page:
  assumes "at_rest s" "pid_ok pid" "pid < extent s" "pid \<noteq> 0"
  shows "\<exists>h s1 p. fetch pid s = (Ok h, s1) \<and> opened s pid h s1 p"
proof -
  have s: "inv s" "ready s" and z: "\<And>q. pinned s q = 0" using assms(1) by (simp_all add: at_rest_def)
  obtain h s1 where f: "fetch pid s = (Ok h, s1)" using fetch_total [OF s(1) assms(2,3) s(2) z] by blast
  note post = fetch_ok [OF s(1) assms(2,3) f]
  obtain p where p: "deref h s1 = Some p" "page_wf p" "pg_ID p = pid" "pg_Data p = contents s1 pid"
    using holds_deref [of s1 pid h] post by blast
  have "opened s pid h s1 p" unfolding opened_def using post p s(2) z assms(4) by simp
  with f show ?thesis by blast
qed

lemma close_page:
  assumes o: "opened s pid h s1 p" and q: "page_wf q" "pg_ID q = pid" "pg_Dirty q \<or> dirty \<or> q = p"
  shows "\<exists>s2. unpin pid dirty (put h q s1) = (Ok (), s2) \<and> closed s pid (pg_Data q) s2"
proof -
  have h: "inv s1" "holds s1 pid h" and r: "ready s1" "extent s1 = extent s"
    and z: "\<And>r. pinned s1 r = (if r = pid then 1 else 0)"
    and c: "\<And>r. r \<noteq> 0 \<Longrightarrow> contents s1 r = contents s r"
    using o by (simp_all add: opened_def)
  have "pg_Dirty q \<or> dirty \<or> deref h s1 = Some q" using q(3) o by (auto simp: opened_def)
  from unpin_put [OF h q(1,2) this] obtain s2 where
    u: "unpin pid dirty (put h q s1) = (Ok (), s2)" "inv s2" "extent s2 = extent s1"
      "contents s2 = (contents s1)(pid := pg_Data q)" "pinned s2 = (pinned s1)(pid := pinned s1 pid - 1)"
      "ready s2 = ready s1" by blast
  have "closed s pid (pg_Data q) s2"
    unfolding closed_def at_rest_def using u r z c by simp
  with u(1) show ?thesis by blast
qed

lemma close_unchanged:
  assumes o: "opened s pid h s1 p"
  shows "\<exists>s2. unpin pid dirty s1 = (Ok (), s2) \<and> closed s pid (contents s pid) s2"
proof -
  have p: "deref h s1 = Some p" "page_wf p" "pg_ID p = pid" "pg_Data p = contents s pid"
    using o by (simp_all add: opened_def)
  show ?thesis using close_page [OF o p(2,3), of dirty] put_deref [OF p(1)] p(4) by simp
qed

lemma closed_same: "closed s pid (contents s pid) s2 \<Longrightarrow> r \<noteq> 0 \<Longrightarrow> contents s2 r = contents s r"
  by (simp add: closed_def)

lemma closed_rest: "closed s pid bs s2 \<Longrightarrow> at_rest s2" "closed s pid bs s2 \<Longrightarrow> extent s2 = extent s"
  by (simp_all add: closed_def)

lemma opened_deref: "opened s pid h s1 p \<Longrightarrow> deref h s1 = Some p"
  by (simp add: opened_def)

lemma opened_put: "opened s pid h s1 p \<Longrightarrow> deref h (put h q s1) = Some q"
  unfolding opened_def by (blast intro: deref_put)

lemma opened_page: "opened s pid h s1 p \<Longrightarrow> page_wf p" "opened s pid h s1 p \<Longrightarrow> pg_ID p = pid"
    "opened s pid h s1 p \<Longrightarrow> pg_Data p = contents s pid" "opened s pid h s1 p \<Longrightarrow> extent s1 = extent s"
  by (simp_all add: opened_def)

end

section \<open>The buffer pool is a page cache\<close>

definition pool_inv :: "store \<Rightarrow> bool" where
  "pool_inv st \<longleftrightarrow> pool_ok st \<and> cached_below st"

definition pool_ready :: "store \<Rightarrow> bool" where
  "pool_ready st \<longleftrightarrow> healthy st \<and> bp_frames (st_bp st) \<noteq> []"

definition pool_extent :: "store \<Rightarrow> u64" where
  "pool_extent st = dm_pageCount (st_disk st)"

definition pool_holds :: "store \<Rightarrow> u64 \<Rightarrow> nat \<Rightarrow> bool" where
  "pool_holds st pid i \<longleftrightarrow> bp_pageMap (st_bp st) pid = Some i"

lemma pool_fetch_ok:
  assumes "pool_inv st" "pid_ok pid" "pid < pool_extent st" "BufferPool_FetchPage pid st = (Ok h, st')"
  shows "pool_inv st' \<and> pool_extent st' = pool_extent st \<and> pool_holds st' pid h
    \<and> pins st' = (pins st)(pid := pins st pid + 1)
    \<and> (\<forall>q. q \<noteq> 0 \<longrightarrow> view st' q = view st q) \<and> pool_ready st' = pool_ready st"
proof -
  have "fetched st pid h st'"
    using FetchPage_spec [of st pid] assms by (auto simp: pool_inv_def)
  then show ?thesis
    using assms(1,3)
    by (auto simp: fetched_def pool_inv_def pool_extent_def pool_holds_def pool_ready_def same_view_def
        healthy_def same_faults_def)
qed

lemma pool_holds_deref:
  assumes "pool_inv st" "pool_holds st pid h"
  shows "\<exists>p. page_at h st = Some p \<and> page_wf p \<and> pg_ID p = pid \<and> pg_Data p = view st pid"
proof -
  have ok: "pool_ok st" and m: "bp_pageMap (st_bp st) pid = Some h"
    using assms by (simp_all add: pool_inv_def pool_holds_def)
  obtain p where p: "h < length (bp_frames (st_bp st))" "fr_Page (bp_frames (st_bp st) ! h) = Some p" "pg_ID p = pid"
    using map_okD [OF _ m] ok by (auto simp: pool_ok_def)
  then have "cached_ok (st_disk st) p" using frame_ok_nth [OF ok] by (simp add: frame_ok_def)
  then show ?thesis using p m by (simp add: page_at_def cached_ok_def view_def)
qed

lemma set_page_same:
  assumes "page_at h s = Some p"
  shows "set_page h p s = s"
proof -
  have "(bp_frames (st_bp s) ! h)\<lparr>fr_Page := Some p\<rparr> = bp_frames (st_bp s) ! h"
    using assms by (intro Frame.equality) (auto simp: page_at_def split: if_splits)
  then have "set_page h p s = s\<lparr>st_bp := (st_bp s)\<lparr>bp_frames := bp_frames (st_bp s)\<rparr>\<rparr>"
    by (simp add: set_page_def)
  also have "\<dots> = s" by simp
  finally show ?thesis .
qed

interpretation pool: page_cache pool_inv view pins pool_extent pool_ready page_at pool_holds
  BufferPool_FetchPage set_page BufferPool_UnpinPage
proof
  show "pool_inv s \<Longrightarrow> pid_ok pid \<Longrightarrow> pid < pool_extent s \<Longrightarrow> pool_ready s \<Longrightarrow> (\<And>q. pins s q = 0) \<Longrightarrow>
      \<exists>h s'. BufferPool_FetchPage pid s = (Ok h, s')" for s pid
    using FetchPage_succeeds [of s pid] by (auto simp: pool_inv_def pool_ready_def quiet_def)
  show "page_at h s = Some p \<Longrightarrow> set_page h p s = s" for h s p
    by (rule set_page_same)
  show "pool_inv s \<Longrightarrow> pool_holds s pid h \<Longrightarrow> page_at h (set_page h p s) = Some p" for s pid h p
    using map_okD [of "st_bp s" pid h]
    by (auto simp: page_at_def set_page_def pool_inv_def pool_holds_def pool_ok_def)
  show "set_page h p (set_page h q s) = set_page h p s" for h p q s
    by (cases "h < length (bp_frames (st_bp s))") (simp_all add: set_page_def not_less list_update_beyond)
  show "\<exists>s'. BufferPool_UnpinPage pid dirty (set_page h p s) = (Ok (), s') \<and> pool_inv s'
      \<and> pool_extent s' = pool_extent s \<and> view s' = (view s)(pid := pg_Data p)
      \<and> pins s' = (pins s)(pid := pins s pid - 1) \<and> pool_ready s' = pool_ready s"
    if "pool_inv s" "pool_holds s pid h" "page_wf p" "pg_ID p = pid" "pg_Dirty p \<or> dirty \<or> page_at h s = Some p"
    for s pid h p dirty
  proof -
    note hyps = that
    have "pool_ok s" "bp_pageMap (st_bp s) pid = Some h" "pg_Dirty p \<or> dirty \<or> pid = 0 \<or> page_at h s = Some p"
      using that(1,2,5) by (auto simp: pool_inv_def pool_holds_def)
    then obtain s' where s': "BufferPool_UnpinPage pid dirty (set_page h p s) = (Ok (), s')" "unpinned s pid (pg_Data p) s'"
      using Unpin_after_write [of s pid h p dirty] hyps(3,4) by blast
    have "(bp_frames (st_bp s') = []) = (bp_frames (st_bp s) = [])"
      using s'(2) by (metis unpinned_def length_0_conv)
    then show ?thesis using s' hyps(1)
      by (auto simp: unpinned_def pool_inv_def pool_extent_def pool_ready_def healthy_def)
  qed
qed (use pool_fetch_ok pool_holds_deref in blast)+

end
