(* ===== verification/GoLib.thy ===== *)
theory GoLib imports StorageTypes begin

text \<open>
  What the code uses of Go's standard library, on strings as byte sequences (a HOL
  \<^verbatim>\<open>char\<close> is one byte): \<^verbatim>\<open>strconv.Atoi\<close>, decimal printing, \<^verbatim>\<open>strings\<close> and the decoding of UTF-8
  by a \<^verbatim>\<open>range\<close> loop, all defined outright. Case mapping and folding are ASCII, which is
  exact for every identifier the lexer lets through. IEEE arithmetic and the conversions
  between floats and text are the fields of a record \<open>flt\<close>, a parameter of every
  definition that touches a float; a float is its 64 bits.
\<close>

section \<open>Strings as bytes\<close>

definition code :: "char \<Rightarrow> nat" where "code c = of_char c"

definition byte_of_char :: "char \<Rightarrow> byte" where "byte_of_char c = word_of_nat (of_char c)"
definition char_of_byte :: "byte \<Rightarrow> char" where "char_of_byte b = char_of (unat b)"

definition bytes_of :: "string \<Rightarrow> byte list" where "bytes_of s = map byte_of_char s"
definition string_of :: "byte list \<Rightarrow> string" where "string_of bs = map char_of_byte bs"

lemma char_of_byte_of_char [simp]: "char_of_byte (byte_of_char c) = c"
  by (simp add: char_of_byte_def byte_of_char_def unat_of_nat of_char_of)

lemma string_of_bytes_of [simp]: "string_of (bytes_of s) = s"
  by (simp add: string_of_def bytes_of_def comp_def)

lemma length_bytes_of [simp]: "length (bytes_of s) = length s"
  by (simp add: bytes_of_def)

section \<open>Characters and case\<close>

definition is_digit :: "char \<Rightarrow> bool" where "is_digit c \<longleftrightarrow> 48 \<le> code c \<and> code c \<le> 57"
definition is_lower :: "char \<Rightarrow> bool" where "is_lower c \<longleftrightarrow> 97 \<le> code c \<and> code c \<le> 122"
definition is_upper :: "char \<Rightarrow> bool" where "is_upper c \<longleftrightarrow> 65 \<le> code c \<and> code c \<le> 90"

text \<open>For evaluation: the same tests on the bits of a character.\<close>

lemma is_digit_bits [code]:
  "is_digit c = (case c of Char b0 b1 b2 b3 b4 b5 b6 b7 \<Rightarrow>
     \<not> b7 \<and> \<not> b6 \<and> b5 \<and> b4 \<and> (\<not> b3 \<or> (\<not> b2 \<and> \<not> b1)))"
proof (cases c)
  case (Char b0 b1 b2 b3 b4 b5 b6 b7)
  show ?thesis unfolding Char
    by (cases b0; cases b1; cases b2; cases b3; cases b4; cases b5; cases b6; cases b7) (simp_all add: is_digit_def code_def)
qed

lemma is_lower_bits [code]:
  "is_lower c = (case c of Char b0 b1 b2 b3 b4 b5 b6 b7 \<Rightarrow>
     \<not> b7 \<and> b6 \<and> b5 \<and> (b0 \<or> b1 \<or> b2 \<or> b3 \<or> b4) \<and> \<not> (b4 \<and> b3 \<and> (b2 \<or> (b1 \<and> b0))))"
proof (cases c)
  case (Char b0 b1 b2 b3 b4 b5 b6 b7)
  show ?thesis unfolding Char
    by (cases b0; cases b1; cases b2; cases b3; cases b4; cases b5; cases b6; cases b7) (simp_all add: is_lower_def code_def)
qed

lemma is_upper_bits [code]:
  "is_upper c = (case c of Char b0 b1 b2 b3 b4 b5 b6 b7 \<Rightarrow>
     \<not> b7 \<and> b6 \<and> \<not> b5 \<and> (b0 \<or> b1 \<or> b2 \<or> b3 \<or> b4) \<and> \<not> (b4 \<and> b3 \<and> (b2 \<or> (b1 \<and> b0))))"
proof (cases c)
  case (Char b0 b1 b2 b3 b4 b5 b6 b7)
  show ?thesis unfolding Char
    by (cases b0; cases b1; cases b2; cases b3; cases b4; cases b5; cases b6; cases b7) (simp_all add: is_upper_def code_def)
qed

lemma code_is:
  "(code c = 32) = (c = CHR '' '')" "(code c = 9) = (c = CHR 0x09)" "(code c = 10) = (c = CHR 0x0A)"
  "(code c = 13) = (c = CHR 0x0D)" "(code c = 39) = (c = CHR 0x27)" "(code c = 34) = (c = CHR 0x22)"
  using of_char_eq_iff [where 'a = nat, of c "CHR '' ''"] of_char_eq_iff [where 'a = nat, of c "CHR 0x09"]
    of_char_eq_iff [where 'a = nat, of c "CHR 0x0A"] of_char_eq_iff [where 'a = nat, of c "CHR 0x0D"]
    of_char_eq_iff [where 'a = nat, of c "CHR 0x27"] of_char_eq_iff [where 'a = nat, of c "CHR 0x22"]
  by (simp_all add: code_def)

definition up_char :: "char \<Rightarrow> char" where
  "up_char c = (if is_lower c then char_of (code c - 32) else c)"

text \<open>For evaluation: a lower-case letter differs from its capital in one bit.\<close>

lemma up_char_bits [code]:
  "up_char c = (case c of Char b0 b1 b2 b3 b4 b5 b6 b7 \<Rightarrow>
     if is_lower c then Char b0 b1 b2 b3 b4 False b6 b7 else c)"
proof (cases c)
  case (Char b0 b1 b2 b3 b4 b5 b6 b7)
  show ?thesis
  proof (cases "is_lower c")
    case True
    then have "b5" unfolding Char
      by (cases b0; cases b1; cases b2; cases b3; cases b4; cases b5; cases b6; cases b7) (simp_all add: is_lower_def code_def)
    then have eq: "of_char c - 32 = (of_char (Char b0 b1 b2 b3 b4 False b6 b7) :: nat)" by (simp add: Char)
    have "up_char c = char_of (of_char c - 32 :: nat)" using True by (simp only: up_char_def code_def if_True)
    also have "\<dots> = Char b0 b1 b2 b3 b4 False b6 b7" unfolding eq by (rule char_of_char)
    finally show ?thesis using True by (simp only: Char char.case if_True)
  qed (simp add: up_char_def Char)
qed

definition low_char :: "char \<Rightarrow> char" where
  "low_char c = (if is_upper c then char_of (code c + 32) else c)"

definition ToUpper :: "string \<Rightarrow> string" where "ToUpper s = map up_char s"
definition ToLower :: "string \<Rightarrow> string" where "ToLower s = map low_char s"
definition EqualFold :: "string \<Rightarrow> string \<Rightarrow> bool" where "EqualFold s t \<longleftrightarrow> ToLower s = ToLower t"

section \<open>Package strings\<close>

definition HasPrefix :: "string \<Rightarrow> string \<Rightarrow> bool" where
  "HasPrefix s p \<longleftrightarrow> take (length p) s = p"

definition HasSuffix :: "string \<Rightarrow> string \<Rightarrow> bool" where
  "HasSuffix s p \<longleftrightarrow> length p \<le> length s \<and> drop (length s - length p) s = p"

fun Contains :: "string \<Rightarrow> string \<Rightarrow> bool" where
  "Contains [] t = (t = [])"
| "Contains (c # s) t = (HasPrefix (c # s) t \<or> Contains s t)"

text \<open>\<open>index_dot s\<close> is \<^verbatim>\<open>strings.Index(s, ".")\<close>, with \<open>None\<close> for -1.\<close>

fun index_dot :: "string \<Rightarrow> nat option" where
  "index_dot [] = None"
| "index_dot (c # s) = (if c = CHR ''.'' then Some 0 else map_option Suc (index_dot s))"

text \<open>Go compares strings byte by byte.\<close>

fun str_less :: "string \<Rightarrow> string \<Rightarrow> bool" where
  "str_less s [] = False"
| "str_less [] (d # t) = True"
| "str_less (c # s) (d # t) = (code c < code d \<or> (code c = code d \<and> str_less s t))"

definition is_space :: "char \<Rightarrow> bool" where
  "is_space c \<longleftrightarrow> code c \<in> {9, 10, 11, 12, 13, 32}"

fun fields_from :: "string \<Rightarrow> string \<Rightarrow> string list" where
  "fields_from w [] = (if w = [] then [] else [w])"
| "fields_from w (c # s) =
     (if is_space c then (if w = [] then fields_from [] s else w # fields_from [] s)
      else fields_from (w @ [c]) s)"

definition Fields :: "string \<Rightarrow> string list" where "Fields s = fields_from [] s"

fun Join :: "string list \<Rightarrow> string \<Rightarrow> string" where
  "Join [] sep = []"
| "Join [x] sep = x"
| "Join (x # y # xs) sep = x @ sep @ Join (y # xs) sep"

section \<open>UTF-8: the runes of a range loop\<close>

definition cont_byte :: "nat \<Rightarrow> bool" where "cont_byte b \<longleftrightarrow> 128 \<le> b \<and> b \<le> 191"

definition lead3_ok :: "nat \<Rightarrow> nat \<Rightarrow> bool" where
  "lead3_ok b0 b1 \<longleftrightarrow> 224 \<le> b0 \<and> b0 \<le> 239 \<and> cont_byte b1
     \<and> (b0 = 224 \<longrightarrow> 160 \<le> b1) \<and> (b0 = 237 \<longrightarrow> b1 \<le> 159)"

definition lead4_ok :: "nat \<Rightarrow> nat \<Rightarrow> bool" where
  "lead4_ok b0 b1 \<longleftrightarrow> 240 \<le> b0 \<and> b0 \<le> 244 \<and> cont_byte b1
     \<and> (b0 = 240 \<longrightarrow> 144 \<le> b1) \<and> (b0 = 244 \<longrightarrow> b1 \<le> 143)"

definition first_rune :: "nat list \<Rightarrow> nat \<times> nat" where
  "first_rune bs = (case bs of
     b0 # b1 # b2 # b3 # _ \<Rightarrow>
       (if b0 < 128 then (b0, 1)
        else if 194 \<le> b0 \<and> b0 \<le> 223 \<and> cont_byte b1 then ((b0 - 192) * 64 + (b1 - 128), 2)
        else if lead3_ok b0 b1 \<and> cont_byte b2
          then ((b0 - 224) * 4096 + (b1 - 128) * 64 + (b2 - 128), 3)
        else if lead4_ok b0 b1 \<and> cont_byte b2 \<and> cont_byte b3
          then ((b0 - 240) * 262144 + (b1 - 128) * 4096 + (b2 - 128) * 64 + (b3 - 128), 4)
        else (65533, 1))
   | _ \<Rightarrow> (65533, 1))"

text \<open>
  The window is padded with zero bytes, which are never continuation bytes, so a
  sequence cut short at the end of the string decodes to the replacement rune.
\<close>

fun runes :: "nat \<Rightarrow> nat list \<Rightarrow> nat list" where
  "runes 0 bs = []"
| "runes (Suc fuel) bs = (if bs = [] then []
     else let (r, w) = first_rune (bs @ [0, 0, 0]) in r # runes fuel (drop w bs))"

definition runes_of :: "string \<Rightarrow> nat list" where
  "runes_of s = runes (length s) (map code s)"

lemma first_rune_width: "1 \<le> snd (first_rune bs)"
  by (simp add: first_rune_def split: list.splits)

lemma runes_enough: "length bs \<le> fuel \<Longrightarrow> runes (fuel + k) bs = runes fuel bs"
proof (induction fuel arbitrary: bs)
  case 0
  then show ?case by (cases k) auto
next
  case (Suc fuel)
  show ?case
  proof (cases "bs = []")
    case False
    have "length (drop (snd (first_rune (bs @ [0, 0, 0]))) bs) \<le> fuel"
      using Suc.prems first_rune_width [of "bs @ [0, 0, 0]"] False by (cases bs) auto
    then show ?thesis using False Suc.IH by (simp add: case_prod_beta)
  qed simp
qed

lemma first_rune_ascii: "b < 128 \<Longrightarrow> first_rune (b # bs @ [0, 0, 0]) = (b, 1)"
proof -
  assume b: "b < 128"
  have "3 \<le> length (bs @ [0, 0, 0 :: nat])" by simp
  then obtain b1 b2 b3 r where "bs @ [0, 0, 0] = b1 # b2 # b3 # r"
    unfolding numeral_3_eq_3 Suc_le_length_iff by metis
  then show ?thesis using b by (simp only: first_rune_def list.case if_True)
qed

lemma runes_ascii_list: "\<forall>b \<in> set bs. b < 128 \<Longrightarrow> runes (length bs) bs = bs"
  by (induction bs) (simp_all add: first_rune_ascii)

lemma runes_ascii: "\<forall>c \<in> set s. code c < 128 \<Longrightarrow> runes_of s = map code s"
  using runes_ascii_list [of "map code s"] by (simp add: runes_of_def)

section \<open>Decimal text\<close>

definition digit :: "nat \<Rightarrow> char" where "digit d = char_of (48 + d)"

fun dec_nat :: "nat \<Rightarrow> string" where
  "dec_nat n = (if n < 10 then [digit n] else dec_nat (n div 10) @ [digit (n mod 10)])"

declare dec_nat.simps [simp del]

definition dec_int :: "int \<Rightarrow> string" where
  "dec_int i = (if i < 0 then CHR ''-'' # dec_nat (nat (- i)) else dec_nat (nat i))"

text \<open>\<^verbatim>\<open>strconv.ParseUint(s, 10, 64)\<close> and \<^verbatim>\<open>strconv.Atoi\<close>.\<close>

fun parse_uint :: "nat \<Rightarrow> string \<Rightarrow> (storage_err, nat) outcome" where
  "parse_uint n [] = Ok n"
| "parse_uint n (c # s) =
     (if \<not> is_digit c then Err (InvalidSyntax [])
      else if 1844674407370955162 \<le> n then Err (ValueOutOfRange [])
      else let n1 = n * 10 + (code c - 48) in
        if 18446744073709551615 < n1 then Err (ValueOutOfRange []) else parse_uint n1 s)"

definition Atoi :: "string \<Rightarrow> (storage_err, i64) outcome" where
  "Atoi s0 =
     (let neg = (s0 \<noteq> [] \<and> hd s0 = CHR ''-'');
          s = (if s0 \<noteq> [] \<and> (hd s0 = CHR ''-'' \<or> hd s0 = CHR ''+'') then tl s0 else s0)
      in if s = [] then Err (InvalidSyntax s0)
      else case parse_uint 0 s of
        Ok n \<Rightarrow>
          (if \<not> neg \<and> 9223372036854775808 \<le> n then Err (ValueOutOfRange s0)
           else if neg \<and> 9223372036854775808 < n then Err (ValueOutOfRange s0)
           else Ok (if neg then - word_of_nat n else word_of_nat n))
      | Err (InvalidSyntax _) \<Rightarrow> Err (InvalidSyntax s0)
      | _ \<Rightarrow> Err (ValueOutOfRange s0))"

section \<open>Floats: the parameter\<close>

record flt =
  f_of_int :: "i64 \<Rightarrow> u64"         \<comment> \<open>float64(int)\<close>
  f_of_f32 :: "u32 \<Rightarrow> u64"         \<comment> \<open>float64(float32)\<close>
  f_to_i32 :: "u64 \<Rightarrow> i32"         \<comment> \<open>int32(float64)\<close>
  f_less :: "u64 \<Rightarrow> u64 \<Rightarrow> bool"
  f_eq :: "u64 \<Rightarrow> u64 \<Rightarrow> bool"
  f_add :: "u64 \<Rightarrow> u64 \<Rightarrow> u64"
  f_div :: "u64 \<Rightarrow> u64 \<Rightarrow> u64"
  f_fmt :: "u64 \<Rightarrow> string"         \<comment> \<open>%v of a float64\<close>
  f_fmt32 :: "u32 \<Rightarrow> string"       \<comment> \<open>%v of a float32\<close>
  f_fmt2 :: "u64 \<Rightarrow> string"        \<comment> \<open>%.2f of a float64\<close>
  f_parse :: "string \<Rightarrow> u64 option" \<comment> \<open>strconv.ParseFloat(s, 64), None for an error\<close>

text \<open>A string literal given by its UTF-8 bytes.\<close>

definition utf8 :: "nat list \<Rightarrow> string" where "utf8 bs = map char_of bs"

section \<open>Values of type interface{}\<close>

datatype val =
    VNil
  | VInt i64        \<comment> \<open>int\<close>
  | VInt32 i32
  | VInt64 i64
  | VFloat32 u32
  | VFloat64 u64
  | VBool bool
  | VString string

text \<open>\<^verbatim>\<open>fmt.Sprintf("%v", x)\<close>\<close>

fun fmt_v :: "flt \<Rightarrow> val \<Rightarrow> string" where
  "fmt_v fl VNil = ''<nil>''"
| "fmt_v fl (VInt i) = dec_int (sint i)"
| "fmt_v fl (VInt32 i) = dec_int (sint i)"
| "fmt_v fl (VInt64 i) = dec_int (sint i)"
| "fmt_v fl (VFloat32 f) = f_fmt32 fl f"
| "fmt_v fl (VFloat64 f) = f_fmt fl f"
| "fmt_v fl (VBool b) = (if b then ''true'' else ''false'')"
| "fmt_v fl (VString s) = s"

text \<open>\<^verbatim>\<open>%v\<close> of a slice of such values.\<close>

definition fmt_vals :: "flt \<Rightarrow> val list \<Rightarrow> string" where
  "fmt_vals fl vs = ''['' @ Join (map (fmt_v fl) vs) '' '' @ '']''"

end
