(* ===== verification/Row.thy ===== *)
theory Row imports GoLib begin

text \<open>
  \<^verbatim>\<open>pkg/storage/row.go\<close>: the row format. A row is a null bitmap, the fixed part of every column
  in order (a text column holds a 2-byte offset there), a table of 2-byte offsets, and the
  length-prefixed texts. Loops over the columns are recursions on the column list carrying
  the column index and the variables the Go loop updates.
\<close>

record Row =
  row_RID :: RID
  row_Values :: "val list"

section \<open>Helpers\<close>

definition colFixedSize :: "ColumnDef \<Rightarrow> nat" where
  "colFixedSize col = (case col_ColType col of
     TypeInt \<Rightarrow> 4 | TypeFloat \<Rightarrow> 8 | TypeBool \<Rightarrow> 1 | TypeText \<Rightarrow> 2 | _ \<Rightarrow> 0)"

fun toInt32 :: "flt \<Rightarrow> val \<Rightarrow> i32" where
  "toInt32 fl (VInt i) = ucast i"
| "toInt32 fl (VInt32 i) = i"
| "toInt32 fl (VFloat64 f) = f_to_i32 fl f"
| "toInt32 fl _ = 0"

text \<open>The float switch of \<^verbatim>\<open>SerializeRow\<close>; any other dynamic type leaves \<^verbatim>\<open>float64(0)\<close>.\<close>

fun ser_float :: "flt \<Rightarrow> val \<Rightarrow> u64" where
  "ser_float fl (VFloat64 f) = f"
| "ser_float fl (VFloat32 f) = f_of_f32 fl f"
| "ser_float fl (VInt i) = f_of_int fl i"
| "ser_float fl _ = 0"

fun ser_bool :: "val \<Rightarrow> bool" where
  "ser_bool (VBool b) = b"
| "ser_bool _ = False"

section \<open>SerializeRow\<close>

record ser_st =
  ss_nullBitmap :: "byte list"
  ss_fixedPart :: "byte list"
  ss_varData :: "byte list"
  ss_varOffsets :: "u16 list"
  ss_currentVarOffset :: u16

definition set_null :: "nat \<Rightarrow> byte list \<Rightarrow> byte list" where
  "set_null i nb = nb[i div 8 := nb ! (i div 8) OR push_bit (i mod 8) 1]"

definition ser_col :: "flt \<Rightarrow> nat \<Rightarrow> ColumnDef \<Rightarrow> val \<Rightarrow> ser_st \<Rightarrow> ser_st" where
  "ser_col fl i col v st =
     (if v = VNil then
        st\<lparr>ss_nullBitmap := set_null i (ss_nullBitmap st),
           ss_fixedPart := ss_fixedPart st @ replicate (colFixedSize col) 0,
           ss_varOffsets := (ss_varOffsets st)[i := 0]\<rparr>
      else case col_ColType col of
        TypeInt \<Rightarrow>
          st\<lparr>ss_fixedPart := ss_fixedPart st @ put32 (toInt32 fl v),
             ss_varOffsets := (ss_varOffsets st)[i := 0]\<rparr>
      | TypeFloat \<Rightarrow>
          st\<lparr>ss_fixedPart := ss_fixedPart st @ put64 (ser_float fl v),
             ss_varOffsets := (ss_varOffsets st)[i := 0]\<rparr>
      | TypeBool \<Rightarrow>
          st\<lparr>ss_fixedPart := ss_fixedPart st @ [if ser_bool v then 1 else 0],
             ss_varOffsets := (ss_varOffsets st)[i := 0]\<rparr>
      | TypeText \<Rightarrow>
          (let strBytes = bytes_of (fmt_v fl v) in
           st\<lparr>ss_fixedPart := ss_fixedPart st @ put16 (ss_currentVarOffset st),
              ss_varOffsets := (ss_varOffsets st)[i := ss_currentVarOffset st],
              ss_currentVarOffset := ss_currentVarOffset st + word_of_nat (2 + length strBytes),
              ss_varData := ss_varData st @ put16 (word_of_nat (length strBytes)) @ strBytes\<rparr>)
      | TypeOther _ \<Rightarrow> st)"

fun ser_loop :: "flt \<Rightarrow> nat \<Rightarrow> ColumnDef list \<Rightarrow> val list \<Rightarrow> ser_st \<Rightarrow> ser_st" where
  "ser_loop fl i (c # cs) (v # vs) st = ser_loop fl (Suc i) cs vs (ser_col fl i c v st)"
| "ser_loop fl i _ _ st = st"

definition SerializeRow :: "flt \<Rightarrow> Row \<Rightarrow> TableSchema \<Rightarrow> (storage_err, byte list) outcome" where
  "SerializeRow fl row schema =
     (let cols = sch_Columns schema; vals = row_Values row in
      if length vals \<noteq> length cols then Err (ColumnCountMismatch (length vals) (length cols))
      else let st = ser_loop fl 0 cols vals
             \<lparr>ss_nullBitmap = replicate ((length cols + 7) div 8) 0, ss_fixedPart = [],
              ss_varData = [], ss_varOffsets = replicate (length cols) 0,
              ss_currentVarOffset = 0\<rparr>
        in Ok (ss_nullBitmap st @ ss_fixedPart st @ concat (map put16 (ss_varOffsets st))
               @ ss_varData st))"

section \<open>DeserializeRow\<close>

text \<open>Every access to \<^verbatim>\<open>data\<close>, the bitmap, the values and the columns is a checked one that can panic.\<close>

definition is_null_at :: "byte list \<Rightarrow> nat \<Rightarrow> bool" where
  "is_null_at nb i \<longleftrightarrow> i div 8 < length nb \<and> nb ! (i div 8) AND push_bit (i mod 8) 1 \<noteq> 0"

definition null_bit :: "byte list \<Rightarrow> nat \<Rightarrow> (storage_err, bool) outcome" where
  "null_bit nb i =
     (if i div 8 < length nb
      then bind_out (go_index (i div 8) nb) (\<lambda>b. Ok (b AND push_bit (i mod 8) 1 \<noteq> 0))
      else Ok False)"

lemma null_bit [simp]: "null_bit nb i = Ok (is_null_at nb i)"
  by (simp add: null_bit_def is_null_at_def)

type_synonym des_res = "(storage_err, nat \<times> val list \<times> (nat \<times> u16) list) outcome"

fun des_loop :: "byte list \<Rightarrow> byte list \<Rightarrow> nat \<Rightarrow> ColumnDef list \<Rightarrow> nat \<Rightarrow> val list
    \<Rightarrow> (nat \<times> u16) list \<Rightarrow> des_res" where
  "des_loop data nb i [] pos values offs = Ok (pos, values, offs)"
| "des_loop data nb i (col # cs) pos values offs =
     bind_out (null_bit nb i) (\<lambda>isNull.
       if isNull then
         bind_out (go_store i VNil values) (\<lambda>values. des_loop data nb (Suc i) cs (pos + colFixedSize col) values offs)
       else case col_ColType col of
         TypeInt \<Rightarrow>
           (if pos + 4 > length data then Err (NoDataForColumn TypeInt i)
            else bind_out (go_slice pos (pos + 4) data) (\<lambda>b. bind_out (Uint32 b) (\<lambda>n.
              bind_out (go_store i (VInt32 n) values) (\<lambda>values. des_loop data nb (Suc i) cs (pos + 4) values offs))))
       | TypeFloat \<Rightarrow>
           (if pos + 8 > length data then Err (NoDataForColumn TypeFloat i)
            else bind_out (go_slice pos (pos + 8) data) (\<lambda>b. bind_out (Uint64 b) (\<lambda>bits.
              bind_out (go_store i (VFloat64 bits) values) (\<lambda>values. des_loop data nb (Suc i) cs (pos + 8) values offs))))
       | TypeBool \<Rightarrow>
           (if pos + 1 > length data then Err (NoDataForColumn TypeBool i)
            else bind_out (go_index pos data) (\<lambda>b.
              bind_out (go_store i (VBool (b = 1)) values) (\<lambda>values. des_loop data nb (Suc i) cs (pos + 1) values offs)))
       | TypeText \<Rightarrow>
           (if pos + 2 > length data then Err (NoDataForColumn TypeText i)
            else bind_out (go_slice pos (pos + 2) data) (\<lambda>b. bind_out (Uint16 b) (\<lambda>off.
              des_loop data nb (Suc i) cs (pos + 2) values (offs @ [(i, off)]))))
       | TypeOther _ \<Rightarrow> des_loop data nb (Suc i) cs pos values offs)"

text \<open>
  The second pass runs over the offset map. Its entries write different columns, so the
  iteration order of the Go map does not matter; the model takes insertion order.
\<close>

fun des_texts :: "byte list \<Rightarrow> ColumnDef list \<Rightarrow> nat \<Rightarrow> (nat \<times> u16) list \<Rightarrow> val list
    \<Rightarrow> (storage_err, val list) outcome" where
  "des_texts data cols vp [] values = Ok values"
| "des_texts data cols vp ((ci, off) # offs) values =
     bind_out (go_index ci cols) (\<lambda>col.
       if col_ColType col \<noteq> TypeText then des_texts data cols vp offs values
       else let ds = vp + unat off in
         if ds + 2 > length data then des_texts data cols vp offs values
         else bind_out (go_slice ds (ds + 2) data) (\<lambda>b. bind_out (Uint16 b) (\<lambda>strLen.
           let ds = ds + 2 in
           if ds + unat strLen > length data then des_texts data cols vp offs values
           else bind_out (go_slice ds (ds + unat strLen) data) (\<lambda>str.
             bind_out (go_store ci (VString (string_of str)) values) (\<lambda>values. des_texts data cols vp offs values)))))"

definition DeserializeRow :: "byte list \<Rightarrow> TableSchema \<Rightarrow> (storage_err, Row) outcome" where
  "DeserializeRow data schema =
     (let cols = sch_Columns schema; nbs = (length cols + 7) div 8 in
      if data = [] then Err EmptyRowData
      else if nbs > length data then Err NoDataForBitmap
      else bind_out (go_slice 0 nbs data) (\<lambda>nullBitmap.
        bind_out (des_loop data nullBitmap 0 cols nbs (replicate (length cols) VNil) []) (\<lambda>(pos, values, offs).
          bind_out (des_texts data cols (pos + length cols * 2) offs values) (\<lambda>values.
            Ok \<lparr>row_RID = InvalidRID, row_Values = values\<rparr>))))"

text \<open>The steps of both passes where the column index is in range, with the accesses carried out.\<close>

lemma des_loop_Cons:
  assumes "i < length values"
  shows "des_loop data nb i (col # cs) pos values offs =
    (if is_null_at nb i then des_loop data nb (Suc i) cs (pos + colFixedSize col) (values[i := VNil]) offs
     else case col_ColType col of
       TypeInt \<Rightarrow> (if pos + 4 > length data then Err (NoDataForColumn TypeInt i)
         else des_loop data nb (Suc i) cs (pos + 4) (values[i := VInt32 (get32 (slice pos (pos + 4) data))]) offs)
     | TypeFloat \<Rightarrow> (if pos + 8 > length data then Err (NoDataForColumn TypeFloat i)
         else des_loop data nb (Suc i) cs (pos + 8) (values[i := VFloat64 (get64 (slice pos (pos + 8) data))]) offs)
     | TypeBool \<Rightarrow> (if pos + 1 > length data then Err (NoDataForColumn TypeBool i)
         else des_loop data nb (Suc i) cs (pos + 1) (values[i := VBool (data ! pos = 1)]) offs)
     | TypeText \<Rightarrow> (if pos + 2 > length data then Err (NoDataForColumn TypeText i)
         else des_loop data nb (Suc i) cs (pos + 2) values (offs @ [(i, get16 (slice pos (pos + 2) data))]))
     | TypeOther _ \<Rightarrow> des_loop data nb (Suc i) cs pos values offs)"
  using assms by (simp split: ColumnType.split)

lemma des_texts_Cons:
  assumes "ci < length cols" "ci < length values"
  shows "des_texts data cols vp ((ci, off) # offs) values =
    (let ds = vp + unat off; n = unat (get16 (slice ds (ds + 2) data)) in
     if col_ColType (cols ! ci) \<noteq> TypeText \<or> ds + 2 > length data \<or> ds + 2 + n > length data
     then des_texts data cols vp offs values
     else des_texts data cols vp offs (values[ci := VString (string_of (slice (ds + 2) (ds + 2 + n) data))]))"
  using assms by (simp add: Let_def del: add_2_eq_Suc add_2_eq_Suc')

section \<open>ParseValue\<close>

text \<open>An integer literal is read with \<^verbatim>\<open>strconv.Atoi\<close> (64 bits) and converted to \<^verbatim>\<open>int32\<close>.\<close>

definition ParseValue :: "flt \<Rightarrow> string \<Rightarrow> ColumnType \<Rightarrow> (storage_err, val) outcome" where
  "ParseValue fl str colType = (case colType of
     TypeInt \<Rightarrow> bind_out (Atoi str) (\<lambda>v. Ok (VInt32 (ucast v)))
   | TypeFloat \<Rightarrow> (case f_parse fl str of None \<Rightarrow> Err (InvalidSyntax str) | Some f \<Rightarrow> Ok (VFloat64 f))
   | TypeBool \<Rightarrow>
       (let lower = ToLower str in
        if lower = ''true'' \<or> lower = ''1'' \<or> lower = ''t'' then Ok (VBool True)
        else if lower = ''false'' \<or> lower = ''0'' \<or> lower = ''f'' then Ok (VBool False)
        else Err (InvalidBool str))
   | TypeText \<Rightarrow> Ok (VString str)
   | TypeOther _ \<Rightarrow> Err UnknownColumnType)"

section \<open>The layout of a serialized row\<close>

text \<open>A value fits a column when it is the dynamic type \<^verbatim>\<open>DeserializeRow\<close> produces there.\<close>

fun fits :: "ColumnType \<Rightarrow> val \<Rightarrow> bool" where
  "fits TypeInt (VInt32 _) = True"
| "fits TypeFloat (VFloat64 _) = True"
| "fits TypeText (VString _) = True"
| "fits TypeBool (VBool _) = True"
| "fits (TypeOther _) v = (v = VNil)"
| "fits _ v = (v = VNil)"

fun text_size :: "val \<Rightarrow> nat" where
  "text_size (VString s) = 2 + length s"
| "text_size _ = 0"

fun var_part :: "val \<Rightarrow> byte list" where
  "var_part (VString s) = put16 (word_of_nat (length s)) @ bytes_of s"
| "var_part _ = []"

definition fixed_part :: "nat \<Rightarrow> ColumnDef \<Rightarrow> val \<Rightarrow> byte list" where
  "fixed_part off c v = (case v of
     VInt32 n \<Rightarrow> put32 n | VFloat64 f \<Rightarrow> put64 f | VBool b \<Rightarrow> [if b then 1 else 0]
   | VString s \<Rightarrow> put16 (word_of_nat off) | _ \<Rightarrow> replicate (colFixedSize c) 0)"

fun fixed_parts :: "nat \<Rightarrow> ColumnDef list \<Rightarrow> val list \<Rightarrow> byte list" where
  "fixed_parts off (c # cs) (v # vs) = fixed_part off c v @ fixed_parts (off + text_size v) cs vs"
| "fixed_parts off _ _ = []"

fun text_offsets :: "nat \<Rightarrow> nat \<Rightarrow> val list \<Rightarrow> (nat \<times> u16) list" where
  "text_offsets i off [] = []"
| "text_offsets i off (VString s # vs) =
     (i, word_of_nat off) # text_offsets (Suc i) (off + text_size (VString s)) vs"
| "text_offsets i off (v # vs) = text_offsets (Suc i) off vs"

fun no_text :: "val \<Rightarrow> val" where
  "no_text (VString s) = VNil"
| "no_text v = v"

definition row_fits :: "ColumnDef list \<Rightarrow> val list \<Rightarrow> bool" where
  "row_fits cols vals \<longleftrightarrow> list_all2 (\<lambda>c v. v = VNil \<or> fits (col_ColType c) v) cols vals"

definition texts_size :: "val list \<Rightarrow> nat" where
  "texts_size vs = sum_list (map text_size vs)"

lemma length_var_part [simp]: "length (var_part v) = text_size v"
  by (cases v) simp_all

lemma length_var_parts: "length (concat (map var_part vs)) = texts_size vs"
  by (induction vs) (simp_all add: texts_size_def)

text \<open>The null bitmap: setting bit \<open>i\<close> changes exactly the mark of column \<open>i\<close>.\<close>

lemma is_null_at_bit:
  "is_null_at nb i \<longleftrightarrow> i div 8 < length nb \<and> bit (nb ! (i div 8)) (i mod 8)"
proof -
  have "(w AND push_bit n 1 \<noteq> 0) = bit w n" for w :: byte and n
    by (auto simp: bit_iff_and_push_bit_not_eq_0)
  then show ?thesis by (simp add: is_null_at_def)
qed

lemma length_set_null [simp]: "length (set_null i nb) = length nb"
  by (simp add: set_null_def)

lemma is_null_at_set_null:
  assumes "i div 8 < length nb"
  shows "is_null_at (set_null i nb) j \<longleftrightarrow> j = i \<or> is_null_at nb j"
proof (cases "j div 8 = i div 8")
  case True
  have lt: "j mod 8 < 8" "i mod 8 < 8" by simp_all
  have "j = i \<longleftrightarrow> j mod 8 = i mod 8" using True by (metis div_mult_mod_eq)
  then show ?thesis using assms True lt
    by (auto simp: is_null_at_bit set_null_def bit_or_iff bit_exp_iff possible_bit_word)
next
  case False
  then show ?thesis using assms by (auto simp: is_null_at_bit set_null_def)
qed

lemma ser_loop_spec:
  assumes "row_fits cs vs" "length cs + i \<le> 8 * length (ss_nullBitmap st)"
    and "ss_currentVarOffset st = word_of_nat off"
  shows "ss_fixedPart (ser_loop fl i cs vs st) = ss_fixedPart st @ fixed_parts off cs vs
    \<and> ss_varData (ser_loop fl i cs vs st) = ss_varData st @ concat (map var_part vs)
    \<and> length (ss_varOffsets (ser_loop fl i cs vs st)) = length (ss_varOffsets st)
    \<and> length (ss_nullBitmap (ser_loop fl i cs vs st)) = length (ss_nullBitmap st)
    \<and> (\<forall>j. is_null_at (ss_nullBitmap (ser_loop fl i cs vs st)) j \<longleftrightarrow>
         is_null_at (ss_nullBitmap st) j \<or> (i \<le> j \<and> j < i + length vs \<and> vs ! (j - i) = VNil))"
  using assms
proof (induction fl i cs vs st arbitrary: off rule: ser_loop.induct)
  case (1 fl i c cs v vs st)
  define st' where "st' = ser_col fl i c v st"
  have fit: "v = VNil \<or> fits (col_ColType c) v" "row_fits cs vs"
    using "1.prems"(1) by (simp_all add: row_fits_def)
  have i8: "i div 8 < length (ss_nullBitmap st)" using "1.prems"(2) by simp
  have "ss_fixedPart st' = ss_fixedPart st @ fixed_part off c v
    \<and> ss_varData st' = ss_varData st @ var_part v
    \<and> length (ss_varOffsets st') = length (ss_varOffsets st)
    \<and> ss_nullBitmap st' = (if v = VNil then set_null i (ss_nullBitmap st) else ss_nullBitmap st)
    \<and> ss_currentVarOffset st' = word_of_nat (off + text_size v)"
    using fit(1) "1.prems"(3)
    by (cases "col_ColType c"; cases v)
      (simp_all add: st'_def ser_col_def fixed_part_def Let_def)
  note step = this [THEN conjunct1] this [THEN conjunct2, THEN conjunct1]
    this [THEN conjunct2, THEN conjunct2, THEN conjunct1]
    this [THEN conjunct2, THEN conjunct2, THEN conjunct2, THEN conjunct1]
    this [THEN conjunct2, THEN conjunct2, THEN conjunct2, THEN conjunct2]
  have "length cs + Suc i \<le> 8 * length (ss_nullBitmap st')"
    using "1.prems"(2) by (simp add: step)
  note IH = "1.IH" [folded st'_def, OF fit(2) this step(5)]
  have marks: "is_null_at (ss_nullBitmap st') j \<longleftrightarrow> is_null_at (ss_nullBitmap st) j \<or> (j = i \<and> v = VNil)" for j
    using is_null_at_set_null [OF i8] by (auto simp: step)
  have cons: "i \<le> j \<and> j < i + length (v # vs) \<and> (v # vs) ! (j - i) = VNil \<longleftrightarrow>
     (j = i \<and> v = VNil) \<or> (Suc i \<le> j \<and> j < Suc i + length vs \<and> vs ! (j - Suc i) = VNil)" for j
    by (cases "j = i") (auto simp: nth_Cons' Suc_diff_Suc)
  show ?case using IH
    by (simp only: ser_loop.simps st'_def [symmetric] cons marks) (auto simp: step)
qed (auto simp: row_fits_def)

section \<open>Reading back what was written\<close>

lemma slice_at_prefix: "slice (length pre) (length pre + length ys) (pre @ ys @ zs) = ys"
  by (simp add: slice_append_mid)

lemma des_loop_step:
  assumes data: "data = pre @ fixed_part off c v @ post" and pos: "length pre = pos"
    and fit: "v = VNil \<or> fits (col_ColType c) v"
    and null: "is_null_at nb i \<longleftrightarrow> v = VNil"
    and vals: "i < length values" "values ! i = VNil"
  shows "des_loop data nb i (c # cs) pos values offs =
    des_loop data nb (Suc i) cs (pos + length (fixed_part off c v)) (values[i := no_text v])
      (offs @ text_offsets i off [v])"
proof -
  have win: "slice pos (pos + length (fixed_part off c v)) data = fixed_part off c v"
    using slice_at_prefix [of pre "fixed_part off c v" post] data pos by simp
  have long: "pos + length (fixed_part off c v) \<le> length data" using data pos by simp
  have first: "data ! pos = hd (fixed_part off c v)" if "fixed_part off c v \<noteq> []"
    using that data pos by (cases "fixed_part off c v") (auto simp: nth_append)
  have same: "values[i := VNil] = values" using vals by (metis list_update_id)
  show ?thesis
  proof (cases "v = VNil")
    case True
    then show ?thesis using null vals(1) by (simp add: fixed_part_def des_loop_Cons)
  next
    case False
    then have "fits (col_ColType c) v" using fit by blast
    then show ?thesis using False null win long first same
      by (cases "col_ColType c"; cases v) (simp_all add: fixed_part_def des_loop_Cons [OF vals(1)] del: des_loop.simps)
  qed
qed

lemma text_offsets_Cons:
  "text_offsets i off (v # vs) = text_offsets i off [v] @ text_offsets (Suc i) (off + text_size v) vs"
  by (cases v) simp_all

lemma des_loop_spec:
  assumes "row_fits cs vs" "data = pre @ fixed_parts off cs vs @ post" "length pre = pos"
    and "length don = i" "\<forall>k < length vs. is_null_at nb (i + k) \<longleftrightarrow> vs ! k = VNil"
  shows "des_loop data nb i cs pos (don @ replicate (length cs) VNil) offs =
    Ok (pos + length (fixed_parts off cs vs), don @ map no_text vs, offs @ text_offsets i off vs)"
  using assms
proof (induction cs arbitrary: vs i pos don pre off offs)
  case Nil
  then show ?case by (simp add: row_fits_def)
next
  case (Cons c cs)
  obtain v ws where vs: "vs = v # ws" using Cons.prems(1) by (cases vs) (auto simp: row_fits_def)
  have fit: "v = VNil \<or> fits (col_ColType c) v" "row_fits cs ws"
    using Cons.prems(1) by (simp_all add: vs row_fits_def)
  have null: "is_null_at nb i \<longleftrightarrow> v = VNil" using Cons.prems(5) by (auto simp: vs)
  let ?f = "fixed_part off c v"
  have data: "data = pre @ ?f @ fixed_parts (off + text_size v) cs ws @ post"
    using Cons.prems(2) by (simp add: vs)
  have upd: "(don @ replicate (length (c # cs)) VNil)[i := no_text v]
      = (don @ [no_text v]) @ replicate (length cs) VNil"
    using Cons.prems(4) by (simp add: list_update_append)
  have rest: "\<forall>k < length ws. is_null_at nb (Suc i + k) \<longleftrightarrow> ws ! k = VNil"
    using Cons.prems(5) by (auto simp: vs)
  have "des_loop data nb i (c # cs) pos (don @ replicate (length (c # cs)) VNil) offs =
    des_loop data nb (Suc i) cs (pos + length ?f) ((don @ [no_text v]) @ replicate (length cs) VNil)
      (offs @ text_offsets i off [v])"
    unfolding upd [symmetric]
    by (rule des_loop_step [OF data Cons.prems(3) fit(1) null])
      (use Cons.prems(4) in \<open>simp_all add: nth_append\<close>)
  also have "\<dots> = Ok (pos + length ?f + length (fixed_parts (off + text_size v) cs ws),
      (don @ [no_text v]) @ map no_text ws,
      (offs @ text_offsets i off [v]) @ text_offsets (Suc i) (off + text_size v) ws)"
    by (rule Cons.IH [OF fit(2), of "pre @ ?f"]) (use data Cons.prems rest in simp_all)
  also have "(offs @ text_offsets i off [v]) @ text_offsets (Suc i) (off + text_size v) ws
      = offs @ text_offsets i off vs"
    by (simp only: vs append_assoc text_offsets_Cons [of i off v ws])
  finally show ?case by (simp add: vs)
qed

lemma des_text_one:
  assumes "data = pre @ var_part (VString s) @ post" "length pre = vp + off"
    and "off < 65536" "length s < 65536" "col_ColType (cols ! i) = TypeText"
    and i: "i < length cols" "i < length values"
  shows "des_texts data cols vp ((i, word_of_nat off) # offs) values =
    des_texts data cols vp offs (values[i := VString s])"
proof -
  have o: "unat (word_of_nat off :: u16) = off" using assms(3) by (simp add: unat_of_nat)
  have l: "unat (word_of_nat (length s) :: u16) = length s" using assms(4) by (simp add: unat_of_nat)
  have w1: "slice (vp + off) (vp + off + 2) data = put16 (word_of_nat (length s))"
    using slice_at_prefix [of pre "put16 (word_of_nat (length s))" "bytes_of s @ post"] assms(1,2)
    by simp
  have w2: "slice (vp + off + 2) (vp + off + 2 + length s) data = bytes_of s"
    using slice_at_prefix [of "pre @ put16 (word_of_nat (length s))" "bytes_of s" post] assms(1,2)
    by simp
  have "vp + off + 2 + length s \<le> length data" using assms(1,2) by simp
  then show ?thesis using assms(5)
    by (simp add: des_texts_Cons [OF i] o l w1 w2 Let_def del: add_2_eq_Suc add_2_eq_Suc' des_texts.simps)
qed

lemma des_texts_spec:
  assumes "row_fits (drop i cols) vs" "data = pre @ concat (map var_part vs)"
    and "length pre = vp + off" "off + texts_size vs < 65536" "length don = i"
  shows "des_texts data cols vp (text_offsets i off vs) (don @ map no_text vs) = Ok (don @ vs)"
  using assms
proof (induction vs arbitrary: i off don pre)
  case (Cons v vs)
  have i: "i < length cols" using Cons.prems(1) by (auto simp: row_fits_def dest: list_all2_lengthD)
  have fit: "v = VNil \<or> fits (col_ColType (cols ! i)) v" "row_fits (drop (Suc i) cols) vs"
    using Cons.prems(1) by (simp_all add: row_fits_def Cons_nth_drop_Suc [OF i, symmetric])
  have ts: "texts_size (v # vs) = text_size v + texts_size vs" by (simp add: texts_size_def)
  have IH: "des_texts data cols vp (text_offsets (Suc i) (off + text_size v) vs)
      ((don @ [v]) @ map no_text vs) = Ok ((don @ [v]) @ vs)"
    by (rule Cons.IH [OF fit(2), of "pre @ var_part v"]) (use Cons.prems ts in simp_all)
  show ?case
  proof (cases v)
    case (VString s)
    have "col_ColType (cols ! i) = TypeText"
      using fit(1) VString by (cases "col_ColType (cols ! i)") auto
    then have "des_texts data cols vp (text_offsets i off (v # vs)) (don @ map no_text (v # vs))
      = des_texts data cols vp (text_offsets (Suc i) (off + text_size v) vs)
          ((don @ map no_text (v # vs))[i := v])"
      using des_text_one [of data pre s "concat (map var_part vs)" vp off cols i "don @ map no_text (v # vs)"] Cons.prems ts VString i
      by simp
    then show ?thesis using IH Cons.prems(5) VString by (simp add: list_update_append)
  qed (use IH in simp_all)
qed simp

lemma length_offset_table: "length (concat (map put16 os)) = 2 * length os"
  by (induction os) simp_all

lemma is_null_at_zeros: "\<not> is_null_at (replicate n 0) j"
  by (simp add: is_null_at_bit)

lemma SerializeRow_layout:
  assumes "row_fits cols vals"
  shows "\<exists>nb offs. SerializeRow fl \<lparr>row_RID = r, row_Values = vals\<rparr> \<lparr>sch_Name = n, sch_Columns = cols\<rparr>
      = Ok (nb @ fixed_parts 0 cols vals @ concat (map put16 offs) @ concat (map var_part vals))
    \<and> length nb = (length cols + 7) div 8 \<and> length offs = length cols
    \<and> (\<forall>k < length vals. is_null_at nb k \<longleftrightarrow> vals ! k = VNil)"
proof -
  have len: "length cols = length vals" using assms by (auto simp: row_fits_def dest: list_all2_lengthD)
  let ?st = "\<lparr>ss_nullBitmap = replicate ((length cols + 7) div 8) 0, ss_fixedPart = [],
    ss_varData = [], ss_varOffsets = replicate (length cols) 0, ss_currentVarOffset = 0\<rparr> :: ser_st"
  have "length cols + 0 \<le> 8 * length (ss_nullBitmap ?st)" by simp
  note spec = ser_loop_spec [OF assms this, of 0 fl]
  show ?thesis using spec len
    by (intro exI [of _ "ss_nullBitmap (ser_loop fl 0 cols vals ?st)"]
        exI [of _ "ss_varOffsets (ser_loop fl 0 cols vals ?st)"])
      (simp add: SerializeRow_def Let_def is_null_at_zeros)
qed

theorem row_roundtrip_fits:
  assumes fit: "row_fits cols vals" and ne: "cols \<noteq> []" and small: "texts_size vals < 65536"
  shows "\<exists>data. SerializeRow fl \<lparr>row_RID = r, row_Values = vals\<rparr> \<lparr>sch_Name = n, sch_Columns = cols\<rparr> = Ok data
    \<and> DeserializeRow data \<lparr>sch_Name = m, sch_Columns = cols\<rparr> = Ok \<lparr>row_RID = InvalidRID, row_Values = vals\<rparr>"
proof -
  obtain nb offs where ser: "SerializeRow fl \<lparr>row_RID = r, row_Values = vals\<rparr> \<lparr>sch_Name = n, sch_Columns = cols\<rparr>
      = Ok (nb @ fixed_parts 0 cols vals @ concat (map put16 offs) @ concat (map var_part vals))"
    and nb: "length nb = (length cols + 7) div 8" and offs: "length offs = length cols"
    and null: "\<forall>k < length vals. is_null_at nb k \<longleftrightarrow> vals ! k = VNil"
    using SerializeRow_layout [OF fit] by blast
  define data where "data = nb @ fixed_parts 0 cols vals @ concat (map put16 offs) @ concat (map var_part vals)"
  have "0 < length nb" using nb ne by (cases cols) auto
  then have dne: "data \<noteq> []" by (auto simp: data_def)
  have win: "slice 0 ((length cols + 7) div 8) data = nb" by (simp add: slice_def data_def nb)
  have loop: "des_loop data nb 0 cols (length nb) (replicate (length cols) VNil) []
      = Ok (length nb + length (fixed_parts 0 cols vals), map no_text vals, text_offsets 0 0 vals)"
    using des_loop_spec [OF fit, of data nb 0 "concat (map put16 offs) @ concat (map var_part vals)"
        "length nb" "[]" 0 nb "[]"] null by (simp add: data_def)
  have texts: "des_texts data cols (length nb + length (fixed_parts 0 cols vals) + length cols * 2)
      (text_offsets 0 0 vals) (map no_text vals) = Ok vals"
    using des_texts_spec [of 0 cols vals data "nb @ fixed_parts 0 cols vals @ concat (map put16 offs)"
        "length nb + length (fixed_parts 0 cols vals) + length cols * 2" 0 "[]"] fit small offs
    by (simp add: data_def length_offset_table)
  show ?thesis
    using ser dne win loop texts nb by (simp add: DeserializeRow_def Let_def data_def [symmetric]) (simp add: data_def)
qed

section \<open>Decoding any bytes\<close>

text \<open>
  The first pass keeps its indices in range: it ends with values or an error, and it notes text
  offsets for columns it has passed only.
\<close>

lemma des_loop_ends:
  "i + length cs \<le> length vals \<Longrightarrow> case des_loop data nb i cs pos vals offs of
     Ok (p, vs, os) \<Rightarrow> length vs = length vals \<and> (\<forall>x \<in> set os. x \<in> set offs \<or> fst x < i + length cs)
   | Err _ \<Rightarrow> True | _ \<Rightarrow> False"
proof (induction cs arbitrary: i pos vals offs)
  case (Cons c cs)
  have i: "i < length vals" using Cons.prems by simp
  define P :: "des_res \<Rightarrow> bool" where "P r \<longleftrightarrow> (case r of
      Ok (p, ws, os) \<Rightarrow> length ws = length vals \<and> (\<forall>x \<in> set os. x \<in> set offs \<or> fst x < i + length (c # cs))
    | Err _ \<Rightarrow> True | _ \<Rightarrow> False)" for r
  have err: "P (Err e)" for e by (simp add: P_def)
  have IH: "P (des_loop data nb (Suc i) cs p vs os)" if "length vs = length vals" "set os \<subseteq> set offs \<union> {x. fst x = i}" for p vs os
  proof -
    have "case des_loop data nb (Suc i) cs p vs os of
        Ok (p, ws, os') \<Rightarrow> length ws = length vs \<and> (\<forall>x \<in> set os'. x \<in> set os \<or> fst x < Suc i + length cs)
      | Err _ \<Rightarrow> True | _ \<Rightarrow> False"
      by (rule Cons.IH) (use Cons.prems that in simp)
    then show ?thesis using that by (cases "des_loop data nb (Suc i) cs p vs os") (fastforce simp: P_def)+
  qed
  have "P (des_loop data nb i (c # cs) pos vals offs)"
    by (cases "is_null_at nb i"; cases "col_ColType c")
       (simp_all add: des_loop_Cons [OF i] IH err subset_iff del: des_loop.simps)
  then show ?case by (simp add: P_def)
qed simp

lemma des_texts_ends:
  "\<forall>x \<in> set offs. fst x < length cols \<Longrightarrow> length vals = length cols \<Longrightarrow>
    \<exists>vs. des_texts data cols vp offs vals = Ok vs \<and> length vs = length vals"
proof (induction offs arbitrary: vals)
  case (Cons x offs)
  obtain ci off where x: "x = (ci, off)" by fastforce
  have ci: "ci < length cols" "ci < length vals" using Cons.prems x by simp_all
  show ?case using Cons.IH Cons.prems
    by (simp only: x des_texts_Cons [OF ci] Let_def split: if_split) (simp del: des_texts.simps)
qed simp

lemma DeserializeRow_ends:
  "case DeserializeRow data schema of
     Ok row \<Rightarrow> length (row_Values row) = length (sch_Columns schema) | Err _ \<Rightarrow> True | _ \<Rightarrow> False"
proof -
  let ?cols = "sch_Columns schema" and ?nbs = "(length (sch_Columns schema) + 7) div 8"
  let ?loop = "des_loop data (slice 0 ?nbs data) 0 ?cols ?nbs (replicate (length ?cols) VNil) []"
  have ends: "case ?loop of Ok (p, vs, os) \<Rightarrow> length vs = length ?cols \<and> (\<forall>x \<in> set os. fst x < length ?cols)
    | Err _ \<Rightarrow> True | _ \<Rightarrow> False"
    using des_loop_ends [where i = 0 and cs = ?cols and vals = "replicate (length ?cols) VNil" and offs = "[]"
        and data = data and nb = "slice 0 ?nbs data" and pos = ?nbs] by (simp split: outcome.splits prod.splits)
  have texts: "\<exists>ws. des_texts data ?cols vp os vs = Ok ws \<and> length ws = length ?cols"
    if "length vs = length ?cols" "\<forall>x \<in> set os. fst x < length ?cols" for vp os vs
    using des_texts_ends [OF that(2,1)] that(1) by simp
  show ?thesis
  proof (cases ?loop)
    case (Ok r)
    obtain p vs os where r: "r = (p, vs, os)" by (metis prod.exhaust)
    obtain ws where "des_texts data ?cols (p + length ?cols * 2) os vs = Ok ws" "length ws = length ?cols"
      using texts [of vs os "p + length ?cols * 2"] ends Ok r by auto
    then show ?thesis using Ok r by (simp add: DeserializeRow_def Let_def)
  qed (use ends in \<open>simp_all add: DeserializeRow_def Let_def\<close>)
qed

lemma DeserializeRow_total: "DeserializeRow data schema \<noteq> Panic" "DeserializeRow data schema \<noteq> Hang"
  using DeserializeRow_ends [of schema data] by auto

lemma length_decoded: "DeserializeRow data schema = Ok row \<Longrightarrow> length (row_Values row) = length (sch_Columns schema)"
  using DeserializeRow_ends [of schema data] by simp

end
