(* ===== verification/HeapFile.thy ===== *)
theory HeapFile imports PageCache Row begin

text \<open>
  \<^verbatim>\<open>pkg/storage/heap.go\<close>: a table as a heap of pages. The pages of all tables share one file;
  the 32-bit hash of the table's name in the page header says whose page it is. The mutex
  of a heap file is a flag: every method but the inner call of \<^verbatim>\<open>UpdateRow\<close> is entered with it
  free, and a method that finds it taken by its own caller never returns (\<open>Hang\<close>).
\<close>

record HeapFile =
  hf_Schema :: TableSchema
  hf_locked :: bool

definition NewHeapFile :: "TableSchema \<Rightarrow> HeapFile" where
  "NewHeapFile schema = \<lparr>hf_Schema = schema, hf_locked = False\<rparr>"

definition hashString :: "string \<Rightarrow> u32" where
  "hashString s = fold (\<lambda>c h. h * 31 + word_of_nat c) (runes_of s) 0"

lemma hashString_ascii:
  "\<forall>c \<in> set s. code c < 128 \<Longrightarrow> hashString s = fold (\<lambda>c h. h * 31 + word_of_nat (code c)) s 0"
  by (simp add: hashString_def runes_ascii fold_map comp_def)

definition HeapFile_TableID :: "HeapFile \<Rightarrow> u32" where
  "HeapFile_TableID h = hashString (sch_Name (hf_Schema h))"

definition HeapFile_PageCount :: "store \<Rightarrow> u64" where
  "HeapFile_PageCount st = dm_pageCount (st_disk st)"

definition set_table :: "u32 \<Rightarrow> page \<Rightarrow> page" where
  "set_table tid page = Page_writeHeader ((Page_ReadHeader page)\<lparr>h_TableID := tid\<rparr>) page"

section \<open>InsertRow\<close>

text \<open>The search loop, from page \<open>pid\<close> on: the first page of the table, or empty page, with room.\<close>

definition page_suits :: "u32 \<Rightarrow> u16 \<Rightarrow> page \<Rightarrow> bool" where
  "page_suits tid rowSize p \<longleftrightarrow>
     (let header = Page_ReadHeader p in
      (h_TableID header = tid \<or> (h_TableID header = 0 \<and> h_RowCount header = 0)) \<and> Page_CanFit p rowSize)"

lemma next_page_measure: "pid < (n :: u64) \<Longrightarrow> 18446744073709551616 - unat (pid + 1) < 18446744073709551616 - unat pid"
proof -
  assume "pid < n"
  then have "unat pid < unat n" by (simp add: word_less_nat_alt)
  then have "unat pid + 1 < 2 ^ 64" using unat_u64_less [of n] by simp
  then have "unat (pid + 1) = unat pid + 1" by (simp add: unat_word_ariths)
  then show ?thesis using unat_u64_less [of pid] by simp
qed

function find_page :: "u32 \<Rightarrow> u16 \<Rightarrow> u64 \<Rightarrow> store \<Rightarrow> (storage_err, (u64 \<times> nat) option) outcome \<times> store" where
  "find_page tid rowSize pid st =
     (if pid < dm_pageCount (st_disk st) then
        (case BufferPool_FetchPage pid st of
           (Ok i, st1) \<Rightarrow>
             (case page_at i st1 of
                Some p \<Rightarrow>
                  if page_suits tid rowSize p then (Ok (Some (pid, i)), st1)
                  else (case BufferPool_UnpinPage pid False st1 of
                          (Ok _, st2) \<Rightarrow> find_page tid rowSize (pid + 1) st2
                        | (_, st2) \<Rightarrow> (Panic, st2))
              | None \<Rightarrow> (Panic, st1))
         | (Err _, st1) \<Rightarrow> find_page tid rowSize (pid + 1) st1
         | (Panic, st1) \<Rightarrow> (Panic, st1)
         | (Hang, st1) \<Rightarrow> (Hang, st1))
      else (Ok None, st))"
  by auto
termination
  by (relation "measure (\<lambda>(_, _, pid, _). 2 ^ 64 - unat pid)") (auto intro: next_page_measure)

declare find_page.simps [simp del]

text \<open>The end of \<^verbatim>\<open>InsertRow\<close>, with page \<open>pid\<close> pinned in frame \<open>i\<close>.\<close>

definition insert_at :: "u32 \<Rightarrow> byte list \<Rightarrow> u64 \<Rightarrow> nat \<Rightarrow> store \<Rightarrow> (storage_err, RID) outcome \<times> store" where
  "insert_at tid data pageID i st =
     (case page_at i st of
        None \<Rightarrow> (Panic, st)
      | Some page \<Rightarrow>
          (case Page_InsertRow data (set_table tid page) of
             (Ok slotID, page') \<Rightarrow>
               (case BufferPool_UnpinPage pageID True (set_page i page' st) of
                  (Ok _, st') \<Rightarrow> (Ok \<lparr>rid_PageID = pageID, rid_SlotID = slotID\<rparr>, st')
                | (_, st') \<Rightarrow> (Panic, st'))
           | (Err e, page') \<Rightarrow>
               (case BufferPool_UnpinPage pageID False (set_page i page' st) of
                  (Ok _, st') \<Rightarrow> (Err (PageInsertFailed e), st')
                | (_, st') \<Rightarrow> (Panic, st'))
           | (_, page') \<Rightarrow> (Panic, set_page i page' st)))"

definition HeapFile_InsertRow :: "flt \<Rightarrow> Row \<Rightarrow> HeapFile \<Rightarrow> store \<Rightarrow> (storage_err, RID) outcome \<times> store" where
  "HeapFile_InsertRow fl row h st =
     (if hf_locked h then (Hang, st)
      else case SerializeRow fl row (hf_Schema h) of
        Ok data \<Rightarrow>
          (case find_page (HeapFile_TableID h) (word_of_nat (length data)) 1 st of
             (Ok (Some (pageID, i)), st1) \<Rightarrow> insert_at (HeapFile_TableID h) data pageID i st1
           | (Ok None, st1) \<Rightarrow>
               (let (pageID, d) = DiskManager_AllocatePage (st_disk st1) in
                case BufferPool_FetchPage pageID (st1\<lparr>st_disk := d\<rparr>) of
                  (Ok i, st2) \<Rightarrow>
                    (case page_at i st2 of
                       None \<Rightarrow> (Panic, st2)
                     | Some page \<Rightarrow>
                         insert_at (HeapFile_TableID h) data pageID i
                           (set_page i (set_table (HeapFile_TableID h) page) st2))
                | (Err e, st2) \<Rightarrow> (Err (AllocateFailed e), st2)
                | (Panic, st2) \<Rightarrow> (Panic, st2)
                | (Hang, st2) \<Rightarrow> (Hang, st2))
           | (Err e, st1) \<Rightarrow> (Err e, st1)
           | (Panic, st1) \<Rightarrow> (Panic, st1)
           | (Hang, st1) \<Rightarrow> (Hang, st1))
      | Err e \<Rightarrow> (Err (SerializeFailed e), st)
      | Panic \<Rightarrow> (Panic, st)
      | Hang \<Rightarrow> (Hang, st))"

section \<open>ScanFull, GetRow, DeleteRow, UpdateRow\<close>

text \<open>The slot loop: rows that are deleted or do not decode are skipped.\<close>

fun scan_slots :: "TableSchema \<Rightarrow> page \<Rightarrow> u64 \<Rightarrow> u16 list \<Rightarrow> (storage_err, Row list) outcome" where
  "scan_slots schema page pid [] = Ok []"
| "scan_slots schema page pid (slotID # rest) =
     (case Page_GetRow page slotID of
        Ok rowData \<Rightarrow>
          (case DeserializeRow rowData schema of
             Ok row \<Rightarrow> bind_out (scan_slots schema page pid rest)
               (\<lambda>rows. Ok (row\<lparr>row_RID := \<lparr>rid_PageID = pid, rid_SlotID = slotID\<rparr>\<rparr> # rows))
           | Err _ \<Rightarrow> scan_slots schema page pid rest
           | Panic \<Rightarrow> Panic | Hang \<Rightarrow> Hang)
      | Err _ \<Rightarrow> scan_slots schema page pid rest
      | Panic \<Rightarrow> Panic | Hang \<Rightarrow> Hang)"

definition slots_upto :: "u16 \<Rightarrow> u16 list" where
  "slots_upto n = map word_of_nat [0..<unat n]"

function scan_pages :: "TableSchema \<Rightarrow> u32 \<Rightarrow> u64 \<Rightarrow> store \<Rightarrow> (storage_err, Row list) outcome \<times> store" where
  "scan_pages schema tid pid st =
     (if pid < dm_pageCount (st_disk st) then
        (case BufferPool_FetchPage pid st of
           (Ok i, st1) \<Rightarrow>
             (case page_at i st1 of
                Some page \<Rightarrow>
                  let header = Page_ReadHeader page in
                  (case (if h_TableID header \<noteq> tid then Ok []
                         else scan_slots schema page pid (slots_upto (h_RowCount header))) of
                     Ok rows \<Rightarrow>
                       (case BufferPool_UnpinPage pid False st1 of
                          (Ok _, st2) \<Rightarrow>
                            (case scan_pages schema tid (pid + 1) st2 of
                               (r, st3) \<Rightarrow> (bind_out r (\<lambda>rest. Ok (rows @ rest)), st3))
                        | (_, st2) \<Rightarrow> (Panic, st2))
                   | _ \<Rightarrow> (Panic, st1))
              | None \<Rightarrow> (Panic, st1))
         | (Err _, st1) \<Rightarrow> scan_pages schema tid (pid + 1) st1
         | (Panic, st1) \<Rightarrow> (Panic, st1)
         | (Hang, st1) \<Rightarrow> (Hang, st1))
      else (Ok [], st))"
  by auto
termination
  by (relation "measure (\<lambda>(_, _, pid, _). 2 ^ 64 - unat pid)") (auto intro: next_page_measure)

declare scan_pages.simps [simp del]

definition HeapFile_ScanFull :: "HeapFile \<Rightarrow> store \<Rightarrow> (storage_err, Row list) outcome \<times> store" where
  "HeapFile_ScanFull h st =
     (if hf_locked h then (Hang, st)
      else scan_pages (hf_Schema h) (HeapFile_TableID h) 1 st)"

text \<open>Runs \<open>body\<close> on the pinned page and then the deferred \<^verbatim>\<open>UnpinPage\<close>, also after a panic.\<close>

definition with_page :: "u64 \<Rightarrow> bool \<Rightarrow> (storage_err \<Rightarrow> storage_err) \<Rightarrow> (page \<Rightarrow> (storage_err, 'a) outcome \<times> page)
    \<Rightarrow> store \<Rightarrow> (storage_err, 'a) outcome \<times> store" where
  "with_page pid dirty wrap body st =
     (case BufferPool_FetchPage pid st of
        (Ok i, st1) \<Rightarrow>
          (case page_at i st1 of
             None \<Rightarrow> (Panic, st1)
           | Some page \<Rightarrow>
               (case body page of
                  (Hang, page') \<Rightarrow> (Hang, set_page i page' st1)
                | (r, page') \<Rightarrow>
                    (case BufferPool_UnpinPage pid dirty (set_page i page' st1) of
                       (Ok _, st2) \<Rightarrow> (r, st2)
                     | (_, st2) \<Rightarrow> (Panic, st2))))
      | (Err e, st1) \<Rightarrow> (Err (wrap e), st1)
      | (Panic, st1) \<Rightarrow> (Panic, st1)
      | (Hang, st1) \<Rightarrow> (Hang, st1))"

definition HeapFile_GetRow :: "RID \<Rightarrow> HeapFile \<Rightarrow> store \<Rightarrow> (storage_err, Row) outcome \<times> store" where
  "HeapFile_GetRow rid h st =
     (if hf_locked h then (Hang, st)
      else with_page (rid_PageID rid) False id
        (\<lambda>page. (bind_out (Page_GetRow page (rid_SlotID rid))
                   (\<lambda>rowData. DeserializeRow rowData (hf_Schema h)), page)) st)"

definition HeapFile_DeleteRow :: "RID \<Rightarrow> HeapFile \<Rightarrow> store \<Rightarrow> (storage_err, unit) outcome \<times> store" where
  "HeapFile_DeleteRow rid h st =
     (if hf_locked h then (Hang, st)
      else with_page (rid_PageID rid) True id (Page_DeleteRow (rid_SlotID rid)) st)"

text \<open>
  When the new row does not fit on the page, \<^verbatim>\<open>UpdateRow\<close> calls \<^verbatim>\<open>h.InsertRow\<close> while holding the
  mutex that \<^verbatim>\<open>InsertRow\<close> takes first: \<open>HeapFile_InsertRow\<close> is entered with the flag set. What
  the inner call would do to the store is not reached, so its store is dropped.
\<close>

definition HeapFile_UpdateRow :: "flt \<Rightarrow> RID \<Rightarrow> Row \<Rightarrow> HeapFile \<Rightarrow> store \<Rightarrow> (storage_err, unit) outcome \<times> store" where
  "HeapFile_UpdateRow fl rid newRow h st =
     (if hf_locked h then (Hang, st)
      else with_page (rid_PageID rid) True (PageLoadFailed (rid_PageID rid))
        (\<lambda>page. case Page_DeleteRow (rid_SlotID rid) page of
             (Ok _, page1) \<Rightarrow>
               (case SerializeRow fl newRow (hf_Schema h) of
                  Ok data \<Rightarrow>
                    (case Page_InsertRow data page1 of
                       (Err _, page2) \<Rightarrow>
                         (bind_out (fst (HeapFile_InsertRow fl newRow (h\<lparr>hf_locked := True\<rparr>) st)) (\<lambda>_. Ok ()), page2)
                     | (Ok _, page2) \<Rightarrow> (Ok (), page2)
                     | (_, page2) \<Rightarrow> (Panic, page2))
                | Err e \<Rightarrow> (Err (SerializeFailed e), page1)
                | _ \<Rightarrow> (Panic, page1))
           | (Err e, page1) \<Rightarrow> (Err (OldRowDeleteFailed e), page1)
           | (_, page1) \<Rightarrow> (Panic, page1)) st)"

end
