(* ===== verification/HeapSpec.thy ===== *)
theory HeapSpec imports HeapFile begin

text \<open>
  What a heap file promises. \<open>heap_rows tid st\<close> is the table as the store holds it: the live
  rows, with their identifiers, of the pages that carry the table's number, in page and
  slot order. Inserting adds one row, deleting removes one, scanning decodes them all, and
  no operation touches another table.
\<close>

section \<open>Abstract tables\<close>

definition pg_of :: "store \<Rightarrow> u64 \<Rightarrow> page" where
  "pg_of st pid = \<lparr>pg_Data = view st pid, pg_ID = pid, pg_Dirty = False\<rparr>"

definition table_of :: "page \<Rightarrow> u32" where
  "table_of p = h_TableID (Page_ReadHeader p)"

definition live_at :: "u64 \<Rightarrow> nat \<Rightarrow> byte list option \<Rightarrow> (RID \<times> byte list) list" where
  "live_at pid i r = (case r of None \<Rightarrow> [] | Some d \<Rightarrow> [(\<lparr>rid_PageID = pid, rid_SlotID = word_of_nat i\<rparr>, d)])"

fun live_from :: "u64 \<Rightarrow> nat \<Rightarrow> byte list option list \<Rightarrow> (RID \<times> byte list) list" where
  "live_from pid i [] = []"
| "live_from pid i (r # rs) = live_at pid i r @ live_from pid (Suc i) rs"

definition page_live :: "u32 \<Rightarrow> page \<Rightarrow> (RID \<times> byte list) list" where
  "page_live tid p = (if table_of p = tid then live_from (pg_ID p) 0 (page_rows p) else [])"

definition heap_upto :: "u32 \<Rightarrow> store \<Rightarrow> nat \<Rightarrow> nat \<Rightarrow> (RID \<times> byte list) list" where
  "heap_upto tid st a b = concat (map (\<lambda>k. page_live tid (pg_of st (word_of_nat k))) [a..<b])"

definition heap_rows :: "u32 \<Rightarrow> store \<Rightarrow> (RID \<times> byte list) list" where
  "heap_rows tid st = heap_upto tid st 1 (unat (dm_pageCount (st_disk st)))"

definition heap_store :: "store \<Rightarrow> bool" where
  "heap_store st \<longleftrightarrow> pool.at_rest st \<and> 1 \<le> dm_pageCount (st_disk st)
     \<and> unat (dm_pageCount (st_disk st)) < 2 ^ 51
     \<and> (\<forall>pid. pid \<noteq> 0 \<longrightarrow> pid < dm_pageCount (st_disk st) \<longrightarrow> page_ok (pg_of st pid))
     \<and> (\<forall>pid. dm_pageCount (st_disk st) \<le> pid \<longrightarrow> view st pid = pg_Data (NewPage pid))"

text \<open>The rows a scan with a given schema yields; rows that do not decode are skipped.\<close>

definition decode :: "TableSchema \<Rightarrow> RID \<times> byte list \<Rightarrow> Row list" where
  "decode schema r = (case DeserializeRow (snd r) schema of Ok row \<Rightarrow> [row\<lparr>row_RID := fst r\<rparr>] | _ \<Rightarrow> [])"

definition decode_rows :: "TableSchema \<Rightarrow> (RID \<times> byte list) list \<Rightarrow> Row list" where
  "decode_rows schema rs = concat (map (decode schema) rs)"

section \<open>Page facts that depend on the bytes only\<close>

lemma ReadHeader_bytes: "pg_Data p = pg_Data q \<Longrightarrow> Page_ReadHeader p = Page_ReadHeader q"
  by (simp add: Page_ReadHeader_def)

lemma slot_at_bytes: "pg_Data p = pg_Data q \<Longrightarrow> slot_at p = slot_at q"
  by (simp add: slot_at_def fun_eq_iff)

lemma page_bytes:
  assumes "pg_Data p = pg_Data q"
  shows "page_ok p = page_ok q" "page_rows p = page_rows q" "table_of p = table_of q"
    "free_end p = free_end q" "free_off p = free_off q" "rows_of p = rows_of q"
  using ReadHeader_bytes [OF assms] slot_at_bytes [OF assms] assms
  by (simp_all add: page_ok_def page_rows_def row_at_def table_of_def rows_of_def free_off_def free_end_def
      cong: map_cong)

lemma page_live_bytes: "pg_Data p = pg_Data q \<Longrightarrow> pg_ID p = pg_ID q \<Longrightarrow> page_live tid p = page_live tid q"
  using page_bytes [of p q] by (simp add: page_live_def)

lemma set_table_facts:
  assumes ok: "page_ok p"
  shows "page_ok (set_table t p)" "page_rows (set_table t p) = page_rows p" "table_of (set_table t p) = t"
    "pg_ID (set_table t p) = pg_ID p" "free_end (set_table t p) = free_end p"
    "free_off (set_table t p) = free_off p" "rows_of (set_table t p) = rows_of p"
    "h_RowCount (Page_ReadHeader (set_table t p)) = h_RowCount (Page_ReadHeader p)"
    "h_PageID (Page_ReadHeader (set_table t p)) = h_PageID (Page_ReadHeader p)"
    "length (pg_Data (set_table t p)) = PageSize"
proof -
  have len: "length (pg_Data p) = PageSize" using ok by simp
  have h: "Page_ReadHeader (set_table t p) = (Page_ReadHeader p)\<lparr>h_TableID := t\<rparr>"
    using len by (simp add: set_table_def)
  have s: "slot_at (set_table t p) = slot_at p"
    using len by (simp add: slot_at_def set_table_def fun_eq_iff slice_writeHeader layout)
  have w: "slice a b (pg_Data (set_table t p)) = slice a b (pg_Data p)" if "HeaderSize \<le> a" for a b
    using len that by (simp add: set_table_def slice_writeHeader)
  show l: "length (pg_Data (set_table t p)) = PageSize" using len by (simp add: set_table_def)
  show "table_of (set_table t p) = t" using h by (simp add: table_of_def)
  show "pg_ID (set_table t p) = pg_ID p" by (simp add: set_table_def)
  show e: "free_end (set_table t p) = free_end p" "free_off (set_table t p) = free_off p"
    and r: "rows_of (set_table t p) = rows_of p"
    using h by (simp_all add: free_end_def free_off_def rows_of_def)
  show "h_RowCount (Page_ReadHeader (set_table t p)) = h_RowCount (Page_ReadHeader p)"
    "h_PageID (Page_ReadHeader (set_table t p)) = h_PageID (Page_ReadHeader p)" using h by simp_all
  show "page_ok (set_table t p)" using ok l e r s by (simp add: page_ok_def)
  have "row_at (set_table t p) i = row_at p i" if i: "i < rows_of p" for i
  proof (cases "snd (slot_at p i) = 0")
    case True
    then show ?thesis by (simp add: row_at_def s)
  next
    case False
    then have "free_end p \<le> fst (slot_at p i)" using ok i by (auto simp: page_ok_def slot_ok_def)
    moreover have "HeaderSize \<le> free_end p" using ok by (simp add: page_ok_def)
    ultimately show ?thesis using False w by (simp add: row_at_def s)
  qed
  then show "page_rows (set_table t p) = page_rows p" by (simp add: page_rows_def r)
qed

lemma page_wf_header: "page_wf p \<longleftrightarrow> length (pg_Data p) = PageSize \<and> h_PageID (Page_ReadHeader p) = pg_ID p"
  by (simp add: page_wf_def h_PageID_stored)

section \<open>Live rows\<close>

lemma live_from_append: "live_from pid i (rs @ [r]) = live_from pid i rs @ live_at pid (i + length rs) r"
  by (induction rs arbitrary: i) simp_all

lemma live_from_None: "live_from pid i (rs[k := None]) = filter (\<lambda>x. fst x \<noteq> \<lparr>rid_PageID = pid, rid_SlotID = word_of_nat (i + k)\<rparr>) (live_from pid i rs)"
  if "i + length rs \<le> 65536" "k < length rs"
  using that
proof (induction rs arbitrary: i k)
  case (Cons r rs)
  have ne: "(word_of_nat a :: u16) \<noteq> word_of_nat b" if "a < b" "b < 65536" for a b
    using that by (simp add: word_unat_eq_iff unat_of_nat)
  show ?case
  proof (cases k)
    case 0
    have "filter (\<lambda>x. fst x \<noteq> \<lparr>rid_PageID = pid, rid_SlotID = word_of_nat i\<rparr>) (live_from pid j qs) = live_from pid j qs"
      if "i < j" "j + length qs \<le> 65536" for j qs
      using that
    proof (induction qs arbitrary: j)
      case (Cons q qs)
      then show ?case using ne [of i j] by (cases q) (auto simp: live_at_def)
    qed simp
    from this [of "Suc i" rs] show ?thesis using 0 Cons.prems by (cases r) (auto simp: live_at_def)
  next
    case (Suc k')
    then show ?thesis using Cons.IH [of "Suc i" k'] Cons.prems ne [of i "Suc (i + k')"]
      by (cases r) (auto simp: live_at_def)
  qed
qed simp

lemma live_from_pid: "x \<in> set (live_from pid i rs) \<Longrightarrow> rid_PageID (fst x) = pid"
  by (induction rs arbitrary: i) (auto simp: live_at_def split: option.splits)

lemma live_from_slot:
  "x \<in> set (live_from pid i rs) \<Longrightarrow> \<exists>k < length rs. rid_SlotID (fst x) = word_of_nat (i + k) \<and> rs ! k = Some (snd x)"
proof (induction rs arbitrary: i)
  case (Cons r rs)
  show ?case
  proof (cases "x \<in> set (live_at pid i r)")
    case True
    then show ?thesis by (intro exI [of _ 0]) (auto simp: live_at_def split: option.splits)
  next
    case False
    then have "x \<in> set (live_from pid (Suc i) rs)" using Cons.prems by simp
    then obtain k where "k < length rs" "rid_SlotID (fst x) = word_of_nat (Suc i + k)" "rs ! k = Some (snd x)"
      using Cons.IH by blast
    then show ?thesis by (intro exI [of _ "Suc k"]) simp
  qed
qed simp

lemma page_live_pid: "x \<in> set (page_live tid p) \<Longrightarrow> rid_PageID (fst x) = pg_ID p"
  by (auto simp: page_live_def dest: live_from_pid split: if_splits)

section \<open>Stores that show the same pages\<close>

definition kept :: "store \<Rightarrow> store \<Rightarrow> bool" where
  "kept st st' \<longleftrightarrow> pool.at_rest st' \<and> dm_pageCount (st_disk st') = dm_pageCount (st_disk st)
     \<and> (\<forall>r. r \<noteq> 0 \<longrightarrow> view st' r = view st r)"

lemma kept_refl: "heap_store st \<Longrightarrow> kept st st"
  by (simp add: kept_def heap_store_def)

lemma kept_trans: "kept a b \<Longrightarrow> kept b c \<Longrightarrow> kept a c"
  by (simp add: kept_def)

lemma kept_closed: "pool.closed st pid (view st pid) st' \<Longrightarrow> kept st st'"
  using pool.closed_rest [of st pid "view st pid" st']
  by (simp add: kept_def pool.closed_same pool_extent_def)

lemma count_not_zero: "1 \<le> (n :: u64) \<Longrightarrow> n \<le> pid \<Longrightarrow> pid \<noteq> 0"
  by (auto simp: word_le_nat_alt)

lemma kept_heap_store: "heap_store st \<Longrightarrow> kept st st' \<Longrightarrow> heap_store st'"
  using count_not_zero [of "dm_pageCount (st_disk st)"]
  by (auto simp: heap_store_def kept_def pg_of_def)

lemma word_of_index: "0 < k \<Longrightarrow> k < unat (n :: u64) \<Longrightarrow> (word_of_nat k :: u64) \<noteq> 0 \<and> unat (word_of_nat k :: u64) = k"
proof -
  assume k: "0 < k" "k < unat n"
  then have "unat (word_of_nat k :: u64) = k" using unat_u64_less [of n] by (simp add: unat_of_nat)
  then show ?thesis using k by auto
qed

lemma heap_upto_cong:
  assumes "\<And>k. a \<le> k \<Longrightarrow> k < b \<Longrightarrow> page_live tid (pg_of st' (word_of_nat k)) = page_live tid (pg_of st (word_of_nat k))"
  shows "heap_upto tid st' a b = heap_upto tid st a b"
proof -
  have "map (\<lambda>k. page_live tid (pg_of st' (word_of_nat k))) [a..<b]
      = map (\<lambda>k. page_live tid (pg_of st (word_of_nat k))) [a..<b]"
    using assms by simp
  then show ?thesis unfolding heap_upto_def by (rule arg_cong)
qed

lemma heap_upto_step: "a < b \<Longrightarrow> heap_upto tid st a b = page_live tid (pg_of st (word_of_nat a)) @ heap_upto tid st (Suc a) b"
  by (simp add: heap_upto_def upt_conv_Cons)

lemma heap_upto_split: "a \<le> k \<Longrightarrow> k < b \<Longrightarrow> heap_upto tid st a b
    = heap_upto tid st a k @ page_live tid (pg_of st (word_of_nat k)) @ heap_upto tid st (Suc k) b"
proof -
  assume k: "a \<le> k" "k < b"
  then have "[a..<b] = [a..<k] @ k # [Suc k..<b]"
    by (metis le_add_diff_inverse less_imp_le upt_add_eq_append upt_conv_Cons)
  then show ?thesis by (simp add: heap_upto_def)
qed

lemma kept_rows: "heap_store st \<Longrightarrow> kept st st' \<Longrightarrow> heap_rows tid st' = heap_rows tid st"
  unfolding heap_rows_def
  by (simp add: kept_def, rule heap_upto_cong)
     (use word_of_index in \<open>auto simp: kept_def pg_of_def\<close>)

text \<open>Replacing one page replaces that page's share of every table.\<close>

lemma heap_upto_pid:
  assumes "x \<in> set (heap_upto tid st a b)"
  shows "\<exists>k. a \<le> k \<and> k < b \<and> x \<in> set (page_live tid (pg_of st (word_of_nat k))) \<and> rid_PageID (fst x) = word_of_nat k"
proof -
  obtain k where k: "a \<le> k" "k < b" "x \<in> set (page_live tid (pg_of st (word_of_nat k)))"
    using assms by (auto simp: heap_upto_def)
  then show ?thesis using page_live_pid [OF k(3)] by (auto simp: pg_of_def)
qed

lemma closed_rows:
  assumes hs: "heap_store st" and c: "pool.closed st pid bs st'" and pid: "pid \<noteq> 0" "pid < dm_pageCount (st_disk st)"
  shows "\<exists>A B. heap_rows tid st = A @ page_live tid (pg_of st pid) @ B \<and> heap_rows tid st' = A @ page_live tid (pg_of st' pid) @ B
    \<and> (\<forall>x \<in> set A \<union> set B. rid_PageID (fst x) \<noteq> pid)"
proof -
  let ?n = "unat (dm_pageCount (st_disk st))" and ?k = "unat pid"
  have n: "dm_pageCount (st_disk st') = dm_pageCount (st_disk st)"
    using pool.closed_rest(2) [OF c] by (simp add: pool_extent_def)
  have k: "1 \<le> ?k" "?k < ?n" using pid unat_gt_0 [of pid] by (auto simp: word_less_nat_alt Suc_le_eq)
  have other: "page_live tid (pg_of st' (word_of_nat j)) = page_live tid (pg_of st (word_of_nat j))"
    if "1 \<le> j" "j < ?n" "j \<noteq> ?k" for j
  proof -
    have "(word_of_nat j :: u64) \<noteq> pid \<and> (word_of_nat j :: u64) \<noteq> 0" using word_of_index [of j] that by auto
    then show ?thesis using c by (simp add: pool.closed_def pg_of_def)
  qed
  have "heap_upto tid st' 1 ?k = heap_upto tid st 1 ?k" "heap_upto tid st' (Suc ?k) ?n = heap_upto tid st (Suc ?k) ?n"
    using k by (auto intro!: heap_upto_cong other)
  moreover have "rid_PageID (fst x) \<noteq> pid"
    if "x \<in> set (heap_upto tid st 1 ?k) \<or> x \<in> set (heap_upto tid st (Suc ?k) ?n)" for x
    using that k by (auto dest!: heap_upto_pid simp: word_unat_eq_iff) (use word_of_index in force)+
  ultimately show ?thesis
    using heap_upto_split [OF k, of tid] n
    by (intro exI [of _ "heap_upto tid st 1 ?k"] exI [of _ "heap_upto tid st (Suc ?k) ?n"])
       (auto simp: heap_rows_def)
qed

lemma closed_heap_store:
  assumes hs: "heap_store st" and c: "pool.closed st pid bs st'" and pid: "pid \<noteq> 0" "pid < dm_pageCount (st_disk st)"
    and ok: "page_ok \<lparr>pg_Data = bs, pg_ID = pid, pg_Dirty = False\<rparr>"
  shows "heap_store st'"
  using hs pool.closed_rest [OF c] c pid ok count_not_zero [of "dm_pageCount (st_disk st)"]
  by (auto simp: heap_store_def pool.closed_def pool_extent_def pg_of_def)

lemma closed_view: "pool.closed st pid bs st' \<Longrightarrow> pid \<noteq> 0 \<Longrightarrow> view st' pid = bs"
  by (simp add: pool.closed_def)

lemma heap_open:
  assumes "heap_store st" "pid \<noteq> 0" "pid < dm_pageCount (st_disk st)"
  shows "\<exists>i st1 p. BufferPool_FetchPage pid st = (Ok i, st1) \<and> pool.opened st pid i st1 p \<and> page_ok p
    \<and> page_rows p = page_rows (pg_of st pid) \<and> table_of p = table_of (pg_of st pid)"
proof -
  have "pid_ok pid" using assms by (simp add: heap_store_def pid_ok_def word_less_nat_alt)
  then obtain i st1 p where a: "BufferPool_FetchPage pid st = (Ok i, st1)" "pool.opened st pid i st1 p"
    using pool.open_page [of st pid] assms by (auto simp: heap_store_def pool_extent_def)
  then have "pg_Data p = pg_Data (pg_of st pid)" using pool.opened_page(3) by (simp add: pg_of_def)
  moreover have "page_ok (pg_of st pid)" using assms by (simp add: heap_store_def)
  ultimately show ?thesis using a page_bytes [of p "pg_of st pid"] by auto
qed

section \<open>Scanning\<close>

lemma scan_slots_spec:
  assumes ok: "page_ok p" and pid: "pg_ID p = pid"
  shows "k \<le> rows_of p \<Longrightarrow> scan_slots schema p pid (map word_of_nat [k..<rows_of p])
    = Ok (decode_rows schema (live_from pid k (drop k (page_rows p))))"
proof (induction "rows_of p - k" arbitrary: k)
  case 0
  then show ?case by (simp add: decode_rows_def)
next
  case (Suc n)
  then have k: "k < rows_of p" by simp
  have r: "rows_of p < 65536" unfolding rows_of_def by (rule unat_u16_less)
  have uk: "unat (word_of_nat k :: u16) = k" using k r by (simp add: unat_of_nat)
  have step: "drop k (page_rows p) = page_rows p ! k # drop (Suc k) (page_rows p)"
    using k by (simp add: Cons_nth_drop_Suc)
  have IH: "scan_slots schema p pid (map word_of_nat [Suc k..<rows_of p])
    = Ok (decode_rows schema (live_from pid (Suc k) (drop (Suc k) (page_rows p))))"
    using Suc.hyps(1) [of "Suc k"] Suc.hyps(2) k by simp
  show ?case
  proof (cases "page_rows p ! k")
    case None
    then have "Page_GetRow p (word_of_nat k) = Err (RowIsDeleted (word_of_nat k))"
      using GetRow_refines [OF ok, of "word_of_nat k"] uk k by simp
    then show ?thesis using IH None by (simp add: step upt_conv_Cons [OF k] live_at_def)
  next
    case (Some d)
    then have "Page_GetRow p (word_of_nat k) = Ok d"
      using GetRow_refines [OF ok, of "word_of_nat k"] uk k by simp
    then show ?thesis using IH Some DeserializeRow_total [of d schema]
      by (cases "DeserializeRow d schema")
        (simp_all add: step upt_conv_Cons [OF k] live_at_def decode_rows_def decode_def)
  qed
qed

lemma scan_page_rows:
  assumes "page_ok p" "pg_ID p = pid"
  shows "(if h_TableID (Page_ReadHeader p) \<noteq> tid then Ok []
      else scan_slots schema p pid (slots_upto (h_RowCount (Page_ReadHeader p))))
    = Ok (decode_rows schema (page_live tid p))"
  using scan_slots_spec [OF assms, of 0 schema] assms(2)
  by (auto simp: page_live_def table_of_def slots_upto_def rows_of_def decode_rows_def)

lemma succ_index:
  assumes "pid < (n :: u64)"
  shows "unat (pid + 1) = Suc (unat pid)"
proof -
  have "unat pid < unat n" using assms by (simp add: word_less_nat_alt)
  then have "unat pid + 1 < 2 ^ 64" using unat_u64_less [of n] by simp
  then show ?thesis by (simp add: unat_word_ariths)
qed

lemma scan_pages_spec:
  assumes "heap_store st" "pid \<noteq> 0"
  shows "\<exists>st'. scan_pages schema tid pid st
      = (Ok (decode_rows schema (heap_upto tid st (unat pid) (unat (dm_pageCount (st_disk st))))), st') \<and> kept st st'"
  using assms
proof (induction "unat (dm_pageCount (st_disk st)) - unat pid" arbitrary: pid st)
  case 0
  then have "\<not> pid < dm_pageCount (st_disk st)" by (simp add: word_less_nat_alt)
  then show ?case using 0 kept_refl
    by (auto simp: scan_pages.simps [of _ _ pid] heap_upto_def decode_rows_def)
next
  case (Suc n)
  let ?n = "unat (dm_pageCount (st_disk st))"
  have lt: "pid < dm_pageCount (st_disk st)" using Suc.hyps(2) by (simp add: word_less_nat_alt)
  obtain i st1 p where o: "BufferPool_FetchPage pid st = (Ok i, st1)" "pool.opened st pid i st1 p" "page_ok p"
    using heap_open [OF Suc.prems lt] by blast
  obtain st2 where u: "BufferPool_UnpinPage pid False st1 = (Ok (), st2)" "kept st st2"
    using pool.close_unchanged [OF o(2), of False] kept_closed by blast
  have p: "page_at i st1 = Some p" "pg_ID p = pid" "pg_Data p = view st pid"
    using pool.opened_deref [OF o(2)] pool.opened_page [OF o(2)] by auto
  have hs2: "heap_store st2" using kept_heap_store Suc.prems(1) u(2) by blast
  have n2: "dm_pageCount (st_disk st2) = dm_pageCount (st_disk st)" using u(2) by (simp add: kept_def)
  have s: "unat (pid + 1) = Suc (unat pid)" using succ_index [OF lt] .
  then have nz: "pid + 1 \<noteq> 0" by auto
  obtain st3 where r: "scan_pages schema tid (pid + 1) st2
      = (Ok (decode_rows schema (heap_upto tid st2 (Suc (unat pid)) ?n)), st3)" "kept st2 st3"
  proof -
    have arg: "n = unat (dm_pageCount (st_disk st2)) - unat (pid + 1)" using Suc.hyps(2) n2 s by simp
    show ?thesis using that Suc.hyps(1) [OF arg hs2 nz] s n2 by auto
  qed
  have same: "heap_upto tid st2 (Suc (unat pid)) ?n = heap_upto tid st (Suc (unat pid)) ?n"
    by (rule heap_upto_cong) (use u(2) word_of_index in \<open>auto simp: kept_def pg_of_def\<close>)
  have "page_live tid (pg_of st pid) = page_live tid p"
    by (rule page_live_bytes) (simp_all add: pg_of_def p)
  then have "heap_upto tid st (unat pid) ?n = page_live tid p @ heap_upto tid st (Suc (unat pid)) ?n"
    using heap_upto_step [of "unat pid" ?n tid st] lt by (simp add: word_less_nat_alt)
  then have "scan_pages schema tid pid st = (Ok (decode_rows schema (heap_upto tid st (unat pid) ?n)), st3)"
    using lt o(1) p(1) u(1) r(1) same scan_page_rows [OF o(3) p(2), of tid schema]
    by (subst scan_pages.simps) (simp add: decode_rows_def)
  then show ?case using kept_trans [OF u(2) r(2)] by blast
qed

lemma ScanFull_rows:
  assumes "heap_store st" "\<not> hf_locked h"
  shows "\<exists>st'. HeapFile_ScanFull h st
      = (Ok (decode_rows (hf_Schema h) (heap_rows (HeapFile_TableID h) st)), st') \<and> kept st st'"
  using scan_pages_spec [OF assms(1), of 1 "hf_Schema h" "HeapFile_TableID h"] assms(2)
  by (simp add: HeapFile_ScanFull_def heap_rows_def)

section \<open>Inserting\<close>

text \<open>The search either opens the first suitable page, or has seen all pages and found none.\<close>

lemma find_page_spec:
  assumes "heap_store st" "pid \<noteq> 0"
  shows "(\<exists>q i s st1 p. find_page tid rowSize pid st = (Ok (Some (q, i)), st1) \<and> kept st s \<and> q \<noteq> 0
        \<and> q < dm_pageCount (st_disk st) \<and> pool.opened s q i st1 p \<and> page_suits tid rowSize p)
    \<or> (\<exists>st1. find_page tid rowSize pid st = (Ok None, st1) \<and> kept st st1)"
  using assms
proof (induction "unat (dm_pageCount (st_disk st)) - unat pid" arbitrary: pid st)
  case 0
  then have "\<not> pid < dm_pageCount (st_disk st)" by (simp add: word_less_nat_alt)
  then show ?case using 0 kept_refl by (auto simp: find_page.simps [of _ _ pid])
next
  case (Suc n)
  have lt: "pid < dm_pageCount (st_disk st)" using Suc.hyps(2) by (simp add: word_less_nat_alt)
  obtain i st1 p where o: "BufferPool_FetchPage pid st = (Ok i, st1)" "pool.opened st pid i st1 p" "page_ok p"
    using heap_open [OF Suc.prems lt] by blast
  have p: "page_at i st1 = Some p" by (rule pool.opened_deref [OF o(2)])
  show ?case
  proof (cases "page_suits tid rowSize p")
    case True
    then have "find_page tid rowSize pid st = (Ok (Some (pid, i)), st1)"
      using lt o(1) p by (subst find_page.simps) simp
    then show ?thesis using o(2) lt True Suc.prems kept_refl by blast
  next
    case False
    obtain st2 where u: "BufferPool_UnpinPage pid False st1 = (Ok (), st2)" "kept st st2"
      using pool.close_unchanged [OF o(2), of False] kept_closed by blast
    have step: "find_page tid rowSize pid st = find_page tid rowSize (pid + 1) st2"
      using lt o(1) p False u(1) by (subst find_page.simps) simp
    have n2: "dm_pageCount (st_disk st2) = dm_pageCount (st_disk st)" using u(2) by (simp add: kept_def)
    have s: "unat (pid + 1) = Suc (unat pid)" using succ_index [OF lt] .
    then have nz: "pid + 1 \<noteq> 0" by auto
    have hs2: "heap_store st2" using kept_heap_store Suc.prems(1) u(2) by blast
    have arg: "n = unat (dm_pageCount (st_disk st2)) - unat (pid + 1)" using Suc.hyps(2) n2 s by simp
    from Suc.hyps(1) [OF arg hs2 nz] show ?thesis
    proof (elim disjE exE conjE)
      fix q j s st3 p'
      assume "find_page tid rowSize (pid + 1) st2 = (Ok (Some (q, j)), st3)" "kept st2 s" "q \<noteq> 0"
        "q < dm_pageCount (st_disk st2)" "pool.opened s q j st3 p'" "page_suits tid rowSize p'"
      then show ?thesis using step n2 kept_trans [OF u(2)] by auto
    next
      fix st3 assume "find_page tid rowSize (pid + 1) st2 = (Ok None, st3)" "kept st2 st3"
      then show ?thesis using step kept_trans [OF u(2)] by auto
    qed
  qed
qed

text \<open>Placing a row on an opened page, whose bytes may already have been changed to \<open>q\<close>.\<close>

lemma insert_at_ok:
  assumes o: "pool.opened s pid i st1 p" and q: "page_ok q" "page_wf q" "pg_ID q = pid"
    and fit: "length data + SlotSize \<le> free_end q - free_off q"
  shows "\<exists>st2 p'. insert_at tid data pid i (set_page i q st1)
       = (Ok \<lparr>rid_PageID = pid, rid_SlotID = h_RowCount (Page_ReadHeader q)\<rparr>, st2)
     \<and> pool.closed s pid (pg_Data p') st2 \<and> page_ok p'
     \<and> page_rows p' = page_rows q @ [if data = [] then None else Some data] \<and> table_of p' = tid"
proof -
  note t = set_table_facts [OF q(1), of tid]
  have fit': "length data + SlotSize \<le> free_end (set_table tid q) - free_off (set_table tid q)"
    using fit t by simp
  obtain p' where p': "Page_InsertRow data (set_table tid q) = (Ok (h_RowCount (Page_ReadHeader q)), p')"
      "page_ok p'" "page_rows p' = page_rows q @ [if data = [] then None else Some data]"
      "h_TableID (Page_ReadHeader p') = table_of (set_table tid q)"
      "h_PageID (Page_ReadHeader p') = h_PageID (Page_ReadHeader q)" "pg_ID p' = pid" "pg_Dirty p'"
    using InsertRow_refines [OF t(1) fit'] t q(3) by (auto simp: table_of_def)
  have wf: "page_wf p'" using p' q(2,3) by (auto simp: page_wf_header)
  obtain st2 where u: "BufferPool_UnpinPage pid True (set_page i p' st1) = (Ok (), st2)"
      "pool.closed s pid (pg_Data p') st2"
    using pool.close_page [OF o wf p'(6), of True] by auto
  have "page_at i (set_page i q st1) = Some q" by (rule pool.opened_put [OF o])
  then have "insert_at tid data pid i (set_page i q st1)
      = (Ok \<lparr>rid_PageID = pid, rid_SlotID = h_RowCount (Page_ReadHeader q)\<rparr>, st2)"
    using p'(1) u(1) by (simp add: insert_at_def pool.put_put)
  then show ?thesis using u(2) p'(2,3,4) t(3) by (auto simp: table_of_def)
qed

text \<open>Allocating a page number changes no table: the new page is empty.\<close>

definition grow :: "store \<Rightarrow> store" where
  "grow st = st\<lparr>st_disk := snd (DiskManager_AllocatePage (st_disk st))\<rparr>"

lemma page_live_NewPage: "pg_Data p = pg_Data (NewPage pid) \<Longrightarrow> page_live tid p = []"
  using page_bytes(2) [of p "NewPage pid"] page_rows_NewPage by (simp add: page_live_def)

lemma grow_facts [simp]:
  "st_bp (grow st) = st_bp st" "dm_pageCount (st_disk (grow st)) = dm_pageCount (st_disk st) + 1"
  "disk_data (st_disk (grow st)) pid = disk_data (st_disk st) pid"
  "disk_ok (st_disk (grow st)) = disk_ok (st_disk st)"
  "dm_rfail (st_disk (grow st)) = dm_rfail (st_disk st)" "dm_wfail (st_disk (grow st)) = dm_wfail (st_disk st)"
  "view (grow st) = view st" "pins (grow st) = pins st"
  by (simp_all add: grow_def DiskManager_AllocatePage_def disk_ok_def view_def pins_def fun_eq_iff
      split: option.splits)

lemma grow_heap_store:
  assumes hs: "heap_store st" and small: "unat (dm_pageCount (st_disk st)) + 1 < 2 ^ 51"
  shows "heap_store (grow st)"
proof -
  let ?n = "dm_pageCount (st_disk st)"
  have n1: "unat (?n + 1) = unat ?n + 1" using small by (simp add: unat_word_ariths)
  have below: "cached_below (grow st)" if "cached_below st"
    using that n1 unfolding cached_below_def by (simp add: word_less_nat_alt) (metis less_SucI)
  have "frame_ok (st_disk (grow st)) = frame_ok (st_disk st)" by (simp add: frame_ok_def cached_ok_def fun_eq_iff)
  then have rest: "pool.at_rest (grow st)"
    using hs below by (simp add: heap_store_def pool.at_rest_def pool_inv_def pool_ok_def pool_ready_def healthy_def)
  have page: "page_ok (pg_of (grow st) pid)" if "pid \<noteq> 0" "pid < ?n + 1" for pid
  proof (cases "pid < ?n")
    case True
    then show ?thesis using hs that by (simp add: heap_store_def pg_of_def)
  next
    case False
    then have "pg_Data (pg_of (grow st) pid) = pg_Data (NewPage pid)"
      using hs by (simp add: heap_store_def pg_of_def not_less)
    then show ?thesis using page_bytes(1) NewPage_ok by metis
  qed
  have above: "view st pid = pg_Data (NewPage pid)" if "?n + 1 \<le> pid" for pid
    using hs that n1 by (simp add: heap_store_def word_le_nat_alt)
  have "1 \<le> ?n + 1" using n1 by (simp add: word_le_nat_alt)
  then show ?thesis using rest page above small n1 by (simp add: heap_store_def)
qed

lemma grow_rows:
  assumes hs: "heap_store st" and small: "unat (dm_pageCount (st_disk st)) + 1 < 2 ^ 51"
  shows "heap_rows tid (grow st) = heap_rows tid st"
proof -
  let ?n = "unat (dm_pageCount (st_disk st))"
  have n1: "unat (dm_pageCount (st_disk st) + 1) = Suc ?n" using small by (simp add: unat_word_ariths)
  have n: "1 \<le> ?n" using hs by (simp add: heap_store_def word_le_nat_alt)
  have "page_live tid (pg_of st (word_of_nat ?n)) = []"
    by (rule page_live_NewPage [of _ "word_of_nat ?n"]) (use hs in \<open>simp add: heap_store_def pg_of_def\<close>)
  then have "heap_upto tid st 1 (Suc ?n) = heap_upto tid st 1 ?n"
    using n by (simp add: heap_upto_def)
  moreover have "heap_upto tid (grow st) 1 (Suc ?n) = heap_upto tid st 1 (Suc ?n)"
    by (rule heap_upto_cong) (simp add: pg_of_def)
  ultimately show ?thesis using n1 by (simp add: heap_rows_def)
qed

text \<open>
  The effect of placing \<open>data\<close> on a page the table may use: one more row for the table, at
  the end of that page, and every other table as it was.
\<close>

definition row_added :: "u32 \<Rightarrow> RID \<Rightarrow> byte list \<Rightarrow> store \<Rightarrow> store \<Rightarrow> bool" where
  "row_added tid rid data st st' \<longleftrightarrow> heap_store st'
     \<and> (\<exists>A B. heap_rows tid st = A @ B \<and> heap_rows tid st' = A @ (rid, data) # B)
     \<and> (\<forall>t. t \<noteq> tid \<longrightarrow> heap_rows t st' = heap_rows t st)"

definition usable_by :: "u32 \<Rightarrow> page \<Rightarrow> bool" where
  "usable_by tid p \<longleftrightarrow> table_of p = tid \<or> page_rows p = []"

lemma row_added_closed:
  assumes hs: "heap_store st" and pid: "pid \<noteq> 0" "pid < dm_pageCount (st_disk st)"
    and use: "usable_by tid (pg_of st pid)" and c: "pool.closed st pid (pg_Data p') st'"
    and p': "page_ok p'" "table_of p' = tid" "page_rows p' = page_rows (pg_of st pid) @ [Some data]"
  shows "row_added tid \<lparr>rid_PageID = pid, rid_SlotID = h_RowCount (Page_ReadHeader (pg_of st pid))\<rparr> data st st'"
proof -
  let ?p = "pg_of st pid" and ?q = "pg_of st' pid"
  have q: "pg_Data ?q = pg_Data p'" using closed_view [OF c pid(1)] by (simp add: pg_of_def)
  have qok: "page_ok ?q" and qt: "table_of ?q = tid" and qr: "page_rows ?q = page_rows ?p @ [Some data]"
    using page_bytes [OF q] p' by simp_all
  have hs': "heap_store st'"
    by (rule closed_heap_store [OF hs c pid]) (use qok closed_view [OF c pid(1)] in \<open>simp add: pg_of_def\<close>)
  have cnt: "word_of_nat (rows_of ?p) = h_RowCount (Page_ReadHeader ?p)" by (simp add: rows_of_def)
  have id: "pg_ID ?p = pid" "pg_ID ?q = pid" by (simp_all add: pg_of_def)
  have new: "page_live tid ?q = page_live tid ?p @ [(\<lparr>rid_PageID = pid, rid_SlotID = h_RowCount (Page_ReadHeader ?p)\<rparr>, data)]"
    using use qt by (auto simp: page_live_def qr id live_from_append live_at_def cnt usable_by_def)
  have other: "page_live t ?q = [] \<and> page_live t ?p = []" if "t \<noteq> tid" for t
    using use qt that by (auto simp: page_live_def usable_by_def)
  obtain A B where "heap_rows tid st = A @ page_live tid ?p @ B" "heap_rows tid st' = A @ page_live tid ?q @ B"
    using closed_rows [OF hs c pid] by blast
  then have "\<exists>A B. heap_rows tid st = A @ B \<and> heap_rows tid st'
      = A @ (\<lparr>rid_PageID = pid, rid_SlotID = h_RowCount (Page_ReadHeader ?p)\<rparr>, data) # B"
    by (intro exI [of _ "A @ page_live tid ?p"] exI [of _ B]) (simp add: new)
  moreover have "heap_rows t st' = heap_rows t st" if t: "t \<noteq> tid" for t
    using closed_rows [OF hs c pid, of t] other [OF t] by auto
  ultimately show ?thesis using hs' by (simp add: row_added_def)
qed

lemma page_suits_usable:
  assumes "page_ok p" "page_suits tid (word_of_nat (length data)) p" "length data \<le> 65531"
  shows "usable_by tid p" "length data + SlotSize \<le> free_end p - free_off p"
proof -
  show "length data + SlotSize \<le> free_end p - free_off p"
    using assms CanFit_iff [OF assms(1,3)] by (auto simp: page_suits_def Let_def)
  have "page_rows p = []" if "h_RowCount (Page_ReadHeader p) = 0"
    using that by (simp add: page_rows_def rows_of_def)
  then show "usable_by tid p"
    using assms(2) by (auto simp: page_suits_def Let_def usable_by_def table_of_def)
qed

definition max_row :: nat where "max_row = PageSize - HeaderSize - SlotSize"

lemma kept_row_added: "heap_store st \<Longrightarrow> kept st s \<Longrightarrow> row_added tid rid data s st' \<Longrightarrow> row_added tid rid data st st'"
  by (simp add: row_added_def kept_rows)

lemma insert_opened:
  assumes hs: "heap_store s" and pid: "pid \<noteq> 0" "pid < dm_pageCount (st_disk s)"
    and o: "pool.opened s pid i st1 p" and use: "usable_by tid p"
    and fit: "length data + SlotSize \<le> free_end p - free_off p" and ne: "data \<noteq> []"
    and q: "q = p \<or> q = set_table tid p"
  shows "\<exists>rid st'. insert_at tid data pid i (set_page i q st1) = (Ok rid, st') \<and> row_added tid rid data s st'"
proof -
  have pd: "pg_Data p = pg_Data (pg_of s pid)" "pg_ID p = pid" "page_wf p"
    using pool.opened_page [OF o] by (simp_all add: pg_of_def)
  have pok: "page_ok p" using hs pid page_bytes(1) [OF pd(1)] by (simp add: heap_store_def)
  note t = set_table_facts [OF pok, of tid]
  have qq: "page_ok q" "page_wf q" "pg_ID q = pid" "free_end q = free_end p" "free_off q = free_off p"
      "page_rows q = page_rows p" "h_RowCount (Page_ReadHeader q) = h_RowCount (Page_ReadHeader p)"
    using q pok pd(2,3) t by (auto simp: page_wf_header)
  obtain st' p' where r: "insert_at tid data pid i (set_page i q st1)
       = (Ok \<lparr>rid_PageID = pid, rid_SlotID = h_RowCount (Page_ReadHeader q)\<rparr>, st')"
     "pool.closed s pid (pg_Data p') st'" "page_ok p'" "page_rows p' = page_rows q @ [Some data]" "table_of p' = tid"
    using insert_at_ok [OF o qq(1-3), of data tid] fit qq(4,5) ne by auto
  have "usable_by tid (pg_of s pid)" using use page_bytes [OF pd(1)] by (simp add: usable_by_def)
  from row_added_closed [OF hs pid this r(2,3,5)] r(4) qq(6)
  have "row_added tid \<lparr>rid_PageID = pid, rid_SlotID = h_RowCount (Page_ReadHeader (pg_of s pid))\<rparr> data s st'"
    using page_bytes(2) [OF pd(1)] by simp
  then show ?thesis using r(1) qq(7) ReadHeader_bytes [OF pd(1)] by auto
qed

lemma InsertRow_adds:
  assumes hs: "heap_store st" and free: "\<not> hf_locked h"
    and ser: "SerializeRow fl row (hf_Schema h) = Ok data" and ne: "data \<noteq> []" and len: "length data \<le> max_row"
    and small: "unat (dm_pageCount (st_disk st)) + 1 < 2 ^ 51"
  shows "\<exists>rid st'. HeapFile_InsertRow fl row h st = (Ok rid, st') \<and> row_added (HeapFile_TableID h) rid data st st'"
proof -
  let ?tid = "HeapFile_TableID h" and ?sz = "word_of_nat (length data) :: u16"
  have l: "length data \<le> 65531" using len by (simp add: max_row_def layout)
  from find_page_spec [OF hs one_neq_zero, of ?tid ?sz] show ?thesis
  proof (elim disjE exE conjE)
    fix q i s st1 p
    assume f: "find_page ?tid ?sz 1 st = (Ok (Some (q, i)), st1)" and k: "kept st s" and q: "q \<noteq> 0"
      "q < dm_pageCount (st_disk st)" and o: "pool.opened s q i st1 p" and su: "page_suits ?tid ?sz p"
    have hs1: "heap_store s" using kept_heap_store [OF hs k] .
    have q1: "q < dm_pageCount (st_disk s)" using q k by (simp add: kept_def)
    have pok: "page_ok p" using hs1 q q1 pool.opened_page [OF o] page_bytes(1) [of p "pg_of s q"]
      by (simp add: heap_store_def pg_of_def)
    obtain rid st' where "insert_at ?tid data q i (set_page i p st1) = (Ok rid, st')" "row_added ?tid rid data s st'"
      using insert_opened [OF hs1 q(1) q1 o _ _ ne, of ?tid p] page_suits_usable [OF pok su l] by blast
    moreover have "set_page i p st1 = st1" using set_page_same [OF pool.opened_deref [OF o]] .
    ultimately show ?thesis using f free ser kept_row_added [OF hs k]
      by (auto simp: HeapFile_InsertRow_def)
  next
    fix st1 assume f: "find_page ?tid ?sz 1 st = (Ok None, st1)" and k: "kept st st1"
    let ?pid = "dm_pageCount (st_disk st1)"
    have n: "?pid = dm_pageCount (st_disk st)" using k by (simp add: kept_def)
    have hs1: "heap_store st1" using kept_heap_store [OF hs k] .
    have hs2: "heap_store (grow st1)" using grow_heap_store [OF hs1] small n by simp
    have nz: "?pid \<noteq> 0" using hs1 by (auto simp: heap_store_def word_le_nat_alt)
    have lt: "?pid < dm_pageCount (st_disk (grow st1))"
      using small n by (simp add: word_less_nat_alt unat_word_ariths)
    obtain i st2 p where o: "BufferPool_FetchPage ?pid (grow st1) = (Ok i, st2)" "pool.opened (grow st1) ?pid i st2 p"
      using heap_open [OF hs2 nz lt] by blast
    have pd: "pg_Data p = pg_Data (NewPage ?pid)"
      using pool.opened_page(3) [OF o(2)] hs1 by (simp add: heap_store_def)
    have room: "length data + SlotSize \<le> free_end p - free_off p"
      using page_bytes(4,5) [OF pd] len by (simp add: free_end_def free_off_def ReadHeader_NewPage max_row_def layout)
    have use: "usable_by ?tid p" using page_bytes(2) [OF pd] by (simp add: usable_by_def page_rows_NewPage)
    obtain rid st' where r: "insert_at ?tid data ?pid i (set_page i (set_table ?tid p) st2) = (Ok rid, st')"
        "row_added ?tid rid data (grow st1) st'"
      using insert_opened [OF hs2 nz lt o(2) use room ne] by blast
    have run: "HeapFile_InsertRow fl row h st = (Ok rid, st')"
      using f free ser o(1) r(1) pool.opened_deref [OF o(2)]
      by (simp add: HeapFile_InsertRow_def DiskManager_AllocatePage_def grow_def)
    have "row_added ?tid rid data st1 st'"
      using r(2) grow_rows [OF hs1] small n by (simp add: row_added_def)
    then show ?thesis using run kept_row_added [OF hs k] by blast
  qed
qed

section \<open>Reading, deleting and updating one row\<close>

lemma page_live_elem:
  assumes "x \<in> set (page_live tid p)" "page_ok p"
  shows "table_of p = tid \<and> rid_PageID (fst x) = pg_ID p \<and> unat (rid_SlotID (fst x)) < rows_of p
    \<and> page_rows p ! unat (rid_SlotID (fst x)) = Some (snd x)"
proof -
  have t: "table_of p = tid" and m: "x \<in> set (live_from (pg_ID p) 0 (page_rows p))"
    using assms(1) by (auto simp: page_live_def split: if_splits)
  obtain k where k: "k < rows_of p" "rid_SlotID (fst x) = word_of_nat k" "page_rows p ! k = Some (snd x)"
    using live_from_slot [OF m] by auto
  have "rows_of p < 65536" unfolding rows_of_def by (rule unat_u16_less)
  then have "unat (rid_SlotID (fst x)) = k" using k by (simp add: unat_of_nat)
  then show ?thesis using t k live_from_pid [OF m] by simp
qed

lemma heap_rows_elem:
  assumes hs: "heap_store st" and x: "(rid, d) \<in> set (heap_rows tid st)"
  shows "rid_PageID rid \<noteq> 0" "rid_PageID rid < dm_pageCount (st_disk st)"
    "table_of (pg_of st (rid_PageID rid)) = tid" "unat (rid_SlotID rid) < rows_of (pg_of st (rid_PageID rid))"
    "page_rows (pg_of st (rid_PageID rid)) ! unat (rid_SlotID rid) = Some d"
proof -
  obtain k where k: "1 \<le> k" "k < unat (dm_pageCount (st_disk st))"
      "(rid, d) \<in> set (page_live tid (pg_of st (word_of_nat k)))" "rid_PageID rid = word_of_nat k"
    using x heap_upto_pid unfolding heap_rows_def by (metis fst_conv)
  have w: "(word_of_nat k :: u64) \<noteq> 0" "unat (word_of_nat k :: u64) = k" using word_of_index k by auto
  show p: "rid_PageID rid \<noteq> 0" "rid_PageID rid < dm_pageCount (st_disk st)"
    using w k by (simp_all add: word_less_nat_alt)
  then have "page_ok (pg_of st (rid_PageID rid))" using hs by (simp add: heap_store_def)
  from page_live_elem [OF k(3) [folded k(4)] this]
  show "table_of (pg_of st (rid_PageID rid)) = tid" "unat (rid_SlotID rid) < rows_of (pg_of st (rid_PageID rid))"
    "page_rows (pg_of st (rid_PageID rid)) ! unat (rid_SlotID rid) = Some d" by simp_all
qed

lemma with_page_spec:
  assumes hs: "heap_store st" and pid: "pid \<noteq> 0" "pid < dm_pageCount (st_disk st)"
    and body: "\<And>p. page_ok p \<Longrightarrow> page_wf p \<Longrightarrow> pg_ID p = pid \<Longrightarrow> pg_Data p = view st pid \<Longrightarrow>
      \<exists>r p'. body p = (r, p') \<and> r \<noteq> Hang \<and> page_wf p' \<and> pg_ID p' = pid \<and> (pg_Dirty p' \<or> dirty \<or> p' = p) \<and> Q r p'"
  shows "\<exists>r p' st'. with_page pid dirty wrap body st = (r, st') \<and> pool.closed st pid (pg_Data p') st' \<and> Q r p'"
proof -
  obtain i st1 p where o: "BufferPool_FetchPage pid st = (Ok i, st1)" "pool.opened st pid i st1 p" "page_ok p"
    using heap_open [OF hs pid] by blast
  obtain r p' where b: "body p = (r, p')" "r \<noteq> Hang" "page_wf p'" "pg_ID p' = pid" "pg_Dirty p' \<or> dirty \<or> p' = p" "Q r p'"
    using body [OF o(3)] pool.opened_page [OF o(2)] by blast
  obtain st2 where u: "BufferPool_UnpinPage pid dirty (set_page i p' st1) = (Ok (), st2)" "pool.closed st pid (pg_Data p') st2"
    using pool.close_page [OF o(2) b(3,4,5)] by blast
  have "with_page pid dirty wrap body st = (r, st2)"
    using o(1) pool.opened_deref [OF o(2)] b(1,2) u(1) by (cases r) (simp_all add: with_page_def)
  then show ?thesis using u(2) b(6) by blast
qed

text \<open>Replacing the rows of one page of a table by others.\<close>

lemma rows_replaced:
  assumes hs: "heap_store st" and pid: "pid \<noteq> 0" "pid < dm_pageCount (st_disk st)"
    and c: "pool.closed st pid (pg_Data p') st'" and ok: "page_ok p'" and t: "table_of p' = table_of (pg_of st pid)"
  shows "heap_store st'"
    and "\<exists>A B. heap_rows (table_of p') st = A @ live_from pid 0 (page_rows (pg_of st pid)) @ B
      \<and> heap_rows (table_of p') st' = A @ live_from pid 0 (page_rows p') @ B
      \<and> (\<forall>x \<in> set A \<union> set B. rid_PageID (fst x) \<noteq> pid)"
    and "\<And>u. u \<noteq> table_of p' \<Longrightarrow> heap_rows u st' = heap_rows u st"
proof -
  have q: "pg_Data (pg_of st' pid) = pg_Data p'" using closed_view [OF c pid(1)] by (simp add: pg_of_def)
  note b = page_bytes [OF q]
  show "heap_store st'"
    by (rule closed_heap_store [OF hs c pid]) (use ok b(1) q in \<open>simp add: pg_of_def\<close>)
  have id: "pg_ID (pg_of st pid) = pid" "pg_ID (pg_of st' pid) = pid" by (simp_all add: pg_of_def)
  have l: "page_live (table_of p') (pg_of st pid) = live_from pid 0 (page_rows (pg_of st pid))"
    "page_live (table_of p') (pg_of st' pid) = live_from pid 0 (page_rows p')"
    using t b by (simp_all add: page_live_def id)
  show "\<exists>A B. heap_rows (table_of p') st = A @ live_from pid 0 (page_rows (pg_of st pid)) @ B
      \<and> heap_rows (table_of p') st' = A @ live_from pid 0 (page_rows p') @ B
      \<and> (\<forall>x \<in> set A \<union> set B. rid_PageID (fst x) \<noteq> pid)"
    using closed_rows [OF hs c pid, of "table_of p'"] unfolding l .
  show "heap_rows u st' = heap_rows u st" if "u \<noteq> table_of p'" for u
    using closed_rows [OF hs c pid, of u] that t b by (auto simp: page_live_def)
qed

lemma GetRow_reads:
  assumes hs: "heap_store st" and free: "\<not> hf_locked h" and x: "(rid, d) \<in> set (heap_rows tid st)"
  shows "\<exists>st'. HeapFile_GetRow rid h st = (DeserializeRow d (hf_Schema h), st') \<and> kept st st'"
proof -
  let ?pid = "rid_PageID rid"
  let ?body = "\<lambda>page. (bind_out (Page_GetRow page (rid_SlotID rid)) (\<lambda>rowData. DeserializeRow rowData (hf_Schema h)), page)"
  note e = heap_rows_elem [OF hs x]
  have g: "Page_GetRow p (rid_SlotID rid) = Ok d" if "page_ok p" "pg_Data p = view st ?pid" for p
    using GetRow_refines [OF that(1)] page_bytes [of p "pg_of st ?pid"] that(2) e(4,5) by (simp add: pg_of_def)
  let ?Q = "\<lambda>r (p' :: page). r = DeserializeRow d (hf_Schema h) \<and> pg_Data p' = view st ?pid"
  have b: "\<exists>r p'. ?body p = (r, p') \<and> r \<noteq> Hang \<and> page_wf p' \<and> pg_ID p' = ?pid
      \<and> (pg_Dirty p' \<or> False \<or> p' = p) \<and> ?Q r p'"
    if "page_ok p" "page_wf p" "pg_ID p = ?pid" "pg_Data p = view st ?pid" for p
    using that g DeserializeRow_total by simp
  have "\<exists>r p' st'. with_page ?pid False id ?body st = (r, st') \<and> pool.closed st ?pid (pg_Data p') st' \<and> ?Q r p'"
    by (rule with_page_spec [OF hs e(1,2), where Q = ?Q, OF b])
  then show ?thesis using free kept_closed by (auto simp: HeapFile_GetRow_def)
qed

definition row_removed :: "u32 \<Rightarrow> RID \<Rightarrow> store \<Rightarrow> store \<Rightarrow> bool" where
  "row_removed tid rid st st' \<longleftrightarrow> heap_store st'
     \<and> heap_rows tid st' = filter (\<lambda>x. fst x \<noteq> rid) (heap_rows tid st)
     \<and> (\<forall>t. t \<noteq> tid \<longrightarrow> heap_rows t st' = heap_rows t st)"

lemma filter_elsewhere: "\<forall>x \<in> set A. rid_PageID (fst x) \<noteq> rid_PageID rid \<Longrightarrow> filter (\<lambda>x. fst x \<noteq> rid) A = A"
  by (induction A) auto

lemma live_deleted:
  assumes "length rs < 65536" "unat (rid_SlotID rid) < length rs"
  shows "live_from (rid_PageID rid) 0 (rs[unat (rid_SlotID rid) := None])
    = filter (\<lambda>x. fst x \<noteq> rid) (live_from (rid_PageID rid) 0 rs)"
proof -
  have eta: "\<lparr>rid_PageID = rid_PageID rid, rid_SlotID = word_of_nat (0 + unat (rid_SlotID rid))\<rparr> = rid" by simp
  have "0 + length rs \<le> 65536" using assms(1) by simp
  from live_from_None [OF this assms(2), of "rid_PageID rid"] show ?thesis unfolding eta .
qed

lemma DeleteRow_removes:
  assumes hs: "heap_store st" and free: "\<not> hf_locked h" and x: "(rid, d) \<in> set (heap_rows tid st)"
  shows "\<exists>st'. HeapFile_DeleteRow rid h st = (Ok (), st') \<and> row_removed tid rid st st'"
proof -
  let ?pid = "rid_PageID rid"
  let ?p = "pg_of st ?pid"
  note e = heap_rows_elem [OF hs x]
  let ?Q = "\<lambda>r p'. r = Ok () \<and> page_ok p' \<and> table_of p' = tid \<and> page_rows p' = (page_rows ?p)[unat (rid_SlotID rid) := None]"
  have b: "\<exists>r p'. Page_DeleteRow (rid_SlotID rid) p = (r, p') \<and> r \<noteq> Hang \<and> page_wf p' \<and> pg_ID p' = ?pid
      \<and> (pg_Dirty p' \<or> True \<or> p' = p) \<and> ?Q r p'"
    if p: "page_ok p" "page_wf p" "pg_ID p = ?pid" "pg_Data p = view st ?pid" for p
  proof -
    have s: "pg_Data p = pg_Data ?p" using p(4) by (simp add: pg_of_def)
    obtain p' where "Page_DeleteRow (rid_SlotID rid) p = (Ok (), p')" "page_ok p'"
      "page_rows p' = (page_rows p)[unat (rid_SlotID rid) := None]"
      "Page_ReadHeader p' = Page_ReadHeader p" "pg_ID p' = pg_ID p" "pg_Dirty p'"
      using DeleteRow_refines [OF p(1)] e(4) page_bytes(6) [OF s] by metis
    then show ?thesis using p(2,3) page_bytes(2,3) [OF s] e(3) by (auto simp: page_wf_header table_of_def)
  qed
  obtain r p' st' where w: "with_page ?pid True id (Page_DeleteRow (rid_SlotID rid)) st = (r, st')"
      "pool.closed st ?pid (pg_Data p') st'" "?Q r p'"
    using with_page_spec [OF hs e(1,2), where Q = ?Q and dirty = True and wrap = id, OF b] by blast
  have t: "table_of p' = table_of ?p" using w(3) e(3) by simp
  have ok: "page_ok p'" and tid: "table_of p' = tid" using w(3) by simp_all
  note R = rows_replaced [OF hs e(1,2) w(2) ok t, unfolded tid]
  have "rows_of ?p < 65536" unfolding rows_of_def by (rule unat_u16_less)
  then have "live_from ?pid 0 (page_rows p') = filter (\<lambda>x. fst x \<noteq> rid) (live_from ?pid 0 (page_rows ?p))"
    using w(3) live_deleted [of "page_rows ?p" rid] e(4) by simp
  with R(2) have "heap_rows tid st' = filter (\<lambda>x. fst x \<noteq> rid) (heap_rows tid st)"
    by (auto simp: filter_elsewhere)
  then show ?thesis using w(1,3) free R(1,3) by (simp add: HeapFile_DeleteRow_def row_removed_def)
qed

text \<open>
  An update that fits: the old row is gone, the new one is the last row of the same page.
\<close>

definition row_moved :: "u32 \<Rightarrow> RID \<Rightarrow> byte list \<Rightarrow> store \<Rightarrow> store \<Rightarrow> bool" where
  "row_moved tid rid data st st' \<longleftrightarrow> heap_store st'
     \<and> (\<exists>A B rid'. filter (\<lambda>x. fst x \<noteq> rid) (heap_rows tid st) = A @ B
          \<and> heap_rows tid st' = A @ (rid', data) # B \<and> rid_PageID rid' = rid_PageID rid)
     \<and> (\<forall>t. t \<noteq> tid \<longrightarrow> heap_rows t st' = heap_rows t st)"

lemma delete_on_page:
  assumes p: "page_ok p" "page_wf p" and s: "unat slot < rows_of p"
  shows "\<exists>p1. Page_DeleteRow slot p = (Ok (), p1) \<and> page_ok p1 \<and> page_wf p1 \<and> pg_ID p1 = pg_ID p
    \<and> table_of p1 = table_of p \<and> page_rows p1 = (page_rows p)[unat slot := None] \<and> pg_Dirty p1
    \<and> free_end p1 = free_end p \<and> free_off p1 = free_off p \<and> rows_of p1 = rows_of p"
  using DeleteRow_refines [OF p(1) s] p(2)
  by (auto simp: page_wf_header table_of_def free_end_def free_off_def rows_of_def)

lemma insert_on_page:
  assumes p: "page_ok p" "page_wf p" and fit: "length data + SlotSize \<le> free_end p - free_off p" and ne: "data \<noteq> []"
  shows "\<exists>p1. Page_InsertRow data p = (Ok (h_RowCount (Page_ReadHeader p)), p1) \<and> page_ok p1 \<and> page_wf p1
    \<and> pg_ID p1 = pg_ID p \<and> table_of p1 = table_of p \<and> page_rows p1 = page_rows p @ [Some data] \<and> pg_Dirty p1"
  using InsertRow_refines [OF p(1) fit] p(2) ne by (auto simp: page_wf_header table_of_def)

lemma UpdateRow_moves:
  assumes hs: "heap_store st" and free: "\<not> hf_locked h" and x: "(rid, d) \<in> set (heap_rows tid st)"
    and ser: "SerializeRow fl row (hf_Schema h) = Ok data" and ne: "data \<noteq> []"
    and fit: "length data + SlotSize \<le> free_end (pg_of st (rid_PageID rid)) - free_off (pg_of st (rid_PageID rid))"
  shows "\<exists>st'. HeapFile_UpdateRow fl rid row h st = (Ok (), st') \<and> row_moved tid rid data st st'"
proof -
  let ?pid = "rid_PageID rid"
  let ?p = "pg_of st ?pid"
  note e = heap_rows_elem [OF hs x]
  let ?body = "\<lambda>page. case Page_DeleteRow (rid_SlotID rid) page of
             (Ok _, page1) \<Rightarrow>
               (case SerializeRow fl row (hf_Schema h) of
                  Ok data \<Rightarrow>
                    (case Page_InsertRow data page1 of
                       (Err _, page2) \<Rightarrow>
                         (bind_out (fst (HeapFile_InsertRow fl row (h\<lparr>hf_locked := True\<rparr>) st)) (\<lambda>_. Ok ()), page2)
                     | (Ok _, page2) \<Rightarrow> (Ok (), page2)
                     | (_, page2) \<Rightarrow> (Panic, page2))
                | Err e \<Rightarrow> (Err (SerializeFailed e), page1)
                | _ \<Rightarrow> (Panic, page1))
           | (Err e, page1) \<Rightarrow> (Err (OldRowDeleteFailed e), page1)
           | (_, page1) \<Rightarrow> (Panic, page1)"
  let ?Q = "\<lambda>r (p' :: page). r = Ok () \<and> page_ok p' \<and> table_of p' = tid
    \<and> page_rows p' = (page_rows ?p)[unat (rid_SlotID rid) := None] @ [Some data]"
  have b: "\<exists>r p'. ?body p = (r, p') \<and> r \<noteq> Hang \<and> page_wf p' \<and> pg_ID p' = ?pid
      \<and> (pg_Dirty p' \<or> True \<or> p' = p) \<and> ?Q r p'"
    if p: "page_ok p" "page_wf p" "pg_ID p = ?pid" "pg_Data p = view st ?pid" for p
  proof -
    have s: "pg_Data p = pg_Data ?p" using p(4) by (simp add: pg_of_def)
    note pb = page_bytes [OF s]
    obtain p1 where p1: "Page_DeleteRow (rid_SlotID rid) p = (Ok (), p1)" "page_ok p1" "page_wf p1" "pg_ID p1 = pg_ID p"
      "table_of p1 = tid" "page_rows p1 = (page_rows ?p)[unat (rid_SlotID rid) := None]"
      "free_end p1 = free_end ?p" "free_off p1 = free_off ?p"
      using delete_on_page [OF p(1,2), of "rid_SlotID rid"] e(3,4) pb by auto
    then show ?thesis using insert_on_page [OF p1(2,3) _ ne] fit ser p(3) by auto
  qed
  have "\<exists>r p' st'. with_page ?pid True (PageLoadFailed ?pid) ?body st = (r, st') \<and> pool.closed st ?pid (pg_Data p') st' \<and> ?Q r p'"
    by (rule with_page_spec [OF hs e(1,2), where Q = ?Q, OF b])
  then obtain p' st' where w: "with_page ?pid True (PageLoadFailed ?pid) ?body st = (Ok (), st')"
      "pool.closed st ?pid (pg_Data p') st'" "page_ok p'" "table_of p' = tid"
      "page_rows p' = (page_rows ?p)[unat (rid_SlotID rid) := None] @ [Some data]" by blast
  have t: "table_of p' = table_of ?p" using w(4) e(3) by simp
  note R = rows_replaced [OF hs e(1,2) w(2,3) t, unfolded w(4)]
  have "rows_of ?p < 65536" unfolding rows_of_def by (rule unat_u16_less)
  then have l: "live_from ?pid 0 (page_rows p') = filter (\<lambda>x. fst x \<noteq> rid) (live_from ?pid 0 (page_rows ?p))
      @ [(\<lparr>rid_PageID = ?pid, rid_SlotID = word_of_nat (rows_of ?p)\<rparr>, data)]"
    using w(5) live_deleted [of "page_rows ?p" rid] e(4) by (simp add: live_from_append live_at_def)
  from R(2) obtain A B where AB: "heap_rows tid st = A @ live_from ?pid 0 (page_rows ?p) @ B"
      "heap_rows tid st' = A @ live_from ?pid 0 (page_rows p') @ B" "\<forall>x \<in> set A \<union> set B. rid_PageID (fst x) \<noteq> ?pid" by blast
  then have "\<exists>A B rid'. filter (\<lambda>x. fst x \<noteq> rid) (heap_rows tid st) = A @ B
      \<and> heap_rows tid st' = A @ (rid', data) # B \<and> rid_PageID rid' = ?pid"
    by (intro exI [of _ "A @ filter (\<lambda>x. fst x \<noteq> rid) (live_from ?pid 0 (page_rows ?p))"] exI [of _ B]
        exI [of _ "\<lparr>rid_PageID = ?pid, rid_SlotID = word_of_nat (rows_of ?p)\<rparr>"])
       (simp add: l filter_elsewhere)
  moreover have "HeapFile_UpdateRow fl rid row h st = (Ok (), st')"
    using w(1) free by (simp add: HeapFile_UpdateRow_def)
  ultimately show ?thesis using R(1,3) by (auto simp: row_moved_def)
qed

text \<open>
  An update that does not fit on its page never returns: \<^verbatim>\<open>UpdateRow\<close> calls \<^verbatim>\<open>InsertRow\<close> while it
  holds the mutex.
\<close>

lemma UpdateRow_deadlocks:
  assumes hs: "heap_store st" and free: "\<not> hf_locked h" and x: "(rid, d) \<in> set (heap_rows tid st)"
    and ser: "SerializeRow fl row (hf_Schema h) = Ok data" and len: "length data \<le> 65531"
    and full: "free_end (pg_of st (rid_PageID rid)) - free_off (pg_of st (rid_PageID rid)) < length data + SlotSize"
  shows "fst (HeapFile_UpdateRow fl rid row h st) = Hang"
proof -
  let ?pid = "rid_PageID rid"
  note e = heap_rows_elem [OF hs x]
  obtain i st1 p where o: "BufferPool_FetchPage ?pid st = (Ok i, st1)" "pool.opened st ?pid i st1 p" "page_ok p"
    using heap_open [OF hs e(1,2)] by blast
  have s: "pg_Data p = pg_Data (pg_of st ?pid)" using pool.opened_page(3) [OF o(2)] by (simp add: pg_of_def)
  obtain p1 where p1: "Page_DeleteRow (rid_SlotID rid) p = (Ok (), p1)" "page_ok p1"
    "free_end p1 = free_end p" "free_off p1 = free_off p"
    using delete_on_page [OF o(3) pool.opened_page(1) [OF o(2)], of "rid_SlotID rid"] e(4) page_bytes(6) [OF s] by auto
  have "Page_InsertRow data p1 = (Err NoSpaceOnPage, p1)"
    using InsertRow_no_space [OF p1(2) len] full p1(3,4) page_bytes(4,5) [OF s] by simp
  then show ?thesis
    using o(1) pool.opened_deref [OF o(2)] p1(1) ser free
    by (simp add: HeapFile_UpdateRow_def with_page_def HeapFile_InsertRow_def)
qed

text \<open>A row longer than an empty page holds is refused, but a page number is spent on every attempt.\<close>

lemma Unpin_returns: "fst (BufferPool_UnpinPage pid False st) = Ok ()"
    "st_disk (snd (BufferPool_UnpinPage pid d st)) = st_disk st"
  by (simp_all add: BufferPool_UnpinPage_def Let_def split: option.split)

lemma set_page_disk [simp]: "st_disk (set_page i p st) = st_disk st"
  by (simp add: set_page_def)

lemma InsertRow_oversized:
  assumes hs: "heap_store st" and free: "\<not> hf_locked h"
    and ser: "SerializeRow fl row (hf_Schema h) = Ok data"
    and len: "max_row < length data" "length data \<le> 65531"
    and small: "unat (dm_pageCount (st_disk st)) + 1 < 2 ^ 51"
  shows "\<exists>st'. HeapFile_InsertRow fl row h st = (Err (PageInsertFailed NoSpaceOnPage), st')
    \<and> dm_pageCount (st_disk st') = dm_pageCount (st_disk st) + 1"
proof -
  let ?tid = "HeapFile_TableID h" and ?sz = "word_of_nat (length data) :: u16"
  have nofit: "\<not> length data + SlotSize \<le> free_end p - free_off p" if "page_ok p" for p
  proof -
    have "free_end p \<le> 4096" "24 \<le> free_off p" using that by (simp_all add: page_ok_def layout)
    then show ?thesis using len(1) by (simp add: max_row_def layout)
  qed
  have "\<exists>st1. find_page ?tid ?sz 1 st = (Ok None, st1) \<and> kept st st1"
    using find_page_spec [OF hs one_neq_zero, of ?tid ?sz]
  proof (elim disjE exE conjE)
    fix q i s st1 p assume k: "kept st s" and q: "q \<noteq> 0" "q < dm_pageCount (st_disk st)"
      and o: "pool.opened s q i st1 p" and su: "page_suits ?tid ?sz p"
    have "page_ok p" using kept_heap_store [OF hs k] q k pool.opened_page [OF o] page_bytes(1) [of p "pg_of s q"]
      by (simp add: heap_store_def pg_of_def kept_def)
    then show ?thesis using page_suits_usable(2) [OF _ su len(2)] nofit by blast
  qed blast
  then obtain st1 where f: "find_page ?tid ?sz 1 st = (Ok None, st1)" and k: "kept st st1" by blast
  let ?pid = "dm_pageCount (st_disk st1)"
  have n: "?pid = dm_pageCount (st_disk st)" using k by (simp add: kept_def)
  have hs1: "heap_store st1" using kept_heap_store [OF hs k] .
  have hs2: "heap_store (grow st1)" using grow_heap_store [OF hs1] small n by simp
  have nz: "?pid \<noteq> 0" using hs1 by (auto simp: heap_store_def word_le_nat_alt)
  have lt: "?pid < dm_pageCount (st_disk (grow st1))" using small n by (simp add: word_less_nat_alt unat_word_ariths)
  obtain i st2 p where o: "BufferPool_FetchPage ?pid (grow st1) = (Ok i, st2)" "pool.opened (grow st1) ?pid i st2 p" "page_ok p"
    using heap_open [OF hs2 nz lt] by blast
  have ok2: "page_ok (set_table ?tid (set_table ?tid p))" using set_table_facts(1) o(3) by blast
  have ins: "Page_InsertRow data (set_table ?tid (set_table ?tid p)) = (Err NoSpaceOnPage, set_table ?tid (set_table ?tid p))"
    using InsertRow_no_space [OF ok2 len(2)] nofit [OF ok2] by simp
  let ?st3 = "set_page i (set_table ?tid (set_table ?tid p)) (set_page i (set_table ?tid p) st2)"
  obtain st4 where u: "BufferPool_UnpinPage ?pid False ?st3 = (Ok (), st4)"
    using Unpin_returns(1) [of ?pid ?st3] by (metis prod.collapse)
  have "dm_pageCount (st_disk st2) = ?pid + 1" using pool.opened_page(4) [OF o(2)] by (simp add: pool_extent_def)
  moreover have "st_disk st4 = st_disk st2" using Unpin_returns(2) [of ?pid False ?st3] u by simp
  moreover have "HeapFile_InsertRow fl row h st = (Err (PageInsertFailed NoSpaceOnPage), st4)"
    using f free ser o(1) pool.opened_deref [OF o(2)] pool.opened_put [OF o(2)] ins u
    by (simp add: HeapFile_InsertRow_def DiskManager_AllocatePage_def grow_def insert_at_def)
  ultimately show ?thesis using n by auto
qed

section \<open>Durability\<close>

text \<open>Opening the database file again, with a fresh page cache.\<close>

definition reopen :: "nat \<Rightarrow> store \<Rightarrow> store" where
  "reopen capacity st = \<lparr>st_bp = NewBufferPool capacity,
     st_disk = NewDiskManager (dm_file (st_disk st)) (dm_rfail (st_disk st)) (dm_wfail (st_disk st))\<rparr>"

lemma view_reopen [simp]: "view (reopen c st) pid = disk_data (st_disk st) pid"
  by (simp add: view_def reopen_def NewBufferPool_def NewDiskManager_def Let_def disk_data_def)

lemma heap_upto_empty:
  assumes "\<And>k. a \<le> k \<Longrightarrow> k < b \<Longrightarrow> page_live tid (pg_of st (word_of_nat k)) = []"
  shows "heap_upto tid st a b = []"
  using assms by (auto simp: heap_upto_def)

lemma heap_upto_append: "a \<le> m \<Longrightarrow> m \<le> b \<Longrightarrow> heap_upto tid st a b = heap_upto tid st a m @ heap_upto tid st m b"
proof -
  assume "a \<le> m" "m \<le> b"
  then have "[a..<b] = [a..<m] @ [m..<b]" by (metis le_add_diff_inverse upt_add_eq_append)
  then show ?thesis by (simp add: heap_upto_def)
qed

lemma heap_upto_tail:
  assumes "a \<le> m" "a \<le> n" "\<And>k. min m n \<le> k \<Longrightarrow> k < max m n \<Longrightarrow> page_live tid (pg_of st (word_of_nat k)) = []"
  shows "heap_upto tid st a m = heap_upto tid st a n"
proof (cases "m \<le> n")
  case True
  then show ?thesis using heap_upto_append [OF assms(1) True, of tid st] heap_upto_empty [of m n tid st] assms(3) by simp
next
  case False
  then show ?thesis using heap_upto_append [of a n m tid st] heap_upto_empty [of n m tid st] assms(2,3) by simp
qed

lemma NewBufferPool_ok:
  assumes "disk_ok d"
  shows "pool_ok \<lparr>st_bp = NewBufferPool c, st_disk = d\<rparr>" "cached_below \<lparr>st_bp = NewBufferPool c, st_disk = d\<rparr>"
    "pins \<lparr>st_bp = NewBufferPool c, st_disk = d\<rparr> pid = 0"
  using assms
  by (auto simp: pool_ok_def map_ok_def lru_ok_def frame_ok_def NewBufferPool_def cached_below_def pins_def
      frame_pid_def)

lemma beyond_file:
  assumes "length (dm_file d) \<le> unat pid * PageSize"
  shows "disk_data d pid = pg_Data (NewPage pid)"
  using assms by (simp add: disk_data_def read_at_def)

lemma reopen_count:
  assumes "disk_ok (st_disk st)" "length (dm_file (st_disk st)) < 2 ^ 63"
  shows "unat (dm_pageCount (st_disk (reopen c st))) = max 1 (length (dm_file (st_disk st)) div PageSize)"
proof -
  let ?l = "length (dm_file (st_disk st))"
  have "unat (word_of_nat ?l :: u64) = ?l" using assms(2) by (simp add: unat_of_nat)
  then have "unat (word_of_nat ?l div word_of_nat PageSize :: u64) = ?l div PageSize"
    by (simp add: unat_div layout)
  then show ?thesis by (auto simp: reopen_def NewDiskManager_def Let_def word_unat_eq_iff)
qed

text \<open>The file never grows past the last page, so its size stays within the 63-bit offsets.\<close>

definition file_small :: "DiskManager \<Rightarrow> bool" where
  "file_small d \<longleftrightarrow> length (dm_file d) < 2 ^ 63"

lemma WritePage_file_small:
  assumes "file_small d" "page_wf p" "unat (pg_ID p) + 1 < 2 ^ 51"
  shows "file_small (snd (snd (DiskManager_WritePage p d)))"
proof -
  have "unat (page_offset (pg_ID p)) = unat (pg_ID p) * PageSize"
    using assms(3) by (intro unat_page_offset) (simp add: pid_ok_def)
  then show ?thesis using assms
    by (simp add: file_small_def DiskManager_WritePage_def Let_def length_write_at page_wf_def layout)
qed

lemma flush_file_small:
  "file_small d \<Longrightarrow> \<forall>f \<in> set fs. \<forall>p. fr_Page f = Some p \<longrightarrow> page_wf p \<and> unat (pg_ID p) + 1 < 2 ^ 51
    \<Longrightarrow> file_small (snd (snd (flush_from i fs d)))"
proof (induction fs arbitrary: i d)
  case (Cons f fs)
  have IH: "file_small d' \<Longrightarrow> file_small (snd (snd (flush_from j fs d')))" for j d'
    using Cons by simp
  have W: "file_small (snd (snd (DiskManager_WritePage p d)))" if "fr_Page f = Some p" for p
    using WritePage_file_small [OF Cons.prems(1)] Cons.prems(2) that by simp
  show ?case using Cons.prems(1)
    by (auto simp: split_beta intro!: IH W split: option.splits outcome.splits prod.splits)
qed simp

lemma FlushAll_file_small:
  assumes hs: "heap_store st" and f: "file_small (st_disk st)"
  shows "file_small (st_disk (snd (BufferPool_FlushAll st)))"
proof -
  have ok: "pool_ok st" and below: "cached_below st" and n: "unat (dm_pageCount (st_disk st)) < 2 ^ 51"
    using hs by (simp_all add: heap_store_def pool.at_rest_def pool_inv_def)
  have "page_wf p \<and> unat (pg_ID p) + 1 < 2 ^ 51"
    if x: "fr \<in> set (bp_frames (st_bp st))" "fr_Page fr = Some p" for fr p
  proof -
    obtain i where i: "i < length (bp_frames (st_bp st))" "bp_frames (st_bp st) ! i = fr"
      using x(1) by (auto simp: in_set_conv_nth)
    have "bp_pageMap (st_bp st) (pg_ID p) = Some i"
      using map_okI' ok i x(2) by (auto simp: pool_ok_def)
    then have "pg_ID p < dm_pageCount (st_disk st)" using below by (simp add: cached_below_def)
    moreover have "page_wf p" using ok x by (auto simp: pool_ok_def frame_ok_def cached_ok_def)
    ultimately show ?thesis using n by (simp add: word_less_nat_alt)
  qed
  then show ?thesis
    using flush_file_small [OF f, of "bp_frames (st_bp st)" 0] by (simp add: BufferPool_FlushAll_def split_beta)
qed

text \<open>A store in which every page but page 0 looks the same has the same tables.\<close>

lemma heap_page:
  assumes "heap_store st" "pid \<noteq> 0"
  shows "page_ok (pg_of st pid)"
proof (cases "pid < dm_pageCount (st_disk st)")
  case True
  then show ?thesis using assms by (simp add: heap_store_def)
next
  case False
  then have "pg_Data (pg_of st pid) = pg_Data (NewPage pid)"
    using assms(1) by (simp add: heap_store_def pg_of_def not_less)
  then show ?thesis using page_bytes(1) NewPage_ok by metis
qed

lemma heap_past_empty:
  assumes "heap_store st" "unat (dm_pageCount (st_disk st)) \<le> k" "k < 2 ^ 64"
  shows "page_live tid (pg_of st (word_of_nat k)) = []"
proof (rule page_live_NewPage)
  have "unat (word_of_nat k :: u64) = k" using assms(3) by (simp add: unat_of_nat)
  then show "pg_Data (pg_of st (word_of_nat k)) = pg_Data (NewPage (word_of_nat k))"
    using assms(1,2) by (simp add: heap_store_def pg_of_def word_le_nat_alt)
qed

lemma same_views_rows:
  assumes a: "heap_store a" and b: "heap_store b" and v: "\<And>pid. pid \<noteq> 0 \<Longrightarrow> view b pid = view a pid"
  shows "heap_rows tid b = heap_rows tid a"
proof -
  let ?n = "unat (dm_pageCount (st_disk a))" and ?m = "unat (dm_pageCount (st_disk b))"
  have one: "1 \<le> ?n" "1 \<le> ?m" using a b by (simp_all add: heap_store_def word_le_nat_alt)
  have lt: "?n < 2 ^ 64" "?m < 2 ^ 64" by (simp_all add: unat_u64_less)
  have same: "page_live tid (pg_of b (word_of_nat k)) = page_live tid (pg_of a (word_of_nat k))"
    if "1 \<le> k" "k < max ?m ?n" for k
  proof -
    have "(word_of_nat k :: u64) \<noteq> 0"
      using that lt by (auto simp: word_unat_eq_iff unat_of_nat)
    then show ?thesis using v by (simp add: pg_of_def)
  qed
  have empty: "page_live tid (pg_of a (word_of_nat k)) = []" if "min ?m ?n \<le> k" "k < max ?m ?n" for k
    using that lt same [of k] one heap_past_empty [OF a, of k tid] heap_past_empty [OF b, of k tid]
    by (cases "?m \<le> k") auto
  have "heap_upto tid b 1 ?m = heap_upto tid a 1 ?m" by (rule heap_upto_cong) (use same in auto)
  also have "\<dots> = heap_upto tid a 1 ?n" by (rule heap_upto_tail) (use one empty in auto)
  finally show ?thesis by (simp add: heap_rows_def)
qed

lemma reopen_rest:
  assumes "disk_ok (st_disk st)" "healthy st" "0 < c"
  shows "pool.at_rest (reopen c st)"
proof -
  let ?d = "st_disk (reopen c st)"
  have d: "disk_ok ?d" using assms(1) by (simp add: reopen_def NewDiskManager_def disk_ok_def Let_def)
  have "reopen c st = \<lparr>st_bp = NewBufferPool c, st_disk = ?d\<rparr>" by (simp add: reopen_def)
  then show ?thesis using NewBufferPool_ok [OF d, of c] assms(2,3)
    by (simp add: pool.at_rest_def pool_inv_def pool_ready_def healthy_def)
       (simp add: reopen_def NewDiskManager_def Let_def NewBufferPool_def)
qed

lemma reopen_past:
  assumes d: "disk_ok (st_disk st)" and f: "file_small (st_disk st)"
    and past: "dm_pageCount (st_disk (reopen c st)) \<le> pid"
  shows "disk_data (st_disk st) pid = pg_Data (NewPage pid)"
proof (rule beyond_file)
  obtain k where k: "length (dm_file (st_disk st)) = PageSize * k" using d by (auto simp: disk_ok_def)
  have "max 1 (length (dm_file (st_disk st)) div PageSize) \<le> unat pid"
    using past reopen_count [OF d, of c] f by (simp add: file_small_def word_le_nat_alt)
  then show "length (dm_file (st_disk st)) \<le> unat pid * PageSize" using k by (simp add: layout)
qed

lemma FlushAll_reopen:
  assumes hs: "heap_store st" and c: "0 < c" and f: "file_small (st_disk st)"
  shows "fst (BufferPool_FlushAll st) = Ok () \<and> heap_store (reopen c (snd (BufferPool_FlushAll st)))
    \<and> heap_rows tid (reopen c (snd (BufferPool_FlushAll st))) = heap_rows tid st"
proof -
  obtain r st' where fl: "BufferPool_FlushAll st = (r, st')" by fastforce
  let ?re = "reopen c st'"
  have ok: "pool_ok st" and h: "healthy st" using hs by (simp_all add: heap_store_def pool.at_rest_def pool_inv_def pool_ready_def)
  have F: "r = Ok ()" "pool_step st st'" "\<And>pid. pid \<noteq> 0 \<Longrightarrow> disk_data (st_disk st') pid = view st pid"
    using FlushAll_spec [OF ok] fl h by auto
  have small: "file_small (st_disk st')" using FlushAll_file_small [OF hs f] fl by simp
  have dok: "disk_ok (st_disk st')" and h': "healthy st'"
    using F(2) healthy_faults [OF h] by (auto simp: pool_step_def pool_ok_def)
  have vw: "view ?re pid = view st pid" if "pid \<noteq> 0" for pid using F(3) that by simp
  have page: "page_ok (pg_of ?re pid)" if "pid \<noteq> 0" for pid
    using heap_page [OF hs that] vw [OF that] by (simp add: pg_of_def)
  have m: "unat (dm_pageCount (st_disk ?re)) = max 1 (length (dm_file (st_disk st')) div PageSize)"
    using reopen_count [OF dok] small by (simp add: file_small_def)
  have "unat (dm_pageCount (st_disk ?re)) < 2 ^ 51"
    using m small by (simp add: file_small_def layout less_mult_imp_div_less)
  moreover have "1 \<le> dm_pageCount (st_disk ?re)" using m by (simp add: word_le_nat_alt)
  ultimately have hs': "heap_store ?re"
    using page reopen_rest [OF dok h' c] reopen_past [OF dok small, of c] by (simp add: heap_store_def)
  show ?thesis using F(1) fl hs' same_views_rows [OF hs hs' vw] by simp
qed

end
