(* ===== verification/Examples.thy ===== *)
theory Examples imports HeapSpec begin

text \<open>
  Concrete inputs on which the witnesses evaluate the properties: a small schema and row, a
  model of the floating-point parameter, and database files built from given pages.
\<close>

section \<open>Opening a file made of well-formed pages\<close>

definition disk_store :: "nat \<Rightarrow> page list \<Rightarrow> store" where
  "disk_store c ps = \<lparr>st_bp = NewBufferPool c,
     st_disk = NewDiskManager (concat (map pg_Data ps)) (\<lambda>_. False) (\<lambda>_. False)\<rparr>"

definition image_ok :: "page list \<Rightarrow> bool" where
  "image_ok ps \<longleftrightarrow> ps \<noteq> [] \<and> length ps < 2 ^ 51
     \<and> (\<forall>i < length ps. page_ok (ps ! i) \<and> h_PageID (Page_ReadHeader (ps ! i)) = word_of_nat i)"

lemma take_drop_concat:
  "\<forall>xs \<in> set xss. length xs = n \<Longrightarrow> i < length xss \<Longrightarrow> take n (drop (i * n) (concat xss)) = xss ! i"
proof (induction xss arbitrary: i)
  case (Cons xs xss)
  then show ?case by (cases i) simp_all
qed simp

lemma length_concat_uniform: "\<forall>xs \<in> set xss. length xs = n \<Longrightarrow> length (concat xss) = length xss * n"
  by (induction xss) simp_all

lemma image_length:
  assumes "image_ok ps"
  shows "length (concat (map pg_Data ps)) = length ps * PageSize"
  using assms length_concat_uniform [of "map pg_Data ps" PageSize]
  by (fastforce simp: image_ok_def in_set_conv_nth)

lemma image_page:
  assumes "image_ok ps" "i < length ps"
  shows "take PageSize (drop (i * PageSize) (concat (map pg_Data ps))) = pg_Data (ps ! i)"
proof -
  have "\<forall>xs \<in> set (map pg_Data ps). length xs = PageSize"
    using assms(1) by (auto simp: image_ok_def in_set_conv_nth)
  from take_drop_concat [OF this, of i] show ?thesis using assms(2) by simp
qed

lemma image_count:
  assumes "image_ok ps"
  shows "dm_pageCount (st_disk (disk_store c ps)) = word_of_nat (length ps)"
    "unat (dm_pageCount (st_disk (disk_store c ps))) = length ps"
proof -
  have b: "length ps < 2 ^ 51" "length ps > 0" using assms by (auto simp: image_ok_def)
  then have u: "unat (word_of_nat (length ps * PageSize) :: u64) = length ps * PageSize"
    by (simp only: unat_of_nat) (simp add: layout)
  have "unat (word_of_nat (length ps * PageSize) div word_of_nat PageSize :: u64) = length ps"
    using u by (simp add: unat_div layout)
  moreover have "unat (word_of_nat (length ps) :: u64) = length ps" using b by (simp add: unat_of_nat)
  ultimately have "word_of_nat (length ps * PageSize) div word_of_nat PageSize = (word_of_nat (length ps) :: u64)"
    by (simp add: word_unat_eq_iff)
  moreover have "(word_of_nat (length ps) :: u64) \<noteq> 0"
    using b by (simp add: word_unat_eq_iff unat_of_nat)
  ultimately show c: "dm_pageCount (st_disk (disk_store c ps)) = word_of_nat (length ps)"
    by (simp add: disk_store_def NewDiskManager_def image_length [OF assms] Let_def)
  show "unat (dm_pageCount (st_disk (disk_store c ps))) = length ps"
    unfolding c using b by (simp add: unat_of_nat)
qed

lemma image_view:
  assumes ok: "image_ok ps"
  shows "view (disk_store c ps) pid
    = (if unat pid < length ps then pg_Data (ps ! unat pid) else pg_Data (NewPage pid))"
proof -
  have f: "dm_file (st_disk (disk_store c ps)) = concat (map pg_Data ps)"
    by (simp add: disk_store_def NewDiskManager_def Let_def)
  have v: "view (disk_store c ps) pid = disk_data (st_disk (disk_store c ps)) pid"
    by (simp add: view_def disk_store_def NewBufferPool_def)
  show ?thesis
  proof (cases "unat pid < length ps")
    case True
    then have "page_ok (ps ! unat pid)" "h_PageID (Page_ReadHeader (ps ! unat pid)) = pid"
      using ok by (simp_all add: image_ok_def)
    moreover have "pg_Data (ps ! unat pid) \<noteq> []"
      using page_ok_length [OF \<open>page_ok (ps ! unat pid)\<close>] by (auto simp: layout)
    ultimately show ?thesis
      using True v by (simp add: disk_data_def read_at_def f image_page [OF ok] h_PageID_stored)
  next
    case False
    then show ?thesis unfolding v
      using beyond_file [of "st_disk (disk_store c ps)" pid] by (simp add: f image_length [OF ok])
  qed
qed

lemma image_store:
  assumes ok: "image_ok ps" and c: "0 < c"
  shows "heap_store (disk_store c ps)"
proof -
  let ?d = "st_disk (disk_store c ps)"
  note n = image_count [OF ok, of c]
  have len: "0 < length ps" "length ps < 2 ^ 51" using ok by (auto simp: image_ok_def)
  have d: "disk_ok ?d"
    using image_length [OF ok] by (simp add: disk_ok_def disk_store_def NewDiskManager_def Let_def)
  have eq: "disk_store c ps = \<lparr>st_bp = NewBufferPool c, st_disk = ?d\<rparr>" by (simp add: disk_store_def)
  have rest: "pool.at_rest (disk_store c ps)"
    using NewBufferPool_ok [OF d, of c] c eq
    by (auto simp: pool.at_rest_def pool_inv_def pool_ready_def healthy_def)
       (auto simp: disk_store_def NewDiskManager_def NewBufferPool_def Let_def)
  have page: "page_ok (pg_of (disk_store c ps) pid)" if "pid < dm_pageCount ?d" for pid
  proof -
    have l: "unat pid < length ps" using that n(2) by (simp add: word_less_nat_alt)
    then have "pg_Data (pg_of (disk_store c ps) pid) = pg_Data (ps ! unat pid)"
      by (simp add: pg_of_def image_view [OF ok])
    then show ?thesis using page_bytes(1) ok l by (metis image_ok_def)
  qed
  have above: "view (disk_store c ps) pid = pg_Data (NewPage pid)" if "dm_pageCount ?d \<le> pid" for pid
    using that n(2) by (simp add: image_view [OF ok] word_le_nat_alt)
  have "1 \<le> dm_pageCount ?d" using n(2) len by (simp add: word_le_nat_alt Suc_le_eq)
  then show ?thesis using rest page above n(2) len by (simp add: heap_store_def)
qed

section \<open>A table with one row\<close>

text \<open>The page a first row of table \<open>tid\<close> ends up on.\<close>

definition demo_page :: "u32 \<Rightarrow> byte list \<Rightarrow> page" where
  "demo_page tid d = snd (Page_InsertRow d (set_table tid (NewPage 1)))"

lemma demo_page_facts:
  assumes "0 < length d" "length d \<le> max_row"
  shows "page_ok (demo_page tid d)" "page_rows (demo_page tid d) = [Some d]" "table_of (demo_page tid d) = tid"
    "free_end (demo_page tid d) - free_off (demo_page tid d) = max_row - length d"
    "h_PageID (Page_ReadHeader (demo_page tid d)) = 1"
proof -
  let ?p = "set_table tid (NewPage 1)"
  note t = set_table_facts [OF NewPage_ok, of tid 1]
  have e: "free_end ?p - free_off ?p = 4072" using t by (simp add: free_end_def free_off_def ReadHeader_NewPage)
  have "length d + SlotSize \<le> free_end ?p - free_off ?p" using assms(2) e by (simp add: max_row_def layout)
  from InsertRow_refines [OF t(1) this] obtain p' where
    p': "Page_InsertRow d ?p = (Ok (h_RowCount (Page_ReadHeader ?p)), p')" "page_ok p'"
      "page_rows p' = page_rows ?p @ [if d = [] then None else Some d]"
      "h_TableID (Page_ReadHeader p') = h_TableID (Page_ReadHeader ?p)"
      "h_PageID (Page_ReadHeader p') = h_PageID (Page_ReadHeader ?p)"
      "free_end p' - free_off p' = free_end ?p - free_off ?p - (length d + SlotSize)"
    by blast
  have dp: "demo_page tid d = p'" by (simp add: demo_page_def p'(1))
  show "page_ok (demo_page tid d)" "page_rows (demo_page tid d) = [Some d]" "table_of (demo_page tid d) = tid"
    "free_end (demo_page tid d) - free_off (demo_page tid d) = max_row - length d"
    "h_PageID (Page_ReadHeader (demo_page tid d)) = 1"
    using p' dp assms t(2,3,9) e by (auto simp: page_rows_NewPage table_of_def ReadHeader_NewPage max_row_def layout)
qed

definition one_row_store :: "nat \<Rightarrow> u32 \<Rightarrow> byte list \<Rightarrow> store" where
  "one_row_store c tid d = disk_store c [NewPage 0, demo_page tid d]"

abbreviation demo_rid :: RID where "demo_rid \<equiv> \<lparr>rid_PageID = 1, rid_SlotID = 0\<rparr>"

lemma one_row_store:
  assumes d: "0 < length d" "length d \<le> max_row" and c: "0 < c"
  shows "heap_store (one_row_store c tid d)" "heap_rows tid (one_row_store c tid d) = [(demo_rid, d)]"
    "dm_pageCount (st_disk (one_row_store c tid d)) = 2"
    "free_end (pg_of (one_row_store c tid d) 1) - free_off (pg_of (one_row_store c tid d) 1) = max_row - length d"
    "length (dm_file (st_disk (one_row_store c tid d))) = 2 * PageSize"
proof -
  note f = demo_page_facts [OF d, of tid]
  have ok: "image_ok [NewPage 0, demo_page tid d]"
    using f NewPage_ok by (auto simp: image_ok_def less_Suc_eq ReadHeader_NewPage)
  show "heap_store (one_row_store c tid d)"
    unfolding one_row_store_def by (rule image_store [OF ok c])
  show cnt: "dm_pageCount (st_disk (one_row_store c tid d)) = 2"
    using image_count(1) [OF ok, of c] by (simp add: one_row_store_def)
  have v: "pg_Data (pg_of (one_row_store c tid d) 1) = pg_Data (demo_page tid d)"
    by (simp add: pg_of_def one_row_store_def image_view [OF ok])
  note b = page_bytes [OF v]
  have "page_live tid (pg_of (one_row_store c tid d) 1) = [(demo_rid, d)]"
    using b f by (simp add: page_live_def live_at_def pg_of_def)
  then show "heap_rows tid (one_row_store c tid d) = [(demo_rid, d)]"
    by (simp add: heap_rows_def heap_upto_def cnt upt_rec [of "Suc 0"])
  show "free_end (pg_of (one_row_store c tid d) 1) - free_off (pg_of (one_row_store c tid d) 1) = max_row - length d"
    using b f by simp
  show "length (dm_file (st_disk (one_row_store c tid d))) = 2 * PageSize"
    using image_length [OF ok] by (simp add: one_row_store_def disk_store_def NewDiskManager_def Let_def)
qed

text \<open>The schema, the row and its bytes.\<close>

definition demo_flt :: flt where
  "demo_flt = \<lparr>f_of_int = id, f_of_f32 = ucast, f_to_i32 = ucast, f_less = (\<lambda>a b. sint a < sint b), f_eq = (=),
     f_add = (+), f_div = (\<lambda>a b. word_of_nat (unat a div unat b)), f_fmt = (\<lambda>a. dec_int (sint a)),
     f_fmt32 = (\<lambda>a. dec_int (sint a)), f_fmt2 = (\<lambda>a. dec_int (sint a)),
     f_parse = (\<lambda>s. case Atoi s of Ok i \<Rightarrow> Some i | _ \<Rightarrow> None)\<rparr>"

definition demo_column :: "string \<Rightarrow> ColumnType \<Rightarrow> ColumnDef" where
  "demo_column n ty = \<lparr>col_Name = n, col_ColType = ty, col_Nullable = True, col_PrimaryKey = False,
     col_AutoIncrement = False, col_Unique = False, col_Default = [], col_Check = [], col_References = []\<rparr>"

definition demo_schema :: TableSchema where
  "demo_schema = \<lparr>sch_Name = ''users'', sch_Columns = [demo_column ''id'' TypeInt, demo_column ''name'' TypeText]\<rparr>"

definition demo_row :: Row where
  "demo_row = \<lparr>row_RID = InvalidRID, row_Values = [VInt32 7, VString ''bob'']\<rparr>"

definition demo_bytes :: "byte list" where
  "demo_bytes = [0, 7, 0, 0, 0, 0, 0, 0, 0, 0, 0, 3, 0, 98, 111, 98]"

lemma demo_serialized: "SerializeRow demo_flt demo_row demo_schema = Ok demo_bytes"
  by code_simp

definition demo_heap :: HeapFile where "demo_heap = NewHeapFile demo_schema"

definition demo_store :: store where
  "demo_store = one_row_store 2 (HeapFile_TableID demo_heap) demo_bytes"

lemma demo_heap_simps [simp]: "hf_Schema demo_heap = demo_schema" "\<not> hf_locked demo_heap"
  by (simp_all add: demo_heap_def NewHeapFile_def)

lemma demo_store:
  "heap_store demo_store" "heap_rows (HeapFile_TableID demo_heap) demo_store = [(demo_rid, demo_bytes)]"
  "dm_pageCount (st_disk demo_store) = 2" "length (dm_file (st_disk demo_store)) = 8192"
  "free_end (pg_of demo_store 1) - free_off (pg_of demo_store 1) = 4052"
  using one_row_store [of demo_bytes 2 "HeapFile_TableID demo_heap"]
  by (simp_all add: demo_store_def demo_bytes_def max_row_def layout)

end
