(* ===== verification/StorageProps.thy ===== *)
theory StorageProps imports Examples begin

text \<open>
  The properties of the storage engine: rows survive serialization, pages implement lists of
  rows, the page cache never changes what a page shows, a heap file implements a table, and
  what was flushed is what a restart finds. The proofs instantiate the specifications of the
  component theories; each witness runs a property on the inputs of \<open>Examples\<close>.
\<close>

section \<open>Tables\<close>

text \<open>C12: Inserting a row whose encoding has 1 to 4068 bytes into a healthy store succeeds and adds
  exactly that row to the table, keeping all its other rows in order and every other table
  unchanged; the store stays well formed.\<close>

theorem insert_adds_one_row:
  assumes "heap_store st" "\<not> hf_locked h" "SerializeRow fl row (hf_Schema h) = Ok data"
    and "data \<noteq> []" "length data \<le> max_row" "unat (dm_pageCount (st_disk st)) + 1 < 2 ^ 51"
  shows "\<exists>rid st'. HeapFile_InsertRow fl row h st = (Ok rid, st') \<and> heap_store st'
    \<and> (\<exists>A B. heap_rows (HeapFile_TableID h) st = A @ B \<and> heap_rows (HeapFile_TableID h) st' = A @ (rid, data) # B)
    \<and> (\<forall>t. t \<noteq> HeapFile_TableID h \<longrightarrow> heap_rows t st' = heap_rows t st)"
  using InsertRow_adds [OF assms] by (simp add: row_added_def)

lemma demo_bytes_small: "demo_bytes \<noteq> []" "length demo_bytes \<le> max_row"
  by (simp_all add: demo_bytes_def max_row_def layout)

theorem insert_adds_one_row_witness:
  "\<exists>rid st'. HeapFile_InsertRow demo_flt demo_row demo_heap demo_store = (Ok rid, st') \<and> heap_store st'
    \<and> (\<exists>A B. [(demo_rid, demo_bytes)] = A @ B \<and> heap_rows (HeapFile_TableID demo_heap) st' = A @ (rid, demo_bytes) # B)"
  using insert_adds_one_row [of demo_store demo_heap demo_flt demo_row demo_bytes]
    demo_store demo_serialized demo_bytes_small by auto

text \<open>C13: A full scan returns exactly the rows of the table that decode with its schema, in page and
  slot order and with their row identifiers, and changes no page: every page but page 0, which belongs to no table,
  shows the same 4096 bytes before and after, in the cache or on disk, header and free space included, and the
  number of pages is the same.\<close>

theorem scan_returns_the_table:
  assumes "heap_store st" "\<not> hf_locked h"
  shows "\<exists>st'. HeapFile_ScanFull h st = (Ok (decode_rows (hf_Schema h) (heap_rows (HeapFile_TableID h) st)), st')
    \<and> heap_store st' \<and> (\<forall>t. heap_rows t st' = heap_rows t st)
    \<and> dm_pageCount (st_disk st') = dm_pageCount (st_disk st) \<and> (\<forall>q. q \<noteq> 0 \<longrightarrow> view st' q = view st q)"
  using ScanFull_rows [OF assms] kept_heap_store kept_rows assms(1) unfolding kept_def by blast

lemma demo_decoded: "DeserializeRow demo_bytes demo_schema = Ok demo_row"
  by code_simp

theorem scan_returns_the_table_witness:
  "\<exists>st'. HeapFile_ScanFull demo_heap demo_store = (Ok [demo_row\<lparr>row_RID := demo_rid\<rparr>], st') \<and> heap_store st'"
  using scan_returns_the_table [of demo_store demo_heap] demo_store demo_decoded
  by (auto simp: decode_rows_def decode_def)

text \<open>Reading a row of the table by its identifier returns that row decoded.\<close>

theorem get_reads_the_row:
  assumes "heap_store st" "\<not> hf_locked h" "(rid, d) \<in> set (heap_rows (HeapFile_TableID h) st)"
  shows "\<exists>st'. HeapFile_GetRow rid h st = (DeserializeRow d (hf_Schema h), st')
    \<and> heap_store st' \<and> (\<forall>t. heap_rows t st' = heap_rows t st)"
  using GetRow_reads [OF assms] kept_heap_store kept_rows assms(1) by blast

theorem get_reads_the_row_witness:
  "\<exists>st'. HeapFile_GetRow demo_rid demo_heap demo_store = (Ok demo_row, st') \<and> heap_store st'"
  using get_reads_the_row [of demo_store demo_heap demo_rid demo_bytes] demo_store demo_decoded by auto

text \<open>Deleting a row of the table removes it and nothing else.\<close>

theorem delete_removes_the_row:
  assumes "heap_store st" "\<not> hf_locked h" "(rid, d) \<in> set (heap_rows tid st)"
  shows "\<exists>st'. HeapFile_DeleteRow rid h st = (Ok (), st') \<and> heap_store st'
    \<and> heap_rows tid st' = filter (\<lambda>x. fst x \<noteq> rid) (heap_rows tid st)
    \<and> (\<forall>t. t \<noteq> tid \<longrightarrow> heap_rows t st' = heap_rows t st)"
  using DeleteRow_removes [OF assms] by (simp add: row_removed_def)

theorem delete_removes_the_row_witness:
  "\<exists>st'. HeapFile_DeleteRow demo_rid demo_heap demo_store = (Ok (), st')
    \<and> heap_rows (HeapFile_TableID demo_heap) st' = []"
  using delete_removes_the_row [of demo_store demo_heap demo_rid demo_bytes "HeapFile_TableID demo_heap"]
    demo_store by auto

text \<open>Updating a row whose new encoding fits into the free space of its page deletes the old row
  and adds the new one to the same page, under a new identifier; other tables are unchanged.\<close>

theorem update_moves_the_row:
  assumes "heap_store st" "\<not> hf_locked h" "(rid, d) \<in> set (heap_rows tid st)"
    and "SerializeRow fl row (hf_Schema h) = Ok data" "data \<noteq> []"
    and "length data + SlotSize \<le> free_end (pg_of st (rid_PageID rid)) - free_off (pg_of st (rid_PageID rid))"
  shows "\<exists>st'. HeapFile_UpdateRow fl rid row h st = (Ok (), st') \<and> heap_store st'
    \<and> (\<exists>A B rid'. filter (\<lambda>x. fst x \<noteq> rid) (heap_rows tid st) = A @ B
         \<and> heap_rows tid st' = A @ (rid', data) # B \<and> rid_PageID rid' = rid_PageID rid)
    \<and> (\<forall>t. t \<noteq> tid \<longrightarrow> heap_rows t st' = heap_rows t st)"
  using UpdateRow_moves [OF assms] by (simp add: row_moved_def)

theorem update_moves_the_row_witness:
  "\<exists>st' rid'. HeapFile_UpdateRow demo_flt demo_rid demo_row demo_heap demo_store = (Ok (), st')
    \<and> heap_rows (HeapFile_TableID demo_heap) st' = [(rid', demo_bytes)] \<and> rid_PageID rid' = 1"
  using update_moves_the_row [of demo_store demo_heap demo_rid demo_bytes "HeapFile_TableID demo_heap"
      demo_flt demo_row demo_bytes] demo_store demo_serialized
  by (auto simp: demo_bytes_def layout)

text \<open>C35: When the new encoding does not fit into the free space left on the row's page, UpdateRow
  never returns: it calls InsertRow while holding the mutex that InsertRow takes first. The
  space of the deleted old row does not count, it is never reclaimed.\<close>

theorem update_deadlocks_on_a_full_page:
  assumes "heap_store st" "\<not> hf_locked h" "(rid, d) \<in> set (heap_rows tid st)"
    and "SerializeRow fl row (hf_Schema h) = Ok data" "length data \<le> 65531"
    and "free_end (pg_of st (rid_PageID rid)) - free_off (pg_of st (rid_PageID rid)) < length data + SlotSize"
  shows "fst (HeapFile_UpdateRow fl rid row h st) = Hang"
  using UpdateRow_deadlocks [OF assms] .

text \<open>A row of 4064 bytes fills its page, and an update to the small row of the examples finds no room.\<close>

definition full_row_bytes :: "byte list" where "full_row_bytes = replicate 4064 1"

definition full_store :: store where
  "full_store = one_row_store 2 (HeapFile_TableID demo_heap) full_row_bytes"

lemma length_full_row [simp]: "length full_row_bytes = 4064"
  by (simp only: full_row_bytes_def length_replicate)

theorem update_deadlocks_on_a_full_page_witness:
  "fst (HeapFile_UpdateRow demo_flt demo_rid demo_row demo_heap full_store) = Hang"
proof (rule update_deadlocks_on_a_full_page [where d = "full_row_bytes" and tid = "HeapFile_TableID demo_heap"])
  note f = one_row_store [of "full_row_bytes" 2 "HeapFile_TableID demo_heap", folded full_store_def]
  show "heap_store full_store" "\<not> hf_locked demo_heap"
    "(demo_rid, full_row_bytes) \<in> set (heap_rows (HeapFile_TableID demo_heap) full_store)"
    using f by (simp_all add: max_row_def layout)
  show "SerializeRow demo_flt demo_row (hf_Schema demo_heap) = Ok demo_bytes" using demo_serialized by simp
  show "length demo_bytes \<le> 65531" by (simp add: demo_bytes_def)
  show "free_end (pg_of full_store (rid_PageID demo_rid)) - free_off (pg_of full_store (rid_PageID demo_rid))
      < length demo_bytes + SlotSize"
    using f by (simp add: demo_bytes_def max_row_def layout)
qed

text \<open>A row of 4069 to 65531 bytes is refused with an error, and every such attempt uses up one
  page number: the page count grows by one although no row was stored.\<close>

theorem oversized_insert_fails:
  assumes "heap_store st" "\<not> hf_locked h" "SerializeRow fl row (hf_Schema h) = Ok data"
    and "max_row < length data" "length data \<le> 65531" "unat (dm_pageCount (st_disk st)) + 1 < 2 ^ 51"
  shows "\<exists>st'. HeapFile_InsertRow fl row h st = (Err (PageInsertFailed NoSpaceOnPage), st')
    \<and> dm_pageCount (st_disk st') = dm_pageCount (st_disk st) + 1"
  using InsertRow_oversized [OF assms] .

definition long_text :: string where "long_text = replicate 5000 (CHR ''a'')"

lemma length_long_text [simp]: "length long_text = 5000"
  by (simp only: long_text_def length_replicate)

definition long_row :: Row where
  "long_row = \<lparr>row_RID = InvalidRID, row_Values = [VInt32 7, VString long_text]\<rparr>"

lemma long_row_serialized:
  "\<exists>data. SerializeRow demo_flt long_row demo_schema = Ok data \<and> length data = 5013"
proof -
  let ?cols = "sch_Columns demo_schema" and ?vals = "row_Values long_row"
  have eta: "\<lparr>row_RID = InvalidRID, row_Values = ?vals\<rparr> = long_row"
    "\<lparr>sch_Name = sch_Name demo_schema, sch_Columns = ?cols\<rparr> = demo_schema"
    by (simp_all add: long_row_def)
  have "row_fits ?cols ?vals" by (simp add: row_fits_def demo_schema_def long_row_def demo_column_def)
  from SerializeRow_layout [OF this, of demo_flt InvalidRID "sch_Name demo_schema"]
  obtain nb offs where ser: "SerializeRow demo_flt long_row demo_schema
      = Ok (nb @ fixed_parts 0 ?cols ?vals @ concat (map put16 offs) @ concat (map var_part ?vals))"
    and nb: "length nb = (length ?cols + 7) div 8" and offs: "length offs = length ?cols"
    unfolding eta by blast
  have n: "length ?cols = 2" by (simp add: demo_schema_def)
  have "length (fixed_parts 0 ?cols ?vals) = 6"
    by (simp add: demo_schema_def demo_column_def long_row_def fixed_part_def)
  moreover have "texts_size ?vals = 5002" by (simp add: texts_size_def long_row_def)
  ultimately have "length (nb @ fixed_parts 0 ?cols ?vals @ concat (map put16 offs) @ concat (map var_part ?vals)) = 5013"
    using nb offs n by (simp only: length_append length_offset_table length_var_parts)
  then show ?thesis using ser by blast
qed

theorem oversized_insert_fails_witness:
  "\<exists>st'. HeapFile_InsertRow demo_flt long_row demo_heap demo_store = (Err (PageInsertFailed NoSpaceOnPage), st')
    \<and> dm_pageCount (st_disk st') = 3"
proof -
  obtain data where d: "SerializeRow demo_flt long_row demo_schema = Ok data" "length data = 5013"
    using long_row_serialized by blast
  then show ?thesis
    using oversized_insert_fails [of demo_store demo_heap demo_flt long_row data] demo_store
    by (simp add: max_row_def layout)
qed

text \<open>C2: FlushAll on a healthy store succeeds, and opening the flushed file again with an empty cache
  of any size finds every table with exactly the same rows.\<close>

theorem flushed_tables_survive_a_restart:
  assumes "heap_store st" "0 < capacity" "length (dm_file (st_disk st)) < 2 ^ 63"
  shows "fst (BufferPool_FlushAll st) = Ok () \<and> heap_store (reopen capacity (snd (BufferPool_FlushAll st)))
    \<and> heap_rows tid (reopen capacity (snd (BufferPool_FlushAll st))) = heap_rows tid st"
  using FlushAll_reopen assms by (simp add: file_small_def)

theorem flushed_tables_survive_a_restart_witness:
  "heap_rows (HeapFile_TableID demo_heap) (reopen 5 (snd (BufferPool_FlushAll demo_store))) = [(demo_rid, demo_bytes)]"
  using flushed_tables_survive_a_restart [of demo_store 5 "HeapFile_TableID demo_heap"] demo_store by simp

text \<open>The number of a table is a hash of its name, and names can collide: whatever the store
  holds, a scan of a table Aa and a scan of a table BB with the same columns return the same rows.\<close>

theorem colliding_tables_share_rows:
  assumes "heap_store st" "h = NewHeapFile \<lparr>sch_Name = ''Aa'', sch_Columns = cols\<rparr>"
    and "h' = NewHeapFile \<lparr>sch_Name = ''BB'', sch_Columns = cols\<rparr>"
  shows "\<exists>st1 st2 rows. HeapFile_ScanFull h st = (Ok rows, st1) \<and> HeapFile_ScanFull h' st = (Ok rows, st2)"
proof -
  have "hashString ''Aa'' = hashString ''BB''" by (simp add: hashString_ascii code_def)
  then have "HeapFile_TableID h = HeapFile_TableID h'"
    by (simp add: assms(2,3) HeapFile_TableID_def NewHeapFile_def)
  moreover have "decode_rows (hf_Schema h) = decode_rows (hf_Schema h')"
    by (simp add: assms(2,3) NewHeapFile_def decode_rows_def decode_def [abs_def] DeserializeRow_def fun_eq_iff)
  moreover have "\<not> hf_locked h" "\<not> hf_locked h'" by (simp_all add: assms(2,3) NewHeapFile_def)
  ultimately show ?thesis
    using ScanFull_rows [OF assms(1), of h] ScanFull_rows [OF assms(1), of h'] by metis
qed

theorem colliding_tables_share_rows_witness:
  "\<exists>st1 st2 rows. HeapFile_ScanFull (NewHeapFile \<lparr>sch_Name = ''Aa'', sch_Columns = []\<rparr>) demo_store = (Ok rows, st1)
    \<and> HeapFile_ScanFull (NewHeapFile \<lparr>sch_Name = ''BB'', sch_Columns = []\<rparr>) demo_store = (Ok rows, st2)"
  using colliding_tables_share_rows [OF _ refl refl, of demo_store "[]"] demo_store by simp

section \<open>Pages, rows, cache and disk\<close>

text \<open>C14: Encoding a row of at least one column whose values have the types of the columns (or are NULL) and whose
  texts need less than 64 KiB succeeds, and decoding the bytes gives back exactly these values. (A row without
  columns is encoded as nothing, and nothing does not decode.)\<close>

theorem row_encoding_roundtrip:
  assumes "row_fits cols vals" "cols \<noteq> []" "texts_size vals < 65536"
  shows "\<exists>data. SerializeRow fl \<lparr>row_RID = r, row_Values = vals\<rparr> \<lparr>sch_Name = n, sch_Columns = cols\<rparr> = Ok data
    \<and> DeserializeRow data \<lparr>sch_Name = m, sch_Columns = cols\<rparr> = Ok \<lparr>row_RID = InvalidRID, row_Values = vals\<rparr>"
  using row_roundtrip_fits [OF assms] .

definition null_row :: "val list" where
  "null_row = [VNil, VString ''a b'', VBool True, VInt32 (- 5), VFloat64 9, VNil, VString [], VBool False, VNil]"

definition null_columns :: "ColumnDef list" where
  "null_columns = map (demo_column ''c'') [TypeInt, TypeText, TypeBool, TypeInt, TypeFloat, TypeText, TypeText, TypeBool, TypeOther 9]"

theorem row_encoding_roundtrip_witness:
  "\<exists>data. SerializeRow demo_flt \<lparr>row_RID = InvalidRID, row_Values = null_row\<rparr> \<lparr>sch_Name = ''t'', sch_Columns = null_columns\<rparr> = Ok data
    \<and> DeserializeRow data \<lparr>sch_Name = ''t'', sch_Columns = null_columns\<rparr> = Ok \<lparr>row_RID = InvalidRID, row_Values = null_row\<rparr>"
  by (rule row_encoding_roundtrip)
     (simp_all add: null_row_def null_columns_def demo_column_def row_fits_def texts_size_def)

text \<open>Inserting bytes that fit into a page appends them to the page's list of rows (an empty
  byte string reads back as a deleted row), takes their length and one slot of the free space,
  and keeps the page well formed and its page number and table number unchanged.\<close>

theorem page_insert_appends:
  assumes "page_ok p" "length d + SlotSize \<le> free_end p - free_off p"
  shows "\<exists>p'. Page_InsertRow d p = (Ok (h_RowCount (Page_ReadHeader p)), p') \<and> page_ok p'
    \<and> page_rows p' = page_rows p @ [if d = [] then None else Some d]
    \<and> h_TableID (Page_ReadHeader p') = h_TableID (Page_ReadHeader p)
    \<and> h_PageID (Page_ReadHeader p') = h_PageID (Page_ReadHeader p)
    \<and> free_end p' - free_off p' = free_end p - free_off p - (length d + SlotSize)
    \<and> pg_ID p' = pg_ID p \<and> pg_Dirty p'"
  using InsertRow_refines [OF assms] .

lemma NewPage_free: "free_end (NewPage i) - free_off (NewPage i) = 4072"
  by (simp add: free_end_def free_off_def ReadHeader_NewPage)

theorem page_insert_appends_witness:
  "\<exists>p'. Page_InsertRow demo_bytes (NewPage 3) = (Ok 0, p') \<and> page_rows p' = [Some demo_bytes]"
  using page_insert_appends [OF NewPage_ok, of demo_bytes 3]
  by (simp add: NewPage_free page_rows_NewPage ReadHeader_NewPage demo_bytes_def layout) blast

text \<open>CanFit adds the slot size in 16 bits, so a row of 65532 to 65535 bytes seems to fit, and
  inserting it panics on the slice bounds instead of returning the error for a full page.\<close>

theorem huge_row_panics:
  assumes "page_ok p" "65532 \<le> length d" "length d \<le> 65535" "length d - 65532 \<le> free_end p - free_off p"
  shows "Page_CanFit p (word_of_nat (length d)) \<and> Page_InsertRow d p = (Panic, p)"
  using InsertRow_wrapped_size [OF assms] CanFit_wraps [OF assms(1-3)] assms(4) by simp

definition huge_bytes :: "byte list" where "huge_bytes = replicate 65533 0"

lemma length_huge_bytes [simp]: "length huge_bytes = 65533"
  by (simp only: huge_bytes_def length_replicate)

theorem huge_row_panics_witness:
  "Page_InsertRow huge_bytes (NewPage 1) = (Panic, NewPage 1)"
  using huge_row_panics [OF NewPage_ok, of huge_bytes 1] by (simp add: NewPage_free)

text \<open>C15: Whatever the page cache does to find a frame (hit, free frame, eviction with write-back, I/O
  errors), FetchPage neither panics nor hangs and keeps the cache consistent; on success the
  page is pinned once more in the returned frame, and in every case every page but the
  reserved page 0 shows the same bytes as before.\<close>

theorem fetch_preserves_every_page:
  assumes "pool_ok st" "pid_ok pid" "BufferPool_FetchPage pid st = (r, st')"
  shows "pool_ok st' \<and> (\<forall>q. q \<noteq> 0 \<longrightarrow> view st' q = view st q)
    \<and> ((\<exists>i. r = Ok i \<and> bp_pageMap (st_bp st') pid = Some i \<and> pins st' = (pins st)(pid := pins st pid + 1))
       \<or> (\<exists>e. r = Err e \<and> pins st' = pins st))"
  using FetchPage_spec [OF assms(1,2)] assms(3)
  by (cases r) (auto simp: fetched_def pool_step_def same_view_def)

lemma demo_pool_ok: "pool_ok demo_store" "healthy demo_store" "quiet demo_store" "bp_frames (st_bp demo_store) \<noteq> []"
  using demo_store(1) by (simp_all add: heap_store_def pool.at_rest_def pool_inv_def pool_ready_def quiet_def)

theorem fetch_preserves_every_page_witness:
  "\<exists>r st'. BufferPool_FetchPage 1 demo_store = (r, st') \<and> pool_ok st' \<and> view st' 1 = view demo_store 1"
proof -
  obtain r st' where f: "BufferPool_FetchPage 1 demo_store = (r, st')" by fastforce
  then show ?thesis using fetch_preserves_every_page [OF demo_pool_ok(1) _ f] by (simp add: pid_ok_def)
qed

text \<open>With at least one frame, no page pinned and no I/O faults, FetchPage succeeds for every page.\<close>

theorem fetch_succeeds_at_rest:
  assumes "pool_ok st" "pid_ok pid" "healthy st" "quiet st" "bp_frames (st_bp st) \<noteq> []"
  shows "\<exists>i st'. BufferPool_FetchPage pid st = (Ok i, st') \<and> bp_pageMap (st_bp st') pid = Some i \<and> pins st' pid = 1"
  using FetchPage_succeeds [OF assms] assms(4) by (auto simp: fetched_def quiet_def)

theorem fetch_succeeds_at_rest_witness:
  "\<exists>i st'. BufferPool_FetchPage 77 demo_store = (Ok i, st') \<and> bp_pageMap (st_bp st') 77 = Some i \<and> pins st' 77 = 1"
  by (rule fetch_succeeds_at_rest) (use demo_pool_ok in \<open>simp_all add: pid_ok_def\<close>)

text \<open>A page that was written is read back unchanged, and a read of any other page (but page 0)
  gives what it gave before, also when the write extended the file past a gap.\<close>

theorem disk_write_then_read:
  assumes "disk_ok dm" "page_wf p" "pid_ok (pg_ID p)" "\<not> dm_wfail dm (pg_ID p)" "\<And>q. \<not> dm_rfail dm q"
  shows "\<exists>dm'. DiskManager_WritePage p dm = (Ok (), p\<lparr>pg_Dirty := False\<rparr>, dm')
    \<and> DiskManager_ReadPage (pg_ID p) dm' = Ok (p\<lparr>pg_Dirty := False\<rparr>)
    \<and> (\<forall>q. q \<noteq> pg_ID p \<longrightarrow> q \<noteq> 0 \<longrightarrow> pid_ok q \<longrightarrow> DiskManager_ReadPage q dm' = DiskManager_ReadPage q dm)"
proof -
  obtain dm' where w: "DiskManager_WritePage p dm = (Ok (), p\<lparr>pg_Dirty := False\<rparr>, dm')" "disk_ok dm'"
      "disk_data dm' (pg_ID p) = pg_Data p" "\<And>q. q \<noteq> pg_ID p \<Longrightarrow> q \<noteq> 0 \<Longrightarrow> disk_data dm' q = disk_data dm q"
      "dm_rfail dm' = dm_rfail dm"
    using WritePage_spec [OF assms(1-4)] by blast
  have "DiskManager_ReadPage q dm' = Ok \<lparr>pg_Data = disk_data dm' q, pg_ID = q, pg_Dirty = False\<rparr>" if "pid_ok q" for q
    using ReadPage_disk_data [OF w(2) that] w(5) assms(5) by simp
  moreover have "DiskManager_ReadPage q dm = Ok \<lparr>pg_Data = disk_data dm q, pg_ID = q, pg_Dirty = False\<rparr>" if "pid_ok q" for q
    using ReadPage_disk_data [OF assms(1) that assms(5)] .
  ultimately show ?thesis using w(1,3,4) assms(3) by auto
qed

theorem disk_write_then_read_witness:
  "\<exists>dm'. DiskManager_WritePage (NewPage 9) (NewDiskManager [] (\<lambda>_. False) (\<lambda>_. False)) = (Ok (), NewPage 9, dm')
    \<and> DiskManager_ReadPage 9 dm' = Ok (NewPage 9)"
proof -
  have wf: "page_wf (NewPage 9)" by (rule NewPage_wf)
  have c: "(NewPage 9)\<lparr>pg_Dirty := False\<rparr> = NewPage 9" by (simp add: page.equality)
  show ?thesis
    using disk_write_then_read [of "NewDiskManager [] (\<lambda>_. False) (\<lambda>_. False)" "NewPage 9", OF _ wf]
    by (auto simp: disk_ok_def pid_ok_def NewDiskManager_def c)
qed

end
