(* ===== verification/Lexer.thy ===== *)
theory Lexer imports GoLib begin

text \<open>
  \<^verbatim>\<open>pkg/parser/lexer.go\<close>: the tokenizer. The lexer state is the remaining input together with
  the number of bytes already consumed (\<^verbatim>\<open>l.pos\<close>); each branch of the loop consumes at least
  one byte.
\<close>

datatype TokenType = TokenEOF | TokenKeyword | TokenIdentifier | TokenNumber | TokenString
  | TokenOperator | TokenPunctuation

record Token =
  tk_Type :: TokenType
  tk_Value :: string

abbreviation tok :: "TokenType \<Rightarrow> string \<Rightarrow> Token" where
  "tok t v \<equiv> \<lparr>tk_Type = t, tk_Value = v\<rparr>"

datatype parse_err =
    UnclosedString
  | UnexpectedChar char nat
  | EmptyQuery
  | ExpectedCommand Token
  | UnknownCommand string
  | Expected string
  | ExpectedTableName
  | ExpectedColumnName
  | ExpectedColumnType
  | ExpectedIndexName
  | ExpectedJoinTable
  | ExpectedOrderColumn
  | ExpectedNumber string
  | BadNumber string string
  | ExpectedOperator Token
  | UnexpectedExpression Token
  | ExpectedColumnOrStar

definition sql_keywords :: "string list" where
  "sql_keywords = [''SELECT'', ''FROM'', ''WHERE'', ''INSERT'', ''INTO'', ''VALUES'',
     ''CREATE'', ''TABLE'', ''DROP'', ''INDEX'', ''ON'', ''INT'', ''TEXT'', ''FLOAT'', ''BOOL'',
     ''AND'', ''OR'', ''NOT'', ''NULL'', ''PRIMARY'', ''KEY'', ''UNIQUE'',
     ''DEFAULT'', ''CHECK'', ''REFERENCES'', ''UPDATE'', ''SET'', ''DELETE'',
     ''JOIN'', ''INNER'', ''LEFT'', ''RIGHT'', ''ORDER'', ''BY'', ''ASC'', ''DESC'',
     ''LIMIT'', ''OFFSET'', ''COUNT'', ''SUM'', ''AVG'', ''MIN'', ''MAX'',
     ''IF'', ''EXISTS'', ''AUTOINCREMENT'', ''LIKE'']"

definition ws_char :: "char \<Rightarrow> bool" where
  "ws_char c \<longleftrightarrow> code c \<in> {32, 9, 10, 13}"

definition quote_char :: "char \<Rightarrow> bool" where
  "quote_char c \<longleftrightarrow> code c = 39 \<or> code c = 34"

definition num_char :: "char \<Rightarrow> bool" where
  "num_char c \<longleftrightarrow> is_digit c \<or> c = CHR ''.''"

definition word_start :: "char \<Rightarrow> bool" where
  "word_start c \<longleftrightarrow> is_lower c \<or> is_upper c \<or> c = CHR ''_'' \<or> c = CHR ''*''"

definition word_char :: "char \<Rightarrow> bool" where
  "word_char c \<longleftrightarrow> is_lower c \<or> is_upper c \<or> is_digit c \<or> c = CHR ''_'' \<or> c = CHR ''.'' \<or> c = CHR ''*''"

definition starts :: "(char \<Rightarrow> bool) \<Rightarrow> string \<Rightarrow> bool" where
  "starts P s = (case s of [] \<Rightarrow> False | c # _ \<Rightarrow> P c)"

definition is_newline :: "char \<Rightarrow> bool" where "is_newline c \<longleftrightarrow> code c = 10"

lemma ws_char_cases [code]: "ws_char c = (c = CHR '' '' \<or> c = CHR 0x09 \<or> c = CHR 0x0A \<or> c = CHR 0x0D)"
  by (simp add: ws_char_def code_is)

lemma quote_char_cases [code]: "quote_char c = (c = CHR 0x27 \<or> c = CHR 0x22)"
  by (simp add: quote_char_def code_is)

lemma is_newline_cases [code]: "is_newline c = (c = CHR 0x0A)"
  by (simp add: is_newline_def code_is)

definition classify_word :: "string \<Rightarrow> Token" where
  "classify_word word =
     (let upper = ToUpper word in
      if upper = ''TRUE'' \<or> upper = ''FALSE'' \<or> upper = ''NULL'' then tok TokenString word
      else if \<not> Contains word ''.'' \<and> upper \<in> set sql_keywords then tok TokenKeyword upper
      else if word = ''*'' then tok TokenOperator ''*''
      else tok TokenIdentifier word)"

definition emit :: "Token \<Rightarrow> (parse_err, Token list) outcome \<Rightarrow> (parse_err, Token list) outcome" where
  "emit t r = bind_out r (\<lambda>ts. Ok (t # ts))"

lemma dropWhile_less: "length (dropWhile P xs) < Suc (length xs)"
  by (simp add: le_imp_less_Suc length_dropWhile_le)

lemma tl_dropWhile_less: "length (dropWhile P xs) - Suc 0 < Suc (length xs)"
  using dropWhile_less [of P xs] by linarith

function lex_from :: "nat \<Rightarrow> string \<Rightarrow> (parse_err, Token list) outcome" where
  "lex_from pos [] = Ok []"
| "lex_from pos (ch # rest) =
     (if ws_char ch then lex_from (pos + 1) rest
      else if ch = CHR ''-'' \<and> starts (\<lambda>c. c = CHR ''-'') rest then
        lex_from (pos + length (takeWhile (\<lambda>c. \<not> is_newline c) (ch # rest)))
          (dropWhile (\<lambda>c. \<not> is_newline c) rest)
      else if quote_char ch then
        (let body = takeWhile (\<lambda>c. c \<noteq> ch) rest; after = dropWhile (\<lambda>c. c \<noteq> ch) rest in
         if after = [] then Err UnclosedString
         else emit (tok TokenString body) (lex_from (pos + length body + 2) (tl after)))
      else if is_digit ch \<or> (ch = CHR ''.'' \<and> starts is_digit rest) then
        (let num = takeWhile num_char (ch # rest) in
         emit (tok TokenNumber num) (lex_from (pos + length num) (dropWhile num_char rest)))
      else if word_start ch then
        (let w = takeWhile word_char (ch # rest) in
         emit (classify_word w) (lex_from (pos + length w) (dropWhile word_char rest)))
      else if ch \<in> {CHR ''='', CHR ''>'', CHR ''<'', CHR ''!''} then
        (if starts (\<lambda>c. c = CHR ''='') rest
         then emit (tok TokenOperator [ch, CHR ''='']) (lex_from (pos + 2) (tl rest))
         else emit (tok TokenOperator [ch]) (lex_from (pos + 1) rest))
      else if ch \<in> {CHR ''('', CHR '')'', CHR '','', CHR '';''} then
        emit (tok TokenPunctuation [ch]) (lex_from (pos + 1) rest)
      else Err (UnexpectedChar ch pos))"
  by pat_completeness auto
termination
  by (relation "measure (\<lambda>(_, s). length s)")
     (auto simp: tl_dropWhile_less dropWhile_less)

definition Lex :: "string \<Rightarrow> (parse_err, Token list) outcome" where
  "Lex input = lex_from 0 input"

end
