(* ===== verification/Ast.thy ===== *)
theory Ast imports Lexer begin

text \<open>
  \<^verbatim>\<open>pkg/parser/ast.go\<close>: the syntax trees. The interfaces \<^verbatim>\<open>Expression\<close> and \<^verbatim>\<open>Statement\<close> are
  datatypes with one constructor per implementing struct; a nil pointer field is \<open>None\<close>.
  \<^verbatim>\<open>LIMIT\<close> and \<^verbatim>\<open>OFFSET\<close> are Go \<^verbatim>\<open>int\<close>s, 64 bits wide.
\<close>

datatype Expression =
    Literal string
  | Identifier string
  | BinaryExpr Expression string Expression
  | FuncCall string Expression

record BinaryOp =
  bo_Left :: Expression
  bo_Operator :: string
  bo_Right :: Expression

datatype JoinType = InnerJoin | LeftJoin | RightJoin

record JoinClause =
  jn_Type :: JoinType
  jn_Table :: string
  jn_Condition :: "BinaryOp option"

record Aggregate =
  ag_Func :: string
  ag_Column :: string
  ag_Alias :: string

record SelectStatement =
  sel_Table :: string
  sel_Columns :: "string list"
  sel_Aggregates :: "Aggregate list"
  sel_Condition :: "BinaryOp option"
  sel_Join :: "JoinClause option"
  sel_OrderBy :: string
  sel_OrderDir :: string
  sel_Limit :: i64
  sel_Offset :: i64
  sel_GroupBy :: string

record InsertStatement =
  ins_Table :: string
  ins_Columns :: "string list"
  ins_Values :: "Expression list"

record ColumnSpec =
  cs_Name :: string
  cs_Type :: string
  cs_NotNull :: bool
  cs_PrimaryKey :: bool
  cs_AutoIncrement :: bool
  cs_Unique :: bool
  cs_Default :: string
  cs_Check :: string
  cs_References :: string

record CreateTableStatement =
  ct_Table :: string
  ct_Columns :: "ColumnSpec list"
  ct_IfNotExists :: bool

record CreateIndexStatement =
  ci_IndexName :: string
  ci_Table :: string
  ci_Column :: string

record DeleteStatement =
  del_Table :: string
  del_Condition :: "BinaryOp option"

record UpdatePair =
  up_Column :: string
  up_Value :: Expression

record UpdateStatement =
  upd_Table :: string
  upd_Updates :: "UpdatePair list"
  upd_Condition :: "BinaryOp option"

record DropTableStatement =
  dr_Table :: string
  dr_IfExists :: bool

datatype Statement =
    SelectStmt SelectStatement
  | InsertStmt InsertStatement
  | CreateTableStmt CreateTableStatement
  | CreateIndexStmt CreateIndexStatement
  | DeleteStmt DeleteStatement
  | UpdateStmt UpdateStatement
  | DropTableStmt DropTableStatement

text \<open>\<^verbatim>\<open>String\<close> of an expression.\<close>

fun Expression_String :: "Expression \<Rightarrow> string" where
  "Expression_String (Literal v) = v"
| "Expression_String (Identifier n) = n"
| "Expression_String (BinaryExpr l op r) = Expression_String l @ '' '' @ op @ '' '' @ Expression_String r"
| "Expression_String (FuncCall f a) = f @ ''('' @ Expression_String a @ '')''"

definition BinaryOp_String :: "BinaryOp \<Rightarrow> string" where
  "BinaryOp_String b = Expression_String (bo_Left b) @ '' '' @ bo_Operator b @ '' '' @ Expression_String (bo_Right b)"

text \<open>\<^verbatim>\<open>%v\<close> of a slice of strings.\<close>

definition fmt_strings :: "string list \<Rightarrow> string" where
  "fmt_strings ss = ''['' @ Join ss '' '' @ '']''"

fun Statement_String :: "Statement \<Rightarrow> string" where
  "Statement_String (SelectStmt s) =
     (case sel_Join s of
        Some j \<Rightarrow> ''SELECT '' @ fmt_strings (sel_Columns s) @ '' FROM '' @ sel_Table s @ '' JOIN '' @ jn_Table j @ '' ON '' @
          (case jn_Condition j of Some c \<Rightarrow> BinaryOp_String c | None \<Rightarrow> ''<nil>'')
      | None \<Rightarrow> ''SELECT '' @ fmt_strings (sel_Columns s) @ '' FROM '' @ sel_Table s)"
| "Statement_String (InsertStmt s) =
     ''INSERT INTO '' @ ins_Table s @ '' VALUES '' @ fmt_strings (map Expression_String (ins_Values s))"
| "Statement_String (CreateTableStmt s) = ''CREATE TABLE '' @ ct_Table s"
| "Statement_String (CreateIndexStmt s) =
     ''CREATE INDEX '' @ ci_IndexName s @ '' ON '' @ ci_Table s @ '' ('' @ ci_Column s @ '')''"
| "Statement_String (DeleteStmt s) =
     (case del_Condition s of
        Some c \<Rightarrow> ''DELETE FROM '' @ del_Table s @ '' WHERE '' @ BinaryOp_String c
      | None \<Rightarrow> ''DELETE FROM '' @ del_Table s)"
| "Statement_String (UpdateStmt s) = ''UPDATE '' @ upd_Table s @ '' SET ...''"
| "Statement_String (DropTableStmt s) = ''DROP TABLE '' @ dr_Table s"

end
