(* ===== verification/Parser.thy ===== *)
theory Parser imports Ast begin

text \<open>
  \<^verbatim>\<open>pkg/parser/parser.go\<close>: recursive descent over the token list. The parser state is the
  list of tokens from \<^verbatim>\<open>p.pos\<close> on; past the end every token is \<^verbatim>\<open>TokenEOF\<close> with an empty value.
  A loop that can only end at a \<^verbatim>\<open>)\<close> spins forever at the end of the input: \<open>Hang\<close>.
\<close>

type_synonym 'a presult = "(parse_err, 'a \<times> Token list) outcome"

definition current :: "Token list \<Rightarrow> Token" where
  "current ts = (case ts of [] \<Rightarrow> tok TokenEOF [] | t # _ \<Rightarrow> t)"

abbreviation cur_val :: "Token list \<Rightarrow> string" where "cur_val ts \<equiv> tk_Value (current ts)"
abbreviation cur_type :: "Token list \<Rightarrow> TokenType" where "cur_type ts \<equiv> tk_Type (current ts)"

text \<open>\<^verbatim>\<open>p.next()\<close> advances the position, also past the end.\<close>

definition next_tok :: "Token list \<Rightarrow> Token list" where "next_tok ts = tl ts"

definition Parser_expect :: "TokenType \<Rightarrow> string \<Rightarrow> Token list \<Rightarrow> unit presult" where
  "Parser_expect tokenType value ts =
     (if cur_type ts \<noteq> tokenType \<or> cur_val ts \<noteq> value then Err (Expected value)
      else Ok ((), next_tok ts))"

text \<open>The recurring step "if p.current().Value != v then error, else p.next()".\<close>

definition want :: "string \<Rightarrow> Token list \<Rightarrow> unit presult" where
  "want v ts = (if cur_val ts \<noteq> v then Err (Expected v) else Ok ((), next_tok ts))"

text \<open>The recurring step "if p.current() is not an identifier then error, else take its value".\<close>

definition ident :: "parse_err \<Rightarrow> Token list \<Rightarrow> string presult" where
  "ident e ts = (if cur_type ts \<noteq> TokenIdentifier then Err e else Ok (cur_val ts, next_tok ts))"

definition parseExpression :: "Token list \<Rightarrow> Expression presult" where
  "parseExpression ts = (case cur_type ts of
     TokenNumber \<Rightarrow> Ok (Literal (cur_val ts), next_tok ts)
   | TokenString \<Rightarrow> Ok (Literal (cur_val ts), next_tok ts)
   | TokenIdentifier \<Rightarrow> Ok (Identifier (cur_val ts), next_tok ts)
   | _ \<Rightarrow> Err (UnexpectedExpression (current ts)))"

definition parseCondition :: "Token list \<Rightarrow> BinaryOp presult" where
  "parseCondition ts =
     bind_out (parseExpression ts) (\<lambda>(left, ts1).
       if cur_type ts1 \<noteq> TokenOperator \<and> cur_val ts1 \<noteq> ''LIKE'' then Err (ExpectedOperator (current ts1))
       else bind_out (parseExpression (next_tok ts1)) (\<lambda>(right, ts2).
         Ok (\<lparr>bo_Left = left, bo_Operator = cur_val ts1, bo_Right = right\<rparr>, ts2)))"

text \<open>An optional \<^verbatim>\<open>WHERE\<close> clause.\<close>

definition parseWhere :: "Token list \<Rightarrow> BinaryOp option presult" where
  "parseWhere ts =
     (if cur_val ts = ''WHERE'' then
        bind_out (parseCondition (next_tok ts)) (\<lambda>(c, ts1). Ok (Some c, ts1))
      else Ok (None, ts))"

definition parseAggregate :: "Token list \<Rightarrow> Aggregate presult" where
  "parseAggregate ts =
     (let f = cur_val ts in
      bind_out (want ''('' (next_tok ts)) (\<lambda>(_, ts1).
      bind_out (if cur_val ts1 = ''*'' then Ok ''*''
                else if cur_type ts1 = TokenIdentifier then Ok (cur_val ts1)
                else Err ExpectedColumnOrStar) (\<lambda>col.
      bind_out (want '')'' (next_tok ts1)) (\<lambda>(_, ts2).
        Ok (\<lparr>ag_Func = f, ag_Column = col, ag_Alias = []\<rparr>, ts2)))))"

lemma want_length: "want v ts = Ok ((), ts') \<Longrightarrow> ts' = tl ts"
  by (simp add: want_def next_tok_def split: if_splits)

lemma parseAggregate_length: "parseAggregate ts = Ok (a, ts') \<Longrightarrow> length ts' \<le> length (tl ts)"
  by (auto simp: parseAggregate_def bind_out_Ok_iff next_tok_def dest!: want_length split: if_splits)

lemma parseExpression_length: "parseExpression ts = Ok (e, ts') \<Longrightarrow> ts' = tl ts \<and> ts \<noteq> []"
  by (cases ts) (auto simp: parseExpression_def next_tok_def current_def split: TokenType.splits)

lemma parseExpression_total: "parseExpression ts \<noteq> Panic" "parseExpression ts \<noteq> Hang"
  by (auto simp: parseExpression_def split: TokenType.splits)

section \<open>SELECT\<close>

definition is_aggregate :: "string \<Rightarrow> bool" where
  "is_aggregate v \<longleftrightarrow> v \<in> {''COUNT'', ''SUM'', ''AVG'', ''MIN'', ''MAX''}"

function select_columns :: "Token list \<Rightarrow> string list \<Rightarrow> Aggregate list
    \<Rightarrow> (string list \<times> Aggregate list) presult" where
  "select_columns ts cols aggs =
     (if cur_type ts \<noteq> TokenEOF \<and> cur_val ts \<noteq> ''FROM'' \<and> ts \<noteq> [] then
        (if is_aggregate (cur_val ts) then
           (case parseAggregate ts of
              Ok (agg, ts1) \<Rightarrow>
                select_columns ts1 (cols @ [ag_Func agg @ ''('' @ ag_Column agg @ '')'']) (aggs @ [agg])
            | Err e \<Rightarrow> Err e | Panic \<Rightarrow> Panic | Hang \<Rightarrow> Hang)
         else if cur_type ts = TokenIdentifier \<or> cur_val ts = ''*''
           then select_columns (next_tok ts) (cols @ [cur_val ts]) aggs
         else select_columns (next_tok ts) cols aggs)
      else Ok ((cols, aggs), ts))"
  by auto
termination
  by (relation "measure (\<lambda>(ts, _, _). length ts)")
     (auto simp: next_tok_def dest!: parseAggregate_length intro: le_less_trans)

declare select_columns.simps [simp del]

definition parseJoin :: "Token list \<Rightarrow> JoinClause option presult" where
  "parseJoin ts =
     (if cur_val ts = ''JOIN'' \<or> cur_val ts = ''INNER'' \<or> cur_val ts = ''LEFT'' then
        let joinType = (if cur_val ts = ''LEFT'' then LeftJoin
                        else if cur_val ts = ''RIGHT'' then RightJoin else InnerJoin);
            ts1 = (if cur_val ts = ''LEFT'' \<or> cur_val ts = ''RIGHT'' \<or> cur_val ts = ''INNER''
                   then next_tok ts else ts)
        in bind_out (want ''JOIN'' ts1) (\<lambda>(_, ts2).
           bind_out (ident ExpectedJoinTable ts2) (\<lambda>(table, ts3).
           bind_out (want ''ON'' ts3) (\<lambda>(_, ts4).
           bind_out (parseCondition ts4) (\<lambda>(cond, ts5).
             Ok (Some \<lparr>jn_Type = joinType, jn_Table = table, jn_Condition = Some cond\<rparr>, ts5)))))
      else Ok (None, ts))"

definition parseOrderBy :: "Token list \<Rightarrow> (string \<times> string) presult" where
  "parseOrderBy ts =
     (if cur_val ts = ''ORDER'' then
        bind_out (want ''BY'' (next_tok ts)) (\<lambda>(_, ts1).
        bind_out (ident ExpectedOrderColumn ts1) (\<lambda>(col, ts2).
          if cur_val ts2 = ''ASC'' \<or> cur_val ts2 = ''DESC''
          then Ok ((col, cur_val ts2), next_tok ts2) else Ok ((col, ''ASC''), ts2)))
      else Ok (([], []), ts))"

text \<open>An optional \<^verbatim>\<open>LIMIT\<close> or \<^verbatim>\<open>OFFSET\<close> with its number.\<close>

definition parseCount :: "string \<Rightarrow> i64 \<Rightarrow> Token list \<Rightarrow> i64 presult" where
  "parseCount word dflt ts =
     (if cur_val ts = word then
        (if cur_type (next_tok ts) \<noteq> TokenNumber then Err (ExpectedNumber word)
         else case Atoi (cur_val (next_tok ts)) of
             Ok v \<Rightarrow> Ok (v, next_tok (next_tok ts))
           | _ \<Rightarrow> Err (BadNumber word (cur_val (next_tok ts))))
      else Ok (dflt, ts))"

definition parseSelect :: "Token list \<Rightarrow> SelectStatement presult" where
  "parseSelect ts =
     bind_out (select_columns (next_tok ts) [] []) (\<lambda>((cols, aggs), ts1).
     bind_out (want ''FROM'' ts1) (\<lambda>(_, ts2).
     bind_out (ident ExpectedTableName ts2) (\<lambda>(table, ts3).
     bind_out (parseJoin ts3) (\<lambda>(join, ts4).
     bind_out (parseWhere ts4) (\<lambda>(cond, ts5).
     bind_out (parseOrderBy ts5) (\<lambda>((orderBy, orderDir), ts6).
     bind_out (parseCount ''LIMIT'' (-1) ts6) (\<lambda>(limit, ts7).
     bind_out (parseCount ''OFFSET'' 0 ts7) (\<lambda>(offset, ts8).
       Ok (\<lparr>sel_Table = table, sel_Columns = cols, sel_Aggregates = aggs, sel_Condition = cond,
            sel_Join = join, sel_OrderBy = orderBy, sel_OrderDir = orderDir,
            sel_Limit = limit, sel_Offset = offset, sel_GroupBy = []\<rparr>, ts8)))))))))"

section \<open>INSERT\<close>

definition is_comma :: "Token \<Rightarrow> bool" where
  "is_comma t \<longleftrightarrow> tk_Type t = TokenPunctuation \<and> tk_Value t = '',''"

text \<open>The column list: the loop only ends at a \<^verbatim>\<open>)\<close>.\<close>

fun insert_columns :: "Token list \<Rightarrow> string list \<Rightarrow> string list presult" where
  "insert_columns [] cols = Hang"
| "insert_columns (t # ts) cols =
     (if tk_Value t = '')'' then Ok (cols, ts)
      else if is_comma t then insert_columns ts cols
      else insert_columns ts (if tk_Type t = TokenIdentifier then cols @ [tk_Value t] else cols))"

function insert_values :: "Token list \<Rightarrow> Expression list \<Rightarrow> Expression list presult" where
  "insert_values ts vals =
     (if cur_val ts = '')'' then Ok (vals, next_tok ts)
      else if ts \<noteq> [] \<and> is_comma (current ts) then insert_values (next_tok ts) vals
      else case parseExpression ts of
          Ok (e, ts1) \<Rightarrow> insert_values ts1 (vals @ [e])
        | Err e \<Rightarrow> Err e | Panic \<Rightarrow> Panic | Hang \<Rightarrow> Hang)"
  by auto
termination
  by (relation "measure (\<lambda>(ts, _). length ts)")
     (auto simp: next_tok_def dest!: parseExpression_length)

declare insert_values.simps [simp del]

definition parseInsert :: "Token list \<Rightarrow> InsertStatement presult" where
  "parseInsert ts =
     bind_out (want ''INTO'' (next_tok ts)) (\<lambda>(_, ts1).
     bind_out (ident ExpectedTableName ts1) (\<lambda>(table, ts2).
     bind_out (if cur_val ts2 = ''('' then insert_columns (next_tok ts2) [] else Ok ([], ts2)) (\<lambda>(cols, ts3).
     bind_out (want ''VALUES'' ts3) (\<lambda>(_, ts4).
     bind_out (want ''('' ts4) (\<lambda>(_, ts5).
     bind_out (insert_values ts5 []) (\<lambda>(vals, ts6).
       Ok (\<lparr>ins_Table = table, ins_Columns = cols, ins_Values = vals\<rparr>, ts6)))))))"

section \<open>CREATE\<close>

fun check_parts :: "Token list \<Rightarrow> string list \<Rightarrow> string list presult" where
  "check_parts [] parts = Hang"
| "check_parts (t # ts) parts =
     (if tk_Value t = '')'' then Ok (parts, ts) else check_parts ts (parts @ [tk_Value t]))"

lemma check_parts_length: "check_parts ts ps = Ok (ps', ts') \<Longrightarrow> length ts' < length ts"
  by (induction ts ps rule: check_parts.induct) (auto split: if_splits)

definition parseDefault :: "Token list \<Rightarrow> ColumnSpec \<Rightarrow> ColumnSpec \<times> Token list" where
  "parseDefault ts col =
     (case parseExpression ts of
        Ok (Literal v, ts1) \<Rightarrow> (col\<lparr>cs_Default := v\<rparr>, ts1)
      | Ok (_, ts1) \<Rightarrow> (col, ts1)
      | _ \<Rightarrow> (col, ts))"

lemma parseDefault_length: "length (snd (parseDefault ts col)) \<le> length ts"
  by (auto simp: parseDefault_def dest: parseExpression_length split: outcome.split prod.split Expression.split)

definition parseCheck :: "Token list \<Rightarrow> string presult" where
  "parseCheck ts =
     bind_out (want ''('' ts) (\<lambda>(_, ts1).
     bind_out (check_parts ts1 []) (\<lambda>(parts, ts2). Ok (Join parts '' '', ts2)))"

definition parseReferences :: "Token list \<Rightarrow> string presult" where
  "parseReferences ts =
     (let refTable = cur_val ts in
      bind_out (want ''('' (next_tok ts)) (\<lambda>(_, ts1).
      let refCol = cur_val ts1 in
      bind_out (want '')'' (next_tok ts1)) (\<lambda>(_, ts2).
        Ok (refTable @ ''('' @ refCol @ '')'', ts2))))"

lemma parseCheck_length: "parseCheck ts = Ok (s, ts') \<Longrightarrow> length ts' \<le> length ts"
  by (auto simp: parseCheck_def bind_out_Ok_iff dest!: want_length check_parts_length)

lemma parseReferences_length: "parseReferences ts = Ok (s, ts') \<Longrightarrow> length ts' \<le> length ts"
  by (auto simp: parseReferences_def bind_out_Ok_iff Let_def next_tok_def dest!: want_length)

function constraints :: "Token list \<Rightarrow> ColumnSpec \<Rightarrow> ColumnSpec presult" where
  "constraints ts col =
     (let v = cur_val ts; ts1 = next_tok ts in
      if ts = [] \<or> v = '','' \<or> v = '')'' then Ok (col, ts)
      else if v = ''PRIMARY_KEY'' then constraints ts1 (col\<lparr>cs_PrimaryKey := True, cs_NotNull := True\<rparr>)
      else if v = ''NOT_NULL'' then constraints ts1 (col\<lparr>cs_NotNull := True\<rparr>)
      else if v = ''UNIQUE'' then constraints ts1 (col\<lparr>cs_Unique := True\<rparr>)
      else if v = ''DEFAULT'' then
        constraints (snd (parseDefault ts1 col)) (fst (parseDefault ts1 col))
      else if v = ''CHECK'' then
        (case parseCheck ts1 of
           Ok (s, ts2) \<Rightarrow> constraints ts2 (col\<lparr>cs_Check := s\<rparr>)
         | Err e \<Rightarrow> Err e | Panic \<Rightarrow> Panic | Hang \<Rightarrow> Hang)
      else if v = ''REFERENCES'' then
        (case parseReferences ts1 of
           Ok (s, ts2) \<Rightarrow> constraints ts2 (col\<lparr>cs_References := s\<rparr>)
         | Err e \<Rightarrow> Err e | Panic \<Rightarrow> Panic | Hang \<Rightarrow> Hang)
      else if v = ''AUTOINCREMENT'' then constraints ts1 (col\<lparr>cs_AutoIncrement := True\<rparr>)
      else Ok (col, ts))"
  by auto
termination
proof (relation "measure (\<lambda>(ts, _). length ts)", goal_cases)
  case (5 ts col v ts1)
  then show ?case using parseDefault_length [of ts1 col] by (cases ts) (auto simp: next_tok_def)
next
  case (6 ts col v ts1 p s ts2)
  then show ?case using parseCheck_length [of ts1 s ts2] by (cases ts) (auto simp: next_tok_def)
next
  case (7 ts col v ts1 p s ts2)
  then show ?case using parseReferences_length [of ts1 s ts2] by (cases ts) (auto simp: next_tok_def)
qed (auto simp: next_tok_def)

declare constraints.simps [simp del]

lemma constraints_length: "constraints ts col = Ok (col', ts') \<Longrightarrow> length ts' \<le> length ts"
proof (induction "length ts" arbitrary: ts col rule: less_induct)
  case less
  have IH: "length ts' \<le> length ts" if "constraints ts2 c = Ok (col', ts')" "length ts2 \<le> length (tl ts)" "ts \<noteq> []" for ts2 c
    using less.hyps [OF _ that(1)] that(2,3) by (cases ts) auto
  have D: "length (snd (parseDefault (tl ts) col)) \<le> length (tl ts)" by (rule parseDefault_length)
  show ?case using less.prems
    by (subst (asm) constraints.simps)
       (auto simp: Let_def next_tok_def split: if_splits outcome.splits
         intro: IH IH [OF _ D] dest: parseCheck_length parseReferences_length)
qed

text \<open>The column list of \<^verbatim>\<open>CREATE TABLE\<close>. Each round consumes at least a name and a type.\<close>

definition new_column :: "string \<Rightarrow> string \<Rightarrow> ColumnSpec" where
  "new_column name ty = \<lparr>cs_Name = name, cs_Type = ty, cs_NotNull = False, cs_PrimaryKey = False,
     cs_AutoIncrement = False, cs_Unique = False, cs_Default = [], cs_Check = [], cs_References = []\<rparr>"

function table_columns :: "Token list \<Rightarrow> ColumnSpec list \<Rightarrow> ColumnSpec list presult" where
  "table_columns ts cols =
     (if cur_val ts = '')'' then Ok (cols, next_tok ts)
      else if ts \<noteq> [] \<and> is_comma (current ts) then table_columns (next_tok ts) cols
      else if ts = [] \<or> cur_type ts \<noteq> TokenIdentifier then Err ExpectedColumnName
      else let colName = cur_val ts; ts1 = next_tok ts in
        if cur_type ts1 \<noteq> TokenKeyword \<and> cur_type ts1 \<noteq> TokenIdentifier then Err ExpectedColumnType
        else case constraints (next_tok ts1) (new_column colName (cur_val ts1)) of
            Ok (col, ts2) \<Rightarrow> table_columns ts2 (cols @ [col])
          | Err e \<Rightarrow> Err e | Panic \<Rightarrow> Panic | Hang \<Rightarrow> Hang)"
  by auto
termination
proof (relation "measure (\<lambda>(ts, _). length ts)", goal_cases)
  case (3 ts cols colName ts1 p col ts2)
  then show ?case using constraints_length [of "next_tok ts1" "new_column colName (cur_val ts1)" col ts2]
    by (cases ts) (auto simp: next_tok_def)
qed (auto simp: next_tok_def)

declare table_columns.simps [simp del]

definition parseCreateTable :: "Token list \<Rightarrow> CreateTableStatement presult" where
  "parseCreateTable ts =
     bind_out (if cur_val (next_tok ts) = ''IF'' then
                 bind_out (want ''NOT'' (next_tok (next_tok ts))) (\<lambda>(_, ts1).
                 bind_out (want ''EXISTS'' ts1) (\<lambda>(_, ts2). Ok (True, ts2)))
               else Ok (False, next_tok ts)) (\<lambda>(ine, ts3).
     bind_out (ident ExpectedTableName ts3) (\<lambda>(table, ts4).
     bind_out (want ''('' ts4) (\<lambda>(_, ts5).
     bind_out (table_columns ts5 []) (\<lambda>(cols, ts6).
       Ok (\<lparr>ct_Table = table, ct_Columns = cols, ct_IfNotExists = ine\<rparr>, ts6)))))"

definition parseCreateIndex :: "Token list \<Rightarrow> CreateIndexStatement presult" where
  "parseCreateIndex ts =
     bind_out (ident ExpectedIndexName (next_tok ts)) (\<lambda>(name, ts1).
     bind_out (want ''ON'' ts1) (\<lambda>(_, ts2).
     bind_out (ident ExpectedTableName ts2) (\<lambda>(table, ts3).
     bind_out (want ''('' ts3) (\<lambda>(_, ts4).
     bind_out (ident ExpectedColumnName ts4) (\<lambda>(col, ts5).
     bind_out (want '')'' ts5) (\<lambda>(_, ts6).
       Ok (\<lparr>ci_IndexName = name, ci_Table = table, ci_Column = col\<rparr>, ts6)))))))"

definition parseCreate :: "Token list \<Rightarrow> Statement presult" where
  "parseCreate ts =
     (let ts1 = next_tok ts in
      if cur_val ts1 = ''TABLE'' then bind_out (parseCreateTable ts1) (\<lambda>(s, r). Ok (CreateTableStmt s, r))
      else if cur_val ts1 = ''INDEX'' then bind_out (parseCreateIndex ts1) (\<lambda>(s, r). Ok (CreateIndexStmt s, r))
      else Err (Expected ''TABLE or INDEX''))"

section \<open>DELETE, UPDATE, DROP\<close>

definition parseDelete :: "Token list \<Rightarrow> DeleteStatement presult" where
  "parseDelete ts =
     bind_out (want ''FROM'' (next_tok ts)) (\<lambda>(_, ts1).
     bind_out (ident ExpectedTableName ts1) (\<lambda>(table, ts2).
     bind_out (parseWhere ts2) (\<lambda>(cond, ts3).
       Ok (\<lparr>del_Table = table, del_Condition = cond\<rparr>, ts3))))"

definition update_pair :: "Token list \<Rightarrow> UpdatePair presult" where
  "update_pair ts =
     bind_out (ident ExpectedColumnName ts) (\<lambda>(col, ts1).
     bind_out (want ''='' ts1) (\<lambda>(_, ts2).
     bind_out (parseExpression ts2) (\<lambda>(e, ts3).
       Ok (\<lparr>up_Column = col, up_Value = e\<rparr>, ts3))))"

lemma update_pair_length: "update_pair ts = Ok (p, ts') \<Longrightarrow> length ts' \<le> length ts"
  by (auto simp: update_pair_def ident_def bind_out_Ok_iff next_tok_def dest!: want_length parseExpression_length
      split: if_splits)

function update_pairs :: "Token list \<Rightarrow> UpdatePair list \<Rightarrow> UpdatePair list presult" where
  "update_pairs ts ups =
     (case update_pair ts of
        Ok (p, ts1) \<Rightarrow>
          (if cur_val ts1 = '','' \<and> ts1 \<noteq> [] then update_pairs (next_tok ts1) (ups @ [p]) else Ok (ups @ [p], ts1))
      | Err e \<Rightarrow> Err e | Panic \<Rightarrow> Panic | Hang \<Rightarrow> Hang)"
  by auto
termination
proof (relation "measure (\<lambda>(ts, _). length ts)", goal_cases)
  case (2 ts ups q p ts1)
  then show ?case using update_pair_length [of ts p ts1] by (cases ts1) (auto simp: next_tok_def)
qed simp

declare update_pairs.simps [simp del]

definition parseUpdate :: "Token list \<Rightarrow> UpdateStatement presult" where
  "parseUpdate ts =
     bind_out (ident ExpectedTableName (next_tok ts)) (\<lambda>(table, ts1).
     bind_out (want ''SET'' ts1) (\<lambda>(_, ts2).
     bind_out (update_pairs ts2 []) (\<lambda>(ups, ts3).
     bind_out (parseWhere ts3) (\<lambda>(cond, ts4).
       Ok (\<lparr>upd_Table = table, upd_Updates = ups, upd_Condition = cond\<rparr>, ts4)))))"

definition parseDrop :: "Token list \<Rightarrow> DropTableStatement presult" where
  "parseDrop ts =
     bind_out (want ''TABLE'' (next_tok ts)) (\<lambda>(_, ts1).
     bind_out (if cur_val ts1 = ''IF''
               then bind_out (want ''EXISTS'' (next_tok ts1)) (\<lambda>(_, ts2). Ok (True, ts2))
               else Ok (False, ts1)) (\<lambda>(ie, ts3).
     bind_out (ident ExpectedTableName ts3) (\<lambda>(table, ts4).
       Ok (\<lparr>dr_Table = table, dr_IfExists = ie\<rparr>, ts4))))"

section \<open>Parse\<close>

text \<open>
  The statement parsers return a typed nil pointer with their error; \<^verbatim>\<open>Parse\<close> passes both on,
  and its caller looks at the error first. Tokens behind the statement are not looked at.
\<close>

definition Parse_tokens :: "Token list \<Rightarrow> Statement presult" where
  "Parse_tokens ts =
     (if ts = [] then Err EmptyQuery
      else if cur_type ts \<noteq> TokenKeyword then Err (ExpectedCommand (current ts))
      else if cur_val ts = ''SELECT'' then bind_out (parseSelect ts) (\<lambda>(s, r). Ok (SelectStmt s, r))
      else if cur_val ts = ''INSERT'' then bind_out (parseInsert ts) (\<lambda>(s, r). Ok (InsertStmt s, r))
      else if cur_val ts = ''CREATE'' then parseCreate ts
      else if cur_val ts = ''DELETE'' then bind_out (parseDelete ts) (\<lambda>(s, r). Ok (DeleteStmt s, r))
      else if cur_val ts = ''UPDATE'' then bind_out (parseUpdate ts) (\<lambda>(s, r). Ok (UpdateStmt s, r))
      else if cur_val ts = ''DROP'' then bind_out (parseDrop ts) (\<lambda>(s, r). Ok (DropTableStmt s, r))
      else Err (UnknownCommand (cur_val ts)))"

definition Parse :: "string \<Rightarrow> (parse_err, Statement) outcome" where
  "Parse input = bind_out (Lex input) (\<lambda>ts. bind_out (Parse_tokens ts) (\<lambda>(s, _). Ok s))"

end
