(* ===== verification/SqlText.thy ===== *)
theory SqlText imports Parser begin

text \<open>
  The concrete syntax of the statements: how a statement is written as tokens, and how tokens
  are written as text. It is the specification the lexer and the parser are checked
  against: both invert it.
\<close>

section \<open>Expressions and conditions\<close>

definition kw :: "string \<Rightarrow> Token" where "kw w = tok TokenKeyword w"
definition idt :: "string \<Rightarrow> Token" where "idt n = tok TokenIdentifier n"
definition punct :: "string \<Rightarrow> Token" where "punct p = tok TokenPunctuation p"

lemma tok_simps [simp]:
  "tk_Type (kw w) = TokenKeyword" "tk_Value (kw w) = w"
  "tk_Type (idt n) = TokenIdentifier" "tk_Value (idt n) = n"
  "tk_Type (punct p) = TokenPunctuation" "tk_Value (punct p) = p"
  by (simp_all add: kw_def idt_def punct_def)

text \<open>The expressions the parser can produce: a literal (written as a string) or a name.\<close>

fun plain :: "Expression \<Rightarrow> bool" where
  "plain (Literal v) = True"
| "plain (Identifier n) = True"
| "plain _ = False"

fun expr_token :: "Expression \<Rightarrow> Token" where
  "expr_token (Identifier n) = idt n"
| "expr_token (Literal v) = tok TokenString v"
| "expr_token _ = tok TokenEOF []"

lemma current_Cons [simp]: "current (t # ts) = t" by (simp add: current_def)
lemma current_Nil [simp]: "current [] = tok TokenEOF []" by (simp add: current_def)
lemma next_tok_Cons [simp]: "next_tok (t # ts) = ts" by (simp add: next_tok_def)

lemma parseExpression_token [simp]: "plain e \<Longrightarrow> parseExpression (expr_token e # ts) = Ok (e, ts)"
  by (cases e) (simp_all add: parseExpression_def)

lemma want_Cons [simp]: "tk_Value t = v \<Longrightarrow> want v (t # ts) = Ok ((), ts)"
  by (simp add: want_def)

lemma ident_Cons [simp]: "ident e (idt n # ts) = Ok (n, ts)"
  by (simp add: ident_def)

definition cond_ok :: "BinaryOp \<Rightarrow> bool" where
  "cond_ok c \<longleftrightarrow> plain (bo_Left c) \<and> plain (bo_Right c)"

text \<open>The operator of a condition; \<^verbatim>\<open>LIKE\<close> is a keyword.\<close>

definition op_token :: "string \<Rightarrow> Token" where
  "op_token op = (if op = ''LIKE'' then kw ''LIKE'' else tok TokenOperator op)"

definition cond_tokens :: "BinaryOp \<Rightarrow> Token list" where
  "cond_tokens c = [expr_token (bo_Left c), op_token (bo_Operator c), expr_token (bo_Right c)]"

lemma parseCondition_tokens [simp]: "cond_ok c \<Longrightarrow> parseCondition (cond_tokens c @ ts) = Ok (c, ts)"
  by (simp add: parseCondition_def cond_tokens_def cond_ok_def op_token_def)

text \<open>An optional clause that starts with a keyword, read by a parser that looks for the keyword.\<close>

definition where_tokens :: "BinaryOp option \<Rightarrow> Token list" where
  "where_tokens co = (case co of None \<Rightarrow> [] | Some c \<Rightarrow> kw ''WHERE'' # cond_tokens c)"

lemma parseWhere_tokens:
  "(\<forall>c. co = Some c \<longrightarrow> cond_ok c) \<Longrightarrow> cur_val ts \<noteq> ''WHERE'' \<Longrightarrow> parseWhere (where_tokens co @ ts) = Ok (co, ts)"
  by (cases co) (simp_all add: parseWhere_def where_tokens_def)

lemma cur_val_where: "cur_val (where_tokens co @ ts) \<in> {''WHERE'', cur_val ts}"
  by (cases co) (simp_all add: where_tokens_def)

section \<open>DELETE, UPDATE, DROP, CREATE INDEX\<close>

definition delete_tokens :: "DeleteStatement \<Rightarrow> Token list" where
  "delete_tokens s = [kw ''DELETE'', kw ''FROM'', idt (del_Table s)] @ where_tokens (del_Condition s)"

definition drop_tokens :: "DropTableStatement \<Rightarrow> Token list" where
  "drop_tokens s = [kw ''DROP'', kw ''TABLE''] @ (if dr_IfExists s then [kw ''IF'', kw ''EXISTS''] else []) @ [idt (dr_Table s)]"

definition index_tokens :: "CreateIndexStatement \<Rightarrow> Token list" where
  "index_tokens s = [kw ''CREATE'', kw ''INDEX'', idt (ci_IndexName s), kw ''ON'', idt (ci_Table s), punct ''('',
     idt (ci_Column s), punct '')'']"

fun pair_tokens :: "UpdatePair list \<Rightarrow> Token list" where
  "pair_tokens [] = []"
| "pair_tokens (u # us) = [idt (up_Column u), tok TokenOperator ''='', expr_token (up_Value u)]
     @ (if us = [] then [] else punct '','' # pair_tokens us)"

definition update_tokens :: "UpdateStatement \<Rightarrow> Token list" where
  "update_tokens s = [kw ''UPDATE'', idt (upd_Table s), kw ''SET''] @ pair_tokens (upd_Updates s)
     @ where_tokens (upd_Condition s)"

lemma update_pairs_tokens:
  assumes "us \<noteq> []" "\<forall>u \<in> set us. plain (up_Value u)" "cur_val ts \<noteq> '',''"
  shows "update_pairs (pair_tokens us @ ts) acc = Ok (acc @ us, ts)"
  using assms
proof (induction us arbitrary: acc)
  case (Cons u us)
  have "update_pair (pair_tokens (u # us) @ ts) = Ok (u, (if us = [] then [] else punct '','' # pair_tokens us) @ ts)"
    using Cons.prems(2) by (simp add: update_pair_def)
  then have "update_pairs (pair_tokens (u # us) @ ts) acc
      = (if us = [] then Ok (acc @ [u], ts) else update_pairs (pair_tokens us @ ts) (acc @ [u]))"
    using Cons.prems(3) by (subst update_pairs.simps) simp
  then show ?case using Cons by (cases "us = []") simp_all
qed simp

section \<open>INSERT\<close>

text \<open>A list written with commas between the items.\<close>

fun commas :: "Token list \<Rightarrow> Token list" where
  "commas [] = []"
| "commas [t] = [t]"
| "commas (t # u # ts) = t # punct '','' # commas (u # ts)"

definition insert_tokens :: "InsertStatement \<Rightarrow> Token list" where
  "insert_tokens s = [kw ''INSERT'', kw ''INTO'', idt (ins_Table s)]
     @ (if ins_Columns s = [] then [] else punct ''('' # commas (map idt (ins_Columns s)) @ [punct '')''])
     @ [kw ''VALUES'', punct ''(''] @ commas (map expr_token (ins_Values s)) @ [punct '')'']"

lemma insert_columns_commas:
  "\<forall>c \<in> set cs. c \<noteq> '')'' \<Longrightarrow> insert_columns (commas (map idt cs) @ punct '')'' # ts) acc = Ok (acc @ cs, ts)"
proof (induction cs arbitrary: acc)
  case (Cons c cs)
  then show ?case by (cases cs) (simp_all add: is_comma_def)
qed simp

lemma insert_values_commas:
  "\<forall>e \<in> set es. plain e \<and> tk_Value (expr_token e) \<noteq> '')'' \<Longrightarrow>
    insert_values (commas (map expr_token es) @ punct '')'' # ts) acc = Ok (acc @ es, ts)"
proof (induction es arbitrary: acc)
  case Nil
  then show ?case by (simp add: insert_values.simps)
next
  case (Cons e es)
  have p: "plain e" "tk_Value (expr_token e) \<noteq> '')''" "\<not> is_comma (expr_token e)"
    using Cons.prems by (cases e; simp add: is_comma_def)+
  have step: "insert_values (expr_token e # r) acc = insert_values r (acc @ [e])" for r
    using p by (subst insert_values.simps) simp
  show ?case
  proof (cases es)
    case Nil
    then show ?thesis using step by (simp add: insert_values.simps [of "punct '')'' # ts"])
  next
    case (Cons f fs)
    have comma: "insert_values (punct '','' # r) a = insert_values r a" for r a
      by (subst insert_values.simps) (simp add: is_comma_def)
    show ?thesis using Cons.IH Cons.prems step comma \<open>es = f # fs\<close> by simp
  qed
qed

section \<open>SELECT\<close>

text \<open>
  One item of the select list: a column or \<^verbatim>\<open>*\<close>, or an aggregate of a column or of \<^verbatim>\<open>*\<close>. The lexer
  makes an operator of the star.
\<close>

definition name_token :: "string \<Rightarrow> Token" where
  "name_token n = (if n = ''*'' then tok TokenOperator ''*'' else idt n)"

datatype sel_item = Column string | Agg string string

fun item_tokens :: "sel_item \<Rightarrow> Token list" where
  "item_tokens (Column n) = [name_token n]"
| "item_tokens (Agg f c) = [kw f, punct ''('', name_token c, punct '')'']"

fun item_name :: "sel_item \<Rightarrow> string" where
  "item_name (Column n) = n"
| "item_name (Agg f c) = f @ ''('' @ c @ '')''"

fun item_aggregates :: "sel_item \<Rightarrow> Aggregate list" where
  "item_aggregates (Column n) = []"
| "item_aggregates (Agg f c) = [\<lparr>ag_Func = f, ag_Column = c, ag_Alias = []\<rparr>]"

fun item_ok :: "sel_item \<Rightarrow> bool" where
  "item_ok (Column n) = (n \<noteq> ''FROM'' \<and> \<not> is_aggregate n)"
| "item_ok (Agg f c) = is_aggregate f"

fun items_tokens :: "sel_item list \<Rightarrow> Token list" where
  "items_tokens [] = []"
| "items_tokens [i] = item_tokens i"
| "items_tokens (i # j # is) = item_tokens i @ punct '','' # items_tokens (j # is)"

lemma aggregate_not_from: "is_aggregate f \<Longrightarrow> f \<noteq> ''FROM''"
  by (auto simp: is_aggregate_def)

lemma parseAggregate_tokens [simp]:
  "parseAggregate (kw f # punct ''('' # name_token c # punct '')'' # ts) = Ok (\<lparr>ag_Func = f, ag_Column = c, ag_Alias = []\<rparr>, ts)"
  by (simp add: parseAggregate_def name_token_def)

lemma select_one_item:
  assumes "item_ok i"
  shows "select_columns (item_tokens i @ ts) cols aggs
    = select_columns ts (cols @ [item_name i]) (aggs @ item_aggregates i)"
proof (cases i)
  case (Column n)
  then show ?thesis using assms by (subst select_columns.simps) (simp add: name_token_def is_aggregate_def)
next
  case (Agg f c)
  then show ?thesis using assms aggregate_not_from by (subst select_columns.simps) simp
qed

lemma select_comma: "select_columns (punct '','' # ts) cols aggs = select_columns ts cols aggs"
  by (subst select_columns.simps) (simp add: is_aggregate_def)

lemma select_columns_tokens:
  "\<forall>i \<in> set is. item_ok i \<Longrightarrow> select_columns (items_tokens is @ kw ''FROM'' # ts) cols aggs
    = Ok ((cols @ map item_name is, aggs @ concat (map item_aggregates is)), kw ''FROM'' # ts)"
proof (induction "is" arbitrary: cols aggs rule: items_tokens.induct)
  case 1
  then show ?case by (simp add: select_columns.simps)
next
  case (2 i)
  then show ?case by (simp add: select_one_item select_columns.simps [of "kw ''FROM'' # ts"])
next
  case (3 i j "is")
  then show ?case by (simp add: select_one_item select_comma)
qed

definition join_tokens :: "JoinClause option \<Rightarrow> Token list" where
  "join_tokens jo = (case jo of None \<Rightarrow> [] | Some j \<Rightarrow>
     (if jn_Type j = LeftJoin then [kw ''LEFT''] else []) @ [kw ''JOIN'', idt (jn_Table j), kw ''ON'']
     @ (case jn_Condition j of None \<Rightarrow> [] | Some c \<Rightarrow> cond_tokens c))"

definition join_ok :: "JoinClause \<Rightarrow> bool" where
  "join_ok j \<longleftrightarrow> jn_Type j \<noteq> RightJoin \<and> (\<exists>c. jn_Condition j = Some c \<and> cond_ok c)"

lemma parseJoin_tokens:
  assumes "\<forall>j. jo = Some j \<longrightarrow> join_ok j" "cur_val ts \<notin> {''JOIN'', ''INNER'', ''LEFT''}"
  shows "parseJoin (join_tokens jo @ ts) = Ok (jo, ts)"
proof (cases jo)
  case None
  then show ?thesis using assms(2) by (simp add: parseJoin_def join_tokens_def)
next
  case (Some j)
  then obtain c where c: "jn_Condition j = Some c" "cond_ok c" "jn_Type j \<noteq> RightJoin"
    using assms(1) by (auto simp: join_ok_def)
  then show ?thesis using Some
    by (cases "jn_Type j") (auto simp: parseJoin_def join_tokens_def intro!: JoinClause.equality)
qed

definition order_tokens :: "string \<Rightarrow> string \<Rightarrow> Token list" where
  "order_tokens col dir = (if col = [] then [] else [kw ''ORDER'', kw ''BY'', idt col, kw dir])"

definition order_ok :: "string \<Rightarrow> string \<Rightarrow> bool" where
  "order_ok col dir \<longleftrightarrow> (if col = [] then dir = [] else dir \<in> {''ASC'', ''DESC''})"

lemma parseOrderBy_tokens:
  "order_ok col dir \<Longrightarrow> cur_val ts \<noteq> ''ORDER'' \<Longrightarrow> parseOrderBy (order_tokens col dir @ ts) = Ok ((col, dir), ts)"
  by (cases "col = []") (auto simp: parseOrderBy_def order_tokens_def order_ok_def)

definition count_tokens :: "string \<Rightarrow> i64 \<Rightarrow> i64 \<Rightarrow> Token list" where
  "count_tokens word dflt v = (if v = dflt then [] else [kw word, tok TokenNumber (dec_nat (unat v))])"

lemma digit_facts: "d < 10 \<Longrightarrow> is_digit (digit d) \<and> code (digit d) = 48 + d"
  by (simp add: digit_def is_digit_def code_def)

lemma parse_uint_dec: "n < 2 ^ 63 \<Longrightarrow> parse_uint 0 (dec_nat n @ s) = parse_uint n s"
proof (induction n arbitrary: s rule: dec_nat.induct)
  case (1 n)
  show ?case
  proof (cases "n < 10")
    case True
    then show ?thesis using digit_facts [of n] by (simp add: dec_nat.simps [of n])
  next
    case False
    have "parse_uint 0 (dec_nat n @ s) = parse_uint 0 (dec_nat (n div 10) @ digit (n mod 10) # s)"
      using False by (simp add: dec_nat.simps [of n])
    also have "\<dots> = parse_uint (n div 10) (digit (n mod 10) # s)"
      using 1 False by simp
    also have "\<dots> = parse_uint n s"
    proof -
      have "n div 10 < 922337203685477581" using 1(2) by (simp add: less_mult_imp_div_less)
      then show ?thesis using digit_facts [of "n mod 10"] 1(2) by (simp add: Let_def)
    qed
    finally show ?thesis .
  qed
qed

lemma dec_nat_head: "dec_nat n \<noteq> [] \<and> is_digit (hd (dec_nat n))"
proof (induction n rule: dec_nat.induct)
  case (1 n)
  then show ?case using digit_facts [of n] by (cases "n < 10") (simp_all add: dec_nat.simps [of n])
qed

lemma Atoi_dec: "n < 2 ^ 63 \<Longrightarrow> Atoi (dec_nat n) = Ok (word_of_nat n)"
proof -
  assume n: "n < 2 ^ 63"
  have h: "hd (dec_nat n) \<noteq> CHR ''-''" "hd (dec_nat n) \<noteq> CHR ''+''" "dec_nat n \<noteq> []"
    using dec_nat_head [of n] by (auto simp: is_digit_def code_def)
  then show ?thesis using n parse_uint_dec [of n "[]"] by (simp add: Atoi_def)
qed

lemma parseCount_tokens:
  assumes "v = dflt \<or> unat v < 2 ^ 63" "cur_val ts \<noteq> word"
  shows "parseCount word dflt (count_tokens word dflt v @ ts) = Ok (v, ts)"
  using assms Atoi_dec [of "unat v"] by (auto simp: parseCount_def count_tokens_def)

definition select_tokens :: "sel_item list \<Rightarrow> SelectStatement \<Rightarrow> Token list" where
  "select_tokens is s = kw ''SELECT'' # items_tokens is @ [kw ''FROM'', idt (sel_Table s)]
     @ join_tokens (sel_Join s) @ where_tokens (sel_Condition s) @ order_tokens (sel_OrderBy s) (sel_OrderDir s)
     @ count_tokens ''LIMIT'' (-1) (sel_Limit s) @ count_tokens ''OFFSET'' 0 (sel_Offset s)"

definition select_ok :: "sel_item list \<Rightarrow> SelectStatement \<Rightarrow> bool" where
  "select_ok is s \<longleftrightarrow> (\<forall>i \<in> set is. item_ok i) \<and> sel_Columns s = map item_name is
     \<and> sel_Aggregates s = concat (map item_aggregates is)
     \<and> (\<forall>j. sel_Join s = Some j \<longrightarrow> join_ok j) \<and> (\<forall>c. sel_Condition s = Some c \<longrightarrow> cond_ok c)
     \<and> order_ok (sel_OrderBy s) (sel_OrderDir s)
     \<and> (sel_Limit s = - 1 \<or> unat (sel_Limit s) < 2 ^ 63) \<and> unat (sel_Offset s) < 2 ^ 63 \<and> sel_GroupBy s = []"

text \<open>The keyword that starts the rest of a statement, for the clauses that may be missing.\<close>

definition clause_heads :: "string list" where
  "clause_heads = [''JOIN'', ''INNER'', ''LEFT'', ''WHERE'', ''ORDER'', ''LIMIT'', ''OFFSET'']"

lemma cur_val_count: "cur_val (count_tokens w d v @ ts) \<in> {w, cur_val ts}"
  by (simp add: count_tokens_def)

lemma cur_val_order: "cur_val (order_tokens c d @ ts) \<in> {''ORDER'', cur_val ts}"
  by (simp add: order_tokens_def)

lemma parseSelect_tokens:
  assumes ok: "select_ok is s" and rest: "cur_val ts \<notin> set clause_heads"
  shows "parseSelect (select_tokens is s @ ts) = Ok (s, ts)"
proof -
  let ?t8 = "ts" let ?t7 = "count_tokens ''OFFSET'' 0 (sel_Offset s) @ ?t8"
  let ?t6 = "count_tokens ''LIMIT'' (-1) (sel_Limit s) @ ?t7"
  let ?t5 = "order_tokens (sel_OrderBy s) (sel_OrderDir s) @ ?t6"
  let ?t4 = "where_tokens (sel_Condition s) @ ?t5"
  have r: "cur_val ts \<noteq> ''JOIN''" "cur_val ts \<noteq> ''INNER''" "cur_val ts \<noteq> ''LEFT''" "cur_val ts \<noteq> ''WHERE''"
    "cur_val ts \<noteq> ''ORDER''" "cur_val ts \<noteq> ''LIMIT''" "cur_val ts \<noteq> ''OFFSET''"
    using rest by (simp_all add: clause_heads_def)
  have c7: "cur_val ?t7 \<notin> {''JOIN'', ''INNER'', ''LEFT'', ''WHERE'', ''ORDER'', ''LIMIT''}"
    using cur_val_count [of "''OFFSET''" 0 "sel_Offset s" ts] r by auto
  have c6: "cur_val ?t6 \<notin> {''JOIN'', ''INNER'', ''LEFT'', ''WHERE'', ''ORDER''}"
    using cur_val_count [of "''LIMIT''" "-1" "sel_Limit s" ?t7] c7 by auto
  have c5: "cur_val ?t5 \<notin> {''JOIN'', ''INNER'', ''LEFT'', ''WHERE''}"
    using cur_val_order [of "sel_OrderBy s" "sel_OrderDir s" ?t6] c6 by auto
  have c4: "cur_val ?t4 \<notin> {''JOIN'', ''INNER'', ''LEFT''}"
    using cur_val_where [of "sel_Condition s" ?t5] c5 by auto
  have k: "\<forall>j. sel_Join s = Some j \<longrightarrow> join_ok j" "\<forall>c. sel_Condition s = Some c \<longrightarrow> cond_ok c"
    "order_ok (sel_OrderBy s) (sel_OrderDir s)" "sel_Limit s = - 1 \<or> unat (sel_Limit s) < 2 ^ 63"
    "sel_Offset s = 0 \<or> unat (sel_Offset s) < 2 ^ 63"
    using ok by (simp_all add: select_ok_def)
  have "parseJoin (join_tokens (sel_Join s) @ ?t4) = Ok (sel_Join s, ?t4)" by (rule parseJoin_tokens [OF k(1) c4])
  moreover have "parseWhere ?t4 = Ok (sel_Condition s, ?t5)" by (rule parseWhere_tokens [OF k(2)]) (use c5 in simp)
  moreover have "parseOrderBy ?t5 = Ok ((sel_OrderBy s, sel_OrderDir s), ?t6)"
    by (rule parseOrderBy_tokens [OF k(3)]) (use c6 in simp)
  moreover have "parseCount ''LIMIT'' (-1) ?t6 = Ok (sel_Limit s, ?t7)"
    by (rule parseCount_tokens [OF k(4)]) (use c7 in simp)
  moreover have "parseCount ''OFFSET'' 0 ?t7 = Ok (sel_Offset s, ts)"
    by (rule parseCount_tokens [OF k(5) r(7)])
  moreover have "select_columns (items_tokens is @ kw ''FROM'' # x) [] [] = Ok ((sel_Columns s, sel_Aggregates s), kw ''FROM'' # x)" for x
    using select_columns_tokens [of "is"] ok by (simp add: select_ok_def)
  ultimately show ?thesis using ok
    by (simp add: parseSelect_def select_tokens_def select_ok_def)
qed

section \<open>CREATE TABLE\<close>

text \<open>
  The columns without \<^verbatim>\<open>CHECK\<close> and \<^verbatim>\<open>REFERENCES\<close>, whose text the parser rebuilds from tokens and so
  does not keep apart. \<^verbatim>\<open>PRIMARY_KEY\<close> and \<^verbatim>\<open>NOT_NULL\<close> are single words for this parser.
\<close>

definition constraint_tokens :: "ColumnSpec \<Rightarrow> Token list" where
  "constraint_tokens c = (if cs_PrimaryKey c then [idt ''PRIMARY_KEY''] else [])
     @ (if cs_NotNull c then [idt ''NOT_NULL''] else []) @ (if cs_Unique c then [kw ''UNIQUE''] else [])
     @ (if cs_Default c = [] then [] else [kw ''DEFAULT'', tok TokenString (cs_Default c)])
     @ (if cs_AutoIncrement c then [kw ''AUTOINCREMENT''] else [])"

definition column_tokens :: "ColumnSpec \<Rightarrow> Token list" where
  "column_tokens c = idt (cs_Name c) # kw (cs_Type c) # constraint_tokens c"

definition column_ok :: "ColumnSpec \<Rightarrow> bool" where
  "column_ok c \<longleftrightarrow> cs_Name c \<noteq> '')'' \<and> cs_Check c = [] \<and> cs_References c = [] \<and> (cs_PrimaryKey c \<longrightarrow> cs_NotNull c)"

fun columns_tokens :: "ColumnSpec list \<Rightarrow> Token list" where
  "columns_tokens [] = []"
| "columns_tokens [c] = column_tokens c"
| "columns_tokens (c # d # cs) = column_tokens c @ punct '','' # columns_tokens (d # cs)"

lemma constraints_stop: "cur_val ts \<in> {'','', '')''} \<Longrightarrow> constraints ts col = Ok (col, ts)"
  by (subst constraints.simps) auto

lemma constraints_words:
  "constraints (idt ''PRIMARY_KEY'' # ts) col = constraints ts (col\<lparr>cs_PrimaryKey := True, cs_NotNull := True\<rparr>)"
  "constraints (idt ''NOT_NULL'' # ts) col = constraints ts (col\<lparr>cs_NotNull := True\<rparr>)"
  "constraints (kw ''UNIQUE'' # ts) col = constraints ts (col\<lparr>cs_Unique := True\<rparr>)"
  "constraints (kw ''AUTOINCREMENT'' # ts) col = constraints ts (col\<lparr>cs_AutoIncrement := True\<rparr>)"
  by (subst constraints.simps, simp add: Let_def)+

lemma constraints_default:
  "constraints (kw ''DEFAULT'' # tok TokenString d # ts) col = constraints ts (col\<lparr>cs_Default := d\<rparr>)"
proof -
  have "parseExpression (tok TokenString d # ts) = Ok (Literal d, ts)" by (simp add: parseExpression_def)
  then show ?thesis by (subst constraints.simps) (simp add: Let_def parseDefault_def)
qed

lemma constraints_tokens:
  assumes "column_ok c" "cur_val ts \<in> {'','', '')''}"
  shows "constraints (constraint_tokens c @ ts) (new_column (cs_Name c) (cs_Type c)) = Ok (c, ts)"
proof -
  have "c = \<lparr>cs_Name = cs_Name c, cs_Type = cs_Type c, cs_NotNull = cs_NotNull c, cs_PrimaryKey = cs_PrimaryKey c,
      cs_AutoIncrement = cs_AutoIncrement c, cs_Unique = cs_Unique c, cs_Default = cs_Default c,
      cs_Check = [], cs_References = []\<rparr>"
    using assms(1) by (intro ColumnSpec.equality) (simp_all add: column_ok_def)
  then show ?thesis using assms
    by (simp add: constraint_tokens_def constraints_words constraints_default constraints_stop [OF assms(2)] new_column_def
        column_ok_def) auto
qed

lemma table_one_column:
  assumes "column_ok c" "cur_val ts \<in> {'','', '')''}"
  shows "table_columns (column_tokens c @ ts) acc = table_columns ts (acc @ [c])"
  using assms constraints_tokens [OF assms] by (subst table_columns.simps) (simp add: column_tokens_def column_ok_def is_comma_def)

lemma table_comma: "table_columns (punct '','' # ts) acc = table_columns ts acc"
  by (subst table_columns.simps) (simp add: is_comma_def)

lemma table_columns_tokens:
  "\<forall>c \<in> set cs. column_ok c \<Longrightarrow> table_columns (columns_tokens cs @ punct '')'' # ts) acc = Ok (acc @ cs, ts)"
proof (induction cs arbitrary: acc rule: columns_tokens.induct)
  case 1
  then show ?case by (simp add: table_columns.simps)
next
  case (2 c)
  then show ?case by (simp add: table_one_column table_columns.simps [of "punct '')'' # ts"])
next
  case (3 c d cs)
  then show ?case by (simp add: table_one_column table_comma)
qed

definition create_tokens :: "CreateTableStatement \<Rightarrow> Token list" where
  "create_tokens s = [kw ''CREATE'', kw ''TABLE''] @ (if ct_IfNotExists s then [kw ''IF'', kw ''NOT'', kw ''EXISTS''] else [])
     @ [idt (ct_Table s), punct ''(''] @ columns_tokens (ct_Columns s) @ [punct '')'']"

section \<open>Statements\<close>

fun stmt_tokens :: "sel_item list \<Rightarrow> Statement \<Rightarrow> Token list" where
  "stmt_tokens is (SelectStmt s) = select_tokens is s"
| "stmt_tokens is (InsertStmt s) = insert_tokens s"
| "stmt_tokens is (CreateTableStmt s) = create_tokens s"
| "stmt_tokens is (CreateIndexStmt s) = index_tokens s"
| "stmt_tokens is (DeleteStmt s) = delete_tokens s"
| "stmt_tokens is (UpdateStmt s) = update_tokens s"
| "stmt_tokens is (DropTableStmt s) = drop_tokens s"

fun stmt_ok :: "sel_item list \<Rightarrow> Statement \<Rightarrow> bool" where
  "stmt_ok is (SelectStmt s) = select_ok is s"
| "stmt_ok is (InsertStmt s) = ((\<forall>c \<in> set (ins_Columns s). c \<noteq> '')'')
     \<and> (\<forall>e \<in> set (ins_Values s). plain e \<and> tk_Value (expr_token e) \<noteq> '')''))"
| "stmt_ok is (CreateTableStmt s) = ((\<forall>c \<in> set (ct_Columns s). column_ok c) \<and> ct_Table s \<noteq> ''IF'')"
| "stmt_ok is (CreateIndexStmt s) = True"
| "stmt_ok is (DeleteStmt s) = (\<forall>c. del_Condition s = Some c \<longrightarrow> cond_ok c)"
| "stmt_ok is (UpdateStmt s) = (upd_Updates s \<noteq> [] \<and> (\<forall>u \<in> set (upd_Updates s). plain (up_Value u))
     \<and> (\<forall>c. upd_Condition s = Some c \<longrightarrow> cond_ok c))"
| "stmt_ok is (DropTableStmt s) = (dr_Table s \<noteq> ''IF'')"

lemma parseDelete_tokens:
  "\<forall>c. del_Condition s = Some c \<longrightarrow> cond_ok c \<Longrightarrow> cur_val ts \<noteq> ''WHERE'' \<Longrightarrow> parseDelete (delete_tokens s @ ts) = Ok (s, ts)"
  by (simp add: parseDelete_def delete_tokens_def parseWhere_tokens)

lemma parseUpdate_tokens:
  assumes ok: "stmt_ok is (UpdateStmt s)" and r: "cur_val ts \<noteq> ''WHERE''" "cur_val ts \<noteq> '',''"
  shows "parseUpdate (update_tokens s @ ts) = Ok (s, ts)"
proof -
  have "cur_val (where_tokens (upd_Condition s) @ ts) \<noteq> '',''"
    using cur_val_where [of "upd_Condition s" ts] r by auto
  then show ?thesis using ok r by (simp add: parseUpdate_def update_tokens_def parseWhere_tokens update_pairs_tokens)
qed

lemma parseInsert_tokens:
  "stmt_ok is (InsertStmt s) \<Longrightarrow> parseInsert (insert_tokens s @ ts) = Ok (s, ts)"
  by (simp add: parseInsert_def insert_tokens_def insert_columns_commas insert_values_commas)

lemma parseCreateTable_tokens:
  "stmt_ok is (CreateTableStmt s) \<Longrightarrow> parseCreateTable (tl (create_tokens s) @ ts) = Ok (s, ts)"
  by (simp add: parseCreateTable_def create_tokens_def table_columns_tokens)

lemma parseDrop_tokens: "stmt_ok is (DropTableStmt s) \<Longrightarrow> parseDrop (drop_tokens s @ ts) = Ok (s, ts)"
  by (simp add: parseDrop_def drop_tokens_def)

lemma parseCreateIndex_tokens: "parseCreateIndex (tl (index_tokens s) @ ts) = Ok (s, ts)"
  by (simp add: parseCreateIndex_def index_tokens_def)

lemma tokens_head:
  "current (select_tokens is a @ ts) = kw ''SELECT''" "current (insert_tokens b @ ts) = kw ''INSERT''"
  "current (create_tokens c @ ts) = kw ''CREATE''" "current (index_tokens d @ ts) = kw ''CREATE''"
  "current (delete_tokens e @ ts) = kw ''DELETE''" "current (update_tokens f @ ts) = kw ''UPDATE''"
  "current (drop_tokens g @ ts) = kw ''DROP''"
  by (simp_all add: select_tokens_def insert_tokens_def create_tokens_def index_tokens_def delete_tokens_def
      update_tokens_def drop_tokens_def)

lemma parseCreate_tokens:
  "stmt_ok is (CreateTableStmt c) \<Longrightarrow> parseCreate (create_tokens c @ ts) = Ok (CreateTableStmt c, ts)"
  "parseCreate (index_tokens d @ ts) = Ok (CreateIndexStmt d, ts)"
proof -
  show "parseCreate (index_tokens d @ ts) = Ok (CreateIndexStmt d, ts)"
    using parseCreateIndex_tokens [of d ts] by (simp add: parseCreate_def index_tokens_def)
  assume "stmt_ok is (CreateTableStmt c)"
  then show "parseCreate (create_tokens c @ ts) = Ok (CreateTableStmt c, ts)"
    using parseCreateTable_tokens [of "is" c ts] by (simp add: parseCreate_def create_tokens_def del: stmt_ok.simps)
qed

lemma Parse_stmt_tokens:
  assumes ok: "stmt_ok is s" and rest: "cur_val ts \<notin> set clause_heads" "cur_val ts \<noteq> '',''"
  shows "Parse_tokens (stmt_tokens is s @ ts) = Ok (s, ts)"
proof -
  have w: "cur_val ts \<noteq> ''WHERE''" using rest by (simp add: clause_heads_def)
  have "Parse_tokens (select_tokens is a @ ts) = bind_out (parseSelect (select_tokens is a @ ts)) (\<lambda>(s, r). Ok (SelectStmt s, r))"
    for a by (simp add: Parse_tokens_def tokens_head) (simp add: select_tokens_def)
  moreover have "Parse_tokens (insert_tokens a @ ts) = bind_out (parseInsert (insert_tokens a @ ts)) (\<lambda>(s, r). Ok (InsertStmt s, r))"
    for a by (simp add: Parse_tokens_def tokens_head) (simp add: insert_tokens_def)
  moreover have "Parse_tokens (create_tokens a @ ts) = parseCreate (create_tokens a @ ts)"
    for a by (simp add: Parse_tokens_def tokens_head) (simp add: create_tokens_def)
  moreover have "Parse_tokens (index_tokens a @ ts) = parseCreate (index_tokens a @ ts)"
    for a by (simp add: Parse_tokens_def tokens_head) (simp add: index_tokens_def)
  moreover have "Parse_tokens (delete_tokens a @ ts) = bind_out (parseDelete (delete_tokens a @ ts)) (\<lambda>(s, r). Ok (DeleteStmt s, r))"
    for a by (simp add: Parse_tokens_def tokens_head) (simp add: delete_tokens_def)
  moreover have "Parse_tokens (update_tokens a @ ts) = bind_out (parseUpdate (update_tokens a @ ts)) (\<lambda>(s, r). Ok (UpdateStmt s, r))"
    for a by (simp add: Parse_tokens_def tokens_head) (simp add: update_tokens_def)
  moreover have "Parse_tokens (drop_tokens a @ ts) = bind_out (parseDrop (drop_tokens a @ ts)) (\<lambda>(s, r). Ok (DropTableStmt s, r))"
    for a by (simp add: Parse_tokens_def tokens_head) (simp add: drop_tokens_def)
  ultimately show ?thesis using ok rest w
    by (cases s) (simp_all add: parseSelect_tokens parseDelete_tokens parseUpdate_tokens [of "is"]
        parseInsert_tokens [of "is"] parseCreate_tokens(1) [of "is"] parseCreate_tokens(2) parseDrop_tokens [of "is"])
qed

section \<open>Tokens as text\<close>

text \<open>
  A string is written between apostrophes, or between double quotes if it contains an
  apostrophe. The language has no escapes: a string with both cannot be written.
\<close>

definition quote :: char where "quote = CHR 0x27"
definition dquote :: char where "dquote = CHR 0x22"
definition quote_for :: "string \<Rightarrow> char" where "quote_for v = (if quote \<in> set v then dquote else quote)"

declare lex_from.simps(2) [simp del]

definition token_text :: "Token \<Rightarrow> string" where
  "token_text t = (if tk_Type t = TokenString then quote_for (tk_Value t) # tk_Value t @ [quote_for (tk_Value t)] else tk_Value t)"

definition word_ok :: "Token \<Rightarrow> bool" where
  "word_ok t \<longleftrightarrow> tk_Value t \<noteq> [] \<and> word_start (hd (tk_Value t)) \<and> (\<forall>c \<in> set (tk_Value t). word_char c)
     \<and> classify_word (tk_Value t) = t"

definition number_ok :: "string \<Rightarrow> bool" where
  "number_ok v \<longleftrightarrow> v \<noteq> [] \<and> is_digit (hd v) \<and> (\<forall>c \<in> set v. num_char c)"

definition token_ok :: "Token \<Rightarrow> bool" where
  "token_ok t = (case tk_Type t of
     TokenEOF \<Rightarrow> False
   | TokenKeyword \<Rightarrow> word_ok t
   | TokenIdentifier \<Rightarrow> word_ok t
   | TokenNumber \<Rightarrow> number_ok (tk_Value t)
   | TokenString \<Rightarrow> quote \<notin> set (tk_Value t) \<or> dquote \<notin> set (tk_Value t)
   | TokenOperator \<Rightarrow> tk_Value t \<in> {''='', ''>'', ''<'', ''!'', ''=='', ''>='', ''<='', ''!='', ''*''}
   | TokenPunctuation \<Rightarrow> tk_Value t \<in> {''('', '')'', '','', '';''})"

definition render :: "Token list \<Rightarrow> string" where
  "render ts = concat (map (\<lambda>t. token_text t @ '' '') ts)"

lemma word_start_char:
  assumes "word_start c"
  shows "word_char c" "\<not> ws_char c" "c \<noteq> CHR ''-''" "\<not> quote_char c" "\<not> is_digit c" "c \<noteq> CHR ''.''"
  using assms by (auto simp: word_start_def word_char_def ws_char_def quote_char_def is_digit_def is_lower_def is_upper_def code_def)

lemma digit_char:
  assumes "is_digit c"
  shows "num_char c" "\<not> ws_char c" "c \<noteq> CHR ''-''" "\<not> quote_char c"
  using assms by (auto simp: num_char_def ws_char_def quote_char_def is_digit_def code_def)

lemma space_char: "ws_char (CHR '' '')" "\<not> word_char (CHR '' '')" "\<not> num_char (CHR '' '')"
  by (simp_all add: ws_char_def word_char_def num_char_def is_digit_def is_lower_def is_upper_def code_def)

lemma lex_space: "lex_from pos (CHR '' '' # s) = lex_from (pos + 1) s"
  by (subst lex_from.simps(2)) (simp add: space_char)

lemma run_append:
  assumes "\<forall>c \<in> set v. P c" "\<not> P d"
  shows "takeWhile P (v @ d # s) = v" "dropWhile P (v @ d # s) = d # s"
  using assms by (induction v) simp_all

lemma lex_word:
  assumes "word_ok t"
  shows "\<exists>p. lex_from pos (tk_Value t @ CHR '' '' # s) = emit t (lex_from p s)"
proof -
  obtain c v where v: "tk_Value t = c # v" "word_start c" "\<forall>x \<in> set (c # v). word_char x" "classify_word (c # v) = t"
    using assms by (cases "tk_Value t") (auto simp: word_ok_def)
  note w = word_start_char [OF v(2)] and r = run_append [of v word_char "CHR '' ''" s, OF _ space_char(2)]
  have "lex_from pos (tk_Value t @ CHR '' '' # s) = emit t (lex_from (pos + length (c # v)) (CHR '' '' # s))"
    unfolding v(1) append_Cons using v(3,4) w r by (subst lex_from.simps(2)) (simp add: v(2))
  then show ?thesis unfolding lex_space by blast
qed

lemma lex_number:
  assumes "tk_Type t = TokenNumber" "number_ok (tk_Value t)"
  shows "\<exists>p. lex_from pos (tk_Value t @ CHR '' '' # s) = emit t (lex_from p s)"
proof -
  obtain c v where v: "tk_Value t = c # v" "is_digit c" "\<forall>x \<in> set (c # v). num_char x"
    using assms(2) by (cases "tk_Value t") (auto simp: number_ok_def)
  have t: "t = tok TokenNumber (c # v)" using assms(1) v(1) by (intro Token.equality) simp_all
  note w = digit_char [OF v(2)] and r = run_append [of v num_char "CHR '' ''" s, OF _ space_char(3)]
  have "lex_from pos (tk_Value t @ CHR '' '' # s) = emit t (lex_from (pos + length (c # v)) (CHR '' '' # s))"
    unfolding v(1) append_Cons using v(3) w r by (subst lex_from.simps(2)) (simp add: v(2) t)
  then show ?thesis unfolding lex_space by blast
qed

lemma quote_facts: "quote_char q" "\<not> ws_char q" "q \<noteq> CHR ''-''" if "q \<in> {quote, dquote}"
  using that by (auto simp: quote_def dquote_def quote_char_def ws_char_def code_def)

lemma lex_string:
  assumes "quote \<notin> set v \<or> dquote \<notin> set v"
  shows "\<exists>p. lex_from pos ((quote_for v # v @ [quote_for v]) @ CHR '' '' # s) = emit (tok TokenString v) (lex_from p s)"
proof -
  define q where "q = quote_for v"
  have q: "q \<in> {quote, dquote}" "q \<notin> set v" using assms by (auto simp: q_def quote_for_def)
  have ne: "\<forall>c \<in> set v. c \<noteq> q" using q(2) by blast
  have r: "takeWhile (\<lambda>c. c \<noteq> q) (v @ q # CHR '' '' # s) = v"
    "dropWhile (\<lambda>c. c \<noteq> q) (v @ q # CHR '' '' # s) = q # CHR '' '' # s"
    using run_append [of v "\<lambda>c. c \<noteq> q" q, OF ne] by simp_all
  have "lex_from pos ((q # v @ [q]) @ CHR '' '' # s)
      = emit (tok TokenString v) (lex_from (pos + length v + 2) (CHR '' '' # s))"
    unfolding append_Cons append_assoc append_Nil using quote_facts [OF q(1)] r by (subst lex_from.simps(2)) simp
  then show ?thesis unfolding lex_space q_def by blast
qed

lemma operator_chars:
  assumes "c \<in> {CHR ''='', CHR ''>'', CHR ''<'', CHR ''!'', CHR ''('', CHR '')'', CHR '','', CHR '';''}"
  shows "\<not> ws_char c" "c \<noteq> CHR ''-''" "\<not> quote_char c" "\<not> is_digit c" "c \<noteq> CHR ''.''" "\<not> word_start c"
  using assms by (auto simp: ws_char_def quote_char_def is_digit_def word_start_def is_lower_def is_upper_def code_def)

lemma lex_operator:
  assumes "v \<in> {''='', ''>'', ''<'', ''!'', ''=='', ''>='', ''<='', ''!=''}"
  shows "\<exists>p. lex_from pos (v @ CHR '' '' # s) = emit (tok TokenOperator v) (lex_from p s)"
proof -
  obtain c where c: "c \<in> {CHR ''='', CHR ''>'', CHR ''<'', CHR ''!''}" "v = [c] \<or> v = [c, CHR ''='']"
    using assms by auto
  have "c \<in> {CHR ''='', CHR ''>'', CHR ''<'', CHR ''!'', CHR ''('', CHR '')'', CHR '','', CHR '';''}" using c(1) by auto
  note oc = operator_chars [OF this]
  have "lex_from pos (c # CHR '' '' # s) = emit (tok TokenOperator [c]) (lex_from (pos + 1) (CHR '' '' # s))"
    using oc c(1) by (subst lex_from.simps(2)) (simp add: starts_def)
  moreover have "lex_from pos (c # CHR ''='' # CHR '' '' # s)
      = emit (tok TokenOperator [c, CHR ''='']) (lex_from (pos + 2) (CHR '' '' # s))"
    using oc c(1) by (subst lex_from.simps(2)) (simp add: starts_def)
  ultimately show ?thesis using c(2) unfolding lex_space by auto
qed

lemma lex_punct:
  assumes "v \<in> {''('', '')'', '','', '';''}"
  shows "\<exists>p. lex_from pos (v @ CHR '' '' # s) = emit (tok TokenPunctuation v) (lex_from p s)"
proof -
  obtain c where c: "c \<in> {CHR ''('', CHR '')'', CHR '','', CHR '';''}" "v = [c]" using assms by auto
  have "c \<in> {CHR ''='', CHR ''>'', CHR ''<'', CHR ''!'', CHR ''('', CHR '')'', CHR '','', CHR '';''}" using c(1) by auto
  note oc = operator_chars [OF this]
  have "lex_from pos (v @ CHR '' '' # s) = emit (tok TokenPunctuation v) (lex_from (pos + 1) (CHR '' '' # s))"
    unfolding c(2) append_Cons append_Nil using oc c(1) by (subst lex_from.simps(2)) auto
  then show ?thesis unfolding lex_space by blast
qed

lemma lex_token:
  assumes "token_ok t"
  shows "\<exists>p. lex_from pos (token_text t @ CHR '' '' # s) = emit t (lex_from p s)"
proof (cases "tk_Type t")
  case TokenOperator
  then have t: "t = tok TokenOperator (tk_Value t)" by (intro Token.equality) simp_all
  have star: "word_ok (tok TokenOperator ''*'')"
    by (simp add: word_ok_def word_start_def word_char_def) code_simp
  show ?thesis
  proof (cases "tk_Value t = ''*''")
    case True
    then have "t = tok TokenOperator ''*''" using t by simp
    then show ?thesis using lex_word [OF star] by (simp add: token_text_def)
  next
    case False
    then show ?thesis using assms TokenOperator lex_operator [of "tk_Value t"] t by (simp add: token_ok_def token_text_def)
  qed
next
  case TokenPunctuation
  then have t: "t = tok TokenPunctuation (tk_Value t)" by (intro Token.equality) simp_all
  show ?thesis using assms TokenPunctuation lex_punct [of "tk_Value t"] t by (simp add: token_ok_def token_text_def)
next
  case TokenString
  then have t: "t = tok TokenString (tk_Value t)" by (intro Token.equality) simp_all
  show ?thesis using assms TokenString lex_string [of "tk_Value t"] t by (simp add: token_ok_def token_text_def)
qed (use assms lex_word lex_number in \<open>simp_all add: token_ok_def token_text_def\<close>)

lemma lex_render: "\<forall>t \<in> set ts. token_ok t \<Longrightarrow> lex_from pos (render ts) = Ok ts"
proof (induction ts arbitrary: pos)
  case Nil
  then show ?case by (simp add: render_def)
next
  case (Cons t ts)
  obtain p where "lex_from pos (token_text t @ CHR '' '' # render ts) = emit t (lex_from p (render ts))"
    using lex_token [of t pos "render ts"] Cons.prems by auto
  then show ?case using Cons by (simp add: render_def emit_def)
qed

end
