(* ===== verification/Query.thy ===== *)
theory Query imports Row Ast "HOL-Library.AList" "HOL-Library.Multiset" begin

text \<open>
  The row-level part of \<^verbatim>\<open>pkg/executor/executor.go\<close>: conditions, ordering, limits and
  aggregates. Rows come from \<^verbatim>\<open>ScanFull\<close> with the schema of the table, so a column index found
  in the schema is an index of the row. \<^verbatim>\<open>sort.Slice\<close> is a parameter: it is not stable, and its
  documentation promises a sorted permutation when the comparison is a strict weak order.
\<close>

section \<open>Columns and conditions\<close>

fun find_col :: "nat \<Rightarrow> ColumnDef list \<Rightarrow> string \<Rightarrow> nat option" where
  "find_col i [] name = None"
| "find_col i (c # cs) name = (if EqualFold (col_Name c) name then Some i else find_col (Suc i) cs name)"

definition findColumnIndex :: "TableSchema \<Rightarrow> string \<Rightarrow> nat option" where
  "findColumnIndex schema name = find_col 0 (sch_Columns schema) name"

text \<open>\<^verbatim>\<open>strings.Compare\<close>\<close>

definition str_compare :: "string \<Rightarrow> string \<Rightarrow> int" where
  "str_compare a b = (if a = b then 0 else if str_less a b then -1 else 1)"

definition compareStrings :: "flt \<Rightarrow> string \<Rightarrow> string \<Rightarrow> int" where
  "compareStrings fl a b =
     (case (f_parse fl a, f_parse fl b) of
        (Some na, Some nb) \<Rightarrow> (if f_less fl na nb then -1 else if f_less fl nb na then 1 else 0)
      | _ \<Rightarrow> str_compare a b)"

definition evaluateCondition :: "flt \<Rightarrow> Row \<Rightarrow> TableSchema \<Rightarrow> BinaryOp \<Rightarrow> bool" where
  "evaluateCondition fl row schema cond =
     (case bo_Left cond of
        Identifier name \<Rightarrow>
          (case findColumnIndex schema name of
             None \<Rightarrow> False
           | Some colIdx \<Rightarrow>
               (let leftStr = fmt_v fl (row_Values row ! colIdx) in
                case bo_Right cond of
                  Literal rightStr \<Rightarrow>
                    (let op = bo_Operator cond; c = compareStrings fl leftStr rightStr in
                     if op = ''='' then leftStr = rightStr
                     else if op = ''!='' \<or> op = ''<>'' then leftStr \<noteq> rightStr
                     else if op = ''>'' then c > 0
                     else if op = ''<'' then c < 0
                     else if op = ''>='' then c \<ge> 0
                     else if op = ''<='' then c \<le> 0
                     else if op = ''LIKE'' then Contains leftStr rightStr
                     else False)
                | _ \<Rightarrow> False))
      | _ \<Rightarrow> False)"

definition filterRows :: "flt \<Rightarrow> Row list \<Rightarrow> TableSchema \<Rightarrow> BinaryOp \<Rightarrow> Row list" where
  "filterRows fl rows schema cond = filter (\<lambda>row. evaluateCondition fl row schema cond) rows"

definition rowsEqual :: "flt \<Rightarrow> Row \<Rightarrow> Row \<Rightarrow> bool" where
  "rowsEqual fl a b \<longleftrightarrow> length (row_Values a) = length (row_Values b)
     \<and> map (fmt_v fl) (row_Values a) = map (fmt_v fl) (row_Values b)"

fun formatValue :: "flt \<Rightarrow> val \<Rightarrow> string" where
  "formatValue fl VNil = ''NULL''"
| "formatValue fl (VFloat64 f) = f_fmt2 fl f"
| "formatValue fl (VFloat32 f) = f_fmt2 fl (f_of_f32 fl f)"
| "formatValue fl (VBool b) = (if b then ''true'' else ''false'')"
| "formatValue fl v = fmt_v fl v"

section \<open>ORDER BY, LIMIT, OFFSET\<close>

type_synonym 'a slice_sort = "('a \<Rightarrow> 'a \<Rightarrow> bool) \<Rightarrow> 'a list \<Rightarrow> 'a list"

text \<open>The comparison both sorts use, on the printed values.\<close>

definition text_before :: "flt \<Rightarrow> bool \<Rightarrow> string \<Rightarrow> string \<Rightarrow> bool" where
  "text_before fl desc a b =
     (case (f_parse fl a, f_parse fl b) of
        (Some na, Some nb) \<Rightarrow> (if desc then f_less fl nb na else f_less fl na nb)
      | _ \<Rightarrow> (if desc then str_less b a else str_less a b))"

definition applyOrderBy :: "Row slice_sort \<Rightarrow> flt \<Rightarrow> Row list \<Rightarrow> TableSchema \<Rightarrow> string \<Rightarrow> string \<Rightarrow> Row list" where
  "applyOrderBy srt fl rows schema orderBy orderDir =
     (case findColumnIndex schema orderBy of
        None \<Rightarrow> rows
      | Some colIdx \<Rightarrow>
          srt (\<lambda>a b. text_before fl (orderDir = ''DESC'')
                 (fmt_v fl (row_Values a ! colIdx)) (fmt_v fl (row_Values b ! colIdx))) rows)"

text \<open>
  \<^verbatim>\<open>limit\<close> and \<^verbatim>\<open>offset\<close> are 64-bit integers. A negative \<^verbatim>\<open>offset\<close> does not shorten the slice here.
\<close>

definition applyLimitOffset :: "Row list \<Rightarrow> i64 \<Rightarrow> i64 \<Rightarrow> Row list" where
  "applyLimitOffset rows limit offset =
     (if sint offset \<ge> int (length rows) then []
      else let rows' = (if sint offset > 0 then drop (nat (sint offset)) rows else rows);
               end = (if sint limit \<ge> 0 \<and> sint limit < int (length rows') then nat (sint limit) else length rows')
        in take end rows')"

section \<open>Aggregates\<close>

fun toFloat64 :: "flt \<Rightarrow> val \<Rightarrow> u64" where
  "toFloat64 fl (VInt i) = f_of_int fl i"
| "toFloat64 fl (VInt32 i) = f_of_int fl (scast i)"
| "toFloat64 fl (VInt64 i) = f_of_int fl i"
| "toFloat64 fl (VFloat32 f) = f_of_f32 fl f"
| "toFloat64 fl (VFloat64 f) = f"
| "toFloat64 fl _ = 0"

definition compareValues :: "flt \<Rightarrow> val \<Rightarrow> val \<Rightarrow> int" where
  "compareValues fl a b =
     (let na = toFloat64 fl a; nb = toFloat64 fl b in
      if f_less fl na nb then -1 else if f_less fl nb na then 1 else 0)"

text \<open>The values of one column, without the NULLs and the rows that are too short.\<close>

definition column_values :: "Row list \<Rightarrow> nat \<Rightarrow> val list" where
  "column_values rows colIdx =
     map (\<lambda>row. row_Values row ! colIdx)
       (filter (\<lambda>row. colIdx < length (row_Values row) \<and> row_Values row ! colIdx \<noteq> VNil) rows)"

definition sum_floats :: "flt \<Rightarrow> val list \<Rightarrow> u64" where
  "sum_floats fl vs = fold (\<lambda>v sum. f_add fl sum (toFloat64 fl v)) vs 0"

definition extreme :: "(val \<Rightarrow> val \<Rightarrow> bool) \<Rightarrow> val list \<Rightarrow> val" where
  "extreme better vs = fold (\<lambda>v best. if best = VNil \<or> better v best then v else best) vs VNil"

definition no_such_column_msg :: "string \<Rightarrow> string" where
  "no_such_column_msg name = utf8 [208, 158, 208, 168, 208, 152, 208, 145, 208, 154, 208, 144, 58, 32, 208, 186, 208, 190, 208, 187, 208, 190, 208, 189, 208, 186, 208, 176, 32, 39] @ name @ utf8 [39, 32, 208, 189, 208, 181, 32, 208, 189, 208, 176, 208, 185, 208, 180, 208, 181, 208, 189, 208, 176]"

fun aggregate_value :: "flt \<Rightarrow> string \<Rightarrow> val list \<Rightarrow> val option" where
  "aggregate_value fl f vs =
     (if f = ''COUNT'' then Some (VInt64 (word_of_nat (length vs)))
      else if f = ''SUM'' then Some (VFloat64 (sum_floats fl vs))
      else if f = ''AVG'' then
        Some (VFloat64 (if vs = [] then 0
          else f_div fl (sum_floats fl vs) (f_of_int fl (word_of_nat (length vs)))))
      else if f = ''MIN'' then Some (extreme (\<lambda>v best. f_less fl (toFloat64 fl v) (toFloat64 fl best)) vs)
      else if f = ''MAX'' then Some (extreme (\<lambda>v best. f_less fl (toFloat64 fl best) (toFloat64 fl v)) vs)
      else None)"

definition add_aggregate :: "flt \<Rightarrow> Row list \<Rightarrow> TableSchema \<Rightarrow> Aggregate \<Rightarrow> (string \<times> val) list \<Rightarrow> (string \<times> val) list" where
  "add_aggregate fl rows schema agg result =
     (let key = ag_Func agg @ ''('' @ ag_Column agg @ '')'' in
      if ToUpper (ag_Func agg) = ''COUNT'' \<and> ag_Column agg = ''*''
      then AList.update key (VInt64 (word_of_nat (length rows))) result
      else case findColumnIndex schema (ag_Column agg) of
          None \<Rightarrow> AList.update key (VString (no_such_column_msg (ag_Column agg))) result
        | Some colIdx \<Rightarrow>
            (case aggregate_value fl (ToUpper (ag_Func agg)) (column_values rows colIdx) of
               None \<Rightarrow> result
             | Some v \<Rightarrow> AList.update key v result))"

definition computeAggregates :: "flt \<Rightarrow> Row list \<Rightarrow> TableSchema \<Rightarrow> Aggregate list \<Rightarrow> (string \<times> val) list" where
  "computeAggregates fl rows schema aggs = fold (add_aggregate fl rows schema) aggs []"

end
