(* ===== verification/Joins.thy ===== *)
theory Joins imports Query begin

text \<open>
  \<^verbatim>\<open>pkg/executor/join.go\<close>: the nested-loop join over two scanned tables and the clauses
  applied to its result. Unlike the single-table query, a WHERE clause here compares the
  printed values as strings only, and \<^verbatim>\<open>LIMIT\<close> is added to \<^verbatim>\<open>OFFSET\<close> in 64 bits.
\<close>

record JoinedRow =
  jr_LeftValues :: "val list"
  jr_LeftColumns :: "string list"
  jr_RightValues :: "val list"
  jr_RightColumns :: "string list"
  jr_LeftName :: string
  jr_RightName :: string

definition columnNames :: "TableSchema \<Rightarrow> string list" where
  "columnNames schema = map col_Name (sch_Columns schema)"

definition stripTable :: "string \<Rightarrow> string" where
  "stripTable name = (case index_dot name of Some idx \<Rightarrow> drop (idx + 1) name | None \<Rightarrow> name)"

definition evaluateJoinCondition :: "flt \<Rightarrow> Row \<Rightarrow> Row \<Rightarrow> TableSchema \<Rightarrow> TableSchema \<Rightarrow> BinaryOp option \<Rightarrow> bool" where
  "evaluateJoinCondition fl leftRow rightRow leftSchema rightSchema cond =
     (case cond of
        None \<Rightarrow> True
      | Some c \<Rightarrow>
          (case (bo_Left c, bo_Right c) of
             (Identifier leftName, Identifier rightName) \<Rightarrow>
               (case (findColumnIndex leftSchema (stripTable leftName), findColumnIndex rightSchema (stripTable rightName)) of
                  (Some leftIdx, Some rightIdx) \<Rightarrow>
                    (let leftVal = row_Values leftRow ! leftIdx; rightVal = row_Values rightRow ! rightIdx in
                     if leftVal = VNil \<or> rightVal = VNil then False
                     else fmt_v fl leftVal = fmt_v fl rightVal)
                | _ \<Rightarrow> False)
           | _ \<Rightarrow> False))"

text \<open>The first loop over column names that matches yields the value at the same position.\<close>

fun lookup_name :: "(string \<Rightarrow> bool) \<Rightarrow> string list \<Rightarrow> val list \<Rightarrow> val option" where
  "lookup_name P (n # ns) (v # vs) = (if P n then Some v else lookup_name P ns vs)"
| "lookup_name P _ _ = None"

definition getJoinValue :: "JoinedRow \<Rightarrow> Expression \<Rightarrow> val" where
  "getJoinValue row expr =
     (case expr of
        Literal v \<Rightarrow> VString v
      | Identifier fullName \<Rightarrow>
          (let tableName = (case index_dot fullName of Some idx \<Rightarrow> take idx fullName | None \<Rightarrow> []);
               colName = stripTable fullName;
               fromLeft = (if tableName = [] \<or> EqualFold tableName (jr_LeftName row)
                 then lookup_name (\<lambda>n. EqualFold n colName) (jr_LeftColumns row) (jr_LeftValues row) else None);
               fromRight = (if tableName = [] \<or> EqualFold tableName (jr_RightName row)
                 then lookup_name (\<lambda>n. EqualFold n colName) (jr_RightColumns row) (jr_RightValues row) else None)
           in case fromLeft of Some v \<Rightarrow> v
              | None \<Rightarrow> (case fromRight of Some v \<Rightarrow> v | None \<Rightarrow> VNil))
      | _ \<Rightarrow> VNil)"

definition compareJoinValues :: "flt \<Rightarrow> val \<Rightarrow> val \<Rightarrow> string \<Rightarrow> bool" where
  "compareJoinValues fl left right op =
     (let leftStr = fmt_v fl left; rightStr = fmt_v fl right in
      if op = ''='' then leftStr = rightStr
      else if op = ''!='' \<or> op = ''<>'' then leftStr \<noteq> rightStr
      else if op = ''>'' then str_less rightStr leftStr
      else if op = ''<'' then str_less leftStr rightStr
      else if op = ''>='' then \<not> str_less leftStr rightStr
      else if op = ''<='' then \<not> str_less rightStr leftStr
      else False)"

definition evaluateWhereForJoin :: "flt \<Rightarrow> JoinedRow \<Rightarrow> BinaryOp option \<Rightarrow> bool" where
  "evaluateWhereForJoin fl row cond =
     (case cond of None \<Rightarrow> True
      | Some c \<Rightarrow> compareJoinValues fl (getJoinValue row (bo_Left c)) (getJoinValue row (bo_Right c)) (bo_Operator c))"

definition filterJoinedRows :: "flt \<Rightarrow> JoinedRow list \<Rightarrow> BinaryOp \<Rightarrow> JoinedRow list" where
  "filterJoinedRows fl rows cond = filter (\<lambda>row. evaluateWhereForJoin fl row (Some cond)) rows"

definition getColumnValue :: "JoinedRow \<Rightarrow> string \<Rightarrow> val" where
  "getColumnValue row colName =
     (let simpleName = stripTable colName;
          matches = (\<lambda>n. EqualFold n simpleName \<or> EqualFold n colName)
      in case lookup_name matches (jr_LeftColumns row) (jr_LeftValues row) of
           Some v \<Rightarrow> v
         | None \<Rightarrow> (case lookup_name matches (jr_RightColumns row) (jr_RightValues row) of Some v \<Rightarrow> v | None \<Rightarrow> VNil))"

definition sortJoinedRows :: "JoinedRow slice_sort \<Rightarrow> flt \<Rightarrow> JoinedRow list \<Rightarrow> string \<Rightarrow> string \<Rightarrow> JoinedRow list" where
  "sortJoinedRows srt fl rows orderBy orderDir =
     srt (\<lambda>a b. text_before fl (orderDir = ''DESC'')
            (fmt_v fl (getColumnValue a orderBy)) (fmt_v fl (getColumnValue b orderBy))) rows"

text \<open>\<^verbatim>\<open>start+limit\<close> wraps at 64 bits; a negative end makes the slice expression panic.\<close>

definition limitJoinedRows :: "JoinedRow list \<Rightarrow> i64 \<Rightarrow> i64 \<Rightarrow> (storage_err, JoinedRow list) outcome" where
  "limitJoinedRows rows limit offset =
     (let n = int (length rows) in
      if sint offset \<ge> n then Ok []
      else let end = (if sint limit \<ge> 0 \<and> sint (offset + limit) < n then sint (offset + limit) else n) in
        if 0 \<le> sint offset \<and> sint offset \<le> end
        then Ok (slice (nat (sint offset)) (nat end) rows) else Panic)"

section \<open>The join loop\<close>

definition joined_row :: "Row \<Rightarrow> val list \<Rightarrow> TableSchema \<Rightarrow> TableSchema \<Rightarrow> string \<Rightarrow> string \<Rightarrow> JoinedRow" where
  "joined_row leftRow rightValues ls rs ln rn =
     \<lparr>jr_LeftValues = row_Values leftRow, jr_LeftColumns = columnNames ls,
      jr_RightValues = rightValues, jr_RightColumns = columnNames rs,
      jr_LeftName = ln, jr_RightName = rn\<rparr>"

definition join_one :: "flt \<Rightarrow> JoinClause \<Rightarrow> string \<Rightarrow> TableSchema \<Rightarrow> TableSchema \<Rightarrow> Row list \<Rightarrow> Row \<Rightarrow> JoinedRow list" where
  "join_one fl jn ln ls rs rightRows leftRow =
     (let matched = filter (\<lambda>r. evaluateJoinCondition fl leftRow r ls rs (jn_Condition jn)) rightRows in
      if matched = [] then
        (if jn_Type jn = LeftJoin
         then [joined_row leftRow (replicate (length (sch_Columns rs)) VNil) ls rs ln (jn_Table jn)] else [])
      else map (\<lambda>r. joined_row leftRow (row_Values r) ls rs ln (jn_Table jn)) matched)"

definition join_rows :: "flt \<Rightarrow> JoinClause \<Rightarrow> string \<Rightarrow> TableSchema \<Rightarrow> TableSchema \<Rightarrow> Row list \<Rightarrow> Row list \<Rightarrow> JoinedRow list" where
  "join_rows fl jn ln ls rs leftRows rightRows = concat (map (join_one fl jn ln ls rs rightRows) leftRows)"

text \<open>Everything \<^verbatim>\<open>executeJoin\<close> does with the rows of the two tables.\<close>

definition join_query :: "JoinedRow slice_sort \<Rightarrow> flt \<Rightarrow> SelectStatement \<Rightarrow> JoinClause \<Rightarrow> TableSchema \<Rightarrow> TableSchema
    \<Rightarrow> Row list \<Rightarrow> Row list \<Rightarrow> (storage_err, string list \<times> val list list) outcome" where
  "join_query srt fl stmt jn ls rs leftRows rightRows =
     (let joined0 = join_rows fl jn (sel_Table stmt) ls rs leftRows rightRows;
          joined1 = (case sel_Condition stmt of None \<Rightarrow> joined0 | Some c \<Rightarrow> filterJoinedRows fl joined0 c);
          joined2 = (if sel_OrderBy stmt \<noteq> [] then sortJoinedRows srt fl joined1 (sel_OrderBy stmt) (sel_OrderDir stmt)
                     else joined1)
      in bind_out (if sint (sel_Limit stmt) \<ge> 0 \<or> sint (sel_Offset stmt) > 0
                   then limitJoinedRows joined2 (sel_Limit stmt) (sel_Offset stmt) else Ok joined2) (\<lambda>joined.
         let colNames = (if sel_Columns stmt = [''*''] then
                  map (\<lambda>c. sel_Table stmt @ ''.'' @ col_Name c) (sch_Columns ls)
                  @ map (\<lambda>c. jn_Table jn @ ''.'' @ col_Name c) (sch_Columns rs)
                else sel_Columns stmt)
         in Ok (colNames, map (\<lambda>row. map (\<lambda>n. getJoinValue row (Identifier n)) colNames) joined)))"

end
