(* ===== verification/SqlProps.thy ===== *)
theory SqlProps imports SqlText Joins Examples begin

text \<open>
  The properties of the SQL front end: the lexer and the parser invert the concrete syntax of
  \<open>SqlText\<close>, they always return except on an unclosed list, and LIMIT and OFFSET take the window
  they name as long as their sum does not overflow.
\<close>

section \<open>Lexer and parser\<close>

lemma returns_emit [simp]: "returns (emit t r) = returns r"
  by (simp add: emit_def)

lemma lex_from_returns: "returns (lex_from pos s)"
proof (induction "length s" arbitrary: pos s rule: less_induct)
  case less
  show ?case
  proof (cases s)
    case (Cons ch rest)
    have IH: "returns (lex_from p t)" if "length t \<le> length rest" for p t
      using less that Cons by simp
    have tl: "length (tl t) \<le> length rest" if "length t \<le> length rest" for t :: string
      using that by simp
    show ?thesis unfolding Cons
      by (subst lex_from.simps(2))
         (simp only: returns_if Let_def returns_emit returns.simps simp_thms IH length_dropWhile_le tl order_refl)
  qed simp
qed


text \<open>The small parsers always return.\<close>

named_theorems comes_back

lemma want_returns [comes_back]: "returns (want v ts)" by (simp add: want_def)
lemma ident_returns [comes_back]: "returns (ident e ts)" by (simp add: ident_def)

lemma parseExpression_returns [comes_back]: "returns (parseExpression ts)"
  using parseExpression_total by (simp add: returns_iff)

lemma parseCondition_returns [comes_back]: "returns (parseCondition ts)"
  by (auto simp: parseCondition_def comes_back)

lemma parseWhere_returns [comes_back]: "returns (parseWhere ts)"
  by (auto simp: parseWhere_def comes_back)

lemma parseAggregate_returns [comes_back]: "returns (parseAggregate ts)"
  by (auto simp: parseAggregate_def comes_back Let_def)

lemma parseJoin_returns [comes_back]: "returns (parseJoin ts)"
  by (auto simp: parseJoin_def comes_back Let_def)

lemma parseOrderBy_returns [comes_back]: "returns (parseOrderBy ts)"
  by (auto simp: parseOrderBy_def comes_back)

lemma parseCount_returns [comes_back]: "returns (parseCount w d ts)"
  by (auto simp: parseCount_def split: outcome.splits)

lemma select_columns_returns [comes_back]: "returns (select_columns ts cols aggs)"
proof (induction ts cols aggs rule: select_columns.induct)
  case (1 ts cols aggs)
  have "parseAggregate ts \<noteq> Panic" "parseAggregate ts \<noteq> Hang"
    using parseAggregate_returns [of ts] by (simp_all add: returns_iff)
  then show ?case using 1 by (subst select_columns.simps) (auto split: outcome.splits)
qed

lemma parseSelect_returns [comes_back]: "returns (parseSelect ts)"
  by (auto simp: parseSelect_def comes_back)

lemma parseDelete_returns [comes_back]: "returns (parseDelete ts)"
  by (auto simp: parseDelete_def comes_back)

lemma update_pairs_returns [comes_back]: "returns (update_pairs ts acc)"
proof (induction ts acc rule: update_pairs.induct)
  case (1 ts acc)
  have "returns (update_pair ts)" by (auto simp: update_pair_def comes_back)
  then show ?case using 1 by (subst update_pairs.simps) (auto simp: returns_iff split: outcome.splits)
qed

lemma parseUpdate_returns [comes_back]: "returns (parseUpdate ts)"
  by (auto simp: parseUpdate_def comes_back)

lemma parseDrop_returns [comes_back]: "returns (parseDrop ts)"
  by (auto simp: parseDrop_def comes_back)

lemma parseCreateIndex_returns [comes_back]: "returns (parseCreateIndex ts)"
  by (auto simp: parseCreateIndex_def comes_back)

lemma insert_values_returns [comes_back]: "returns (insert_values ts vals)"
proof (induction ts vals rule: insert_values.induct)
  case (1 ts vals)
  then show ?case using parseExpression_returns [of ts]
    by (subst insert_values.simps) (auto simp: returns_iff split: outcome.splits)
qed

text \<open>The two loops that only end at a closing parenthesis.\<close>

definition no_paren :: "Token list \<Rightarrow> bool" where
  "no_paren ts \<longleftrightarrow> (\<forall>t \<in> set ts. tk_Value t \<noteq> '')'')"

lemma insert_columns_hang: "no_paren ts \<Longrightarrow> insert_columns ts cols = Hang"
  by (induction ts cols rule: insert_columns.induct) (auto simp: no_paren_def)

lemma insert_columns_returns: "\<not> no_paren ts \<Longrightarrow> returns (insert_columns ts cols)"
  by (induction ts arbitrary: cols) (auto simp: no_paren_def)

lemma check_parts_returns: "\<not> no_paren ts \<Longrightarrow> returns (check_parts ts ps)"
  by (induction ts ps rule: check_parts.induct) (auto simp: no_paren_def)

lemma check_parts_no_panic: "check_parts ts ps \<noteq> Panic"
  by (induction ts ps rule: check_parts.induct) auto

lemma insert_columns_no_panic: "insert_columns ts cols \<noteq> Panic"
  by (induction ts cols rule: insert_columns.induct) auto

lemma constraints_no_panic: "constraints ts col \<noteq> Panic"
proof (induction ts col rule: constraints.induct)
  case (1 ts col)
  have c: "parseCheck t \<noteq> Panic" for t
    using check_parts_no_panic want_returns by (auto simp: parseCheck_def bind_out_Panic_iff returns_iff)
  have r: "parseReferences t \<noteq> Panic" for t
    using want_returns by (auto simp: parseReferences_def bind_out_Panic_iff returns_iff Let_def)
  show ?case using 1 c r by (subst constraints.simps) (auto simp: Let_def split: outcome.splits)
qed

lemma table_columns_no_panic: "table_columns ts cols \<noteq> Panic"
proof (induction ts cols rule: table_columns.induct)
  case (1 ts cols)
  then show ?case using constraints_no_panic
    by (subst table_columns.simps) (auto simp: Let_def split: outcome.splits)
qed


lemma Parse_tokens_cases:
  "Parse_tokens ts \<noteq> Panic \<and> (Parse_tokens ts = Hang \<longrightarrow> cur_val ts = ''INSERT'' \<or> cur_val ts = ''CREATE'')"
proof -
  have r: "returns (bind_out (parseSelect ts) (\<lambda>(s, r). Ok (SelectStmt s, r)))"
    "returns (bind_out (parseDelete ts) (\<lambda>(s, r). Ok (DeleteStmt s, r)))"
    "returns (bind_out (parseUpdate ts) (\<lambda>(s, r). Ok (UpdateStmt s, r)))"
    "returns (bind_out (parseDrop ts) (\<lambda>(s, r). Ok (DropTableStmt s, r)))"
    by (auto simp: comes_back)
  have i: "parseInsert ts \<noteq> Panic"
    using insert_values_returns want_returns ident_returns insert_columns_no_panic
    by (auto simp: parseInsert_def bind_out_Panic_iff returns_iff)
  have t: "parseCreateTable t \<noteq> Panic" for t
    using want_returns ident_returns table_columns_no_panic
    by (auto simp: parseCreateTable_def bind_out_Panic_iff returns_iff)
  have "parseCreate ts \<noteq> Panic"
    using t parseCreateIndex_returns by (auto simp: parseCreate_def bind_out_Panic_iff returns_iff Let_def)
  then show ?thesis using r i by (auto simp: Parse_tokens_def returns_iff bind_out_Panic_iff)
qed

text \<open>C6: A statement written as text, with its words in upper case, blanks between the tokens and strings
  between quotes, parses back to exactly this statement. Covered are DELETE, UPDATE, DROP TABLE, CREATE
  INDEX, INSERT, CREATE TABLE without CHECK and REFERENCES and with a keyword as type, and SELECT with
  columns, * and aggregates (of a column or of *), one INNER or LEFT JOIN, one WHERE condition (LIKE
  included), ORDER BY with a direction, and non-negative LIMIT and OFFSET; the statement has to be
  one the parser can build (no nested expressions) and one the language can write: names are not
  keywords, no string contains both kinds of quotes, no inserted value is a lone closing parenthesis and
  no table is named IF.\<close>

theorem statement_text_roundtrip:
  assumes "stmt_ok is s" "\<forall>t \<in> set (stmt_tokens is s). token_ok t"
  shows "Lex (render (stmt_tokens is s)) = Ok (stmt_tokens is s)
    \<and> Parse (render (stmt_tokens is s)) = Ok s"
proof -
  have l: "Lex (render (stmt_tokens is s)) = Ok (stmt_tokens is s)"
    using lex_render [OF assms(2)] by (simp add: Lex_def)
  have "Parse_tokens (stmt_tokens is s @ []) = Ok (s, [])"
    by (rule Parse_stmt_tokens [OF assms(1)]) (simp_all add: clause_heads_def)
  then show ?thesis using l by (simp add: Parse_def)
qed

definition demo_select :: SelectStatement where
  "demo_select = \<lparr>sel_Table = ''users'', sel_Columns = [''name'', ''*'', ''COUNT(*)''],
     sel_Aggregates = [\<lparr>ag_Func = ''COUNT'', ag_Column = ''*'', ag_Alias = []\<rparr>],
     sel_Condition = Some \<lparr>bo_Left = Identifier ''users.name'', bo_Operator = ''LIKE'',
       bo_Right = Literal (''it'' @ [quote] @ ''s %'')\<rparr>,
     sel_Join = Some \<lparr>jn_Type = LeftJoin, jn_Table = ''orders'', jn_Condition =
       Some \<lparr>bo_Left = Identifier ''users.id'', bo_Operator = ''='', bo_Right = Identifier ''orders.uid''\<rparr>\<rparr>,
     sel_OrderBy = ''name'', sel_OrderDir = ''DESC'', sel_Limit = 10, sel_Offset = 3, sel_GroupBy = []\<rparr>"

abbreviation demo_items :: "sel_item list" where "demo_items \<equiv> [Column ''name'', Column ''*'', Agg ''COUNT'' ''*'']"

lemma demo_select_tokens: "\<forall>t \<in> set (stmt_tokens demo_items (SelectStmt demo_select)). token_ok t"
  by code_simp

theorem statement_text_roundtrip_witness:
  "Parse (render (stmt_tokens demo_items (SelectStmt demo_select))) = Ok (SelectStmt demo_select)
    \<and> Parse ''SELECT * FROM users '' = Ok (SelectStmt \<lparr>sel_Table = ''users'', sel_Columns = [''*''], sel_Aggregates = [],
        sel_Condition = None, sel_Join = None, sel_OrderBy = [], sel_OrderDir = [], sel_Limit = -1, sel_Offset = 0,
        sel_GroupBy = []\<rparr>)"
proof -
  have ok: "stmt_ok demo_items (SelectStmt demo_select)"
    by (simp add: select_ok_def demo_select_def is_aggregate_def join_ok_def cond_ok_def order_ok_def)
  let ?all = "SelectStmt \<lparr>sel_Table = ''users'', sel_Columns = [''*''], sel_Aggregates = [], sel_Condition = None,
    sel_Join = None, sel_OrderBy = [], sel_OrderDir = [], sel_Limit = -1, sel_Offset = 0, sel_GroupBy = []\<rparr>"
  have all: "stmt_ok [Column ''*''] ?all" by (simp add: select_ok_def is_aggregate_def order_ok_def)
  have "\<forall>t \<in> set (stmt_tokens [Column ''*''] ?all). token_ok t" by code_simp
  moreover have "render (stmt_tokens [Column ''*''] ?all) = ''SELECT * FROM users ''" by code_simp
  ultimately show ?thesis
    using statement_text_roundtrip [OF ok demo_select_tokens] statement_text_roundtrip [OF all] by simp
qed

text \<open>The parser looks at nothing behind the first complete statement: whatever follows, unless it
  continues the last clause, is dropped without an error. In particular a second condition
  joined by AND is ignored.\<close>

theorem trailing_tokens_are_ignored:
  assumes "stmt_ok is s" "cur_val ts \<notin> set clause_heads" "cur_val ts \<noteq> '',''"
  shows "Parse_tokens (stmt_tokens is s @ ts) = Ok (s, ts)"
  using Parse_stmt_tokens [OF assms] .

theorem trailing_tokens_are_ignored_witness:
  "Parse_tokens ([kw ''DELETE'', kw ''FROM'', idt ''t'', kw ''WHERE'', idt ''a'', tok TokenOperator ''='', tok TokenString ''1'']
     @ [kw ''AND'', idt ''b'', tok TokenOperator ''='', tok TokenString ''2''])
   = Ok (DeleteStmt \<lparr>del_Table = ''t'', del_Condition =
       Some \<lparr>bo_Left = Identifier ''a'', bo_Operator = ''='', bo_Right = Literal ''1''\<rparr>\<rparr>,
     [kw ''AND'', idt ''b'', tok TokenOperator ''='', tok TokenString ''2''])"
  using trailing_tokens_are_ignored [of "[]" "DeleteStmt \<lparr>del_Table = ''t'', del_Condition =
       Some \<lparr>bo_Left = Identifier ''a'', bo_Operator = ''='', bo_Right = Literal ''1''\<rparr>\<rparr>"
     "[kw ''AND'', idt ''b'', tok TokenOperator ''='', tok TokenString ''2'']"]
  by (simp add: cond_ok_def clause_heads_def delete_tokens_def where_tokens_def cond_tokens_def op_token_def)

text \<open>C36: Lexing and parsing never panic, and they always return, with a statement or an error, unless
  the text starts with INSERT or CREATE.\<close>

theorem parsing_returns:
  "Parse input \<noteq> Panic \<and> (Parse input = Hang \<longrightarrow>
     (\<exists>ts. Lex input = Ok ts \<and> (cur_val ts = ''INSERT'' \<or> cur_val ts = ''CREATE'')))"
  using lex_from_returns [of 0 input] Parse_tokens_cases
  by (cases "Lex input") (auto simp: Parse_def Lex_def bind_out_Panic_iff split: outcome.splits
      elim!: bind_out.elims)


theorem parsing_returns_witness:
  "Parse ''INSERT INTO t (a'' = Hang \<and> (\<exists>ts. Lex ''INSERT INTO t (a'' = Ok ts)"
proof -
  have "Parse ''INSERT INTO t (a'' = Hang" by code_simp
  then show ?thesis using parsing_returns [of "''INSERT INTO t (a''"] by blast
qed

text \<open>An INSERT whose column list is never closed sends the parser into an endless loop: the loop
  ends only at a token with the value ), which may also be a string literal.\<close>

theorem unclosed_column_list_hangs:
  "Parse_tokens (kw ''INSERT'' # kw ''INTO'' # idt t # punct ''('' # ts) = Hang \<longleftrightarrow> no_paren ts"
proof -
  have run: "Parse_tokens (kw ''INSERT'' # kw ''INTO'' # idt t # punct ''('' # ts)
      = bind_out (parseInsert (kw ''INSERT'' # kw ''INTO'' # idt t # punct ''('' # ts)) (\<lambda>(s, r). Ok (InsertStmt s, r))"
    by (simp add: Parse_tokens_def)
  show ?thesis
  proof (cases "no_paren ts")
    case True
    then show ?thesis unfolding run by (simp add: parseInsert_def insert_columns_hang)
  next
    case False
    then have "returns (parseInsert (kw ''INSERT'' # kw ''INTO'' # idt t # punct ''('' # ts))"
      using insert_columns_returns by (auto simp: parseInsert_def comes_back)
    then show ?thesis using False unfolding run by (cases "parseInsert (kw ''INSERT'' # kw ''INTO'' # idt t # punct ''('' # ts)") auto
  qed
qed

section \<open>Query operators\<close>

text \<open>LIMIT and OFFSET of a single-table query skip offset rows and keep at most limit of the rest, for
  all 64-bit values; a negative limit keeps all, a negative offset skips none.\<close>

theorem limit_offset_takes_a_window:
  "applyLimitOffset rows limit offset =
     (let r = drop (nat (sint offset)) rows in if sint limit \<ge> 0 then take (nat (sint limit)) r else r)"
  by (auto simp: applyLimitOffset_def Let_def)

lemma sint_add_wrap:
  fixes a b :: i64
  assumes "0 \<le> sint a" "0 \<le> sint b"
  shows "sint (a + b) = (if sint a + sint b < 2 ^ 63 then sint a + sint b else sint a + sint b - 2 ^ 64)"
proof -
  have b: "sint a < 2 ^ 63" "sint b < 2 ^ 63" using sint_less [of a] sint_less [of b] by simp_all
  have "sint (a + b) = signed_take_bit 63 (sint a + sint b)"
    using signed_take_bit_add [of 63 "sint a" "sint b"] by (simp add: sint_word_ariths(1))
  also have "\<dots> = (sint a + sint b + 2 ^ 63) mod 2 ^ 64 - 2 ^ 63"
    by (simp add: signed_take_bit_eq_take_bit_shift take_bit_eq_mod)
  finally have e: "sint (a + b) = (sint a + sint b + 2 ^ 63) mod 2 ^ 64 - 2 ^ 63" .
  show ?thesis
  proof (cases "sint a + sint b < 2 ^ 63")
    case True
    then have "(sint a + sint b + 2 ^ 63) mod 2 ^ 64 = sint a + sint b + 2 ^ 63"
      using assms by (intro mod_pos_pos_trivial) simp_all
    then show ?thesis using e True by simp
  next
    case False
    have "(sint a + sint b + 2 ^ 63) mod 2 ^ 64 = (sint a + sint b - 2 ^ 63 + 2 ^ 64) mod 2 ^ 64"
      by (simp add: ac_simps)
    also have "\<dots> = (sint a + sint b - 2 ^ 63) mod 2 ^ 64" by (rule mod_add_self2)
    also have "\<dots> = sint a + sint b - 2 ^ 63"
      using False b by (intro mod_pos_pos_trivial) simp_all
    finally show ?thesis using e False by simp
  qed
qed

text \<open>For a join the same window is computed from offset + limit in 64 bits. It is right as long as
  the sum does not overflow; when it does, the slice bounds are wrong and the query panics.\<close>

theorem join_limit_panics_on_overflow:
  assumes "0 \<le> sint offset"
  shows "limitJoinedRows rows limit offset =
     (if sint offset < int (length rows) \<and> 0 \<le> sint limit \<and> 2 ^ 63 \<le> sint offset + sint limit then Panic
      else let r = drop (nat (sint offset)) rows in Ok (if sint limit \<ge> 0 then take (nat (sint limit)) r else r))"
proof (cases "sint offset < int (length rows) \<and> 0 \<le> sint limit")
  case False
  then show ?thesis using assms by (auto simp: limitJoinedRows_def Let_def slice_def)
next
  case True
  note w = sint_add_wrap [OF assms, of limit] and lt = sint_less [of offset] sint_less [of limit]
  show ?thesis
  proof (cases "sint offset + sint limit < 2 ^ 63")
    case small: True
    then have "sint (offset + limit) = sint offset + sint limit" using w True by simp
    then show ?thesis using assms True small
      by (auto simp: limitJoinedRows_def Let_def slice_def nat_add_distrib)
  next
    case big: False
    then have "sint (offset + limit) = sint offset + sint limit - 2 ^ 64" using w True by simp
    then have "sint (offset + limit) < 0" using lt by simp
    then show ?thesis using assms True big by (auto simp: limitJoinedRows_def Let_def)
  qed
qed

definition demo_joined :: JoinedRow where
  "demo_joined = joined_row demo_row [VNil] demo_schema demo_schema ''l'' ''r''"

theorem join_limit_panics_on_overflow_witness:
  "limitJoinedRows [demo_joined] 9223372036854775807 0 = Ok [demo_joined]
    \<and> limitJoinedRows [demo_joined, demo_joined] 9223372036854775807 1 = Panic"
  using join_limit_panics_on_overflow [of 0 "[demo_joined]" 9223372036854775807]
    join_limit_panics_on_overflow [of 1 "[demo_joined, demo_joined]" 9223372036854775807]
  by simp

text \<open>A strict weak order on a set of values.\<close>

definition weak_order_on :: "val set \<Rightarrow> (val \<Rightarrow> val \<Rightarrow> bool) \<Rightarrow> bool" where
  "weak_order_on S lt \<longleftrightarrow> (\<forall>u \<in> S. \<forall>v \<in> S. lt u v \<longrightarrow> \<not> lt v u) \<and> (\<forall>u \<in> S. \<forall>v \<in> S. \<forall>w \<in> S. lt u w \<longrightarrow> lt u v \<or> lt v w)"

lemma fold_least:
  assumes "weak_order_on S lt" "VNil \<notin> S" "insert best (set vs) \<subseteq> S"
  shows "fold (\<lambda>v best. if best = VNil \<or> lt v best then v else best) vs best \<in> insert best (set vs)
    \<and> (\<forall>v \<in> insert best (set vs). \<not> lt v (fold (\<lambda>v best. if best = VNil \<or> lt v best then v else best) vs best))"
  using assms(3)
proof (induction vs arbitrary: best)
  case Nil
  then show ?case using assms(1) by (auto simp: weak_order_on_def)
next
  case (Cons v vs)
  let ?f = "\<lambda>v best. if best = VNil \<or> lt v best then v else best"
  have b: "best \<noteq> VNil" "best \<in> S" "v \<in> S" using assms(2) Cons.prems by auto
  define b' where "b' = (if lt v best then v else best)"
  define m where "m = fold ?f vs b'"
  have IH: "m \<in> insert b' (set vs)" "\<forall>x \<in> insert b' (set vs). \<not> lt x m"
    using Cons.IH [of b'] Cons.prems b by (auto simp: b'_def m_def)
  have mS: "m \<in> S" using IH(1) Cons.prems b by (auto simp: b'_def split: if_splits)
  have O: "\<And>u v w. u \<in> S \<Longrightarrow> v \<in> S \<Longrightarrow> w \<in> S \<Longrightarrow> lt u w \<Longrightarrow> lt u v \<or> lt v w" "\<And>u v. u \<in> S \<Longrightarrow> v \<in> S \<Longrightarrow> lt u v \<Longrightarrow> \<not> lt v u"
    using assms(1) by (auto simp: weak_order_on_def)
  have "\<not> lt b' m" using IH(2) by simp
  then have "\<not> lt best m \<and> \<not> lt v m"
    using O(1) [OF b(2,3) mS] O(1) [OF b(3,2) mS] O(2) [OF b(2,3)] b by (auto simp: b'_def split: if_splits)
  moreover have "fold ?f (v # vs) best = m" using b by (simp add: m_def b'_def)
  moreover have "m \<in> insert best (set (v # vs))" using IH(1) by (auto simp: b'_def split: if_splits)
  ultimately show ?case using IH(2) by auto
qed

lemma column_values_no_null: "VNil \<notin> set (column_values rows idx)"
  by (auto simp: column_values_def)

lemma extreme_least:
  assumes "weak_order_on (set vs) lt" "VNil \<notin> set vs" "vs \<noteq> []"
  shows "extreme lt vs \<in> set vs \<and> (\<forall>v \<in> set vs. \<not> lt v (extreme lt vs))"
proof (cases vs)
  case (Cons v us)
  then show ?thesis using fold_least [OF assms(1,2), of v us] by (simp add: extreme_def)
qed (use assms(3) in simp)

text \<open>MIN and MAX of a column with a non-NULL value are values of the column that no other value is
  below, respectively above, provided the float comparison is a strict weak order on them (that
  is, there is no NaN among them).\<close>

theorem min_max_are_extreme:
  assumes "column_values rows idx \<noteq> []"
    and "weak_order_on (set (column_values rows idx)) (\<lambda>u v. f_less fl (toFloat64 fl u) (toFloat64 fl v))"
  shows "\<exists>lo \<in> set (column_values rows idx). \<exists>hi \<in> set (column_values rows idx).
    aggregate_value fl ''MIN'' (column_values rows idx) = Some lo
    \<and> aggregate_value fl ''MAX'' (column_values rows idx) = Some hi
    \<and> (\<forall>v \<in> set (column_values rows idx). \<not> f_less fl (toFloat64 fl v) (toFloat64 fl lo)
         \<and> \<not> f_less fl (toFloat64 fl hi) (toFloat64 fl v))"
proof -
  let ?lt = "\<lambda>u v. f_less fl (toFloat64 fl u) (toFloat64 fl v)"
  have "weak_order_on (set (column_values rows idx)) (\<lambda>u v. ?lt v u)"
    using assms(2) unfolding weak_order_on_def by blast
  from extreme_least [OF this column_values_no_null assms(1)] extreme_least [OF assms(2) column_values_no_null assms(1)]
  show ?thesis by auto
qed

definition demo_rows :: "Row list" where
  "demo_rows = map (\<lambda>v. \<lparr>row_RID = InvalidRID, row_Values = [v]\<rparr>) [VInt32 5, VNil, VInt32 3, VInt32 9]"

theorem min_max_are_extreme_witness:
  "\<exists>lo hi. aggregate_value demo_flt ''MIN'' (column_values demo_rows 0) = Some lo
    \<and> aggregate_value demo_flt ''MAX'' (column_values demo_rows 0) = Some hi
    \<and> lo \<in> {VInt32 5, VInt32 3, VInt32 9} \<and> hi \<in> {VInt32 5, VInt32 3, VInt32 9}"
proof -
  have c: "column_values demo_rows 0 = [VInt32 5, VInt32 3, VInt32 9]"
    by (simp add: column_values_def demo_rows_def)
  have "weak_order_on (set (column_values demo_rows 0)) (\<lambda>u v. f_less demo_flt (toFloat64 demo_flt u) (toFloat64 demo_flt v))"
    by (auto simp: weak_order_on_def demo_flt_def c)
  from min_max_are_extreme [OF _ this] show ?thesis by (simp add: c)
qed

text \<open>The comparison behind ORDER BY is not an order: it compares numerically when both values are
  numbers and as text otherwise, so values can precede each other in a circle, for which a sort
  has no sorted result.\<close>

theorem order_by_comparison_is_cyclic:
  "text_before demo_flt False ''9'' ''10'' \<and> text_before demo_flt False ''10'' ''1a'' \<and> text_before demo_flt False ''1a'' ''9''"
  by (simp add: text_before_def demo_flt_def Atoi_def is_digit_def code_def)

end
