(* ===== verification/Catalog.thy ===== *)
theory Catalog imports StorageTypes "HOL-Library.AList" begin

text \<open>
  \<^verbatim>\<open>pkg/catalog/catalog.go\<close>: the table schemas, kept in memory and in a JSON file that is
  rewritten on every change. The in-memory map is an association list without duplicate
  keys; the order in which Go ranges over a map is unspecified, so nothing below depends on
  the order of the list. \<^verbatim>\<open>encoding/json\<close> is the pair of functions \<open>enc\<close> and \<open>dec\<close>, the second
  partial; the file is its contents, or absent.
\<close>

type_synonym schemas = "(string \<times> TableSchema) list"

record json_codec =
  js_enc :: "schemas \<Rightarrow> byte list"
  js_dec :: "byte list \<Rightarrow> schemas option"

record Catalog =
  cat_file :: "byte list option"
  cat_writable :: bool
  cat_Schemas :: schemas

text \<open>\<^verbatim>\<open>json.Unmarshal\<close> into an empty map; its error is dropped and the map stays empty.\<close>

definition NewCatalog :: "json_codec \<Rightarrow> byte list option \<Rightarrow> bool \<Rightarrow> Catalog" where
  "NewCatalog js file writable =
     \<lparr>cat_file = file, cat_writable = writable,
      cat_Schemas = (case file of None \<Rightarrow> []
        | Some data \<Rightarrow> (case js_dec js data of None \<Rightarrow> [] | Some m \<Rightarrow> m))\<rparr>"

definition Catalog_Save :: "json_codec \<Rightarrow> Catalog \<Rightarrow> (storage_err, unit) outcome \<times> Catalog" where
  "Catalog_Save js c =
     (if cat_writable c then (Ok (), c\<lparr>cat_file := Some (js_enc js (cat_Schemas c))\<rparr>)
      else (Err CatalogWriteFailed, c))"

definition Catalog_AddTable :: "json_codec \<Rightarrow> TableSchema \<Rightarrow> Catalog \<Rightarrow> (storage_err, unit) outcome \<times> Catalog" where
  "Catalog_AddTable js schema c =
     (if map_of (cat_Schemas c) (sch_Name schema) \<noteq> None then (Err (TableExists (sch_Name schema)), c)
      else Catalog_Save js (c\<lparr>cat_Schemas := AList.update (sch_Name schema) schema (cat_Schemas c)\<rparr>))"

definition Catalog_GetTable :: "string \<Rightarrow> Catalog \<Rightarrow> TableSchema option" where
  "Catalog_GetTable name c = map_of (cat_Schemas c) name"

definition Catalog_ListTables :: "Catalog \<Rightarrow> string list" where
  "Catalog_ListTables c = map fst (cat_Schemas c)"

definition Catalog_RemoveTable :: "json_codec \<Rightarrow> string \<Rightarrow> Catalog \<Rightarrow> (storage_err, unit) outcome \<times> Catalog" where
  "Catalog_RemoveTable js name c =
     (if map_of (cat_Schemas c) name = None then (Err (TableNotFound name), c)
      else Catalog_Save js (c\<lparr>cat_Schemas := AList.delete name (cat_Schemas c)\<rparr>))"

section \<open>The catalog keeps one schema per name, and its file describes it\<close>

definition catalog_ok :: "Catalog \<Rightarrow> bool" where
  "catalog_ok c \<longleftrightarrow> distinct (map fst (cat_Schemas c))
     \<and> (\<forall>(name, schema) \<in> set (cat_Schemas c). sch_Name schema = name)"

lemma AddTable_ok:
  "catalog_ok c \<Longrightarrow> catalog_ok (snd (Catalog_AddTable js schema c))"
proof -
  assume ok: "catalog_ok c"
  have d: "distinct (map fst (AList.update (sch_Name schema) schema (cat_Schemas c)))"
    using ok by (simp add: catalog_ok_def distinct_update)
  have "\<forall>(n, s) \<in> set (AList.update (sch_Name schema) schema (cat_Schemas c)). sch_Name s = n"
  proof -
    have "set (AList.update k v al) \<subseteq> insert (k, v) (set al)" for k v and al :: schemas
      by (induction al) auto
    then have "set (AList.update (sch_Name schema) schema (cat_Schemas c))
        \<subseteq> insert (sch_Name schema, schema) (set (cat_Schemas c))" .
    moreover have "\<forall>(n, s) \<in> insert (sch_Name schema, schema) (set (cat_Schemas c)). sch_Name s = n"
      using ok by (simp add: catalog_ok_def)
    ultimately show ?thesis by blast
  qed
  then show ?thesis using ok d by (simp add: Catalog_AddTable_def Catalog_Save_def catalog_ok_def)
qed

lemma RemoveTable_ok: "catalog_ok c \<Longrightarrow> catalog_ok (snd (Catalog_RemoveTable js name c))"
proof -
  assume ok: "catalog_ok c"
  have "distinct (map fst (AList.delete name (cat_Schemas c)))"
    using ok by (simp add: catalog_ok_def distinct_delete)
  moreover have "set (AList.delete name (cat_Schemas c)) \<subseteq> set (cat_Schemas c)"
    by (simp add: AList.delete_eq)
  ultimately show ?thesis using ok
    by (auto simp: Catalog_RemoveTable_def Catalog_Save_def catalog_ok_def)
qed

lemma AddTable_lookup:
  assumes "cat_writable c" "Catalog_GetTable (sch_Name schema) c = None"
  shows "fst (Catalog_AddTable js schema c) = Ok ()
    \<and> Catalog_GetTable n (snd (Catalog_AddTable js schema c))
        = (if n = sch_Name schema then Some schema else Catalog_GetTable n c)"
  using assms by (simp add: Catalog_AddTable_def Catalog_GetTable_def Catalog_Save_def update_conv')

lemma RemoveTable_lookup:
  assumes "cat_writable c" "Catalog_GetTable name c \<noteq> None"
  shows "fst (Catalog_RemoveTable js name c) = Ok ()
    \<and> Catalog_GetTable n (snd (Catalog_RemoveTable js name c)) = (if n = name then None else Catalog_GetTable n c)"
  using assms by (simp add: Catalog_RemoveTable_def Catalog_GetTable_def Catalog_Save_def delete_conv')

text \<open>Loading the file written by the last successful change restores the schemas.\<close>

lemma Save_NewCatalog:
  assumes "js_dec js (js_enc js (cat_Schemas c)) = Some (cat_Schemas c)" "Catalog_Save js c = (Ok (), c')"
  shows "cat_Schemas (NewCatalog js (cat_file c') w) = cat_Schemas c"
  using assms by (auto simp: Catalog_Save_def NewCatalog_def split: if_splits)

end
