(* ===== verification/Node.thy ===== *)
theory Node imports Disk begin

text \<open>
  \<^verbatim>\<open>pkg/index/node.go\<close>: the node of the B+ tree and its page format. A node is mutated in place
  by the Go code; the model returns the new node. Slice expressions that leave the bounds of
  a slice panic.
\<close>

definition MaxKeys :: nat where "MaxKeys = 200"

datatype NodeType = InternalNode | LeafNode | OtherNode byte

record Node =
  nd_Type :: NodeType
  nd_Keys :: "i64 list"
  nd_Children :: "u64 list"
  nd_Values :: "byte list list"
  nd_Next :: u64
  nd_PageID :: u64

fun type_byte :: "NodeType \<Rightarrow> byte" where
  "type_byte InternalNode = 0"
| "type_byte LeafNode = 1"
| "type_byte (OtherNode b) = b"

definition byte_type :: "byte \<Rightarrow> NodeType" where
  "byte_type b = (if b = 0 then InternalNode else if b = 1 then LeafNode else OtherNode b)"

definition NewNode :: "u64 \<Rightarrow> NodeType \<Rightarrow> Node" where
  "NewNode pageID nodeType = \<lparr>nd_Type = nodeType, nd_Keys = [], nd_Children = [], nd_Values = [],
     nd_Next = 0, nd_PageID = pageID\<rparr>"

definition Node_IsFull :: "Node \<Rightarrow> bool" where
  "Node_IsFull n \<longleftrightarrow> length (nd_Keys n) \<ge> MaxKeys"

definition Node_IsLeaf :: "Node \<Rightarrow> bool" where
  "Node_IsLeaf n \<longleftrightarrow> nd_Type n = LeafNode"

section \<open>FindKey\<close>

text \<open>The binary search over \<open>left..right\<close>; \<open>right\<close> is -1 when the window becomes empty at 0.\<close>

function find_loop :: "i64 list \<Rightarrow> i64 \<Rightarrow> int \<Rightarrow> int \<Rightarrow> int" where
  "find_loop keys key left right =
     (if left \<le> right then
        let mid = (left + right) div 2 in
        if keys ! nat mid = key then mid
        else if sint (keys ! nat mid) < sint key then find_loop keys key (mid + 1) right
        else find_loop keys key left (mid - 1)
      else left)"
  by auto
termination by (relation "measure (\<lambda>(_, _, left, right). nat (right - left + 1))") auto

declare find_loop.simps [simp del]

definition Node_FindKey :: "Node \<Rightarrow> i64 \<Rightarrow> nat" where
  "Node_FindKey n key = nat (find_loop (nd_Keys n) key 0 (int (length (nd_Keys n)) - 1))"

section \<open>InsertKey and SplitNode\<close>

definition insert_nth :: "nat \<Rightarrow> 'a \<Rightarrow> 'a list \<Rightarrow> 'a list" where
  "insert_nth i x xs = take i xs @ x # drop i xs"

definition Node_InsertKey :: "i64 \<Rightarrow> u64 \<Rightarrow> byte list \<Rightarrow> Node \<Rightarrow> (storage_err, Node) outcome" where
  "Node_InsertKey key child v n =
     (let pos = Node_FindKey n key;
          n1 = n\<lparr>nd_Keys := insert_nth pos key (nd_Keys n)\<rparr>
      in if Node_IsLeaf n then
           (if pos \<le> length (nd_Values n) then Ok (n1\<lparr>nd_Values := insert_nth pos v (nd_Values n)\<rparr>) else Panic)
         else
           (if pos + 1 \<le> length (nd_Children n)
            then Ok (n1\<lparr>nd_Children := insert_nth (pos + 1) child (nd_Children n)\<rparr>) else Panic))"

text \<open>Returns the shrunken node, the new right sibling and the separator.\<close>

definition Node_SplitNode :: "u64 \<Rightarrow> Node \<Rightarrow> (storage_err, Node \<times> Node \<times> i64) outcome" where
  "Node_SplitNode newPageID n =
     (let mid = length (nd_Keys n) div 2 in
      if mid \<ge> length (nd_Keys n) then Panic
      else let splitKey = nd_Keys n ! mid; newNode = NewNode newPageID (nd_Type n) in
        if Node_IsLeaf n then
          (if mid \<le> length (nd_Values n) then
             Ok (n\<lparr>nd_Keys := take mid (nd_Keys n), nd_Values := take mid (nd_Values n), nd_Next := newPageID\<rparr>,
                 newNode\<lparr>nd_Keys := drop mid (nd_Keys n), nd_Values := drop mid (nd_Values n), nd_Next := nd_Next n\<rparr>,
                 splitKey)
           else Panic)
        else
          (if mid + 1 \<le> length (nd_Children n) then
             Ok (n\<lparr>nd_Keys := take mid (nd_Keys n), nd_Children := take (mid + 1) (nd_Children n)\<rparr>,
                 newNode\<lparr>nd_Keys := drop (mid + 1) (nd_Keys n), nd_Children := drop (mid + 1) (nd_Children n)\<rparr>,
                 splitKey)
           else Panic))"

section \<open>Serialize and DeserializeNode\<close>

text \<open>The write cursor: position and buffer. A \<^verbatim>\<open>PutUint64(buf[pos:pos+8], x)\<close> past the end panics.\<close>

definition put_buf :: "byte list \<Rightarrow> nat \<times> byte list \<Rightarrow> (storage_err, nat \<times> byte list) outcome" where
  "put_buf bs c = (case c of (pos, buf) \<Rightarrow>
     if pos + length bs \<le> length buf then Ok (pos + length bs, overwrite pos bs buf) else Panic)"

fun put_words :: "u64 list \<Rightarrow> nat \<times> byte list \<Rightarrow> (storage_err, nat \<times> byte list) outcome" where
  "put_words [] c = Ok c"
| "put_words (w # ws) c = bind_out (put_buf (put64 w) c) (put_words ws)"

text \<open>\<^verbatim>\<open>copy(buf[pos:], v)\<close> copies what still fits; the cursor advances by the whole length.\<close>

definition copy_buf :: "byte list \<Rightarrow> nat \<times> byte list \<Rightarrow> (storage_err, nat \<times> byte list) outcome" where
  "copy_buf v c = (case c of (pos, buf) \<Rightarrow>
     if pos \<le> length buf then Ok (pos + length v, overwrite pos (take (length buf - pos) v) buf) else Panic)"

fun put_values :: "byte list list \<Rightarrow> nat \<times> byte list \<Rightarrow> (storage_err, nat \<times> byte list) outcome" where
  "put_values [] c = Ok c"
| "put_values (v # vs) c =
     bind_out (put_buf (put16 (word_of_nat (length v))) c)
       (\<lambda>c1. bind_out (copy_buf v c1) (put_values vs))"

definition Node_Serialize :: "Node \<Rightarrow> (storage_err, byte list) outcome" where
  "Node_Serialize n =
     bind_out (put_buf [type_byte (nd_Type n)] (0, replicate PageSize 0)) (\<lambda>c1.
     bind_out (put_buf (put16 (word_of_nat (length (nd_Keys n)))) c1) (\<lambda>c2.
     bind_out (put_buf (put64 (nd_Next n)) c2) (\<lambda>c3.
     bind_out (put_words (nd_Keys n) c3) (\<lambda>c4.
     bind_out (if \<not> Node_IsLeaf n then put_words (nd_Children n) c4 else Ok c4) (\<lambda>c5.
     bind_out (if Node_IsLeaf n then put_values (nd_Values n) c5 else Ok c5) (\<lambda>c6.
     Ok (snd c6)))))))"

fun get_words :: "nat \<Rightarrow> byte list \<Rightarrow> nat \<Rightarrow> (storage_err, u64 list \<times> nat) outcome" where
  "get_words 0 data pos = Ok ([], pos)"
| "get_words (Suc k) data pos =
     (if pos + 8 \<le> length data then
        bind_out (get_words k data (pos + 8))
          (\<lambda>(ws, p). Ok (get64 (slice pos (pos + 8) data) # ws, p))
      else Panic)"

fun get_values :: "nat \<Rightarrow> byte list \<Rightarrow> nat \<Rightarrow> (storage_err, byte list list \<times> nat) outcome" where
  "get_values 0 data pos = Ok ([], pos)"
| "get_values (Suc k) data pos =
     (if pos + 2 \<le> length data then
        let valLen = unat (get16 (slice pos (pos + 2) data)) in
        if pos + 2 + valLen \<le> length data then
          bind_out (get_values k data (pos + 2 + valLen))
            (\<lambda>(vs, p). Ok (slice (pos + 2) (pos + 2 + valLen) data # vs, p))
        else Panic
      else Panic)"

text \<open>
  The number of children is computed in \<^verbatim>\<open>uint16\<close> for the allocation and in \<^verbatim>\<open>int\<close> for the loop;
  with 65535 keys the allocation would be empty and the first store would panic.
\<close>

definition DeserializeNode :: "byte list \<Rightarrow> u64 \<Rightarrow> (storage_err, Node) outcome" where
  "DeserializeNode data pageID =
     (if length data < 3 then Err (NodeTooShort (length data))
      else if length data < 11 then Panic
      else let nodeType = byte_type (data ! 0);
               keyCount = get16 (slice 1 3 data);
               next = get64 (slice 3 11 data)
      in bind_out (get_words (unat keyCount) data 11) (\<lambda>(keys, pos).
         bind_out (if nodeType = InternalNode
                   then (if unat (keyCount + 1) < unat keyCount + 1 then Panic
                         else get_words (unat keyCount + 1) data pos)
                   else Ok ([], pos)) (\<lambda>(children, pos1).
         bind_out (if nodeType = LeafNode then get_values (unat keyCount) data pos1 else Ok ([], pos1)) (\<lambda>(vals, _).
         Ok \<lparr>nd_Type = nodeType, nd_Keys = keys, nd_Children = children, nd_Values = vals,
             nd_Next = next, nd_PageID = pageID\<rparr>))))"

section \<open>The binary search finds the insertion point\<close>

text \<open>Keys are compared as signed integers; a node in order has strictly increasing keys.\<close>

definition increasing :: "i64 list \<Rightarrow> bool" where
  "increasing ks \<longleftrightarrow> sorted_wrt (\<lambda>a b. sint a < sint b) ks"

lemma increasing_nth: "increasing ks \<Longrightarrow> i < j \<Longrightarrow> j < length ks \<Longrightarrow> sint (ks ! i) < sint (ks ! j)"
  by (simp add: increasing_def sorted_wrt_iff_nth_less)

lemma sint_eq: "sint (a :: i64) = sint b \<longleftrightarrow> a = b"
  by (auto intro: signed_word_eqI)

lemma find_loop_spec:
  shows "increasing keys \<Longrightarrow> 0 \<le> left \<Longrightarrow> right < int (length keys) \<Longrightarrow> left \<le> right + 1 \<Longrightarrow>
    (\<And>i. int i < left \<Longrightarrow> sint (keys ! i) < sint key) \<Longrightarrow>
    (\<And>i. right < int i \<Longrightarrow> i < length keys \<Longrightarrow> sint key \<le> sint (keys ! i)) \<Longrightarrow>
    0 \<le> find_loop keys key left right \<and> find_loop keys key left right \<le> int (length keys)
    \<and> (\<forall>i. int i < find_loop keys key left right \<longrightarrow> sint (keys ! i) < sint key)
    \<and> (\<forall>i. find_loop keys key left right \<le> int i \<longrightarrow> i < length keys \<longrightarrow> sint key \<le> sint (keys ! i))"
proof (induction keys key left right rule: find_loop.induct)
  case (1 keys key left right)
  note inc = "1.prems"(1)
  let ?mid = "(left + right) div 2"
  show ?case
  proof (cases "left \<le> right")
    case False
    then have "find_loop keys key left right = left" by (simp add: find_loop.simps)
    then show ?thesis using "1.prems" False by auto
  next
    case True
    have mid: "left \<le> ?mid" "?mid \<le> right" "nat ?mid < length keys" "0 \<le> ?mid"
      using True "1.prems"(2-4) by (auto simp: nat_less_iff)
    have below: "sint (keys ! i) < sint (keys ! nat ?mid)" if "int i < ?mid" for i
    proof -
      have "i < nat ?mid" using that by linarith
      then show ?thesis using mid(3) by (rule increasing_nth [OF inc])
    qed
    have above: "sint (keys ! nat ?mid) < sint (keys ! i)" if "?mid < int i" "i < length keys" for i
      using increasing_nth [OF inc, of "nat ?mid" i] that mid by (simp add: nat_less_iff)
    consider (eq) "keys ! nat ?mid = key" | (less) "keys ! nat ?mid \<noteq> key" "sint (keys ! nat ?mid) < sint key"
      | (greater) "keys ! nat ?mid \<noteq> key" "sint key < sint (keys ! nat ?mid)"
      using sint_eq [of "keys ! nat ?mid" key] by linarith
    then show ?thesis
    proof cases
      case eq
      then have "find_loop keys key left right = ?mid" using True by (simp add: find_loop.simps Let_def)
      moreover have "sint key \<le> sint (keys ! i)" if "?mid \<le> int i" "i < length keys" for i
        using above [of i] that eq by (cases "?mid = int i") auto
      ultimately show ?thesis using below eq mid "1.prems"(3) by auto
    next
      case less
      have step: "find_loop keys key left right = find_loop keys key (?mid + 1) right"
        using True less by (subst find_loop.simps) (simp add: Let_def)
      have lo: "sint (keys ! i) < sint key" if "int i < ?mid + 1" for i
      proof (cases "int i = ?mid")
        case True
        then have "i = nat ?mid" by linarith
        then show ?thesis using less by simp
      next
        case False
        then show ?thesis using below [of i] that less by simp
      qed
      show ?thesis unfolding step
        by (rule "1.IH"(1) [OF True refl less inc _ "1.prems"(3) _ lo "1.prems"(6)]) (use mid in auto)
    next
      case greater
      have step: "find_loop keys key left right = find_loop keys key left (?mid - 1)"
        using True greater by (subst find_loop.simps) (simp add: Let_def)
      have hi: "sint key \<le> sint (keys ! i)" if "?mid - 1 < int i" "i < length keys" for i
      proof (cases "int i = ?mid")
        case True
        then have "i = nat ?mid" by linarith
        then show ?thesis using greater by simp
      next
        case False
        then show ?thesis using above [of i] that greater by simp
      qed
      have ng: "\<not> sint (keys ! nat ?mid) < sint key" using greater by simp
      show ?thesis unfolding step
        by (rule "1.IH"(2) [OF True refl greater(1) ng inc "1.prems"(2) _ _ "1.prems"(5) hi]) (use mid "1.prems"(3) in auto)
    qed
  qed
qed

lemma FindKey_point:
  assumes "increasing (nd_Keys n)"
  shows "Node_FindKey n key \<le> length (nd_Keys n)"
    "\<And>i. i < Node_FindKey n key \<Longrightarrow> sint (nd_Keys n ! i) < sint key"
    "\<And>i. Node_FindKey n key \<le> i \<Longrightarrow> i < length (nd_Keys n) \<Longrightarrow> sint key \<le> sint (nd_Keys n ! i)"
proof -
  let ?r = "find_loop (nd_Keys n) key 0 (int (length (nd_Keys n)) - 1)"
  have "0 \<le> ?r \<and> ?r \<le> int (length (nd_Keys n)) \<and> (\<forall>i. int i < ?r \<longrightarrow> sint (nd_Keys n ! i) < sint key)
    \<and> (\<forall>i. ?r \<le> int i \<longrightarrow> i < length (nd_Keys n) \<longrightarrow> sint key \<le> sint (nd_Keys n ! i))"
  proof (rule find_loop_spec [OF assms])
    fix i assume "int (length (nd_Keys n)) - 1 < int i" "i < length (nd_Keys n)"
    then show "sint key \<le> sint (nd_Keys n ! i)" by linarith
  qed simp_all
  then have S: "0 \<le> ?r" "?r \<le> int (length (nd_Keys n))"
    "\<forall>i. int i < ?r \<longrightarrow> sint (nd_Keys n ! i) < sint key"
    "\<forall>i. ?r \<le> int i \<longrightarrow> i < length (nd_Keys n) \<longrightarrow> sint key \<le> sint (nd_Keys n ! i)"
    by blast+
  have p: "int (Node_FindKey n key) = ?r" using S(1) by (simp add: Node_FindKey_def)
  show "Node_FindKey n key \<le> length (nd_Keys n)" using p S(2) by linarith
  show "sint (nd_Keys n ! i) < sint key" if "i < Node_FindKey n key" for i
  proof -
    have "int i < ?r" using that p by linarith
    then show ?thesis using S(3) by blast
  qed
  show "sint key \<le> sint (nd_Keys n ! i)" if "Node_FindKey n key \<le> i" "i < length (nd_Keys n)" for i
  proof -
    have "?r \<le> int i" using that(1) p by linarith
    then show ?thesis using S(4) that(2) by blast
  qed
qed

lemma FindKey_takeWhile:
  assumes "increasing (nd_Keys n)"
  shows "Node_FindKey n key = length (takeWhile (\<lambda>k. sint k < sint key) (nd_Keys n))"
proof -
  let ?p = "Node_FindKey n key" and ?ks = "nd_Keys n"
  have "takeWhile (\<lambda>k. sint k < sint key) ?ks = take ?p ?ks"
  proof (rule takeWhile_eq_take_P_nth)
    show "sint (?ks ! i) < sint key" if "i < ?p" "i < length ?ks" for i
      using FindKey_point(2) [OF assms] that by blast
    show "\<not> sint (?ks ! ?p) < sint key" if "?p < length ?ks"
      using FindKey_point(3) [OF assms, of key ?p] that by simp
  qed
  then show ?thesis using FindKey_point(1) [OF assms, of key] by simp
qed

section \<open>InsertKey keeps the node in order\<close>

lemma insert_nth_set: "i \<le> length xs \<Longrightarrow> set (insert_nth i x xs) = insert x (set xs)"
  unfolding insert_nth_def by (metis append_take_drop_id insert_is_Un list.simps(15) set_append sup_left_commute)

lemma length_insert_nth [simp]: "length (insert_nth i x xs) = Suc (length xs)"
  by (simp add: insert_nth_def)

lemma sorted_wrt_insert_nth:
  assumes "sorted_wrt R xs" "\<And>j. j < i \<Longrightarrow> j < length xs \<Longrightarrow> R (xs ! j) x" "\<And>j. i \<le> j \<Longrightarrow> j < length xs \<Longrightarrow> R x (xs ! j)"
  shows "sorted_wrt R (insert_nth i x xs)"
proof -
  have tk: "sorted_wrt R (take i xs)" and dr: "sorted_wrt R (drop i xs)"
    using assms(1) by (simp_all add: sorted_wrt_take sorted_wrt_drop)
  have cross: "\<forall>a \<in> set (take i xs). \<forall>b \<in> set (drop i xs). R a b"
    using assms(1) sorted_wrt_append [of R "take i xs" "drop i xs"] by simp
  have left: "\<forall>a \<in> set (take i xs). R a x" using assms(2) by (auto simp: in_set_conv_nth)
  have right: "\<forall>b \<in> set (drop i xs). R x b" using assms(3) by (auto simp: in_set_conv_nth)
  show ?thesis unfolding insert_nth_def
    using tk dr cross left right by (simp add: sorted_wrt_append)
qed

lemma InsertKey_increasing:
  assumes inc: "increasing (nd_Keys n)" and fresh: "key \<notin> set (nd_Keys n)"
    and ok: "Node_InsertKey key child v n = Ok n'"
  shows "increasing (nd_Keys n') \<and> set (nd_Keys n') = insert key (set (nd_Keys n))
    \<and> length (nd_Keys n') = Suc (length (nd_Keys n))"
proof -
  let ?p = "Node_FindKey n key"
  have k: "nd_Keys n' = insert_nth ?p key (nd_Keys n)"
    using ok by (auto simp: Node_InsertKey_def Let_def split: if_splits)
  have "sint key < sint (nd_Keys n ! j)" if "?p \<le> j" "j < length (nd_Keys n)" for j
    using FindKey_point(3) [OF inc that] fresh that sint_eq [of key "nd_Keys n ! j"] nth_mem [OF that(2)]
    by fastforce
  then have "increasing (insert_nth ?p key (nd_Keys n))"
    using inc FindKey_point(2) [OF inc] unfolding increasing_def by (intro sorted_wrt_insert_nth) auto
  then show ?thesis using k insert_nth_set FindKey_point(1) [OF inc, of key] by simp
qed

text \<open>A leaf as the finite map it stores.\<close>

definition leaf_map :: "Node \<Rightarrow> i64 \<Rightarrow> byte list option" where
  "leaf_map n = map_of (zip (nd_Keys n) (nd_Values n))"

definition leaf_ok :: "Node \<Rightarrow> bool" where
  "leaf_ok n \<longleftrightarrow> nd_Type n = LeafNode \<and> increasing (nd_Keys n) \<and> length (nd_Values n) = length (nd_Keys n)"

lemma zip_insert_nth:
  "length xs = length ys \<Longrightarrow> zip (insert_nth i x xs) (insert_nth i y ys) = insert_nth i (x, y) (zip xs ys)"
  by (simp add: insert_nth_def take_zip drop_zip)

lemma map_of_insert_nth:
  assumes "k \<notin> fst ` set xs"
  shows "map_of (insert_nth i (k, v) xs) = (map_of xs)(k \<mapsto> v)"
proof -
  have "map_of xs = map_of (take i xs @ drop i xs)" by simp
  then have split: "map_of xs = map_of (drop i xs) ++ map_of (take i xs)" by (simp only: map_of_append)
  have nin: "k \<notin> fst ` set (take i xs)" using assms by (meson image_mono set_take_subset subset_iff)
  have "map_of (insert_nth i (k, v) xs) = (map_of (drop i xs))(k \<mapsto> v) ++ map_of (take i xs)"
    by (simp add: insert_nth_def)
  also have "\<dots> = (map_of xs)(k \<mapsto> v)"
    using nin split by (simp add: map_add_upd_left dom_map_of_conv_image_fst)
  finally show ?thesis .
qed

lemma InsertKey_leaf_map:
  assumes ok: "leaf_ok n" and fresh: "key \<notin> set (nd_Keys n)"
  shows "\<exists>n'. Node_InsertKey key child v n = Ok n' \<and> leaf_ok n' \<and> leaf_map n' = (leaf_map n)(key \<mapsto> v)
    \<and> length (nd_Keys n') = Suc (length (nd_Keys n)) \<and> nd_PageID n' = nd_PageID n \<and> nd_Next n' = nd_Next n"
proof -
  let ?p = "Node_FindKey n key"
  have inc: "increasing (nd_Keys n)" and len: "length (nd_Values n) = length (nd_Keys n)"
    using ok by (simp_all add: leaf_ok_def)
  have p: "?p \<le> length (nd_Keys n)" by (rule FindKey_point(1) [OF inc])
  define n' where "n' = n\<lparr>nd_Keys := insert_nth ?p key (nd_Keys n), nd_Values := insert_nth ?p v (nd_Values n)\<rparr>"
  have run: "Node_InsertKey key child v n = Ok n'"
    using ok p len by (simp add: Node_InsertKey_def Let_def leaf_ok_def Node_IsLeaf_def n'_def)
  have "leaf_ok n'" using ok InsertKey_increasing [OF inc fresh run] len by (simp add: leaf_ok_def n'_def)
  moreover have "leaf_map n' = (leaf_map n)(key \<mapsto> v)"
  proof -
    have "key \<notin> fst ` set (zip (nd_Keys n) (nd_Values n))" using fresh by (auto dest: set_zip_leftD)
    then show ?thesis using len by (simp add: leaf_map_def n'_def zip_insert_nth map_of_insert_nth)
  qed
  ultimately show ?thesis using run by (auto simp: n'_def)
qed

text \<open>Searching a leaf: the position \<^verbatim>\<open>FindKey\<close> returns decides membership.\<close>

lemma FindKey_member:
  assumes inc: "increasing (nd_Keys n)"
  shows "(Node_FindKey n key < length (nd_Keys n) \<and> nd_Keys n ! Node_FindKey n key = key) \<longleftrightarrow> key \<in> set (nd_Keys n)"
proof
  assume "key \<in> set (nd_Keys n)"
  then obtain i where i: "i < length (nd_Keys n)" "nd_Keys n ! i = key" by (auto simp: in_set_conv_nth)
  let ?p = "Node_FindKey n key"
  have "\<not> i < ?p" using FindKey_point(2) [OF inc, of i key] i by auto
  moreover have "\<not> ?p < i"
    using FindKey_point(3) [OF inc, of key ?p] increasing_nth [OF inc, of ?p i] i by force
  ultimately have "?p = i" by simp
  then show "?p < length (nd_Keys n) \<and> nd_Keys n ! ?p = key" using i by simp
qed (auto simp: in_set_conv_nth)

lemma leaf_lookup:
  assumes ok: "leaf_ok n"
  shows "leaf_map n key = (if Node_FindKey n key < length (nd_Keys n) \<and> nd_Keys n ! Node_FindKey n key = key
     then Some (nd_Values n ! Node_FindKey n key) else None)"
proof -
  have inc: "increasing (nd_Keys n)" and len: "length (nd_Values n) = length (nd_Keys n)"
    using ok by (simp_all add: leaf_ok_def)
  have dist: "distinct (nd_Keys n)"
    using inc by (auto simp: distinct_conv_nth) (metis increasing_nth linorder_neqE_nat order_less_irrefl)
  show ?thesis
  proof (cases "key \<in> set (nd_Keys n)")
    case True
    let ?p = "Node_FindKey n key"
    have p: "?p < length (nd_Keys n)" "nd_Keys n ! ?p = key" using True FindKey_member [OF inc] by auto
    have "leaf_map n (nd_Keys n ! ?p) = Some (nd_Values n ! ?p)"
      unfolding leaf_map_def using dist len p(1) by (intro map_of_zip_nth) simp_all
    then show ?thesis using p by simp
  next
    case False
    then show ?thesis using FindKey_member [OF inc, of key] len by (auto simp: leaf_map_def map_of_eq_None_iff dest: set_zip_leftD)
  qed
qed

section \<open>SplitNode\<close>

text \<open>Splitting a full leaf cuts its map at the separator, which becomes the right leaf's first key.\<close>

lemma SplitNode_leaf:
  assumes ok: "leaf_ok n" and ne: "nd_Keys n \<noteq> []"
  shows "\<exists>l r sep. Node_SplitNode q n = Ok (l, r, sep) \<and> leaf_ok l \<and> leaf_ok r
    \<and> nd_Keys n = nd_Keys l @ nd_Keys r \<and> nd_Values n = nd_Values l @ nd_Values r
    \<and> sep = hd (nd_Keys r) \<and> nd_Keys r \<noteq> []
    \<and> (\<forall>k \<in> set (nd_Keys l). sint k < sint sep) \<and> (\<forall>k \<in> set (nd_Keys r). sint sep \<le> sint k)
    \<and> nd_Next l = q \<and> nd_Next r = nd_Next n \<and> nd_PageID l = nd_PageID n \<and> nd_PageID r = q
    \<and> length (nd_Keys l) = length (nd_Keys n) div 2"
proof -
  let ?m = "length (nd_Keys n) div 2"
  have inc: "increasing (nd_Keys n)" and len: "length (nd_Values n) = length (nd_Keys n)" and t: "nd_Type n = LeafNode"
    using ok by (simp_all add: leaf_ok_def)
  have m: "?m < length (nd_Keys n)" using ne by (cases "nd_Keys n") auto
  define l where "l = n\<lparr>nd_Keys := take ?m (nd_Keys n), nd_Values := take ?m (nd_Values n), nd_Next := q\<rparr>"
  define r where "r = (NewNode q (nd_Type n))\<lparr>nd_Keys := drop ?m (nd_Keys n), nd_Values := drop ?m (nd_Values n), nd_Next := nd_Next n\<rparr>"
  have run: "Node_SplitNode q n = Ok (l, r, nd_Keys n ! ?m)"
    using m len t by (simp add: Node_SplitNode_def Let_def Node_IsLeaf_def l_def r_def)
  have oks: "leaf_ok l" "leaf_ok r"
    using inc len t by (simp_all add: leaf_ok_def l_def r_def NewNode_def increasing_def sorted_wrt_take sorted_wrt_drop)
  have hd: "nd_Keys n ! ?m = hd (nd_Keys r)" "nd_Keys r \<noteq> []" using m by (simp_all add: r_def hd_drop_conv_nth)
  have lo: "\<forall>k \<in> set (nd_Keys l). sint k < sint (nd_Keys n ! ?m)"
    using increasing_nth [OF inc _ m] by (auto simp: l_def in_set_conv_nth)
  have hi: "\<forall>k \<in> set (nd_Keys r). sint (nd_Keys n ! ?m) \<le> sint k"
  proof
    fix k assume "k \<in> set (nd_Keys r)"
    then obtain j where j: "j < length (nd_Keys n) - ?m" "k = nd_Keys n ! (?m + j)"
      by (auto simp: r_def in_set_conv_nth)
    then show "sint (nd_Keys n ! ?m) \<le> sint k"
      using increasing_nth [OF inc, of ?m "?m + j"] by (cases j) (auto intro: less_imp_le)
  qed
  show ?thesis
    by (rule exI [of _ l], rule exI [of _ r], rule exI [of _ "nd_Keys n ! ?m"])
       (use run oks hd lo hi len m in \<open>auto simp: l_def r_def NewNode_def\<close>)
qed

text \<open>Splitting an internal node moves the middle key up: it stays in neither half.\<close>

lemma SplitNode_internal:
  assumes t: "nd_Type n = InternalNode" and inc: "increasing (nd_Keys n)"
    and ch: "length (nd_Children n) = length (nd_Keys n) + 1" and ne: "nd_Keys n \<noteq> []"
  shows "\<exists>l r sep. Node_SplitNode q n = Ok (l, r, sep)
    \<and> nd_Keys n = nd_Keys l @ sep # nd_Keys r \<and> nd_Children n = nd_Children l @ nd_Children r
    \<and> length (nd_Children l) = length (nd_Keys l) + 1 \<and> length (nd_Children r) = length (nd_Keys r) + 1
    \<and> increasing (nd_Keys l) \<and> increasing (nd_Keys r)
    \<and> (\<forall>k \<in> set (nd_Keys l). sint k < sint sep) \<and> (\<forall>k \<in> set (nd_Keys r). sint sep < sint k)
    \<and> nd_Type l = InternalNode \<and> nd_Type r = InternalNode \<and> nd_PageID l = nd_PageID n \<and> nd_PageID r = q"
proof -
  let ?m = "length (nd_Keys n) div 2"
  have m: "?m < length (nd_Keys n)" using ne by (cases "nd_Keys n") auto
  define l where "l = n\<lparr>nd_Keys := take ?m (nd_Keys n), nd_Children := take (?m + 1) (nd_Children n)\<rparr>"
  define r where "r = (NewNode q (nd_Type n))\<lparr>nd_Keys := drop (?m + 1) (nd_Keys n), nd_Children := drop (?m + 1) (nd_Children n)\<rparr>"
  have run: "Node_SplitNode q n = Ok (l, r, nd_Keys n ! ?m)"
    using m ch t by (simp add: Node_SplitNode_def Let_def Node_IsLeaf_def l_def r_def)
  have split: "nd_Keys n = nd_Keys l @ nd_Keys n ! ?m # nd_Keys r"
    using m by (simp add: l_def r_def id_take_nth_drop)
  then have "increasing (nd_Keys l @ nd_Keys n ! ?m # nd_Keys r)" using inc by simp
  then have "increasing (nd_Keys l)" "increasing (nd_Keys r)" "\<forall>k \<in> set (nd_Keys l). sint k < sint (nd_Keys n ! ?m)"
    "\<forall>k \<in> set (nd_Keys r). sint (nd_Keys n ! ?m) < sint k"
    by (simp_all add: increasing_def sorted_wrt_append)
  moreover have "nd_Children n = nd_Children l @ nd_Children r"
    "length (nd_Children l) = length (nd_Keys l) + 1" "length (nd_Children r) = length (nd_Keys r) + 1"
    "nd_Type l = InternalNode" "nd_Type r = InternalNode" "nd_PageID l = nd_PageID n" "nd_PageID r = q"
    using m ch t by (simp_all add: l_def r_def NewNode_def)
  ultimately show ?thesis using run split by blast
qed

section \<open>The page format of a node\<close>

definition values_bytes :: "byte list list \<Rightarrow> byte list" where
  "values_bytes vs = concat (map (\<lambda>v. put16 (word_of_nat (length v)) @ v) vs)"

definition words_bytes :: "u64 list \<Rightarrow> byte list" where
  "words_bytes ws = concat (map put64 ws)"

definition node_payload :: "Node \<Rightarrow> byte list" where
  "node_payload n = type_byte (nd_Type n) # put16 (word_of_nat (length (nd_Keys n))) @ put64 (nd_Next n)
     @ words_bytes (nd_Keys n) @ (if Node_IsLeaf n then values_bytes (nd_Values n) else words_bytes (nd_Children n))"

lemma length_words_bytes [simp]: "length (words_bytes ws) = 8 * length ws"
  by (induction ws) (simp_all add: words_bytes_def)

text \<open>A buffer whose first \<open>length out\<close> bytes have been written, the rest still zero.\<close>

definition filled :: "byte list \<Rightarrow> nat \<times> byte list" where
  "filled out = (length out, out @ replicate (PageSize - length out) 0)"

lemma put_buf_filled:
  "length out + length bs \<le> PageSize \<Longrightarrow> put_buf bs (filled out) = Ok (filled (out @ bs))"
  by (simp add: put_buf_def filled_def overwrite_def)

lemma put_buf_full: "length out \<le> PageSize \<Longrightarrow> PageSize < length out + length bs \<Longrightarrow> put_buf bs (filled out) = Panic"
  by (simp add: put_buf_def filled_def)

lemma copy_buf_filled:
  "length out + length bs \<le> PageSize \<Longrightarrow> copy_buf bs (filled out) = Ok (filled (out @ bs))"
  by (simp add: copy_buf_def filled_def overwrite_def)

lemma put_words_filled:
  "length out + 8 * length ws \<le> PageSize \<Longrightarrow> put_words ws (filled out) = Ok (filled (out @ words_bytes ws))"
proof (induction ws arbitrary: out)
  case (Cons w ws)
  then show ?case using Cons.IH [of "out @ put64 w"] by (simp add: put_buf_filled words_bytes_def)
qed (simp add: words_bytes_def)

lemma put_values_filled:
  "length out + length (values_bytes vs) \<le> PageSize \<Longrightarrow> put_values vs (filled out) = Ok (filled (out @ values_bytes vs))"
proof (induction vs arbitrary: out)
  case (Cons v vs)
  then show ?case using Cons.IH [of "out @ put16 (word_of_nat (length v)) @ v"]
    by (simp add: put_buf_filled copy_buf_filled values_bytes_def)
qed (simp add: values_bytes_def)

lemma Serialize_payload:
  assumes "length (node_payload n) \<le> PageSize"
  shows "Node_Serialize n = Ok (node_payload n @ replicate (PageSize - length (node_payload n)) 0)"
proof -
  define a1 where "a1 = [type_byte (nd_Type n)]"
  define a2 where "a2 = a1 @ put16 (word_of_nat (length (nd_Keys n)))"
  define a3 where "a3 = a2 @ put64 (nd_Next n)"
  define a4 where "a4 = a3 @ words_bytes (nd_Keys n)"
  have p: "node_payload n = a4 @ (if Node_IsLeaf n then values_bytes (nd_Values n) else words_bytes (nd_Children n))"
    by (simp add: node_payload_def a1_def a2_def a3_def a4_def)
  have len: "length a4 \<le> PageSize" using assms p by simp
  have l4: "length a4 = 11 + 8 * length (nd_Keys n)" by (simp add: a1_def a2_def a3_def a4_def)
  have s1: "put_buf [type_byte (nd_Type n)] (0, replicate PageSize 0) = Ok (filled a1)"
    using put_buf_filled [of "[]" a1] by (simp add: filled_def a1_def layout)
  have s2: "put_buf (put16 (word_of_nat (length (nd_Keys n)))) (filled a1) = Ok (filled a2)"
    unfolding a2_def by (rule put_buf_filled) (simp add: a1_def layout)
  have s3: "put_buf (put64 (nd_Next n)) (filled a2) = Ok (filled a3)"
    unfolding a3_def by (rule put_buf_filled) (simp add: a1_def a2_def layout)
  have s4: "put_words (nd_Keys n) (filled a3) = Ok (filled a4)"
    unfolding a4_def by (rule put_words_filled) (use len l4 in \<open>simp add: a1_def a2_def a3_def\<close>)
  have s5: "put_values (nd_Values n) (filled a4) = Ok (filled (node_payload n))" if "Node_IsLeaf n"
    using that p assms put_values_filled [of a4 "nd_Values n"] by simp
  have s6: "put_words (nd_Children n) (filled a4) = Ok (filled (node_payload n))" if "\<not> Node_IsLeaf n"
    using that p assms put_words_filled [of a4 "nd_Children n"] by simp
  show ?thesis unfolding Node_Serialize_def s1 bind_out.simps s2 s3 s4
    using s5 s6 by (cases "Node_IsLeaf n") (simp_all add: filled_def)
qed

lemma slice_app3: "slice (length a) (length a + length b) (a @ b @ c) = b"
  by (simp add: slice_def)

lemma get_words_spec:
  "get_words (length ws) (pre @ words_bytes ws @ post) (length pre) = Ok (ws, length pre + 8 * length ws)"
proof (induction ws arbitrary: pre)
  case (Cons w ws)
  have "slice (length pre) (length pre + 8) (pre @ put64 w @ words_bytes ws @ post) = put64 w"
    using slice_app3 [of pre "put64 w" "words_bytes ws @ post"] by simp
  moreover have "get_words (length ws) (pre @ put64 w @ words_bytes ws @ post) (length pre + 8)
      = Ok (ws, length pre + 8 + 8 * length ws)"
    using Cons.IH [of "pre @ put64 w"] by simp
  ultimately show ?case by (simp add: words_bytes_def)
qed (simp add: words_bytes_def)

lemma get_values_spec:
  "\<forall>v \<in> set vs. length v < 65536 \<Longrightarrow>
   get_values (length vs) (pre @ values_bytes vs @ post) (length pre) = Ok (vs, length pre + length (values_bytes vs))"
proof (induction vs arbitrary: pre)
  case (Cons v vs)
  let ?len = "put16 (word_of_nat (length v))"
  let ?data = "pre @ ?len @ v @ values_bytes vs @ post"
  have "slice (length pre) (length pre + 2) ?data = ?len"
    using slice_app3 [of pre ?len "v @ values_bytes vs @ post"] by simp
  then have l: "unat (get16 (slice (length pre) (length pre + 2) ?data)) = length v"
    using Cons.prems by (simp add: unat_of_nat)
  have v: "slice (length pre + 2) (length pre + 2 + length v) ?data = v"
    using slice_app3 [of "pre @ ?len" v "values_bytes vs @ post"] by simp
  have "get_values (length vs) ?data (length pre + 2 + length v)
      = Ok (vs, length pre + 2 + length v + length (values_bytes vs))"
    using Cons.IH [of "pre @ ?len @ v"] Cons.prems by (simp add: add.assoc)
  then show ?case using l v by (simp add: values_bytes_def Let_def add.assoc del: add_2_eq_Suc add_2_eq_Suc')
qed (simp add: values_bytes_def)

lemma byte_type_byte: "nd_Type n = InternalNode \<or> nd_Type n = LeafNode \<Longrightarrow> byte_type (type_byte (nd_Type n)) = nd_Type n"
  by (auto simp: byte_type_def)

text \<open>
  A node whose payload fits the page, with as many children or values as its kind requires
  and values shorter than 64 KB, is read back as it was written.
\<close>

definition node_wf :: "Node \<Rightarrow> bool" where
  "node_wf n \<longleftrightarrow> (nd_Type n = LeafNode \<and> nd_Children n = [] \<and> length (nd_Values n) = length (nd_Keys n)
        \<and> (\<forall>v \<in> set (nd_Values n). length v < 65536))
     \<or> (nd_Type n = InternalNode \<and> nd_Values n = [] \<and> length (nd_Children n) = length (nd_Keys n) + 1)"

lemma Serialize_roundtrip:
  assumes wf: "node_wf n" and fits: "length (node_payload n) \<le> PageSize"
  shows "\<exists>data. Node_Serialize n = Ok data \<and> length data = PageSize \<and> DeserializeNode data (nd_PageID n) = Ok n"
proof -
  let ?k = "length (nd_Keys n)"
  let ?kc = "word_of_nat ?k :: u16"
  define pre where "pre = type_byte (nd_Type n) # put16 ?kc @ put64 (nd_Next n)"
  define rest where "rest = (if Node_IsLeaf n then values_bytes (nd_Values n) else words_bytes (nd_Children n))"
  define pad where "pad = replicate (PageSize - length (node_payload n)) (0 :: byte)"
  define data where "data = pre @ words_bytes (nd_Keys n) @ rest @ pad"
  have ser: "Node_Serialize n = Ok data"
    using Serialize_payload [OF fits] by (simp add: data_def pre_def rest_def pad_def node_payload_def)
  have len: "length data = PageSize" using fits by (simp add: data_def pre_def rest_def pad_def node_payload_def)
  have lp: "length pre = 11" by (simp add: pre_def)
  have "8 * ?k < PageSize" using fits by (simp add: node_payload_def)
  then have kk: "?k < 512" by (simp add: layout)
  then have kc: "unat ?kc = ?k" "unat (?kc + 1) = ?k + 1" by (simp_all add: unat_of_nat unat_word_ariths)
  have head: "data ! 0 = type_byte (nd_Type n)" "slice 1 3 data = put16 ?kc" "slice 3 11 data = put64 (nd_Next n)"
    by (simp_all add: data_def pre_def slice_def)
  have t: "byte_type (type_byte (nd_Type n)) = nd_Type n" using wf byte_type_byte by (auto simp: node_wf_def)
  have keys: "get_words ?k data 11 = Ok (nd_Keys n, 11 + 8 * ?k)"
    using get_words_spec [of "nd_Keys n" pre "rest @ pad"] lp by (simp add: data_def)
  show ?thesis
  proof (cases "nd_Type n = LeafNode")
    case True
    then have w: "nd_Children n = []" "length (nd_Values n) = ?k" "\<forall>v \<in> set (nd_Values n). length v < 65536"
      using wf by (auto simp: node_wf_def)
    have "get_values ?k data (11 + 8 * ?k) = Ok (nd_Values n, 11 + 8 * ?k + length (values_bytes (nd_Values n)))"
      using get_values_spec [OF w(3), of "pre @ words_bytes (nd_Keys n)" pad] lp w(2) True
      by (simp add: data_def rest_def Node_IsLeaf_def)
    then have "DeserializeNode data (nd_PageID n) = Ok n"
      using True w(1) len head t keys kc by (simp add: DeserializeNode_def Let_def layout)
    then show ?thesis using ser len by blast
  next
    case False
    then have w: "nd_Type n = InternalNode" "nd_Values n = []" "length (nd_Children n) = ?k + 1"
      using wf by (auto simp: node_wf_def)
    have "get_words (?k + 1) data (11 + 8 * ?k) = Ok (nd_Children n, 11 + 8 * ?k + 8 * (?k + 1))"
      using get_words_spec [of "nd_Children n" "pre @ words_bytes (nd_Keys n)" pad] lp w
      by (simp add: data_def rest_def Node_IsLeaf_def)
    then have "DeserializeNode data (nd_PageID n) = Ok n"
      using w(1,2) len head t keys kc by (simp add: DeserializeNode_def Let_def layout)
    then show ?thesis using ser len by blast
  qed
qed

end
