(* ===== verification/BTree.thy ===== *)
theory BTree imports Node begin

text \<open>
  \<^verbatim>\<open>pkg/index/btree.go\<close>: the B+ tree over a disk interface, with its cache of nodes. A cached
  node is a shared pointer: every mutation of a node fetched by \<^verbatim>\<open>getNode\<close> is visible through
  the cache at once, whether or not \<^verbatim>\<open>saveNode\<close> succeeds. The recursion down the tree and the
  walk along the leaf chain are bounded by a fuel argument; running out of it (\<open>Hang\<close>) stands
  for a cycle in the pages. The interface \<^verbatim>\<open>DiskManager\<close> of the package is the adapter of
  \<^verbatim>\<open>index_adapter.go\<close>, its only implementation.
\<close>

record BTree =
  bt_Root :: u64
  bt_Disk :: DiskManager
  bt_nodePool :: "u64 \<Rightarrow> Node option"

definition BTree_AllocatePage :: "BTree \<Rightarrow> u64 \<times> BTree" where
  "BTree_AllocatePage bt = (let (p, d) = Adapter_AllocatePage (bt_Disk bt) in (p, bt\<lparr>bt_Disk := d\<rparr>))"

definition BTree_getNode :: "u64 \<Rightarrow> BTree \<Rightarrow> (storage_err, Node) outcome \<times> BTree" where
  "BTree_getNode pageID bt =
     (case bt_nodePool bt pageID of
        Some node \<Rightarrow> (Ok node, bt)
      | None \<Rightarrow>
          (case bind_out (Adapter_ReadPage pageID (bt_Disk bt)) (\<lambda>data. DeserializeNode data pageID) of
             Ok node \<Rightarrow> (Ok node, bt\<lparr>bt_nodePool := (bt_nodePool bt)(pageID \<mapsto> node)\<rparr>)
           | r \<Rightarrow> (r, bt)))"

text \<open>The in-place mutation of a node that the cache holds.\<close>

definition BTree_mutate :: "Node \<Rightarrow> BTree \<Rightarrow> BTree" where
  "BTree_mutate node bt = bt\<lparr>bt_nodePool := (bt_nodePool bt)(nd_PageID node \<mapsto> node)\<rparr>"

definition BTree_saveNode :: "Node \<Rightarrow> BTree \<Rightarrow> (storage_err, unit) outcome \<times> BTree" where
  "BTree_saveNode node bt =
     (case Node_Serialize node of
        Ok data \<Rightarrow>
          (case Adapter_WritePage (nd_PageID node) data (bt_Disk bt) of
             (Ok _, d) \<Rightarrow> (Ok (), bt\<lparr>bt_Disk := d, bt_nodePool := (bt_nodePool bt)(nd_PageID node \<mapsto> node)\<rparr>)
           | (r, d) \<Rightarrow> (r, bt\<lparr>bt_Disk := d\<rparr>))
      | Err e \<Rightarrow> (Err e, bt)
      | Panic \<Rightarrow> (Panic, bt)
      | Hang \<Rightarrow> (Hang, bt))"

text \<open>A call of \<^verbatim>\<open>saveNode\<close> whose error is dropped; a panic still unwinds.\<close>

definition BTree_trySave :: "Node \<Rightarrow> BTree \<Rightarrow> (storage_err, unit) outcome \<times> BTree" where
  "BTree_trySave node bt =
     (case BTree_saveNode node bt of
        (Err _, bt1) \<Rightarrow> (Ok (), bt1)
      | (r, bt1) \<Rightarrow> (r, bt1))"

definition NewBTree :: "DiskManager \<Rightarrow> (storage_err, unit) outcome \<times> BTree" where
  "NewBTree disk =
     (let bt = \<lparr>bt_Root = 0, bt_Disk = disk, bt_nodePool = (\<lambda>_. None)\<rparr>;
          (rootPage, bt1) = BTree_AllocatePage bt
      in case BTree_trySave (NewNode rootPage LeafNode) bt1 of
           (Ok _, bt2) \<Rightarrow> (Ok (), bt2\<lparr>bt_Root := rootPage\<rparr>)
         | (r, bt2) \<Rightarrow> (r, bt2))"

section \<open>Insert\<close>

text \<open>
  The end of both halves of \<^verbatim>\<open>insertRecursive\<close>: a node that is not full is saved; a full one is
  split, and both halves are saved with the errors dropped.
\<close>

definition BTree_finish :: "Node \<Rightarrow> BTree \<Rightarrow> (storage_err, u64 \<times> i64) outcome \<times> BTree" where
  "BTree_finish node bt =
     (if \<not> Node_IsFull node then
        (case BTree_saveNode node bt of
           (Ok _, bt1) \<Rightarrow> (Ok (0, 0), bt1)
         | (Err e, bt1) \<Rightarrow> (Err e, bt1) | (Panic, bt1) \<Rightarrow> (Panic, bt1) | (Hang, bt1) \<Rightarrow> (Hang, bt1))
      else
        let (newPageID, bt1) = BTree_AllocatePage bt in
        case Node_SplitNode newPageID node of
          Ok (node', newNode, splitKey) \<Rightarrow>
            (case BTree_trySave node' (BTree_mutate node' bt1) of
               (Ok _, bt2) \<Rightarrow>
                 (case BTree_trySave newNode bt2 of
                    (Ok _, bt3) \<Rightarrow> (Ok (newPageID, splitKey), bt3)
                  | (_, bt3) \<Rightarrow> (Panic, bt3))
             | (_, bt2) \<Rightarrow> (Panic, bt2))
        | _ \<Rightarrow> (Panic, bt1))"

definition BTree_insertLeaf :: "Node \<Rightarrow> i64 \<Rightarrow> byte list \<Rightarrow> BTree \<Rightarrow> (storage_err, u64 \<times> i64) outcome \<times> BTree" where
  "BTree_insertLeaf node key v bt =
     (let pos = Node_FindKey node key in
      if pos < length (nd_Keys node) \<and> nd_Keys node ! pos = key then
        (if pos < length (nd_Values node) then
           let node1 = node\<lparr>nd_Values := (nd_Values node)[pos := v]\<rparr> in
           (case BTree_saveNode node1 (BTree_mutate node1 bt) of
              (Ok _, bt1) \<Rightarrow> (Ok (0, 0), bt1)
            | (Err e, bt1) \<Rightarrow> (Err e, bt1) | (Panic, bt1) \<Rightarrow> (Panic, bt1) | (Hang, bt1) \<Rightarrow> (Hang, bt1))
         else (Panic, bt))
      else case Node_InsertKey key 0 v node of
          Ok node1 \<Rightarrow> BTree_finish node1 (BTree_mutate node1 bt)
        | _ \<Rightarrow> (Panic, bt))"

text \<open>The child an insertion descends into: the position \<^verbatim>\<open>FindKey\<close> returns, clipped.\<close>

definition insert_child :: "Node \<Rightarrow> i64 \<Rightarrow> nat" where
  "insert_child node key =
     (let childIdx = Node_FindKey node key in
      if childIdx < length (nd_Children node) then childIdx else length (nd_Children node) - 1)"

fun BTree_insertRecursive :: "nat \<Rightarrow> u64 \<Rightarrow> i64 \<Rightarrow> byte list \<Rightarrow> BTree
    \<Rightarrow> (storage_err, u64 \<times> i64) outcome \<times> BTree" where
  "BTree_insertRecursive 0 pageID key v bt = (Hang, bt)"
| "BTree_insertRecursive (Suc fuel) pageID key v bt =
     (case BTree_getNode pageID bt of
        (Ok node, bt1) \<Rightarrow>
          (if Node_IsLeaf node then BTree_insertLeaf node key v bt1
           else if nd_Children node = [] then (Panic, bt1)
           else case BTree_insertRecursive fuel (nd_Children node ! insert_child node key) key v bt1 of
               (Ok (newChildPage, splitKey), bt2) \<Rightarrow>
                 (if newChildPage \<noteq> 0 then
                    (case Node_InsertKey splitKey newChildPage [] node of
                       Ok node1 \<Rightarrow> BTree_finish node1 (BTree_mutate node1 bt2)
                     | _ \<Rightarrow> (Panic, bt2))
                  else (case BTree_saveNode node bt2 of
                          (Ok _, bt3) \<Rightarrow> (Ok (0, 0), bt3)
                        | (Err e, bt3) \<Rightarrow> (Err e, bt3) | (Panic, bt3) \<Rightarrow> (Panic, bt3) | (Hang, bt3) \<Rightarrow> (Hang, bt3)))
             | r \<Rightarrow> r)
      | (Err e, bt1) \<Rightarrow> (Err e, bt1)
      | (Panic, bt1) \<Rightarrow> (Panic, bt1)
      | (Hang, bt1) \<Rightarrow> (Hang, bt1))"

definition BTree_Insert :: "nat \<Rightarrow> i64 \<Rightarrow> byte list \<Rightarrow> BTree \<Rightarrow> (storage_err, unit) outcome \<times> BTree" where
  "BTree_Insert fuel key v bt =
     (if bt_Root bt = 0 then
        let (rootPage, bt1) = BTree_AllocatePage bt in
        (case Node_InsertKey key 0 v (NewNode rootPage LeafNode) of
           Ok root \<Rightarrow> BTree_saveNode root (bt1\<lparr>bt_Root := rootPage\<rparr>)
         | _ \<Rightarrow> (Panic, bt1))
      else case BTree_insertRecursive fuel (bt_Root bt) key v bt of
          (Ok (newChild, splitKey), bt1) \<Rightarrow>
            (if newChild \<noteq> 0 then
               let (newRootPage, bt2) = BTree_AllocatePage bt1;
                   newRoot = (NewNode newRootPage InternalNode)\<lparr>nd_Keys := [splitKey],
                       nd_Children := [bt_Root bt2, newChild]\<rparr>
               in BTree_trySave newRoot (bt2\<lparr>bt_Root := newRootPage\<rparr>)
             else (Ok (), bt1))
        | (Err e, bt1) \<Rightarrow> (Err e, bt1)
        | (Panic, bt1) \<Rightarrow> (Panic, bt1)
        | (Hang, bt1) \<Rightarrow> (Hang, bt1))"

section \<open>Search and Scan\<close>

text \<open>The child a search descends into: to the right of a separator that is at most the key.\<close>

definition search_child :: "Node \<Rightarrow> i64 \<Rightarrow> nat" where
  "search_child node key =
     (let pos0 = Node_FindKey node key;
          pos = (if pos0 \<ge> length (nd_Children node) then length (nd_Children node) - 1 else pos0)
      in if pos < length (nd_Keys node) \<and> sint (nd_Keys node ! pos) \<le> sint key
            \<and> pos + 1 < length (nd_Children node)
         then pos + 1 else pos)"

fun BTree_searchRecursive :: "nat \<Rightarrow> u64 \<Rightarrow> i64 \<Rightarrow> BTree \<Rightarrow> (storage_err, byte list option) outcome \<times> BTree" where
  "BTree_searchRecursive 0 pageID key bt = (Hang, bt)"
| "BTree_searchRecursive (Suc fuel) pageID key bt =
     (if pageID = 0 then (Ok None, bt)
      else case BTree_getNode pageID bt of
        (Ok node, bt1) \<Rightarrow>
          (let pos = Node_FindKey node key in
           if Node_IsLeaf node then
             (if pos < length (nd_Keys node) \<and> nd_Keys node ! pos = key
              then (if pos < length (nd_Values node) then (Ok (Some (nd_Values node ! pos)), bt1) else (Panic, bt1))
              else (Ok None, bt1))
           else if nd_Children node = [] then (Panic, bt1)
           else BTree_searchRecursive fuel (nd_Children node ! search_child node key) key bt1)
      | (Err e, bt1) \<Rightarrow> (Err e, bt1)
      | (Panic, bt1) \<Rightarrow> (Panic, bt1)
      | (Hang, bt1) \<Rightarrow> (Hang, bt1))"

definition BTree_Search :: "nat \<Rightarrow> i64 \<Rightarrow> BTree \<Rightarrow> (storage_err, byte list option) outcome \<times> BTree" where
  "BTree_Search fuel key bt = BTree_searchRecursive fuel (bt_Root bt) key bt"

fun BTree_findLeaf :: "nat \<Rightarrow> u64 \<Rightarrow> i64 \<Rightarrow> BTree \<Rightarrow> (storage_err, Node option) outcome \<times> BTree" where
  "BTree_findLeaf 0 pageID key bt = (Hang, bt)"
| "BTree_findLeaf (Suc fuel) pageID key bt =
     (if pageID = 0 then (Ok None, bt)
      else case BTree_getNode pageID bt of
        (Ok node, bt1) \<Rightarrow>
          (if Node_IsLeaf node then (Ok (Some node), bt1)
           else if nd_Children node = [] then (Panic, bt1)
           else BTree_findLeaf fuel (nd_Children node ! insert_child node key) key bt1)
      | (Err e, bt1) \<Rightarrow> (Err e, bt1)
      | (Panic, bt1) \<Rightarrow> (Panic, bt1)
      | (Hang, bt1) \<Rightarrow> (Hang, bt1))"

text \<open>The values of one leaf in the range; the flag says a key past the end was met.\<close>

fun scan_leaf :: "i64 list \<Rightarrow> byte list list \<Rightarrow> i64 \<Rightarrow> i64 \<Rightarrow> (storage_err, byte list list \<times> bool) outcome" where
  "scan_leaf [] vs lo hi = Ok ([], False)"
| "scan_leaf (k # ks) vs lo hi =
     (if sint k > sint hi then Ok ([], True)
      else case vs of
          v # vs' \<Rightarrow> bind_out (scan_leaf ks vs' lo hi)
            (\<lambda>(r, stop). Ok ((if sint k \<ge> sint lo then v # r else r), stop))
        | [] \<Rightarrow> if sint k \<ge> sint lo then Panic else scan_leaf ks [] lo hi)"

fun scan_chain :: "nat \<Rightarrow> Node \<Rightarrow> i64 \<Rightarrow> i64 \<Rightarrow> BTree \<Rightarrow> (storage_err, byte list list) outcome \<times> BTree" where
  "scan_chain 0 leaf lo hi bt = (Hang, bt)"
| "scan_chain (Suc fuel) leaf lo hi bt =
     (case scan_leaf (nd_Keys leaf) (nd_Values leaf) lo hi of
        Ok (vs, stop) \<Rightarrow>
          (if stop \<or> nd_Next leaf = 0 then (Ok vs, bt)
           else case BTree_getNode (nd_Next leaf) bt of
               (Ok leaf', bt1) \<Rightarrow>
                 (case scan_chain fuel leaf' lo hi bt1 of (r, bt2) \<Rightarrow> (bind_out r (\<lambda>rest. Ok (vs @ rest)), bt2))
             | (Err e, bt1) \<Rightarrow> (Err e, bt1)
             | (Panic, bt1) \<Rightarrow> (Panic, bt1)
             | (Hang, bt1) \<Rightarrow> (Hang, bt1))
      | _ \<Rightarrow> (Panic, bt))"

definition BTree_Scan :: "nat \<Rightarrow> i64 \<Rightarrow> i64 \<Rightarrow> BTree \<Rightarrow> (storage_err, byte list list) outcome \<times> BTree" where
  "BTree_Scan fuel startKey endKey bt =
     (case BTree_findLeaf fuel (bt_Root bt) startKey bt of
        (Ok None, bt1) \<Rightarrow> (Ok [], bt1)
      | (Ok (Some leaf), bt1) \<Rightarrow> scan_chain fuel leaf startKey endKey bt1
      | (Err e, bt1) \<Rightarrow> (Err e, bt1)
      | (Panic, bt1) \<Rightarrow> (Panic, bt1)
      | (Hang, bt1) \<Rightarrow> (Hang, bt1))"

end
