(* ===== verification/Executor.thy ===== *)
theory Executor imports Joins HeapFile Catalog BTree Parser begin

text \<open>
  \<^verbatim>\<open>pkg/executor\<close>: statement execution and transactions. The executor state holds the catalog,
  the open tables and indexes, the page store shared by all tables, and the transaction
  buffers. What Go takes from outside is the environment: floating-point text, JSON, the
  two sorts, the iteration order of the aggregate map, the random ids, and which index files
  can be opened. An error result carries the error the message is formatted from. \<open>Err\<close> as an
  outcome of \<^verbatim>\<open>Execute\<close> would be a non-nil second result.
\<close>

section \<open>Results\<close>

datatype exec_err =
    ParseFailed parse_err
  | InternalError
  | UnknownType string
  | CatalogSaveFailed storage_err
  | NoTable string
  | NoColumn string string
  | NoSelectColumn string
  | OnlyIntIndex
  | IndexFileFailed
  | StorageFailed storage_err
  | UniqueCheckFailed storage_err
  | ValueCount nat nat
  | LiteralExpected
  | BadValue string storage_err
  | DuplicateValue string
  | InsertFailed storage_err
  | ClearFailed storage_err
  | CatalogRemoveFailed storage_err

record QueryResult =
  qr_Type :: string
  qr_Columns :: "string list"
  qr_Rows :: "val list list"
  qr_AffectedRows :: i64
  qr_LastInsertID :: i64
  qr_Error :: "exec_err option"

definition error_result :: "exec_err \<Rightarrow> QueryResult" where
  "error_result e = \<lparr>qr_Type = ''ERROR'', qr_Columns = [], qr_Rows = [], qr_AffectedRows = 0,
     qr_LastInsertID = 0, qr_Error = Some e\<rparr>"

definition message_result :: "string \<Rightarrow> i64 \<Rightarrow> string \<Rightarrow> QueryResult" where
  "message_result ty affected msg = \<lparr>qr_Type = ty, qr_Columns = [''message''], qr_Rows = [[VString msg]],
     qr_AffectedRows = affected, qr_LastInsertID = 0, qr_Error = None\<rparr>"

definition select_result :: "string list \<Rightarrow> val list list \<Rightarrow> QueryResult" where
  "select_result cols rows = \<lparr>qr_Type = ''SELECT'', qr_Columns = cols, qr_Rows = rows,
     qr_AffectedRows = 0, qr_LastInsertID = 0, qr_Error = None\<rparr>"

definition RID_String :: "RID \<Rightarrow> string" where
  "RID_String r = ''('' @ dec_nat (unat (rid_PageID r)) @ '','' @ dec_nat (unat (rid_SlotID r)) @ '')''"

definition msg_created :: "string \<Rightarrow> nat \<Rightarrow> string" where
  "msg_created t n = utf8 [226, 156, 147, 32, 208, 162, 208, 176, 208, 177, 208, 187, 208, 184, 209, 134, 208, 176, 32, 39] @ t @ utf8 [39, 32, 209, 129, 208, 190, 208, 183, 208, 180, 208, 176, 208, 189, 208, 176, 32, 40] @ dec_nat n @ utf8 [32, 208, 186, 208, 190, 208, 187, 208, 190, 208, 189, 208, 190, 208, 186, 41]"

definition msg_index :: "string \<Rightarrow> string \<Rightarrow> string \<Rightarrow> string" where
  "msg_index i t c = utf8 [226, 156, 147, 32, 208, 152, 208, 189, 208, 180, 208, 181, 208, 186, 209, 129, 32, 39] @ i @ utf8 [39, 32, 209, 129, 208, 190, 208, 183, 208, 180, 208, 176, 208, 189, 32, 208, 189, 208, 176, 32] @ t @ ''('' @ c @ '')''"

definition msg_inserted :: string where "msg_inserted = utf8 [226, 156, 147, 32, 208, 146, 209, 129, 209, 130, 208, 176, 208, 178, 208, 187, 208, 181, 208, 189, 208, 190]"

definition msg_deleted :: "nat \<Rightarrow> string" where "msg_deleted n = utf8 [226, 156, 147, 32, 208, 163, 208, 180, 208, 176, 208, 187, 208, 181, 208, 189, 208, 190, 32] @ dec_nat n @ utf8 [32, 209, 129, 209, 130, 209, 128, 208, 190, 208, 186]"

definition msg_updated :: "nat \<Rightarrow> string" where "msg_updated n = utf8 [226, 156, 147, 32, 208, 158, 208, 177, 208, 189, 208, 190, 208, 178, 208, 187, 208, 181, 208, 189, 208, 190, 32] @ dec_nat n @ utf8 [32, 209, 129, 209, 130, 209, 128, 208, 190, 208, 186]"

definition msg_dropped :: "string \<Rightarrow> string" where "msg_dropped t = utf8 [226, 156, 147, 32, 208, 162, 208, 176, 208, 177, 208, 187, 208, 184, 209, 134, 208, 176, 32, 39] @ t @ utf8 [39, 32, 209, 131, 208, 180, 208, 176, 208, 187, 208, 181, 208, 189, 208, 176]"

definition msg_drop_skipped :: "string \<Rightarrow> string" where
  "msg_drop_skipped t = utf8 [226, 156, 147, 32, 208, 162, 208, 176, 208, 177, 208, 187, 208, 184, 209, 134, 208, 176, 32, 39] @ t @ utf8 [39, 32, 208, 189, 208, 181, 32, 209, 129, 209, 131, 209, 137, 208, 181, 209, 129, 209, 130, 208, 178, 209, 131, 208, 181, 209, 130, 44, 32, 208, 191, 209, 128, 208, 190, 208, 191, 209, 131, 209, 137, 208, 181, 208, 189, 208, 190]"

section \<open>State and environment\<close>

record env =
  env_fl :: flt
  env_js :: json_codec
  env_sortRows :: "Row slice_sort"
  env_sortJoined :: "JoinedRow slice_sort"
  env_mapOrder :: "(string \<times> val) list \<Rightarrow> (string \<times> val) list"
  env_ids :: "nat \<Rightarrow> i64"
  env_idxOpen :: "string \<Rightarrow> bool"
  env_idxReadFails :: "string \<Rightarrow> u64 \<Rightarrow> bool"
  env_idxWriteFails :: "string \<Rightarrow> u64 \<Rightarrow> bool"

record Executor =
  ex_Catalog :: Catalog
  ex_Tables :: "string \<Rightarrow> HeapFile option"
  ex_Indexes :: "string \<Rightarrow> BTree option"
  ex_store :: store
  ex_inTransaction :: bool
  ex_txQueries :: "string list"
  ex_txResults :: "QueryResult list"
  ex_idxFiles :: "string \<Rightarrow> byte list"
  ex_nextID :: nat

type_synonym exec_result = "(storage_err, QueryResult) outcome \<times> Executor"

definition NewExecutor :: "env \<Rightarrow> store \<Rightarrow> byte list option \<Rightarrow> bool \<Rightarrow> (string \<Rightarrow> byte list) \<Rightarrow> Executor" where
  "NewExecutor en st catalogFile writable idxFiles =
     (let cat = NewCatalog (env_js en) catalogFile writable in
      \<lparr>ex_Catalog = cat,
       ex_Tables = (\<lambda>name. map_option NewHeapFile (map_of (cat_Schemas cat) name)),
       ex_Indexes = (\<lambda>_. None), ex_store = st, ex_inTransaction = False,
       ex_txQueries = [], ex_txResults = [], ex_idxFiles = idxFiles, ex_nextID = 0\<rparr>)"

definition Executor_ListTables :: "Executor \<Rightarrow> string list" where
  "Executor_ListTables e = Catalog_ListTables (ex_Catalog e)"

text \<open>\<^verbatim>\<open>utils.GenerateID\<close>: the next random number.\<close>

definition GenerateID :: "env \<Rightarrow> Executor \<Rightarrow> i64 \<times> Executor" where
  "GenerateID en e = (env_ids en (ex_nextID e), e\<lparr>ex_nextID := ex_nextID e + 1\<rparr>)"

text \<open>Running a heap-file operation on the executor's store.\<close>

definition on_store :: "(store \<Rightarrow> (storage_err, 'a) outcome \<times> store) \<Rightarrow> Executor \<Rightarrow> (storage_err, 'a) outcome \<times> Executor" where
  "on_store f e = (case f (ex_store e) of (r, st) \<Rightarrow> (r, e\<lparr>ex_store := st\<rparr>))"

definition fail :: "exec_err \<Rightarrow> Executor \<Rightarrow> exec_result" where
  "fail err e = (Ok (error_result err), e)"

text \<open>Continue with the value, or turn the storage error into an error result.\<close>

definition or_fail :: "(storage_err \<Rightarrow> exec_err) \<Rightarrow> (storage_err, 'a) outcome \<times> Executor
    \<Rightarrow> ('a \<Rightarrow> Executor \<Rightarrow> exec_result) \<Rightarrow> exec_result" where
  "or_fail wrap r k = (case r of
     (Ok a, e) \<Rightarrow> k a e
   | (Err err, e) \<Rightarrow> fail (wrap err) e
   | (Panic, e) \<Rightarrow> (Panic, e)
   | (Hang, e) \<Rightarrow> (Hang, e))"

section \<open>CREATE TABLE, CREATE INDEX\<close>

definition column_type :: "string \<Rightarrow> ColumnType option" where
  "column_type ty =
     (let t = ToUpper ty in
      if t = ''INT'' then Some TypeInt else if t = ''FLOAT'' then Some TypeFloat
      else if t = ''TEXT'' then Some TypeText else if t = ''BOOL'' then Some TypeBool else None)"

fun build_columns :: "ColumnSpec list \<Rightarrow> (string, ColumnDef list) outcome" where
  "build_columns [] = Ok []"
| "build_columns (c # cs) =
     (case column_type (cs_Type c) of
        None \<Rightarrow> Err (cs_Type c)
      | Some ty \<Rightarrow> bind_out (build_columns cs) (\<lambda>rest. Ok (
          \<lparr>col_Name = cs_Name c, col_ColType = ty, col_Nullable = \<not> cs_NotNull c,
           col_PrimaryKey = cs_PrimaryKey c, col_AutoIncrement = cs_AutoIncrement c,
           col_Unique = cs_Unique c, col_Default = cs_Default c, col_Check = cs_Check c,
           col_References = cs_References c\<rparr> # rest)))"

definition executeCreate :: "env \<Rightarrow> CreateTableStatement \<Rightarrow> Executor \<Rightarrow> exec_result" where
  "executeCreate en stmt e =
     (case build_columns (ct_Columns stmt) of
        Ok columns \<Rightarrow>
          (let schema = \<lparr>sch_Name = ct_Table stmt, sch_Columns = columns\<rparr>;
               (r, cat) = Catalog_AddTable (env_js en) schema (ex_Catalog e);
               e1 = e\<lparr>ex_Catalog := cat\<rparr>
           in or_fail CatalogSaveFailed (r, e1) (\<lambda>_ e2.
                (Ok (message_result ''CREATE'' 1 (msg_created (ct_Table stmt) (length columns))),
                 e2\<lparr>ex_Tables := (ex_Tables e2)(ct_Table stmt \<mapsto> NewHeapFile schema)\<rparr>)))
      | Err ty \<Rightarrow> fail (UnknownType ty) e
      | Panic \<Rightarrow> (Panic, e)
      | Hang \<Rightarrow> (Hang, e))"

text \<open>
  Inserting the scanned rows: the error of \<^verbatim>\<open>Insert\<close> is dropped, a panic unwinds. The tree
  gains at most one level per insertion, so the number of rows bounds its height.
\<close>

fun index_rows :: "flt \<Rightarrow> nat \<Rightarrow> nat \<Rightarrow> Row list \<Rightarrow> BTree \<Rightarrow> (storage_err, unit) outcome \<times> BTree" where
  "index_rows fl fuel colIdx [] bt = (Ok (), bt)"
| "index_rows fl fuel colIdx (row # rows) bt =
     (case row_Values row ! colIdx of
        VInt32 key \<Rightarrow>
          (case BTree_Insert fuel (scast key) (bytes_of (fmt_vals fl (row_Values row))) bt of
             (Panic, bt1) \<Rightarrow> (Panic, bt1)
           | (Hang, bt1) \<Rightarrow> (Hang, bt1)
           | (_, bt1) \<Rightarrow> index_rows fl fuel colIdx rows bt1)
      | _ \<Rightarrow> index_rows fl fuel colIdx rows bt)"

definition idx_file :: "string \<Rightarrow> string \<Rightarrow> string" where
  "idx_file table column = ''idx_'' @ table @ ''_'' @ column @ ''.idx''"

definition build_index :: "env \<Rightarrow> nat \<Rightarrow> Row list \<Rightarrow> BTree \<Rightarrow> (storage_err, unit) outcome \<times> BTree" where
  "build_index en colIdx rows bt = index_rows (env_fl en) (length rows + 1) colIdx rows bt"

definition executeCreateIndex :: "env \<Rightarrow> CreateIndexStatement \<Rightarrow> Executor \<Rightarrow> exec_result" where
  "executeCreateIndex en stmt e =
     (case ex_Tables e (ci_Table stmt) of
        None \<Rightarrow> fail (NoTable (ci_Table stmt)) e
      | Some table \<Rightarrow>
          (case findColumnIndex (hf_Schema table) (ci_Column stmt) of
             None \<Rightarrow> fail (NoColumn (ci_Column stmt) (ci_Table stmt)) e
           | Some colIdx \<Rightarrow>
               if col_ColType (sch_Columns (hf_Schema table) ! colIdx) \<noteq> TypeInt then fail OnlyIntIndex e
               else let f = idx_file (ci_Table stmt) (ci_Column stmt) in
                 if \<not> env_idxOpen en f then fail IndexFileFailed e
                 else case NewBTree (NewDiskManager (ex_idxFiles e f) (env_idxReadFails en f) (env_idxWriteFails en f)) of
                     (Ok _, btree) \<Rightarrow>
                       or_fail StorageFailed
                         (on_store (HeapFile_ScanFull table)
                            (e\<lparr>ex_idxFiles := (ex_idxFiles e)(f := dm_file (bt_Disk btree))\<rparr>)) (\<lambda>rows e1.
                         case build_index en colIdx rows btree of
                           (Ok _, btree1) \<Rightarrow>
                             (Ok (message_result ''CREATE_INDEX'' 1 (msg_index (ci_IndexName stmt) (ci_Table stmt) (ci_Column stmt))),
                              e1\<lparr>ex_idxFiles := (ex_idxFiles e1)(f := dm_file (bt_Disk btree1)),
                                 ex_Indexes := (ex_Indexes e1)(ci_Table stmt @ ''.'' @ ci_Column stmt \<mapsto> btree1)\<rparr>)
                         | (Hang, btree1) \<Rightarrow> (Hang, e1)
                         | (_, btree1) \<Rightarrow> (Panic, e1\<lparr>ex_idxFiles := (ex_idxFiles e1)(f := dm_file (bt_Disk btree1))\<rparr>))
                   | (_, btree) \<Rightarrow> (Panic, e)))"

section \<open>INSERT\<close>

text \<open>
  The quotes around a value are removed once more after the lexer has done so; for a value
  that is one quote character the slice expression \<^verbatim>\<open>val[1:0]\<close> panics.
\<close>

definition strip_quotes :: "string \<Rightarrow> (storage_err, string) outcome" where
  "strip_quotes v =
     (let q = [char_of (39::nat)]; d = [char_of (34::nat)] in
      if (HasPrefix v q \<and> HasSuffix v q) \<or> (HasPrefix v d \<and> HasSuffix v d)
      then (if length v \<ge> 2 then Ok (take (length v - 2) (drop 1 v)) else Panic)
      else Ok v)"

text \<open>One literal for one column: NULL, or the parsed value.\<close>

definition literal_value :: "flt \<Rightarrow> Expression \<Rightarrow> ColumnType \<Rightarrow> string \<Rightarrow> (exec_err, val) outcome" where
  "literal_value fl expr ty colName =
     (case expr of
        Literal v0 \<Rightarrow>
          (case strip_quotes v0 of
             Ok v \<Rightarrow>
               (if ToUpper v = ''NULL'' then Ok VNil
                else map_err (BadValue colName) (ParseValue fl v ty))
           | _ \<Rightarrow> Panic)
      | _ \<Rightarrow> Err LiteralExpected)"

fun auto_increment :: "env \<Rightarrow> nat \<Rightarrow> ColumnDef list \<Rightarrow> val list \<times> i64 \<Rightarrow> Executor \<Rightarrow> (val list \<times> i64) \<times> Executor" where
  "auto_increment en i [] acc e = (acc, e)"
| "auto_increment en i (c # cs) acc e =
     (if col_AutoIncrement c then
        (case GenerateID en e of
           (nextID, e1) \<Rightarrow> auto_increment en (Suc i) cs ((fst acc)[i := VInt32 (ucast nextID)], nextID) e1)
      else auto_increment en (Suc i) cs acc e)"

fun named_values :: "flt \<Rightarrow> string \<Rightarrow> TableSchema \<Rightarrow> string list \<Rightarrow> Expression list \<Rightarrow> val list \<Rightarrow> (exec_err, val list) outcome" where
  "named_values fl table schema (c # cs) (x # xs) vals =
     (case findColumnIndex schema c of
        None \<Rightarrow> Err (NoColumn c table)
      | Some idx \<Rightarrow>
          bind_out (literal_value fl x (col_ColType (sch_Columns schema ! idx)) c)
            (\<lambda>v. named_values fl table schema cs xs (vals[idx := v])))"
| "named_values fl table schema _ _ vals = Ok vals"

fun all_values :: "flt \<Rightarrow> ColumnDef list \<Rightarrow> Expression list \<Rightarrow> (exec_err, val list) outcome" where
  "all_values fl (c # cs) (x # xs) =
     bind_out (literal_value fl x (col_ColType c) (col_Name c))
       (\<lambda>v. bind_out (all_values fl cs xs) (\<lambda>vs. Ok (v # vs)))"
| "all_values fl _ _ = Ok []"

definition insert_row_values :: "env \<Rightarrow> InsertStatement \<Rightarrow> TableSchema \<Rightarrow> Executor
    \<Rightarrow> (exec_err, val list \<times> i64) outcome \<times> Executor" where
  "insert_row_values en stmt schema e =
     (let cols = sch_Columns schema in
      if ins_Columns stmt \<noteq> [] then
        (if length (ins_Columns stmt) \<noteq> length (ins_Values stmt)
         then (Err (ValueCount (length (ins_Columns stmt)) (length (ins_Columns stmt))), e)
         else case auto_increment en 0 cols (replicate (length cols) VNil, -1) e of
             ((vals, lastID), e1) \<Rightarrow>
               (bind_out (named_values (env_fl en) (ins_Table stmt) schema (ins_Columns stmt) (ins_Values stmt) vals)
                  (\<lambda>vs. Ok (vs, lastID)), e1))
      else if length (ins_Values stmt) \<noteq> length cols
        then (Err (ValueCount (length cols) (length (ins_Values stmt))), e)
      else (bind_out (all_values (env_fl en) cols (ins_Values stmt)) (\<lambda>vs. Ok (vs, -1)), e))"

text \<open>The uniqueness loop: every PRIMARY KEY or UNIQUE column is compared, as printed text, with all rows.\<close>

definition clashes :: "flt \<Rightarrow> nat \<Rightarrow> val list \<Rightarrow> Row \<Rightarrow> bool" where
  "clashes fl idx vals row \<longleftrightarrow> row_Values row ! idx \<noteq> VNil \<and> vals ! idx \<noteq> VNil
     \<and> fmt_v fl (row_Values row ! idx) = fmt_v fl (vals ! idx)"

fun check_unique :: "flt \<Rightarrow> HeapFile \<Rightarrow> nat \<Rightarrow> ColumnDef list \<Rightarrow> val list \<Rightarrow> Executor
    \<Rightarrow> (storage_err, exec_err option) outcome \<times> Executor" where
  "check_unique fl table idx [] vals e = (Ok None, e)"
| "check_unique fl table idx (c # cs) vals e =
     (if col_PrimaryKey c \<or> col_Unique c then
        (case on_store (HeapFile_ScanFull table) e of
           (Ok rows, e1) \<Rightarrow>
             (if \<exists>row \<in> set rows. clashes fl idx vals row then (Ok (Some (DuplicateValue (col_Name c))), e1)
              else check_unique fl table (Suc idx) cs vals e1)
         | (Err err, e1) \<Rightarrow> (Ok (Some (UniqueCheckFailed err)), e1)
         | (Panic, e1) \<Rightarrow> (Panic, e1)
         | (Hang, e1) \<Rightarrow> (Hang, e1))
      else check_unique fl table (Suc idx) cs vals e)"

definition executeInsert :: "env \<Rightarrow> InsertStatement \<Rightarrow> Executor \<Rightarrow> exec_result" where
  "executeInsert en stmt e =
     (case ex_Tables e (ins_Table stmt) of
        None \<Rightarrow> fail (NoTable (ins_Table stmt)) e
      | Some table \<Rightarrow>
          (case insert_row_values en stmt (hf_Schema table) e of
             (Ok (vals, lastID), e1) \<Rightarrow>
               (case check_unique (env_fl en) table 0 (sch_Columns (hf_Schema table)) vals e1 of
                  (Ok None, e2) \<Rightarrow>
                    or_fail InsertFailed
                      (on_store (HeapFile_InsertRow (env_fl en) \<lparr>row_RID = InvalidRID, row_Values = vals\<rparr> table) e2)
                      (\<lambda>rid e3. (Ok \<lparr>qr_Type = ''INSERT'', qr_Columns = [''rid'', ''message''],
                         qr_Rows = [[VString (RID_String rid), VString msg_inserted]],
                         qr_AffectedRows = 1, qr_LastInsertID = lastID, qr_Error = None\<rparr>, e3))
                | (Ok (Some err), e2) \<Rightarrow> fail err e2
                | (Hang, e2) \<Rightarrow> (Hang, e2)
                | (_, e2) \<Rightarrow> (Panic, e2))
           | (Err err, e1) \<Rightarrow> fail err e1
           | (Panic, e1) \<Rightarrow> (Panic, e1)
           | (Hang, e1) \<Rightarrow> (Hang, e1)))"

section \<open>SELECT\<close>

fun select_indexes :: "TableSchema \<Rightarrow> string list \<Rightarrow> (string, nat list) outcome" where
  "select_indexes schema [] = Ok []"
| "select_indexes schema (c # cs) =
     (case findColumnIndex schema c of
        None \<Rightarrow> Err c
      | Some i \<Rightarrow> bind_out (select_indexes schema cs) (\<lambda>is. Ok (i # is)))"

text \<open>What \<^verbatim>\<open>executeSelect\<close> does with the scanned rows.\<close>

definition select_rows :: "env \<Rightarrow> SelectStatement \<Rightarrow> TableSchema \<Rightarrow> Row list \<Rightarrow> QueryResult" where
  "select_rows en stmt schema rows0 =
     (let fl = env_fl en;
          rows1 = (case sel_Condition stmt of None \<Rightarrow> rows0 | Some c \<Rightarrow> filterRows fl rows0 schema c)
      in if sel_Aggregates stmt \<noteq> [] then
           (let agg = env_mapOrder en (computeAggregates fl rows1 schema (sel_Aggregates stmt))
            in select_result (map fst agg) (map (\<lambda>p. [snd p]) agg))
         else
           let rows2 = (if sel_OrderBy stmt \<noteq> []
                 then applyOrderBy (env_sortRows en) fl rows1 schema (sel_OrderBy stmt) (sel_OrderDir stmt) else rows1);
               rows3 = (if sint (sel_Limit stmt) \<ge> 0 \<or> sint (sel_Offset stmt) > 0
                 then applyLimitOffset rows2 (sel_Limit stmt) (sel_Offset stmt) else rows2);
               cols = (if sel_Columns stmt = [''*'']
                 then Ok ([0..<length (sch_Columns schema)], map col_Name (sch_Columns schema))
                 else bind_out (select_indexes schema (sel_Columns stmt)) (\<lambda>is. Ok (is, sel_Columns stmt)))
           in case cols of
                Ok (is, names) \<Rightarrow> select_result names (map (\<lambda>row. map (\<lambda>i. row_Values row ! i) is) rows3)
              | Err c \<Rightarrow> error_result (NoSelectColumn c)
              | _ \<Rightarrow> error_result InternalError)"

definition executeJoin :: "env \<Rightarrow> SelectStatement \<Rightarrow> JoinClause \<Rightarrow> Executor \<Rightarrow> exec_result" where
  "executeJoin en stmt jn e =
     (case ex_Tables e (sel_Table stmt) of
        None \<Rightarrow> fail (NoTable (sel_Table stmt)) e
      | Some leftTable \<Rightarrow>
          (case ex_Tables e (jn_Table jn) of
             None \<Rightarrow> fail (NoTable (jn_Table jn)) e
           | Some rightTable \<Rightarrow>
               or_fail StorageFailed (on_store (HeapFile_ScanFull leftTable) e) (\<lambda>leftRows e1.
               or_fail StorageFailed (on_store (HeapFile_ScanFull rightTable) e1) (\<lambda>rightRows e2.
               (bind_out (join_query (env_sortJoined en) (env_fl en) stmt jn (hf_Schema leftTable)
                            (hf_Schema rightTable) leftRows rightRows)
                  (\<lambda>(names, rows). Ok (select_result names rows)), e2)))))"

definition executeSelect :: "env \<Rightarrow> SelectStatement \<Rightarrow> Executor \<Rightarrow> exec_result" where
  "executeSelect en stmt e =
     (case ex_Tables e (sel_Table stmt) of
        None \<Rightarrow> fail (NoTable (sel_Table stmt)) e
      | Some table \<Rightarrow>
          (case sel_Join stmt of
             Some jn \<Rightarrow> executeJoin en stmt jn e
           | None \<Rightarrow>
               or_fail StorageFailed (on_store (HeapFile_ScanFull table) e) (\<lambda>rows e1.
                 (Ok (select_rows en stmt (hf_Schema table) rows), e1))))"

section \<open>DELETE, DROP\<close>

fun delete_rows :: "HeapFile \<Rightarrow> Row list \<Rightarrow> nat \<Rightarrow> Executor \<Rightarrow> (storage_err, nat) outcome \<times> Executor" where
  "delete_rows table [] deleted e = (Ok deleted, e)"
| "delete_rows table (row # rows) deleted e =
     (case on_store (HeapFile_DeleteRow (row_RID row) table) e of
        (Ok _, e1) \<Rightarrow> delete_rows table rows (deleted + 1) e1
      | (Err _, e1) \<Rightarrow> delete_rows table rows deleted e1
      | (Panic, e1) \<Rightarrow> (Panic, e1)
      | (Hang, e1) \<Rightarrow> (Hang, e1))"

definition matching_rows :: "env \<Rightarrow> TableSchema \<Rightarrow> BinaryOp option \<Rightarrow> Row list \<Rightarrow> Row list" where
  "matching_rows en schema cond rows = (case cond of None \<Rightarrow> rows | Some c \<Rightarrow> filterRows (env_fl en) rows schema c)"

definition executeDelete :: "env \<Rightarrow> DeleteStatement \<Rightarrow> Executor \<Rightarrow> exec_result" where
  "executeDelete en stmt e =
     (case ex_Tables e (del_Table stmt) of
        None \<Rightarrow> fail (NoTable (del_Table stmt)) e
      | Some table \<Rightarrow>
          or_fail StorageFailed (on_store (HeapFile_ScanFull table) e) (\<lambda>rows e1.
          case delete_rows table (matching_rows en (hf_Schema table) (del_Condition stmt) rows) 0 e1 of
            (Ok deleted, e2) \<Rightarrow> (Ok (message_result ''DELETE'' (word_of_nat deleted) (msg_deleted deleted)), e2)
          | (Hang, e2) \<Rightarrow> (Hang, e2)
          | (_, e2) \<Rightarrow> (Panic, e2)))"

text \<open>\<^verbatim>\<open>clearPagesByTableID\<close>: collect the table's pages, then overwrite each with an empty page.\<close>

function pages_of_table :: "u32 \<Rightarrow> u64 \<Rightarrow> u64 \<Rightarrow> store \<Rightarrow> (storage_err, u64 list) outcome \<times> store" where
  "pages_of_table tid totalPages pid st =
     (if pid < totalPages then
        (case BufferPool_FetchPage pid st of
           (Ok i, st1) \<Rightarrow>
             (case page_at i st1 of
                None \<Rightarrow> (Panic, st1)
              | Some page \<Rightarrow>
                  (case BufferPool_UnpinPage pid False st1 of
                     (Ok _, st2) \<Rightarrow>
                       (case pages_of_table tid totalPages (pid + 1) st2 of
                          (r, st3) \<Rightarrow>
                            (bind_out r (\<lambda>ps. Ok (if h_TableID (Page_ReadHeader page) = tid then pid # ps else ps)), st3))
                   | (_, st2) \<Rightarrow> (Panic, st2)))
         | (Err _, st1) \<Rightarrow> pages_of_table tid totalPages (pid + 1) st1
         | (Panic, st1) \<Rightarrow> (Panic, st1)
         | (Hang, st1) \<Rightarrow> (Hang, st1))
      else (Ok [], st))"
  by auto
termination
  by (relation "measure (\<lambda>(_, _, pid, _). 18446744073709551616 - unat pid)") (auto intro: next_page_measure)

declare pages_of_table.simps [simp del]

fun clear_pages :: "u64 list \<Rightarrow> store \<Rightarrow> (storage_err, unit) outcome \<times> store" where
  "clear_pages [] st = (Ok (), st)"
| "clear_pages (pid # pids) st =
     (case BufferPool_FetchPage pid st of
        (Ok i, st1) \<Rightarrow>
          (case page_at i st1 of
             None \<Rightarrow> (Panic, st1)
           | Some page \<Rightarrow>
               (case BufferPool_UnpinPage pid True
                       (set_page i (page\<lparr>pg_Data := pg_Data (NewPage pid), pg_Dirty := True\<rparr>) st1) of
                  (Ok _, st2) \<Rightarrow> clear_pages pids st2
                | (_, st2) \<Rightarrow> (Panic, st2)))
      | (Err e, st1) \<Rightarrow> (Err e, st1)
      | (Panic, st1) \<Rightarrow> (Panic, st1)
      | (Hang, st1) \<Rightarrow> (Hang, st1))"

definition clearPagesByTableID :: "u32 \<Rightarrow> store \<Rightarrow> (storage_err, unit) outcome \<times> store" where
  "clearPagesByTableID tid st =
     (case pages_of_table tid (DiskManager_PageCount (st_disk st)) 1 st of
        (Ok pids, st1) \<Rightarrow> clear_pages pids st1
      | (Err e, st1) \<Rightarrow> (Err e, st1)
      | (Panic, st1) \<Rightarrow> (Panic, st1)
      | (Hang, st1) \<Rightarrow> (Hang, st1))"

text \<open>A \<^verbatim>\<open>FlushAll\<close> whose error is only logged.\<close>

definition flush_quietly :: "Executor \<Rightarrow> Executor" where
  "flush_quietly e = e\<lparr>ex_store := snd (BufferPool_FlushAll (ex_store e))\<rparr>"

definition executeDrop :: "env \<Rightarrow> DropTableStatement \<Rightarrow> Executor \<Rightarrow> exec_result" where
  "executeDrop en stmt e =
     (let t = dr_Table stmt in
      case ex_Tables e t of
        None \<Rightarrow> (if dr_IfExists stmt then (Ok (message_result ''DROP'' 0 (msg_drop_skipped t)), e)
                 else fail (NoTable t) e)
      | Some table \<Rightarrow>
          or_fail ClearFailed (on_store (clearPagesByTableID (HeapFile_TableID table)) e) (\<lambda>_ e1.
          let (r, cat) = Catalog_RemoveTable (env_js en) t (ex_Catalog e1) in
          or_fail CatalogRemoveFailed (r, e1\<lparr>ex_Catalog := cat\<rparr>) (\<lambda>_ e2.
            (Ok (message_result ''DROP'' 0 (msg_dropped t)),
             flush_quietly (e2\<lparr>ex_Tables := (ex_Tables e2)(t := None),
               ex_Indexes := (\<lambda>n. if HasPrefix n (t @ ''.'') then None else ex_Indexes e2 n)\<rparr>)))))"

section \<open>UPDATE\<close>

text \<open>The new values of one row; unknown columns, non-literals and bad values are skipped.\<close>

fun updated_values :: "flt \<Rightarrow> TableSchema \<Rightarrow> UpdatePair list \<Rightarrow> val list \<Rightarrow> val list" where
  "updated_values fl schema [] vals = vals"
| "updated_values fl schema (u # us) vals =
     (case findColumnIndex schema (up_Column u) of
        None \<Rightarrow> updated_values fl schema us vals
      | Some colIdx \<Rightarrow>
          (case up_Value u of
             Literal v \<Rightarrow>
               (case ParseValue fl v (col_ColType (sch_Columns schema ! colIdx)) of
                  Ok parsed \<Rightarrow> updated_values fl schema us (vals[colIdx := parsed])
                | _ \<Rightarrow> updated_values fl schema us vals)
           | _ \<Rightarrow> updated_values fl schema us vals))"

text \<open>The error of the scan is dropped here: an unreadable table counts as empty.\<close>

fun update_unique :: "flt \<Rightarrow> HeapFile \<Rightarrow> UpdatePair list \<Rightarrow> RID \<Rightarrow> val list \<Rightarrow> Executor
    \<Rightarrow> (storage_err, exec_err option) outcome \<times> Executor" where
  "update_unique fl table [] rid vals e = (Ok None, e)"
| "update_unique fl table (u # us) rid vals e =
     (case findColumnIndex (hf_Schema table) (up_Column u) of
        None \<Rightarrow> update_unique fl table us rid vals e
      | Some colIdx \<Rightarrow>
          (let c = sch_Columns (hf_Schema table) ! colIdx in
           if col_PrimaryKey c \<or> col_Unique c then
             (case on_store (HeapFile_ScanFull table) e of
                (Panic, e1) \<Rightarrow> (Panic, e1)
              | (Hang, e1) \<Rightarrow> (Hang, e1)
              | (r, e1) \<Rightarrow>
                  (let rows = (case r of Ok rows \<Rightarrow> rows | _ \<Rightarrow> []) in
                   if \<exists>row \<in> set rows. row_RID row \<noteq> rid \<and> clashes fl colIdx vals row
                   then (Ok (Some (DuplicateValue (col_Name c))), e1)
                   else update_unique fl table us rid vals e1))
           else update_unique fl table us rid vals e))"

fun update_rows :: "env \<Rightarrow> HeapFile \<Rightarrow> UpdatePair list \<Rightarrow> Row list \<Rightarrow> nat \<Rightarrow> Executor
    \<Rightarrow> (storage_err, exec_err option \<times> nat) outcome \<times> Executor" where
  "update_rows en table ups [] updated e = (Ok (None, updated), e)"
| "update_rows en table ups (row # rows) updated e =
     (let newValues = updated_values (env_fl en) (hf_Schema table) ups (row_Values row) in
      case update_unique (env_fl en) table ups (row_RID row) newValues e of
        (Ok None, e1) \<Rightarrow>
          (case on_store (HeapFile_UpdateRow (env_fl en) (row_RID row)
                   \<lparr>row_RID = InvalidRID, row_Values = newValues\<rparr> table) e1 of
             (Ok _, e2) \<Rightarrow> update_rows en table ups rows (updated + 1) e2
           | (Err _, e2) \<Rightarrow> update_rows en table ups rows updated e2
           | (Panic, e2) \<Rightarrow> (Panic, e2)
           | (Hang, e2) \<Rightarrow> (Hang, e2))
      | (Ok (Some err), e1) \<Rightarrow> (Ok (Some err, updated), e1)
      | (Hang, e1) \<Rightarrow> (Hang, e1)
      | (_, e1) \<Rightarrow> (Panic, e1))"

definition executeUpdate :: "env \<Rightarrow> UpdateStatement \<Rightarrow> Executor \<Rightarrow> exec_result" where
  "executeUpdate en stmt e =
     (case ex_Tables e (upd_Table stmt) of
        None \<Rightarrow> fail (NoTable (upd_Table stmt)) e
      | Some table \<Rightarrow>
          or_fail StorageFailed (on_store (HeapFile_ScanFull table) e) (\<lambda>rows e1.
          case update_rows en table (upd_Updates stmt)
                 (matching_rows en (hf_Schema table) (upd_Condition stmt) rows) 0 e1 of
            (Ok (None, updated), e2) \<Rightarrow> (Ok (message_result ''UPDATE'' (word_of_nat updated) (msg_updated updated)), e2)
          | (Ok (Some err, _), e2) \<Rightarrow> fail err e2
          | (Hang, e2) \<Rightarrow> (Hang, e2)
          | (_, e2) \<Rightarrow> (Panic, e2)))"

section \<open>Execute\<close>

definition run_statement :: "env \<Rightarrow> Statement \<Rightarrow> Executor \<Rightarrow> exec_result" where
  "run_statement en stmt e = (case stmt of
     CreateTableStmt s \<Rightarrow> executeCreate en s e
   | CreateIndexStmt s \<Rightarrow> executeCreateIndex en s e
   | InsertStmt s \<Rightarrow> executeInsert en s e
   | SelectStmt s \<Rightarrow> executeSelect en s e
   | DeleteStmt s \<Rightarrow> executeDelete en s e
   | UpdateStmt s \<Rightarrow> executeUpdate en s e
   | DropTableStmt s \<Rightarrow> executeDrop en s e)"

definition is_select :: "Statement \<Rightarrow> bool" where
  "is_select stmt = (case stmt of SelectStmt _ \<Rightarrow> True | _ \<Rightarrow> False)"

text \<open>
  The statement and the automatic flush behind it; the deferred \<^verbatim>\<open>recover\<close> turns a panic into an
  error result. Nothing else is undone.
\<close>

definition execute_parsed :: "env \<Rightarrow> Statement \<Rightarrow> Executor \<Rightarrow> exec_result" where
  "execute_parsed en stmt e =
     (case run_statement en stmt e of
        (Ok result, e1) \<Rightarrow>
          (Ok result, if \<not> is_select stmt \<and> \<not> ex_inTransaction e1 \<and> qr_Type result \<noteq> ''ERROR''
             then flush_quietly e1 else e1)
      | (Err err, e1) \<Rightarrow> (Err err, e1)
      | (Panic, e1) \<Rightarrow> (Ok (error_result InternalError), e1)
      | (Hang, e1) \<Rightarrow> (Hang, e1))"

definition Execute :: "env \<Rightarrow> string \<Rightarrow> Executor \<Rightarrow> exec_result" where
  "Execute en query e =
     (case Parse query of
        Ok stmt \<Rightarrow> execute_parsed en stmt e
      | Err err \<Rightarrow> fail (ParseFailed err) e
      | Panic \<Rightarrow> (Ok (error_result InternalError), e)
      | Hang \<Rightarrow> (Hang, e))"

section \<open>Transactions\<close>

datatype tx_err = TxActive | NoTx | TxQueryFailed nat storage_err | TxFlushFailed storage_err | TxExecute storage_err

definition BeginTransaction :: "Executor \<Rightarrow> (tx_err, unit) outcome \<times> Executor" where
  "BeginTransaction e =
     (if ex_inTransaction e then (Err TxActive, e)
      else (Ok (), e\<lparr>ex_inTransaction := True, ex_txQueries := [], ex_txResults := []\<rparr>))"

fun commit_queries :: "env \<Rightarrow> nat \<Rightarrow> string list \<Rightarrow> Executor \<Rightarrow> (tx_err, unit) outcome \<times> Executor" where
  "commit_queries en i [] e = (Ok (), e)"
| "commit_queries en i (q # qs) e =
     (case Execute en q e of
        (Ok result, e1) \<Rightarrow> commit_queries en (Suc i) qs (e1\<lparr>ex_txResults := ex_txResults e1 @ [result]\<rparr>)
      | (Err err, e1) \<Rightarrow> (Err (TxQueryFailed i err), e1\<lparr>ex_inTransaction := False, ex_txQueries := [], ex_txResults := []\<rparr>)
      | (Panic, e1) \<Rightarrow> (Panic, e1)
      | (Hang, e1) \<Rightarrow> (Hang, e1))"

definition Commit :: "env \<Rightarrow> Executor \<Rightarrow> (tx_err, unit) outcome \<times> Executor" where
  "Commit en e =
     (if \<not> ex_inTransaction e then (Err NoTx, e)
      else case commit_queries en 0 (ex_txQueries e) e of
          (Ok _, e1) \<Rightarrow>
            (case on_store BufferPool_FlushAll e1 of
               (Ok _, e2) \<Rightarrow> (Ok (), e2\<lparr>ex_inTransaction := False, ex_txQueries := []\<rparr>)
             | (Err err, e2) \<Rightarrow> (Err (TxFlushFailed err), e2\<lparr>ex_inTransaction := False, ex_txQueries := [], ex_txResults := []\<rparr>)
             | (Panic, e2) \<Rightarrow> (Panic, e2)
             | (Hang, e2) \<Rightarrow> (Hang, e2))
        | r \<Rightarrow> r)"

definition Rollback :: "Executor \<Rightarrow> (tx_err, unit) outcome \<times> Executor" where
  "Rollback e =
     (if \<not> ex_inTransaction e then (Err NoTx, e)
      else (Ok (), e\<lparr>ex_inTransaction := False, ex_txQueries := [], ex_txResults := []\<rparr>))"

definition pending_result :: QueryResult where
  "pending_result = \<lparr>qr_Type = ''PENDING'', qr_Columns = [], qr_Rows = [], qr_AffectedRows = 0,
     qr_LastInsertID = 0, qr_Error = None\<rparr>"

definition ExecuteInTx :: "string \<Rightarrow> Executor \<Rightarrow> (tx_err, QueryResult) outcome \<times> Executor" where
  "ExecuteInTx query e =
     (if \<not> ex_inTransaction e then (Err NoTx, e)
      else (Ok pending_result, e\<lparr>ex_txQueries := ex_txQueries e @ [query]\<rparr>))"

definition ExecuteInTxWithResult :: "env \<Rightarrow> string \<Rightarrow> Executor \<Rightarrow> (tx_err, QueryResult) outcome \<times> Executor" where
  "ExecuteInTxWithResult en query e =
     (if \<not> ex_inTransaction e then (Err NoTx, e)
      else case Execute en query e of
          (Ok result, e1) \<Rightarrow> (Ok result, e1\<lparr>ex_txQueries := ex_txQueries e1 @ [query],
                                 ex_txResults := ex_txResults e1 @ [result]\<rparr>)
        | (Err err, e1) \<Rightarrow> (Err (TxExecute err), e1)
        | (Panic, e1) \<Rightarrow> (Panic, e1)
        | (Hang, e1) \<Rightarrow> (Hang, e1))"

end
