(* ===== verification/ExecSpec.thy ===== *)
theory ExecSpec imports Executor HeapSpec begin

text \<open>
  The executor over the specification of the heap files: what each statement does to the
  tables, that statements never return a Go error, and that they leave the transaction
  buffers alone.
\<close>

section \<open>The transaction buffers\<close>

text \<open>The part of the state that only the transaction operations change.\<close>

definition tx_state :: "Executor \<Rightarrow> bool \<times> string list \<times> QueryResult list" where
  "tx_state e = (ex_inTransaction e, ex_txQueries e, ex_txResults e)"

lemma tx_state_simps [simp]:
  "tx_state (e\<lparr>ex_store := st\<rparr>) = tx_state e" "tx_state (e\<lparr>ex_Catalog := c\<rparr>) = tx_state e"
  "tx_state (e\<lparr>ex_Tables := t\<rparr>) = tx_state e" "tx_state (e\<lparr>ex_Indexes := i\<rparr>) = tx_state e"
  "tx_state (e\<lparr>ex_idxFiles := f\<rparr>) = tx_state e" "tx_state (e\<lparr>ex_nextID := n\<rparr>) = tx_state e"
  by (simp_all add: tx_state_def)

text \<open>A statement that hands back no Go error and keeps the transaction buffers.\<close>

definition plain_run :: "Executor \<Rightarrow> exec_result \<Rightarrow> bool" where
  "plain_run e r \<longleftrightarrow> (\<forall>err. fst r \<noteq> Err err) \<and> tx_state (snd r) = tx_state e"

lemma plain_fail [simp]: "plain_run e (fail err e') \<longleftrightarrow> tx_state e' = tx_state e"
  by (simp add: plain_run_def fail_def)

lemma plain_Ok [simp]: "plain_run e (Ok r, e') \<longleftrightarrow> tx_state e' = tx_state e"
  "plain_run e (Panic, e') \<longleftrightarrow> tx_state e' = tx_state e" "plain_run e (Hang, e') \<longleftrightarrow> tx_state e' = tx_state e"
  by (simp_all add: plain_run_def)

lemma tx_on_store [simp]: "tx_state (snd (on_store f e)) = tx_state e"
  by (simp add: on_store_def split: prod.split)

lemma plain_or_fail:
  assumes "tx_state (snd r) = tx_state e" "\<And>a e'. tx_state e' = tx_state e \<Longrightarrow> plain_run e (k a e')"
  shows "plain_run e (or_fail w r k)"
  using assms by (cases r) (auto simp: or_fail_def split: outcome.split)

lemma plain_executeCreate: "plain_run e (executeCreate en s e)"
  by (auto simp: executeCreate_def Let_def split: outcome.split prod.split intro!: plain_or_fail)

lemma plain_executeCreateIndex: "plain_run e (executeCreateIndex en s e)"
  by (auto simp: executeCreateIndex_def Let_def split: option.split outcome.split prod.split intro!: plain_or_fail)

lemma tx_auto_increment: "tx_state (snd (auto_increment en i cs acc e)) = tx_state e"
  by (induction en i cs acc e rule: auto_increment.induct) (auto simp: GenerateID_def)

lemma tx_insert_row_values: "tx_state (snd (insert_row_values en s sch e)) = tx_state e"
proof -
  obtain vals i e1 where a: "auto_increment en 0 (sch_Columns sch) (replicate (length (sch_Columns sch)) VNil, -1) e
      = ((vals, i), e1)" by (metis prod.exhaust)
  then have "tx_state e1 = tx_state e" using tx_auto_increment by (metis snd_conv)
  then show ?thesis using a by (simp add: insert_row_values_def Let_def)
qed

lemma tx_check_unique: "tx_state (snd (check_unique fl t i cs vals e)) = tx_state e"
proof (induction fl t i cs vals e rule: check_unique.induct)
  case (2 fl t i c cs vals e)
  show ?case using 2 tx_on_store [of "HeapFile_ScanFull t" e]
    by (auto split: prod.split outcome.split simp del: tx_on_store)
qed simp

lemma plain_executeInsert: "plain_run e (executeInsert en s e)"
proof (cases "ex_Tables e (ins_Table s)")
  case (Some h)
  obtain r1 e1 where r1: "insert_row_values en s (hf_Schema h) e = (r1, e1)" by fastforce
  have e1: "tx_state e1 = tx_state e" using tx_insert_row_values [of en s "hf_Schema h" e] r1 by simp
  have "tx_state e2 = tx_state e"
    if "check_unique fl h i cs vals e1 = (r2, e2)" for fl i cs vals r2 e2
    using tx_check_unique [of fl h i cs vals e1] e1 that by simp
  then show ?thesis using Some r1 e1
    by (auto simp: executeInsert_def split: outcome.split prod.split option.split intro!: plain_or_fail)
qed (simp add: executeInsert_def)

lemma plain_executeSelect: "plain_run e (executeSelect en s e)"
proof -
  have q: "join_query srt fl s jn ls rs L R \<noteq> Err err" for srt fl jn ls rs L R err
    by (auto simp: join_query_def limitJoinedRows_def Let_def elim!: bind_out.elims split: if_splits)
  have "bind_out (join_query srt fl s jn ls rs L R) (\<lambda>(names, rows). Ok (select_result names rows)) \<noteq> Err err"
    for srt fl jn ls rs L R err
    using q [of srt fl jn ls rs L R] by (cases "join_query srt fl s jn ls rs L R") (auto split: prod.split)
  then show ?thesis
    by (auto simp: executeSelect_def executeJoin_def plain_run_def [of _ "(_, _)"] split: option.split intro!: plain_or_fail)
qed

lemma tx_delete_rows: "tx_state (snd (delete_rows t rows n e)) = tx_state e"
proof (induction t rows n e rule: delete_rows.induct)
  case (2 t row rows n e)
  show ?case using 2 tx_on_store [of "HeapFile_DeleteRow (row_RID row) t" e]
    by (auto split: prod.split outcome.split simp del: tx_on_store)
qed simp

lemma plain_executeDelete: "plain_run e (executeDelete en s e)"
proof -
  have "tx_state e2 = tx_state e'" if "delete_rows t rows n e' = (r, e2)" for t rows n e' r e2
    using tx_delete_rows [of t rows n e'] that by simp
  then show ?thesis
    by (auto simp: executeDelete_def split: option.split outcome.split prod.split intro!: plain_or_fail)
qed

lemma plain_executeDrop: "plain_run e (executeDrop en s e)"
  by (auto simp: executeDrop_def flush_quietly_def Let_def split: option.split prod.split intro!: plain_or_fail)

lemma tx_update_unique: "tx_state (snd (update_unique fl t us rid vals e)) = tx_state e"
proof (induction fl t us rid vals e rule: update_unique.induct)
  case (2 fl t u us rid vals e)
  show ?case using 2 tx_on_store [of "HeapFile_ScanFull t" e]
    by (auto split: prod.split outcome.split option.split simp: Let_def simp del: tx_on_store)
qed simp

lemma tx_update_rows: "tx_state (snd (update_rows en t us rows n e)) = tx_state e"
proof (induction en t us rows n e rule: update_rows.induct)
  case (2 en t us row rows n e)
  obtain r1 e1 where r1: "update_unique (env_fl en) t us (row_RID row)
      (updated_values (env_fl en) (hf_Schema t) us (row_Values row)) e = (r1, e1)" by fastforce
  have e1: "tx_state e1 = tx_state e" using tx_update_unique r1 by (metis snd_conv)
  obtain r2 e2 where r2: "on_store (HeapFile_UpdateRow (env_fl en) (row_RID row)
      \<lparr>row_RID = InvalidRID, row_Values = updated_values (env_fl en) (hf_Schema t) us (row_Values row)\<rparr> t) e1 = (r2, e2)" by fastforce
  have e2: "tx_state e2 = tx_state e" using tx_on_store r2 e1 by (metis snd_conv)
  show ?case using r1 e1 r2 e2 2 by (simp add: Let_def split: outcome.split option.split)
qed simp

lemma plain_executeUpdate: "plain_run e (executeUpdate en s e)"
proof -
  have "tx_state e2 = tx_state e'" if "update_rows en t us rows n e' = (r, e2)" for t us rows n e' r e2
    using tx_update_rows [of en t us rows n e'] that by simp
  then show ?thesis
    by (auto simp: executeUpdate_def split: option.split outcome.split prod.split intro!: plain_or_fail)
qed

lemma plain_run_statement: "plain_run e (run_statement en stmt e)"
  by (simp add: run_statement_def plain_executeCreate plain_executeCreateIndex plain_executeInsert
      plain_executeSelect plain_executeDelete plain_executeUpdate plain_executeDrop split: Statement.split)

lemma plain_execute_parsed: "plain_run e (execute_parsed en stmt e)"
  using plain_run_statement [of e en stmt]
  by (auto simp: execute_parsed_def plain_run_def flush_quietly_def split: outcome.split prod.split)

text \<open>\<^verbatim>\<open>Execute\<close> returns a result or hangs; it returns no Go error and never panics.\<close>

lemma Execute_result:
  "(\<exists>r e'. Execute en q e = (Ok r, e')) \<or> (\<exists>e'. Execute en q e = (Hang, e'))"
proof -
  have p: "fst (execute_parsed en stmt e) \<noteq> Panic" for stmt
    by (auto simp: execute_parsed_def split: outcome.split prod.split)
  have "fst (execute_parsed en stmt e) \<noteq> Err err" for stmt err
    using plain_execute_parsed by (simp add: plain_run_def)
  then have "fst (Execute en q e) \<noteq> Err err" "fst (Execute en q e) \<noteq> Panic" for err
    using p by (auto simp: Execute_def fail_def split: outcome.split)
  then show ?thesis by (cases "Execute en q e"; cases "fst (Execute en q e)") auto
qed

lemma Execute_tx: "tx_state (snd (Execute en q e)) = tx_state e"
  using plain_execute_parsed by (auto simp: Execute_def fail_def plain_run_def split: outcome.split)


section \<open>Statements on the abstract tables\<close>

text \<open>
  The executor between statements: the store is at rest and every open table is unlocked and
  filed under its own name.
\<close>

definition settled :: "Executor \<Rightarrow> bool" where
  "settled e \<longleftrightarrow> heap_store (ex_store e)
     \<and> (\<forall>n h. ex_Tables e n = Some h \<longrightarrow> \<not> hf_locked h \<and> sch_Name (hf_Schema h) = n)"

abbreviation tid_of :: "HeapFile \<Rightarrow> u32" where "tid_of h \<equiv> HeapFile_TableID h"

definition table_rows :: "HeapFile \<Rightarrow> Executor \<Rightarrow> Row list" where
  "table_rows h e = decode_rows (hf_Schema h) (heap_rows (tid_of h) (ex_store e))"

text \<open>Only the page cache moved: every table has the same rows.\<close>

definition same_tables :: "Executor \<Rightarrow> Executor \<Rightarrow> bool" where
  "same_tables e e' \<longleftrightarrow> (\<exists>st. e' = e\<lparr>ex_store := st\<rparr> \<and> heap_store st
     \<and> dm_pageCount (st_disk st) = dm_pageCount (st_disk (ex_store e))
     \<and> (\<forall>t. heap_rows t st = heap_rows t (ex_store e)))"

lemma same_tables_refl: "settled e \<Longrightarrow> same_tables e e"
  by (auto simp: same_tables_def settled_def intro!: exI [of _ "ex_store e"])

lemma same_tables_trans: "same_tables a b \<Longrightarrow> same_tables b c \<Longrightarrow> same_tables a c"
  by (auto simp: same_tables_def)

lemma same_tables_fields:
  assumes "same_tables e e'"
  shows "ex_Tables e' = ex_Tables e" "ex_Catalog e' = ex_Catalog e" "ex_inTransaction e' = ex_inTransaction e"
    "ex_Indexes e' = ex_Indexes e" "table_rows h e' = table_rows h e" "heap_store (ex_store e')"
    "heap_rows t (ex_store e') = heap_rows t (ex_store e)"
    "dm_pageCount (st_disk (ex_store e')) = dm_pageCount (st_disk (ex_store e))"
  using assms by (auto simp: same_tables_def table_rows_def)

lemma same_tables_settled: "settled e \<Longrightarrow> same_tables e e' \<Longrightarrow> settled e'"
  using same_tables_fields [of e e'] by (simp add: settled_def)

lemma scan_table:
  assumes "settled e" "\<not> hf_locked h"
  shows "\<exists>e'. on_store (HeapFile_ScanFull h) e = (Ok (table_rows h e), e') \<and> same_tables e e'"
proof -
  have hs: "heap_store (ex_store e)" using assms(1) by (simp add: settled_def)
  obtain st where s: "HeapFile_ScanFull h (ex_store e) = (Ok (table_rows h e), st)" "kept (ex_store e) st"
    using ScanFull_rows [OF hs assms(2)] by (auto simp: table_rows_def)
  have "heap_store st" using kept_heap_store [OF hs s(2)] .
  then show ?thesis using s kept_rows [OF hs s(2)] by (auto simp: on_store_def same_tables_def kept_def)
qed

subsection \<open>INSERT\<close>

text \<open>The first unique column on which the new values repeat a row of the table.\<close>

fun duplicate :: "flt \<Rightarrow> Row list \<Rightarrow> nat \<Rightarrow> ColumnDef list \<Rightarrow> val list \<Rightarrow> string option" where
  "duplicate fl rows idx [] vals = None"
| "duplicate fl rows idx (c # cs) vals =
     (if (col_PrimaryKey c \<or> col_Unique c) \<and> (\<exists>row \<in> set rows. clashes fl idx vals row) then Some (col_Name c)
      else duplicate fl rows (Suc idx) cs vals)"

lemma check_unique_spec:
  assumes "settled e" "\<not> hf_locked h"
  shows "\<exists>e'. check_unique fl h idx cs vals e = (Ok (map_option DuplicateValue (duplicate fl (table_rows h e) idx cs vals)), e')
    \<and> same_tables e e'"
  using assms(1)
proof (induction cs arbitrary: idx e)
  case Nil
  then show ?case by (simp add: same_tables_refl)
next
  case (Cons c cs)
  show ?case
  proof (cases "col_PrimaryKey c \<or> col_Unique c")
    case True
    obtain e1 where s: "on_store (HeapFile_ScanFull h) e = (Ok (table_rows h e), e1)" "same_tables e e1"
      using scan_table [OF Cons.prems assms(2)] by blast
    have "settled e1" using same_tables_settled [OF Cons.prems s(2)] .
    from Cons.IH [OF this, of "Suc idx"] show ?thesis
      using s True same_tables_fields(5) [OF s(2), of h] same_tables_trans [OF s(2)] by auto
  next
    case False
    then show ?thesis using Cons.IH [OF Cons.prems, of "Suc idx"] by auto
  qed
qed

text \<open>The row an accepted INSERT stores.\<close>

abbreviation new_row :: "val list \<Rightarrow> Row" where "new_row vals \<equiv> \<lparr>row_RID = InvalidRID, row_Values = vals\<rparr>"

lemma auto_increment_keep: "\<exists>n. snd (auto_increment en i cs acc e) = e\<lparr>ex_nextID := n\<rparr>"
proof (induction en i cs acc e rule: auto_increment.induct)
  case (1 en i acc e)
  then show ?case by (auto intro!: exI [of _ "ex_nextID e"])
next
  case (2 en i c cs acc e)
  then show ?case by (fastforce simp: GenerateID_def split: prod.splits)
qed

lemma insert_values_keep:
  assumes "insert_row_values en s sch e = (r, e1)"
  shows "\<exists>n. e1 = e\<lparr>ex_nextID := n\<rparr>"
proof -
  obtain vals i e2 where a: "auto_increment en 0 (sch_Columns sch) (replicate (length (sch_Columns sch)) VNil, -1) e
      = ((vals, i), e2)" by (metis prod.exhaust)
  then have "\<exists>n. e2 = e\<lparr>ex_nextID := n\<rparr>"
    using auto_increment_keep [of en 0 "sch_Columns sch" "(replicate (length (sch_Columns sch)) VNil, -1)" e] by simp
  moreover have "\<exists>n. e = e\<lparr>ex_nextID := n\<rparr>" by (rule exI [of _ "ex_nextID e"]) simp
  ultimately show ?thesis using assms a by (auto simp: insert_row_values_def Let_def split: if_splits)
qed

lemma insert_values_settled:
  assumes "settled e" "insert_row_values en s sch e = (r, e1)"
  shows "settled e1" "ex_Tables e1 = ex_Tables e" "table_rows h e1 = table_rows h e" "ex_store e1 = ex_store e"
  using insert_values_keep [OF assms(2)] assms(1) by (auto simp: settled_def table_rows_def)


lemma executeInsert_duplicate:
  assumes st: "settled e" and h: "ex_Tables e (ins_Table s) = Some h"
    and vals: "insert_row_values en s (hf_Schema h) e = (Ok (vals, i), e1)"
    and dup: "duplicate (env_fl en) (table_rows h e) 0 (sch_Columns (hf_Schema h)) vals = Some c"
  shows "\<exists>e'. executeInsert en s e = (Ok (error_result (DuplicateValue c)), e') \<and> settled e'
    \<and> (\<forall>t. heap_rows t (ex_store e') = heap_rows t (ex_store e))"
proof -
  note e1 = insert_values_settled [OF st vals]
  have free: "\<not> hf_locked h" using st h by (simp add: settled_def)
  obtain e2 where "check_unique (env_fl en) h 0 (sch_Columns (hf_Schema h)) vals e1 = (Ok (Some (DuplicateValue c)), e2)"
      "same_tables e1 e2"
    using check_unique_spec [OF e1(1) free, of "env_fl en" 0 "sch_Columns (hf_Schema h)" vals] e1(3) dup by auto
  then show ?thesis
    using h vals same_tables_settled [OF e1(1)] same_tables_fields(7) e1(4) by (auto simp: executeInsert_def fail_def)
qed

text \<open>The answer to an INSERT.\<close>

definition inserted_result :: "RID \<Rightarrow> i64 \<Rightarrow> QueryResult" where
  "inserted_result rid i = \<lparr>qr_Type = ''INSERT'', qr_Columns = [''rid'', ''message''],
     qr_Rows = [[VString (RID_String rid), VString msg_inserted]], qr_AffectedRows = 1, qr_LastInsertID = i, qr_Error = None\<rparr>"

lemma executeInsert_adds:
  assumes st: "settled e" and h: "ex_Tables e (ins_Table s) = Some h"
    and vals: "insert_row_values en s (hf_Schema h) e = (Ok (vals, i), e1)"
    and new: "duplicate (env_fl en) (table_rows h e) 0 (sch_Columns (hf_Schema h)) vals = None"
    and ser: "SerializeRow (env_fl en) (new_row vals) (hf_Schema h) = Ok data" "data \<noteq> []" "length data \<le> max_row"
    and small: "unat (dm_pageCount (st_disk (ex_store e))) + 1 < 2 ^ 51"
  shows "\<exists>rid e'. executeInsert en s e = (Ok (inserted_result rid i), e') \<and> settled e'
    \<and> row_added (tid_of h) rid data (ex_store e) (ex_store e') \<and> ex_Tables e' = ex_Tables e \<and> ex_Catalog e' = ex_Catalog e"
proof -
  note e1 = insert_values_settled [OF st vals]
  have free: "\<not> hf_locked h" using st h by (simp add: settled_def)
  obtain e2 where c: "check_unique (env_fl en) h 0 (sch_Columns (hf_Schema h)) vals e1 = (Ok None, e2)" "same_tables e1 e2"
    using check_unique_spec [OF e1(1) free, of "env_fl en" 0 "sch_Columns (hf_Schema h)" vals] e1(3) new by auto
  note e2 = same_tables_fields [OF c(2)]
  obtain rid st' where ins: "HeapFile_InsertRow (env_fl en) (new_row vals) h (ex_store e2) = (Ok rid, st')"
      "row_added (tid_of h) rid data (ex_store e2) st'"
    using InsertRow_adds [OF e2(6) free ser] small e2(8) e1(4) by auto
  have added: "row_added (tid_of h) rid data (ex_store e) st'"
    using ins(2) e2(7) e1(4) by (simp add: row_added_def)
  have cat: "ex_Catalog e2 = ex_Catalog e" using e2(2) insert_values_keep [OF vals] by auto
  have "executeInsert en s e = (Ok (inserted_result rid i), e2\<lparr>ex_store := st'\<rparr>)"
    using h vals c(1) ins(1) by (simp add: executeInsert_def or_fail_def on_store_def inserted_result_def)
  moreover have "settled (e2\<lparr>ex_store := st'\<rparr>)"
    using added e2(1) e1(2) st by (simp add: settled_def row_added_def)
  ultimately show ?thesis using added e2(1) e1(2) cat by auto
qed

text \<open>The scanned rows after a row was added: the new one, under its identifier, among the old ones.\<close>

lemma row_added_table_rows:
  assumes "row_added (tid_of h) rid data (ex_store e) (ex_store e')"
    and "DeserializeRow data (hf_Schema h) = Ok row"
  shows "\<exists>A B. table_rows h e = A @ B \<and> table_rows h e' = A @ row\<lparr>row_RID := rid\<rparr> # B"
proof -
  obtain A B where "heap_rows (tid_of h) (ex_store e) = A @ B" "heap_rows (tid_of h) (ex_store e') = A @ (rid, data) # B"
    using assms(1) by (auto simp: row_added_def)
  then have "table_rows h e = decode_rows (hf_Schema h) A @ decode_rows (hf_Schema h) B"
    "table_rows h e' = decode_rows (hf_Schema h) A @ row\<lparr>row_RID := rid\<rparr> # decode_rows (hf_Schema h) B"
    using assms(2) by (simp_all add: table_rows_def decode_rows_def decode_def)
  then show ?thesis by blast
qed

text \<open>A column whose non-NULL values print differently in all rows.\<close>

definition printed :: "flt \<Rightarrow> nat \<Rightarrow> Row list \<Rightarrow> string list" where
  "printed fl idx rows = map (\<lambda>r. fmt_v fl (row_Values r ! idx)) (filter (\<lambda>r. row_Values r ! idx \<noteq> VNil) rows)"

definition unique_in :: "flt \<Rightarrow> nat \<Rightarrow> Row list \<Rightarrow> bool" where
  "unique_in fl idx rows \<longleftrightarrow> distinct (printed fl idx rows)"

lemma duplicate_None:
  assumes "duplicate fl rows k cs vals = None" "idx < length cs" "col_PrimaryKey (cs ! idx) \<or> col_Unique (cs ! idx)"
  shows "\<not> (\<exists>row \<in> set rows. clashes fl (k + idx) vals row)"
  using assms
proof (induction cs arbitrary: k idx)
  case (Cons c cs)
  show ?case
  proof (cases idx)
    case 0
    then show ?thesis using Cons.prems by (auto split: if_splits)
  next
    case (Suc n)
    have "duplicate fl rows (Suc k) cs vals = None" using Cons.prems(1) by (auto split: if_splits)
    then show ?thesis using Cons.IH [of "Suc k" n] Cons.prems Suc by simp
  qed
qed simp

lemma unique_in_insert:
  assumes "unique_in fl idx (A @ B)" "\<not> (\<exists>row \<in> set (A @ B). clashes fl idx (row_Values new) row)"
  shows "unique_in fl idx (A @ new # B)"
  using assms by (auto simp: unique_in_def printed_def clashes_def)

subsection \<open>DELETE\<close>

lemma unat_u16_of_nat: "m < 65536 \<Longrightarrow> unat (word_of_nat m :: u16) = m"
  by (simp only: unat_of_nat) simp

lemma distinct_live_from:
  "i + length rs \<le> 65536 \<Longrightarrow> distinct (map fst (live_from pid i rs))"
proof (induction rs arbitrary: i)
  case (Cons r rs)
  have "\<lparr>rid_PageID = pid, rid_SlotID = word_of_nat i\<rparr> \<notin> fst ` set (live_from pid (Suc i) rs)"
  proof
    assume "\<lparr>rid_PageID = pid, rid_SlotID = word_of_nat i\<rparr> \<in> fst ` set (live_from pid (Suc i) rs)"
    then obtain x where x: "x \<in> set (live_from pid (Suc i) rs)" "rid_SlotID (fst x) = word_of_nat i" by force
    obtain k where k: "k < length rs" "rid_SlotID (fst x) = word_of_nat (Suc i + k)" using live_from_slot [OF x(1)] by auto
    then have "(word_of_nat i :: u16) = word_of_nat (Suc i + k)" using x(2) by simp
    then have "unat (word_of_nat i :: u16) = unat (word_of_nat (Suc i + k) :: u16)" by (rule arg_cong)
    moreover have "unat (word_of_nat i :: u16) = i"
      by (rule unat_u16_of_nat) (use Cons.prems in simp)
    moreover have "unat (word_of_nat (Suc i + k) :: u16) = Suc i + k"
      by (rule unat_u16_of_nat) (use k(1) Cons.prems in simp)
    ultimately show False by linarith
  qed
  then show ?case using Cons by (auto simp: live_at_def split: option.split)
qed simp

lemma distinct_page_live: "distinct (map fst (page_live tid p))"
proof -
  have "rows_of p < 65536" unfolding rows_of_def by (rule unat_u16_less)
  then show ?thesis using distinct_live_from [of 0 "page_rows p"] by (simp add: page_live_def)
qed

lemma distinct_heap_upto: "b \<le> 2 ^ 64 \<Longrightarrow> distinct (map fst (heap_upto tid st a b))"
proof (induction "b - a" arbitrary: a)
  case 0
  then show ?case by (simp add: heap_upto_def)
next
  case (Suc n)
  have lt: "a < b" using Suc.hyps(2) by simp
  have "fst x \<noteq> fst y" if x: "x \<in> set (page_live tid (pg_of st (word_of_nat a)))" and y: "y \<in> set (heap_upto tid st (Suc a) b)" for x y
  proof -
    have px: "rid_PageID (fst x) = word_of_nat a" using page_live_pid [OF x] by (simp add: pg_of_def)
    obtain k where k: "Suc a \<le> k" "k < b" "rid_PageID (fst y) = word_of_nat k" using heap_upto_pid [OF y] by blast
    have "unat (word_of_nat a :: u64) = a" "unat (word_of_nat k :: u64) = k" using k lt Suc.prems by (simp_all add: unat_of_nat)
    then show ?thesis using px k by auto
  qed
  then show ?case using Suc distinct_page_live lt
    by (fastforce simp: heap_upto_step [OF lt])
qed

lemma distinct_heap_rows: "distinct (map fst (heap_rows tid st))"
  unfolding heap_rows_def by (rule distinct_heap_upto) (simp add: unat_u64_less less_imp_le)

end
