(* ===== verification/ExecTables.thy ===== *)
theory ExecTables imports ExecSpec begin

text \<open>
  The other statements on the abstract tables: DELETE removes exactly the rows its condition
  selects, SELECT reads the table, DROP TABLE empties the table's pages.
\<close>

section \<open>DELETE\<close>

text \<open>The scanned rows sit in the store, each under its own identifier.\<close>

lemma decode_rows_rid: "r \<in> set (decode_rows schema rs) \<Longrightarrow> \<exists>d. (row_RID r, d) \<in> set rs"
  by (fastforce simp: decode_rows_def decode_def split: outcome.splits)

lemma distinct_decode:
  assumes "distinct (map fst rs)"
  shows "distinct (map row_RID (decode_rows schema rs))"
  using assms
proof (induction rs)
  case (Cons x rs)
  have "row_RID r \<noteq> fst x" if r: "r \<in> set (decode_rows schema rs)" for r
    using Cons.prems decode_rows_rid [OF r] by (cases x) (auto intro: rev_image_eqI)
  then have "fst x \<notin> row_RID ` set (decode_rows schema rs)" by force
  moreover have "decode_rows schema (x # rs) = decode schema x @ decode_rows schema rs" by (simp add: decode_rows_def)
  ultimately show ?case using Cons by (auto simp: decode_def split: outcome.split)
qed (simp add: decode_rows_def)

lemma table_rows_rid:
  "r \<in> set (table_rows h e) \<Longrightarrow> \<exists>d. (row_RID r, d) \<in> set (heap_rows (tid_of h) (ex_store e))"
  unfolding table_rows_def by (rule decode_rows_rid)

lemma distinct_table_rows: "distinct (map row_RID (table_rows h e))"
  unfolding table_rows_def by (rule distinct_decode [OF distinct_heap_rows])

lemma decode_filter:
  "decode_rows schema (filter (\<lambda>x. fst x \<notin> R) rs) = filter (\<lambda>r. row_RID r \<notin> R) (decode_rows schema rs)"
  by (induction rs) (auto simp: decode_rows_def decode_def split: outcome.split)

text \<open>What deleting a set of rows leaves.\<close>

definition rows_removed :: "u32 \<Rightarrow> RID set \<Rightarrow> Executor \<Rightarrow> Executor \<Rightarrow> bool" where
  "rows_removed tid R e e' \<longleftrightarrow> (\<exists>st. e' = e\<lparr>ex_store := st\<rparr>) \<and> heap_store (ex_store e')
     \<and> heap_rows tid (ex_store e') = filter (\<lambda>x. fst x \<notin> R) (heap_rows tid (ex_store e))
     \<and> (\<forall>t. t \<noteq> tid \<longrightarrow> heap_rows t (ex_store e') = heap_rows t (ex_store e))"

lemma rows_removed_settled: "settled e \<Longrightarrow> rows_removed tid R e e' \<Longrightarrow> settled e'"
  by (auto simp: rows_removed_def settled_def)

lemma rows_removed_refl: "settled e \<Longrightarrow> rows_removed tid {} e e"
  by (auto simp: rows_removed_def settled_def intro!: exI [of _ "ex_store e"])

lemma rows_removed_trans:
  assumes "rows_removed tid R a b" "rows_removed tid S b c"
  shows "rows_removed tid (R \<union> S) a c"
  using assms by (auto simp: rows_removed_def filter_filter conj_commute)

lemma same_tables_removed: "same_tables a b \<Longrightarrow> rows_removed tid R b c \<Longrightarrow> rows_removed tid R a c"
  by (auto simp: rows_removed_def same_tables_def)

lemma rows_removed_table_rows:
  "rows_removed (tid_of h) R e e' \<Longrightarrow> table_rows h e' = filter (\<lambda>r. row_RID r \<notin> R) (table_rows h e)"
  by (simp add: rows_removed_def table_rows_def decode_filter)

lemma delete_rows_spec:
  assumes "settled e" "\<not> hf_locked h" "distinct (map row_RID rows)"
    "\<forall>r \<in> set rows. \<exists>d. (row_RID r, d) \<in> set (heap_rows (tid_of h) (ex_store e))"
  shows "\<exists>e'. delete_rows h rows n e = (Ok (n + length rows), e')
    \<and> rows_removed (tid_of h) (row_RID ` set rows) e e'"
  using assms
proof (induction rows arbitrary: n e)
  case Nil
  then show ?case by (simp add: rows_removed_refl)
next
  case (Cons r rows)
  have hs: "heap_store (ex_store e)" using Cons.prems(1) by (simp add: settled_def)
  obtain d where d: "(row_RID r, d) \<in> set (heap_rows (tid_of h) (ex_store e))" using Cons.prems(4) by auto
  obtain st where s: "HeapFile_DeleteRow (row_RID r) h (ex_store e) = (Ok (), st)"
      "row_removed (tid_of h) (row_RID r) (ex_store e) st"
    using DeleteRow_removes [OF hs Cons.prems(2) d] by blast
  let ?e = "e\<lparr>ex_store := st\<rparr>"
  have one: "rows_removed (tid_of h) {row_RID r} e ?e" using s(2) by (auto simp: rows_removed_def row_removed_def)
  have "\<exists>d. (row_RID x, d) \<in> set (heap_rows (tid_of h) (ex_store ?e))" if x: "x \<in> set rows" for x
  proof -
    have "row_RID x \<noteq> row_RID r" using Cons.prems(3) x by (auto intro: rev_image_eqI)
    moreover have "\<exists>d. (row_RID x, d) \<in> set (heap_rows (tid_of h) (ex_store e))" using Cons.prems(4) x by simp
    ultimately show ?thesis using s(2) by (simp add: row_removed_def)
  qed
  then obtain e' where e': "delete_rows h rows (n + 1) ?e = (Ok (n + 1 + length rows), e')"
      "rows_removed (tid_of h) (row_RID ` set rows) ?e e'"
    using Cons.IH [OF rows_removed_settled [OF Cons.prems(1) one] Cons.prems(2), of "n + 1"] Cons.prems(3) by auto
  have "rows_removed (tid_of h) (row_RID ` set (r # rows)) e e'"
    using rows_removed_trans [OF one e'(2)] by simp
  then show ?case using s(1) e'(1) by (simp add: on_store_def)
qed

lemma matching_rows_sub: "set (matching_rows en schema c rows) \<subseteq> set rows"
    "distinct (map row_RID rows) \<Longrightarrow> distinct (map row_RID (matching_rows en schema c rows))"
  by (auto simp: matching_rows_def filterRows_def distinct_map_filter split: option.splits)

lemma executeDelete_spec:
  fixes en
  assumes st: "settled e" and h: "ex_Tables e (del_Table s) = Some h"
  defines "gone \<equiv> matching_rows en (hf_Schema h) (del_Condition s) (table_rows h e)"
  shows "\<exists>e'. executeDelete en s e = (Ok (message_result ''DELETE'' (word_of_nat (length gone)) (msg_deleted (length gone))), e')
    \<and> rows_removed (tid_of h) (row_RID ` set gone) e e'"
proof -
  have free: "\<not> hf_locked h" using st h by (simp add: settled_def)
  obtain e1 where s: "on_store (HeapFile_ScanFull h) e = (Ok (table_rows h e), e1)" "same_tables e e1"
    using scan_table [OF st free] by blast
  have st1: "settled e1" using same_tables_settled [OF st s(2)] .
  have gone: "\<forall>r \<in> set gone. \<exists>d. (row_RID r, d) \<in> set (heap_rows (tid_of h) (ex_store e1))"
    "distinct (map row_RID gone)"
    using matching_rows_sub(1) matching_rows_sub(2) [OF distinct_table_rows]
      table_rows_rid same_tables_fields(7) [OF s(2)] unfolding gone_def by fastforce+
  obtain e2 where d: "delete_rows h gone 0 e1 = (Ok (length gone), e2)" "rows_removed (tid_of h) (row_RID ` set gone) e1 e2"
    using delete_rows_spec [OF st1 free gone(2,1), of 0] by auto
  then show ?thesis
    using h s(1) same_tables_removed [OF s(2) d(2)] by (auto simp: executeDelete_def or_fail_def gone_def)
qed

section \<open>SELECT\<close>

lemma executeSelect_spec:
  assumes st: "settled e" and h: "ex_Tables e (sel_Table s) = Some h" and j: "sel_Join s = None"
  shows "\<exists>e'. executeSelect en s e = (Ok (select_rows en s (hf_Schema h) (table_rows h e)), e') \<and> same_tables e e'"
proof -
  have "\<not> hf_locked h" using st h by (simp add: settled_def)
  then obtain e1 where "on_store (HeapFile_ScanFull h) e = (Ok (table_rows h e), e1)" "same_tables e e1"
    using scan_table [OF st] by blast
  then show ?thesis using h j by (auto simp: executeSelect_def or_fail_def)
qed

lemma executeJoin_spec:
  assumes st: "settled e" and h: "ex_Tables e (sel_Table s) = Some l" "ex_Tables e (jn_Table jn) = Some r"
    and j: "sel_Join s = Some jn"
  shows "\<exists>e'. executeSelect en s e =
      (bind_out (join_query (env_sortJoined en) (env_fl en) s jn (hf_Schema l) (hf_Schema r)
          (table_rows l e) (table_rows r e)) (\<lambda>(names, rows). Ok (select_result names rows)), e')
    \<and> same_tables e e'"
proof -
  have free: "\<not> hf_locked l" "\<not> hf_locked r" using st h by (simp_all add: settled_def)
  obtain e1 where s1: "on_store (HeapFile_ScanFull l) e = (Ok (table_rows l e), e1)" "same_tables e e1"
    using scan_table [OF st free(1)] by blast
  obtain e2 where s2: "on_store (HeapFile_ScanFull r) e1 = (Ok (table_rows r e1), e2)" "same_tables e1 e2"
    using scan_table [OF same_tables_settled [OF st s1(2)] free(2)] by blast
  show ?thesis
    using h j s1(1) s2(1) same_tables_fields(5) [OF s1(2)] same_tables_trans [OF s1(2) s2(2)]
    by (auto simp: executeSelect_def executeJoin_def or_fail_def)
qed

section \<open>DROP TABLE\<close>

text \<open>The pages of a table, in order.\<close>

definition table_pages :: "u32 \<Rightarrow> store \<Rightarrow> nat \<Rightarrow> nat \<Rightarrow> u64 list" where
  "table_pages tid st a b = filter (\<lambda>p. table_of (pg_of st p) = tid) (map word_of_nat [a..<b])"

lemma pages_of_table_spec:
  assumes "heap_store st" "pid \<noteq> 0"
  shows "\<exists>st'. pages_of_table tid (dm_pageCount (st_disk st)) pid st
      = (Ok (table_pages tid st (unat pid) (unat (dm_pageCount (st_disk st)))), st') \<and> kept st st'"
  using assms
proof (induction "unat (dm_pageCount (st_disk st)) - unat pid" arbitrary: pid st)
  case 0
  then have "\<not> pid < dm_pageCount (st_disk st)" by (simp add: word_less_nat_alt)
  then show ?case using 0 kept_refl by (auto simp: pages_of_table.simps [of _ _ pid] table_pages_def)
next
  case (Suc n)
  let ?N = "dm_pageCount (st_disk st)"
  have lt: "pid < ?N" using Suc.hyps(2) by (simp add: word_less_nat_alt)
  obtain i st1 p where o: "BufferPool_FetchPage pid st = (Ok i, st1)" "pool.opened st pid i st1 p"
      "table_of p = table_of (pg_of st pid)"
    using heap_open [OF Suc.prems lt] by blast
  obtain st2 where u: "BufferPool_UnpinPage pid False st1 = (Ok (), st2)" "kept st st2"
    using pool.close_unchanged [OF o(2), of False] kept_closed by blast
  have p: "page_at i st1 = Some p" using pool.opened_deref [OF o(2)] .
  have hs2: "heap_store st2" using kept_heap_store Suc.prems(1) u(2) by blast
  have n2: "dm_pageCount (st_disk st2) = ?N" using u(2) by (simp add: kept_def)
  have s: "unat (pid + 1) = Suc (unat pid)" using succ_index [OF lt] .
  then have nz: "pid + 1 \<noteq> 0" by auto
  obtain st3 where r: "pages_of_table tid ?N (pid + 1) st2 = (Ok (table_pages tid st2 (Suc (unat pid)) (unat ?N)), st3)"
      "kept st2 st3"
  proof -
    have arg: "n = unat (dm_pageCount (st_disk st2)) - unat (pid + 1)" using Suc.hyps(2) n2 s by simp
    show ?thesis using that Suc.hyps(1) [OF arg hs2 nz] s n2 by auto
  qed
  have same: "table_pages tid st2 (Suc (unat pid)) (unat ?N) = table_pages tid st (Suc (unat pid)) (unat ?N)"
    unfolding table_pages_def
    by (rule filter_cong) (use u(2) word_of_index in \<open>auto simp: kept_def pg_of_def\<close>)
  have "table_pages tid st (unat pid) (unat ?N)
      = (if table_of (pg_of st pid) = tid then [pid] else []) @ table_pages tid st (Suc (unat pid)) (unat ?N)"
    using lt by (simp add: table_pages_def upt_conv_Cons word_less_nat_alt)
  then have "pages_of_table tid ?N pid st = (Ok (table_pages tid st (unat pid) (unat ?N)), st3)"
    using lt o(1) p u(1) r(1) same o(3)
    by (subst pages_of_table.simps) (simp add: table_of_def)
  then show ?case using kept_trans [OF u(2) r(2)] by blast
qed

text \<open>Overwriting pages with the empty page.\<close>

definition cleared :: "u64 set \<Rightarrow> store \<Rightarrow> store \<Rightarrow> bool" where
  "cleared P st st' \<longleftrightarrow> heap_store st' \<and> dm_pageCount (st_disk st') = dm_pageCount (st_disk st)
     \<and> (\<forall>r. r \<noteq> 0 \<longrightarrow> view st' r = (if r \<in> P then pg_Data (NewPage r) else view st r))"

lemma clear_one:
  assumes hs: "heap_store st" and pid: "pid \<noteq> 0" "pid < dm_pageCount (st_disk st)"
  shows "\<exists>st2. clear_pages (pid # pids) st = clear_pages pids st2 \<and> cleared {pid} st st2"
proof -
  obtain i st1 p where o: "BufferPool_FetchPage pid st = (Ok i, st1)" "pool.opened st pid i st1 p"
    using heap_open [OF hs pid] by blast
  note p = pool.opened_deref [OF o(2)] pool.opened_page [OF o(2)]
  let ?q = "p\<lparr>pg_Data := pg_Data (NewPage pid), pg_Dirty := True\<rparr>"
  have q: "page_wf ?q" "pg_ID ?q = pid"
    using p(3) NewPage_wf [of pid] ReadHeader_bytes [of ?q "NewPage pid"] by (simp_all add: page_wf_header)
  obtain st2 where c: "BufferPool_UnpinPage pid True (set_page i ?q st1) = (Ok (), st2)" "pool.closed st pid (pg_Data ?q) st2"
    using pool.close_page [OF o(2) q, of True] by auto
  have "page_ok \<lparr>pg_Data = pg_Data ?q, pg_ID = pid, pg_Dirty = False\<rparr>"
    by (subst page_bytes(1) [of _ "NewPage pid"]) (simp_all add: NewPage_ok)
  then have "heap_store st2" by (rule closed_heap_store [OF hs c(2) pid])
  then have "cleared {pid} st st2" using pool.closed_rest(2) [OF c(2)] c(2)
    by (simp add: cleared_def pool_extent_def pool.closed_def)
  then show ?thesis using o(1) p(1) c(1) by auto
qed

lemma cleared_refl: "heap_store st \<Longrightarrow> cleared {} st st"
  by (simp add: cleared_def)

lemma cleared_trans: "cleared P a b \<Longrightarrow> cleared Q b c \<Longrightarrow> cleared (P \<union> Q) a c"
  by (auto simp: cleared_def)

lemma clear_pages_spec:
  assumes "heap_store st" "\<forall>pid \<in> set pids. pid \<noteq> 0 \<and> pid < dm_pageCount (st_disk st)"
  shows "\<exists>st'. clear_pages pids st = (Ok (), st') \<and> cleared (set pids) st st'"
  using assms
proof (induction pids arbitrary: st)
  case Nil
  then show ?case by (simp add: cleared_refl)
next
  case (Cons pid pids)
  obtain st2 where s: "clear_pages (pid # pids) st = clear_pages pids st2" "cleared {pid} st st2"
    using clear_one [of st pid pids] Cons.prems by auto
  obtain st' where "clear_pages pids st2 = (Ok (), st')" "cleared (set pids) st2 st'"
    using Cons.IH [of st2] s(2) Cons.prems by (auto simp: cleared_def)
  then show ?case using s cleared_trans [of "{pid}" st st2 "set pids" st'] by auto
qed

text \<open>A table without pages has no rows, and clearing the pages of one table keeps the others.\<close>

definition table_cleared :: "u32 \<Rightarrow> store \<Rightarrow> store \<Rightarrow> bool" where
  "table_cleared tid st st' \<longleftrightarrow> heap_store st' \<and> dm_pageCount (st_disk st') = dm_pageCount (st_disk st)
     \<and> heap_rows tid st' = [] \<and> (\<forall>t. t \<noteq> tid \<longrightarrow> heap_rows t st' = heap_rows t st)"

lemma cleared_table:
  assumes hs: "heap_store st"
    and c: "cleared (set (table_pages tid st 1 (unat (dm_pageCount (st_disk st))))) st st'"
  shows "table_cleared tid st st'"
proof -
  let ?n = "unat (dm_pageCount (st_disk st))"
  let ?P = "set (table_pages tid st 1 ?n)"
  have page: "page_live t (pg_of st' (word_of_nat k)) = (if t = tid then [] else page_live t (pg_of st (word_of_nat k)))"
    if k: "1 \<le> k" "k < ?n" for t k
  proof -
    let ?w = "word_of_nat k :: u64"
    have nz: "?w \<noteq> 0" using word_of_index [of k] k by auto
    have inP: "?w \<in> ?P \<longleftrightarrow> table_of (pg_of st ?w) = tid" using k by (auto simp: table_pages_def)
    show ?thesis
    proof (cases "?w \<in> ?P")
      case True
      then have "pg_Data (pg_of st' ?w) = pg_Data (NewPage ?w)" using c nz by (simp add: cleared_def pg_of_def)
      then have "page_live t (pg_of st' ?w) = []" by (rule page_live_NewPage)
      then show ?thesis using True inP by (simp add: page_live_def)
    next
      case False
      then have "pg_of st' ?w = pg_of st ?w" using c nz by (simp add: cleared_def pg_of_def)
      then show ?thesis using False inP by (simp add: page_live_def)
    qed
  qed
  have n: "unat (dm_pageCount (st_disk st')) = ?n" using c by (simp add: cleared_def)
  have "heap_rows tid st' = []" using page [of _ tid] n by (auto simp: heap_rows_def heap_upto_def)
  moreover have "heap_rows t st' = heap_rows t st" if "t \<noteq> tid" for t
    unfolding heap_rows_def n by (rule heap_upto_cong) (use page that in auto)
  ultimately show ?thesis using c by (simp add: table_cleared_def cleared_def)
qed

lemma clearPages_spec:
  assumes hs: "heap_store st"
  shows "\<exists>st'. clearPagesByTableID tid st = (Ok (), st') \<and> table_cleared tid st st'"
proof -
  let ?n = "unat (dm_pageCount (st_disk st))"
  let ?ps = "table_pages tid st 1 ?n"
  obtain st1 where s1: "pages_of_table tid (dm_pageCount (st_disk st)) 1 st = (Ok ?ps, st1)" "kept st st1"
    using pages_of_table_spec [OF hs, of 1 tid] by auto
  have hs1: "heap_store st1" using kept_heap_store [OF hs s1(2)] .
  have n1: "dm_pageCount (st_disk st1) = dm_pageCount (st_disk st)" using s1(2) by (simp add: kept_def)
  have "pid \<noteq> 0 \<and> pid < dm_pageCount (st_disk st1)" if "pid \<in> set ?ps" for pid
    using that word_of_index n1 by (auto simp: table_pages_def word_less_nat_alt)
  then obtain st2 where s2: "clear_pages ?ps st1 = (Ok (), st2)" "cleared (set ?ps) st1 st2"
    using clear_pages_spec [OF hs1, of ?ps] by blast
  have "cleared (set ?ps) st st2" using s2(2) s1(2) by (auto simp: cleared_def kept_def)
  then show ?thesis using s1(1) s2(1) cleared_table [OF hs]
    by (auto simp: clearPagesByTableID_def DiskManager_PageCount_def)
qed

end
