(* ===== verification/ExecRows.thy ===== *)
theory ExecRows imports ExecTables begin

text \<open>
  The values a statement builds fit the columns of its table, so that a row read back is the
  row that was written; the automatic flush keeps every table.
\<close>

section \<open>Columns and literals\<close>

lemma find_col_bounds: "find_col i cs name = Some k \<Longrightarrow> i \<le> k \<and> k < i + length cs"
  by (induction i cs name rule: find_col.induct) (auto split: if_splits)

lemma findColumnIndex_bound: "findColumnIndex schema name = Some k \<Longrightarrow> k < length (sch_Columns schema)"
  using find_col_bounds [of 0] by (auto simp: findColumnIndex_def)

lemma ParseValue_fits: "ParseValue fl s ty = Ok v \<Longrightarrow> fits ty v"
  by (cases ty) (auto simp: ParseValue_def Let_def simp: bind_out_Ok_iff split: option.splits if_splits)

lemma literal_value_fits:
  assumes "literal_value fl x ty n = Ok v"
  shows "v = VNil \<or> fits ty v"
  using assms ParseValue_fits [of fl]
  by (cases x) (auto simp: literal_value_def split: outcome.splits if_splits elim!: map_err.elims)

lemma row_fits_update:
  "row_fits cs vs \<Longrightarrow> v = VNil \<or> fits (col_ColType (cs ! i)) v \<Longrightarrow> row_fits cs (vs[i := v])"
  by (cases "i < length vs")
     (auto simp: row_fits_def list_all2_conv_all_nth nth_list_update list_update_beyond split: if_splits)

lemma named_values_fits:
  assumes "named_values fl t schema cs xs vals = Ok vs" "row_fits (sch_Columns schema) vals"
  shows "row_fits (sch_Columns schema) vs"
  using assms
proof (induction fl t schema cs xs vals rule: named_values.induct)
  case (1 fl t schema c cs x xs vals)
  obtain idx v where idx: "findColumnIndex schema c = Some idx"
      and v: "literal_value fl x (col_ColType (sch_Columns schema ! idx)) c = Ok v"
        "named_values fl t schema cs xs (vals[idx := v]) = Ok vs"
    using "1.prems"(1) by (auto simp: bind_out_Ok_iff split: option.splits)
  have "row_fits (sch_Columns schema) (vals[idx := v])"
    by (rule row_fits_update [OF "1.prems"(2) literal_value_fits [OF v(1)]])
  then show ?case using "1.IH" [OF idx v(2)] by blast
qed auto

lemma all_values_fits:
  "all_values fl cs xs = Ok vs \<Longrightarrow> length xs = length cs \<Longrightarrow> row_fits cs vs"
proof (induction fl cs xs arbitrary: vs rule: all_values.induct)
  case (1 fl c cs x xs)
  then obtain v ws where v: "literal_value fl x (col_ColType c) (col_Name c) = Ok v" "all_values fl cs xs = Ok ws" "vs = v # ws"
    by (auto simp: bind_out_Ok_iff)
  moreover have "row_fits cs ws" using "1.IH" [OF v(2)] "1.prems"(2) by simp
  ultimately show ?case using literal_value_fits by (simp add: row_fits_def)
qed (auto simp: row_fits_def)

text \<open>Auto-increment columns are integers.\<close>

definition auto_ints :: "ColumnDef list \<Rightarrow> bool" where
  "auto_ints cs \<longleftrightarrow> (\<forall>c \<in> set cs. col_AutoIncrement c \<longrightarrow> col_ColType c = TypeInt)"

lemma auto_increment_fits:
  assumes "auto_ints cs" "row_fits (pre @ cs) (fst acc)" "i = length pre"
  shows "row_fits (pre @ cs) (fst (fst (auto_increment en i cs acc e)))"
  using assms
proof (induction en i cs acc e arbitrary: pre rule: auto_increment.induct)
  case (2 en i c cs acc e)
  have *: "auto_ints cs" using "2.prems"(1) by (simp add: auto_ints_def)
  show ?case
  proof (cases "col_AutoIncrement c")
    case True
    obtain n e1 where g: "GenerateID en e = (n, e1)" by fastforce
    have "row_fits ((pre @ [c]) @ cs) ((fst acc)[i := VInt32 (ucast n)])"
      using row_fits_update [OF "2.prems"(2), of "VInt32 (ucast n)" i] "2.prems"(1,3) True
      by (simp add: auto_ints_def nth_append)
    then show ?thesis using "2.IH"(1) [OF True g [symmetric] *, of "pre @ [c]"] g True "2.prems"(3) by simp
  next
    case False
    then show ?thesis using "2.IH"(2) [OF False *, of "pre @ [c]"] "2.prems"(2,3) by simp
  qed
qed simp

lemma insert_row_values_fits:
  assumes "insert_row_values en s schema e = (Ok (vals, i), e1)" "auto_ints (sch_Columns schema)"
  shows "row_fits (sch_Columns schema) vals"
proof (cases "ins_Columns s = []")
  case True
  then show ?thesis using assms(1) all_values_fits
    by (auto simp: insert_row_values_def Let_def bind_out_Ok_iff split: if_splits)
next
  case False
  let ?cs = "sch_Columns schema"
  let ?a = "auto_increment en 0 ?cs (replicate (length ?cs) VNil, -1) e"
  have "row_fits ?cs (replicate (length ?cs) VNil)" by (simp add: row_fits_def list_all2_conv_all_nth)
  then have "row_fits ?cs (fst (fst ?a))" using auto_increment_fits [OF assms(2), of "[]"] by simp
  then show ?thesis using assms(1) False named_values_fits
    by (fastforce simp: insert_row_values_def Let_def split: if_splits prod.splits simp: bind_out_Ok_iff)
qed

text \<open>Reading back what was written.\<close>

lemma stored_row:
  assumes "row_fits (sch_Columns schema) vals" "sch_Columns schema \<noteq> []" "texts_size vals < 65536"
    and "SerializeRow fl (new_row vals) schema = Ok data"
  shows "DeserializeRow data schema = Ok (new_row vals)" "data \<noteq> []"
proof -
  have s: "\<lparr>sch_Name = sch_Name schema, sch_Columns = sch_Columns schema\<rparr> = schema" by simp
  show d: "DeserializeRow data schema = Ok (new_row vals)"
    using row_roundtrip_fits [OF assms(1-3), of fl InvalidRID "sch_Name schema" "sch_Name schema"] assms(4)
    unfolding s by auto
  then show "data \<noteq> []" by (auto simp: DeserializeRow_def)
qed

lemma length_table_rows: "r \<in> set (table_rows h e) \<Longrightarrow> length (row_Values r) = length (sch_Columns (hf_Schema h))"
  using length_decoded by (fastforce simp: table_rows_def decode_rows_def decode_def split: outcome.splits)

section \<open>The flush behind a statement\<close>

lemma FlushAll_kept:
  assumes hs: "heap_store st"
  shows "fst (BufferPool_FlushAll st) = Ok () \<and> kept st (snd (BufferPool_FlushAll st))"
proof -
  have r: "pool_ok st" "cached_below st" "healthy st" "bp_frames (st_bp st) \<noteq> []" "\<forall>q. pins st q = 0"
    using hs by (simp_all add: heap_store_def pool.at_rest_def pool_inv_def pool_ready_def)
  obtain x st' where f: "BufferPool_FlushAll st = (x, st')" by fastforce
  have s: "pool_step st st'" "x = Ok ()" using FlushAll_spec [OF r(1)] f r(3) by auto
  have "healthy st'" using healthy_faults [OF r(3)] s(1) by (simp add: pool_step_def)
  moreover have "bp_frames (st_bp st') \<noteq> []" using s(1) r(4) by (metis pool_step_def length_0_conv)
  ultimately have "kept st st'"
    using s(1) r by (simp add: kept_def pool.at_rest_def pool_inv_def pool_ready_def pool_step_def same_view_def)
  then show ?thesis using f s(2) by simp
qed

lemma flush_same_tables:
  assumes "settled e"
  shows "same_tables e (flush_quietly e)"
proof -
  have hs: "heap_store (ex_store e)" using assms by (simp add: settled_def)
  have k: "kept (ex_store e) (snd (BufferPool_FlushAll (ex_store e)))" using FlushAll_kept [OF hs] by blast
  show ?thesis using kept_heap_store [OF hs k] kept_rows [OF hs k] k
    by (auto simp: same_tables_def flush_quietly_def kept_def)
qed

text \<open>What \<^verbatim>\<open>Execute\<close> adds to a statement that succeeds: at most a flush.\<close>

lemma Execute_statement:
  assumes p: "Parse q = Ok stmt" and r: "run_statement en stmt e = (Ok r, e1)" and st: "settled e1"
  shows "\<exists>e'. Execute en q e = (Ok r, e') \<and> same_tables e1 e'"
  using assms same_tables_refl [OF st] flush_same_tables [OF st]
  by (auto simp: Execute_def execute_parsed_def)

section \<open>Inserted rows and unique columns\<close>

text \<open>A row an INSERT may store: its values were built from the statement and it fits a page.\<close>

definition insertable :: "env \<Rightarrow> InsertStatement \<Rightarrow> HeapFile \<Rightarrow> Executor \<Rightarrow> val list \<Rightarrow> i64 \<Rightarrow> bool" where
  "insertable en s h e vals i \<longleftrightarrow>
     fst (insert_row_values en s (hf_Schema h) e) = Ok (vals, i)
     \<and> auto_ints (sch_Columns (hf_Schema h)) \<and> sch_Columns (hf_Schema h) \<noteq> [] \<and> texts_size vals < 65536
     \<and> (\<exists>data. SerializeRow (env_fl en) (new_row vals) (hf_Schema h) = Ok data \<and> length data \<le> max_row)"

definition room :: "Executor \<Rightarrow> bool" where
  "room e \<longleftrightarrow> unat (dm_pageCount (st_disk (ex_store e))) + 1 < 2 ^ 51"

lemma executeInsert_stores:
  assumes st: "settled e" and h: "ex_Tables e (ins_Table s) = Some h" and v: "insertable en s h e vals i"
    and new: "duplicate (env_fl en) (table_rows h e) 0 (sch_Columns (hf_Schema h)) vals = None" and room: "room e"
  shows "\<exists>rid A B e'. executeInsert en s e = (Ok (inserted_result rid i), e') \<and> settled e'
    \<and> ex_Tables e' = ex_Tables e \<and> ex_Catalog e' = ex_Catalog e
    \<and> table_rows h e = A @ B \<and> table_rows h e' = A @ \<lparr>row_RID = rid, row_Values = vals\<rparr> # B
    \<and> (\<forall>t. t \<noteq> tid_of h \<longrightarrow> heap_rows t (ex_store e') = heap_rows t (ex_store e))"
proof -
  obtain e1 where vals: "insert_row_values en s (hf_Schema h) e = (Ok (vals, i), e1)"
    using v by (metis insertable_def prod.collapse)
  obtain data where ser: "SerializeRow (env_fl en) (new_row vals) (hf_Schema h) = Ok data" "length data \<le> max_row"
    using v by (auto simp: insertable_def)
  have fit: "row_fits (sch_Columns (hf_Schema h)) vals"
    using insert_row_values_fits [OF vals] v by (simp add: insertable_def)
  have b: "DeserializeRow data (hf_Schema h) = Ok (new_row vals)" "data \<noteq> []"
    using stored_row [OF fit] ser(1) v by (auto simp: insertable_def)
  obtain rid e' where x: "executeInsert en s e = (Ok (inserted_result rid i), e')" "settled e'"
      "row_added (tid_of h) rid data (ex_store e) (ex_store e')" "ex_Tables e' = ex_Tables e" "ex_Catalog e' = ex_Catalog e"
    using executeInsert_adds [OF st h vals new ser(1) b(2) ser(2)] room by (auto simp: room_def)
  then show ?thesis using row_added_table_rows [OF x(3) b(1)] by (auto simp: row_added_def)
qed

text \<open>No two rows agree on a PRIMARY KEY or UNIQUE column.\<close>

definition keys_unique :: "flt \<Rightarrow> HeapFile \<Rightarrow> Executor \<Rightarrow> bool" where
  "keys_unique fl h e \<longleftrightarrow> (\<forall>idx < length (sch_Columns (hf_Schema h)).
     col_PrimaryKey (sch_Columns (hf_Schema h) ! idx) \<or> col_Unique (sch_Columns (hf_Schema h) ! idx) \<longrightarrow>
     unique_in fl idx (table_rows h e))"

lemma keys_unique_insert:
  assumes "keys_unique fl h e" "table_rows h e = A @ B" "table_rows h e' = A @ \<lparr>row_RID = rid, row_Values = vals\<rparr> # B"
    and "duplicate fl (table_rows h e) 0 (sch_Columns (hf_Schema h)) vals = None"
  shows "keys_unique fl h e'"
  using assms duplicate_None [OF assms(4)] unique_in_insert [of fl _ A B "\<lparr>row_RID = rid, row_Values = vals\<rparr>"]
  by (auto simp: keys_unique_def)

end
