(* ===== verification/ExecDemo.thy ===== *)
theory ExecDemo imports ExecRows Examples begin

text \<open>
  An executor with one keyed table that holds one row, for the witnesses of the executor's
  properties.
\<close>

definition key_column :: ColumnDef where
  "key_column = (demo_column ''id'' TypeInt)\<lparr>col_PrimaryKey := True\<rparr>"

definition key_schema :: TableSchema where
  "key_schema = \<lparr>sch_Name = ''users'', sch_Columns = [key_column, demo_column ''name'' TypeText]\<rparr>"

abbreviation key_heap :: HeapFile where "key_heap \<equiv> NewHeapFile key_schema"

definition demo_env :: env where
  "demo_env = \<lparr>env_fl = demo_flt,
     env_js = \<lparr>js_enc = (\<lambda>m. if m = [(''users'', key_schema)] then [1] else [0]),
               js_dec = (\<lambda>d. if d = [1] then Some [(''users'', key_schema)] else None)\<rparr>,
     env_sortRows = (\<lambda>_ rows. rows), env_sortJoined = (\<lambda>_ rows. rows), env_mapOrder = id,
     env_ids = word_of_nat, env_idxOpen = (\<lambda>_. True), env_idxReadFails = (\<lambda>_ _. False),
     env_idxWriteFails = (\<lambda>_ _. False)\<rparr>"

definition demo_exec :: Executor where
  "demo_exec = \<lparr>ex_Catalog = \<lparr>cat_file = None, cat_writable = True, cat_Schemas = [(''users'', key_schema)]\<rparr>,
     ex_Tables = [''users'' \<mapsto> key_heap], ex_Indexes = (\<lambda>_. None), ex_store = demo_store,
     ex_inTransaction = False, ex_txQueries = [], ex_txResults = [], ex_idxFiles = (\<lambda>_. []), ex_nextID = 0\<rparr>"

definition demo_insert :: "string \<Rightarrow> InsertStatement" where
  "demo_insert key = \<lparr>ins_Table = ''users'', ins_Columns = [], ins_Values = [Literal key, Literal ''al'']\<rparr>"

lemma key_schema_simps [simp]: "sch_Name key_schema = ''users''"
    "sch_Columns key_schema = [key_column, demo_column ''name'' TypeText]"
    "col_ColType key_column = TypeInt" "col_PrimaryKey key_column" "col_Name key_column = ''id''"
    "\<not> col_AutoIncrement key_column"
  by (simp_all add: key_schema_def key_column_def demo_column_def)

lemma demo_column_simps [simp]: "col_Name (demo_column n ty) = n" "col_ColType (demo_column n ty) = ty"
    "\<not> col_PrimaryKey (demo_column n ty)" "\<not> col_Unique (demo_column n ty)" "\<not> col_AutoIncrement (demo_column n ty)"
  by (simp_all add: demo_column_def)

lemma key_tid: "HeapFile_TableID key_heap = HeapFile_TableID demo_heap"
  by (simp add: HeapFile_TableID_def NewHeapFile_def demo_heap_def demo_schema_def)

lemma key_decoded: "DeserializeRow demo_bytes key_schema = Ok \<lparr>row_RID = InvalidRID, row_Values = [VInt32 7, VString ''bob'']\<rparr>"
  by code_simp

lemma demo_exec_simps [simp]: "ex_store demo_exec = demo_store" "ex_Tables demo_exec = [''users'' \<mapsto> key_heap]"
    "hf_Schema key_heap = key_schema" "env_fl demo_env = demo_flt" "cat_writable (ex_Catalog demo_exec)"
    "cat_Schemas (ex_Catalog demo_exec) = [(''users'', key_schema)]" "\<not> ex_inTransaction demo_exec"
    "ins_Table (demo_insert k) = ''users''" "ins_Columns (demo_insert k) = []"
    "ins_Values (demo_insert k) = [Literal k, Literal ''al'']"
  by (simp_all add: demo_exec_def demo_env_def NewHeapFile_def demo_insert_def)

lemma demo_settled: "settled demo_exec"
  using demo_store(1) by (simp add: settled_def NewHeapFile_def)

lemma demo_rows: "table_rows key_heap demo_exec = [\<lparr>row_RID = demo_rid, row_Values = [VInt32 7, VString ''bob'']\<rparr>]"
  using demo_store(2) key_decoded by (simp add: table_rows_def key_tid decode_rows_def decode_def)

lemma demo_values:
  "insert_row_values demo_env (demo_insert ''8'') key_schema demo_exec = (Ok ([VInt32 8, VString ''al''], -1), demo_exec)"
  "insert_row_values demo_env (demo_insert ''7'') key_schema demo_exec = (Ok ([VInt32 7, VString ''al''], -1), demo_exec)"
proof -
  have a: "Atoi ''8'' = Ok 8" "Atoi ''7'' = Ok 7" by (simp_all add: Atoi_def is_digit_def code_def)
  have u: "ToUpper ''8'' \<noteq> ''NULL''" "ToUpper ''7'' \<noteq> ''NULL''" "ToUpper ''al'' \<noteq> ''NULL''" by code_simp+
  have q: "strip_quotes ''8'' = Ok ''8''" "strip_quotes ''7'' = Ok ''7''" "strip_quotes ''al'' = Ok ''al''" by code_simp+
  have "literal_value demo_flt (Literal ''8'') TypeInt ''id'' = Ok (VInt32 8)"
    "literal_value demo_flt (Literal ''7'') TypeInt ''id'' = Ok (VInt32 7)"
    "literal_value demo_flt (Literal ''al'') TypeText ''name'' = Ok (VString ''al'')"
    by (simp_all add: literal_value_def a u q ParseValue_def)
  then show
    "insert_row_values demo_env (demo_insert ''8'') key_schema demo_exec = (Ok ([VInt32 8, VString ''al''], -1), demo_exec)"
    "insert_row_values demo_env (demo_insert ''7'') key_schema demo_exec = (Ok ([VInt32 7, VString ''al''], -1), demo_exec)"
    by (simp_all add: insert_row_values_def)
qed

lemma demo_insertable: "insertable demo_env (demo_insert ''8'') key_heap demo_exec [VInt32 8, VString ''al''] (-1)"
proof -
  have "SerializeRow demo_flt (new_row [VInt32 8, VString ''al'']) key_schema = Ok [0, 8, 0, 0, 0, 0, 0, 0, 0, 0, 0, 2, 0, 97, 108]"
    by code_simp
  then show ?thesis using demo_values(1) by (simp add: insertable_def auto_ints_def texts_size_def max_row_def layout)
qed

lemma demo_prints: "dec_int 7 = ''7''" "dec_int 8 = ''8''"
  by code_simp+

lemma demo_duplicate:
  "duplicate demo_flt (table_rows key_heap demo_exec) 0 (sch_Columns key_schema) [VInt32 8, VString ''al''] = None"
  "duplicate demo_flt (table_rows key_heap demo_exec) 0 (sch_Columns key_schema) [VInt32 7, VString ''al''] = Some ''id''"
  by (simp_all add: demo_rows clashes_def demo_prints)

lemma demo_room: "room demo_exec"
  using demo_store(3) by (simp add: room_def)

lemma demo_unique: "keys_unique demo_flt key_heap demo_exec"
  by (auto simp: keys_unique_def demo_rows unique_in_def printed_def)

lemma demo_parsed:
  "Parse (''INSERT INTO users VALUES (8, '' @ [CHR 0x27] @ ''al'' @ [CHR 0x27] @ '')'') = Ok (InsertStmt (demo_insert ''8''))"
  "Parse ''SELECT * FROM users'' = Ok (SelectStmt \<lparr>sel_Table = ''users'', sel_Columns = [''*''], sel_Aggregates = [],
     sel_Condition = None, sel_Join = None, sel_OrderBy = [], sel_OrderDir = [], sel_Limit = -1, sel_Offset = 0, sel_GroupBy = []\<rparr>)"
  by code_simp+

end
