(* ===== verification/JoinProps.thy ===== *)
theory JoinProps imports ExecDemo begin

text \<open>
  The join from the outside: what \<^verbatim>\<open>SELECT * FROM t JOIN u ON t.a = u.b\<close> answers on the rows of two open
  tables. The lemmas resolve the qualified names the result is projected with.
\<close>

section \<open>Names\<close>

lemma index_dot_qualified: "index_dot t = None \<Longrightarrow> index_dot (t @ CHR ''.'' # n) = Some (length t)"
  by (induction t) (auto split: if_splits)

lemma stripTable_qualified: "index_dot t = None \<Longrightarrow> stripTable (t @ CHR ''.'' # n) = n"
  by (simp add: stripTable_def index_dot_qualified)

text \<open>Column names that differ by more than their case.\<close>

definition clear_names :: "ColumnDef list \<Rightarrow> bool" where
  "clear_names cs \<longleftrightarrow> distinct (map (\<lambda>c. ToLower (col_Name c)) cs)"

lemma lookup_name_nth:
  "clear_names cs \<Longrightarrow> length vs = length cs \<Longrightarrow> j < length cs \<Longrightarrow>
    lookup_name (\<lambda>n. EqualFold n (col_Name (cs ! j))) (map col_Name cs) vs = Some (vs ! j)"
proof (induction cs arbitrary: vs j)
  case (Cons c cs)
  obtain v ws where vs: "vs = v # ws" using Cons.prems(2) by (cases vs) auto
  show ?case
  proof (cases j)
    case 0
    then show ?thesis by (simp add: vs EqualFold_def)
  next
    case (Suc k)
    then have "ToLower (col_Name c) \<noteq> ToLower (col_Name (cs ! k))" using Cons.prems by (auto simp: clear_names_def)
    then show ?thesis using Cons Suc vs by (simp add: EqualFold_def clear_names_def)
  qed
qed simp

lemma find_col_nth:
  "clear_names cs \<Longrightarrow> i < length cs \<Longrightarrow> EqualFold (col_Name (cs ! i)) name \<Longrightarrow> find_col n cs name = Some (n + i)"
proof (induction cs arbitrary: i n)
  case (Cons c cs)
  show ?case
  proof (cases i)
    case 0
    then show ?thesis using Cons.prems by simp
  next
    case (Suc k)
    then have "ToLower (col_Name (cs ! k)) \<in> (\<lambda>c. ToLower (col_Name c)) ` set cs" using Cons.prems by simp
    then have "\<not> EqualFold (col_Name c) name" using Cons.prems Suc by (auto simp: clear_names_def EqualFold_def)
    then show ?thesis using Cons Suc by (simp add: clear_names_def)
  qed
qed simp

lemma findColumnIndex_nth:
  "clear_names (sch_Columns sch) \<Longrightarrow> i < length (sch_Columns sch) \<Longrightarrow> EqualFold (col_Name (sch_Columns sch ! i)) name \<Longrightarrow>
    findColumnIndex sch name = Some i"
  using find_col_nth [of "sch_Columns sch" i name 0] by (simp add: findColumnIndex_def)

section \<open>The projection\<close>

text \<open>All columns of a joined row, by their qualified names, are its left values and then its right values.\<close>

lemma project_left:
  assumes "clear_names (sch_Columns ls)" "length (row_Values l) = length (sch_Columns ls)" "index_dot ln = None"
  shows "map (\<lambda>c. getJoinValue (joined_row l vs ls rs ln rn) (Identifier (ln @ CHR ''.'' # col_Name c))) (sch_Columns ls) = row_Values l"
proof (rule nth_equalityI)
  fix j assume "j < length (map (\<lambda>c. getJoinValue (joined_row l vs ls rs ln rn) (Identifier (ln @ CHR ''.'' # col_Name c))) (sch_Columns ls))"
  then have j: "j < length (sch_Columns ls)" by simp
  show "map (\<lambda>c. getJoinValue (joined_row l vs ls rs ln rn) (Identifier (ln @ CHR ''.'' # col_Name c))) (sch_Columns ls) ! j = row_Values l ! j"
    using lookup_name_nth [OF assms(1,2) j] j
    by (simp add: getJoinValue_def joined_row_def columnNames_def index_dot_qualified [OF assms(3)] stripTable_qualified [OF assms(3)]
        Let_def EqualFold_def)
qed (use assms in simp)

lemma project_right:
  assumes "clear_names (sch_Columns rs)" "length vs = length (sch_Columns rs)" "index_dot rn = None" "\<not> EqualFold rn ln"
    and "rn \<noteq> []"
  shows "map (\<lambda>c. getJoinValue (joined_row l vs ls rs ln rn) (Identifier (rn @ CHR ''.'' # col_Name c))) (sch_Columns rs) = vs"
proof (rule nth_equalityI)
  fix j assume "j < length (map (\<lambda>c. getJoinValue (joined_row l vs ls rs ln rn) (Identifier (rn @ CHR ''.'' # col_Name c))) (sch_Columns rs))"
  then have j: "j < length (sch_Columns rs)" by simp
  show "map (\<lambda>c. getJoinValue (joined_row l vs ls rs ln rn) (Identifier (rn @ CHR ''.'' # col_Name c))) (sch_Columns rs) ! j = vs ! j"
    using lookup_name_nth [OF assms(1,2) j] j assms(4,5)
    by (simp add: getJoinValue_def joined_row_def columnNames_def index_dot_qualified [OF assms(3)] stripTable_qualified [OF assms(3)]
        Let_def EqualFold_def)
qed (use assms in simp)

section \<open>The join\<close>

text \<open>The statement \<^verbatim>\<open>SELECT * FROM t JOIN ...\<close> without further clauses.\<close>

definition join_all :: "string \<Rightarrow> JoinClause \<Rightarrow> SelectStatement" where
  "join_all t jn = \<lparr>sel_Table = t, sel_Columns = [''*''], sel_Aggregates = [], sel_Condition = None, sel_Join = Some jn,
     sel_OrderBy = [], sel_OrderDir = [], sel_Limit = -1, sel_Offset = 0, sel_GroupBy = []\<rparr>"

lemma join_all_simps [simp]: "sel_Table (join_all t jn) = t" "sel_Join (join_all t jn) = Some jn"
  by (simp_all add: join_all_def)

text \<open>The rows of a join of two lists of rows on the columns \<open>i\<close> and \<open>k\<close>.\<close>

definition matches_on :: "flt \<Rightarrow> nat \<Rightarrow> nat \<Rightarrow> Row \<Rightarrow> Row \<Rightarrow> bool" where
  "matches_on fl i k l r \<longleftrightarrow> row_Values l ! i \<noteq> VNil \<and> row_Values r ! k \<noteq> VNil
     \<and> fmt_v fl (row_Values l ! i) = fmt_v fl (row_Values r ! k)"

lemma join_condition:
  assumes "findColumnIndex ls (stripTable a) = Some i" "findColumnIndex rs (stripTable b) = Some k"
  shows "evaluateJoinCondition fl l r ls rs (Some \<lparr>bo_Left = Identifier a, bo_Operator = op, bo_Right = Identifier b\<rparr>) = matches_on fl i k l r"
  using assms by (auto simp: evaluateJoinCondition_def matches_on_def Let_def)

lemma join_query_all:
  assumes on: "jn_Condition jn = Some \<lparr>bo_Left = Identifier a, bo_Operator = op, bo_Right = Identifier b\<rparr>"
    and i: "findColumnIndex ls (stripTable a) = Some i" and k: "findColumnIndex rs (stripTable b) = Some k"
    and names: "index_dot t = None" "index_dot (jn_Table jn) = None" "jn_Table jn \<noteq> []" "\<not> EqualFold (jn_Table jn) t"
    and cols: "clear_names (sch_Columns ls)" "clear_names (sch_Columns rs)"
    and len: "\<forall>l \<in> set L. length (row_Values l) = length (sch_Columns ls)" "\<forall>r \<in> set R. length (row_Values r) = length (sch_Columns rs)"
  shows "join_query srt fl (join_all t jn) jn ls rs L R = Ok
     (map (\<lambda>c. t @ ''.'' @ col_Name c) (sch_Columns ls) @ map (\<lambda>c. jn_Table jn @ ''.'' @ col_Name c) (sch_Columns rs),
      concat (map (\<lambda>l. let ms = filter (matches_on fl i k l) R in
        if ms = [] then (if jn_Type jn = LeftJoin then [row_Values l @ replicate (length (sch_Columns rs)) VNil] else [])
        else map (\<lambda>r. row_Values l @ row_Values r) ms) L))"
proof -
  let ?names = "map (\<lambda>c. t @ ''.'' @ col_Name c) (sch_Columns ls) @ map (\<lambda>c. jn_Table jn @ ''.'' @ col_Name c) (sch_Columns rs)"
  have proj: "map (\<lambda>n. getJoinValue (joined_row l vs ls rs t (jn_Table jn)) (Identifier n)) ?names = row_Values l @ vs"
    if "l \<in> set L" "length vs = length (sch_Columns rs)" for l vs
    using project_left [OF cols(1), of l t vs rs "jn_Table jn"] project_right [OF cols(2) that(2) names(2,4,3), of l ls] that(1) len(1) names(1)
    by (simp add: comp_def)
  have one: "map (\<lambda>row. map (\<lambda>n. getJoinValue row (Identifier n)) ?names) (join_one fl jn t ls rs R l)
      = (let ms = filter (matches_on fl i k l) R in
        if ms = [] then (if jn_Type jn = LeftJoin then [row_Values l @ replicate (length (sch_Columns rs)) VNil] else [])
        else map (\<lambda>r. row_Values l @ row_Values r) ms)" if "l \<in> set L" for l
    using proj [OF that] len(2) that
    by (auto simp: join_one_def on join_condition [OF i k] Let_def simp del: map_append)
  have "map (\<lambda>row. map (\<lambda>n. getJoinValue row (Identifier n)) ?names) (join_rows fl jn t ls rs L R)
      = concat (map (\<lambda>l. map (\<lambda>row. map (\<lambda>n. getJoinValue row (Identifier n)) ?names) (join_one fl jn t ls rs R l)) L)"
    by (simp add: join_rows_def map_concat comp_def)
  also have "\<dots> = concat (map (\<lambda>l. let ms = filter (matches_on fl i k l) R in
        if ms = [] then (if jn_Type jn = LeftJoin then [row_Values l @ replicate (length (sch_Columns rs)) VNil] else [])
        else map (\<lambda>r. row_Values l @ row_Values r) ms) L)"
    using one by (intro arg_cong [where f = concat] map_cong) auto
  finally show ?thesis by (simp add: join_query_def join_all_def Let_def)
qed

text \<open>C17: SELECT * over a join of two open tables ON t.a op u.b answers, for the left rows in their order, each left row
  followed by each of the right rows that match it, in their order. A right row matches if neither of the two
  columns is NULL and both print the same, whatever the operator op is: the code never looks at it, so
  ON t.a < u.b is answered like ON t.a = u.b. A LEFT JOIN adds a left row without a match once, filled up
  with NULLs; other joins drop it. The rows of no table change. The columns a and b are found by the name
  behind the first dot, without regard to case; the table names have no dot and differ by more than case, and so do
  the columns of each table.\<close>

theorem join_returns_the_matching_pairs:
  fixes e hl hr
  defines "lc \<equiv> sch_Columns (hf_Schema hl)" and "rc \<equiv> sch_Columns (hf_Schema hr)"
  assumes st: "settled e" and h: "ex_Tables e t = Some hl" "ex_Tables e (jn_Table jn) = Some hr"
    and on: "jn_Condition jn = Some \<lparr>bo_Left = Identifier a, bo_Operator = op, bo_Right = Identifier b\<rparr>"
    and i: "i < length lc" "EqualFold (col_Name (lc ! i)) (stripTable a)"
    and k: "k < length rc" "EqualFold (col_Name (rc ! k)) (stripTable b)"
    and names: "index_dot t = None" "index_dot (jn_Table jn) = None" "jn_Table jn \<noteq> []" "\<not> EqualFold (jn_Table jn) t"
    and cols: "clear_names lc" "clear_names rc"
  shows "\<exists>e'. executeSelect en (join_all t jn) e = (Ok (select_result
      (map (\<lambda>c. t @ ''.'' @ col_Name c) lc @ map (\<lambda>c. jn_Table jn @ ''.'' @ col_Name c) rc)
      (concat (map (\<lambda>l. let ms = filter (\<lambda>r. row_Values l ! i \<noteq> VNil \<and> row_Values r ! k \<noteq> VNil
            \<and> fmt_v (env_fl en) (row_Values l ! i) = fmt_v (env_fl en) (row_Values r ! k)) (table_rows hr e) in
          if ms = [] then (if jn_Type jn = LeftJoin then [row_Values l @ replicate (length rc) VNil] else [])
          else map (\<lambda>r. row_Values l @ row_Values r) ms) (table_rows hl e)))), e')
    \<and> (\<forall>tid. heap_rows tid (ex_store e') = heap_rows tid (ex_store e))"
proof -
  have free: "\<not> hf_locked hl" "\<not> hf_locked hr" using st h by (simp_all add: settled_def)
  obtain e1 where s1: "on_store (HeapFile_ScanFull hl) e = (Ok (table_rows hl e), e1)" "same_tables e e1"
    using scan_table [OF st free(1)] by blast
  obtain e2 where s2: "on_store (HeapFile_ScanFull hr) e1 = (Ok (table_rows hr e1), e2)" "same_tables e1 e2"
    using scan_table [OF same_tables_settled [OF st s1(2)] free(2)] by blast
  note f = same_tables_fields [OF s1(2)] same_tables_fields [OF s2(2)]
  have "findColumnIndex (hf_Schema hl) (stripTable a) = Some i" "findColumnIndex (hf_Schema hr) (stripTable b) = Some k"
    using findColumnIndex_nth cols i k unfolding lc_def rc_def by blast+
  note q = join_query_all [OF on this names cols [unfolded lc_def rc_def], of "table_rows hl e" "table_rows hr e"]
  have "\<forall>l \<in> set (table_rows hl e). length (row_Values l) = length (sch_Columns (hf_Schema hl))"
    "\<forall>r \<in> set (table_rows hr e). length (row_Values r) = length (sch_Columns (hf_Schema hr))" using length_table_rows by blast+
  then have "executeSelect en (join_all t jn) e = (Ok (select_result
      (map (\<lambda>c. t @ ''.'' @ col_Name c) lc @ map (\<lambda>c. jn_Table jn @ ''.'' @ col_Name c) rc)
      (concat (map (\<lambda>l. let ms = filter (matches_on (env_fl en) i k l) (table_rows hr e) in
        if ms = [] then (if jn_Type jn = LeftJoin then [row_Values l @ replicate (length rc) VNil] else [])
        else map (\<lambda>r. row_Values l @ row_Values r) ms) (table_rows hl e)))), e2)"
    using q [of "env_sortJoined en" "env_fl en"] h s1(1) s2(1) f(5) [of hr] unfolding lc_def rc_def
    by (simp add: executeSelect_def executeJoin_def or_fail_def)
  then show ?thesis using f(7) f(15) by (auto simp: matches_on_def [abs_def])
qed

text \<open>Two tables over the same rows: their names have the same hash.\<close>

definition twin_schema :: "string \<Rightarrow> TableSchema" where
  "twin_schema n = \<lparr>sch_Name = n, sch_Columns = [demo_column ''id'' TypeInt, demo_column ''name'' TypeText]\<rparr>"

definition twin_exec :: Executor where
  "twin_exec = demo_exec\<lparr>ex_Tables := [''Aa'' \<mapsto> NewHeapFile (twin_schema ''Aa''), ''BB'' \<mapsto> NewHeapFile (twin_schema ''BB'')],
     ex_store := one_row_store 2 (HeapFile_TableID (NewHeapFile (twin_schema ''Aa''))) demo_bytes\<rparr>"

lemma twin_rows:
  "settled twin_exec" "n \<in> {''Aa'', ''BB''} \<Longrightarrow>
    table_rows (NewHeapFile (twin_schema n)) twin_exec = [\<lparr>row_RID = demo_rid, row_Values = [VInt32 7, VString ''bob'']\<rparr>]"
proof -
  note s = one_row_store [of demo_bytes 2 "HeapFile_TableID (NewHeapFile (twin_schema ''Aa''))"]
  have l: "0 < length demo_bytes" "length demo_bytes \<le> max_row" by (simp_all add: demo_bytes_def max_row_def layout)
  show "settled twin_exec" using s(1) [OF l] by (simp add: settled_def twin_exec_def NewHeapFile_def twin_schema_def)
  assume n: "n \<in> {''Aa'', ''BB''}"
  have "hashString ''Aa'' = hashString ''BB''" by (simp add: hashString_ascii code_def)
  then have "HeapFile_TableID (NewHeapFile (twin_schema n)) = HeapFile_TableID (NewHeapFile (twin_schema ''Aa''))"
    using n by (auto simp: HeapFile_TableID_def NewHeapFile_def twin_schema_def)
  moreover have "DeserializeRow demo_bytes (twin_schema n) = Ok \<lparr>row_RID = InvalidRID, row_Values = [VInt32 7, VString ''bob'']\<rparr>"
  proof -
    have "DeserializeRow demo_bytes (twin_schema ''Aa'') = Ok \<lparr>row_RID = InvalidRID, row_Values = [VInt32 7, VString ''bob'']\<rparr>" by code_simp
    then show ?thesis by (simp add: DeserializeRow_def twin_schema_def)
  qed
  ultimately show "table_rows (NewHeapFile (twin_schema n)) twin_exec = [\<lparr>row_RID = demo_rid, row_Values = [VInt32 7, VString ''bob'']\<rparr>]"
    using s(2) [OF l] by (simp add: table_rows_def decode_rows_def decode_def twin_exec_def) (simp add: NewHeapFile_def)
qed

theorem join_returns_the_matching_pairs_witness:
  "\<exists>e'. executeSelect demo_env (join_all ''Aa'' \<lparr>jn_Type = InnerJoin, jn_Table = ''BB'', jn_Condition =
       Some \<lparr>bo_Left = Identifier ''Aa.ID'', bo_Operator = ''<'', bo_Right = Identifier ''BB.id''\<rparr>\<rparr>) twin_exec
    = (Ok (select_result [''Aa.id'', ''Aa.name'', ''BB.id'', ''BB.name''] [[VInt32 7, VString ''bob'', VInt32 7, VString ''bob'']]), e')"
proof -
  let ?jn = "\<lparr>jn_Type = InnerJoin, jn_Table = ''BB'', jn_Condition =
    Some \<lparr>bo_Left = Identifier ''Aa.ID'', bo_Operator = ''<'', bo_Right = Identifier ''BB.id''\<rparr>\<rparr>"
  have h: "ex_Tables twin_exec ''Aa'' = Some (NewHeapFile (twin_schema ''Aa''))" "ex_Tables twin_exec (jn_Table ?jn) = Some (NewHeapFile (twin_schema ''BB''))"
    by (simp_all add: twin_exec_def)
  have on: "jn_Condition ?jn = Some \<lparr>bo_Left = Identifier ''Aa.ID'', bo_Operator = ''<'', bo_Right = Identifier ''BB.id''\<rparr>" by simp
  have c: "sch_Columns (hf_Schema (NewHeapFile (twin_schema n))) = [demo_column ''id'' TypeInt, demo_column ''name'' TypeText]" for n
    by (simp add: NewHeapFile_def twin_schema_def)
  have f: "EqualFold ''id'' (stripTable ''Aa.ID'')" "EqualFold ''id'' (stripTable ''BB.id'')" "\<not> EqualFold ''BB'' ''Aa''"
    "index_dot ''Aa'' = None" "index_dot ''BB'' = None" "clear_names [demo_column ''id'' TypeInt, demo_column ''name'' TypeText]"
    by code_simp+
  have "\<exists>e'. executeSelect demo_env (join_all ''Aa'' ?jn) twin_exec = (Ok (select_result
      (map (\<lambda>c. ''Aa'' @ ''.'' @ col_Name c) (sch_Columns (hf_Schema (NewHeapFile (twin_schema ''Aa'')))) @
       map (\<lambda>c. jn_Table ?jn @ ''.'' @ col_Name c) (sch_Columns (hf_Schema (NewHeapFile (twin_schema ''BB'')))))
      (concat (map (\<lambda>l. let ms = filter (\<lambda>r. row_Values l ! 0 \<noteq> VNil \<and> row_Values r ! 0 \<noteq> VNil
            \<and> fmt_v (env_fl demo_env) (row_Values l ! 0) = fmt_v (env_fl demo_env) (row_Values r ! 0)) (table_rows (NewHeapFile (twin_schema ''BB'')) twin_exec) in
          if ms = [] then (if jn_Type ?jn = LeftJoin then [row_Values l @ replicate (length (sch_Columns (hf_Schema (NewHeapFile (twin_schema ''BB''))))) VNil] else [])
          else map (\<lambda>r. row_Values l @ row_Values r) ms) (table_rows (NewHeapFile (twin_schema ''Aa'')) twin_exec)))), e')
    \<and> (\<forall>tid. heap_rows tid (ex_store e') = heap_rows tid (ex_store twin_exec))"
    by (rule join_returns_the_matching_pairs [OF twin_rows(1) h on]) (use f in \<open>simp_all add: c\<close>)
  then show ?thesis by (auto simp: c twin_rows(2) Let_def)
qed

end
