(* ===== verification/ExecProps.thy ===== *)
theory ExecProps imports ExecDemo begin

text \<open>
  The properties of the executor: what each statement does to the tables, the transaction
  machine, and the constraints that are declared but not enforced.
\<close>

section \<open>Results\<close>

text \<open>C20: Executing a text gives a result or never returns: it gives no Go error and does not panic, whatever
  the text and the state, because every failure is packed into a result of type ERROR.\<close>

theorem statements_return_no_go_error:
  "(\<exists>r e'. Execute en q e = (Ok r, e')) \<or> (\<exists>e'. Execute en q e = (Hang, e'))"
  by (rule Execute_result)

lemma commit_queries_never_fails: "fst (commit_queries en i qs e) \<noteq> Err err"
proof (induction qs arbitrary: i e)
  case (Cons q qs)
  then show ?case using Execute_result [of en q e] by auto
qed simp

text \<open>Commit therefore never takes the path that aborts the transaction because a buffered statement
  failed: failed statements are skipped over and the others stay executed.\<close>

theorem commit_never_aborts:
  "fst (Commit en e) \<noteq> Err (TxQueryFailed i err)"
  using commit_queries_never_fails [of en 0 "ex_txQueries e" e]
  by (auto simp: Commit_def split: outcome.splits prod.splits) (metis fst_conv)+

section \<open>INSERT and SELECT\<close>

text \<open>The statement \<^verbatim>\<open>SELECT * FROM t\<close>.\<close>

definition select_all :: "string \<Rightarrow> SelectStatement" where
  "select_all t = \<lparr>sel_Table = t, sel_Columns = [''*''], sel_Aggregates = [], sel_Condition = None, sel_Join = None,
     sel_OrderBy = [], sel_OrderDir = [], sel_Limit = -1, sel_Offset = 0, sel_GroupBy = []\<rparr>"

lemma select_rows_all:
  assumes "\<forall>r \<in> set rows. length (row_Values r) = length (sch_Columns schema)"
  shows "select_rows en (select_all t) schema rows
    = select_result (map col_Name (sch_Columns schema)) (map row_Values rows)"
proof -
  have "map (\<lambda>i. row_Values r ! i) [0..<length (sch_Columns schema)] = row_Values r" if "r \<in> set rows" for r
    using assms that map_nth [of "row_Values r"] by simp
  then show ?thesis by (simp add: select_rows_def select_all_def Let_def cong: map_cong)
qed

lemma executeSelect_all:
  assumes "settled e" "ex_Tables e t = Some h"
  shows "\<exists>e'. executeSelect en (select_all t) e
      = (Ok (select_result (map col_Name (sch_Columns (hf_Schema h))) (map row_Values (table_rows h e))), e') \<and> same_tables e e'"
proof -
  have l: "\<forall>r \<in> set (table_rows h e). length (row_Values r) = length (sch_Columns (hf_Schema h))"
    using length_table_rows by blast
  show ?thesis
    using executeSelect_spec [of e "select_all t" h en] assms select_rows_all [OF l, of en t] by (simp add: select_all_def)
qed

text \<open>C1: An INSERT is answered with the identifier of the row it stores: on an executor between statements, for an
  open table, a statement whose values convert to the columns' types and repeat no key adds one row with exactly
  these values to the table, the answer names the identifier this row has, which no row of the table had before, and
  a following SELECT of all rows shows the table with the old rows in their old order and the new one
  among them. The hypotheses in words: no other call holds the table and the cache is at rest (settled); the
  values convert, AUTOINCREMENT columns are INT columns, there is at least one column, the texts of the row
  together stay under 64 KiB and the encoded row fits a page (insertable); the file has fewer than 2^51
  pages (room).\<close>

theorem insert_then_select:
  assumes q: "Parse q1 = Ok (InsertStmt s)" "Parse q2 = Ok (SelectStmt (select_all (ins_Table s)))"
    and st: "settled e" and h: "ex_Tables e (ins_Table s) = Some h" and v: "insertable en s h e vals i"
    and new: "duplicate (env_fl en) (table_rows h e) 0 (sch_Columns (hf_Schema h)) vals = None" and room: "room e"
  shows "\<exists>rid A B e1 e2. Execute en q1 e = (Ok (inserted_result rid i), e1)
    \<and> table_rows h e = A @ B \<and> table_rows h e1 = A @ \<lparr>row_RID = rid, row_Values = vals\<rparr> # B
    \<and> rid \<notin> row_RID ` set (table_rows h e)
    \<and> Execute en q2 e1 = (Ok (select_result (map col_Name (sch_Columns (hf_Schema h))) (map row_Values (table_rows h e1))), e2)"
proof -
  obtain rid A B e1 where i: "executeInsert en s e = (Ok (inserted_result rid i), e1)" "settled e1"
      "ex_Tables e1 = ex_Tables e" "table_rows h e = A @ B" "table_rows h e1 = A @ \<lparr>row_RID = rid, row_Values = vals\<rparr> # B"
    using executeInsert_stores [OF st h v new room] by blast
  then obtain e2 where x1: "Execute en q1 e = (Ok (inserted_result rid i), e2)" "same_tables e1 e2"
    using Execute_statement [OF q(1), of en e _ e1] by (auto simp: run_statement_def)
  note e2 = same_tables_fields [OF x1(2)] same_tables_settled [OF i(2) x1(2)]
  obtain e3 where s: "executeSelect en (select_all (ins_Table s)) e2
      = (Ok (select_result (map col_Name (sch_Columns (hf_Schema h))) (map row_Values (table_rows h e2))), e3)" "same_tables e2 e3"
    using executeSelect_all [of e2 "ins_Table s" h en] e2 i(3) h by auto
  have "settled e3" using same_tables_settled s(2) e2 by blast
  then obtain e4 where "Execute en q2 e2
      = (Ok (select_result (map col_Name (sch_Columns (hf_Schema h))) (map row_Values (table_rows h e2))), e4)"
    using Execute_statement [OF q(2), of en e2 _ e3] s(1) by (auto simp: run_statement_def)
  moreover have "table_rows h e2 = A @ \<lparr>row_RID = rid, row_Values = vals\<rparr> # B" using e2(5) i(5) by simp
  moreover from this have "rid \<notin> row_RID ` set (table_rows h e)" using distinct_table_rows [of h e2] i(4) by auto
  ultimately show ?thesis using x1(1) i(4) by blast
qed

theorem insert_then_select_witness:
  "\<exists>rid A B e1 e2. Execute demo_env (''INSERT INTO users VALUES (8, '' @ [CHR 0x27] @ ''al'' @ [CHR 0x27] @ '')'') demo_exec
      = (Ok (inserted_result rid (-1)), e1)
    \<and> map row_Values (A @ B) = [[VInt32 7, VString ''bob'']] \<and> rid \<noteq> demo_rid
    \<and> table_rows key_heap e1 = A @ \<lparr>row_RID = rid, row_Values = [VInt32 8, VString ''al'']\<rparr> # B
    \<and> Execute demo_env ''SELECT * FROM users'' e1
      = (Ok (select_result [''id'', ''name''] (map row_Values (table_rows key_heap e1))), e2)"
proof -
  have s: "Parse ''SELECT * FROM users'' = Ok (SelectStmt (select_all (ins_Table (demo_insert ''8''))))"
    using demo_parsed(2) by (simp add: select_all_def)
  have h: "ex_Tables demo_exec (ins_Table (demo_insert ''8'')) = Some key_heap" by simp
  have d: "duplicate (env_fl demo_env) (table_rows key_heap demo_exec) 0 (sch_Columns (hf_Schema key_heap)) [VInt32 8, VString ''al''] = None"
    using demo_duplicate(1) by simp
  from insert_then_select [OF demo_parsed(1) s demo_settled h demo_insertable d demo_room]
  obtain rid A B e1 e2 where x: "Execute demo_env (''INSERT INTO users VALUES (8, '' @ [CHR 0x27] @ ''al'' @ [CHR 0x27] @ '')'') demo_exec
      = (Ok (inserted_result rid (-1)), e1)" "table_rows key_heap demo_exec = A @ B"
      "table_rows key_heap e1 = A @ \<lparr>row_RID = rid, row_Values = [VInt32 8, VString ''al'']\<rparr> # B"
      "rid \<notin> row_RID ` set (table_rows key_heap demo_exec)"
      "Execute demo_env ''SELECT * FROM users'' e1
        = (Ok (select_result (map col_Name (sch_Columns (hf_Schema key_heap))) (map row_Values (table_rows key_heap e1))), e2)" by blast
  have "map row_Values (A @ B) = [[VInt32 7, VString ''bob'']]" unfolding x(2) [symmetric] by (simp add: demo_rows)
  moreover have "rid \<noteq> demo_rid" using x(4) by (simp add: demo_rows)
  ultimately show ?thesis using x(1,3,5) by auto
qed

text \<open>C19: An INSERT that repeats the printed value of a PRIMARY KEY or UNIQUE column is answered with an
  error naming the column, and no table changes.\<close>

theorem duplicate_key_is_rejected:
  assumes "settled e" "ex_Tables e (ins_Table s) = Some h"
    and "insert_row_values en s (hf_Schema h) e = (Ok (vals, i), e1)"
    and "duplicate (env_fl en) (table_rows h e) 0 (sch_Columns (hf_Schema h)) vals = Some c"
  shows "\<exists>e'. executeInsert en s e = (Ok (error_result (DuplicateValue c)), e') \<and> settled e'
    \<and> (\<forall>t. heap_rows t (ex_store e') = heap_rows t (ex_store e))"
  using executeInsert_duplicate [OF assms] .

theorem duplicate_key_is_rejected_witness:
  "\<exists>e'. executeInsert demo_env (demo_insert ''7'') demo_exec = (Ok (error_result (DuplicateValue ''id'')), e')
    \<and> heap_rows (HeapFile_TableID demo_heap) (ex_store e') = [(demo_rid, demo_bytes)]"
  using duplicate_key_is_rejected [OF demo_settled, of "demo_insert ''7''" key_heap demo_env]
    demo_values(2) demo_duplicate(2) demo_store(2) by fastforce

text \<open>C4: INSERT keeps keys unique: if no two rows of an open table print the same non-NULL value in a PRIMARY
  KEY or UNIQUE column, this is still so after the statement, whatever becomes of it: whether it is accepted,
  refused as a duplicate, or fails or panics because its values do not convert. This holds for tables with at
  least one column whose AUTOINCREMENT columns are INT columns (an automatic value in a FLOAT or BOOL
  column is stored as 0 or false, so keys can repeat there), for statements whose row, if its values convert,
  has less than 64 KiB of text and fits a page, on a settled executor with fewer than 2^51 pages.\<close>

theorem inserts_keep_keys_unique:
  assumes st: "settled e" and h: "ex_Tables e (ins_Table s) = Some h"
    and ints: "auto_ints (sch_Columns (hf_Schema h))" and cols: "sch_Columns (hf_Schema h) \<noteq> []"
    and small: "\<And>vals i. fst (insert_row_values en s (hf_Schema h) e) = Ok (vals, i) \<Longrightarrow> texts_size vals < 65536
      \<and> (\<exists>data. SerializeRow (env_fl en) (new_row vals) (hf_Schema h) = Ok data \<and> length data \<le> max_row)"
    and u: "keys_unique (env_fl en) h e" and room: "room e"
  shows "case executeInsert en s e of (_, e') \<Rightarrow> settled e' \<and> keys_unique (env_fl en) h e'"
proof -
  obtain r e1 where v: "insert_row_values en s (hf_Schema h) e = (r, e1)" by fastforce
  note e1 = insert_values_settled [OF st v]
  have same: "settled e1 \<and> keys_unique (env_fl en) h e1" using e1(1,3) u by (simp add: keys_unique_def)
  show ?thesis
  proof (cases r)
    case (Ok vi)
    obtain vals i where vi: "vi = (vals, i)" by fastforce
    have ins: "insertable en s h e vals i" using small [of vals i] v Ok vi ints cols by (simp add: insertable_def)
    show ?thesis
    proof (cases "duplicate (env_fl en) (table_rows h e) 0 (sch_Columns (hf_Schema h)) vals")
      case None
      from executeInsert_stores [OF st h ins None room] show ?thesis
        using keys_unique_insert [OF u _ _ None] by auto
    next
      case (Some c)
      from executeInsert_duplicate [OF st h v [unfolded Ok vi] Some] show ?thesis
        using u by (auto simp: keys_unique_def table_rows_def)
    qed
  qed (use v h same in \<open>auto simp: executeInsert_def fail_def\<close>)
qed

theorem inserts_keep_keys_unique_witness:
  "keys_unique demo_flt key_heap (snd (executeInsert demo_env (demo_insert ''8'') demo_exec))"
proof -
  have i: "insertable demo_env (demo_insert ''8'') key_heap demo_exec [VInt32 8, VString ''al''] (-1)" by (rule demo_insertable)
  have "case executeInsert demo_env (demo_insert ''8'') demo_exec of (_, e') \<Rightarrow> settled e' \<and> keys_unique (env_fl demo_env) key_heap e'"
    by (rule inserts_keep_keys_unique) (use i demo_settled demo_room demo_unique in \<open>auto simp: insertable_def\<close>)
  then show ?thesis by (simp add: split_beta)
qed

section \<open>DELETE and DROP\<close>

text \<open>C3: DELETE removes exactly the rows its condition selects, and every row of the table if it has no
  condition, reports their number, and leaves the rows of every table with another table ID as they were.
  (The table ID is a hash of the table's name: a table whose name hashes alike shares these rows and
  loses them too.)\<close>

theorem delete_removes_the_matching_rows:
  fixes s h en
  defines "gone \<equiv> \<lambda>r. case del_Condition s of None \<Rightarrow> True | Some c \<Rightarrow> evaluateCondition (env_fl en) r (hf_Schema h) c"
  assumes "settled e" "ex_Tables e (del_Table s) = Some h"
  shows "\<exists>e' n. executeDelete en s e = (Ok (message_result ''DELETE'' (word_of_nat n) (msg_deleted n)), e') \<and> settled e'
    \<and> n = length (filter gone (table_rows h e))
    \<and> table_rows h e' = filter (\<lambda>r. \<not> gone r) (table_rows h e)
    \<and> (\<forall>t. t \<noteq> tid_of h \<longrightarrow> heap_rows t (ex_store e') = heap_rows t (ex_store e))"
proof -
  have m: "matching_rows en (hf_Schema h) (del_Condition s) (table_rows h e) = filter gone (table_rows h e)"
    by (simp add: matching_rows_def filterRows_def gone_def split: option.split)
  let ?gone = "filter gone (table_rows h e)"
  obtain e' where d: "executeDelete en s e = (Ok (message_result ''DELETE'' (word_of_nat (length ?gone)) (msg_deleted (length ?gone))), e')"
      "rows_removed (tid_of h) (row_RID ` set ?gone) e e'"
    using executeDelete_spec [OF assms(2,3), of en] unfolding m by blast
  have "row_RID r \<in> row_RID ` set ?gone \<longleftrightarrow> gone r" if "r \<in> set (table_rows h e)" for r
    using distinct_table_rows [of h e] that by (auto simp: distinct_map inj_on_def)
  then have "table_rows h e' = filter (\<lambda>r. \<not> gone r) (table_rows h e)"
    using rows_removed_table_rows [OF d(2)] by (simp cong: filter_cong)
  then show ?thesis using d rows_removed_settled [OF assms(2) d(2)] by (auto simp: rows_removed_def)
qed

definition demo_delete :: DeleteStatement where
  "demo_delete = \<lparr>del_Table = ''users'', del_Condition = Some \<lparr>bo_Left = Identifier ''ID'', bo_Operator = ''='', bo_Right = Literal ''7''\<rparr>\<rparr>"

theorem delete_removes_the_matching_rows_witness:
  "\<exists>e'. executeDelete demo_env demo_delete demo_exec = (Ok (message_result ''DELETE'' 1 (msg_deleted 1)), e')
    \<and> table_rows key_heap e' = []"
proof -
  have "find_col 0 (sch_Columns key_schema) ''ID'' = Some 0" by code_simp
  then have "evaluateCondition demo_flt r key_schema \<lparr>bo_Left = Identifier ''ID'', bo_Operator = ''='', bo_Right = Literal ''7''\<rparr>"
      if "row_Values r = [VInt32 7, VString ''bob'']" for r
    using that by (simp add: evaluateCondition_def findColumnIndex_def Let_def demo_prints)
  then show ?thesis
    using delete_removes_the_matching_rows [OF demo_settled, of demo_delete key_heap demo_env] demo_rows
    by (auto simp: demo_delete_def)
qed

text \<open>C5: DROP TABLE forgets the table and empties its pages: no page holds a row of its table ID afterwards, whatever
  its bytes, so a table created later under the same name, with any columns, starts empty; tables with another
  table ID keep their rows.\<close>

theorem drop_empties_the_table:
  assumes st: "settled e" and h: "ex_Tables e (dr_Table s) = Some h"
    and c: "cat_writable (ex_Catalog e)" "Catalog_GetTable (dr_Table s) (ex_Catalog e) \<noteq> None"
  shows "\<exists>e'. executeDrop en s e = (Ok (message_result ''DROP'' 0 (msg_dropped (dr_Table s))), e') \<and> settled e'
    \<and> ex_Tables e' = (ex_Tables e)(dr_Table s := None) \<and> Catalog_GetTable (dr_Table s) (ex_Catalog e') = None
    \<and> heap_rows (tid_of h) (ex_store e') = []
    \<and> (\<forall>t. t \<noteq> tid_of h \<longrightarrow> heap_rows t (ex_store e') = heap_rows t (ex_store e))
    \<and> (\<forall>ct r e2 h2. ct_Table ct = dr_Table s \<and> executeCreate en ct e' = (r, e2) \<and> ex_Tables e2 (dr_Table s) = Some h2
         \<longrightarrow> table_rows h2 e2 = [])"
proof -
  have hs: "heap_store (ex_store e)" using st by (simp add: settled_def)
  obtain st1 where s1: "clearPagesByTableID (tid_of h) (ex_store e) = (Ok (), st1)" "table_cleared (tid_of h) (ex_store e) st1"
    using clearPages_spec [OF hs] by blast
  obtain cat where cat: "Catalog_RemoveTable (env_js en) (dr_Table s) (ex_Catalog e) = (Ok (), cat)"
      "Catalog_GetTable (dr_Table s) cat = None"
    using RemoveTable_lookup [OF c, of "env_js en" "dr_Table s"]
    by (cases "Catalog_RemoveTable (env_js en) (dr_Table s) (ex_Catalog e)") auto
  let ?e = "e\<lparr>ex_store := st1, ex_Catalog := cat, ex_Tables := (ex_Tables e)(dr_Table s := None),
    ex_Indexes := (\<lambda>n. if HasPrefix n (dr_Table s @ ''.'') then None else ex_Indexes e n)\<rparr>"
  let ?e' = "flush_quietly ?e"
  have drop: "executeDrop en s e = (Ok (message_result ''DROP'' 0 (msg_dropped (dr_Table s))), ?e')"
    using h s1(1) cat(1) by (simp add: executeDrop_def or_fail_def on_store_def Let_def cong: if_cong)
  have st': "settled ?e" using st s1(2) by (auto simp: settled_def table_cleared_def)
  note f = same_tables_fields [OF flush_same_tables [OF st']] same_tables_settled [OF st' flush_same_tables [OF st']]
  have none: "heap_rows (tid_of h) (ex_store ?e') = []"
    using f(7) [of "tid_of h"] s1(2) by (simp add: table_cleared_def)
  have name: "sch_Name (hf_Schema h) = dr_Table s" using st h by (simp add: settled_def)
  have fresh: "table_rows h2 e2 = []"
    if "ct_Table ct = dr_Table s" "executeCreate en ct ?e' = (r, e2)" "ex_Tables e2 (dr_Table s) = Some h2" for ct r e2 h2
  proof -
    have "ex_store e2 = ex_store ?e' \<and> HeapFile_TableID h2 = tid_of h"
      using that f(1) name by (auto simp: executeCreate_def or_fail_def fail_def Let_def HeapFile_TableID_def NewHeapFile_def
          split: outcome.splits prod.splits)
    then show ?thesis using none by (simp add: table_rows_def decode_rows_def)
  qed
  show ?thesis using drop f cat(2) s1(2) none fresh by (auto simp: table_cleared_def)
qed

theorem drop_empties_the_table_witness:
  "\<exists>e'. executeDrop demo_env \<lparr>dr_Table = ''users'', dr_IfExists = False\<rparr> demo_exec
      = (Ok (message_result ''DROP'' 0 (msg_dropped ''users'')), e') \<and> heap_rows (HeapFile_TableID demo_heap) (ex_store e') = []"
  using drop_empties_the_table [OF demo_settled, of "\<lparr>dr_Table = ''users'', dr_IfExists = False\<rparr>" key_heap demo_env]
  by (auto simp: Catalog_GetTable_def key_tid)

section \<open>CREATE TABLE and the catalog\<close>

text \<open>C18: CREATE TABLE survives a restart: if the catalog file can be written and JSON gives back what it
  encodes, an executor started on the file written by the statement has the new table, and all
  tables that were in the catalog before.\<close>

theorem created_table_survives_restart:
  assumes cols: "build_columns (ct_Columns s) = Ok cols" and w: "cat_writable (ex_Catalog e)"
    and new: "Catalog_GetTable (ct_Table s) (ex_Catalog e) = None"
    and js: "let m = AList.update (ct_Table s) \<lparr>sch_Name = ct_Table s, sch_Columns = cols\<rparr> (cat_Schemas (ex_Catalog e))
      in js_dec (env_js en) (js_enc (env_js en) m) = Some m"
  shows "\<exists>e'. executeCreate en s e = (Ok (message_result ''CREATE'' 1 (msg_created (ct_Table s) (length cols))), e')
    \<and> ex_Tables (NewExecutor en st (cat_file (ex_Catalog e')) w' idx) (ct_Table s)
        = Some (NewHeapFile \<lparr>sch_Name = ct_Table s, sch_Columns = cols\<rparr>)
    \<and> (\<forall>n schema. Catalog_GetTable n (ex_Catalog e) = Some schema \<longrightarrow>
        ex_Tables (NewExecutor en st (cat_file (ex_Catalog e')) w' idx) n = Some (NewHeapFile schema))"
proof -
  let ?schema = "\<lparr>sch_Name = ct_Table s, sch_Columns = cols\<rparr>"
  obtain cat where cat: "Catalog_AddTable (env_js en) ?schema (ex_Catalog e) = (Ok (), cat)"
      "\<And>n. Catalog_GetTable n cat = (if n = ct_Table s then Some ?schema else Catalog_GetTable n (ex_Catalog e))"
      "cat_file cat = Some (js_enc (env_js en) (cat_Schemas cat))"
      "cat_Schemas cat = AList.update (ct_Table s) ?schema (cat_Schemas (ex_Catalog e))"
    using w new by (auto simp: Catalog_AddTable_def Catalog_Save_def Catalog_GetTable_def update_conv')
  have "map_of (cat_Schemas (NewCatalog (env_js en) (cat_file cat) w')) n = Catalog_GetTable n cat" for n
    using cat(3,4) js by (simp add: NewCatalog_def Catalog_GetTable_def Let_def)
  then show ?thesis using cols cat(1,2) new
    by (auto simp: executeCreate_def Let_def or_fail_def NewExecutor_def)
qed

definition demo_create :: CreateTableStatement where
  "demo_create = \<lparr>ct_Table = ''users'', ct_Columns =
     [\<lparr>cs_Name = ''id'', cs_Type = ''INT'', cs_NotNull = False, cs_PrimaryKey = True, cs_AutoIncrement = False,
       cs_Unique = False, cs_Default = [], cs_Check = [], cs_References = []\<rparr>,
      \<lparr>cs_Name = ''name'', cs_Type = ''text'', cs_NotNull = False, cs_PrimaryKey = False, cs_AutoIncrement = False,
       cs_Unique = False, cs_Default = [], cs_Check = [], cs_References = []\<rparr>], ct_IfNotExists = False\<rparr>"

theorem created_table_survives_restart_witness:
  "\<exists>e'. executeCreate demo_env demo_create (demo_exec\<lparr>ex_Catalog := \<lparr>cat_file = None, cat_writable = True, cat_Schemas = []\<rparr>\<rparr>)
      = (Ok (message_result ''CREATE'' 1 (msg_created ''users'' 2)), e')
    \<and> ex_Tables (NewExecutor demo_env demo_store (cat_file (ex_Catalog e')) True (\<lambda>_. [])) ''users'' = Some key_heap"
proof -
  have c: "build_columns (ct_Columns demo_create) = Ok [key_column, demo_column ''name'' TypeText]" by code_simp
  have k: "\<lparr>sch_Name = ''users'', sch_Columns = [key_column, demo_column ''name'' TypeText]\<rparr> = key_schema"
    by (simp add: key_schema_def)
  let ?e = "demo_exec\<lparr>ex_Catalog := \<lparr>cat_file = None, cat_writable = True, cat_Schemas = []\<rparr>\<rparr>"
  from created_table_survives_restart [OF c, of ?e demo_env demo_store True "\<lambda>_. []"] show ?thesis
    by (auto simp: k demo_create_def demo_env_def Catalog_GetTable_def numeral_2_eq_2)
qed

section \<open>Transactions\<close>

text \<open>The public operations on an executor, in any order. A call that hangs or panics has no next state here.\<close>

inductive tx_step :: "env \<Rightarrow> Executor \<Rightarrow> Executor \<Rightarrow> bool" for en where
  begin_tx: "BeginTransaction e = (r, e') \<Longrightarrow> tx_step en e e'"
| commit: "Commit en e = (r, e') \<Longrightarrow> tx_step en e e'"
| rollback: "Rollback e = (r, e') \<Longrightarrow> tx_step en e e'"
| buffer: "ExecuteInTx q e = (r, e') \<Longrightarrow> tx_step en e e'"
| run_and_buffer: "ExecuteInTxWithResult en q e = (r, e') \<Longrightarrow> tx_step en e e'"
| run: "Execute en q e = (r, e') \<Longrightarrow> tx_step en e e'"

inductive_cases tx_stepE: "tx_step en e e'"

definition tx_ok :: "Executor \<Rightarrow> bool" where
  "tx_ok e \<longleftrightarrow> (\<not> ex_inTransaction e \<longrightarrow> ex_txQueries e = [])"

lemma tx_ok_state: "tx_state e' = tx_state e \<Longrightarrow> tx_ok e' = tx_ok e"
  by (simp add: tx_ok_def tx_state_def)

lemma tx_on_store_eq: "on_store f e = (r, e') \<Longrightarrow> tx_state e' = tx_state e"
  using tx_on_store [of f e] by simp

lemma Execute_tx_eq: "Execute en q e = (r, e') \<Longrightarrow> tx_state e' = tx_state e"
  using Execute_tx [of en q e] by simp

text \<open>Committing leaves the buffered statements and the flag alone until all have been run.\<close>

lemma commit_queries_tx:
  "commit_queries en i qs e = (r, e') \<Longrightarrow> ex_inTransaction e' = ex_inTransaction e \<and> ex_txQueries e' = ex_txQueries e"
proof (induction qs arbitrary: i e)
  case (Cons q qs)
  from Execute_result [of en q e] show ?case
  proof
    assume "\<exists>r e'. Execute en q e = (Ok r, e')"
    then obtain x e1 where x: "Execute en q e = (Ok x, e1)" by blast
    then have "ex_inTransaction e1 = ex_inTransaction e" "ex_txQueries e1 = ex_txQueries e"
      using Execute_tx_eq [OF x] by (simp_all add: tx_state_def)
    then show ?thesis using Cons x by auto
  next
    assume "\<exists>e'. Execute en q e = (Hang, e')"
    then obtain e1 where x: "Execute en q e = (Hang, e1)" by blast
    then show ?thesis using Execute_tx_eq [OF x] Cons.prems by (auto simp: tx_state_def)
  qed
qed simp

lemma Commit_ok:
  assumes "tx_ok e"
  shows "tx_ok (snd (Commit en e))"
proof (cases "ex_inTransaction e")
  case True
  obtain r e1 where c: "commit_queries en 0 (ex_txQueries e) e = (r, e1)" by fastforce
  then have "ex_inTransaction e1" using commit_queries_tx True by blast
  then have in_tx: "ex_inTransaction (snd (on_store BufferPool_FlushAll e1))"
    using tx_on_store [of BufferPool_FlushAll e1] by (simp add: tx_state_def)
  then show ?thesis using True c \<open>ex_inTransaction e1\<close>
    by (cases r; cases "on_store BufferPool_FlushAll e1"; cases "fst (on_store BufferPool_FlushAll e1)")
       (auto simp: Commit_def tx_ok_def)
qed (use assms in \<open>simp add: Commit_def\<close>)

lemma tx_step_ok: "tx_step en e e' \<Longrightarrow> tx_ok e \<Longrightarrow> tx_ok e'"
proof (erule tx_stepE)
  fix r assume "Commit en e = (r, e')" "tx_ok e"
  then show "tx_ok e'" using Commit_ok [of e en] by simp
next
  fix r q assume x: "Execute en q e = (r, e')" "tx_ok e"
  then show "tx_ok e'" using tx_ok_state [OF Execute_tx_eq [OF x(1)]] by simp
next
  fix r q assume x: "ExecuteInTxWithResult en q e = (r, e')" "tx_ok e"
  obtain r1 e1 where y: "Execute en q e = (r1, e1)" by fastforce
  then show "tx_ok e'" using x Execute_tx_eq [OF y]
    by (cases r1) (auto simp: ExecuteInTxWithResult_def tx_ok_def tx_state_def split: if_splits)
qed (auto simp: BeginTransaction_def Rollback_def ExecuteInTx_def tx_ok_def split: if_splits)

text \<open>C16: Outside a transaction no statement is buffered: this holds when the executor is created and after
  every sequence of its operations, failed ones included, so a later Commit never runs a
  statement buffered for an earlier transaction.\<close>

theorem no_buffered_statement_outside_a_transaction:
  assumes "(tx_step en)\<^sup>*\<^sup>* (NewExecutor en st catalog w idx) e" "\<not> ex_inTransaction e"
  shows "ex_txQueries e = []"
proof -
  have "tx_ok (NewExecutor en st catalog w idx)" by (simp add: NewExecutor_def tx_ok_def Let_def)
  with assms(1) have "tx_ok e" by (induction rule: rtranclp_induct) (auto dest: tx_step_ok)
  then show ?thesis using assms(2) by (simp add: tx_ok_def)
qed

theorem no_buffered_statement_outside_a_transaction_witness:
  "\<exists>e. (tx_step demo_env)\<^sup>*\<^sup>* (NewExecutor demo_env demo_store None True (\<lambda>_. [])) e \<and> ex_txQueries e = []"
proof -
  let ?e0 = "NewExecutor demo_env demo_store None True (\<lambda>_. [])"
  let ?e1 = "snd (BeginTransaction ?e0)"
  let ?e2 = "snd (ExecuteInTx ''SELECT * FROM users'' ?e1)"
  let ?e3 = "snd (Rollback ?e2)"
  have "tx_step demo_env ?e0 ?e1" "tx_step demo_env ?e1 ?e2" "tx_step demo_env ?e2 ?e3"
    by (rule begin_tx, rule prod.collapse [symmetric], rule buffer, rule prod.collapse [symmetric],
        rule rollback, rule prod.collapse [symmetric])
  then have "(tx_step demo_env)\<^sup>*\<^sup>* ?e0 ?e3"
    by (blast intro: rtranclp.rtrancl_into_rtrancl)
  moreover have "\<not> ex_inTransaction ?e3"
    by (simp add: NewExecutor_def Let_def BeginTransaction_def ExecuteInTx_def Rollback_def)
  ultimately show ?thesis using no_buffered_statement_outside_a_transaction by blast
qed

text \<open>Rollback drops the buffered statements but undoes nothing: a statement run with its result inside
  the transaction has changed tables, catalog and indexes for good.\<close>

theorem rollback_undoes_nothing:
  assumes "ex_inTransaction e" "Execute en q e = (Ok r, e1)"
  shows "\<exists>e2 e3. ExecuteInTxWithResult en q e = (Ok r, e2) \<and> Rollback e2 = (Ok (), e3)
    \<and> ex_store e3 = ex_store e1 \<and> ex_Tables e3 = ex_Tables e1 \<and> ex_Catalog e3 = ex_Catalog e1
    \<and> ex_Indexes e3 = ex_Indexes e1 \<and> ex_txQueries e3 = [] \<and> \<not> ex_inTransaction e3"
  using assms Execute_tx_eq [OF assms(2)] by (simp add: ExecuteInTxWithResult_def Rollback_def tx_state_def)


lemma demo_tx: "ex_txQueries demo_exec = []" "ex_txResults demo_exec = []"
  by (simp_all add: demo_exec_def)

lemma demo_tx_settled: "settled (demo_exec\<lparr>ex_inTransaction := True\<rparr>)"
  using demo_settled by (simp add: settled_def)

theorem rollback_undoes_nothing_witness:
  "\<exists>e2 e3. ExecuteInTxWithResult demo_env ''DROP TABLE IF EXISTS t'' (demo_exec\<lparr>ex_inTransaction := True\<rparr>)
      = (Ok (message_result ''DROP'' 0 (msg_drop_skipped ''t'')), e2)
    \<and> Rollback e2 = (Ok (), e3) \<and> ex_Tables e3 = [''users'' \<mapsto> key_heap]"
proof -
  have p: "Parse ''DROP TABLE IF EXISTS t'' = Ok (DropTableStmt \<lparr>dr_Table = ''t'', dr_IfExists = True\<rparr>)" by code_simp
  have "Execute demo_env ''DROP TABLE IF EXISTS t'' (demo_exec\<lparr>ex_inTransaction := True\<rparr>)
      = (Ok (message_result ''DROP'' 0 (msg_drop_skipped ''t'')), demo_exec\<lparr>ex_inTransaction := True\<rparr>)"
    by (simp add: Execute_def p execute_parsed_def run_statement_def executeDrop_def is_select_def)
  then show ?thesis using rollback_undoes_nothing [of "demo_exec\<lparr>ex_inTransaction := True\<rparr>"] by fastforce
qed


text \<open>The keys of a table reject the row that was just inserted.\<close>

lemma duplicate_exists:
  assumes "idx < length cs" "col_PrimaryKey (cs ! idx) \<or> col_Unique (cs ! idx)" "\<exists>row \<in> set rows. clashes fl (k + idx) vals row"
  shows "\<exists>c. duplicate fl rows k cs vals = Some c"
  using assms
proof (induction cs arbitrary: k idx)
  case (Cons c cs)
  then show ?case by (cases idx) (auto simp: Cons.IH [of "idx - 1" "Suc k"])
qed simp

lemma auto_increment_none:
  "\<forall>c \<in> set cs. \<not> col_AutoIncrement c \<Longrightarrow> auto_increment en i cs acc e = (acc, e)"
  by (induction en i cs acc e rule: auto_increment.induct) simp_all

lemma insert_values_again:
  "\<forall>c \<in> set (sch_Columns schema). \<not> col_AutoIncrement c \<Longrightarrow>
    insert_row_values en s schema e' = (fst (insert_row_values en s schema e), e')"
  by (simp add: insert_row_values_def Let_def auto_increment_none)

text \<open>C21: A statement run with its result inside a transaction is run again by Commit: in a table without
  AUTOINCREMENT columns, an INSERT with a non-NULL value in a PRIMARY KEY column, as the first statement of
  the transaction, stores its row once; Commit then runs it a second time, it fails on its own row, Commit
  reports success all the same, and the error is only kept in the list of results. (A table with AUTOINCREMENT
  columns is excluded: there every run draws new values. The row is one that can be stored, on a settled
  executor, as in the first property.)\<close>

theorem commit_runs_statements_again:
  assumes q: "Parse q = Ok (InsertStmt s)" and st: "settled e" and h: "ex_Tables e (ins_Table s) = Some h"
    and v: "insertable en s h e vals i" "\<forall>c \<in> set (sch_Columns (hf_Schema h)). \<not> col_AutoIncrement c"
    and new: "duplicate (env_fl en) (table_rows h e) 0 (sch_Columns (hf_Schema h)) vals = None" and room: "room e"
    and key: "idx < length (sch_Columns (hf_Schema h))" "col_PrimaryKey (sch_Columns (hf_Schema h) ! idx)" "vals ! idx \<noteq> VNil"
    and tx: "ex_inTransaction e" "ex_txQueries e = []" "ex_txResults e = []"
  shows "\<exists>rid c e1 e2. ExecuteInTxWithResult en q e = (Ok (inserted_result rid i), e1)
    \<and> Commit en e1 = (Ok (), e2) \<and> ex_txResults e2 = [inserted_result rid i, error_result (DuplicateValue c)]
    \<and> (\<exists>A B. table_rows h e = A @ B \<and> table_rows h e2 = A @ \<lparr>row_RID = rid, row_Values = vals\<rparr> # B)"
proof -
  obtain rid A B e1 where i: "executeInsert en s e = (Ok (inserted_result rid i), e1)" "settled e1"
      "ex_Tables e1 = ex_Tables e" "table_rows h e = A @ B" "table_rows h e1 = A @ \<lparr>row_RID = rid, row_Values = vals\<rparr> # B"
    using executeInsert_stores [OF st h v(1) new room] by blast
  then obtain e1' where x1: "Execute en q e = (Ok (inserted_result rid i), e1')" "same_tables e1 e1'"
    using Execute_statement [OF q, of en e _ e1] by (auto simp: run_statement_def)
  let ?e2 = "e1'\<lparr>ex_txQueries := [q], ex_txResults := [inserted_result rid i]\<rparr>"
  have tx1: "ex_inTransaction e1'" "ex_txQueries e1' = []" "ex_txResults e1' = []"
    using Execute_tx_eq [OF x1(1)] tx by (simp_all add: tx_state_def)
  have run: "ExecuteInTxWithResult en q e = (Ok (inserted_result rid i), ?e2)"
    using tx x1(1) tx1 by (simp add: ExecuteInTxWithResult_def)
  have st2: "settled ?e2" using same_tables_settled [OF i(2) x1(2)] by (simp add: settled_def)
  have rows2: "table_rows h ?e2 = A @ \<lparr>row_RID = rid, row_Values = vals\<rparr> # B"
    using same_tables_fields(5) [OF x1(2)] i(5) by (simp add: table_rows_def)
  have h2: "ex_Tables ?e2 (ins_Table s) = Some h" using same_tables_fields(1) [OF x1(2)] i(3) h by simp
  have vals2: "insert_row_values en s (hf_Schema h) ?e2 = (Ok (vals, i), ?e2)"
    using insert_values_again [OF v(2), of en s ?e2 e] v(1) by (simp add: insertable_def)
  obtain c where c: "duplicate (env_fl en) (table_rows h ?e2) 0 (sch_Columns (hf_Schema h)) vals = Some c"
    using duplicate_exists [OF key(1), of "table_rows h ?e2" "env_fl en" 0 vals] key(2,3) rows2
    by (auto simp: clashes_def)
  obtain e3 where d: "executeInsert en s ?e2 = (Ok (error_result (DuplicateValue c)), e3)" "settled e3"
      "\<forall>t. heap_rows t (ex_store e3) = heap_rows t (ex_store ?e2)"
    using executeInsert_duplicate [OF st2 h2 vals2 c] by blast
  obtain e4 where x2: "Execute en q ?e2 = (Ok (error_result (DuplicateValue c)), e4)" "same_tables e3 e4"
    using Execute_statement [OF q, of en ?e2 _ e3] d by (auto simp: run_statement_def)
  have tx4: "ex_inTransaction e4" "ex_txResults e4 = [inserted_result rid i]"
    using Execute_tx_eq [OF x2(1)] tx1 by (simp_all add: tx_state_def)
  note s4 = same_tables_settled [OF d(2) x2(2)]
  let ?e5 = "e4\<lparr>ex_txResults := [inserted_result rid i, error_result (DuplicateValue c)]\<rparr>"
  obtain st5 where f: "BufferPool_FlushAll (ex_store e4) = (Ok (), st5)" "kept (ex_store e4) st5"
    using FlushAll_kept [of "ex_store e4"] s4 by (metis prod.collapse settled_def)
  let ?e6 = "e4\<lparr>ex_store := st5, ex_txResults := [inserted_result rid i, error_result (DuplicateValue c)],
    ex_inTransaction := False, ex_txQueries := []\<rparr>"
  have "Commit en ?e2 = (Ok (), ?e6)"
    using tx1 x2(1) tx4 f(1) by (simp add: Commit_def on_store_def)
  moreover have "table_rows h ?e6 = table_rows h ?e2"
    using kept_rows [OF _ f(2)] s4 d(3) same_tables_fields(7) [OF x2(2)] by (simp add: table_rows_def settled_def)
  ultimately show ?thesis using run rows2 i(4) by fastforce
qed

theorem commit_runs_statements_again_witness:
  "\<exists>rid c e1 e2. ExecuteInTxWithResult demo_env (''INSERT INTO users VALUES (8, '' @ [CHR 0x27] @ ''al'' @ [CHR 0x27] @ '')'')
      (demo_exec\<lparr>ex_inTransaction := True\<rparr>) = (Ok (inserted_result rid (-1)), e1)
    \<and> Commit demo_env e1 = (Ok (), e2) \<and> length (table_rows key_heap e2) = 2
    \<and> ex_txResults e2 = [inserted_result rid (-1), error_result (DuplicateValue c)]"
proof -
  let ?e = "demo_exec\<lparr>ex_inTransaction := True\<rparr>"
  have rows: "table_rows key_heap ?e = table_rows key_heap demo_exec" by (simp add: table_rows_def)
  have v: "insertable demo_env (demo_insert ''8'') key_heap ?e [VInt32 8, VString ''al''] (-1)"
    using demo_insertable insert_values_again [of key_schema demo_env "demo_insert ''8''" ?e demo_exec]
    by (simp add: insertable_def)
  have "room ?e" using demo_room by (simp add: room_def)
  from commit_runs_statements_again [OF demo_parsed(1) demo_tx_settled _ v _ _ this, of 0]
  obtain rid c e1 e2 A B where x: "ExecuteInTxWithResult demo_env (''INSERT INTO users VALUES (8, '' @ [CHR 0x27] @ ''al'' @ [CHR 0x27] @ '')'') ?e
      = (Ok (inserted_result rid (-1)), e1)"
    "Commit demo_env e1 = (Ok (), e2)" "ex_txResults e2 = [inserted_result rid (-1), error_result (DuplicateValue c)]"
    "table_rows key_heap demo_exec = A @ B"
    "table_rows key_heap e2 = A @ \<lparr>row_RID = rid, row_Values = [VInt32 8, VString ''al'']\<rparr> # B"
    using demo_duplicate(1) demo_tx unfolding rows by auto
  have "length A + length B = 1" using arg_cong [OF x(4), of length] by (simp add: demo_rows)
  then have "length (table_rows key_heap e2) = 2" using x(5) by simp
  then show ?thesis using x(1-3) by blast
qed

text \<open>A value that is a single quote character makes INSERT panic on a slice expression; the panic is
  recovered, answered as an internal error, and nothing has changed.\<close>

theorem quote_value_is_an_internal_error:
  assumes "Parse q = Ok (InsertStmt s)" "ex_Tables e (ins_Table s) = Some h"
    and "ins_Columns s = []" "length (ins_Values s) = length (sch_Columns (hf_Schema h))"
    and "ins_Values s = Literal [c] # xs" "c = CHR 0x27 \<or> c = CHR 0x22"
  shows "Execute en q e = (Ok (error_result InternalError), e)"
proof -
  obtain cl cs where "sch_Columns (hf_Schema h) = cl # cs"
    using assms(4,5) by (cases "sch_Columns (hf_Schema h)") auto
  moreover have "strip_quotes [c] = Panic"
    using assms(6) by (auto; code_simp)
  ultimately have "insert_row_values en s (hf_Schema h) e = (Panic, e)"
    using assms(3-5) by (simp add: insert_row_values_def Let_def literal_value_def)
  then show ?thesis using assms(1,2)
    by (simp add: Execute_def execute_parsed_def run_statement_def executeInsert_def)
qed

theorem quote_value_is_an_internal_error_witness:
  "Execute demo_env (''INSERT INTO users VALUES ('' @ [CHR 0x22, CHR 0x27, CHR 0x22] @ '', 1)'') demo_exec
   = (Ok (error_result InternalError), demo_exec)"
proof -
  have p: "Parse (''INSERT INTO users VALUES ('' @ [CHR 0x22, CHR 0x27, CHR 0x22] @ '', 1)'')
      = Ok (InsertStmt \<lparr>ins_Table = ''users'', ins_Columns = [], ins_Values = [Literal [CHR 0x27], Literal ''1'']\<rparr>)"
    by code_simp
  show ?thesis by (rule quote_value_is_an_internal_error [OF p, where h = key_heap and c = "CHR 0x27"]) simp_all
qed

end
