(* ===== verification/Unenforced.thy ===== *)
theory Unenforced imports ExecRows begin

text \<open>
  The constraints a table declares and INSERT does not enforce: the statement does the same
  to the table without them. (\<^verbatim>\<open>constraints.go\<close> implements the checks, in theory \<open>Constraints\<close>,
  but nothing calls it.)
\<close>

section \<open>Declared constraints\<close>

text \<open>The same table without its NOT NULL, DEFAULT, CHECK and REFERENCES declarations.\<close>

definition bare_column :: "ColumnDef \<Rightarrow> ColumnDef" where
  "bare_column c = c\<lparr>col_Nullable := True, col_Default := [], col_Check := [], col_References := []\<rparr>"

definition bare_schema :: "TableSchema \<Rightarrow> TableSchema" where
  "bare_schema s = s\<lparr>sch_Columns := map bare_column (sch_Columns s)\<rparr>"

definition bare_heap :: "HeapFile \<Rightarrow> HeapFile" where
  "bare_heap h = h\<lparr>hf_Schema := bare_schema (hf_Schema h)\<rparr>"

definition bare_tables :: "Executor \<Rightarrow> Executor" where
  "bare_tables e = e\<lparr>ex_Tables := (\<lambda>n. map_option bare_heap (ex_Tables e n))\<rparr>"

lemma bare_simps [simp]:
  "col_ColType (bare_column c) = col_ColType c" "col_Name (bare_column c) = col_Name c"
  "col_PrimaryKey (bare_column c) = col_PrimaryKey c" "col_Unique (bare_column c) = col_Unique c"
  "col_AutoIncrement (bare_column c) = col_AutoIncrement c"
  "sch_Columns (bare_schema s) = map bare_column (sch_Columns s)"
  "hf_Schema (bare_heap h) = bare_schema (hf_Schema h)" "hf_locked (bare_heap h) = hf_locked h"
  "HeapFile_TableID (bare_heap h) = HeapFile_TableID h"
  "ex_Tables (bare_tables e) n = map_option bare_heap (ex_Tables e n)" "ex_store (bare_tables e) = ex_store e"
  by (simp_all add: bare_column_def bare_schema_def bare_heap_def bare_tables_def HeapFile_TableID_def)

lemma bare_ser_col [simp]: "ser_col fl i (bare_column c) v st = ser_col fl i c v st"
  by (simp add: ser_col_def colFixedSize_def)

lemma bare_fixed_size [simp]: "colFixedSize (bare_column c) = colFixedSize c"
  by (simp add: colFixedSize_def)

lemma bare_ser_loop: "ser_loop fl i (map bare_column cs) vs st = ser_loop fl i cs vs st"
  by (induction fl i cs vs st rule: ser_loop.induct) simp_all

lemma bare_serialize: "SerializeRow fl row (bare_schema s) = SerializeRow fl row s"
  by (simp add: SerializeRow_def bare_ser_loop Let_def)

lemma bare_des_loop: "des_loop data nb i (map bare_column cs) pos vals offs = des_loop data nb i cs pos vals offs"
  by (induction cs arbitrary: i pos vals offs) (simp_all cong: ColumnType.case_cong if_cong)

lemma bare_des_texts:
  "\<forall>x \<in> set offs. fst x < length cs \<Longrightarrow>
    des_texts data (map bare_column cs) vp offs vals = des_texts data cs vp offs vals"
proof (induction offs arbitrary: vals)
  case (Cons x offs)
  obtain ci off where x: "x = (ci, off)" by fastforce
  have "ci < length cs" using Cons.prems x by simp
  moreover have "des_texts data (map bare_column cs) vp offs = des_texts data cs vp offs"
    using Cons.IH Cons.prems by (simp add: fun_eq_iff)
  ultimately show ?case by (simp add: x Let_def cong: if_cong)
qed simp

lemma bare_deserialize: "DeserializeRow data (bare_schema s) = DeserializeRow data s"
proof -
  let ?cs = "sch_Columns s" and ?n = "(length (sch_Columns s) + 7) div 8"
  let ?loop = "des_loop data (slice 0 ?n data) 0 ?cs ?n (replicate (length ?cs) VNil) []"
  have "case ?loop of Ok (p, vs, os) \<Rightarrow> length vs = length ?cs \<and> (\<forall>x \<in> set os. fst x < length ?cs)
    | Err _ \<Rightarrow> True | _ \<Rightarrow> False"
    using des_loop_ends [where i = 0 and vals = "replicate (length ?cs) VNil" and offs = "[]"
        and data = data and nb = "slice 0 ?n data" and pos = ?n and cs = ?cs] by (simp split: outcome.splits prod.splits)
  then show ?thesis
    by (cases ?loop) (auto simp: DeserializeRow_def Let_def bare_des_loop bare_des_texts)
qed

lemma bare_scan_slots: "scan_slots (bare_schema s) page pid slots = scan_slots s page pid slots"
  by (induction slots) (simp_all add: bare_deserialize cong: outcome.case_cong)

lemma bare_scan_pages: "scan_pages (bare_schema s) tid pid st = scan_pages s tid pid st"
proof (induction s tid pid st rule: scan_pages.induct)
  case (1 s tid pid st)
  show ?case
    by (subst (1 2) scan_pages.simps) (auto simp: 1 bare_scan_slots Let_def split: outcome.split prod.split option.split)
qed

lemma bare_scan: "HeapFile_ScanFull (bare_heap h) = HeapFile_ScanFull h"
  by (simp add: HeapFile_ScanFull_def fun_eq_iff bare_scan_pages)

lemma bare_insert_row: "HeapFile_InsertRow fl row (bare_heap h) = HeapFile_InsertRow fl row h"
  by (rule ext) (simp only: HeapFile_InsertRow_def bare_simps bare_serialize)

lemma bare_find_col: "find_col i (map bare_column cs) n = find_col i cs n"
  by (induction i cs n rule: find_col.induct) simp_all

lemma bare_named_values:
  "named_values fl t (bare_schema sch) cs xs vals = named_values fl t sch cs xs vals"
proof (induction cs arbitrary: xs vals)
  case (Cons c cs)
  have "col_ColType (map bare_column (sch_Columns sch) ! i) = col_ColType (sch_Columns sch ! i)"
    if "findColumnIndex sch c = Some i" for i
    using findColumnIndex_bound [OF that] by simp
  then show ?case using Cons
    by (cases xs) (auto simp: findColumnIndex_def bare_find_col split: option.split)
qed (simp split: list.split)

lemma bare_all_values: "all_values fl (map bare_column cs) xs = all_values fl cs xs"
  by (induction fl cs xs rule: all_values.induct) simp_all

text \<open>Statements only look at the tables when they look up the one they work on.\<close>

lemma bare_auto_increment:
  "auto_increment en i (map bare_column cs) acc (bare_tables e) = apsnd bare_tables (auto_increment en i cs acc e)"
proof (induction cs arbitrary: i acc e)
  case (Cons c cs)
  have "GenerateID en (bare_tables e) = apsnd bare_tables (GenerateID en e)"
    by (simp add: GenerateID_def bare_tables_def)
  then show ?case using Cons by (cases "GenerateID en e") simp
qed simp

lemma bare_insert_values:
  "insert_row_values en s (bare_schema sch) (bare_tables e) = apsnd bare_tables (insert_row_values en s sch e)"
  by (simp add: insert_row_values_def Let_def bare_auto_increment bare_all_values bare_named_values split: prod.split)

lemma bare_on_store: "on_store f (bare_tables e) = apsnd bare_tables (on_store f e)"
  by (simp add: on_store_def bare_tables_def split: prod.split)

lemma bare_check_unique:
  "check_unique fl (bare_heap h) i (map bare_column cs) vals (bare_tables e)
    = apsnd bare_tables (check_unique fl h i cs vals e)"
proof (induction cs arbitrary: i e)
  case (Cons c cs)
  then show ?case by (auto simp: bare_scan bare_on_store split: prod.split outcome.split)
qed simp

text \<open>INSERT enforces none of NOT NULL, DEFAULT, CHECK and REFERENCES: it does exactly the same to a
  table as to the same table declared without them.\<close>

theorem insert_ignores_constraints:
  "executeInsert en s (bare_tables e) = apsnd bare_tables (executeInsert en s e)"
proof (cases "ex_Tables e (ins_Table s)")
  case (Some h)
  then show ?thesis
    by (simp add: executeInsert_def bare_insert_values bare_check_unique bare_on_store bare_insert_row or_fail_def fail_def
        split: prod.split outcome.split option.split)
qed (simp add: executeInsert_def fail_def)

end
