(* ===== verification/Constraints.thy ===== *)
theory Constraints imports Query HeapFile begin

text \<open>
  \<^verbatim>\<open>pkg/executor/constraints.go\<close>: the constraint checks. No statement calls them
  (\<^verbatim>\<open>validateInsert\<close> and \<^verbatim>\<open>validateUpdate\<close> have no caller); they are modelled as the code they are.
\<close>

datatype constraint_err =
    NotNullViolated string
  | BadDefault string storage_err
  | CheckViolated string string
  | KeyViolated bool string string
  | ConstraintScan storage_err

text \<open>
  A check of two words, operator and constant. Numbers are compared if both sides parse; an
  operator the numeric switch does not know falls through to the string switch.
\<close>

definition num_check :: "flt \<Rightarrow> string \<Rightarrow> u64 \<Rightarrow> u64 \<Rightarrow> bool option" where
  "num_check fl op a b =
     (if op = ''>'' then Some (f_less fl b a)
      else if op = ''<'' then Some (f_less fl a b)
      else if op = ''>='' then Some (f_less fl b a \<or> f_eq fl a b)
      else if op = ''<='' then Some (f_less fl a b \<or> f_eq fl a b)
      else if op = ''='' \<or> op = ''=='' then Some (f_eq fl a b)
      else if op = ''!='' \<or> op = ''<>'' then Some (\<not> f_eq fl a b)
      else None)"

definition str_check :: "string \<Rightarrow> string \<Rightarrow> string \<Rightarrow> bool" where
  "str_check op a b =
     (if op = ''='' \<or> op = ''=='' then a = b
      else if op = ''!='' \<or> op = ''<>'' then a \<noteq> b
      else True)"

definition evaluateCheck :: "flt \<Rightarrow> string \<Rightarrow> val \<Rightarrow> bool" where
  "evaluateCheck fl check v =
     (case Fields check of
        [op, checkVal] \<Rightarrow>
          (let valStr = fmt_v fl v in
           case (f_parse fl valStr, f_parse fl checkVal) of
             (Some a, Some b) \<Rightarrow>
               (case num_check fl op a b of Some r \<Rightarrow> r | None \<Rightarrow> str_check op valStr checkVal)
           | _ \<Rightarrow> str_check op valStr checkVal)
      | _ \<Rightarrow> True)"

text \<open>One column: NOT NULL, then DEFAULT (which replaces the value in the row), then CHECK.\<close>

definition check_column :: "flt \<Rightarrow> ColumnDef \<Rightarrow> val \<Rightarrow> (constraint_err, val) outcome" where
  "check_column fl col v =
     (if \<not> col_Nullable col \<and> v = VNil then Err (NotNullViolated (col_Name col))
      else bind_out
        (if v = VNil \<and> col_Default col \<noteq> []
         then map_err (BadDefault (col_Name col)) (ParseValue fl (col_Default col) (col_ColType col)) else Ok v)
        (\<lambda>v'. if col_Check col \<noteq> [] \<and> v' \<noteq> VNil \<and> \<not> evaluateCheck fl (col_Check col) v'
              then Err (CheckViolated (col_Name col) (col_Check col)) else Ok v'))"

fun check_columns :: "flt \<Rightarrow> ColumnDef list \<Rightarrow> val list \<Rightarrow> (constraint_err, val list) outcome" where
  "check_columns fl [] vals = Ok vals"
| "check_columns fl (c # cs) [] = Panic"
| "check_columns fl (c # cs) (v # vs) =
     bind_out (check_column fl c v) (\<lambda>v'. bind_out (check_columns fl cs vs) (\<lambda>vs'. Ok (v' # vs')))"

fun check_keys :: "flt \<Rightarrow> HeapFile \<Rightarrow> nat \<Rightarrow> ColumnDef list \<Rightarrow> val list \<Rightarrow> store
    \<Rightarrow> (constraint_err, unit) outcome \<times> store" where
  "check_keys fl table i [] vals st = (Ok (), st)"
| "check_keys fl table i (c # cs) vals st =
     (if col_PrimaryKey c \<or> col_Unique c then
        (case HeapFile_ScanFull table st of
           (Ok rows, st1) \<Rightarrow>
             (if \<exists>row \<in> set rows. fmt_v fl (row_Values row ! i) = fmt_v fl (vals ! i)
              then (Err (KeyViolated (col_PrimaryKey c) (col_Name c) (fmt_v fl (vals ! i))), st1)
              else check_keys fl table (Suc i) cs vals st1)
         | (Err e, st1) \<Rightarrow> (Err (ConstraintScan e), st1)
         | (Panic, st1) \<Rightarrow> (Panic, st1)
         | (Hang, st1) \<Rightarrow> (Hang, st1))
      else check_keys fl table (Suc i) cs vals st)"

text \<open>The values after DEFAULT substitution, or the violated constraint.\<close>

definition validateConstraints :: "flt \<Rightarrow> HeapFile \<Rightarrow> val list \<Rightarrow> store \<Rightarrow> (constraint_err, val list) outcome \<times> store" where
  "validateConstraints fl table vals st =
     (case check_columns fl (sch_Columns (hf_Schema table)) vals of
        Ok vals' \<Rightarrow>
          (case check_keys fl table 0 (sch_Columns (hf_Schema table)) vals' st of
             (r, st1) \<Rightarrow> (bind_out r (\<lambda>_. Ok vals'), st1))
      | r \<Rightarrow> (r, st))"

definition validateInsert :: "flt \<Rightarrow> HeapFile \<Rightarrow> val list \<Rightarrow> store \<Rightarrow> (constraint_err, val list) outcome \<times> store" where
  "validateInsert fl table vals st = validateConstraints fl table vals st"

definition validateUpdate :: "flt \<Rightarrow> HeapFile \<Rightarrow> val list \<Rightarrow> store \<Rightarrow> (constraint_err, val list) outcome \<times> store" where
  "validateUpdate fl table vals st = validateConstraints fl table vals st"

end
