(* ===== verification/BTreeSpec.thy ===== *)
theory BTreeSpec imports BTree begin

text \<open>
  What the B+ tree stores. The tree is the cache of nodes read from the root down; its content
  is the map \<open>find\<close>, the search read as a function. The shape invariant says that every subtree
  keeps to its interval and that the separators of a node cut it into the intervals of its
  children. Insertion is shown to update the map, except where the key is a separator.
\<close>

type_synonym node_pool = "u64 \<Rightarrow> Node option"

section \<open>The children of a node\<close>

text \<open>\<open>chain Q lo hi ks cs\<close>: the separators \<open>ks\<close> cut \<open>lo..hi\<close> into intervals, one for each child in \<open>cs\<close>.\<close>

fun chain :: "(int \<Rightarrow> int \<Rightarrow> u64 \<Rightarrow> bool) \<Rightarrow> int \<Rightarrow> int \<Rightarrow> i64 list \<Rightarrow> u64 list \<Rightarrow> bool" where
  "chain Q lo hi [] [c] = (lo < hi \<and> Q lo hi c)"
| "chain Q lo hi (s # ks) (c # cs) = (lo < sint s \<and> Q lo (sint s) c \<and> chain Q (sint s) hi ks cs)"
| "chain Q lo hi _ _ = False"

text \<open>The child a key is searched in: separators that equal the key lie to its left.\<close>

fun pick :: "i64 list \<Rightarrow> u64 list \<Rightarrow> i64 \<Rightarrow> u64" where
  "pick (s # ks) (c # cs) x = (if sint x < sint s then c else pick ks cs x)"
| "pick _ cs x = hd cs"

definition low_end :: "int \<Rightarrow> i64 list \<Rightarrow> int" where "low_end lo ks = (if ks = [] then lo else sint (last ks))"
definition high_end :: "int \<Rightarrow> i64 list \<Rightarrow> int" where "high_end hi ks = (if ks = [] then hi else sint (hd ks))"

lemma chain_length: "chain Q lo hi ks cs \<Longrightarrow> length cs = length ks + 1"
  by (induction Q lo hi ks cs rule: chain.induct) auto

lemma chain_bounds: "chain Q lo hi ks cs \<Longrightarrow> lo < hi \<and> (\<forall>s \<in> set ks. lo < sint s \<and> sint s < hi) \<and> increasing ks"
  by (induction Q lo hi ks cs rule: chain.induct) (auto simp: increasing_def)

lemma chain_mono:
  "chain Q lo hi ks cs \<Longrightarrow> (\<And>a b c. c \<in> set cs \<Longrightarrow> Q a b c \<Longrightarrow> Q' a b c) \<Longrightarrow> chain Q' lo hi ks cs"
  by (induction Q lo hi ks cs rule: chain.induct) auto

lemma chain_child: "chain Q lo hi ks cs \<Longrightarrow> c \<in> set cs \<Longrightarrow> \<exists>a b. Q a b c"
  by (induction Q lo hi ks cs rule: chain.induct) auto

text \<open>Cutting a chain below a child.\<close>

fun segs :: "(int \<Rightarrow> int \<Rightarrow> u64 \<Rightarrow> bool) \<Rightarrow> int \<Rightarrow> i64 list \<Rightarrow> u64 list \<Rightarrow> bool" where
  "segs Q lo [] [] = True"
| "segs Q lo (s # ks) (c # cs) = (lo < sint s \<and> Q lo (sint s) c \<and> segs Q (sint s) ks cs)"
| "segs Q lo _ _ = False"

lemma segs_mono: "segs Q lo ks cs \<Longrightarrow> (\<And>a b c. c \<in> set cs \<Longrightarrow> Q a b c \<Longrightarrow> Q' a b c) \<Longrightarrow> segs Q' lo ks cs"
  by (induction Q lo ks cs rule: segs.induct) auto

lemma chain_append:
  "length cs1 = length ks1 \<Longrightarrow>
    chain Q lo hi (ks1 @ ks2) (cs1 @ cs2) \<longleftrightarrow> segs Q lo ks1 cs1 \<and> chain Q (low_end lo ks1) hi ks2 cs2"
proof (induction ks1 arbitrary: lo cs1)
  case (Cons s ks1)
  then show ?case by (cases cs1) (auto simp: low_end_def)
qed (simp add: low_end_def)

lemma chain_head:
  "chain Q lo hi ks (c # cs) \<longleftrightarrow> lo < high_end hi ks \<and> Q lo (high_end hi ks) c
     \<and> (if ks = [] then cs = [] else chain Q (sint (hd ks)) hi (tl ks) cs)"
  by (cases ks; cases cs) (auto simp: high_end_def)

text \<open>Cutting a chain at a separator, as \<^verbatim>\<open>SplitNode\<close> does.\<close>

lemma chain_split:
  "length cl = length l + 1 \<Longrightarrow>
    chain Q lo hi (l @ s # r) (cl @ cr) \<Longrightarrow> chain Q lo (sint s) l cl \<and> chain Q (sint s) hi r cr"
proof (induction l arbitrary: lo cl)
  case Nil
  then show ?case by (cases cl) auto
next
  case (Cons t l)
  then show ?case by (cases cl) auto
qed

lemma pick_below:
  "length cs1 = length ks1 \<Longrightarrow> \<not> (\<forall>s \<in> set ks1. sint s \<le> sint x) \<Longrightarrow>
    pick (ks1 @ ks2) (cs1 @ cs2) x = pick (ks1 @ ks3) (cs1 @ cs3) x \<and> pick (ks1 @ ks2) (cs1 @ cs2) x \<in> set cs1"
proof (induction ks1 arbitrary: cs1)
  case (Cons s ks1)
  then show ?case by (cases cs1) (auto simp: not_le)
qed simp

lemma pick_above:
  "length cs1 = length ks1 \<Longrightarrow> \<forall>s \<in> set ks1. sint s \<le> sint x \<Longrightarrow> pick (ks1 @ ks2) (cs1 @ cs2) x = pick ks2 cs2 x"
proof (induction ks1 arbitrary: cs1)
  case (Cons s ks1)
  then show ?case by (cases cs1) auto
qed simp

lemma pick_in: "length cs = length ks + 1 \<Longrightarrow> pick ks cs x \<in> set cs"
  by (induction ks cs x rule: pick.induct) (auto split: if_splits, case_tac cs, auto)

lemma pick_split:
  assumes "length cl = length l + 1" "increasing (l @ s # r)"
  shows "pick (l @ s # r) (cl @ cr) x = (if sint x < sint s then pick l cl x else pick r cr x)"
proof -
  obtain cs c where cl: "cl = cs @ [c]" "length cs = length l" using assms(1) by (cases cl rule: rev_cases) auto
  have lt: "\<forall>t \<in> set l. sint t < sint s" using assms(2) by (simp add: increasing_def sorted_wrt_append)
  show ?thesis
  proof (cases "\<forall>t \<in> set l. sint t \<le> sint x")
    case True
    then show ?thesis using pick_above [OF cl(2) True] cl by simp (metis append.right_neutral pick.simps(2) list.sel(1))
  next
    case False
    then have "sint x < sint s" using lt by (meson not_le order_less_trans)
    then show ?thesis using pick_below [OF cl(2) False, of "s # r" "[c] @ cr" "[]" "[c]"] cl by simp
  qed
qed

section \<open>The tree in the cache\<close>

definition leaf_node :: "int \<Rightarrow> int \<Rightarrow> u64 \<Rightarrow> Node \<Rightarrow> bool" where
  "leaf_node lo hi p n \<longleftrightarrow> nd_PageID n = p \<and> leaf_ok n \<and> (\<forall>k \<in> set (nd_Keys n). lo \<le> sint k \<and> sint k \<le> hi)
     \<and> (\<forall>v \<in> set (nd_Values n). length v \<le> 10)"

text \<open>The tree of height \<open>h\<close> at page \<open>p\<close>, its pages, its content, and whether a key is one of the separators on its own path.\<close>

primrec shape :: "nat \<Rightarrow> node_pool \<Rightarrow> int \<Rightarrow> int \<Rightarrow> u64 \<Rightarrow> bool" where
  "shape 0 = (\<lambda>P lo hi p. p \<noteq> 0 \<and> (\<exists>n. P p = Some n \<and> leaf_node lo hi p n \<and> length (nd_Keys n) < MaxKeys))"
| "shape (Suc h) = (\<lambda>P lo hi p. p \<noteq> 0 \<and> (\<exists>n. P p = Some n \<and> nd_PageID n = p \<and> nd_Type n = InternalNode
     \<and> length (nd_Keys n) < MaxKeys \<and> chain (shape h P) lo hi (nd_Keys n) (nd_Children n)))"

primrec pages :: "nat \<Rightarrow> node_pool \<Rightarrow> u64 \<Rightarrow> u64 list" where
  "pages 0 = (\<lambda>P p. [p])"
| "pages (Suc h) = (\<lambda>P p. p # concat (map (pages h P) (nd_Children (the (P p)))))"

primrec find :: "nat \<Rightarrow> node_pool \<Rightarrow> u64 \<Rightarrow> i64 \<Rightarrow> byte list option" where
  "find 0 = (\<lambda>P p. leaf_map (the (P p)))"
| "find (Suc h) = (\<lambda>P p x. find h P (pick (nd_Keys (the (P p))) (nd_Children (the (P p))) x) x)"

primrec sep :: "nat \<Rightarrow> node_pool \<Rightarrow> u64 \<Rightarrow> i64 \<Rightarrow> bool" where
  "sep 0 = (\<lambda>P p x. False)"
| "sep (Suc h) = (\<lambda>P p x. x \<in> set (nd_Keys (the (P p))) \<or> sep h P (nd_Children (the (P p)) ! insert_child (the (P p)) x) x)"

lemma pages_head: "p \<in> set (pages h P p)"
  by (cases h) auto

lemma pick_child: "chain Q lo hi ks cs \<Longrightarrow> pick ks cs x \<in> set cs"
  by (rule pick_in) (rule chain_length)

text \<open>The tree depends on its own pages only.\<close>

lemma tree_cong:
  "\<forall>q \<in> set (pages h P p). P' q = P q \<Longrightarrow>
    pages h P' p = pages h P p \<and> (\<forall>lo hi. shape h P lo hi p \<longrightarrow> shape h P' lo hi p \<and> find h P' p = find h P p)"
proof (induction h arbitrary: p)
  case (Suc h)
  have p: "P' p = P p" using Suc.prems by simp
  have c: "pages h P' c = pages h P c \<and> (\<forall>lo hi. shape h P lo hi c \<longrightarrow> shape h P' lo hi c \<and> find h P' c = find h P c)"
    if "c \<in> set (nd_Children (the (P p)))" for c
    using Suc.IH [of c] Suc.prems that by auto
  have pg: "pages (Suc h) P' p = pages (Suc h) P p"
    using c p by (simp cong: map_cong)
  have "shape (Suc h) P' lo hi p \<and> find (Suc h) P' p = find (Suc h) P p" if s: "shape (Suc h) P lo hi p" for lo hi
  proof -
    obtain n where n: "P p = Some n" "p \<noteq> 0" "nd_PageID n = p" "nd_Type n = InternalNode" "length (nd_Keys n) < MaxKeys"
        "chain (shape h P) lo hi (nd_Keys n) (nd_Children n)" using s by auto
    have ch: "chain (shape h P') lo hi (nd_Keys n) (nd_Children n)"
      by (rule chain_mono [OF n(6)]) (use c n(1) in auto)
    have "find h P' (pick (nd_Keys n) (nd_Children n) x) = find h P (pick (nd_Keys n) (nd_Children n) x)" for x
    proof -
      show ?thesis using chain_child [OF n(6)] c pick_child [OF n(6), of x] n(1) by fastforce
    qed
    then show ?thesis using n p ch by (simp add: fun_eq_iff)
  qed
  then show ?case using pg by blast
qed (simp add: leaf_node_def)

lemma pages_cong: "\<forall>q \<in> set (pages h P p). P' q = P q \<Longrightarrow> pages h P' p = pages h P p"
  using tree_cong by blast

lemma shape_cong: "shape h P lo hi p \<Longrightarrow> \<forall>q \<in> set (pages h P p). P' q = P q \<Longrightarrow> shape h P' lo hi p"
  using tree_cong by blast

lemma find_cong: "shape h P lo hi p \<Longrightarrow> \<forall>q \<in> set (pages h P p). P' q = P q \<Longrightarrow> find h P' p = find h P p"
  using tree_cong by blast

section \<open>Search\<close>

lemma takeWhile_pick:
  "increasing ks \<Longrightarrow> length cs = length ks + 1 \<Longrightarrow>
    cs ! (let p = length (takeWhile (\<lambda>k. sint k < sint x) ks)
          in if p < length ks \<and> sint (ks ! p) \<le> sint x then p + 1 else p) = pick ks cs x"
proof (induction ks cs x rule: pick.induct)
  case (1 s ks c cs x)
  have inc: "increasing ks" using "1.prems"(1) by (simp add: increasing_def)
  show ?case
  proof (cases "sint s < sint x")
    case True
    then show ?thesis using "1.IH" [OF _ inc] "1.prems"(2) by (auto simp: Let_def)
  next
    case False
    have "pick ks cs x = hd cs" if "sint s = sint x"
      using "1.prems" that by (cases ks; cases cs) (auto simp: increasing_def)
    then show ?thesis using False "1.prems"(2) by (cases cs) (auto simp: Let_def)
  qed
qed (auto simp: length_Suc_conv)

lemma search_child_pick:
  assumes "increasing (nd_Keys n)" "length (nd_Children n) = length (nd_Keys n) + 1"
  shows "nd_Children n ! search_child n x = pick (nd_Keys n) (nd_Children n) x"
proof -
  have "Node_FindKey n x = length (takeWhile (\<lambda>k. sint k < sint x) (nd_Keys n))" by (rule FindKey_takeWhile [OF assms(1)])
  moreover have "Node_FindKey n x \<le> length (nd_Keys n)" by (rule FindKey_point(1) [OF assms(1)])
  ultimately have "search_child n x = (let p = length (takeWhile (\<lambda>k. sint k < sint x) (nd_Keys n))
      in if p < length (nd_Keys n) \<and> sint (nd_Keys n ! p) \<le> sint x then p + 1 else p)"
    using assms(2) by (auto simp: search_child_def Let_def)
  then show ?thesis using takeWhile_pick [OF assms, of x] by simp
qed

lemma searchRecursive_find:
  "shape h (bt_nodePool bt) lo hi p \<Longrightarrow> h < fuel \<Longrightarrow>
    BTree_searchRecursive fuel p x bt = (Ok (find h (bt_nodePool bt) p x), bt)"
proof (induction h arbitrary: p lo hi fuel)
  case 0
  then obtain n f where n: "bt_nodePool bt p = Some n" "p \<noteq> 0" "leaf_node lo hi p n" "fuel = Suc f"
    by (cases fuel) auto
  have l: "leaf_ok n" using n(3) by (simp add: leaf_node_def)
  then have "length (nd_Values n) = length (nd_Keys n)" by (simp add: leaf_ok_def)
  then show ?case using n l leaf_lookup [OF l, of x]
    by (simp add: BTree_getNode_def Node_IsLeaf_def leaf_ok_def Let_def)
next
  case (Suc h)
  then obtain n f where n: "bt_nodePool bt p = Some n" "p \<noteq> 0" "nd_Type n = InternalNode"
      "chain (shape h (bt_nodePool bt)) lo hi (nd_Keys n) (nd_Children n)" and f: "fuel = Suc f" "h < f"
    by (cases fuel) auto
  have len: "length (nd_Children n) = length (nd_Keys n) + 1" using chain_length [OF n(4)] .
  have sc: "nd_Children n ! search_child n x = pick (nd_Keys n) (nd_Children n) x"
    using search_child_pick len chain_bounds [OF n(4)] by blast
  obtain a b where "shape h (bt_nodePool bt) a b (pick (nd_Keys n) (nd_Children n) x)"
    using chain_child [OF n(4) pick_child [OF n(4)]] by blast
  from Suc.IH [OF this f(2)] show ?case
    using n f len sc by (auto simp: BTree_getNode_def Node_IsLeaf_def Let_def)
qed

section \<open>Saving nodes\<close>

text \<open>A tree whose file takes every page, with room for \<open>d\<close> more pages.\<close>

definition writable :: "nat \<Rightarrow> BTree \<Rightarrow> bool" where
  "writable d bt \<longleftrightarrow> (\<forall>q. \<not> dm_wfail (bt_Disk bt) q) \<and> 1 \<le> unat (dm_pageCount (bt_Disk bt))
     \<and> unat (dm_pageCount (bt_Disk bt)) + d < 2 ^ 51"

abbreviation page_count :: "BTree \<Rightarrow> nat" where "page_count bt \<equiv> unat (dm_pageCount (bt_Disk bt))"

definition saved :: "Node \<Rightarrow> BTree \<Rightarrow> BTree \<Rightarrow> bool" where
  "saved n bt bt' \<longleftrightarrow> bt_nodePool bt' = (bt_nodePool bt)(nd_PageID n \<mapsto> n) \<and> bt_Root bt' = bt_Root bt
     \<and> page_count bt' = page_count bt \<and> (\<forall>d. writable d bt' = writable d bt)"

lemma saveNode_saves:
  assumes fit: "length (node_payload n) \<le> PageSize" and w: "writable d bt" and p: "unat (nd_PageID n) < page_count bt"
  shows "\<exists>bt'. BTree_saveNode n bt = (Ok (), bt') \<and> saved n bt bt'"
proof -
  have "pid_ok (nd_PageID n)" using w p by (simp add: writable_def pid_ok_def)
  then have s: "0 \<le> sint (page_offset (nd_PageID n))" using page_offset_nonneg by (simp add: not_less)
  have "\<not> dm_pageCount (bt_Disk bt) \<le> nd_PageID n" using p by (simp add: word_le_nat_alt)
  then show ?thesis using Serialize_payload [OF fit] w s
    by (auto simp: BTree_saveNode_def Adapter_WritePage_def DiskManager_WritePage_def Let_def saved_def writable_def)
qed

lemma trySave_saves:
  assumes "length (node_payload n) \<le> PageSize" "writable d bt" "unat (nd_PageID n) < page_count bt"
  shows "\<exists>bt'. BTree_trySave n bt = (Ok (), bt') \<and> saved n bt bt'"
  using saveNode_saves [OF assms] by (auto simp: BTree_trySave_def)

lemma leaf_payload:
  assumes "leaf_node lo hi p n" "length (nd_Keys n) < MaxKeys"
  shows "length (node_payload n) \<le> PageSize"
proof -
  have v: "\<forall>v \<in> set (nd_Values n). length v \<le> 10" and l: "length (nd_Values n) = length (nd_Keys n)" "nd_Type n = LeafNode"
    using assms(1) by (simp_all add: leaf_node_def leaf_ok_def)
  have "length (values_bytes vs) \<le> 12 * length vs" if "\<forall>v \<in> set vs. length v \<le> 10" for vs
    using that by (induction vs) (auto simp: values_bytes_def)
  from this [OF v] show ?thesis using l assms(2)
    by (simp add: node_payload_def Node_IsLeaf_def layout MaxKeys_def)
qed

lemma inner_payload:
  assumes "nd_Type n = InternalNode" "length (nd_Children n) = length (nd_Keys n) + 1" "length (nd_Keys n) < MaxKeys"
  shows "length (node_payload n) \<le> PageSize"
  using assms by (simp add: node_payload_def Node_IsLeaf_def layout MaxKeys_def)

section \<open>Insertion\<close>

text \<open>
  The outcome of an insertion below page \<open>p\<close>: the tree at \<open>p\<close>, or the two trees at \<open>p\<close> and at
  the new page \<open>np\<close> cut at the separator \<open>sk\<close>, hold the map \<open>F\<close>; their pages are old pages of
  the tree or freshly allocated ones; all other pages are untouched.
\<close>

abbreviation grown :: "u64 \<Rightarrow> u64 \<Rightarrow> u64 list" where "grown p np \<equiv> (if np = 0 then [p] else [p, np])"

definition pages_ok :: "nat \<Rightarrow> u64 \<Rightarrow> u64 \<Rightarrow> BTree \<Rightarrow> BTree \<Rightarrow> bool" where
  "pages_ok h p np bt bt' \<longleftrightarrow>
     (\<forall>q. q \<notin> set (pages h (bt_nodePool bt) p) \<longrightarrow> unat q < page_count bt \<longrightarrow> bt_nodePool bt' q = bt_nodePool bt q)
     \<and> (\<forall>q \<in> set (concat (map (pages h (bt_nodePool bt')) (grown p np))).
          q \<in> set (pages h (bt_nodePool bt) p) \<or> (page_count bt \<le> unat q \<and> unat q < page_count bt'))
     \<and> distinct (concat (map (pages h (bt_nodePool bt')) (grown p np)))"

definition holds :: "nat \<Rightarrow> int \<Rightarrow> int \<Rightarrow> u64 \<Rightarrow> u64 \<Rightarrow> i64 \<Rightarrow> (i64 \<Rightarrow> byte list option) \<Rightarrow> node_pool \<Rightarrow> bool" where
  "holds h lo hi p np sk F P \<longleftrightarrow>
     (if np = 0 then shape h P lo hi p \<and> find h P p = F
      else lo < sint sk \<and> sint sk < hi \<and> shape h P lo (sint sk) p \<and> shape h P (sint sk) hi np
        \<and> (\<forall>x. (if sint x < sint sk then find h P p x else find h P np x) = F x))"

definition stored :: "nat \<Rightarrow> int \<Rightarrow> int \<Rightarrow> u64 \<Rightarrow> (i64 \<Rightarrow> byte list option) \<Rightarrow> BTree \<Rightarrow> BTree \<Rightarrow> u64 \<Rightarrow> i64 \<Rightarrow> bool" where
  "stored h lo hi p F bt bt' np sk \<longleftrightarrow>
     bt_Root bt' = bt_Root bt \<and> page_count bt \<le> page_count bt' \<and> page_count bt' \<le> page_count bt + Suc h
     \<and> (\<forall>d. writable (d + Suc h) bt \<longrightarrow> writable d bt')
     \<and> pages_ok h p np bt bt' \<and> holds h lo hi p np sk F (bt_nodePool bt')"

definition put :: "(i64 \<Rightarrow> byte list option) \<Rightarrow> bool \<Rightarrow> i64 \<Rightarrow> byte list \<Rightarrow> i64 \<Rightarrow> byte list option" where
  "put f lost k v = (if lost then f else f(k \<mapsto> v))"

lemma writable_less: "writable d bt \<Longrightarrow> d' \<le> d \<Longrightarrow> writable d' bt"
  by (auto simp: writable_def)

lemma allocate:
  assumes "writable (Suc d) bt"
  shows "\<exists>q bt1. BTree_AllocatePage bt = (q, bt1) \<and> q \<noteq> 0 \<and> unat q = page_count bt \<and> page_count bt1 = Suc (page_count bt)
    \<and> bt_nodePool bt1 = bt_nodePool bt \<and> bt_Root bt1 = bt_Root bt \<and> (\<forall>e. writable (Suc e) bt \<longrightarrow> writable e bt1)"
proof -
  let ?c = "dm_pageCount (bt_Disk bt)"
  have b: "1 \<le> unat ?c" "unat ?c + Suc d < 2 ^ 51" using assms by (simp_all add: writable_def)
  then have c: "unat (?c + 1) = Suc (unat ?c)" by (simp add: unat_word_ariths)
  have "?c \<noteq> 0" using b(1) by auto
  then show ?thesis using c
    by (auto simp: BTree_AllocatePage_def Adapter_AllocatePage_def DiskManager_AllocatePage_def writable_def)
qed

subsection \<open>A leaf\<close>

lemma leaf_distinct: "leaf_ok n \<Longrightarrow> distinct (nd_Keys n)"
  unfolding leaf_ok_def by (auto simp: distinct_conv_nth) (metis increasing_nth linorder_neqE_nat order_less_irrefl)

lemma map_of_zip_update:
  "distinct ks \<Longrightarrow> length vs = length ks \<Longrightarrow> i < length ks \<Longrightarrow>
    map_of (zip ks (vs[i := v])) = (map_of (zip ks vs))(ks ! i \<mapsto> v)"
proof (induction ks arbitrary: vs i)
  case (Cons k ks)
  then obtain w ws where w: "vs = w # ws" by (cases vs) auto
  show ?case
  proof (cases i)
    case (Suc j)
    then have "ks ! j \<noteq> k" using Cons.prems by auto
    then show ?thesis using Cons Suc w by (auto simp: fun_eq_iff)
  qed (auto simp: w fun_eq_iff)
qed simp

lemma leaf_replace:
  assumes n: "leaf_node lo hi p n" and pos: "Node_FindKey n k < length (nd_Keys n)" "nd_Keys n ! Node_FindKey n k = k"
    and v: "length v \<le> 10"
  defines "n1 \<equiv> n\<lparr>nd_Values := (nd_Values n)[Node_FindKey n k := v]\<rparr>"
  shows "leaf_node lo hi p n1 \<and> leaf_map n1 = (leaf_map n)(k \<mapsto> v)"
proof -
  have ok: "leaf_ok n" using n by (simp add: leaf_node_def)
  have "leaf_map n1 = (leaf_map n)(k \<mapsto> v)"
    using map_of_zip_update [OF leaf_distinct [OF ok], of "nd_Values n" "Node_FindKey n k" v] ok pos
    by (simp add: leaf_map_def n1_def leaf_ok_def)
  moreover have "\<forall>w \<in> set (nd_Values n1). length w \<le> 10"
    using n v set_update_subset_insert [of "nd_Values n" "Node_FindKey n k" v] by (auto simp: n1_def leaf_node_def)
  ultimately show ?thesis using n by (simp add: leaf_node_def leaf_ok_def n1_def)
qed

text \<open>A leaf that keeps its page: the new node is stored under the old number.\<close>

lemma leaf_stays:
  assumes n: "leaf_node lo hi p n" "length (nd_Keys n) < MaxKeys" "p \<noteq> 0"
    and s: "saved n bt0 bt'" "bt_nodePool bt0 = (bt_nodePool bt)(p \<mapsto> m)" "bt_Root bt0 = bt_Root bt"
      "page_count bt0 = page_count bt" "\<forall>d. writable d bt0 = writable d bt"
  shows "stored 0 lo hi p (leaf_map n) bt bt' 0 0"
proof -
  have id: "nd_PageID n = p" using n(1) by (simp add: leaf_node_def)
  have b: "bt_nodePool bt' = (bt_nodePool bt)(p \<mapsto> n)" "bt_Root bt' = bt_Root bt" "page_count bt' = page_count bt"
    using s id by (simp_all add: saved_def)
  have "writable d bt'" if "writable (d + Suc 0) bt" for d
    using writable_less [OF that, of d] s by (simp add: saved_def)
  then show ?thesis using n b by (simp add: stored_def pages_ok_def holds_def)
qed

lemma mutate_simps [simp]: "bt_nodePool (BTree_mutate n bt) = (bt_nodePool bt)(nd_PageID n \<mapsto> n)"
    "bt_Root (BTree_mutate n bt) = bt_Root bt" "bt_Disk (BTree_mutate n bt) = bt_Disk bt"
    "writable d (BTree_mutate n bt) = writable d bt"
  by (simp_all add: BTree_mutate_def writable_def)

lemma finish_small:
  assumes "length (nd_Keys n) < MaxKeys" "length (node_payload n) \<le> PageSize" "writable d bt" "unat (nd_PageID n) < page_count bt"
  shows "\<exists>bt'. BTree_finish n (BTree_mutate n bt) = (Ok (0, 0), bt') \<and> saved n (BTree_mutate n bt) bt'"
  using saveNode_saves [OF assms(2), of d "BTree_mutate n bt"] assms
  by (auto simp: BTree_finish_def Node_IsFull_def)

text \<open>A full node is split: the halves end up under the old page and a fresh one.\<close>

lemma finish_full:
  assumes full: "length (nd_Keys n) \<ge> MaxKeys" and w: "writable (Suc d) bt" and p: "unat (nd_PageID n) < page_count bt"
    and split: "\<And>q. \<exists>l r s. Node_SplitNode q n = Ok (l, r, s) \<and> R q l r s
       \<and> nd_PageID l = nd_PageID n \<and> nd_PageID r = q
       \<and> length (node_payload l) \<le> PageSize \<and> length (node_payload r) \<le> PageSize"
  shows "\<exists>q l r s bt'. BTree_finish n (BTree_mutate n bt) = (Ok (q, s), bt') \<and> R q l r s \<and> q \<noteq> 0 \<and> unat q = page_count bt
    \<and> page_count bt' = Suc (page_count bt) \<and> bt_Root bt' = bt_Root bt
    \<and> bt_nodePool bt' = (bt_nodePool bt)(nd_PageID n \<mapsto> l, q \<mapsto> r) \<and> (\<forall>e. writable (Suc e) bt \<longrightarrow> writable e bt')"
proof -
  have w0: "writable (Suc d) (BTree_mutate n bt)" using w by simp
  obtain q bt1 where a: "BTree_AllocatePage (BTree_mutate n bt) = (q, bt1)" "q \<noteq> 0" "unat q = page_count bt"
      "page_count bt1 = Suc (page_count bt)" "bt_nodePool bt1 = (bt_nodePool bt)(nd_PageID n \<mapsto> n)"
      "bt_Root bt1 = bt_Root bt" "\<forall>e. writable (Suc e) bt \<longrightarrow> writable e bt1"
    using allocate [OF w0] by auto
  obtain l r s where s: "Node_SplitNode q n = Ok (l, r, s)" "R q l r s" "nd_PageID l = nd_PageID n" "nd_PageID r = q"
      "length (node_payload l) \<le> PageSize" "length (node_payload r) \<le> PageSize" using split by blast
  have wd: "writable d bt1" using a(7) w by blast
  obtain bt2 where b2: "BTree_trySave l (BTree_mutate l bt1) = (Ok (), bt2)" "saved l (BTree_mutate l bt1) bt2"
    using trySave_saves [OF s(5), of d "BTree_mutate l bt1"] wd p s(3) a(4) by auto
  obtain bt3 where b3: "BTree_trySave r bt2 = (Ok (), bt3)" "saved r bt2 bt3"
    using trySave_saves [OF s(6), of d bt2] b2(2) wd s(4) a(3,4) by (auto simp: saved_def)
  have "BTree_finish n (BTree_mutate n bt) = (Ok (q, s), bt3)"
    using full a(1) s(1) b2(1) b3(1) by (simp add: BTree_finish_def Node_IsFull_def not_less)
  moreover have "bt_nodePool bt3 = (bt_nodePool bt)(nd_PageID n \<mapsto> l, q \<mapsto> r)"
    using b2(2) b3(2) a(5) s(3,4) by (simp add: saved_def)
  moreover have "page_count bt3 = Suc (page_count bt)" "bt_Root bt3 = bt_Root bt"
      "\<forall>e. writable (Suc e) bt \<longrightarrow> writable e bt3"
    using a b2(2) b3(2) by (simp_all add: saved_def)
  ultimately show ?thesis using s(2) a(2,3) by blast
qed

lemma finish_leaf:
  assumes n: "leaf_node lo hi p n" "length (nd_Keys n) \<le> MaxKeys" "p \<noteq> 0" and w: "writable (Suc d) bt" "unat p < page_count bt"
  shows "\<exists>np sk bt'. BTree_finish n (BTree_mutate n bt) = (Ok (np, sk), bt') \<and> stored 0 lo hi p (leaf_map n) bt bt' np sk"
proof -
  have id: "nd_PageID n = p" and ok: "leaf_ok n" using n(1) by (simp_all add: leaf_node_def)
  show ?thesis
  proof (cases "length (nd_Keys n) < MaxKeys")
    case True
    obtain bt' where f: "BTree_finish n (BTree_mutate n bt) = (Ok (0, 0), bt')" "saved n (BTree_mutate n bt) bt'"
      using finish_small [OF True leaf_payload [OF n(1) True] w(1)] w(2) id by auto
    have "stored 0 lo hi p (leaf_map n) bt bt' 0 0"
      by (rule leaf_stays [OF n(1) True n(3) f(2)]) (simp_all add: id)
    then show ?thesis using f(1) by blast
  next
    case False
    then have full: "length (nd_Keys n) = MaxKeys" using n(2) by simp
    let ?R = "\<lambda>q l r s. leaf_node lo (sint s) p l \<and> leaf_node (sint s) hi q r \<and> lo < sint s \<and> sint s < hi
      \<and> length (nd_Keys l) < MaxKeys \<and> length (nd_Keys r) < MaxKeys
      \<and> (\<forall>x. (if sint x < sint s then leaf_map l x else leaf_map r x) = leaf_map n x)"
    have split: "\<exists>l r s. Node_SplitNode q n = Ok (l, r, s) \<and> ?R q l r s \<and> nd_PageID l = nd_PageID n \<and> nd_PageID r = q
        \<and> length (node_payload l) \<le> PageSize \<and> length (node_payload r) \<le> PageSize" for q
    proof -
      have ne: "nd_Keys n \<noteq> []" using full by (auto simp: MaxKeys_def)
      obtain l r s where S: "Node_SplitNode q n = Ok (l, r, s)" "leaf_ok l" "leaf_ok r"
          "nd_Keys n = nd_Keys l @ nd_Keys r" "nd_Values n = nd_Values l @ nd_Values r" "s = hd (nd_Keys r)" "nd_Keys r \<noteq> []"
          "\<forall>k \<in> set (nd_Keys l). sint k < sint s" "\<forall>k \<in> set (nd_Keys r). sint s \<le> sint k"
          "nd_PageID l = nd_PageID n" "nd_PageID r = q" "length (nd_Keys l) = length (nd_Keys n) div 2"
        using SplitNode_leaf [OF ok ne, of q] by blast
      have len: "length (nd_Keys l) = 100" "length (nd_Keys r) = 100"
        using S(4,12) full arg_cong [OF S(4), of length] by (simp_all add: MaxKeys_def)
      have b: "\<forall>k \<in> set (nd_Keys l @ nd_Keys r). lo \<le> sint k \<and> sint k \<le> hi" "\<forall>v \<in> set (nd_Values l @ nd_Values r). length v \<le> 10"
        using n(1) S(4,5) by (simp_all add: leaf_node_def)
      have lo: "lo < sint s"
      proof -
        have "hd (nd_Keys l) \<in> set (nd_Keys l)" using len by (cases "nd_Keys l") auto
        then have "lo \<le> sint (hd (nd_Keys l))" "sint (hd (nd_Keys l)) < sint s" using b(1) S(8) by simp_all
        then show ?thesis by simp
      qed
      have hi: "sint s < hi"
      proof -
        obtain k1 k2 ks where k: "nd_Keys r = k1 # k2 # ks"
          using len(2) by (cases "nd_Keys r"; cases "tl (nd_Keys r)") auto
        then have "sint k1 < sint k2" "sint k2 \<le> hi" using S(3) b(1) by (simp_all add: leaf_ok_def increasing_def)
        then show ?thesis using k S(6) by simp
      qed
      have nodes: "leaf_node lo (sint s) p l" "leaf_node (sint s) hi q r"
        using S b id by (auto simp: leaf_node_def intro: less_imp_le)
      have "leaf_map n x = (if sint x < sint s then leaf_map l x else leaf_map r x)" for x
      proof -
        have z: "leaf_map n = leaf_map r ++ leaf_map l"
          using S(2,4,5) by (simp add: leaf_map_def leaf_ok_def)
        have dom: "dom (leaf_map l) \<subseteq> set (nd_Keys l)" "dom (leaf_map r) \<subseteq> set (nd_Keys r)"
          by (auto simp: leaf_map_def dest!: map_of_SomeD set_zip_leftD)
        show ?thesis
        proof (cases "sint x < sint s")
          case True
          then have "leaf_map r x = None" using S(9) dom(2) by force
          then show ?thesis using True z by (cases "leaf_map l x") (simp_all add: map_add_def)
        next
          case False
          then have "leaf_map l x = None" using S(8) dom(1) by force
          then show ?thesis using False z by (simp add: map_add_def)
        qed
      qed
      then show ?thesis using S(1,10,11) lo hi nodes len leaf_payload [OF nodes(1)] leaf_payload [OF nodes(2)]
        by (auto simp: MaxKeys_def)
    qed
    have p': "unat (nd_PageID n) < page_count bt" using w(2) id by simp
    have full': "MaxKeys \<le> length (nd_Keys n)" using full by simp
    obtain q l r s bt' where f: "BTree_finish n (BTree_mutate n bt) = (Ok (q, s), bt')" "?R q l r s" "q \<noteq> 0" "unat q = page_count bt"
        "page_count bt' = Suc (page_count bt)" "bt_Root bt' = bt_Root bt"
        "bt_nodePool bt' = (bt_nodePool bt)(nd_PageID n \<mapsto> l, q \<mapsto> r)" "\<forall>e. writable (Suc e) bt \<longrightarrow> writable e bt'"
      using finish_full [OF full' w(1) p', of ?R, OF split] by blast
    have "q \<noteq> p" using f(4) w(2) by auto
    then have "holds 0 lo hi p q s (leaf_map n) (bt_nodePool bt')"
      using f(2,3,7) n(3) id by (auto simp: holds_def split: if_splits)
    moreover have "pages_ok 0 p q bt bt'" using f(3,4,5,7) w(2) id \<open>q \<noteq> p\<close> by (auto simp: pages_ok_def)
    ultimately show ?thesis using f(1,5,6,8) by (auto simp: stored_def)
  qed
qed

lemma insertLeaf_stores:
  assumes n: "bt_nodePool bt p = Some n" "leaf_node lo hi p n" "length (nd_Keys n) < MaxKeys" "p \<noteq> 0"
    and w: "writable (Suc d) bt" "unat p < page_count bt" and k: "lo \<le> sint k" "sint k \<le> hi" and v: "length v \<le> 10"
  shows "\<exists>np sk bt'. BTree_insertLeaf n k v bt = (Ok (np, sk), bt') \<and> stored 0 lo hi p ((leaf_map n)(k \<mapsto> v)) bt bt' np sk"
proof -
  have id: "nd_PageID n = p" and ok: "leaf_ok n" using n(2) by (simp_all add: leaf_node_def)
  then have len: "length (nd_Values n) = length (nd_Keys n)" and inc: "increasing (nd_Keys n)" by (simp_all add: leaf_ok_def)
  show ?thesis
  proof (cases "Node_FindKey n k < length (nd_Keys n) \<and> nd_Keys n ! Node_FindKey n k = k")
    case True
    let ?n = "n\<lparr>nd_Values := (nd_Values n)[Node_FindKey n k := v]\<rparr>"
    have r: "leaf_node lo hi p ?n" "leaf_map ?n = (leaf_map n)(k \<mapsto> v)"
      using leaf_replace [OF n(2) _ _ v] True by blast+
    have l: "length (nd_Keys ?n) < MaxKeys" using n(3) by simp
    obtain bt' where s: "BTree_saveNode ?n (BTree_mutate ?n bt) = (Ok (), bt')" "saved ?n (BTree_mutate ?n bt) bt'"
      using saveNode_saves [OF leaf_payload [OF r(1) l], of "Suc d" "BTree_mutate ?n bt"] w id by auto
    have "stored 0 lo hi p (leaf_map ?n) bt bt' 0 0"
      by (rule leaf_stays [OF r(1) l n(4) s(2)]) (simp_all add: id)
    then show ?thesis using True s(1) r(2) len by (auto simp: BTree_insertLeaf_def Let_def)
  next
    case False
    then have fresh: "k \<notin> set (nd_Keys n)" using FindKey_member [OF inc, of k] by blast
    obtain n1 where n1: "Node_InsertKey k 0 v n = Ok n1" "leaf_ok n1" "leaf_map n1 = (leaf_map n)(k \<mapsto> v)"
        "length (nd_Keys n1) = Suc (length (nd_Keys n))" "nd_PageID n1 = nd_PageID n"
      using InsertKey_leaf_map [OF ok fresh] by blast
    have ks: "set (nd_Keys n1) = insert k (set (nd_Keys n))" using InsertKey_increasing [OF inc fresh n1(1)] by blast
    have p: "Node_FindKey n k \<le> length (nd_Values n)" using FindKey_point(1) [OF inc, of k] len by simp
    have "nd_Values n1 = insert_nth (Node_FindKey n k) v (nd_Values n)"
      using n1(1) ok by (auto simp: Node_InsertKey_def Let_def leaf_ok_def Node_IsLeaf_def split: if_splits)
    then have "set (nd_Values n1) = insert v (set (nd_Values n))" using insert_nth_set [OF p, of v] by simp
    then have ln: "leaf_node lo hi p n1" using n(2) n1(2,5) ks k v by (simp add: leaf_node_def)
    have "length (nd_Keys n1) \<le> MaxKeys" using n1(4) n(3) by simp
    from finish_leaf [OF ln this n(4) w] show ?thesis
      using False n1(1,3) by (auto simp: BTree_insertLeaf_def Let_def)
  qed
qed

subsection \<open>An internal node\<close>

text \<open>The list of children around the one an insertion descends into.\<close>

lemma insert_point:
  assumes "increasing (nd_Keys n)" "length (nd_Children n) = length (nd_Keys n) + 1"
  shows "\<exists>ks1 ks2 cs1 c cs2. nd_Keys n = ks1 @ ks2 \<and> nd_Children n = cs1 @ c # cs2 \<and> length cs1 = length ks1
    \<and> length cs2 = length ks2 \<and> nd_Children n ! insert_child n k = c \<and> Node_FindKey n k = length ks1
    \<and> (\<forall>s \<in> set ks1. sint s < sint k) \<and> (\<forall>s \<in> set ks2. sint k \<le> sint s)"
proof -
  let ?i = "Node_FindKey n k"
  have i: "?i \<le> length (nd_Keys n)" by (rule FindKey_point(1) [OF assms(1)])
  have a: "\<forall>s \<in> set (take ?i (nd_Keys n)). sint s < sint k"
    using FindKey_point(2) [OF assms(1), where key = k] by (auto simp: in_set_conv_nth)
  have b: "\<forall>s \<in> set (drop ?i (nd_Keys n)). sint k \<le> sint s"
    using FindKey_point(3) [OF assms(1), where key = k] by (auto simp: in_set_conv_nth)
  have c: "nd_Children n = take ?i (nd_Children n) @ nd_Children n ! ?i # drop (Suc ?i) (nd_Children n)"
    using i assms(2) by (intro id_take_nth_drop) simp
  have ic: "insert_child n k = ?i" using i assms(2) by (simp add: insert_child_def Let_def)
  show ?thesis
    by (rule exI [of _ "take ?i (nd_Keys n)"], rule exI [of _ "drop ?i (nd_Keys n)"], rule exI [of _ "take ?i (nd_Children n)"],
        rule exI [of _ "nd_Children n ! ?i"], rule exI [of _ "drop (Suc ?i) (nd_Children n)"])
       (use a b c i assms(2) ic in \<open>simp add: min_def\<close>)
qed

text \<open>Replacing one child by what the insertion made of it.\<close>

definition grown_keys :: "u64 \<Rightarrow> i64 \<Rightarrow> i64 list" where "grown_keys np sk = (if np = 0 then [] else [sk])"

lemma children_chain:
  assumes ch: "chain (shape h P) lo hi (ks1 @ ks2) (cs1 @ c # cs2)" and len: "length cs1 = length ks1"
    and other: "\<forall>c' \<in> set cs1 \<union> set cs2. \<forall>q \<in> set (pages h P c'). P' q = P q"
    and new: "holds h (low_end lo ks1) (high_end hi ks2) c np sk F P'"
  shows "chain (shape h P') lo hi (ks1 @ grown_keys np sk @ ks2) (cs1 @ grown c np @ cs2)"
proof -
  have s: "segs (shape h P) lo ks1 cs1" "chain (shape h P) (low_end lo ks1) hi ks2 (c # cs2)"
    using ch chain_append [OF len] by blast+
  have same: "shape h P' a b c'" if "c' \<in> set cs1 \<union> set cs2" "shape h P a b c'" for a b c'
    by (rule shape_cong [OF that(2)]) (use other that(1) in blast)
  have s': "segs (shape h P') lo ks1 cs1"
    by (rule segs_mono [OF s(1)]) (use same in blast)
  have head: "low_end lo ks1 < high_end hi ks2" "if ks2 = [] then cs2 = [] else chain (shape h P) (sint (hd ks2)) hi (tl ks2) cs2"
    using s(2) unfolding chain_head by blast+
  have tail: "if ks2 = [] then cs2 = [] else chain (shape h P') (sint (hd ks2)) hi (tl ks2) cs2"
  proof (cases "ks2 = []")
    case False
    have "chain (shape h P') (sint (hd ks2)) hi (tl ks2) cs2"
      by (rule chain_mono [of "shape h P"]) (use head(2) False same in auto)
    then show ?thesis using False by simp
  qed (use head(2) in simp)
  have "chain (shape h P') (low_end lo ks1) hi (grown_keys np sk @ ks2) (grown c np @ cs2)"
    using new head(1) tail chain_head [of "shape h P'" _ hi ks2 _ cs2] by (auto simp: holds_def grown_keys_def)
  then show ?thesis using s' chain_append [OF len, of "shape h P'" lo hi "grown_keys np sk @ ks2"] by simp
qed

lemma children_find:
  assumes ch: "chain (shape h P) lo hi (ks1 @ ks2) (cs1 @ c # cs2)" and len: "length cs1 = length ks1"
    and other: "\<forall>c' \<in> set cs1 \<union> set cs2. \<forall>q \<in> set (pages h P c'). P' q = P q"
    and new: "holds h (low_end lo ks1) (high_end hi ks2) c np sk F P'"
  shows "find h P' (pick (ks1 @ grown_keys np sk @ ks2) (cs1 @ grown c np @ cs2) x) x
    = (if (\<forall>s \<in> set ks1. sint s \<le> sint x) \<and> (ks2 = [] \<or> sint x < sint (hd ks2)) then F x
       else find h P (pick (ks1 @ ks2) (cs1 @ c # cs2) x) x)"
proof -
  have same: "find h P' c' x = find h P c' x" if "c' \<in> set cs1 \<union> set cs2" for c'
  proof -
    obtain a b where "shape h P a b c'" using chain_child [OF ch, of c'] \<open>c' \<in> _\<close> by auto
    then show ?thesis using find_cong other that by metis
  qed
  show ?thesis
  proof (cases "\<forall>s \<in> set ks1. sint s \<le> sint x")
    case False
    then show ?thesis
      using pick_below [OF len False, of "grown_keys np sk @ ks2" "grown c np @ cs2" ks2 "c # cs2"] same by auto
  next
    case True
    note above = pick_above [OF len True]
    show ?thesis
    proof (cases "ks2 = [] \<or> sint x < sint (hd ks2)")
      case here: True
      then have "pick ks2 (a # cs2) x = a" for a by (cases ks2) auto
      then show ?thesis unfolding above using True here new by (auto simp: holds_def grown_keys_def split: if_splits)
    next
      case right: False
      then obtain s t where k2: "ks2 = s # t" "\<not> sint x < sint s" by (cases ks2) auto
      have "pick t cs2 x \<in> set cs2"
      proof -
        have "chain (shape h P) (sint s) hi t cs2"
          using ch chain_append [OF len] k2(1) by auto
        then show ?thesis by (rule pick_child)
      qed
      moreover have "sint sk \<le> sint x" if "np \<noteq> 0"
        using new that k2 by (auto simp: holds_def high_end_def)
      ultimately show ?thesis unfolding above using True k2 same by (auto simp: grown_keys_def)
    qed
  qed
qed

lemma children_put:
  assumes ch: "chain (shape h P) lo hi (ks1 @ ks2) (cs1 @ c # cs2)" and len: "length cs1 = length ks1"
    and other: "\<forall>c' \<in> set cs1 \<union> set cs2. \<forall>q \<in> set (pages h P c'). P' q = P q"
    and new: "holds h (low_end lo ks1) (high_end hi ks2) c np sk (put (find h P c) lost k v) P'"
    and k: "\<forall>s \<in> set ks1. sint s < sint k" "\<forall>s \<in> set ks2. sint k \<le> sint s"
  shows "(\<lambda>x. find h P' (pick (ks1 @ grown_keys np sk @ ks2) (cs1 @ grown c np @ cs2) x) x)
    = put (\<lambda>x. find h P (pick (ks1 @ ks2) (cs1 @ c # cs2) x) x) (k \<in> set (ks1 @ ks2) \<or> lost) k v"
proof
  fix x :: i64
  let ?here = "(\<forall>s \<in> set ks1. sint s \<le> sint x) \<and> (ks2 = [] \<or> sint x < sint (hd ks2))"
  have inc: "increasing (ks1 @ ks2)" using chain_bounds [OF ch] by blast
  have at_k: "?here \<longleftrightarrow> k \<notin> set (ks1 @ ks2)" if "x = k"
  proof -
    have "k \<in> set ks2 \<longleftrightarrow> ks2 \<noteq> [] \<and> hd ks2 = k"
      using k(2) inc by (cases ks2) (fastforce simp: increasing_def sorted_wrt_append)+
    moreover have "\<not> sint k < sint (hd ks2) \<longleftrightarrow> hd ks2 = k" if "ks2 \<noteq> []"
      using k(2) that sint_eq [of "hd ks2" k] by (cases ks2) auto
    moreover have "k \<notin> set ks1" using k(1) by auto
    ultimately show ?thesis using that k(1) by (auto intro: less_imp_le)
  qed
  have here: "find h P (pick (ks1 @ ks2) (cs1 @ c # cs2) x) x = find h P c x" if "?here"
  proof -
    have "pick ks2 (c # cs2) x = c" using that by (cases ks2) auto
    then show ?thesis using pick_above [OF len, of x ks2 "c # cs2"] that by simp
  qed
  show "find h P' (pick (ks1 @ grown_keys np sk @ ks2) (cs1 @ grown c np @ cs2) x) x
    = put (\<lambda>x. find h P (pick (ks1 @ ks2) (cs1 @ c # cs2) x) x) (k \<in> set (ks1 @ ks2) \<or> lost) k v x"
    unfolding children_find [OF ch len other new] using at_k here by (auto simp: put_def)
qed

abbreviation below :: "nat \<Rightarrow> node_pool \<Rightarrow> u64 list \<Rightarrow> u64 list" where
  "below h P cs \<equiv> concat (map (pages h P) cs)"

text \<open>A node put on top of unchanged children.\<close>

lemma node_tree:
  assumes m: "P' p = Some m" "nd_PageID m = p" "nd_Type m = InternalNode" "length (nd_Keys m) < MaxKeys" "p \<noteq> 0"
    and ch: "chain (shape h P) a b (nd_Keys m) (nd_Children m)"
    and same: "\<forall>q \<in> set (below h P (nd_Children m)). P' q = P q"
  shows "shape (Suc h) P' a b p" "pages (Suc h) P' p = p # below h P (nd_Children m)"
    "find (Suc h) P' p = (\<lambda>x. find h P (pick (nd_Keys m) (nd_Children m) x) x)"
proof -
  have c: "\<forall>q \<in> set (pages h P c). P' q = P q" if "c \<in> set (nd_Children m)" for c using same that by auto
  have "chain (shape h P') a b (nd_Keys m) (nd_Children m)"
    by (rule chain_mono [OF ch]) (use c shape_cong in blast)
  then show "shape (Suc h) P' a b p" using m by simp
  have "map (pages h P') (nd_Children m) = map (pages h P) (nd_Children m)"
    by (rule map_cong [OF refl]) (use c pages_cong in blast)
  then have "below h P' (nd_Children m) = below h P (nd_Children m)" by (rule arg_cong)
  then show "pages (Suc h) P' p = p # below h P (nd_Children m)" using m(1) by simp
  have "find h P' (pick (nd_Keys m) (nd_Children m) x) = find h P (pick (nd_Keys m) (nd_Children m) x)" for x
  proof -
    have "pick (nd_Keys m) (nd_Children m) x \<in> set (nd_Children m)" by (rule pick_child [OF ch])
    then show ?thesis using chain_child [OF ch] c find_cong by metis
  qed
  then show "find (Suc h) P' p = (\<lambda>x. find h P (pick (nd_Keys m) (nd_Children m) x) x)" using m(1) by simp
qed

definition node_grown :: "nat \<Rightarrow> int \<Rightarrow> int \<Rightarrow> u64 \<Rightarrow> Node \<Rightarrow> BTree \<Rightarrow> BTree \<Rightarrow> u64 \<Rightarrow> i64 \<Rightarrow> bool" where
  "node_grown h lo hi p n bt bt' np sk \<longleftrightarrow>
     holds (Suc h) lo hi p np sk (\<lambda>x. find h (bt_nodePool bt) (pick (nd_Keys n) (nd_Children n) x) x) (bt_nodePool bt')
     \<and> (\<forall>q. q \<noteq> p \<longrightarrow> unat q < page_count bt \<longrightarrow> bt_nodePool bt' q = bt_nodePool bt q)
     \<and> distinct (concat (map (pages (Suc h) (bt_nodePool bt')) (grown p np)))
     \<and> (\<forall>q \<in> set (concat (map (pages (Suc h) (bt_nodePool bt')) (grown p np))).
          q = p \<or> q \<in> set (below h (bt_nodePool bt) (nd_Children n)) \<or> (unat q = page_count bt \<and> unat q < page_count bt'))
     \<and> page_count bt \<le> page_count bt' \<and> page_count bt' \<le> Suc (page_count bt) \<and> bt_Root bt' = bt_Root bt
     \<and> (\<forall>d. writable (Suc d) bt \<longrightarrow> writable d bt')"

lemma finish_inner:
  assumes n: "nd_PageID n = p" "nd_Type n = InternalNode" "length (nd_Keys n) \<le> MaxKeys" "p \<noteq> 0"
    and ch: "chain (shape h (bt_nodePool bt)) lo hi (nd_Keys n) (nd_Children n)"
    and fp: "distinct (p # below h (bt_nodePool bt) (nd_Children n))"
      "\<forall>q \<in> set (below h (bt_nodePool bt) (nd_Children n)). unat q < page_count bt"
    and w: "writable (Suc d) bt" "unat p < page_count bt"
  shows "\<exists>np sk bt'. BTree_finish n (BTree_mutate n bt) = (Ok (np, sk), bt') \<and> node_grown h lo hi p n bt bt' np sk"
proof -
  let ?P = "bt_nodePool bt"
  have inc: "increasing (nd_Keys n)" using chain_bounds [OF ch] by blast
  have len: "length (nd_Children n) = length (nd_Keys n) + 1" using chain_length [OF ch] .
  have p': "unat (nd_PageID n) < page_count bt" using w(2) n(1) by simp
  show ?thesis
  proof (cases "length (nd_Keys n) < MaxKeys")
    case True
    obtain bt' where f: "BTree_finish n (BTree_mutate n bt) = (Ok (0, 0), bt')" "saved n (BTree_mutate n bt) bt'"
      using finish_small [OF True inner_payload [OF n(2) len True] w(1) p'] by blast
    have P': "bt_nodePool bt' = ?P(p \<mapsto> n)" using f(2) n(1) by (simp add: saved_def)
    have same: "\<forall>q \<in> set (below h ?P (nd_Children n)). bt_nodePool bt' q = ?P q"
      using P' fp(1) by auto
    have top: "bt_nodePool bt' p = Some n" using P' by simp
    note T = node_tree [OF top n(1,2) True n(4) ch same]
    have "writable e bt'" if "writable (Suc e) bt" for e
      using writable_less [OF that, of e] f(2) by (simp add: saved_def)
    moreover have "\<forall>q. q \<noteq> p \<longrightarrow> bt_nodePool bt' q = ?P q" using P' by simp
    moreover have "bt_Root bt' = bt_Root bt" "page_count bt' = page_count bt" using f(2) by (simp_all add: saved_def)
    ultimately have "node_grown h lo hi p n bt bt' 0 0"
      using T fp(1) by (simp add: node_grown_def holds_def del: shape.simps pages.simps find.simps)
    then show ?thesis using f(1) by blast
  next
    case False
    then have full: "MaxKeys \<le> length (nd_Keys n)" by simp
    let ?R = "\<lambda>q l r s. nd_Keys n = nd_Keys l @ s # nd_Keys r \<and> nd_Children n = nd_Children l @ nd_Children r
      \<and> length (nd_Children l) = length (nd_Keys l) + 1 \<and> nd_Type l = InternalNode \<and> nd_Type r = InternalNode
      \<and> length (nd_Keys l) < MaxKeys \<and> length (nd_Keys r) < MaxKeys \<and> nd_PageID l = p \<and> nd_PageID r = q"
    have split: "\<exists>l r s. Node_SplitNode q n = Ok (l, r, s) \<and> ?R q l r s \<and> nd_PageID l = nd_PageID n \<and> nd_PageID r = q
        \<and> length (node_payload l) \<le> PageSize \<and> length (node_payload r) \<le> PageSize" for q
    proof -
      have ne: "nd_Keys n \<noteq> []" using full by (auto simp: MaxKeys_def)
      obtain l r s where S: "Node_SplitNode q n = Ok (l, r, s)" "nd_Keys n = nd_Keys l @ s # nd_Keys r"
          "nd_Children n = nd_Children l @ nd_Children r"
          "length (nd_Children l) = length (nd_Keys l) + 1" "length (nd_Children r) = length (nd_Keys r) + 1"
          "nd_Type l = InternalNode" "nd_Type r = InternalNode" "nd_PageID l = nd_PageID n" "nd_PageID r = q"
        using SplitNode_internal [OF n(2) inc len ne, of q] by blast
      have "length (nd_Keys l) < MaxKeys" "length (nd_Keys r) < MaxKeys"
        using n(3) arg_cong [OF S(2), of length] by simp_all
      then show ?thesis using S n(1) inner_payload [OF S(6,4)] inner_payload [OF S(7,5)] by auto
    qed
    obtain q l r s bt' where f: "BTree_finish n (BTree_mutate n bt) = (Ok (q, s), bt')" "?R q l r s" "q \<noteq> 0" "unat q = page_count bt"
        "page_count bt' = Suc (page_count bt)" "bt_Root bt' = bt_Root bt"
        "bt_nodePool bt' = ?P(nd_PageID n \<mapsto> l, q \<mapsto> r)" "\<forall>e. writable (Suc e) bt \<longrightarrow> writable e bt'"
      using finish_full [OF full w(1) p', of ?R, OF split] by blast
    have R: "nd_Keys n = nd_Keys l @ s # nd_Keys r" "nd_Children n = nd_Children l @ nd_Children r"
        "length (nd_Children l) = length (nd_Keys l) + 1" "nd_Type l = InternalNode" "nd_Type r = InternalNode"
        "length (nd_Keys l) < MaxKeys" "length (nd_Keys r) < MaxKeys" "nd_PageID l = p" "nd_PageID r = q"
      using f(2) by blast+
    have qp: "q \<noteq> p" using f(4) w(2) by auto
    have qn: "q \<notin> set (below h ?P (nd_Children n))" using f(4) fp(2) by fastforce
    have cut: "chain (shape h ?P) lo (sint s) (nd_Keys l) (nd_Children l)" "chain (shape h ?P) (sint s) hi (nd_Keys r) (nd_Children r)"
      using chain_split [OF R(3), of "shape h ?P" lo hi s "nd_Keys r" "nd_Children r"] ch R(1,2) by auto
    have sl: "\<forall>x \<in> set (below h ?P (nd_Children l)). bt_nodePool bt' x = ?P x"
      and sr: "\<forall>x \<in> set (below h ?P (nd_Children r)). bt_nodePool bt' x = ?P x"
      using f(7) fp(1) qn R(2) n(1) by auto
    have top: "bt_nodePool bt' p = Some l" "bt_nodePool bt' q = Some r" using f(7) qp n(1) by auto
    note L = node_tree [OF top(1) R(8,4,6) n(4) cut(1) sl]
    note T = node_tree [OF top(2) R(9,5,7) f(3) cut(2) sr]
    have pick: "pick (nd_Keys n) (nd_Children n) x = (if sint x < sint s then pick (nd_Keys l) (nd_Children l) x
        else pick (nd_Keys r) (nd_Children r) x)" for x
      using pick_split [OF R(3), of s "nd_Keys r" "nd_Children r" x] inc R(1,2) by simp
    have "holds (Suc h) lo hi p q s (\<lambda>x. find h ?P (pick (nd_Keys n) (nd_Children n) x) x) (bt_nodePool bt')"
      using L T f(3) chain_bounds [OF cut(1)] chain_bounds [OF cut(2)] pick
      by (simp add: holds_def del: shape.simps pages.simps find.simps)
    moreover have "distinct (pages (Suc h) (bt_nodePool bt') p @ pages (Suc h) (bt_nodePool bt') q)"
      unfolding L(2) T(2) using fp(1) qp qn R(2) by auto
    moreover have "\<forall>x. x \<noteq> p \<longrightarrow> unat x < page_count bt \<longrightarrow> bt_nodePool bt' x = ?P x"
      using f(4,7) n(1) by auto
    moreover have "\<forall>x \<in> set (pages (Suc h) (bt_nodePool bt') p @ pages (Suc h) (bt_nodePool bt') q).
        x = p \<or> x \<in> set (below h ?P (nd_Children n)) \<or> (unat x = page_count bt \<and> unat x < page_count bt')"
      unfolding L(2) T(2) using R(2) f(4,5) by auto
    ultimately have "node_grown h lo hi p n bt bt' q s"
      using f(3,5,6,8) by (simp add: node_grown_def del: shape.simps pages.simps find.simps)
    then show ?thesis using f(1) by blast
  qed
qed

lemma FindKey_between:
  assumes "nd_Keys n = ks1 @ ks2" "increasing (nd_Keys n)" "low_end lo ks1 < sint s" "sint s < high_end hi ks2"
  shows "Node_FindKey n s = length ks1"
proof -
  have "sint a < sint s" if "a \<in> set ks1" for a
  proof -
    have ne: "ks1 \<noteq> []" using that by auto
    have "sint a \<le> sint (last ks1)"
      using assms(1,2) that ne by (induction ks1 rule: rev_induct) (auto simp: increasing_def sorted_wrt_append)
    then show ?thesis using assms(3) ne by (simp add: low_end_def)
  qed
  moreover have "takeWhile (\<lambda>k. sint k < sint s) ks2 = []" using assms(4) by (cases ks2) (auto simp: high_end_def)
  ultimately have "takeWhile (\<lambda>k. sint k < sint s) (nd_Keys n) = ks1" unfolding assms(1) by simp
  then show ?thesis using FindKey_takeWhile [OF assms(2), of s] by simp
qed

text \<open>The parent after its child has grown.\<close>

definition parent_of :: "Node \<Rightarrow> u64 \<Rightarrow> i64 \<Rightarrow> (storage_err, Node) outcome" where
  "parent_of n np sk = (if np = 0 then Ok n else Node_InsertKey sk np [] n)"

lemma parent_grows:
  assumes n: "nd_Keys n = ks1 @ ks2" "nd_Children n = cs1 @ c # cs2" "length cs1 = length ks1" "nd_Type n = InternalNode"
      "increasing (nd_Keys n)" "length (nd_Keys n) < MaxKeys"
    and s: "np \<noteq> 0 \<Longrightarrow> low_end lo ks1 < sint sk \<and> sint sk < high_end hi ks2"
  shows "\<exists>n1. parent_of n np sk = Ok n1 \<and> nd_Keys n1 = ks1 @ grown_keys np sk @ ks2 \<and> nd_Children n1 = cs1 @ grown c np @ cs2
    \<and> nd_Type n1 = InternalNode \<and> nd_PageID n1 = nd_PageID n \<and> length (nd_Keys n1) \<le> MaxKeys"
proof (cases "np = 0")
  case True
  then show ?thesis using n by (simp add: parent_of_def grown_keys_def)
next
  case False
  have "Node_FindKey n sk = length ks1" using FindKey_between [OF n(1,5)] s [OF False] by blast
  then show ?thesis using False n by (simp add: parent_of_def grown_keys_def Node_InsertKey_def Node_IsLeaf_def insert_nth_def Let_def)
qed

lemma insertRecursive_inner:
  assumes "bt_nodePool bt p = Some n" "nd_Type n = InternalNode" "nd_Children n \<noteq> []" "nd_PageID n = p"
    and "BTree_insertRecursive fuel (nd_Children n ! insert_child n k) k v bt = (Ok (np, sk), bt2)" "bt_nodePool bt2 p = Some n"
    and "parent_of n np sk = Ok n1" "np = 0 \<Longrightarrow> length (nd_Keys n) < MaxKeys"
    and "BTree_finish n1 (BTree_mutate n1 bt2) = (Ok (np', sk'), bt3)"
  shows "BTree_insertRecursive (Suc fuel) p k v bt = (Ok (np', sk'), bt3)"
proof (cases "np = 0")
  case True
  then have "n1 = n" using assms(7) by (simp add: parent_of_def)
  moreover have "(bt_nodePool bt2)(p \<mapsto> n) = bt_nodePool bt2" using assms(6) by auto
  then have "BTree_mutate n bt2 = bt2" using assms(4) by (simp add: BTree_mutate_def)
  ultimately have "BTree_finish n bt2 = (Ok (np', sk'), bt3)" using assms(9) by simp
  then show ?thesis using True assms(1-5,8)
    by (auto simp: BTree_getNode_def Node_IsLeaf_def BTree_finish_def Node_IsFull_def split: prod.splits outcome.splits)
next
  case False
  then show ?thesis using assms by (simp add: BTree_getNode_def Node_IsLeaf_def parent_of_def)
qed

lemma distinct_replace:
  "distinct (p # A @ C @ B) \<Longrightarrow> distinct G \<Longrightarrow> (\<And>q. q \<in> set G \<Longrightarrow> q \<notin> set (p # A @ B)) \<Longrightarrow> distinct (p # A @ G @ B)"
  by auto

text \<open>The footprint of the parent: the other children keep theirs, the grown child takes old pages of its own or new ones.\<close>

lemma parent_pages:
  assumes d: "distinct (p # below h P (cs1 @ c # cs2))" "\<forall>q \<in> set (p # below h P (cs1 @ c # cs2)). unat q < page_count bt"
    and P: "P = bt_nodePool bt" and ok: "pages_ok h c np bt bt'" and cnt: "page_count bt \<le> page_count bt'"
    and other: "\<forall>c' \<in> set cs1 \<union> set cs2. pages h (bt_nodePool bt') c' = pages h P c'"
  shows "distinct (p # below h (bt_nodePool bt') (cs1 @ grown c np @ cs2))"
    "\<forall>q \<in> set (below h (bt_nodePool bt') (cs1 @ grown c np @ cs2)).
       q \<in> set (below h P (cs1 @ c # cs2)) \<or> (page_count bt \<le> unat q \<and> unat q < page_count bt')"
proof -
  have b: "below h (bt_nodePool bt') cs1 = below h P cs1" "below h (bt_nodePool bt') cs2 = below h P cs2"
    using other by (auto intro!: arg_cong [where f = concat] map_cong)
  have g: "\<forall>q \<in> set (below h (bt_nodePool bt') (grown c np)). q \<in> set (pages h P c) \<or> (page_count bt \<le> unat q \<and> unat q < page_count bt')"
    "distinct (below h (bt_nodePool bt') (grown c np))"
    using ok unfolding pages_ok_def P by blast+
  have app: "below h (bt_nodePool bt') (cs1 @ grown c np @ cs2)
      = below h P cs1 @ below h (bt_nodePool bt') (grown c np) @ below h P cs2"
    using b by simp
  have old: "below h P (cs1 @ c # cs2) = below h P cs1 @ pages h P c @ below h P cs2" by simp
  have lt: "\<forall>q \<in> set (p # below h P cs1 @ pages h P c @ below h P cs2). unat q < page_count bt"
    using d(2) unfolding old .
  have fresh: "q \<notin> set (p # below h P cs1 @ below h P cs2)" if "q \<in> set (below h (bt_nodePool bt') (grown c np))" for q
  proof -
    from g(1) that consider "q \<in> set (pages h P c)" | "page_count bt \<le> unat q" by blast
    then show ?thesis
    proof cases
      case 1
      then show ?thesis using d(1) unfolding old by auto
    next
      case 2
      show ?thesis
      proof
        assume "q \<in> set (p # below h P cs1 @ below h P cs2)"
        then have "q \<in> set (p # below h P cs1 @ pages h P c @ below h P cs2)" by (simp only: set_append set_simps insert_iff Un_iff) blast
        then show False using bspec [OF lt] 2 linorder_not_less by blast
      qed
    qed
  qed
  show "distinct (p # below h (bt_nodePool bt') (cs1 @ grown c np @ cs2))"
    unfolding app by (rule distinct_replace [OF d(1) [unfolded old] g(2) fresh])
  show "\<forall>q \<in> set (below h (bt_nodePool bt') (cs1 @ grown c np @ cs2)).
       q \<in> set (below h P (cs1 @ c # cs2)) \<or> (page_count bt \<le> unat q \<and> unat q < page_count bt')"
  proof
    fix q assume "q \<in> set (below h (bt_nodePool bt') (cs1 @ grown c np @ cs2))"
    then consider "q \<in> set (below h P cs1)" | "q \<in> set (below h (bt_nodePool bt') (grown c np))" | "q \<in> set (below h P cs2)"
      unfolding app by (simp only: set_append Un_iff) blast
    then show "q \<in> set (below h P (cs1 @ c # cs2)) \<or> (page_count bt \<le> unat q \<and> unat q < page_count bt')"
    proof cases
      case 2
      then show ?thesis using bspec [OF g(1) 2] unfolding old by (simp only: set_append Un_iff) blast
    qed (simp_all only: old set_append Un_iff simp_thms)
  qed
qed

lemma insertRecursive_stores:
  assumes "shape h (bt_nodePool bt) lo hi p" "distinct (pages h (bt_nodePool bt) p)"
    "\<forall>q \<in> set (pages h (bt_nodePool bt) p). unat q < page_count bt"
    "writable (d + Suc h) bt" "lo \<le> sint k" "sint k \<le> hi" "length v \<le> 10" "h < fuel"
  shows "\<exists>np sk bt'. BTree_insertRecursive fuel p k v bt = (Ok (np, sk), bt')
    \<and> stored h lo hi p (put (find h (bt_nodePool bt) p) (sep h (bt_nodePool bt) p k) k v) bt bt' np sk"
  using assms
proof (induction h arbitrary: p lo hi fuel d)
  case 0
  then obtain n f where n: "bt_nodePool bt p = Some n" "p \<noteq> 0" "leaf_node lo hi p n" "length (nd_Keys n) < MaxKeys" and f: "fuel = Suc f"
    by (cases fuel) auto
  have w: "writable (Suc d) bt" "unat p < page_count bt" using "0.prems"(3,4) by simp_all
  from insertLeaf_stores [OF n(1,3,4,2) w "0.prems"(5-7)] show ?case
    using n f by (simp add: BTree_getNode_def Node_IsLeaf_def leaf_node_def leaf_ok_def put_def fun_upd_def)
next
  case (Suc h)
  let ?P = "bt_nodePool bt"
  obtain n f where n: "?P p = Some n" "p \<noteq> 0" "nd_PageID n = p" "nd_Type n = InternalNode" "length (nd_Keys n) < MaxKeys"
      and ch: "chain (shape h ?P) lo hi (nd_Keys n) (nd_Children n)" and f: "fuel = Suc f" "h < f"
    using Suc.prems(1,8) by (cases fuel) auto
  have inc: "increasing (nd_Keys n)" using chain_bounds [OF ch] by blast
  obtain ks1 ks2 cs1 c cs2 where sp: "nd_Keys n = ks1 @ ks2" "nd_Children n = cs1 @ c # cs2" "length cs1 = length ks1"
      "nd_Children n ! insert_child n k = c" "\<forall>s \<in> set ks1. sint s < sint k" "\<forall>s \<in> set ks2. sint k \<le> sint s"
    using insert_point [OF inc chain_length [OF ch], of k] by blast
  note ch' = ch [unfolded sp(1,2)]
  have pg: "pages (Suc h) ?P p = p # below h ?P (cs1 @ c # cs2)" using n(1) sp(2) by simp
  have fp: "distinct (p # below h ?P (cs1 @ c # cs2))" "\<forall>q \<in> set (p # below h ?P (cs1 @ c # cs2)). unat q < page_count bt"
    using Suc.prems(2,3) unfolding pg by blast+
  let ?m = "low_end lo ks1" and ?hh = "high_end hi ks2"
  have cc: "shape h ?P ?m ?hh c" using ch' chain_append [OF sp(3)] chain_head by blast
  have kb: "?m \<le> sint k" "sint k \<le> ?hh"
    using sp(5,6) Suc.prems(5,6) by (auto simp: low_end_def high_end_def intro: less_imp_le)
  have w: "writable (Suc d + Suc h) bt" using Suc.prems(4) by simp
  have dc: "distinct (pages h ?P c)" "\<forall>q \<in> set (pages h ?P c). unat q < page_count bt" using fp by auto
  let ?F = "put (find h ?P c) (sep h ?P c k) k v"
  obtain np sk bt2 where r: "BTree_insertRecursive f c k v bt = (Ok (np, sk), bt2)" "stored h ?m ?hh c ?F bt bt2 np sk"
    using Suc.IH [OF cc dc w kb Suc.prems(7) f(2)] by blast
  let ?P2 = "bt_nodePool bt2"
  have S: "bt_Root bt2 = bt_Root bt" "page_count bt \<le> page_count bt2" "page_count bt2 \<le> page_count bt + Suc h"
      "\<And>e. writable (e + Suc h) bt \<Longrightarrow> writable e bt2" "pages_ok h c np bt bt2" "holds h ?m ?hh c np sk ?F ?P2"
    using r(2) unfolding stored_def by blast+
  have frame: "?P2 q = ?P q" if "q \<notin> set (pages h ?P c)" "unat q < page_count bt" for q
    using S(5) that unfolding pages_ok_def by blast
  have other: "\<forall>c' \<in> set cs1 \<union> set cs2. \<forall>q \<in> set (pages h ?P c'). ?P2 q = ?P q"
  proof (intro ballI frame)
    fix c' q assume a: "c' \<in> set cs1 \<union> set cs2" "q \<in> set (pages h ?P c')"
    show "q \<notin> set (pages h ?P c)" using fp(1) a by auto
    show "unat q < page_count bt" using fp(2) a by auto
  qed
  have top: "?P2 p = Some n" using frame [of p] fp n(1) by simp
  have sep: "np \<noteq> 0 \<Longrightarrow> ?m < sint sk \<and> sint sk < ?hh" using S(6) by (simp add: holds_def)
  obtain n1 where n1: "parent_of n np sk = Ok n1" "nd_Keys n1 = ks1 @ grown_keys np sk @ ks2" "nd_Children n1 = cs1 @ grown c np @ cs2"
      "nd_Type n1 = InternalNode" "nd_PageID n1 = nd_PageID n" "length (nd_Keys n1) \<le> MaxKeys"
    using parent_grows [OF sp(1-3) n(4) inc n(5) sep] by blast
  have pc: "\<forall>c' \<in> set cs1 \<union> set cs2. pages h ?P2 c' = pages h ?P c'" using other pages_cong by blast
  note PP = parent_pages [OF fp refl S(5,2) pc]
  have ch2: "chain (shape h ?P2) lo hi (nd_Keys n1) (nd_Children n1)"
    unfolding n1(2,3) by (rule children_chain [OF ch' sp(3) other S(6)])
  have lt2: "\<forall>q \<in> set (below h ?P2 (nd_Children n1)). unat q < page_count bt2"
    unfolding n1(3) using PP(2) fp(2) S(2) by (meson list.set_intros(2) order_less_le_trans)
  have w2: "writable (Suc d) bt2" using S(4) w by blast
  have p2: "unat p < page_count bt2" using fp(2) S(2) by (meson list.set_intros(1) order_less_le_trans)
  have id1: "nd_PageID n1 = p" using n1(5) n(3) by simp
  have d1: "distinct (p # below h ?P2 (nd_Children n1))" unfolding n1(3) by (rule PP(1))
  obtain np' sk' bt3 where F: "BTree_finish n1 (BTree_mutate n1 bt2) = (Ok (np', sk'), bt3)" "node_grown h lo hi p n1 bt2 bt3 np' sk'"
    using finish_inner [OF id1 n1(4,6) n(2) ch2 d1 lt2 w2 p2] by blast
  have ne: "nd_Children n \<noteq> []" using sp(2) by simp
  have run: "BTree_insertRecursive fuel p k v bt = (Ok (np', sk'), bt3)"
    unfolding f(1) using insertRecursive_inner [OF n(1,4) ne n(3) _ top n1(1) n(5) F(1)] r(1) sp(4) by simp
  have find: "(\<lambda>x. find h ?P2 (pick (nd_Keys n1) (nd_Children n1) x) x)
      = put (find (Suc h) ?P p) (sep (Suc h) ?P p k) k v"
    using children_put [OF ch' sp(3) other S(6) sp(5,6)] n(1) sp(1,2,4) unfolding n1(2,3) by simp
  have G: "holds (Suc h) lo hi p np' sk' (put (find (Suc h) ?P p) (sep (Suc h) ?P p k) k v) (bt_nodePool bt3)"
    "\<And>q. q \<noteq> p \<Longrightarrow> unat q < page_count bt2 \<Longrightarrow> bt_nodePool bt3 q = ?P2 q"
    "distinct (concat (map (pages (Suc h) (bt_nodePool bt3)) (grown p np')))"
    "\<forall>q \<in> set (concat (map (pages (Suc h) (bt_nodePool bt3)) (grown p np'))).
        q = p \<or> q \<in> set (below h ?P2 (nd_Children n1)) \<or> (unat q = page_count bt2 \<and> unat q < page_count bt3)"
    "page_count bt2 \<le> page_count bt3" "page_count bt3 \<le> Suc (page_count bt2)" "bt_Root bt3 = bt_Root bt2"
    "\<And>e. writable (Suc e) bt2 \<Longrightarrow> writable e bt3"
    using F(2) unfolding node_grown_def find by blast+
  have "pages_ok (Suc h) p np' bt bt3"
    unfolding pages_ok_def pg
  proof (intro conjI allI impI ballI)
    fix q assume "q \<notin> set (p # below h ?P (cs1 @ c # cs2))" "unat q < page_count bt"
    then show "bt_nodePool bt3 q = ?P q" using G(2) [of q] frame [of q] S(2) by auto
  next
    fix q assume "q \<in> set (concat (map (pages (Suc h) (bt_nodePool bt3)) (grown p np')))"
    then consider "q = p" | "q \<in> set (below h ?P2 (nd_Children n1))" | "unat q = page_count bt2" "unat q < page_count bt3"
      using G(4) by blast
    then show "q \<in> set (p # below h ?P (cs1 @ c # cs2)) \<or> (page_count bt \<le> unat q \<and> unat q < page_count bt3)"
    proof cases
      case 2
      then show ?thesis using PP(2) G(5) unfolding n1(3) by (meson list.set_intros(2) order_less_le_trans)
    qed (use S(2) in auto)
  qed (rule G(3))
  moreover have "writable e bt3" if "writable (e + Suc (Suc h)) bt" for e
    using G(8) S(4) [of "Suc e"] that by simp
  ultimately show ?case using run S(1-3) G(1,5-7) unfolding stored_def by fastforce
qed

end
