(* ===== verification/IndexProps.thy ===== *)
theory IndexProps imports BTreeSpec begin

text \<open>
  The whole B+ tree: the invariant \<open>tree_ok\<close> of a tree reached from \<open>NewBTree\<close> by insertions,
  its content as a map, and the properties of \<open>Insert\<close> and \<open>Search\<close> as a client sees them.
\<close>

definition key_min :: int where "key_min = - (2 ^ 63)"
definition key_max :: int where "key_max = 2 ^ 63 - 1"

lemma key_range: "key_min \<le> sint (k :: i64)" "sint (k :: i64) \<le> key_max"
  using sint_greater_eq [of k] sint_less [of k] by (simp_all add: key_min_def key_max_def)

text \<open>Every node is cached, the tree is well formed, no page is shared and all of them are allocated.\<close>

definition tree_ok :: "nat \<Rightarrow> BTree \<Rightarrow> bool" where
  "tree_ok h bt \<longleftrightarrow> shape h (bt_nodePool bt) key_min key_max (bt_Root bt)
     \<and> distinct (pages h (bt_nodePool bt) (bt_Root bt))
     \<and> (\<forall>q \<in> set (pages h (bt_nodePool bt) (bt_Root bt)). unat q < page_count bt)"

definition content :: "nat \<Rightarrow> BTree \<Rightarrow> i64 \<Rightarrow> byte list option" where
  "content h bt = find h (bt_nodePool bt) (bt_Root bt)"

text \<open>A key that is a separator on the path an insertion of it takes.\<close>

definition separator :: "nat \<Rightarrow> BTree \<Rightarrow> i64 \<Rightarrow> bool" where
  "separator h bt = sep h (bt_nodePool bt) (bt_Root bt)"

lemma shape_root: "shape h P lo hi p \<Longrightarrow> p \<noteq> 0"
  by (cases h) auto

lemma Search_content:
  assumes "tree_ok h bt" "h < fuel"
  shows "BTree_Search fuel x bt = (Ok (content h bt x), bt)"
  using searchRecursive_find assms unfolding tree_ok_def BTree_Search_def content_def by blast

lemma NewBTree_tree_ok:
  assumes "\<forall>q. \<not> dm_wfail disk q" "1 \<le> unat (dm_pageCount disk)" "unat (dm_pageCount disk) + Suc d < 2 ^ 51"
  shows "\<exists>bt. NewBTree disk = (Ok (), bt) \<and> tree_ok 0 bt \<and> content 0 bt = (\<lambda>_. None) \<and> writable d bt"
proof -
  let ?bt = "\<lparr>bt_Root = 0, bt_Disk = disk, bt_nodePool = (\<lambda>_. None)\<rparr>"
  have w: "writable (Suc d) ?bt" using assms by (simp add: writable_def)
  obtain q bt1 where a: "BTree_AllocatePage ?bt = (q, bt1)" "q \<noteq> 0" "unat q = page_count ?bt" "page_count bt1 = Suc (page_count ?bt)"
      "writable d bt1" "bt_Root bt1 = 0"
    using allocate [OF w] w by auto
  let ?n = "NewNode q LeafNode"
  have fit: "length (node_payload ?n) \<le> PageSize"
    by (rule leaf_payload [of key_min key_max q]) (simp_all add: leaf_node_def NewNode_def leaf_ok_def increasing_def MaxKeys_def)
  have id: "nd_PageID ?n = q" by (simp add: NewNode_def)
  have q: "unat (nd_PageID ?n) < page_count bt1" using a(3,4) id by simp
  obtain bt2 where s: "BTree_trySave ?n bt1 = (Ok (), bt2)" "saved ?n bt1 bt2" using trySave_saves [OF fit a(5) q] by blast
  have P: "bt_nodePool bt2 = (bt_nodePool bt1)(q \<mapsto> ?n)" "page_count bt2 = page_count bt1" "writable d bt2"
    using s(2) a(5) id by (simp_all add: saved_def)
  let ?bt = "bt2\<lparr>bt_Root := q\<rparr>"
  have leaf: "leaf_node key_min key_max q ?n" by (simp add: leaf_node_def leaf_ok_def NewNode_def increasing_def)
  have "tree_ok 0 ?bt" using a(2-4) P leaf by (simp add: tree_ok_def NewNode_def MaxKeys_def)
  moreover have "content 0 ?bt = (\<lambda>_. None)" using P by (simp add: content_def NewNode_def leaf_map_def)
  moreover have "writable d ?bt" using P(3) by (simp add: writable_def)
  moreover have "NewBTree disk = (Ok (), ?bt)" using a(1) s(1) by (simp add: NewBTree_def)
  ultimately show ?thesis by blast
qed

text \<open>A new root over the two halves of a split root.\<close>

lemma new_root:
  assumes ok: "pages_ok h p np bt0 bt" "holds h key_min key_max p np sk F (bt_nodePool bt)" "np \<noteq> 0" "p = bt_Root bt"
    and old: "\<forall>q \<in> set (pages h (bt_nodePool bt0) p). unat q < page_count bt" "page_count bt0 \<le> page_count bt"
    and w: "writable (Suc d) bt"
  shows "\<exists>bt'. (let (r, bt2) = BTree_AllocatePage bt; root = (NewNode r InternalNode)\<lparr>nd_Keys := [sk], nd_Children := [bt_Root bt2, np]\<rparr>
      in BTree_trySave root (bt2\<lparr>bt_Root := r\<rparr>)) = (Ok (), bt')
    \<and> tree_ok (Suc h) bt' \<and> content (Suc h) bt' = F \<and> writable d bt'"
proof -
  let ?P = "bt_nodePool bt"
  obtain r bt2 where a: "BTree_AllocatePage bt = (r, bt2)" "r \<noteq> 0" "unat r = page_count bt" "page_count bt2 = Suc (page_count bt)"
      "writable d bt2" "bt_Root bt2 = p" "bt_nodePool bt2 = ?P"
    using allocate [OF w] w ok(4) by auto
  define root where "root = (NewNode r InternalNode)\<lparr>nd_Keys := [sk], nd_Children := [p, np]\<rparr>"
  have R: "nd_PageID root = r" "nd_Type root = InternalNode" "nd_Keys root = [sk]" "nd_Children root = [p, np]"
    by (simp_all add: root_def NewNode_def)
  have w2: "writable d (bt2\<lparr>bt_Root := r\<rparr>)" using a(5) by (simp add: writable_def)
  have few: "length (nd_Keys root) < MaxKeys" by (simp add: R MaxKeys_def)
  have fit: "length (node_payload root) \<le> PageSize" by (rule inner_payload) (simp_all add: R MaxKeys_def)
  have "unat (nd_PageID root) < page_count (bt2\<lparr>bt_Root := r\<rparr>)" using a(3,4) R by simp
  from trySave_saves [OF fit w2 this] obtain bt' where s: "BTree_trySave root (bt2\<lparr>bt_Root := r\<rparr>) = (Ok (), bt')"
      "saved root (bt2\<lparr>bt_Root := r\<rparr>) bt'" by blast
  have P': "bt_nodePool bt' = ?P(r \<mapsto> root)" "bt_Root bt' = r" "page_count bt' = Suc (page_count bt)" "writable d bt'"
    using s(2) a(4,7) R w2 by (simp_all add: saved_def)
  have H: "key_min < sint sk" "sint sk < key_max" "shape h ?P key_min (sint sk) p" "shape h ?P (sint sk) key_max np"
      "\<And>x. (if sint x < sint sk then find h ?P p x else find h ?P np x) = F x"
    using ok(2,3) by (simp_all add: holds_def)
  have D: "distinct (below h ?P [p, np])" "\<forall>q \<in> set (below h ?P [p, np]). unat q < page_count bt"
    using ok(1,3) old unfolding pages_ok_def by auto
  have ch: "chain (shape h ?P) key_min key_max (nd_Keys root) (nd_Children root)" using H by (simp add: R)
  have fresh: "r \<notin> set (below h ?P [p, np])" using bspec [OF D(2), of r] a(3) by auto
  have same: "\<forall>q \<in> set (below h ?P (nd_Children root)). bt_nodePool bt' q = ?P q" using P'(1) R(4) fresh by auto
  have top: "bt_nodePool bt' r = Some root" using P' by simp
  note T = node_tree [OF top R(1,2) few a(2) ch same]
  have "\<forall>q \<in> set (r # below h ?P [p, np]). unat q < page_count bt'" using D(2) a(3) P'(3) by (auto intro: less_SucI)
  moreover have "distinct (r # below h ?P [p, np])" using D(1) fresh by (simp only: distinct.simps(2) simp_thms)
  ultimately have "tree_ok (Suc h) bt'" using T(1,2) P'(2) by (simp add: tree_ok_def R del: shape.simps pages.simps)
  moreover have "content (Suc h) bt' = F" using T(3) P'(2) H(5) by (simp add: content_def R fun_eq_iff del: find.simps split: if_splits) presburger
  ultimately show ?thesis using a(1,6) s(1) P'(4) by (auto simp: root_def)
qed

lemma Insert_put:
  assumes ok: "tree_ok h bt" and w: "writable (d + Suc (Suc h)) bt" and v: "length v \<le> 10" and fuel: "h < fuel"
  shows "\<exists>bt' h'. BTree_Insert fuel k v bt = (Ok (), bt') \<and> h' \<le> Suc h \<and> tree_ok h' bt'
    \<and> content h' bt' = put (content h bt) (separator h bt k) k v \<and> writable d bt'"
proof -
  let ?p = "bt_Root bt" and ?P = "bt_nodePool bt"
  let ?F = "put (find h ?P ?p) (sep h ?P ?p k) k v"
  have t: "shape h ?P key_min key_max ?p" "distinct (pages h ?P ?p)" "\<forall>q \<in> set (pages h ?P ?p). unat q < page_count bt"
    using ok by (simp_all add: tree_ok_def)
  have w1: "writable (Suc d + Suc h) bt" using w by simp
  obtain np sk bt1 where r: "BTree_insertRecursive fuel ?p k v bt = (Ok (np, sk), bt1)" "stored h key_min key_max ?p ?F bt bt1 np sk"
    using insertRecursive_stores [OF t w1 key_range v fuel] by blast
  have S: "bt_Root bt1 = ?p" "page_count bt \<le> page_count bt1" "writable (Suc d) bt1" "pages_ok h ?p np bt bt1"
      "holds h key_min key_max ?p np sk ?F (bt_nodePool bt1)"
    using r(2) w1 unfolding stored_def by blast+
  have root: "?p \<noteq> 0" by (rule shape_root [OF t(1)])
  have run: "BTree_Insert fuel k v bt = (if np \<noteq> 0 then
      let (q, bt2) = BTree_AllocatePage bt1; rt = (NewNode q InternalNode)\<lparr>nd_Keys := [sk], nd_Children := [bt_Root bt2, np]\<rparr>
      in BTree_trySave rt (bt2\<lparr>bt_Root := q\<rparr>) else (Ok (), bt1))"
    using root r(1) by (simp add: BTree_Insert_def)
  show ?thesis
  proof (cases "np = 0")
    case True
    then have "tree_ok h bt1" "content h bt1 = ?F" "writable d bt1"
      using S(1,4,5) S(2) t(3) writable_less [OF S(3)] unfolding tree_ok_def holds_def pages_ok_def content_def
      by (fastforce intro: order_less_le_trans)+
    then show ?thesis using run True unfolding content_def separator_def by (metis le_Suc_eq order_refl)
  next
    case False
    have old: "\<forall>q \<in> set (pages h ?P ?p). unat q < page_count bt1" using t(3) S(2) by (auto intro: order_less_le_trans)
    from new_root [OF S(4,5) False S(1) [symmetric] old S(2,3)] show ?thesis
      using run False unfolding content_def separator_def by (metis order_refl)
  qed
qed

section \<open>A node is not read back from its page\<close>

lemma header_of_leaf:
  assumes "nd_Type n = LeafNode" "nd_Keys n \<noteq> []" "length (node_payload n) \<le> PageSize"
  shows "256 \<le> unat (get64 (slice 0 8 (node_payload n @ pad)))"
proof -
  let ?k = "length (nd_Keys n)"
  have "8 * ?k < PageSize" using assms(3) by (simp add: node_payload_def)
  then have k: "unat (word_of_nat ?k :: u16) = ?k" "?k < 512" by (simp_all add: layout unat_of_nat)
  define rest where "rest = take 5 (put64 (nd_Next n))"
  have rest: "length rest = 5" by (simp add: rest_def)
  have "slice 0 8 (node_payload n @ pad) = 1 # put16 (word_of_nat ?k) @ rest"
    using assms(1) by (simp add: node_payload_def slice_def rest_def)
  moreover have "le_nat (put16 (word_of_nat ?k)) = ?k" using k by (simp add: put16_def le_nat_bytes)
  ultimately have "256 \<le> le_nat (slice 0 8 (node_payload n @ pad))"
    using assms(2) by (cases "nd_Keys n") (simp_all add: le_nat_append)
  moreover have "le_nat (slice 0 8 (node_payload n @ pad)) < 2 ^ 64"
    using le_nat_bound [of "slice 0 8 (node_payload n @ pad)"] by (simp add: node_payload_def)
  ultimately show ?thesis by (simp add: get64_def unat_of_nat)
qed

lemma le_bytes_0: "le_bytes n 0 = replicate n 0"
  by (induction n) simp_all

lemma le_bytes_small: "x < 256 \<Longrightarrow> le_bytes (Suc n) x = word_of_nat x # replicate n 0"
  by (simp add: le_bytes_0)

lemma NewPage_as_node:
  assumes "unat p < 256" "p \<noteq> 0"
  shows "\<exists>m. DeserializeNode (pg_Data (NewPage p)) p = Ok m \<and> nd_Keys m = [] \<and> nd_Values m = []"
proof -
  let ?D = "pg_Data (NewPage p)"
  have "get64 (slice 0 8 ?D) = p" using ReadHeader_NewPage [of p] by (simp add: Page_ReadHeader_def)
  then have "put64 (get64 (slice 0 8 ?D)) = le_bytes (Suc 7) (unat p)" by (simp add: put64_def)
  moreover have "length (slice 0 8 ?D) = 8" by (simp add: layout)
  then have "put64 (get64 (slice 0 8 ?D)) = slice 0 8 ?D"
    using le_bytes_nat [of "slice 0 8 ?D"] le_nat_bound [of "slice 0 8 ?D"] by (simp add: put64_def get64_def unat_of_nat)
  ultimately have h: "slice 0 8 ?D = word_of_nat (unat p) # replicate 7 0"
    using le_bytes_small [OF assms(1), of 7] by simp
  have "?D ! 0 = slice 0 8 ?D ! 0" by (simp add: slice_def)
  then have t: "?D ! 0 = word_of_nat (unat p)" using h by simp
  have "slice 1 3 ?D = slice 1 3 (slice 0 8 ?D)" by (simp add: slice_def take_drop)
  then have "slice 1 3 ?D = [0, 0]" unfolding h by (simp add: slice_def numeral_eq_Suc)
  then have k: "get16 (slice 1 3 ?D) = 0" by (simp add: get16_def)
  have "unat (word_of_nat (unat p) :: byte) = unat p" using assms(1) by (simp only: unat_of_nat) simp
  then have "(word_of_nat (unat p) :: byte) \<noteq> 0" using assms(2) by (metis unat_0 unat_eq_zero)
  then have "byte_type (?D ! 0) \<noteq> InternalNode" using t by (simp add: byte_type_def)
  then show ?thesis using k by (simp add: DeserializeNode_def Let_def layout)
qed

section \<open>The properties\<close>

text \<open>C7: Insert followed by Search: inserting a value of at most 10 bytes (the encoding of a row
  identifier) into a well-formed tree on a writable file succeeds and keeps the tree well formed, one
  level higher at most; afterwards Search finds the value under its key and what it found before under
  every other key. The exception is a key that is a separator on its own path: the new value
  is stored where Search does not look, so Search still gives the old answer.\<close>

theorem insert_then_search:
  assumes "tree_ok h bt" "writable (d + h + 2) bt" "length v \<le> 10" "h < fuel"
  shows "\<exists>bt' h'. BTree_Insert fuel k v bt = (Ok (), bt') \<and> h' \<le> Suc h \<and> tree_ok h' bt' \<and> writable d bt'
    \<and> (\<forall>x. fst (BTree_Search (Suc h') x bt')
         = (if x = k \<and> \<not> separator h bt k then Ok (Some v) else fst (BTree_Search fuel x bt)))"
proof -
  have w: "writable (d + Suc (Suc h)) bt" using assms(2) by (simp add: add.assoc)
  from Insert_put [OF assms(1) w assms(3,4)] obtain bt' h' where i: "BTree_Insert fuel k v bt = (Ok (), bt')" "h' \<le> Suc h"
      "tree_ok h' bt'" "content h' bt' = put (content h bt) (separator h bt k) k v" "writable d bt'" by blast
  have "fst (BTree_Search (Suc h') x bt') = (if x = k \<and> \<not> separator h bt k then Ok (Some v) else fst (BTree_Search fuel x bt))" for x
    using Search_content [OF i(3), of "Suc h'" x] Search_content [OF assms(1,4), of x] i(4) by (simp add: put_def)
  then show ?thesis using i by blast
qed

text \<open>A node that was saved is not read back from its page. The tree writes nodes without the page
  header, but a page whose first eight bytes are not its number is read as a fresh empty page: for a leaf
  with keys and no right sibling on one of the first 256 pages, getNode without the cache succeeds and returns a node without any key.\<close>

theorem saved_leaf_reads_back_empty:
  assumes "nd_Type n = LeafNode" "nd_Keys n \<noteq> []" "length (node_payload n) \<le> PageSize"
    and "writable d bt" "\<forall>q. \<not> dm_rfail (bt_Disk bt) q" "unat (nd_PageID n) < min 256 (page_count bt)" "nd_PageID n \<noteq> 0"
  shows "\<exists>bt' m bt2. BTree_saveNode n bt = (Ok (), bt')
    \<and> BTree_getNode (nd_PageID n) (bt'\<lparr>bt_nodePool := (\<lambda>_. None)\<rparr>) = (Ok m, bt2) \<and> nd_Keys m = [] \<and> nd_Values m = []"
proof -
  let ?p = "nd_PageID n" and ?data = "node_payload n @ replicate (PageSize - length (node_payload n)) 0"
  have ok: "pid_ok ?p" using assms(4,6) by (simp add: writable_def pid_ok_def)
  have s: "\<not> sint (page_offset ?p) < 0" by (rule page_offset_nonneg [OF ok])
  have le: "\<not> dm_pageCount (bt_Disk bt) \<le> ?p" using assms(6) by (simp add: word_le_nat_alt)
  have len: "length ?data = PageSize" using assms(3) by simp
  let ?d = "(bt_Disk bt)\<lparr>dm_file := write_at (unat (page_offset ?p)) ?data (dm_file (bt_Disk bt))\<rparr>"
  have sv: "BTree_saveNode n bt = (Ok (), bt\<lparr>bt_Disk := ?d, bt_nodePool := (bt_nodePool bt)(?p \<mapsto> n)\<rparr>)"
    using Serialize_payload [OF assms(3)] assms(4) s le len
    by (auto simp: BTree_saveNode_def Adapter_WritePage_def DiskManager_WritePage_def Let_def writable_def overwrite_def)
  have "get64 (slice 0 8 ?data) \<noteq> ?p" 
    using header_of_leaf [OF assms(1-3), of "replicate (PageSize - length (node_payload n)) 0"] assms(6) by (metis min.bounded_iff min_less_iff_conj not_le)
  then have "DiskManager_ReadPage ?p ?d = Ok (NewPage ?p)"
    using s assms(5) len read_write_same [OF len] by (auto simp: DiskManager_ReadPage_def Let_def Page_ReadHeader_def)
  then show ?thesis
    using sv NewPage_as_node [of ?p] assms(6,7) by (auto simp: BTree_getNode_def Adapter_ReadPage_def)
qed

text \<open>A tree of two leaves under a root with the separator 5, which is also a key.\<close>

definition two_leaf_tree :: BTree where
  "two_leaf_tree = \<lparr>bt_Root = 3, bt_Disk = (NewDiskManager [] (\<lambda>_. False) (\<lambda>_. False))\<lparr>dm_pageCount := 4\<rparr>,
     bt_nodePool = [1 \<mapsto> (NewNode 1 LeafNode)\<lparr>nd_Keys := [1], nd_Values := [[10]], nd_Next := 2\<rparr>,
                    2 \<mapsto> (NewNode 2 LeafNode)\<lparr>nd_Keys := [5], nd_Values := [[50]]\<rparr>,
                    3 \<mapsto> (NewNode 3 InternalNode)\<lparr>nd_Keys := [5], nd_Children := [1, 2]\<rparr>]\<rparr>"

lemma two_leaf_tree_facts:
  "tree_ok 1 two_leaf_tree" "writable (0 + 1 + 2) two_leaf_tree" "separator 1 two_leaf_tree 5" "\<not> separator 1 two_leaf_tree 7"
  "content 1 two_leaf_tree 5 = Some [50]"
  by (simp_all add: tree_ok_def writable_def separator_def content_def two_leaf_tree_def NewNode_def NewDiskManager_def
      leaf_node_def leaf_ok_def leaf_map_def increasing_def MaxKeys_def key_min_def key_max_def)

text \<open>A fresh key is found again; the key 5, a separator, keeps its old value 50.\<close>

theorem insert_then_search_witness:
  "(\<exists>bt' h'. BTree_Insert 2 7 [70] two_leaf_tree = (Ok (), bt') \<and> fst (BTree_Search (Suc h') 7 bt') = Ok (Some [70]))
    \<and> (\<exists>bt' h'. BTree_Insert 2 5 [99] two_leaf_tree = (Ok (), bt') \<and> fst (BTree_Search (Suc h') 5 bt') = Ok (Some [50]))"
proof -
  have "fst (BTree_Search 2 5 two_leaf_tree) = Ok (Some [50])"
    using Search_content [OF two_leaf_tree_facts(1), of 2 5] two_leaf_tree_facts(5) by simp
  moreover obtain b1 h1 where "BTree_Insert 2 7 [70] two_leaf_tree = (Ok (), b1)" "\<forall>x. fst (BTree_Search (Suc h1) x b1)
      = (if x = 7 \<and> \<not> separator 1 two_leaf_tree 7 then Ok (Some [70]) else fst (BTree_Search 2 x two_leaf_tree))"
    using insert_then_search [OF two_leaf_tree_facts(1,2), of "[70]" 2 7] by auto
  moreover from this(2) [rule_format, of 7] have "fst (BTree_Search (Suc h1) 7 b1) = Ok (Some [70])"
    using two_leaf_tree_facts(4) by simp
  moreover obtain b2 h2 where "BTree_Insert 2 5 [99] two_leaf_tree = (Ok (), b2)" "\<forall>x. fst (BTree_Search (Suc h2) x b2)
      = (if x = 5 \<and> \<not> separator 1 two_leaf_tree 5 then Ok (Some [99]) else fst (BTree_Search 2 x two_leaf_tree))"
    using insert_then_search [OF two_leaf_tree_facts(1,2), of "[99]" 2 5] by auto
  moreover from this(2) [rule_format, of 5] have "fst (BTree_Search (Suc h2) 5 b2) = fst (BTree_Search 2 5 two_leaf_tree)"
    using two_leaf_tree_facts(3) by simp
  ultimately show ?thesis by metis
qed

theorem saved_leaf_reads_back_empty_witness:
  "\<exists>bt' m bt2. BTree_saveNode ((NewNode 2 LeafNode)\<lparr>nd_Keys := [5], nd_Values := [[50]]\<rparr>) two_leaf_tree = (Ok (), bt')
    \<and> BTree_getNode 2 (bt'\<lparr>bt_nodePool := (\<lambda>_. None)\<rparr>) = (Ok m, bt2) \<and> nd_Keys m = []"
proof -
  have "\<forall>q. \<not> dm_rfail (bt_Disk two_leaf_tree) q" "page_count two_leaf_tree = 4"
    by (simp_all add: two_leaf_tree_def NewDiskManager_def)
  then show ?thesis
    using saved_leaf_reads_back_empty [of "(NewNode 2 LeafNode)\<lparr>nd_Keys := [5], nd_Values := [[50]]\<rparr>" _ two_leaf_tree, OF _ _ _ two_leaf_tree_facts(2)]
    by (simp add: NewNode_def node_payload_def Node_IsLeaf_def values_bytes_def layout) blast
qed

end
