(* ===== verification/GraphStore.thy ===== *)
theory GraphStore imports Disk GoLib begin

text \<open>
  \<^verbatim>\<open>pkg/graph/node.go\<close>, \<^verbatim>\<open>edge.go\<close> and \<^verbatim>\<open>store.go\<close>: nodes and edges of the code graph, and the
  page store that SaveToDisk fills and Load reads. A page of the store is marshalled to JSON
  behind the page header. The JSON codec of the standard library is the record \<open>gjson\<close>, a
  parameter; the matching of object keys with struct fields is written out. The store's
  two Go maps of pages are lists in the order of creation; a Go map has no order, but at most
  one page has room (\<open>PutNode_one_room\<close>), so the search in \<^verbatim>\<open>getOrCreateNodePage\<close> does not depend on it.
\<close>

section \<open>Nodes and edges\<close>

text \<open>The dynamic types the code stores in properties, and those JSON adds.\<close>

datatype pval = PNil | PString string | PInt i64 | PUint32 u32 | PBool bool | PFloat u64

fun fmt_prop :: "flt \<Rightarrow> pval \<Rightarrow> string" where
  "fmt_prop fl PNil = ''<nil>''"
| "fmt_prop fl (PString s) = s"
| "fmt_prop fl (PInt i) = dec_int (sint i)"
| "fmt_prop fl (PUint32 u) = dec_nat (unat u)"
| "fmt_prop fl (PBool b) = (if b then ''true'' else ''false'')"
| "fmt_prop fl (PFloat f) = f_fmt fl f"

type_synonym props = "string \<Rightarrow> pval option"

record GNode =
  gn_ID :: i64
  gn_Labels :: "string list"
  gn_Props :: props

definition NewGNode :: "i64 \<Rightarrow> string list \<Rightarrow> props option \<Rightarrow> GNode" where
  "NewGNode nid labels ps = \<lparr>gn_ID = nid, gn_Labels = labels, gn_Props = (case ps of None \<Rightarrow> Map.empty | Some m \<Rightarrow> m)\<rparr>"

fun HasLabel_in :: "string list \<Rightarrow> string \<Rightarrow> bool" where
  "HasLabel_in [] label = False"
| "HasLabel_in (l # ls) label = (if l = label then True else HasLabel_in ls label)"

definition HasLabel :: "GNode \<Rightarrow> string \<Rightarrow> bool" where
  "HasLabel n label = HasLabel_in (gn_Labels n) label"

definition GetProp :: "GNode \<Rightarrow> string \<Rightarrow> pval option" where
  "GetProp n name = gn_Props n name"

text \<open>\<^verbatim>\<open>val, _ := n.GetProp(name)\<close>: a missing property is the nil interface.\<close>

definition prop_or_nil :: "GNode \<Rightarrow> string \<Rightarrow> pval" where
  "prop_or_nil n name = (case GetProp n name of None \<Rightarrow> PNil | Some v \<Rightarrow> v)"

record GEdge =
  ge_ID :: i64
  ge_Type :: string
  ge_From :: i64
  ge_To :: i64
  ge_Props :: "props option"

definition NewGEdge :: "i64 \<Rightarrow> string \<Rightarrow> i64 \<Rightarrow> i64 \<Rightarrow> GEdge" where
  "NewGEdge eid edgeType fromID toID = \<lparr>ge_ID = eid, ge_Type = edgeType, ge_From = fromID, ge_To = toID, ge_Props = None\<rparr>"

section \<open>Errors and the JSON parameter\<close>

datatype graph_err =
    NodeNotFound i64
  | EdgeNotFound i64
  | SourceNotFound i64
  | TargetNotFound i64
  | CallNotFound i64
  | CallHasNoName i64
  | FunctionNotFound string
  | MarshalFailed
  | GDisk storage_err

datatype jval = JString string | JNumber int | JOther

text \<open>
  \<open>js_nodes\<close> and \<open>js_edges\<close> marshal a page, \<open>None\<close> being an error; \<open>js_get_nodes\<close> and
  \<open>js_get_edges\<close> are what Unmarshal leaves in the slice, its error dropped (a JSON null is a
  nil pointer); \<open>js_obj\<close> and \<open>js_get_obj\<close> marshal and parse an object.
\<close>

record gjson =
  js_nodes :: "GNode list \<Rightarrow> byte list option"
  js_edges :: "GEdge list \<Rightarrow> byte list option"
  js_get_nodes :: "byte list \<Rightarrow> GNode option list"
  js_get_edges :: "byte list \<Rightarrow> GEdge option list"
  js_obj :: "(string \<times> jval) list \<Rightarrow> byte list"
  js_get_obj :: "byte list \<Rightarrow> (string \<times> jval) list option"

section \<open>The store\<close>

definition NodeStoreStart :: u64 where "NodeStoreStart = 1"
definition EdgeStoreStart :: u64 where "EdgeStoreStart = 1000"
definition MaxNodesPerPage :: nat where "MaxNodesPerPage = 50"
definition GraphPageSize :: nat where "GraphPageSize = 4096"

record NodePage =
  np_PageID :: u64
  np_Nodes :: "GNode list"
  np_Dirty :: bool

record EdgePage =
  ep_PageID :: u64
  ep_Edges :: "GEdge list"
  ep_Dirty :: bool

record GraphStore =
  gs_Disk :: DiskManager
  gs_nodePages :: "NodePage list"
  gs_edgePages :: "EdgePage list"
  gs_nextNodePage :: u64
  gs_nextEdgePage :: u64

definition NewGraphStore :: "DiskManager \<Rightarrow> GraphStore" where
  "NewGraphStore disk = \<lparr>gs_Disk = disk, gs_nodePages = [], gs_edgePages = [],
     gs_nextNodePage = NodeStoreStart, gs_nextEdgePage = EdgeStoreStart\<rparr>"

text \<open>The assignment \<open>m[k(x)] = x\<close> to a Go map kept as a list.\<close>

fun map_put :: "('a \<Rightarrow> u64) \<Rightarrow> 'a \<Rightarrow> 'a list \<Rightarrow> 'a list" where
  "map_put key x [] = [x]"
| "map_put key x (y # ys) = (if key y = key x then x # ys else y # map_put key x ys)"

definition np_add :: "GNode \<Rightarrow> NodePage \<Rightarrow> NodePage" where
  "np_add node p = p\<lparr>np_Nodes := np_Nodes p @ [node], np_Dirty := True\<rparr>"

text \<open>The first page with room takes the node.\<close>

fun put_in_room :: "GNode \<Rightarrow> NodePage list \<Rightarrow> NodePage list option" where
  "put_in_room node [] = None"
| "put_in_room node (p # ps) =
     (if length (np_Nodes p) < MaxNodesPerPage then Some (np_add node p # ps)
      else map_option (\<lambda>ps'. p # ps') (put_in_room node ps))"

text \<open>A new page for the node, when no page has room.\<close>

definition new_node_page :: "GNode \<Rightarrow> GraphStore \<Rightarrow> GraphStore" where
  "new_node_page node s = s\<lparr>gs_nextNodePage := gs_nextNodePage s + 1,
     gs_nodePages := map_put np_PageID
       (np_add node \<lparr>np_PageID = gs_nextNodePage s, np_Nodes = [], np_Dirty = False\<rparr>) (gs_nodePages s)\<rparr>"

definition GraphStore_PutNode :: "GNode \<Rightarrow> GraphStore \<Rightarrow> GraphStore" where
  "GraphStore_PutNode node s =
     (case put_in_room node (gs_nodePages s) of
        Some ps \<Rightarrow> s\<lparr>gs_nodePages := ps\<rparr>
      | None \<Rightarrow> new_node_page node s)"

text \<open>\<^verbatim>\<open>getOrCreateEdgePage\<close> opens a new page for every edge.\<close>

definition GraphStore_PutEdge :: "GEdge \<Rightarrow> GraphStore \<Rightarrow> GraphStore" where
  "GraphStore_PutEdge edge s =
     s\<lparr>gs_nextEdgePage := gs_nextEdgePage s + 1,
       gs_edgePages := map_put ep_PageID
         \<lparr>ep_PageID = gs_nextEdgePage s, ep_Edges = [edge], ep_Dirty = True\<rparr> (gs_edgePages s)\<rparr>"

definition meta_offset :: nat where "meta_offset = HeaderSize + 24"

text \<open>A page with a length and as many bytes of the text as fit at offset 48.\<close>

definition text_page :: "u64 \<Rightarrow> byte list \<Rightarrow> page" where
  "text_page pid data =
     (let p = NewPage pid;
          d1 = overwrite meta_offset (put32 (word_of_nat (length data))) (pg_Data p);
          d2 = overwrite (meta_offset + 4) (take (PageSize - (meta_offset + 4)) data) d1
      in p\<lparr>pg_Data := d2, pg_Dirty := True\<rparr>)"

definition write_graph_page :: "page \<Rightarrow> DiskManager \<Rightarrow> (graph_err, unit) outcome \<times> DiskManager" where
  "write_graph_page p d = (case DiskManager_WritePage p d of (r, _, d') \<Rightarrow> (map_err GDisk r, d'))"

fun flush_nodes :: "gjson \<Rightarrow> NodePage list \<Rightarrow> DiskManager \<Rightarrow> (graph_err, unit) outcome \<times> NodePage list \<times> DiskManager" where
  "flush_nodes js [] d = (Ok (), [], d)"
| "flush_nodes js (p # ps) d =
     (if \<not> np_Dirty p then (case flush_nodes js ps d of (r, ps', d') \<Rightarrow> (r, p # ps', d'))
      else case js_nodes js (np_Nodes p) of
        None \<Rightarrow> (Err MarshalFailed, p # ps, d)
      | Some data \<Rightarrow>
          (case write_graph_page (text_page (np_PageID p) data) d of
             (Ok _, d1) \<Rightarrow> (case flush_nodes js ps d1 of (r, ps', d') \<Rightarrow> (r, p\<lparr>np_Dirty := False\<rparr> # ps', d'))
           | (r, d1) \<Rightarrow> (r, p\<lparr>np_Dirty := False\<rparr> # ps, d1)))"

fun flush_edges :: "gjson \<Rightarrow> EdgePage list \<Rightarrow> DiskManager \<Rightarrow> (graph_err, unit) outcome \<times> EdgePage list \<times> DiskManager" where
  "flush_edges js [] d = (Ok (), [], d)"
| "flush_edges js (p # ps) d =
     (if \<not> ep_Dirty p then (case flush_edges js ps d of (r, ps', d') \<Rightarrow> (r, p # ps', d'))
      else case js_edges js (ep_Edges p) of
        None \<Rightarrow> (Err MarshalFailed, p # ps, d)
      | Some data \<Rightarrow>
          (case write_graph_page (text_page (ep_PageID p) data) d of
             (Ok _, d1) \<Rightarrow> (case flush_edges js ps d1 of (r, ps', d') \<Rightarrow> (r, p\<lparr>ep_Dirty := False\<rparr> # ps', d'))
           | (r, d1) \<Rightarrow> (r, p\<lparr>ep_Dirty := False\<rparr> # ps, d1)))"

definition GraphStore_Flush :: "gjson \<Rightarrow> GraphStore \<Rightarrow> (graph_err, unit) outcome \<times> GraphStore" where
  "GraphStore_Flush js s =
     (case flush_nodes js (gs_nodePages s) (gs_Disk s) of
        (Ok _, nps, d1) \<Rightarrow>
          (case flush_edges js (gs_edgePages s) d1 of
             (r, eps, d2) \<Rightarrow> (r, s\<lparr>gs_nodePages := nps, gs_edgePages := eps, gs_Disk := d2\<rparr>))
      | (r, nps, d1) \<Rightarrow> (r, s\<lparr>gs_nodePages := nps, gs_Disk := d1\<rparr>))"

section \<open>Reading the store\<close>

text \<open>The window that \<^verbatim>\<open>GetAllNodes\<close> hands to Unmarshal: length at offset 0, text at offset 4.\<close>

definition read_window :: "page \<Rightarrow> byte list option" where
  "read_window p =
     (let len = get32 (slice 0 4 (pg_Data p)) in
      if len = 0 \<or> unat len > GraphPageSize - 4 then None
      else let e = 4 + unat len; e' = (if e > GraphPageSize then GraphPageSize else e)
           in Some (slice 4 e' (pg_Data p)))"

fun read_pages :: "(byte list \<Rightarrow> 'a list) \<Rightarrow> u64 list \<Rightarrow> DiskManager \<Rightarrow> 'a list" where
  "read_pages parse [] d = []"
| "read_pages parse (pid # pids) d =
     (case DiskManager_ReadPage pid d of
        Ok p \<Rightarrow> (case read_window p of None \<Rightarrow> [] | Some w \<Rightarrow> parse w) @ read_pages parse pids d
      | _ \<Rightarrow> [])"

definition page_range :: "u64 \<Rightarrow> u64 \<Rightarrow> u64 list" where
  "page_range a b = map word_of_nat [unat a ..< unat b]"

definition GetAllNodes :: "gjson \<Rightarrow> GraphStore \<Rightarrow> GNode option list" where
  "GetAllNodes js s = read_pages (js_get_nodes js) (page_range NodeStoreStart (gs_nextNodePage s)) (gs_Disk s)"

definition GetAllEdges :: "gjson \<Rightarrow> GraphStore \<Rightarrow> GEdge option list" where
  "GetAllEdges js s = read_pages (js_get_edges js) (page_range EdgeStoreStart (gs_nextEdgePage s)) (gs_Disk s)"

section \<open>Metadata\<close>

text \<open>
  Unmarshal into a struct without tags: an object key sets the field whose name it equals up to
  case; a value of another type, or out of the field's range, leaves the field.
\<close>

fun field_string :: "string \<Rightarrow> (string \<times> jval) list \<Rightarrow> string \<Rightarrow> string" where
  "field_string f [] s = s"
| "field_string f ((k, v) # kvs) s = field_string f kvs
     (if EqualFold k f then (case v of JString t \<Rightarrow> t | _ \<Rightarrow> s) else s)"

fun field_num :: "int \<Rightarrow> int \<Rightarrow> string \<Rightarrow> (string \<times> jval) list \<Rightarrow> u64 \<Rightarrow> u64" where
  "field_num lo hi f [] x = x"
| "field_num lo hi f ((k, v) # kvs) x = field_num lo hi f kvs
     (if EqualFold k f then (case v of JNumber i \<Rightarrow> if lo \<le> i \<and> i \<le> hi then word_of_int i else x | _ \<Rightarrow> x) else x)"

definition field_int64 :: "string \<Rightarrow> (string \<times> jval) list \<Rightarrow> i64" where
  "field_int64 f o' = field_num (- (2 ^ 63)) (2 ^ 63 - 1) f o' 0"

definition field_uint64 :: "string \<Rightarrow> (string \<times> jval) list \<Rightarrow> u64" where
  "field_uint64 f o' = field_num 0 (2 ^ 64 - 1) f o' 0"

definition parse_obj :: "gjson \<Rightarrow> byte list \<Rightarrow> (string \<times> jval) list" where
  "parse_obj js bs = (case js_get_obj js bs of None \<Rightarrow> [] | Some kvs \<Rightarrow> kvs)"

definition GraphStore_SaveMeta :: "gjson \<Rightarrow> GraphStore \<Rightarrow> (graph_err, unit) outcome \<times> GraphStore" where
  "GraphStore_SaveMeta js s =
     (let data = js_obj js [(''next_edge_page'', JNumber (uint (gs_nextEdgePage s))), (''next_node_page'', JNumber (uint (gs_nextNodePage s)))];
          p = (NewPage 0)\<lparr>pg_Data := overwrite 0 (take PageSize data) (pg_Data (NewPage 0)), pg_Dirty := True\<rparr>;
          (r, d) = write_graph_page p (gs_Disk s)
      in (r, s\<lparr>gs_Disk := d\<rparr>))"

definition GraphStore_LoadMeta :: "gjson \<Rightarrow> GraphStore \<Rightarrow> (graph_err, unit) outcome \<times> GraphStore" where
  "GraphStore_LoadMeta js s =
     (case DiskManager_ReadPage 0 (gs_Disk s) of
        Ok p \<Rightarrow>
          (let o' = parse_obj js (pg_Data p); n = field_uint64 ''NextNodePage'' o'; e = field_uint64 ''NextEdgePage'' o';
               s1 = (if 0 < n then s\<lparr>gs_nextNodePage := n\<rparr> else s)
           in (Ok (), if 0 < e then s1\<lparr>gs_nextEdgePage := e\<rparr> else s1))
      | r \<Rightarrow> (map_err GDisk (bind_out r (\<lambda>_. Ok ())), s))"

section \<open>At most one page has room\<close>

definition one_room :: "NodePage list \<Rightarrow> bool" where
  "one_room ps \<longleftrightarrow> length (filter (\<lambda>p. length (np_Nodes p) < MaxNodesPerPage) ps) \<le> 1"

lemma put_in_room_None: "put_in_room node ps = None \<longleftrightarrow> filter (\<lambda>p. length (np_Nodes p) < MaxNodesPerPage) ps = []"
  by (induction ps) auto

lemma put_in_room_one:
  "put_in_room node ps = Some ps' \<Longrightarrow>
    length (filter (\<lambda>p. length (np_Nodes p) < MaxNodesPerPage) ps') \<le> length (filter (\<lambda>p. length (np_Nodes p) < MaxNodesPerPage) ps)"
  by (induction ps arbitrary: ps') (auto simp: np_add_def split: if_splits)

lemma map_put_room:
  "length (filter P (map_put key x ps)) \<le> Suc (length (filter P ps))"
  by (induction ps) auto

lemma PutNode_one_room: "one_room (gs_nodePages s) \<Longrightarrow> one_room (gs_nodePages (GraphStore_PutNode node s))"
proof (cases "put_in_room node (gs_nodePages s)")
  case None
  have "filter (\<lambda>p. length (np_Nodes p) < MaxNodesPerPage) (gs_nodePages s) = []" using None put_in_room_None by blast
  then have "one_room (map_put np_PageID x (gs_nodePages s))" for x
    using map_put_room [of "\<lambda>p. length (np_Nodes p) < MaxNodesPerPage" np_PageID x "gs_nodePages s"] by (simp add: one_room_def)
  then show ?thesis using None by (simp add: GraphStore_PutNode_def new_node_page_def)
next
  case (Some ps')
  assume "one_room (gs_nodePages s)"
  then show ?thesis using put_in_room_one [OF Some] Some by (simp add: GraphStore_PutNode_def one_room_def)
qed

end
