(* ===== verification/Graph.thy ===== *)
theory Graph imports GraphStore begin

text \<open>
  \<^verbatim>\<open>pkg/graph/graph.go\<close>: the code graph in memory, its indexes, the resolution of calls, and
  SaveToDisk and Load. A Go map is a function: a map to pointers is partial (nil and absent are
  the same to the code), a map to slices is total with the empty list for an absent key. A
  \<^verbatim>\<open>range\<close> over a map visits its keys in the order the argument \<open>ord\<close> gives. The lock of the
  graph is not modelled: every operation runs alone.
\<close>

section \<open>State\<close>

type_synonym Direction = int

definition DirectionOutgoing :: Direction where "DirectionOutgoing = 2"
definition DirectionIncoming :: Direction where "DirectionIncoming = 3"
definition DirectionBoth :: Direction where "DirectionBoth = 4"
definition NodePageStart :: i64 where "NodePageStart = 1"
definition EdgePageStart :: i64 where "EdgePageStart = 1000"

record Query =
  q_Label :: string
  q_Property :: string
  q_Value :: pval

record Reference =
  rf_ID :: i64
  rf_Source :: i64
  rf_Target :: i64
  rf_Type :: string
  rf_Resolved :: bool

record Graph =
  g_Name :: string
  g_Store :: GraphStore
  g_nextNodeID :: i64
  g_nextEdgeID :: i64
  g_nodeByID :: "i64 \<Rightarrow> GNode option"
  g_edgeByID :: "i64 \<Rightarrow> GEdge option"
  g_nodeByLabel :: "string \<Rightarrow> i64 list"
  g_nodeByProp :: "string \<Rightarrow> string \<Rightarrow> i64 list"
  g_edgeByType :: "string \<Rightarrow> i64 list"
  g_edgeByFrom :: "i64 \<Rightarrow> i64 list"
  g_edgeByTo :: "i64 \<Rightarrow> i64 list"
  g_refByID :: "i64 \<Rightarrow> Reference option"
  g_refBySource :: "i64 \<Rightarrow> i64 list"
  g_refByTarget :: "i64 \<Rightarrow> i64 list"
  g_nextRefID :: i64

type_synonym order = "i64 set \<Rightarrow> i64 list"

definition NewGraph :: "string \<Rightarrow> GraphStore \<Rightarrow> Graph" where
  "NewGraph name s = \<lparr>g_Name = name, g_Store = s, g_nextNodeID = 1, g_nextEdgeID = 1,
     g_nodeByID = Map.empty, g_edgeByID = Map.empty, g_nodeByLabel = (\<lambda>_. []), g_nodeByProp = (\<lambda>_ _. []),
     g_edgeByType = (\<lambda>_. []), g_edgeByFrom = (\<lambda>_. []), g_edgeByTo = (\<lambda>_. []),
     g_refByID = Map.empty, g_refBySource = (\<lambda>_. []), g_refByTarget = (\<lambda>_. []), g_nextRefID = 1\<rparr>"

text \<open>\<^verbatim>\<open>m[k] = append(m[k], x)\<close>\<close>

definition push :: "'k \<Rightarrow> 'a \<Rightarrow> ('k \<Rightarrow> 'a list) \<Rightarrow> ('k \<Rightarrow> 'a list)" where
  "push k x m = m(k := m k @ [x])"

fun push_labels :: "string list \<Rightarrow> i64 \<Rightarrow> (string \<Rightarrow> i64 list) \<Rightarrow> (string \<Rightarrow> i64 list)" where
  "push_labels [] i m = m"
| "push_labels (l # ls) i m = push_labels ls i (push l i m)"

text \<open>The loop over the properties touches a different inner map for every key.\<close>

definition push_props :: "flt \<Rightarrow> props \<Rightarrow> i64 \<Rightarrow> (string \<Rightarrow> string \<Rightarrow> i64 list) \<Rightarrow> (string \<Rightarrow> string \<Rightarrow> i64 list)" where
  "push_props fl ps i m = (\<lambda>key. case ps key of None \<Rightarrow> m key | Some v \<Rightarrow> push (fmt_prop fl v) i (m key))"

definition index_node :: "flt \<Rightarrow> GNode \<Rightarrow> Graph \<Rightarrow> Graph" where
  "index_node fl n g = g\<lparr>g_nodeByID := (g_nodeByID g)(gn_ID n \<mapsto> n),
     g_nodeByLabel := push_labels (gn_Labels n) (gn_ID n) (g_nodeByLabel g),
     g_nodeByProp := push_props fl (gn_Props n) (gn_ID n) (g_nodeByProp g)\<rparr>"

definition index_edge :: "GEdge \<Rightarrow> Graph \<Rightarrow> Graph" where
  "index_edge e g = g\<lparr>g_edgeByID := (g_edgeByID g)(ge_ID e \<mapsto> e),
     g_edgeByType := push (ge_Type e) (ge_ID e) (g_edgeByType g),
     g_edgeByFrom := push (ge_From e) (ge_ID e) (g_edgeByFrom g),
     g_edgeByTo := push (ge_To e) (ge_ID e) (g_edgeByTo g)\<rparr>"

section \<open>Adding\<close>

definition AddNode :: "flt \<Rightarrow> string list \<Rightarrow> props option \<Rightarrow> Graph \<Rightarrow> GNode \<times> Graph" where
  "AddNode fl labels ps g =
     (let n = NewGNode (g_nextNodeID g) labels ps;
          g1 = g\<lparr>g_nextNodeID := g_nextNodeID g + 1, g_Store := GraphStore_PutNode n (g_Store g)\<rparr>
      in (n, index_node fl n g1))"

definition AddEdge :: "string \<Rightarrow> i64 \<Rightarrow> i64 \<Rightarrow> Graph \<Rightarrow> (graph_err, GEdge) outcome \<times> Graph" where
  "AddEdge edgeType fromID toID g =
     (if g_nodeByID g fromID = None then (Err (NodeNotFound fromID), g)
      else if g_nodeByID g toID = None then (Err (NodeNotFound toID), g)
      else let e = NewGEdge (g_nextEdgeID g) edgeType fromID toID
           in (Ok e, index_edge e (g\<lparr>g_nextEdgeID := g_nextEdgeID g + 1\<rparr>)))"

definition AddReference :: "i64 \<Rightarrow> i64 \<Rightarrow> string \<Rightarrow> Graph \<Rightarrow> (graph_err, Reference) outcome \<times> Graph" where
  "AddReference sourceID targetID refType g =
     (if g_nodeByID g sourceID = None then (Err (SourceNotFound sourceID), g)
      else if g_nodeByID g targetID = None then (Err (TargetNotFound targetID), g)
      else let r = \<lparr>rf_ID = g_nextRefID g, rf_Source = sourceID, rf_Target = targetID, rf_Type = refType, rf_Resolved = True\<rparr>
           in (Ok r, g\<lparr>g_nextRefID := g_nextRefID g + 1, g_refByID := (g_refByID g)(rf_ID r \<mapsto> r),
                 g_refBySource := push sourceID (rf_ID r) (g_refBySource g),
                 g_refByTarget := push targetID (rf_ID r) (g_refByTarget g)\<rparr>))"

section \<open>Looking up\<close>

text \<open>\<^verbatim>\<open>for _, id := range ids { if x := m[id]; x != nil && p(x) ... }\<close>\<close>

definition fetch :: "('k \<Rightarrow> 'a option) \<Rightarrow> ('a \<Rightarrow> bool) \<Rightarrow> 'k list \<Rightarrow> 'a list" where
  "fetch m p ids = concat (map (\<lambda>i. case m i of None \<Rightarrow> [] | Some x \<Rightarrow> if p x then [x] else []) ids)"

definition map_values :: "order \<Rightarrow> (i64 \<Rightarrow> 'a option) \<Rightarrow> 'a list" where
  "map_values ord m = fetch m (\<lambda>_. True) (ord (dom m))"

definition FindNodes :: "flt \<Rightarrow> order \<Rightarrow> Query \<Rightarrow> Graph \<Rightarrow> GNode list" where
  "FindNodes fl ord q g =
     (if q_Label q = [] \<and> q_Property q = [] then map_values ord (g_nodeByID g)
      else if q_Label q \<noteq> [] \<and> q_Property q \<noteq> [] then
        fetch (g_nodeByID g) (\<lambda>n. HasLabel n (q_Label q)) (g_nodeByProp g (q_Property q) (fmt_prop fl (q_Value q)))
      else if q_Label q \<noteq> [] then fetch (g_nodeByID g) (\<lambda>_. True) (g_nodeByLabel g (q_Label q))
      else fetch (g_nodeByID g) (\<lambda>_. True) (g_nodeByProp g (q_Property q) (fmt_prop fl (q_Value q))))"

definition GetNode :: "i64 \<Rightarrow> Graph \<Rightarrow> GNode option" where
  "GetNode i g = g_nodeByID g i"

definition GetEdges :: "i64 \<Rightarrow> Direction \<Rightarrow> Graph \<Rightarrow> GEdge list" where
  "GetEdges nodeID dir g =
     (if dir = DirectionOutgoing \<or> dir = DirectionBoth then fetch (g_edgeByID g) (\<lambda>_. True) (g_edgeByFrom g nodeID) else [])
     @ (if dir = DirectionIncoming \<or> dir = DirectionBoth then fetch (g_edgeByID g) (\<lambda>_. True) (g_edgeByTo g nodeID) else [])"

text \<open>The nodes with the given numbers, each once, in the order of their first occurrence.\<close>

fun fetch_new :: "(i64 \<Rightarrow> GNode option) \<Rightarrow> i64 set \<Rightarrow> i64 list \<Rightarrow> GNode list" where
  "fetch_new m seen [] = []"
| "fetch_new m seen (i # is) =
     (if i \<in> seen then fetch_new m seen is
      else case m i of None \<Rightarrow> fetch_new m seen is | Some n \<Rightarrow> n # fetch_new m (insert i seen) is)"

definition GetNeighbors :: "i64 \<Rightarrow> Direction \<Rightarrow> Graph \<Rightarrow> GNode list" where
  "GetNeighbors nodeID dir g =
     fetch_new (g_nodeByID g) {} (map (\<lambda>e. if ge_From e \<noteq> nodeID then ge_From e else ge_To e) (GetEdges nodeID dir g))"

definition GetReferences :: "i64 \<Rightarrow> Direction \<Rightarrow> Graph \<Rightarrow> Reference list" where
  "GetReferences nodeID dir g =
     fetch (g_refByID g) (\<lambda>_. True)
       (if dir = DirectionIncoming then g_refByTarget g nodeID
        else if dir = DirectionOutgoing then g_refBySource g nodeID
        else g_refBySource g nodeID @ g_refByTarget g nodeID)"

definition GetCallers :: "i64 \<Rightarrow> Graph \<Rightarrow> GNode list" where
  "GetCallers nodeID g =
     fetch_new (g_nodeByID g) {} (map rf_Source (filter (\<lambda>r. rf_Type r = ''call'') (GetReferences nodeID DirectionIncoming g)))"

definition GetCallees :: "i64 \<Rightarrow> Graph \<Rightarrow> GNode list" where
  "GetCallees nodeID g =
     fetch_new (g_nodeByID g) {} (map rf_Target (filter (\<lambda>r. rf_Type r = ''call'') (GetReferences nodeID DirectionOutgoing g)))"

definition Graph_GetAllEdges :: "order \<Rightarrow> Graph \<Rightarrow> GEdge list" where
  "Graph_GetAllEdges ord g = map_values ord (g_edgeByID g)"

definition GetAllReferences :: "order \<Rightarrow> Graph \<Rightarrow> Reference list" where
  "GetAllReferences ord g = map_values ord (g_refByID g)"

definition Graph_GetAllNodes :: "order \<Rightarrow> Graph \<Rightarrow> GNode list" where
  "Graph_GetAllNodes ord g = map_values ord (g_nodeByID g)"

section \<open>Deleting\<close>

definition removeID :: "i64 list \<Rightarrow> i64 \<Rightarrow> i64 list" where
  "removeID ids target = filter (\<lambda>i. i \<noteq> target) ids"

definition remove_at :: "'k \<Rightarrow> i64 \<Rightarrow> ('k \<Rightarrow> i64 list) \<Rightarrow> ('k \<Rightarrow> i64 list)" where
  "remove_at k i m = m(k := removeID (m k) i)"

text \<open>Writes a fresh empty page over page \<^verbatim>\<open>uint64(start + id)\<close>.\<close>

definition blank_page :: "i64 \<Rightarrow> i64 \<Rightarrow> Graph \<Rightarrow> (graph_err, unit) outcome \<times> Graph" where
  "blank_page start i g =
     (case write_graph_page ((NewPage (start + i))\<lparr>pg_Dirty := True\<rparr>) (gs_Disk (g_Store g)) of
        (r, d) \<Rightarrow> (r, g\<lparr>g_Store := (g_Store g)\<lparr>gs_Disk := d\<rparr>\<rparr>))"

definition unindex_edge :: "GEdge \<Rightarrow> i64 \<Rightarrow> Graph \<Rightarrow> Graph" where
  "unindex_edge e i g = g\<lparr>g_edgeByType := remove_at (ge_Type e) i (g_edgeByType g),
     g_edgeByFrom := remove_at (ge_From e) i (g_edgeByFrom g),
     g_edgeByTo := remove_at (ge_To e) i (g_edgeByTo g),
     g_edgeByID := (g_edgeByID g)(i := None)\<rparr>"

definition deleteEdgeInternal :: "i64 \<Rightarrow> Graph \<Rightarrow> (graph_err, unit) outcome \<times> Graph" where
  "deleteEdgeInternal i g =
     (case g_edgeByID g i of
        None \<Rightarrow> (Err (EdgeNotFound i), g)
      | Some e \<Rightarrow> blank_page EdgePageStart i (unindex_edge e i g))"

definition DeleteEdge :: "i64 \<Rightarrow> Graph \<Rightarrow> (graph_err, unit) outcome \<times> Graph" where
  "DeleteEdge i g = deleteEdgeInternal i g"

text \<open>The errors of the edge deletions are dropped.\<close>

fun delete_edges :: "i64 list \<Rightarrow> Graph \<Rightarrow> Graph" where
  "delete_edges [] g = g"
| "delete_edges (i # is) g = delete_edges is (snd (deleteEdgeInternal i g))"

fun remove_labels :: "string list \<Rightarrow> i64 \<Rightarrow> (string \<Rightarrow> i64 list) \<Rightarrow> (string \<Rightarrow> i64 list)" where
  "remove_labels [] i m = m"
| "remove_labels (l # ls) i m = remove_labels ls i (remove_at l i m)"

definition DeleteNode :: "i64 \<Rightarrow> Graph \<Rightarrow> (graph_err, unit) outcome \<times> Graph" where
  "DeleteNode i g =
     (case g_nodeByID g i of
        None \<Rightarrow> (Err (NodeNotFound i), g)
      | Some n \<Rightarrow>
          let g1 = delete_edges (g_edgeByFrom g i @ g_edgeByTo g i) g;
              g2 = g1\<lparr>g_nodeByLabel := remove_labels (gn_Labels n) i (g_nodeByLabel g1), g_nodeByID := (g_nodeByID g1)(i := None)\<rparr>
          in blank_page NodePageStart i g2)"

section \<open>Resolving calls\<close>

text \<open>\<^verbatim>\<open>==\<close> on interface values: same dynamic type and equal, floats by IEEE equality.\<close>

fun iface_eq :: "flt \<Rightarrow> pval \<Rightarrow> pval \<Rightarrow> bool" where
  "iface_eq fl (PFloat a) (PFloat b) = f_eq fl a b"
| "iface_eq fl a b = (a = b)"

definition is_function_named :: "flt \<Rightarrow> pval \<Rightarrow> GNode \<Rightarrow> bool" where
  "is_function_named fl name n \<longleftrightarrow> HasLabel n ''function'' \<and> iface_eq fl (prop_or_nil n ''name'') name"

definition by_name :: "string \<Rightarrow> pval \<Rightarrow> Query" where
  "by_name label name = \<lparr>q_Label = label, q_Property = ''name'', q_Value = name\<rparr>"

definition add_unresolved :: "i64 \<Rightarrow> Graph \<Rightarrow> (graph_err, Reference) outcome \<times> Graph" where
  "add_unresolved callNodeID g =
     (let r = \<lparr>rf_ID = g_nextRefID g, rf_Source = callNodeID, rf_Target = 0, rf_Type = ''call'', rf_Resolved = False\<rparr>
      in (Ok r, g\<lparr>g_nextRefID := g_nextRefID g + 1, g_refByID := (g_refByID g)(rf_ID r \<mapsto> r),
            g_refBySource := push callNodeID (rf_ID r) (g_refBySource g)\<rparr>))"

text \<open>The name of the call node, or the error both resolvers start with.\<close>

definition call_name :: "i64 \<Rightarrow> Graph \<Rightarrow> (graph_err, pval) outcome" where
  "call_name callNodeID g =
     (case GetNode callNodeID g of
        None \<Rightarrow> Err (CallNotFound callNodeID)
      | Some n \<Rightarrow> (case GetProp n ''name'' of None \<Rightarrow> Err (CallHasNoName callNodeID) | Some v \<Rightarrow> Ok v))"

definition ResolveCall :: "flt \<Rightarrow> order \<Rightarrow> i64 \<Rightarrow> i64 \<Rightarrow> Graph \<Rightarrow> (graph_err, Reference) outcome \<times> Graph" where
  "ResolveCall fl ord callNodeID contextNodeID g =
     (case call_name callNodeID g of
        Ok name \<Rightarrow>
          (let inctx = (if contextNodeID \<noteq> 0
                  then filter (is_function_named fl name) (GetNeighbors contextNodeID DirectionOutgoing g) else []);
               candidates = (if inctx = [] then FindNodes fl ord (by_name ''function'' name) g else inctx)
           in case candidates of
                c # _ \<Rightarrow> AddReference callNodeID (gn_ID c) ''call'' g
              | [] \<Rightarrow> add_unresolved callNodeID g)
      | Err e \<Rightarrow> (Err e, g) | Panic \<Rightarrow> (Panic, g) | Hang \<Rightarrow> (Hang, g))"

text \<open>The first method of that name in the first class that has one.\<close>

fun method_in :: "flt \<Rightarrow> pval \<Rightarrow> Graph \<Rightarrow> GNode list \<Rightarrow> GNode option" where
  "method_in fl name g [] = None"
| "method_in fl name g (c # cs) =
     (case List.find (is_function_named fl name) (GetNeighbors (gn_ID c) DirectionOutgoing g) of
        Some m \<Rightarrow> Some m
      | None \<Rightarrow> method_in fl name g cs)"

definition ResolveCallWithContext :: "flt \<Rightarrow> order \<Rightarrow> i64 \<Rightarrow> i64 \<Rightarrow> string \<Rightarrow> Graph \<Rightarrow> (graph_err, Reference) outcome \<times> Graph" where
  "ResolveCallWithContext fl ord callNodeID scopeNodeID contextName g =
     (case call_name callNodeID g of
        Ok name \<Rightarrow>
          (case (if contextName \<noteq> [] then method_in fl name g (FindNodes fl ord (by_name ''class'' (PString contextName)) g) else None) of
             Some m \<Rightarrow> AddReference callNodeID (gn_ID m) ''call'' g
           | None \<Rightarrow>
               (case FindNodes fl ord (by_name ''function'' name) g of
                  f # _ \<Rightarrow> AddReference callNodeID (gn_ID f) ''call'' g
                | [] \<Rightarrow> add_unresolved callNodeID g))
      | Err e \<Rightarrow> (Err e, g) | Panic \<Rightarrow> (Panic, g) | Hang \<Rightarrow> (Hang, g))"

section \<open>Call queries by name\<close>

text \<open>Strings, each once, in the order of their first occurrence.\<close>

fun first_only :: "string set \<Rightarrow> string list \<Rightarrow> string list" where
  "first_only seen [] = []"
| "first_only seen (s # ss) = (if s \<in> seen then first_only seen ss else s # first_only (insert s seen) ss)"

definition containing_functions :: "flt \<Rightarrow> Graph \<Rightarrow> GNode \<Rightarrow> string list" where
  "containing_functions fl g call =
     concat (map (\<lambda>e. if ge_Type e = ''contains'' then
         (case GetNode (ge_From e) g of
            Some p \<Rightarrow> if HasLabel p ''function'' then [fmt_prop fl (prop_or_nil p ''name'')] else []
          | None \<Rightarrow> [])
       else []) (GetEdges (gn_ID call) DirectionIncoming g))"

definition GetCallersByName :: "flt \<Rightarrow> order \<Rightarrow> string \<Rightarrow> Graph \<Rightarrow> string list" where
  "GetCallersByName fl ord funcName g =
     first_only {} (concat (map (containing_functions fl g) (FindNodes fl ord (by_name ''call'' (PString funcName)) g)))"

definition contained_calls :: "flt \<Rightarrow> Graph \<Rightarrow> GNode \<Rightarrow> string list" where
  "contained_calls fl g fn = map (\<lambda>c. fmt_prop fl (prop_or_nil c ''name''))
     (filter (\<lambda>c. HasLabel c ''call'') (GetNeighbors (gn_ID fn) DirectionOutgoing g))"

definition GetCalleesByName :: "flt \<Rightarrow> order \<Rightarrow> string \<Rightarrow> Graph \<Rightarrow> string list" where
  "GetCalleesByName fl ord funcName g =
     first_only {} (concat (map (contained_calls fl g) (FindNodes fl ord (by_name ''function'' (PString funcName)) g)))"

text \<open>
  The search for call paths. The map of visited nodes is shared by the whole search: it is
  threaded, and a node is unmarked when its call returns. The loops over the children and over
  the functions of a name are functions of their own.
\<close>

definition call_measure :: "nat \<Rightarrow> string list \<Rightarrow> nat" where
  "call_measure maxDepth path = maxDepth + 1 - length path"

function findCallPaths :: "flt \<Rightarrow> order \<Rightarrow> Graph \<Rightarrow> i64 \<Rightarrow> i64 \<Rightarrow> string list \<Rightarrow> i64 set \<Rightarrow> nat \<Rightarrow> string list list \<times> i64 set"
  and paths_children :: "flt \<Rightarrow> order \<Rightarrow> Graph \<Rightarrow> GNode list \<Rightarrow> i64 \<Rightarrow> string list \<Rightarrow> i64 set \<Rightarrow> nat \<Rightarrow> string list list \<times> i64 set"
  and paths_funcs :: "flt \<Rightarrow> order \<Rightarrow> Graph \<Rightarrow> GNode list \<Rightarrow> i64 \<Rightarrow> string list \<Rightarrow> i64 set \<Rightarrow> nat \<Rightarrow> string list list \<times> i64 set" where
  "findCallPaths fl ord g cur target path visited maxDepth =
     (if length path > maxDepth then ([], visited)
      else if cur = target then ([path], visited)
      else case paths_children fl ord g (GetNeighbors cur DirectionOutgoing g) target path (insert cur visited) maxDepth of
        (ps, v) \<Rightarrow> (ps, v - {cur}))"
| "paths_children fl ord g [] target path visited maxDepth = ([], visited)"
| "paths_children fl ord g (c # cs) target path visited maxDepth =
     (if HasLabel c ''call'' \<and> gn_ID c \<notin> visited then
        let name = fmt_prop fl (prop_or_nil c ''name'');
            (ps1, v1) = paths_funcs fl ord g (FindNodes fl ord (by_name ''function'' (PString name)) g) target (path @ [name]) visited maxDepth;
            (ps2, v2) = paths_children fl ord g cs target path v1 maxDepth
        in (ps1 @ ps2, v2)
      else paths_children fl ord g cs target path visited maxDepth)"
| "paths_funcs fl ord g [] target path visited maxDepth = ([], visited)"
| "paths_funcs fl ord g (f # fs) target path visited maxDepth =
     (let (ps1, v1) = findCallPaths fl ord g (gn_ID f) target path visited maxDepth;
          (ps2, v2) = paths_funcs fl ord g fs target path v1 maxDepth
      in (ps1 @ ps2, v2))"
  by pat_completeness auto
termination
  by (relation "measures [\<lambda>x. case x of
        Inl (_, _, _, _, _, path, _, m) \<Rightarrow> 3 * call_measure m path
      | Inr (Inl (_, _, _, cs, _, path, _, m)) \<Rightarrow> (if call_measure m path = 0 then 2 else 3 * call_measure m path - 1)
      | Inr (Inr (_, _, _, fs, _, path, _, m)) \<Rightarrow> 3 * call_measure m path + 1,
    \<lambda>x. case x of Inl _ \<Rightarrow> 0 | Inr (Inl (_, _, _, cs, _)) \<Rightarrow> length cs | Inr (Inr (_, _, _, fs, _)) \<Rightarrow> length fs]")
    (auto simp: call_measure_def split: prod.splits)

declare findCallPaths.simps [simp del] paths_children.simps [simp del] paths_funcs.simps [simp del]

fun call_paths_to :: "flt \<Rightarrow> order \<Rightarrow> Graph \<Rightarrow> string \<Rightarrow> (i64 \<times> i64) list \<Rightarrow> i64 set \<Rightarrow> string list list" where
  "call_paths_to fl ord g fromName [] visited = []"
| "call_paths_to fl ord g fromName ((f, t) # pairs) visited =
     (case findCallPaths fl ord g f t [fromName] visited 10 of (ps, v) \<Rightarrow> ps @ call_paths_to fl ord g fromName pairs v)"

definition FindCallPath :: "flt \<Rightarrow> order \<Rightarrow> string \<Rightarrow> string \<Rightarrow> Graph \<Rightarrow> (graph_err, string list list) outcome" where
  "FindCallPath fl ord fromName toName g =
     (let fs = FindNodes fl ord (by_name ''function'' (PString fromName)) g;
          ts = FindNodes fl ord (by_name ''function'' (PString toName)) g
      in if fs = [] then Err (FunctionNotFound fromName)
         else if ts = [] then Err (FunctionNotFound toName)
         else Ok (call_paths_to fl ord g fromName (concat (map (\<lambda>f. map (\<lambda>t. (gn_ID f, gn_ID t)) ts) fs)) {}))"

section \<open>SaveToDisk and Load\<close>

definition ref_edge :: "Reference \<Rightarrow> GEdge" where
  "ref_edge r = \<lparr>ge_ID = rf_ID r + 1000000, ge_Type = ''_ref_'' @ rf_Type r, ge_From = rf_Source r, ge_To = rf_Target r,
     ge_Props = Some [''is_resolved'' \<mapsto> PBool (rf_Resolved r)]\<rparr>"

definition meta_object :: "Graph \<Rightarrow> (string \<times> jval) list" where
  "meta_object g = [(''name'', JString (g_Name g)), (''next_edge_id'', JNumber (sint (g_nextEdgeID g))),
     (''next_edge_page'', JNumber (uint (gs_nextEdgePage (g_Store g)))), (''next_node_id'', JNumber (sint (g_nextNodeID g))),
     (''next_node_page'', JNumber (uint (gs_nextNodePage (g_Store g)))), (''next_ref_id'', JNumber (sint (g_nextRefID g)))]"

definition SaveToDisk :: "gjson \<Rightarrow> order \<Rightarrow> Graph \<Rightarrow> (graph_err, unit) outcome \<times> Graph" where
  "SaveToDisk js ord g =
     (let s1 = fold GraphStore_PutNode (map_values ord (g_nodeByID g)) (g_Store g);
          s2 = fold GraphStore_PutEdge (map_values ord (g_edgeByID g)) s1;
          s3 = fold GraphStore_PutEdge (map ref_edge (map_values ord (g_refByID g))) s2
      in case GraphStore_Flush js s3 of
           (Ok _, s4) \<Rightarrow>
             (let g4 = g\<lparr>g_Store := s4\<rparr>;
                  (r, d) = write_graph_page (text_page 0 (js_obj js (meta_object g4))) (gs_Disk s4)
              in (r, g4\<lparr>g_Store := s4\<lparr>gs_Disk := d\<rparr>\<rparr>))
         | (r, s4) \<Rightarrow> (r, g\<lparr>g_Store := s4\<rparr>))"

fun load_nodes :: "flt \<Rightarrow> GNode option list \<Rightarrow> Graph \<Rightarrow> (graph_err, unit) outcome \<times> Graph" where
  "load_nodes fl [] g = (Ok (), g)"
| "load_nodes fl (None # ns) g = (Panic, g)"
| "load_nodes fl (Some n # ns) g = load_nodes fl ns (index_node fl n g)"

definition edge_ref :: "GEdge \<Rightarrow> Reference" where
  "edge_ref e = \<lparr>rf_ID = ge_ID e - 1000000, rf_Source = ge_From e, rf_Target = ge_To e, rf_Type = drop 5 (ge_Type e),
     rf_Resolved = (case ge_Props e of Some m \<Rightarrow> (case m ''is_resolved'' of Some (PBool b) \<Rightarrow> b | _ \<Rightarrow> True) | None \<Rightarrow> True)\<rparr>"

definition index_ref :: "Reference \<Rightarrow> Graph \<Rightarrow> Graph" where
  "index_ref r g = g\<lparr>g_refByID := (g_refByID g)(rf_ID r \<mapsto> r),
     g_refBySource := push (rf_Source r) (rf_ID r) (g_refBySource g),
     g_refByTarget := push (rf_Target r) (rf_ID r) (g_refByTarget g)\<rparr>"

fun load_edges :: "GEdge option list \<Rightarrow> Graph \<Rightarrow> (graph_err, unit) outcome \<times> Graph" where
  "load_edges [] g = (Ok (), g)"
| "load_edges (None # es) g = (Panic, g)"
| "load_edges (Some e # es) g =
     load_edges es (if HasPrefix (ge_Type e) ''_ref_'' then index_ref (edge_ref e) g else index_edge e g)"

definition load_meta :: "(string \<times> jval) list \<Rightarrow> Graph \<Rightarrow> Graph" where
  "load_meta obj g =
     (let ni = field_int64 ''NextNodeID'' obj; ei = field_int64 ''NextEdgeID'' obj; ri = field_int64 ''NextRefID'' obj;
          np = field_uint64 ''NextNodePage'' obj; ep = field_uint64 ''NextEdgePage'' obj; s = g_Store g
      in g\<lparr>g_Name := field_string ''Name'' obj [],
           g_nextNodeID := (if 0 < sint ni then ni else g_nextNodeID g),
           g_nextEdgeID := (if 0 < sint ei then ei else g_nextEdgeID g),
           g_nextRefID := (if 0 < sint ri then ri else g_nextRefID g),
           g_Store := s\<lparr>gs_nextNodePage := (if 0 < np then np else gs_nextNodePage s),
                         gs_nextEdgePage := (if 0 < ep then ep else gs_nextEdgePage s)\<rparr>\<rparr>)"

definition Load :: "flt \<Rightarrow> gjson \<Rightarrow> Graph \<Rightarrow> (graph_err, unit) outcome \<times> Graph" where
  "Load fl js g =
     (case DiskManager_ReadPage 0 (gs_Disk (g_Store g)) of
        Ok p \<Rightarrow>
          (let len = unat (get32 (slice meta_offset (meta_offset + 4) (pg_Data p))) in
           if meta_offset + 4 + len > PageSize then (Panic, g)
           else let g1 = load_meta (parse_obj js (slice (meta_offset + 4) (meta_offset + 4 + len) (pg_Data p))) g
             in case load_nodes fl (GetAllNodes js (g_Store g1)) g1 of
                  (Ok _, g2) \<Rightarrow> load_edges (GetAllEdges js (g_Store g2)) g2
                | (r, g2) \<Rightarrow> (r, g2))
      | r \<Rightarrow> (map_err GDisk (bind_out r (\<lambda>_. Ok ())), g))"

end
