(* ===== verification/Traverse.thy ===== *)
theory Traverse imports Graph begin

text \<open>
  \<^verbatim>\<open>pkg/graph/iterator.go\<close>: breadth-first FindPath, depth-first FindAllPaths and
  GetConnectedNodes. The searches terminate because the visited set grows inside the
  finite set of nodes; the termination proofs are the ones of the functions \<open>bfs\<close> and \<open>dfs\<close>.
\<close>

record TraversalConfig =
  tc_MaxDepth :: int
  tc_EdgeTypes :: "string list"
  tc_Direction :: Direction

record Path =
  p_Nodes :: "GNode list"
  p_Edges :: "GEdge list"

fun path_text :: "flt \<Rightarrow> GNode list \<Rightarrow> GEdge list \<Rightarrow> string" where
  "path_text fl [] es = []"
| "path_text fl (n # ns) es =
     (case GetProp n ''name'' of Some v \<Rightarrow> fmt_prop fl v | None \<Rightarrow> ''node['' @ dec_int (sint (gn_ID n)) @ '']'')
     @ (case es of e # es' \<Rightarrow> '' -['' @ ge_Type e @ '']-> '' @ path_text fl ns es' | [] \<Rightarrow> path_text fl ns [])"

definition Path_String :: "flt \<Rightarrow> Path \<Rightarrow> string" where
  "Path_String fl p = (if p_Nodes p = [] then ''empty path'' else path_text fl (p_Nodes p) (p_Edges p))"

definition type_ok :: "string list \<Rightarrow> GEdge \<Rightarrow> bool" where
  "type_ok types e \<longleftrightarrow> types = [] \<or> ge_Type e \<in> set types"

definition too_deep :: "TraversalConfig \<Rightarrow> Path \<Rightarrow> bool" where
  "too_deep cfg p \<longleftrightarrow> 0 < tc_MaxDepth cfg \<and> tc_MaxDepth cfg \<le> int (length (p_Edges p))"

definition next_id :: "i64 \<Rightarrow> GEdge \<Rightarrow> i64" where
  "next_id node e = (if node = ge_To e then ge_From e else ge_To e)"

section \<open>FindPath\<close>

text \<open>The edges of one item: what is queued, the paths that reach the target, the nodes now visited.\<close>

fun bfs_edges :: "string list \<Rightarrow> (i64 \<Rightarrow> GNode option) \<Rightarrow> i64 \<Rightarrow> i64 \<Rightarrow> Path \<Rightarrow> GEdge list \<Rightarrow> i64 set
    \<Rightarrow> (i64 \<times> Path) list \<times> Path list \<times> i64 set" where
  "bfs_edges types m to node path [] visited = ([], [], visited)"
| "bfs_edges types m to node path (e # es) visited =
     (let nextID = next_id node e in
      if \<not> type_ok types e \<or> nextID \<in> visited then bfs_edges types m to node path es visited
      else case m nextID of
        None \<Rightarrow> bfs_edges types m to node path es visited
      | Some n \<Rightarrow>
          let newPath = \<lparr>p_Nodes = p_Nodes path @ [n], p_Edges = p_Edges path @ [e]\<rparr> in
          if nextID = to then (case bfs_edges types m to node path es visited of (q, ps, v) \<Rightarrow> (q, newPath # ps, v))
          else (case bfs_edges types m to node path es (insert nextID visited) of (q, ps, v) \<Rightarrow> ((nextID, newPath) # q, ps, v)))"

lemma bfs_edges_measure:
  "bfs_edges types m to node path es visited = (q, ps, v) \<Longrightarrow>
    visited \<subseteq> v \<and> card (dom m - v) + length q = card (dom m - visited)"
proof (induction es arbitrary: visited q ps v)
  case (Cons e es)
  let ?n = "next_id node e"
  show ?case
  proof (cases "\<not> type_ok types e \<or> ?n \<in> visited \<or> m ?n = None \<or> ?n = to")
    case True
    then obtain ps' where "bfs_edges types m to node path es visited = (q, ps', v)"
      using Cons.prems by (auto simp: Let_def split: if_splits option.splits prod.splits)
    then show ?thesis using Cons.IH by blast
  next
    case False
    then obtain q' ps' where r: "bfs_edges types m to node path es (insert ?n visited) = (q', ps', v)" "length q = Suc (length q')"
      using Cons.prems by (auto simp: Let_def split: if_splits option.splits prod.splits)
    have "?n \<in> dom m - visited" using False by auto
    then have "card (dom m - visited) = Suc (card ((dom m - visited) - {?n}))" by (intro card.remove) simp_all
    then have "card (dom m - visited) = Suc (card (dom m - insert ?n visited))" by (simp add: Diff_insert [of "dom m" ?n visited])
    then show ?thesis using Cons.IH [OF r(1)] r(2) by auto
  qed
qed auto

function bfs :: "TraversalConfig \<Rightarrow> Graph \<Rightarrow> i64 \<Rightarrow> (i64 \<times> Path) list \<Rightarrow> i64 set \<Rightarrow> Path list" where
  "bfs cfg g to [] visited = []"
| "bfs cfg g to ((node, path) # queue) visited =
     (if too_deep cfg path then bfs cfg g to queue visited
      else case bfs_edges (tc_EdgeTypes cfg) (g_nodeByID g) to node path (GetEdges node (tc_Direction cfg) g) visited of
        (q, ps, v) \<Rightarrow> ps @ bfs cfg g to (queue @ q) v)"
  by pat_completeness auto
termination
proof (relation "measure (\<lambda>(cfg, g, to, queue, visited). 2 * card (dom (g_nodeByID g) - visited) + length queue)")
  fix cfg g to node queue visited and q :: "(i64 \<times> Path) list" and v and path :: Path and y :: "Path list \<times> i64 set" and ps
  assume "(q, y) = bfs_edges (tc_EdgeTypes cfg) (g_nodeByID g) to node path (GetEdges node (tc_Direction cfg) g) visited" "(ps, v) = y"
  then have "bfs_edges (tc_EdgeTypes cfg) (g_nodeByID g) to node path (GetEdges node (tc_Direction cfg) g) visited = (q, ps, v)" by simp
  then show "((cfg, g, to, queue @ q, v), (cfg, g, to, (node, path) # queue, visited))
    \<in> measure (\<lambda>(cfg, g, to, queue, visited). 2 * card (dom (g_nodeByID g) - visited) + length queue)"
    using bfs_edges_measure by fastforce
qed simp_all

definition FindPath :: "i64 \<Rightarrow> i64 \<Rightarrow> TraversalConfig \<Rightarrow> Graph \<Rightarrow> (graph_err, Path list) outcome" where
  "FindPath fromID toID cfg g =
     (case g_nodeByID g fromID of
        None \<Rightarrow> Err (NodeNotFound fromID)
      | Some n \<Rightarrow>
          if g_nodeByID g toID = None then Err (NodeNotFound toID)
          else let start = \<lparr>p_Nodes = [n], p_Edges = []\<rparr> in
            if fromID = toID then Ok [start] else Ok (bfs cfg g toID [(fromID, start)] {fromID}))"

section \<open>FindAllPaths\<close>

function dfs :: "TraversalConfig \<Rightarrow> Graph \<Rightarrow> i64 \<Rightarrow> i64 \<Rightarrow> Path \<Rightarrow> i64 set \<Rightarrow> Path list" where
  "dfs cfg g target cur path visited =
     (if too_deep cfg path then []
      else case g_nodeByID g cur of
        None \<Rightarrow> []
      | Some n \<Rightarrow>
          let path1 = path\<lparr>p_Nodes := p_Nodes path @ [n]\<rparr> in
          if cur = target \<and> 1 < length (p_Nodes path1) then [path1]
          else concat (map (\<lambda>e. dfs cfg g target (next_id cur e) (path1\<lparr>p_Edges := p_Edges path1 @ [e]\<rparr>) (insert cur visited))
            (filter (\<lambda>e. next_id cur e \<notin> insert cur visited \<and> type_ok (tc_EdgeTypes cfg) e) (GetEdges cur (tc_Direction cfg) g))))"
  by pat_completeness auto
termination
proof (relation "measure (\<lambda>(cfg, g, target, cur, path, visited).
    if cur \<in> dom (g_nodeByID g) then Suc (card (dom (g_nodeByID g) - insert cur visited)) else 0)")
  fix cfg g target cur visited n e and path path1 :: Path
  assume n: "g_nodeByID g cur = Some n"
    and e: "e \<in> set (filter (\<lambda>e. next_id cur e \<notin> insert cur visited \<and> type_ok (tc_EdgeTypes cfg) e) (GetEdges cur (tc_Direction cfg) g))"
  let ?D = "dom (g_nodeByID g)" and ?x = "next_id cur e"
  have "?x \<notin> insert cur visited" using e by simp
  then have "card (?D - insert ?x (insert cur visited)) < card (?D - insert cur visited)" if "?x \<in> ?D"
    using that by (intro psubset_card_mono) auto
  then show "((cfg, g, target, ?x, path1\<lparr>p_Edges := p_Edges path1 @ [e]\<rparr>, insert cur visited), cfg, g, target, cur, path, visited)
      \<in> measure (\<lambda>(cfg, g, target, cur, path, visited).
          if cur \<in> dom (g_nodeByID g) then Suc (card (dom (g_nodeByID g) - insert cur visited)) else 0)"
    using n by auto
qed simp

declare dfs.simps [simp del]

definition FindAllPaths :: "i64 \<Rightarrow> i64 \<Rightarrow> TraversalConfig \<Rightarrow> Graph \<Rightarrow> Path list" where
  "FindAllPaths fromID toID cfg g = dfs cfg g toID fromID \<lparr>p_Nodes = [], p_Edges = []\<rparr> {}"

section \<open>GetConnectedNodes\<close>

fun conn_edges :: "(i64 \<Rightarrow> GNode option) \<Rightarrow> i64 set \<Rightarrow> i64 list \<Rightarrow> GNode list \<times> i64 set" where
  "conn_edges m seen [] = ([], seen)"
| "conn_edges m seen (i # is) =
     (case m i of
        None \<Rightarrow> conn_edges m seen is
      | Some n \<Rightarrow> if gn_ID n \<in> seen then conn_edges m seen is
          else (case conn_edges m (insert (gn_ID n) seen) is of (ns, s) \<Rightarrow> (n # ns, s)))"

definition GetConnectedNodes :: "i64 \<Rightarrow> string list \<Rightarrow> Graph \<Rightarrow> GNode list" where
  "GetConnectedNodes nodeID edgeTypes g =
     (let (ns, seen) = conn_edges (g_nodeByID g) {} (map ge_To (filter (type_ok edgeTypes) (GetEdges nodeID DirectionOutgoing g)))
      in ns @ fetch_new (g_nodeByID g) seen (map rf_Target (filter rf_Resolved (GetReferences nodeID DirectionOutgoing g))))"

end
