(* ===== verification/GraphSpec.thy ===== *)
theory GraphSpec imports Graph begin

text \<open>
  The invariant of the code graph: every index agrees with the table it indexes, identifiers are
  fresh, and no edge dangles. It holds of a new graph and is kept by every operation
  (\<open>graph_step\<close>), so that a lookup through an index is a scan of the table.
\<close>

section \<open>Indexes\<close>

definition ascending :: "i64 list \<Rightarrow> bool" where
  "ascending ids \<longleftrightarrow> sorted_wrt (\<lambda>a b. sint a < sint b) ids"

definition covers :: "(i64 \<Rightarrow> 'a option) \<Rightarrow> ('a \<Rightarrow> 'k \<Rightarrow> bool) \<Rightarrow> ('k \<Rightarrow> i64 list) \<Rightarrow> bool" where
  "covers m has ix \<longleftrightarrow> (\<forall>k. set (ix k) = {i. \<exists>x. m i = Some x \<and> has x k})"

definition ordered :: "('k \<Rightarrow> i64 list) \<Rightarrow> bool" where
  "ordered ix \<longleftrightarrow> (\<forall>k. ascending (ix k))"

text \<open>The numbers of a table: each entry carries its own, and all lie between 0 and the next one.\<close>

definition numbered :: "(i64 \<Rightarrow> 'a option) \<Rightarrow> ('a \<Rightarrow> i64) \<Rightarrow> i64 \<Rightarrow> bool" where
  "numbered m no nxt \<longleftrightarrow> 0 < sint nxt \<and> (\<forall>i x. m i = Some x \<longrightarrow> no x = i \<and> 0 < sint i \<and> sint i < sint nxt)"

definition room :: "i64 \<Rightarrow> bool" where "room nxt \<longleftrightarrow> sint nxt < 2 ^ 63 - 1"

lemma sint_succ: "room x \<Longrightarrow> sint (x + 1) = sint x + 1"
proof -
  assume "room x"
  then have "sint x + 1 < 2 ^ 63" "- (2 ^ 63) \<le> sint x" using sint_greater_eq [of x] by (simp_all add: room_def)
  then show ?thesis by (simp add: sint_word_ariths signed_take_bit_int_eq_self)
qed

lemma numbered_fresh: "numbered m no nxt \<Longrightarrow> m nxt = None"
  by (cases "m nxt") (auto simp: numbered_def)

lemma numbered_add: "numbered m no nxt \<Longrightarrow> room nxt \<Longrightarrow> no x = nxt \<Longrightarrow> numbered (m(nxt \<mapsto> x)) no (nxt + 1)"
  unfolding numbered_def by (auto simp: sint_succ split: if_splits) fastforce

lemma numbered_remove: "numbered m no nxt \<Longrightarrow> numbered (m(i := None)) no nxt"
  unfolding numbered_def by auto

lemma covers_push:
  assumes "covers m has ix" "m i = None" "\<And>k'. has x k' \<longleftrightarrow> k' = k"
  shows "covers (m(i \<mapsto> x)) has (push k i ix)"
  using assms unfolding covers_def push_def by auto

lemma covers_skip:
  assumes "covers m has ix" "m i = None" "\<And>k. \<not> has x k"
  shows "covers (m(i \<mapsto> x)) has ix"
  using assms unfolding covers_def by auto

lemma covers_remove:
  assumes "covers m has ix" "m i = Some x" "\<And>k'. has x k' \<longleftrightarrow> k' = k"
  shows "covers (m(i := None)) has (remove_at k i ix)"
  using assms unfolding covers_def remove_at_def removeID_def by auto

lemma ascending_push:
  "ordered ix \<Longrightarrow> covers m has ix \<Longrightarrow> numbered m no nxt \<Longrightarrow> ordered (push k nxt ix)"
  unfolding ordered_def ascending_def covers_def numbered_def push_def by (auto simp: sorted_wrt_append)

lemma ordered_remove: "ordered ix \<Longrightarrow> ordered (remove_at k i ix)"
  unfolding ordered_def ascending_def remove_at_def removeID_def by (auto intro: sorted_wrt_filter)

lemma set_fetch: "set (fetch m p ids) = {x. \<exists>i \<in> set ids. m i = Some x \<and> p x}"
  by (auto simp: fetch_def split: option.splits if_splits)

lemma fetch_ids:
  "\<forall>i \<in> set ids. \<exists>x. m i = Some x \<and> no x = i \<Longrightarrow> map no (fetch m (\<lambda>_. True) ids) = ids"
  by (induction ids) (auto simp: fetch_def)

lemma fetch_index:
  assumes "covers m has ix" "numbered m no nxt"
  shows "set (fetch m (\<lambda>_. True) (ix k)) = {x. m (no x) = Some x \<and> has x k}" "map no (fetch m (\<lambda>_. True) (ix k)) = ix k"
proof -
  show "set (fetch m (\<lambda>_. True) (ix k)) = {x. m (no x) = Some x \<and> has x k}"
    using assms unfolding set_fetch covers_def numbered_def by auto
  show "map no (fetch m (\<lambda>_. True) (ix k)) = ix k"
    by (rule fetch_ids) (use assms in \<open>auto simp: covers_def numbered_def\<close>)
qed

section \<open>The invariant\<close>

definition has_label :: "GNode \<Rightarrow> string \<Rightarrow> bool" where "has_label n l \<longleftrightarrow> l \<in> set (gn_Labels n)"

lemma HasLabel_iff [simp]: "HasLabel n l \<longleftrightarrow> l \<in> set (gn_Labels n)"
proof -
  have "HasLabel_in ls l \<longleftrightarrow> l \<in> set ls" for ls by (induction ls) auto
  then show ?thesis by (simp add: HasLabel_def)
qed

definition prints :: "flt \<Rightarrow> GNode \<Rightarrow> string \<Rightarrow> string \<Rightarrow> bool" where
  "prints fl n key v \<longleftrightarrow> (\<exists>x. gn_Props n key = Some x \<and> fmt_prop fl x = v)"

text \<open>The property index keeps the numbers of deleted nodes; they are never given out again.\<close>

definition props_ok :: "flt \<Rightarrow> Graph \<Rightarrow> bool" where
  "props_ok fl g \<longleftrightarrow> (\<forall>k v i. i \<in> set (g_nodeByProp g k v) \<longrightarrow> sint i < sint (g_nextNodeID g) \<and> (\<forall>n. g_nodeByID g i = Some n \<longrightarrow> prints fl n k v))
     \<and> (\<forall>k v i n. g_nodeByID g i = Some n \<longrightarrow> prints fl n k v \<longrightarrow> i \<in> set (g_nodeByProp g k v))"

definition nodes_ok :: "Graph \<Rightarrow> bool" where
  "nodes_ok g \<longleftrightarrow> numbered (g_nodeByID g) gn_ID (g_nextNodeID g) \<and> covers (g_nodeByID g) has_label (g_nodeByLabel g)"

definition edges_ok :: "Graph \<Rightarrow> bool" where
  "edges_ok g \<longleftrightarrow> numbered (g_edgeByID g) ge_ID (g_nextEdgeID g)
     \<and> covers (g_edgeByID g) (\<lambda>e t. ge_Type e = t) (g_edgeByType g) \<and> ordered (g_edgeByType g)
     \<and> covers (g_edgeByID g) (\<lambda>e n. ge_From e = n) (g_edgeByFrom g) \<and> ordered (g_edgeByFrom g)
     \<and> covers (g_edgeByID g) (\<lambda>e n. ge_To e = n) (g_edgeByTo g) \<and> ordered (g_edgeByTo g)"

definition no_dangling_edge :: "Graph \<Rightarrow> bool" where
  "no_dangling_edge g \<longleftrightarrow> (\<forall>i e. g_edgeByID g i = Some e \<longrightarrow> g_nodeByID g (ge_From e) \<noteq> None \<and> g_nodeByID g (ge_To e) \<noteq> None)"

definition refs_ok :: "Graph \<Rightarrow> bool" where
  "refs_ok g \<longleftrightarrow> numbered (g_refByID g) rf_ID (g_nextRefID g)
     \<and> covers (g_refByID g) (\<lambda>r n. rf_Source r = n) (g_refBySource g) \<and> ordered (g_refBySource g)
     \<and> covers (g_refByID g) (\<lambda>r n. rf_Resolved r \<and> rf_Target r = n) (g_refByTarget g) \<and> ordered (g_refByTarget g)"

definition graph_ok :: "flt \<Rightarrow> Graph \<Rightarrow> bool" where
  "graph_ok fl g \<longleftrightarrow> nodes_ok g \<and> props_ok fl g \<and> edges_ok g \<and> no_dangling_edge g \<and> refs_ok g"

lemmas graph_ok_defs = graph_ok_def nodes_ok_def props_ok_def edges_ok_def no_dangling_edge_def refs_ok_def

lemma graph_ok_parts:
  assumes "graph_ok fl g"
  shows "nodes_ok g" "props_ok fl g" "edges_ok g" "no_dangling_edge g" "refs_ok g"
  using assms by (simp_all add: graph_ok_def)

text \<open>The store does not matter.\<close>

lemma graph_ok_store [simp]: "graph_ok fl (g\<lparr>g_Store := s\<rparr>) \<longleftrightarrow> graph_ok fl g"
  by (simp add: graph_ok_defs)

lemma NewGraph_ok: "graph_ok fl (NewGraph name s)"
  by (simp add: graph_ok_defs NewGraph_def numbered_def covers_def ordered_def ascending_def)

subsection \<open>Nodes\<close>

lemma push_labels_set: "set (push_labels ls i m l) = (if l \<in> set ls then {i} else {}) \<union> set (m l)"
  by (induction ls arbitrary: m) (auto simp: push_def)

lemma covers_labels:
  assumes "covers m has_label ix" "m i = None"
  shows "covers (m(i \<mapsto> n)) has_label (push_labels (gn_Labels n) i ix)"
  using assms unfolding covers_def push_labels_set has_label_def by auto

lemma push_props_set:
  "set (push_props fl ps i m k v) = (if \<exists>x. ps k = Some x \<and> fmt_prop fl x = v then {i} else {}) \<union> set (m k v)"
  by (auto simp: push_props_def push_def split: option.splits)

lemma AddNode_ok:
  assumes ok: "graph_ok fl g" and r: "room (g_nextNodeID g)"
  shows "graph_ok fl (snd (AddNode fl labels ps g))"
proof -
  let ?i = "g_nextNodeID g" and ?n = "NewGNode (g_nextNodeID g) labels ps"
  have i: "gn_ID ?n = ?i" by (simp add: NewGNode_def)
  have N: "numbered (g_nodeByID g) gn_ID ?i" and C: "covers (g_nodeByID g) has_label (g_nodeByLabel g)"
    using ok by (simp_all add: graph_ok_def nodes_ok_def)
  have fresh: "g_nodeByID g ?i = None" by (rule numbered_fresh [OF N])
  have "nodes_ok (snd (AddNode fl labels ps g))"
    using numbered_add [OF N r i] covers_labels [OF C fresh] by (simp add: nodes_ok_def AddNode_def Let_def index_node_def i)
  moreover have "props_ok fl (snd (AddNode fl labels ps g))"
    using graph_ok_parts(2) [OF ok] sint_succ [OF r] fresh
    unfolding props_ok_def AddNode_def Let_def index_node_def i
    by (auto simp: push_props_set prints_def i split: if_splits) fastforce+
  moreover have "edges_ok (snd (AddNode fl labels ps g))" "refs_ok (snd (AddNode fl labels ps g))"
    using ok by (simp_all add: graph_ok_def edges_ok_def refs_ok_def AddNode_def Let_def index_node_def)
  moreover have "no_dangling_edge (snd (AddNode fl labels ps g))"
    using graph_ok_parts(4) [OF ok] by (auto simp: no_dangling_edge_def AddNode_def Let_def index_node_def)
  ultimately show ?thesis by (simp add: graph_ok_def)
qed

subsection \<open>Edges and references\<close>

lemma AddEdge_ok:
  assumes ok: "graph_ok fl g" and r: "room (g_nextEdgeID g)"
  shows "graph_ok fl (snd (AddEdge t a b g))"
proof (cases "g_nodeByID g a = None \<or> g_nodeByID g b = None")
  case True
  then show ?thesis using ok by (auto simp: AddEdge_def)
next
  case False
  let ?i = "g_nextEdgeID g" and ?e = "NewGEdge (g_nextEdgeID g) t a b" and ?g = "snd (AddEdge t a b g)"
  have g: "?g = index_edge ?e (g\<lparr>g_nextEdgeID := ?i + 1\<rparr>)" using False by (auto simp: AddEdge_def Let_def)
  have e: "ge_ID ?e = ?i" "ge_Type ?e = t" "ge_From ?e = a" "ge_To ?e = b" by (simp_all add: NewGEdge_def)
  note E = graph_ok_parts(3) [OF ok, unfolded edges_ok_def]
  have N: "numbered (g_edgeByID g) ge_ID ?i" using E by blast
  have fresh: "g_edgeByID g ?i = None" by (rule numbered_fresh [OF N])
  have "edges_ok ?g"
    unfolding g edges_ok_def index_edge_def using E
    by (auto simp: e intro!: numbered_add [OF N r] covers_push [where m = "g_edgeByID g" and i = "g_nextEdgeID g", OF _ fresh] ascending_push [OF _ _ N])
  moreover have "nodes_ok ?g" "props_ok fl ?g" "refs_ok ?g"
    using ok by (simp_all add: graph_ok_def g nodes_ok_def props_ok_def refs_ok_def index_edge_def)
  moreover have "no_dangling_edge ?g"
    using graph_ok_parts(4) [OF ok] False by (auto simp: no_dangling_edge_def g index_edge_def e)
  ultimately show ?thesis by (simp add: graph_ok_def)
qed

lemma refs_only:
  assumes "graph_ok fl g" "refs_ok (g\<lparr>g_nextRefID := a, g_refByID := b, g_refBySource := c, g_refByTarget := d\<rparr>)"
  shows "graph_ok fl (g\<lparr>g_nextRefID := a, g_refByID := b, g_refBySource := c, g_refByTarget := d\<rparr>)"
  using assms by (simp add: graph_ok_def nodes_ok_def props_ok_def edges_ok_def no_dangling_edge_def)

text \<open>A reference enters the target index when it is resolved.\<close>

lemma add_ref_ok:
  assumes ok: "graph_ok fl g" and r: "room (g_nextRefID g)" "rf_ID x = g_nextRefID g"
  shows "graph_ok fl (g\<lparr>g_nextRefID := g_nextRefID g + 1, g_refByID := (g_refByID g)(g_nextRefID g \<mapsto> x),
    g_refBySource := push (rf_Source x) (g_nextRefID g) (g_refBySource g),
    g_refByTarget := (if rf_Resolved x then push (rf_Target x) (g_nextRefID g) (g_refByTarget g) else g_refByTarget g)\<rparr>)"
proof (rule refs_only [OF ok])
  let ?S = "\<lambda>r n. rf_Source r = n" and ?T = "\<lambda>r n. rf_Resolved r \<and> rf_Target r = n"
  have R: "numbered (g_refByID g) rf_ID (g_nextRefID g)" "covers (g_refByID g) ?S (g_refBySource g)" "ordered (g_refBySource g)"
      "covers (g_refByID g) ?T (g_refByTarget g)" "ordered (g_refByTarget g)"
    using graph_ok_parts(5) [OF ok] unfolding refs_ok_def by blast+
  note fresh = numbered_fresh [OF R(1)]
  have "covers ((g_refByID g)(g_nextRefID g \<mapsto> x)) ?S (push (rf_Source x) (g_nextRefID g) (g_refBySource g))"
    using covers_push [where has = ?S and x = x, OF R(2) fresh] by blast
  moreover have "covers ((g_refByID g)(g_nextRefID g \<mapsto> x)) ?T
      (if rf_Resolved x then push (rf_Target x) (g_nextRefID g) (g_refByTarget g) else g_refByTarget g)"
    using covers_push [where has = ?T and x = x and k = "rf_Target x", OF R(4) fresh] covers_skip [where has = ?T and x = x, OF R(4) fresh] by auto
  ultimately show "refs_ok (g\<lparr>g_nextRefID := g_nextRefID g + 1, g_refByID := (g_refByID g)(g_nextRefID g \<mapsto> x),
      g_refBySource := push (rf_Source x) (g_nextRefID g) (g_refBySource g),
      g_refByTarget := (if rf_Resolved x then push (rf_Target x) (g_nextRefID g) (g_refByTarget g) else g_refByTarget g)\<rparr>)"
    using numbered_add [OF R(1) r] ascending_push [OF R(3,2,1)] ascending_push [OF R(5,4,1)] R(5) by (simp add: refs_ok_def)
qed

lemma AddReference_ok:
  assumes ok: "graph_ok fl g" and r: "room (g_nextRefID g)"
  shows "graph_ok fl (snd (AddReference a b t g))"
  using add_ref_ok [OF ok r, of "\<lparr>rf_ID = g_nextRefID g, rf_Source = a, rf_Target = b, rf_Type = t, rf_Resolved = True\<rparr>"] ok
  by (simp add: AddReference_def Let_def)

lemma add_unresolved_ok:
  assumes ok: "graph_ok fl g" and r: "room (g_nextRefID g)"
  shows "graph_ok fl (snd (add_unresolved a g))"
  using add_ref_ok [OF ok r, of "\<lparr>rf_ID = g_nextRefID g, rf_Source = a, rf_Target = 0, rf_Type = ''call'', rf_Resolved = False\<rparr>"]
  by (simp add: add_unresolved_def Let_def)

lemma ResolveCall_ok:
  "graph_ok fl g \<Longrightarrow> room (g_nextRefID g) \<Longrightarrow> graph_ok fl (snd (ResolveCall fl ord c ctx g))"
  by (auto simp: ResolveCall_def Let_def split: outcome.splits list.splits intro!: AddReference_ok add_unresolved_ok)

lemma ResolveCallWithContext_ok:
  "graph_ok fl g \<Longrightarrow> room (g_nextRefID g) \<Longrightarrow> graph_ok fl (snd (ResolveCallWithContext fl ord c s ctx g))"
  by (auto simp: ResolveCallWithContext_def split: outcome.splits list.splits option.splits intro!: AddReference_ok add_unresolved_ok)

subsection \<open>Deletion\<close>

lemma blank_page_tables: "\<exists>s. snd (blank_page a i g) = g\<lparr>g_Store := s\<rparr>"
  by (simp add: blank_page_def split: prod.splits) blast

lemma unindex_edge_ok:
  assumes ok: "graph_ok fl g" and e: "g_edgeByID g i = Some e"
  shows "graph_ok fl (unindex_edge e i g)"
proof -
  have E: "numbered (g_edgeByID g) ge_ID (g_nextEdgeID g)"
      "covers (g_edgeByID g) (\<lambda>e t. ge_Type e = t) (g_edgeByType g)" "ordered (g_edgeByType g)"
      "covers (g_edgeByID g) (\<lambda>e n. ge_From e = n) (g_edgeByFrom g)" "ordered (g_edgeByFrom g)"
      "covers (g_edgeByID g) (\<lambda>e n. ge_To e = n) (g_edgeByTo g)" "ordered (g_edgeByTo g)"
    using graph_ok_parts(3) [OF ok] unfolding edges_ok_def by blast+
  have c: "covers ((g_edgeByID g)(i := None)) (\<lambda>e t. ge_Type e = t) (remove_at (ge_Type e) i (g_edgeByType g))"
      "covers ((g_edgeByID g)(i := None)) (\<lambda>e n. ge_From e = n) (remove_at (ge_From e) i (g_edgeByFrom g))"
      "covers ((g_edgeByID g)(i := None)) (\<lambda>e n. ge_To e = n) (remove_at (ge_To e) i (g_edgeByTo g))"
    by (rule covers_remove [OF E(2) e] covers_remove [OF E(4) e] covers_remove [OF E(6) e]; blast)+
  have "edges_ok (unindex_edge e i g)"
    unfolding edges_ok_def unindex_edge_def using c numbered_remove [OF E(1)] E(3,5,7) by (simp add: ordered_remove)
  moreover have "nodes_ok (unindex_edge e i g)" "props_ok fl (unindex_edge e i g)" "refs_ok (unindex_edge e i g)"
    using ok by (simp_all add: graph_ok_def nodes_ok_def props_ok_def refs_ok_def unindex_edge_def)
  moreover have "no_dangling_edge (unindex_edge e i g)"
    using graph_ok_parts(4) [OF ok] by (auto simp: no_dangling_edge_def unindex_edge_def)
  ultimately show ?thesis by (simp add: graph_ok_def)
qed

lemma deleteEdge_tables:
  "\<exists>s. snd (deleteEdgeInternal i g) = (case g_edgeByID g i of None \<Rightarrow> g | Some e \<Rightarrow> (unindex_edge e i g)\<lparr>g_Store := s\<rparr>)"
  using blank_page_tables by (auto simp: deleteEdgeInternal_def split: option.splits)

text \<open>The tables of nodes and references, which edge deletion leaves alone.\<close>

definition same_nodes :: "Graph \<Rightarrow> Graph \<Rightarrow> bool" where
  "same_nodes g g' \<longleftrightarrow> g_nodeByID g' = g_nodeByID g \<and> g_nodeByLabel g' = g_nodeByLabel g \<and> g_nodeByProp g' = g_nodeByProp g
     \<and> g_nextNodeID g' = g_nextNodeID g \<and> g_refByID g' = g_refByID g \<and> g_refBySource g' = g_refBySource g
     \<and> g_refByTarget g' = g_refByTarget g \<and> g_nextRefID g' = g_nextRefID g \<and> g_nextEdgeID g' = g_nextEdgeID g"

lemma same_nodes_trans: "same_nodes a b \<Longrightarrow> same_nodes b c \<Longrightarrow> same_nodes a c"
  by (simp add: same_nodes_def)

lemma deleteEdge_step:
  "same_nodes g (snd (deleteEdgeInternal i g)) \<and> g_edgeByID (snd (deleteEdgeInternal i g)) = (g_edgeByID g)(i := None)
    \<and> (graph_ok fl g \<longrightarrow> graph_ok fl (snd (deleteEdgeInternal i g)))"
proof -
  obtain s where s: "snd (deleteEdgeInternal i g) = (case g_edgeByID g i of None \<Rightarrow> g | Some e \<Rightarrow> (unindex_edge e i g)\<lparr>g_Store := s\<rparr>)"
    using deleteEdge_tables by blast
  show ?thesis
  proof (cases "g_edgeByID g i")
    case None
    then show ?thesis using s by (simp add: same_nodes_def fun_upd_idem)
  next
    case (Some e)
    then show ?thesis using s unindex_edge_ok [OF _ Some] by (simp add: same_nodes_def unindex_edge_def)
  qed
qed

lemma delete_edges_step:
  "same_nodes g (delete_edges is g) \<and> g_edgeByID (delete_edges is g) = (\<lambda>i. if i \<in> set is then None else g_edgeByID g i)
    \<and> (graph_ok fl g \<longrightarrow> graph_ok fl (delete_edges is g))"
proof (induction "is" arbitrary: g)
  case Nil
  show ?case by (simp add: same_nodes_def)
next
  case (Cons i "is")
  show ?case
    using Cons.IH [of "snd (deleteEdgeInternal i g)"] deleteEdge_step [of g i fl] same_nodes_trans by (auto simp: fun_eq_iff)
qed

lemma remove_labels_set: "set (remove_labels ls i m l) = (if l \<in> set ls then set (m l) - {i} else set (m l))"
  by (induction ls arbitrary: m) (auto simp: remove_at_def removeID_def)

text \<open>What DeleteNode leaves: the node and its edges are gone, everything else is as before.\<close>

lemma DeleteNode_tables:
  assumes ok: "graph_ok fl g" and n: "g_nodeByID g i = Some n"
  shows "graph_ok fl (snd (DeleteNode i g)) \<and> g_nodeByID (snd (DeleteNode i g)) = (g_nodeByID g)(i := None)
    \<and> g_edgeByID (snd (DeleteNode i g)) = (\<lambda>j. case g_edgeByID g j of None \<Rightarrow> None
        | Some e \<Rightarrow> if ge_From e = i \<or> ge_To e = i then None else Some e)
    \<and> g_refByID (snd (DeleteNode i g)) = g_refByID g"
proof -
  let ?is = "g_edgeByFrom g i @ g_edgeByTo g i"
  let ?g1 = "delete_edges ?is g"
  let ?g2 = "?g1\<lparr>g_nodeByLabel := remove_labels (gn_Labels n) i (g_nodeByLabel ?g1), g_nodeByID := (g_nodeByID ?g1)(i := None)\<rparr>"
  have D: "same_nodes g ?g1" "g_edgeByID ?g1 = (\<lambda>j. if j \<in> set ?is then None else g_edgeByID g j)" "graph_ok fl ?g1"
    using delete_edges_step [of g ?is fl] ok by blast+
  have "covers (g_edgeByID g) (\<lambda>e n. ge_From e = n) (g_edgeByFrom g)" "covers (g_edgeByID g) (\<lambda>e n. ge_To e = n) (g_edgeByTo g)"
    using graph_ok_parts(3) [OF ok] unfolding edges_ok_def by blast+
  then have in_is: "j \<in> set ?is \<longleftrightarrow> (\<exists>e. g_edgeByID g j = Some e \<and> (ge_From e = i \<or> ge_To e = i))" for j
    by (auto simp: covers_def)
  have edges: "g_edgeByID ?g1 = (\<lambda>j. case g_edgeByID g j of None \<Rightarrow> None | Some e \<Rightarrow> if ge_From e = i \<or> ge_To e = i then None else Some e)"
    unfolding D(2) in_is by (auto simp: fun_eq_iff split: option.splits)
  have n1: "g_nodeByID ?g1 i = Some n" using D(1) n by (simp add: same_nodes_def)
  have P: "nodes_ok ?g1" "props_ok fl ?g1" "edges_ok ?g1" "no_dangling_edge ?g1" "refs_ok ?g1" using graph_ok_parts [OF D(3)] by blast+
  have "nodes_ok ?g2"
    using P(1) n1 unfolding nodes_ok_def covers_def by (auto simp: numbered_remove remove_labels_set has_label_def)
  moreover have "props_ok fl ?g2" using P(2) unfolding props_ok_def by (auto split: if_splits)
  moreover have "edges_ok ?g2" "refs_ok ?g2" using P(3,5) by (simp_all add: edges_ok_def refs_ok_def)
  moreover have "no_dangling_edge ?g2" using P(4) edges by (auto simp: no_dangling_edge_def split: option.splits if_splits)
  ultimately have ok2: "graph_ok fl ?g2" by (simp add: graph_ok_def)
  obtain s where "snd (DeleteNode i g) = ?g2\<lparr>g_Store := s\<rparr>"
    using blank_page_tables [of NodePageStart i ?g2] n by (auto simp: DeleteNode_def Let_def)
  then show ?thesis using ok2 edges D(1) by (simp add: same_nodes_def)
qed

lemma DeleteNode_ok: "graph_ok fl g \<Longrightarrow> graph_ok fl (snd (DeleteNode i g))"
  using DeleteNode_tables by (cases "g_nodeByID g i") (auto simp: DeleteNode_def)

lemma SaveToDisk_tables: "\<exists>s. snd (SaveToDisk js ord g) = g\<lparr>g_Store := s\<rparr>"
  by (auto simp: SaveToDisk_def Let_def split: outcome.splits prod.splits intro: exI [of _ "g_Store g"])

section \<open>Reachable graphs\<close>

text \<open>One operation of the package, as long as 63-bit identifiers last.\<close>

inductive graph_step :: "flt \<Rightarrow> Graph \<Rightarrow> Graph \<Rightarrow> bool" for fl where
  add_node: "room (g_nextNodeID g) \<Longrightarrow> graph_step fl g (snd (AddNode fl labels ps g))"
| add_edge: "room (g_nextEdgeID g) \<Longrightarrow> graph_step fl g (snd (AddEdge t a b g))"
| add_reference: "room (g_nextRefID g) \<Longrightarrow> graph_step fl g (snd (AddReference a b t g))"
| resolve: "room (g_nextRefID g) \<Longrightarrow> graph_step fl g (snd (ResolveCall fl ord c ctx g))"
| resolve_in: "room (g_nextRefID g) \<Longrightarrow> graph_step fl g (snd (ResolveCallWithContext fl ord c s name g))"
| delete_node: "graph_step fl g (snd (DeleteNode i g))"
| delete_edge: "graph_step fl g (snd (DeleteEdge i g))"
| save: "graph_step fl g (snd (SaveToDisk js ord g))"

inductive graph_reach :: "flt \<Rightarrow> Graph \<Rightarrow> bool" for fl where
  start: "graph_reach fl (NewGraph name s)"
| step: "graph_reach fl g \<Longrightarrow> graph_step fl g g' \<Longrightarrow> graph_reach fl g'"

lemma graph_step_ok: "graph_step fl g g' \<Longrightarrow> graph_ok fl g \<Longrightarrow> graph_ok fl g'"
proof (induction rule: graph_step.induct)
  case (delete_edge g i)
  then show ?case using deleteEdge_step [of g i fl] by (simp add: DeleteEdge_def)
next
  case (save g js ord)
  then show ?case using SaveToDisk_tables [of js ord g] by auto
qed (simp_all add: AddNode_ok AddEdge_ok AddReference_ok ResolveCall_ok ResolveCallWithContext_ok DeleteNode_ok)

lemma graph_reach_ok: "graph_reach fl g \<Longrightarrow> graph_ok fl g"
  by (induction rule: graph_reach.induct) (auto simp: NewGraph_ok dest: graph_step_ok)

section \<open>Lookups are scans\<close>

lemma GetEdges_out:
  assumes "graph_ok fl g"
  shows "set (GetEdges n DirectionOutgoing g) = {e. g_edgeByID g (ge_ID e) = Some e \<and> ge_From e = n}"
    "ascending (map ge_ID (GetEdges n DirectionOutgoing g))"
proof -
  have E: "covers (g_edgeByID g) (\<lambda>e n. ge_From e = n) (g_edgeByFrom g)" "numbered (g_edgeByID g) ge_ID (g_nextEdgeID g)" "ordered (g_edgeByFrom g)"
    using graph_ok_parts(3) [OF assms] unfolding edges_ok_def by blast+
  have "GetEdges n DirectionOutgoing g = fetch (g_edgeByID g) (\<lambda>_. True) (g_edgeByFrom g n)"
    by (simp add: GetEdges_def DirectionOutgoing_def DirectionIncoming_def DirectionBoth_def)
  then show "set (GetEdges n DirectionOutgoing g) = {e. g_edgeByID g (ge_ID e) = Some e \<and> ge_From e = n}"
      "ascending (map ge_ID (GetEdges n DirectionOutgoing g))"
    using fetch_index [OF E(1,2), of n] E(3) by (simp_all add: ordered_def)
qed

lemma GetEdges_in:
  assumes "graph_ok fl g"
  shows "set (GetEdges n DirectionIncoming g) = {e. g_edgeByID g (ge_ID e) = Some e \<and> ge_To e = n}"
    "ascending (map ge_ID (GetEdges n DirectionIncoming g))"
proof -
  have E: "covers (g_edgeByID g) (\<lambda>e n. ge_To e = n) (g_edgeByTo g)" "numbered (g_edgeByID g) ge_ID (g_nextEdgeID g)" "ordered (g_edgeByTo g)"
    using graph_ok_parts(3) [OF assms] unfolding edges_ok_def by blast+
  have "GetEdges n DirectionIncoming g = fetch (g_edgeByID g) (\<lambda>_. True) (g_edgeByTo g n)"
    by (simp add: GetEdges_def DirectionOutgoing_def DirectionIncoming_def DirectionBoth_def)
  then show "set (GetEdges n DirectionIncoming g) = {e. g_edgeByID g (ge_ID e) = Some e \<and> ge_To e = n}"
      "ascending (map ge_ID (GetEdges n DirectionIncoming g))"
    using fetch_index [OF E(1,2), of n] E(3) by (simp_all add: ordered_def)
qed

text \<open>A query's condition on a node.\<close>

definition query_matches :: "flt \<Rightarrow> Query \<Rightarrow> GNode \<Rightarrow> bool" where
  "query_matches fl q n \<longleftrightarrow> (q_Label q \<noteq> [] \<longrightarrow> HasLabel n (q_Label q))
     \<and> (q_Property q \<noteq> [] \<longrightarrow> prints fl n (q_Property q) (fmt_prop fl (q_Value q)))"

lemma set_fetch_nodes:
  assumes "nodes_ok g"
  shows "set (fetch (g_nodeByID g) p ids) = {n. g_nodeByID g (gn_ID n) = Some n \<and> gn_ID n \<in> set ids \<and> p n}"
proof -
  have "g_nodeByID g i = Some n \<Longrightarrow> gn_ID n = i" for i n using assms by (auto simp: nodes_ok_def numbered_def)
  then show ?thesis unfolding set_fetch by auto
qed

lemma FindNodes_scan:
  assumes ok: "graph_ok fl g" and ord: "set (ord (dom (g_nodeByID g))) = dom (g_nodeByID g)"
  shows "set (FindNodes fl ord q g) = {n. g_nodeByID g (gn_ID n) = Some n \<and> query_matches fl q n}"
proof -
  note N = graph_ok_parts(1) [OF ok]
  have L: "gn_ID n \<in> set (g_nodeByLabel g l) \<longleftrightarrow> l \<in> set (gn_Labels n)" if "g_nodeByID g (gn_ID n) = Some n" for n l
    using N that by (auto simp: nodes_ok_def covers_def has_label_def)
  have P: "gn_ID n \<in> set (g_nodeByProp g k v) \<longleftrightarrow> prints fl n k v" if "g_nodeByID g (gn_ID n) = Some n" for n k v
    using graph_ok_parts(2) [OF ok] that by (auto simp: props_ok_def)
  show ?thesis
    using L P ord by (auto simp: FindNodes_def map_values_def query_matches_def set_fetch_nodes [OF N])
qed

lemma GetReferences_scan:
  assumes ok: "graph_ok fl g"
  shows "set (GetReferences n DirectionOutgoing g) = {r. g_refByID g (rf_ID r) = Some r \<and> rf_Source r = n}"
    "set (GetReferences n DirectionIncoming g) = {r. g_refByID g (rf_ID r) = Some r \<and> rf_Resolved r \<and> rf_Target r = n}"
proof -
  have R: "numbered (g_refByID g) rf_ID (g_nextRefID g)" "covers (g_refByID g) (\<lambda>r n. rf_Source r = n) (g_refBySource g)"
      "covers (g_refByID g) (\<lambda>r n. rf_Resolved r \<and> rf_Target r = n) (g_refByTarget g)"
    using graph_ok_parts(5) [OF ok] unfolding refs_ok_def by blast+
  show "set (GetReferences n DirectionOutgoing g) = {r. g_refByID g (rf_ID r) = Some r \<and> rf_Source r = n}"
    "set (GetReferences n DirectionIncoming g) = {r. g_refByID g (rf_ID r) = Some r \<and> rf_Resolved r \<and> rf_Target r = n}"
    using fetch_index(1) [OF R(2,1), of n] fetch_index(1) [OF R(3,1), of n]
    by (simp_all add: GetReferences_def DirectionOutgoing_def DirectionIncoming_def)
qed

end
