(* ===== verification/TraverseSpec.thy ===== *)
theory TraverseSpec imports Traverse GraphSpec begin

text \<open>
  What the searches find. A route is a list of admissible edges, each followed from the node
  reached so far; its stations are the nodes it visits. FindPath returns routes, and the first
  one is as short as any; FindAllPaths returns exactly the simple routes.
\<close>

section \<open>Routes\<close>

fun stations :: "i64 \<Rightarrow> GEdge list \<Rightarrow> i64 list" where
  "stations a [] = [a]"
| "stations a (e # es) = a # stations (next_id a e) es"

definition usable :: "TraversalConfig \<Rightarrow> Graph \<Rightarrow> i64 \<Rightarrow> GEdge \<Rightarrow> bool" where
  "usable cfg g a e \<longleftrightarrow> e \<in> set (GetEdges a (tc_Direction cfg) g) \<and> type_ok (tc_EdgeTypes cfg) e \<and> g_nodeByID g (next_id a e) \<noteq> None"

fun route :: "TraversalConfig \<Rightarrow> Graph \<Rightarrow> i64 \<Rightarrow> GEdge list \<Rightarrow> i64 \<Rightarrow> bool" where
  "route cfg g a [] b = (a = b)"
| "route cfg g a (e # es) b = (usable cfg g a e \<and> route cfg g (next_id a e) es b)"

definition path_along :: "Graph \<Rightarrow> i64 \<Rightarrow> GEdge list \<Rightarrow> Path" where
  "path_along g a es = \<lparr>p_Nodes = map (\<lambda>i. the (g_nodeByID g i)) (stations a es), p_Edges = es\<rparr>"

lemma stations_ne [simp]: "stations a es \<noteq> []"
  by (cases es) auto

lemma length_stations [simp]: "length (stations a es) = Suc (length es)"
  by (induction es arbitrary: a) auto

lemma stations_Cons: "stations a es = a # tl (stations a es)"
  by (cases es) auto

lemma route_end: "route cfg g a es b \<Longrightarrow> last (stations a es) = b"
  by (induction es arbitrary: a) auto

lemma route_snoc: "route cfg g a (es @ [e]) c \<longleftrightarrow> (\<exists>b. route cfg g a es b \<and> usable cfg g b e \<and> c = next_id b e)"
  by (induction es arbitrary: a) auto

lemma route_append: "route cfg g a (es1 @ es2) c \<longleftrightarrow> (\<exists>b. route cfg g a es1 b \<and> route cfg g b es2 c)"
  by (induction es1 arbitrary: a) auto

lemma stations_snoc: "route cfg g a es b \<Longrightarrow> stations a (es @ [e]) = stations a es @ [next_id b e]"
  by (induction es arbitrary: a) auto

lemma end_in_stations: "route cfg g a es b \<Longrightarrow> b \<in> set (stations a es)"
  by (induction es arbitrary: a) auto

lemma end_in_tl: "route cfg g a es b \<Longrightarrow> es \<noteq> [] \<Longrightarrow> b \<in> set (tl (stations a es))"
  by (cases es) (auto intro: end_in_stations)

lemma path_along_snoc:
  assumes "route cfg g a es b" "g_nodeByID g (next_id b e) = Some n"
  shows "path_along g a (es @ [e]) = \<lparr>p_Nodes = p_Nodes (path_along g a es) @ [n], p_Edges = p_Edges (path_along g a es) @ [e]\<rparr>"
  using assms by (simp add: path_along_def stations_snoc [OF assms(1)])

text \<open>The last station in a set that a route meets after its start.\<close>

lemma last_hit:
  "route cfg g a es b \<Longrightarrow> set (tl (stations a es)) \<inter> v \<noteq> {} \<Longrightarrow>
    \<exists>es1 c es2. es = es1 @ es2 \<and> es1 \<noteq> [] \<and> c \<in> v \<and> c \<in> set (tl (stations a es)) \<and> route cfg g c es2 b \<and> set (tl (stations c es2)) \<inter> v = {}"
proof (induction es arbitrary: a)
  case (Cons e es)
  let ?n = "next_id a e"
  have r: "route cfg g ?n es b" using Cons.prems(1) by simp
  show ?case
  proof (cases "set (tl (stations ?n es)) \<inter> v = {}")
    case True
    then have "?n \<in> v" using Cons.prems(2) stations_Cons [of ?n es] by (metis Int_insert_left list.sel(3) list.simps(15) stations.simps(2))
    then show ?thesis using r True by (intro exI [of _ "[e]"] exI [of _ ?n] exI [of _ es]) (simp, subst stations_Cons, simp)
  next
    case False
    from Cons.IH [OF r False] obtain es1 c es2 where
      "es = es1 @ es2 \<and> es1 \<noteq> [] \<and> c \<in> v \<and> c \<in> set (tl (stations ?n es)) \<and> route cfg g c es2 b \<and> set (tl (stations c es2)) \<inter> v = {}" by blast
    then show ?thesis by (intro exI [of _ "e # es1"] exI [of _ c] exI [of _ es2]) (auto dest: list.set_sel(2) [rotated])
  qed
qed simp

section \<open>FindPath\<close>

definition extends :: "(i64 \<Rightarrow> GNode option) \<Rightarrow> string list \<Rightarrow> i64 \<Rightarrow> Path \<Rightarrow> GEdge list \<Rightarrow> i64 \<Rightarrow> Path \<Rightarrow> bool" where
  "extends m types node path es b p \<longleftrightarrow> (\<exists>e n. e \<in> set es \<and> type_ok types e \<and> next_id node e = b \<and> m b = Some n
     \<and> p = \<lparr>p_Nodes = p_Nodes path @ [n], p_Edges = p_Edges path @ [e]\<rparr>)"

lemma extends_more: "extends m types node path es b p \<Longrightarrow> extends m types node path (e # es) b p"
  by (auto simp: extends_def)

lemma bfs_edges_spec:
  "bfs_edges types m to node path es V = (q, ps, v) \<Longrightarrow>
    v = V \<union> fst ` set q \<and> (\<forall>(b, p) \<in> set q. b \<notin> V \<and> b \<noteq> to \<and> extends m types node path es b p)
    \<and> (\<forall>p \<in> set ps. to \<notin> V \<and> extends m types node path es to p)
    \<and> (to \<notin> V \<longrightarrow> (\<forall>e \<in> set es. type_ok types e \<longrightarrow> m (next_id node e) \<noteq> None \<longrightarrow> next_id node e \<in> v \<or> ps \<noteq> []))"
proof (induction es arbitrary: V q ps v)
  case (Cons e es)
  let ?n = "next_id node e"
  show ?case
  proof (cases "\<not> type_ok types e \<or> ?n \<in> V \<or> m ?n = None")
    case True
    then have "bfs_edges types m to node path es V = (q, ps, v)" using Cons.prems by (auto simp: Let_def split: option.splits if_splits)
    from Cons.IH [OF this] show ?thesis using True by (auto intro: extends_more)
  next
    case False
    then obtain n where n: "m ?n = Some n" and t: "type_ok types e" "?n \<notin> V" by auto
    let ?p = "\<lparr>p_Nodes = p_Nodes path @ [n], p_Edges = p_Edges path @ [e]\<rparr>"
    have new: "extends m types node path (e # es) ?n ?p" using n t(1) by (auto simp: extends_def)
    show ?thesis
    proof (cases "?n = to")
      case True
      then obtain ps' where r: "bfs_edges types m to node path es V = (q, ps', v)" "ps = ?p # ps'"
        using Cons.prems n t by (auto simp: Let_def split: prod.splits)
      show ?thesis using Cons.IH [OF r(1)] r(2) True new t(2) by (auto intro: extends_more)
    next
      case False
      then obtain q' where r: "bfs_edges types m to node path es (insert ?n V) = (q', ps, v)" "q = (?n, ?p) # q'"
        using Cons.prems n t by (auto simp: Let_def split: prod.splits)
      show ?thesis using Cons.IH [OF r(1)] r(2) False new t(2) by (auto intro: extends_more)
    qed
  qed
qed auto

subsection \<open>Every path returned is a route\<close>

definition within :: "TraversalConfig \<Rightarrow> nat \<Rightarrow> bool" where
  "within cfg k \<longleftrightarrow> (0 < tc_MaxDepth cfg \<longrightarrow> int k \<le> tc_MaxDepth cfg)"

definition simple_route :: "TraversalConfig \<Rightarrow> Graph \<Rightarrow> i64 \<Rightarrow> i64 \<Rightarrow> Path \<Rightarrow> bool" where
  "simple_route cfg g a b p \<longleftrightarrow> route cfg g a (p_Edges p) b \<and> p = path_along g a (p_Edges p) \<and> distinct (stations a (p_Edges p))
     \<and> within cfg (length (p_Edges p))"

lemma extends_route:
  assumes p: "simple_route cfg g a node p" "set (stations a (p_Edges p)) \<subseteq> V" "\<not> too_deep cfg p" "b \<notin> V"
    and x: "extends (g_nodeByID g) (tc_EdgeTypes cfg) node p (GetEdges node (tc_Direction cfg) g) b p'"
  shows "simple_route cfg g a b p'" "set (stations a (p_Edges p')) \<subseteq> insert b V" "length (p_Edges p') = Suc (length (p_Edges p))"
proof -
  obtain e n where e: "e \<in> set (GetEdges node (tc_Direction cfg) g)" "type_ok (tc_EdgeTypes cfg) e" "next_id node e = b" "g_nodeByID g b = Some n"
      "p' = \<lparr>p_Nodes = p_Nodes p @ [n], p_Edges = p_Edges p @ [e]\<rparr>" using x by (auto simp: extends_def)
  have r: "route cfg g a (p_Edges p) node" and pa: "p = path_along g a (p_Edges p)" using p(1) by (simp_all add: simple_route_def)
  have s: "stations a (p_Edges p') = stations a (p_Edges p) @ [b]" using stations_snoc [OF r, of e] e(3,5) by simp
  have "route cfg g a (p_Edges p') b" using r e by (auto simp: route_snoc usable_def)
  moreover have "p' = path_along g a (p_Edges p')" using path_along_snoc [OF r, of e n] e(3-5) pa by simp
  moreover have "distinct (stations a (p_Edges p'))" using p(1,2,4) s by (auto simp: simple_route_def)
  moreover have "within cfg (length (p_Edges p'))" using p(1,3) e(5) by (auto simp: within_def too_deep_def)
  ultimately show "simple_route cfg g a b p'" by (simp add: simple_route_def)
  show "set (stations a (p_Edges p')) \<subseteq> insert b V" using s p(2) by auto
  show "length (p_Edges p') = Suc (length (p_Edges p))" using e(5) by simp
qed

lemma bfs_sound:
  "\<forall>(n, p) \<in> set queue. simple_route cfg g a n p \<and> set (stations a (p_Edges p)) \<subseteq> visited \<Longrightarrow>
    \<forall>p \<in> set (bfs cfg g to queue visited). simple_route cfg g a to p"
proof (induction cfg g to queue visited rule: bfs.induct)
  case (2 cfg g to node path queue visited)
  show ?case
  proof (cases "too_deep cfg path")
    case True
    then show ?thesis using "2.IH"(1) "2.prems" by simp
  next
    case False
    obtain q ps v where b: "bfs_edges (tc_EdgeTypes cfg) (g_nodeByID g) to node path (GetEdges node (tc_Direction cfg) g) visited = (q, ps, v)"
      by (metis prod_cases3)
    note S = bfs_edges_spec [OF b]
    have p: "simple_route cfg g a node path" "set (stations a (p_Edges path)) \<subseteq> visited" using "2.prems" by auto
    have v: "v = visited \<union> fst ` set q" using S by blast
    have V: "visited \<subseteq> v" "\<And>n p. (n, p) \<in> set q \<Longrightarrow> n \<in> v" unfolding v by force+
    have X: "\<And>n p. (n, p) \<in> set q \<Longrightarrow> n \<notin> visited
        \<and> extends (g_nodeByID g) (tc_EdgeTypes cfg) node path (GetEdges node (tc_Direction cfg) g) n p" using S by blast
    have q: "\<forall>(n, p) \<in> set (queue @ q). simple_route cfg g a n p \<and> set (stations a (p_Edges p)) \<subseteq> v"
    proof (intro ballI, clarify)
      fix n p' assume "(n, p') \<in> set (queue @ q)"
      then consider "(n, p') \<in> set queue" | "(n, p') \<in> set q" by auto
      then show "simple_route cfg g a n p' \<and> set (stations a (p_Edges p')) \<subseteq> v"
      proof cases
        case 1
        then have "simple_route cfg g a n p' \<and> set (stations a (p_Edges p')) \<subseteq> visited" using "2.prems" by auto
        then show ?thesis using V(1) by blast
      next
        case 2
        note x = X [OF 2]
        show ?thesis using extends_route [OF p False x [THEN conjunct1] x [THEN conjunct2]] V(1) V(2) [OF 2] by blast
      qed
    qed
    have "\<forall>p \<in> set ps. simple_route cfg g a to p" using S extends_route(1) [OF p False] by blast
    then show ?thesis using "2.IH"(2) [OF False b [symmetric] refl q] False b by auto
  qed
qed simp

subsection \<open>The first path is a shortest one\<close>

text \<open>The queue is in the order of path length, and spans at most two lengths.\<close>

abbreviation plen :: "i64 \<times> Path \<Rightarrow> nat" where "plen x \<equiv> length (p_Edges (snd x))"

definition levels :: "(i64 \<times> Path) list \<Rightarrow> bool" where
  "levels queue \<longleftrightarrow> sorted (map plen queue) \<and> (\<forall>x \<in> set queue. plen x \<le> Suc (plen (hd queue)))"

lemma levels_tl: "levels (x # queue) \<Longrightarrow> levels queue"
proof (cases queue)
  case (Cons y ys)
  assume l: "levels (x # queue)"
  then have xy: "plen x \<le> plen y" and "sorted (map plen queue)" using Cons by (simp_all add: levels_def)
  moreover have "plen z \<le> Suc (plen y)" if "z \<in> set queue" for z
  proof -
    have "plen z \<le> Suc (plen x)" using l that by (simp add: levels_def)
    then show ?thesis using xy by simp
  qed
  ultimately show "levels queue" using Cons by (simp add: levels_def)
qed (simp add: levels_def)

lemma levels_push:
  assumes "levels (x # queue)" "\<forall>y \<in> set q. plen y = Suc (plen x)"
  shows "levels (queue @ q)"
proof (cases queue)
  case Nil
  have "sorted (map plen q)" using assms(2) by (induction q) auto
  then show ?thesis using assms(2) Nil by (cases q) (auto simp: levels_def)
next
  case (Cons y ys)
  have "sorted (map plen q)" using assms(2) by (induction q) auto
  then show ?thesis using assms Cons unfolding levels_def by (auto simp: sorted_append)
qed

lemma bfs_shortest:
  "levels queue \<Longrightarrow> (a, pa) \<in> set queue \<Longrightarrow> route cfg g a es to \<Longrightarrow> es \<noteq> [] \<Longrightarrow> set (tl (stations a es)) \<inter> visited = {} \<Longrightarrow>
    within cfg (length (p_Edges pa) + length es) \<Longrightarrow>
    bfs cfg g to queue visited \<noteq> [] \<and> length (p_Edges (hd (bfs cfg g to queue visited))) \<le> length (p_Edges pa) + length es"
proof (induction cfg g to queue visited arbitrary: a pa es rule: bfs.induct)
  case (2 cfg g to node path queue visited)
  have le: "length (p_Edges path) \<le> length (p_Edges pa)"
    using "2.prems"(1,2) by (fastforce simp: levels_def)
  have pos: "\<exists>k. length es = Suc k" using "2.prems"(4) by (cases es) auto
  then have deep: "\<not> too_deep cfg path" using "2.prems"(6) le by (auto simp: too_deep_def within_def)
  obtain q ps v where b: "bfs_edges (tc_EdgeTypes cfg) (g_nodeByID g) to node path (GetEdges node (tc_Direction cfg) g) visited = (q, ps, v)"
    by (metis prod_cases3)
  note S = bfs_edges_spec [OF b]
  have run: "bfs cfg g to ((node, path) # queue) visited = ps @ bfs cfg g to (queue @ q) v" using deep b by simp
  have "to \<in> set (tl (stations a es))" by (rule end_in_tl [OF "2.prems"(3,4)])
  then have to: "to \<notin> visited" "to \<notin> v" using "2.prems"(5) S by fastforce+
  have qlen: "\<forall>y \<in> set q. plen y = Suc (plen (node, path))" using S by (fastforce simp: extends_def)
  have lv: "levels (queue @ q)" by (rule levels_push [OF "2.prems"(1) qlen])
  show ?case
  proof (cases "ps = []")
    case False
    then have "hd ps \<in> set ps" by simp
    then have "length (p_Edges (hd ps)) = Suc (length (p_Edges path))" using S by (fastforce simp: extends_def)
    then show ?thesis using False le pos run by auto
  next
    case True
    note IH = "2.IH"(2) [OF deep b [symmetric] refl lv]
    show ?thesis
    proof (cases "set (tl (stations a es)) \<inter> v = {}")
      case no_hit: True
      have "(a, pa) \<noteq> (node, path)"
      proof
        assume "(a, pa) = (node, path)"
        obtain e es' where es: "es = e # es'" using "2.prems"(4) by (cases es) auto
        then have u: "usable cfg g a e" using "2.prems"(3) by simp
        have "next_id a e \<in> set (tl (stations a es))" using es by simp (subst stations_Cons, simp)
        moreover have "next_id a e \<in> v" using S u to(1) True \<open>(a, pa) = (node, path)\<close> by (auto simp: usable_def)
        ultimately show False using no_hit by blast
      qed
      then have "(a, pa) \<in> set (queue @ q)" using "2.prems"(2) by auto
      from IH [OF this "2.prems"(3,4) no_hit "2.prems"(6)] show ?thesis using run True by simp
    next
      case False
      from last_hit [OF "2.prems"(3) False] obtain es1 c es2 where h: "es = es1 @ es2" "es1 \<noteq> []" "c \<in> v" "c \<in> set (tl (stations a es))"
          "route cfg g c es2 to" "set (tl (stations c es2)) \<inter> v = {}" by blast
      have "c \<notin> visited" using h(4) "2.prems"(5) by blast
      then obtain pc where pc: "(c, pc) \<in> set q" using h(3) S by auto
      have len: "length (p_Edges pc) = Suc (length (p_Edges path))" using qlen pc by fastforce
      have ne: "es2 \<noteq> []" using h(5,3) to(2) by auto
      have "Suc 0 \<le> length es1" using h(2) by (cases es1) auto
      then have short: "length (p_Edges pc) + length es2 \<le> length (p_Edges pa) + length es" using len le h(1) by (simp del: length_greater_0_conv)
      then have w: "within cfg (length (p_Edges pc) + length es2)" using "2.prems"(6) by (auto simp: within_def)
      have "(c, pc) \<in> set (queue @ q)" using pc by simp
      from IH [OF this h(5) ne h(6) w] show ?thesis using run True short by simp
    qed
  qed
qed simp

section \<open>FindAllPaths\<close>

text \<open>What the depth-first search adds to the path it starts with.\<close>

definition continues :: "TraversalConfig \<Rightarrow> Graph \<Rightarrow> i64 \<Rightarrow> i64 \<Rightarrow> Path \<Rightarrow> i64 set \<Rightarrow> GEdge list \<Rightarrow> bool" where
  "continues cfg g target cur path visited es \<longleftrightarrow> g_nodeByID g cur \<noteq> None \<and> route cfg g cur es target \<and> distinct (stations cur es)
     \<and> set (stations cur es) \<inter> visited = {} \<and> (p_Nodes path \<noteq> [] \<or> es \<noteq> [])
     \<and> (0 < tc_MaxDepth cfg \<longrightarrow> int (length (p_Edges path) + length es) < tc_MaxDepth cfg)"

definition prolong :: "Graph \<Rightarrow> i64 \<Rightarrow> Path \<Rightarrow> GEdge list \<Rightarrow> Path" where
  "prolong g cur path es = \<lparr>p_Nodes = p_Nodes path @ p_Nodes (path_along g cur es), p_Edges = p_Edges path @ es\<rparr>"

lemma dfs_spec:
  "cur \<notin> visited \<Longrightarrow> set (dfs cfg g target cur path visited) = prolong g cur path ` {es. continues cfg g target cur path visited es}"
proof (induction cfg g target cur path visited rule: dfs.induct)
  case (1 cfg g target cur path visited)
  let ?C = "continues cfg g target cur path visited"
  show ?case
  proof (cases "too_deep cfg path \<or> g_nodeByID g cur = None")
    case True
    then have "\<not> ?C es" for es by (auto simp: continues_def too_deep_def)
    then show ?thesis using True by (auto simp: dfs.simps split: option.splits)
  next
    case False
    then obtain n where n: "g_nodeByID g cur = Some n" and deep: "\<not> too_deep cfg path" by auto
    let ?p = "path\<lparr>p_Nodes := p_Nodes path @ [n]\<rparr>"
    show ?thesis
    proof (cases "cur = target \<and> 1 < length (p_Nodes ?p)")
      case True
      have only: "?C es \<longleftrightarrow> es = []" for es
      proof
        assume C: "?C es"
        show "es = []"
        proof (rule ccontr)
          assume "es \<noteq> []"
          then have "target \<in> set (tl (stations cur es))" using C end_in_tl by (auto simp: continues_def)
          moreover have "distinct (cur # tl (stations cur es))" using C stations_Cons [of cur es] by (simp add: continues_def)
          ultimately show False using True by simp
        qed
      next
        assume "es = []"
        then show "?C es" using True n "1.prems" deep by (auto simp: continues_def too_deep_def)
      qed
      have "dfs cfg g target cur path visited = [?p]" using n deep True by (simp add: dfs.simps Let_def)
      moreover have "prolong g cur path [] = ?p" using n by (simp add: prolong_def path_along_def)
      moreover have "{es. ?C es} = {[]}" using only by blast
      ultimately show ?thesis by simp
    next
      case False
      let ?E = "filter (\<lambda>e. next_id cur e \<notin> insert cur visited \<and> type_ok (tc_EdgeTypes cfg) e) (GetEdges cur (tc_Direction cfg) g)"
      let ?P = "\<lambda>e. ?p\<lparr>p_Edges := p_Edges ?p @ [e]\<rparr>"
      have run: "set (dfs cfg g target cur path visited) = (\<Union>e \<in> set ?E. set (dfs cfg g target (next_id cur e) (?P e) (insert cur visited)))"
        using n deep False by (subst dfs.simps) (auto simp: Let_def split: if_splits)
      have IH: "set (dfs cfg g target (next_id cur e) (?P e) (insert cur visited))
          = prolong g (next_id cur e) (?P e) ` {es. continues cfg g target (next_id cur e) (?P e) (insert cur visited) es}" if "e \<in> set ?E" for e
        using "1.IH" [OF deep n refl False that] that by simp
      have ex: "prolong g (next_id cur e) (?P e) es = prolong g cur path (e # es)" for e es
        using n by (simp add: prolong_def path_along_def)
      have st: "?C es \<longleftrightarrow> (\<exists>e es'. es = e # es' \<and> e \<in> set ?E \<and> continues cfg g target (next_id cur e) (?P e) (insert cur visited) es')" for es
      proof (cases es)
        case Nil
        then show ?thesis using False by (auto simp: continues_def)
      next
        case (Cons e es')
        have "next_id cur e \<in> set (stations (next_id cur e) es')" by (subst stations_Cons) simp
        then show ?thesis using Cons n "1.prems" by (auto simp: continues_def usable_def)
      qed
      have "set (dfs cfg g target cur path visited)
          = (\<Union>e \<in> set ?E. (\<lambda>es. prolong g cur path (e # es)) ` {es. continues cfg g target (next_id cur e) (?P e) (insert cur visited) es})"
        unfolding run using IH ex by simp
      also have "\<dots> = prolong g cur path ` {es. ?C es}" unfolding st by blast
      finally show ?thesis .
    qed
  qed
qed

end
