(* ===== verification/GraphProps.thy ===== *)
theory GraphProps imports TraverseSpec begin

text \<open>
  The properties of the code graph: indexes, deletion, the two path searches, the search for
  call paths, and the store.
\<close>

section \<open>Reading the store\<close>

lemma ReadPage_header:
  assumes "DiskManager_ReadPage pid d = Ok p"
  shows "get64 (slice 0 8 (pg_Data p)) = pid" "length (pg_Data p) = PageSize"
proof -
  have n: "get64 (slice 0 8 (pg_Data (NewPage pid))) = pid" using ReadHeader_NewPage [of pid] by (simp add: Page_ReadHeader_def)
  then show "get64 (slice 0 8 (pg_Data p)) = pid"
    using assms by (auto simp: DiskManager_ReadPage_def Let_def Page_ReadHeader_def split: if_splits)
  show "length (pg_Data p) = PageSize"
    using assms by (auto simp: DiskManager_ReadPage_def Let_def read_at_def split: if_splits)
qed

lemma le_nat_zero_head: "le_nat bs = 0 \<Longrightarrow> bs \<noteq> [] \<Longrightarrow> hd bs = 0"
  by (cases bs) (auto simp: unat_eq_0)

text \<open>The window of a page whose number has 32 bits starts with a zero byte.\<close>

lemma read_window_zero:
  assumes r: "DiskManager_ReadPage pid d = Ok p" and small: "unat pid < 2 ^ 32" and w: "read_window p = Some bs"
  shows "\<exists>rest. bs = 0 # rest"
proof -
  let ?D = "pg_Data p"
  have L: "length ?D = 4096" using ReadPage_header(2) [OF r] by (simp add: layout)
  have "le_nat (slice 0 8 ?D) < 2 ^ 64" using le_nat_bound [of "slice 0 8 ?D"] L by simp
  then have h: "le_nat (slice 0 8 ?D) = unat pid" using ReadPage_header(1) [OF r] by (auto simp: get64_def unat_of_nat)
  have "slice 0 8 ?D = slice 0 4 ?D @ slice 4 8 ?D" by (simp add: slice_def flip: take_add)
  then have "le_nat (slice 0 4 ?D) + 2 ^ 32 * le_nat (slice 4 8 ?D) = unat pid"
    using h le_nat_append [of "slice 0 4 ?D" "slice 4 8 ?D"] L by simp
  then have "le_nat (slice 4 8 ?D) = 0" using small by (cases "le_nat (slice 4 8 ?D)") auto
  moreover have "slice 4 8 ?D \<noteq> []" using L by (simp add: slice_def)
  ultimately have z: "hd (slice 4 8 ?D) = 0" by (rule le_nat_zero_head)
  have hd: "hd (slice 4 j ?D) = ?D ! 4" if "4 < j" for j using L that by (simp add: slice_def hd_drop_conv_nth hd_take)
  obtain len :: u32 where len: "len \<noteq> 0" "bs = slice 4 (4 + unat len) ?D" "unat len \<le> 4092"
    using w by (auto simp: read_window_def Let_def GraphPageSize_def split: if_splits)
  have "0 < unat len" using len(1) by (simp add: unat_gt_0)
  then have "bs \<noteq> [] \<and> hd bs = 0" using len L z hd [of 8] hd [of "4 + unat len"] by (auto simp: slice_def)
  then show ?thesis by (cases bs) auto
qed

lemma read_pages_empty:
  assumes "\<forall>bs. parse (0 # bs) = []" "\<forall>pid \<in> set pids. unat pid < 2 ^ 32"
  shows "read_pages parse pids d = []"
  using assms(2)
proof (induction pids)
  case (Cons pid pids)
  then show ?case using read_window_zero [of pid d] assms(1) by (fastforce split: outcome.splits option.splits)
qed simp

lemma page_range_small: "unat b \<le> 2 ^ 32 \<Longrightarrow> \<forall>pid \<in> set (page_range a b). unat pid < 2 ^ 32"
  by (auto simp: page_range_def) (simp only: unat_of_nat, simp)

lemma meta_names:
  "ToLower ''name'' = ''name''"
  "ToLower ''next_edge_id'' = ''next_edge_id''"
  "ToLower ''next_edge_page'' = ''next_edge_page''"
  "ToLower ''next_node_id'' = ''next_node_id''"
  "ToLower ''next_node_page'' = ''next_node_page''"
  "ToLower ''next_ref_id'' = ''next_ref_id''"
  "ToLower ''Name'' = ''name''"
  "ToLower ''NextNodeID'' = ''nextnodeid''"
  "ToLower ''NextEdgeID'' = ''nextedgeid''"
  "ToLower ''NextRefID'' = ''nextrefid''"
  "ToLower ''NextNodePage'' = ''nextnodepage''"
  "ToLower ''NextEdgePage'' = ''nextedgepage''"
  by code_simp+

lemma load_keeps_store [simp]: "g_Store (snd (load_nodes fl ns x)) = g_Store x" "g_Store (snd (load_edges es y)) = g_Store y"
proof -
  show "g_Store (snd (load_nodes fl ns x)) = g_Store x"
    by (induction fl ns x rule: load_nodes.induct) (simp_all add: index_node_def)
  show "g_Store (snd (load_edges es y)) = g_Store y"
    by (induction es y rule: load_edges.induct) (simp_all add: index_edge_def index_ref_def)
qed

text \<open>Load after the metadata.\<close>

definition load_rest :: "flt \<Rightarrow> gjson \<Rightarrow> Graph \<Rightarrow> (graph_err, unit) outcome \<times> Graph" where
  "load_rest fl js g1 = (case load_nodes fl (GetAllNodes js (g_Store g1)) g1 of
     (Ok _, g2) \<Rightarrow> load_edges (GetAllEdges js (g_Store g2)) g2 | (r, g2) \<Rightarrow> (r, g2))"

lemma load_rest_store: "load_rest fl js g1 = (r, g') \<Longrightarrow> g_Store g' = g_Store g1"
proof -
  assume L: "load_rest fl js g1 = (r, g')"
  obtain r2 g2 where n: "load_nodes fl (GetAllNodes js (g_Store g1)) g1 = (r2, g2)" by fastforce
  then have "g_Store g2 = g_Store g1" using load_keeps_store(1) [of fl "GetAllNodes js (g_Store g1)" g1] by simp
  moreover have "g_Store g' = g_Store g2"
    using L n load_keeps_store(2) [of "GetAllEdges js (g_Store g2)" g2] by (cases r2) (auto simp: load_rest_def)
  ultimately show "g_Store g' = g_Store g1" by simp
qed

lemma Load_cases:
  assumes "Load fl js g = (r, g')"
  shows "g' = g \<or> (\<exists>bs. g_Store g' = g_Store (load_meta (parse_obj js bs) g) \<and> load_rest fl js (load_meta (parse_obj js bs) g) = (r, g'))"
proof (cases "DiskManager_ReadPage 0 (gs_Disk (g_Store g))")
  case (Ok p)
  define len where "len = unat (get32 (slice meta_offset (meta_offset + 4) (pg_Data p)))"
  show ?thesis
  proof (cases "meta_offset + 4 + len > PageSize")
    case False
    then have "load_rest fl js (load_meta (parse_obj js (slice (meta_offset + 4) (meta_offset + 4 + len) (pg_Data p))) g) = (r, g')"
      using assms Ok by (simp add: Load_def load_rest_def Let_def len_def)
    then show ?thesis using load_rest_store by blast
  qed (use assms Ok in \<open>simp add: Load_def Let_def len_def\<close>)
qed (use assms in \<open>auto simp: Load_def\<close>)

text \<open>The JSON decoder leaves the slice alone when the text is not JSON; no JSON text starts with a zero byte.\<close>

definition rejects_nul :: "gjson \<Rightarrow> bool" where
  "rejects_nul js \<longleftrightarrow> (\<forall>bs. js_get_nodes js (0 # bs) = []) \<and> (\<forall>bs. js_get_edges js (0 # bs) = [])"

text \<open>C22: Load restores nothing: whatever file it reads, it adds no node, edge or reference to the graph, provided the
  JSON decoder refuses texts that start with a zero byte, as every JSON decoder does, and the page counters of the
  store do not exceed 2^32. Flush writes the length of a page's text behind the page header, but GetAllNodes
  and GetAllEdges take the first four bytes of the page, its own number, for that length and hand the
  decoder a text that starts with a zero byte. Nor are the counters of a saved graph recognised: of the
  keys SaveToDisk writes, Load knows only the name.\<close>

theorem load_restores_nothing:
  assumes "rejects_nul js" "Load fl js g = (r, g')"
    and "unat (gs_nextNodePage (g_Store g')) \<le> 2 ^ 32" "unat (gs_nextEdgePage (g_Store g')) \<le> 2 ^ 32"
  shows "g_nodeByID g' = g_nodeByID g \<and> g_edgeByID g' = g_edgeByID g \<and> g_refByID g' = g_refByID g
    \<and> g_nodeByLabel g' = g_nodeByLabel g \<and> g_edgeByFrom g' = g_edgeByFrom g \<and> g_edgeByTo g' = g_edgeByTo g
    \<and> load_meta (meta_object h) g = g\<lparr>g_Name := g_Name h\<rparr>"
proof -
  have meta: "load_meta (meta_object h) g = g\<lparr>g_Name := g_Name h\<rparr>"
    by (simp add: load_meta_def meta_object_def field_int64_def field_uint64_def EqualFold_def meta_names Let_def)
  have "\<exists>obj. g' = load_meta obj g \<or> g' = g"
    using Load_cases [OF assms(2)]
  proof
    assume "\<exists>bs. g_Store g' = g_Store (load_meta (parse_obj js bs) g) \<and> load_rest fl js (load_meta (parse_obj js bs) g) = (r, g')"
    then obtain bs where bs: "g_Store g' = g_Store (load_meta (parse_obj js bs) g)" "load_rest fl js (load_meta (parse_obj js bs) g) = (r, g')" by blast
    then have "GetAllNodes js (g_Store (load_meta (parse_obj js bs) g)) = []" "GetAllEdges js (g_Store (load_meta (parse_obj js bs) g)) = []"
      unfolding GetAllNodes_def GetAllEdges_def using assms(1,3,4) page_range_small
      by (auto simp: rejects_nul_def intro!: read_pages_empty)
    then show ?thesis using bs(2) by (auto simp: load_rest_def)
  qed blast
  then show ?thesis using meta by (auto simp: load_meta_def Let_def)
qed

section \<open>Call paths\<close>

text \<open>Each name is called inside the function reached so far, and the search goes on in a function of that name.\<close>

fun call_chain :: "flt \<Rightarrow> order \<Rightarrow> Graph \<Rightarrow> i64 \<Rightarrow> string list \<Rightarrow> i64 \<Rightarrow> bool" where
  "call_chain fl ord g cur [] target = (cur = target)"
| "call_chain fl ord g cur (x # xs) target =
     (\<exists>c f. c \<in> set (GetNeighbors cur DirectionOutgoing g) \<and> HasLabel c ''call'' \<and> fmt_prop fl (prop_or_nil c ''name'') = x
       \<and> f \<in> set (FindNodes fl ord (by_name ''function'' (PString x)) g) \<and> call_chain fl ord g (gn_ID f) xs target)"

definition chained :: "flt \<Rightarrow> order \<Rightarrow> Graph \<Rightarrow> i64 \<Rightarrow> i64 \<Rightarrow> string list \<Rightarrow> nat \<Rightarrow> string list \<Rightarrow> bool" where
  "chained fl ord g cur target path m p \<longleftrightarrow> (\<exists>xs. p = path @ xs \<and> call_chain fl ord g cur xs target \<and> length p \<le> m)"

lemma call_paths_sound:
  "\<forall>p \<in> set (fst (findCallPaths fl ord g cur target path visited m)). chained fl ord g cur target path m p"
  "\<forall>p \<in> set (fst (paths_children fl ord g cs target path visited m)). \<exists>c \<in> set cs. HasLabel c ''call''
     \<and> (\<exists>f \<in> set (FindNodes fl ord (by_name ''function'' (PString (fmt_prop fl (prop_or_nil c ''name'')))) g).
          chained fl ord g (gn_ID f) target (path @ [fmt_prop fl (prop_or_nil c ''name'')]) m p)"
  "\<forall>p \<in> set (fst (paths_funcs fl ord g fs target path visited m)). \<exists>f \<in> set fs. chained fl ord g (gn_ID f) target path m p"
proof (induction fl ord g cur target path visited m and fl ord g cs target path visited m and fl ord g fs target path visited m
    rule: findCallPaths_paths_children_paths_funcs.induct)
  case (1 fl ord g cur target path visited m)
  show ?case
  proof (cases "length path > m \<or> cur = target")
    case True
    then show ?thesis by (auto simp: findCallPaths.simps chained_def)
  next
    case False
    then have "\<forall>p \<in> set (fst (paths_children fl ord g (GetNeighbors cur DirectionOutgoing g) target path (insert cur visited) m)).
        chained fl ord g cur target path m p"
      using "1.IH" by (fastforce simp: chained_def)
    then show ?thesis using False by (auto simp: findCallPaths.simps split: prod.splits)
  qed
next
  case (3 fl ord g c cs target path visited m)
  show ?case
  proof (cases "HasLabel c ''call'' \<and> gn_ID c \<notin> visited")
    case True
    obtain ps1 v1 where a: "paths_funcs fl ord g (FindNodes fl ord (by_name ''function'' (PString (fmt_prop fl (prop_or_nil c ''name'')))) g)
        target (path @ [fmt_prop fl (prop_or_nil c ''name'')]) visited m = (ps1, v1)" by fastforce
    obtain ps2 v2 where b: "paths_children fl ord g cs target path v1 m = (ps2, v2)" by fastforce
    have "fst (paths_children fl ord g (c # cs) target path visited m) = ps1 @ ps2"
      using True a b by (simp add: paths_children.simps Let_def)
    then show ?thesis using "3.IH"(1) [OF True refl] "3.IH"(2) [OF True refl a [symmetric] refl] a b True by fastforce
  next
    case False
    then have "paths_children fl ord g (c # cs) target path visited m = paths_children fl ord g cs target path visited m"
      by (auto simp: paths_children.simps)
    then show ?thesis using "3.IH"(3) [OF False] by fastforce
  qed
next
  case (5 fl ord g f fs target path visited m)
  obtain ps1 v1 where a: "findCallPaths fl ord g (gn_ID f) target path visited m = (ps1, v1)" by fastforce
  obtain ps2 v2 where b: "paths_funcs fl ord g fs target path v1 m = (ps2, v2)" by fastforce
  have "fst (paths_funcs fl ord g (f # fs) target path visited m) = ps1 @ ps2" using a b by (simp add: paths_funcs.simps)
  then show ?case using "5.IH"(1) "5.IH"(2) [OF a [symmetric] refl] a b by fastforce
qed (simp_all add: paths_children.simps paths_funcs.simps)

section \<open>The properties\<close>

text \<open>C8: FindPath finds shortest paths: between two nodes of the graph it always returns, every path it
  returns is a chain of stored edges of the wanted types and direction that visits no node twice and respects
  the maximal depth, and if there is any such chain at all, the first path returned is as
  short as it.\<close>

theorem find_path_is_shortest:
  assumes "g_nodeByID g a \<noteq> None" "g_nodeByID g b \<noteq> None"
  shows "\<exists>ps. FindPath a b cfg g = Ok ps \<and> (\<forall>p \<in> set ps. simple_route cfg g a b p)
    \<and> (\<forall>es. route cfg g a es b \<and> within cfg (length es) \<longrightarrow> ps \<noteq> [] \<and> length (p_Edges (hd ps)) \<le> length es)"
proof -
  obtain n where n: "g_nodeByID g a = Some n" using assms(1) by blast
  let ?s = "\<lparr>p_Nodes = [n], p_Edges = []\<rparr>"
  have start: "simple_route cfg g a a ?s" using n by (simp add: simple_route_def path_along_def within_def)
  show ?thesis
  proof (cases "a = b")
    case True
    then show ?thesis using assms(2) n start by (auto simp: FindPath_def)
  next
    case False
    have "\<forall>p \<in> set (bfs cfg g b [(a, ?s)] {a}). simple_route cfg g a b p" by (rule bfs_sound) (use start in simp)
    moreover have "bfs cfg g b [(a, ?s)] {a} \<noteq> [] \<and> length (p_Edges (hd (bfs cfg g b [(a, ?s)] {a}))) \<le> length es"
      if r: "route cfg g a es b" and w: "within cfg (length es)" for es
    proof -
      have "\<exists>es'. route cfg g a es' b \<and> set (tl (stations a es')) \<inter> {a} = {} \<and> length es' \<le> length es"
      proof (cases "set (tl (stations a es)) \<inter> {a} = {}")
        case False
        from last_hit [OF r False] show ?thesis by fastforce
      qed (use r in blast)
      then obtain es' where es': "route cfg g a es' b" "set (tl (stations a es')) \<inter> {a} = {}" "length es' \<le> length es" by blast
      have "es' \<noteq> []" using es'(1) False by auto
      moreover have "within cfg (length (p_Edges ?s) + length es')" using w es'(3) by (auto simp: within_def)
      ultimately show ?thesis
        using bfs_shortest [of "[(a, ?s)]" a ?s cfg g es' b "{a}"] es' by (fastforce simp: levels_def)
    qed
    moreover have "FindPath a b cfg g = Ok (bfs cfg g b [(a, ?s)] {a})" using False assms(2) n by (auto simp: FindPath_def)
    ultimately show ?thesis by blast
  qed
qed

text \<open>C11: FindAllPaths finds exactly the simple paths: the chains of stored edges of the wanted types and direction
  from the one node to the other that have at least one edge and visit no node twice. With a maximal depth
  it keeps those with fewer edges than that, whereas FindPath also returns paths of exactly that many.\<close>

theorem find_all_paths_are_the_simple_routes:
  "set (FindAllPaths a b cfg g) = path_along g a ` {es. g_nodeByID g a \<noteq> None \<and> route cfg g a es b \<and> distinct (stations a es) \<and> es \<noteq> []
     \<and> \<not> (0 < tc_MaxDepth cfg \<and> tc_MaxDepth cfg \<le> int (length es))}"
proof -
  have "prolong g a \<lparr>p_Nodes = [], p_Edges = []\<rparr> es = path_along g a es" for es by (simp add: prolong_def path_along_def)
  then show ?thesis
    using dfs_spec [of a "{}" cfg g b "\<lparr>p_Nodes = [], p_Edges = []\<rparr>"]
    by (simp add: FindAllPaths_def continues_def) (rule image_cong, auto)
qed

text \<open>C9: Lookups through the indexes are complete and exact: in every graph built with the operations of the
  package, FindNodes returns exactly the stored nodes that carry the label and print the property as asked,
  GetEdges exactly the edges that leave, or enter, a node, in the order of their creation, and
  GetReferences exactly the references from, or resolved to, a node; no edge has a missing end.\<close>

theorem lookups_match_the_tables:
  assumes "graph_reach fl g" "set (ord (dom (g_nodeByID g))) = dom (g_nodeByID g)"
  shows "set (FindNodes fl ord q g) = {n. g_nodeByID g (gn_ID n) = Some n \<and> query_matches fl q n}
    \<and> set (GetEdges i DirectionOutgoing g) = {e. g_edgeByID g (ge_ID e) = Some e \<and> ge_From e = i}
    \<and> set (GetEdges i DirectionIncoming g) = {e. g_edgeByID g (ge_ID e) = Some e \<and> ge_To e = i}
    \<and> ascending (map ge_ID (GetEdges i DirectionOutgoing g)) \<and> ascending (map ge_ID (GetEdges i DirectionIncoming g))
    \<and> set (GetReferences i DirectionOutgoing g) = {r. g_refByID g (rf_ID r) = Some r \<and> rf_Source r = i}
    \<and> set (GetReferences i DirectionIncoming g) = {r. g_refByID g (rf_ID r) = Some r \<and> rf_Resolved r \<and> rf_Target r = i}
    \<and> no_dangling_edge g"
proof -
  have ok: "graph_ok fl g" by (rule graph_reach_ok [OF assms(1)])
  show ?thesis
    using FindNodes_scan [of fl g ord q, OF ok assms(2)] GetEdges_out [OF ok] GetEdges_in [OF ok] GetReferences_scan [OF ok] graph_ok_parts(4) [OF ok] by blast
qed

lemma same_ascending:
  assumes "ascending (map f xs)" "ascending (map f ys)" "set xs = set ys" "inj_on f (set xs)"
  shows "xs = ys"
proof -
  have a: "sorted_wrt (<) (map (\<lambda>x. sint (f x)) xs)" "sorted_wrt (<) (map (\<lambda>x. sint (f x)) ys)"
    using assms(1,2) by (simp_all add: ascending_def sorted_wrt_map)
  have "map (\<lambda>x. sint (f x)) xs = map (\<lambda>x. sint (f x)) ys"
    using strict_sorted_equal [OF a] assms(3) by (metis list.set_map)
  moreover have "inj_on (\<lambda>x. sint (f x)) (set xs \<union> set ys)" using assms(3,4) by (auto simp: inj_on_def dest!: signed_word_eqI)
  ultimately show ?thesis by (rule map_inj_on)
qed

lemma ascending_filter: "ascending (map f xs) \<Longrightarrow> ascending (map f (filter P xs))"
  by (simp add: ascending_def sorted_wrt_map sorted_wrt_filter)

text \<open>C23: In a graph built with the operations of the package, DeleteNode takes the node and exactly the edges that
  touch it out of the graph and keeps all indexes in step: the invariant that ties the tables and the indexes
  together still holds, GetEdges lists for every node the same edges in the same order less those of the deleted
  node, and no edge has a missing end. The references stay: all of them, those from and to the deleted node
  included, are still stored and listed.\<close>

theorem delete_node_takes_its_edges:
  assumes "graph_reach fl g" "g_nodeByID g i = Some n"
  shows "graph_ok fl (snd (DeleteNode i g)) \<and> no_dangling_edge (snd (DeleteNode i g))
    \<and> g_nodeByID (snd (DeleteNode i g)) = (g_nodeByID g)(i := None)
    \<and> (\<forall>j. g_edgeByID (snd (DeleteNode i g)) j = (case g_edgeByID g j of None \<Rightarrow> None
        | Some e \<Rightarrow> if ge_From e = i \<or> ge_To e = i then None else Some e))
    \<and> (\<forall>j. GetEdges j DirectionOutgoing (snd (DeleteNode i g))
        = filter (\<lambda>e. ge_From e \<noteq> i \<and> ge_To e \<noteq> i) (GetEdges j DirectionOutgoing g)
      \<and> GetEdges j DirectionIncoming (snd (DeleteNode i g))
        = filter (\<lambda>e. ge_From e \<noteq> i \<and> ge_To e \<noteq> i) (GetEdges j DirectionIncoming g))
    \<and> g_refByID (snd (DeleteNode i g)) = g_refByID g
    \<and> (\<forall>j. set (GetReferences j DirectionOutgoing (snd (DeleteNode i g))) = set (GetReferences j DirectionOutgoing g)
      \<and> set (GetReferences j DirectionIncoming (snd (DeleteNode i g))) = set (GetReferences j DirectionIncoming g))"
proof -
  let ?g' = "snd (DeleteNode i g)"
  have ok: "graph_ok fl g" by (rule graph_reach_ok [OF assms(1)])
  have D: "graph_ok fl ?g'" "g_nodeByID ?g' = (g_nodeByID g)(i := None)"
    "g_edgeByID ?g' = (\<lambda>j. case g_edgeByID g j of None \<Rightarrow> None | Some e \<Rightarrow> if ge_From e = i \<or> ge_To e = i then None else Some e)"
    "g_refByID ?g' = g_refByID g"
    using DeleteNode_tables [OF ok assms(2)] by blast+
  have stored: "g_edgeByID ?g' (ge_ID e) = Some e \<longleftrightarrow> g_edgeByID g (ge_ID e) = Some e \<and> ge_From e \<noteq> i \<and> ge_To e \<noteq> i" for e
    unfolding D(3) by (auto split: option.splits if_splits)
  have inj: "inj_on ge_ID {e. g_edgeByID h (ge_ID e) = Some e \<and> P e}" for h :: Graph and P by (rule inj_onI) (metis (mono_tags, lifting) mem_Collect_eq option.inject)
  have out: "GetEdges j DirectionOutgoing ?g' = filter (\<lambda>e. ge_From e \<noteq> i \<and> ge_To e \<noteq> i) (GetEdges j DirectionOutgoing g)" for j
    by (rule same_ascending [OF GetEdges_out(2) [OF D(1)] ascending_filter [OF GetEdges_out(2) [OF ok]]])
       (simp_all add: GetEdges_out(1) [OF D(1)] GetEdges_out(1) [OF ok] inj, auto simp: stored)
  have inc: "GetEdges j DirectionIncoming ?g' = filter (\<lambda>e. ge_From e \<noteq> i \<and> ge_To e \<noteq> i) (GetEdges j DirectionIncoming g)" for j
    by (rule same_ascending [OF GetEdges_in(2) [OF D(1)] ascending_filter [OF GetEdges_in(2) [OF ok]]])
       (simp_all add: GetEdges_in(1) [OF D(1)] GetEdges_in(1) [OF ok] inj, auto simp: stored)
  have edges: "\<forall>j. g_edgeByID ?g' j = (case g_edgeByID g j of None \<Rightarrow> None
      | Some e \<Rightarrow> if ge_From e = i \<or> ge_To e = i then None else Some e)" unfolding D(3) by blast
  have refs: "\<forall>j. set (GetReferences j DirectionOutgoing ?g') = set (GetReferences j DirectionOutgoing g)
      \<and> set (GetReferences j DirectionIncoming ?g') = set (GetReferences j DirectionIncoming g)"
    unfolding GetReferences_scan [OF D(1)] GetReferences_scan [OF ok] D(4) by blast
  have gets: "\<forall>j. GetEdges j DirectionOutgoing ?g' = filter (\<lambda>e. ge_From e \<noteq> i \<and> ge_To e \<noteq> i) (GetEdges j DirectionOutgoing g)
      \<and> GetEdges j DirectionIncoming ?g' = filter (\<lambda>e. ge_From e \<noteq> i \<and> ge_To e \<noteq> i) (GetEdges j DirectionIncoming g)"
    using out inc by simp
  show ?thesis by (intro conjI D(1) graph_ok_parts(4) [OF D(1)] D(2) edges gets D(4) refs)
qed

text \<open>C24: Every call path FindCallPath returns is a chain of calls: it starts with the first name, each further
  name is that of a call inside the function reached so far, the chain ends in a function of the second
  name, and it has at most ten names. The search itself always ends, recursion in the program
  included.\<close>

theorem call_paths_are_chains:
  assumes "FindCallPath fl ord fromName toName g = Ok ps" "p \<in> set ps"
  shows "\<exists>f \<in> set (FindNodes fl ord (by_name ''function'' (PString fromName)) g). \<exists>t \<in> set (FindNodes fl ord (by_name ''function'' (PString toName)) g).
    \<exists>xs. p = fromName # xs \<and> call_chain fl ord g (gn_ID f) xs (gn_ID t) \<and> length p \<le> 10"
proof -
  have C: "\<forall>p \<in> set (call_paths_to fl ord g fromName pairs v). \<exists>(a, b) \<in> set pairs. chained fl ord g a b [fromName] 10 p" for pairs v
  proof (induction pairs arbitrary: v)
    case (Cons x pairs)
    obtain a b where x: "x = (a, b)" by (cases x)
    obtain qs v1 where q: "findCallPaths fl ord g a b [fromName] v 10 = (qs, v1)" by fastforce
    then have "\<forall>p \<in> set qs. chained fl ord g a b [fromName] 10 p"
      using call_paths_sound(1) [of fl ord g a b "[fromName]" v 10] by simp
    then show ?case using Cons.IH [of v1] q x by auto
  qed simp
  have "ps = call_paths_to fl ord g fromName (concat (map (\<lambda>f. map (\<lambda>t. (gn_ID f, gn_ID t))
      (FindNodes fl ord (by_name ''function'' (PString toName)) g)) (FindNodes fl ord (by_name ''function'' (PString fromName)) g))) {}"
    using assms(1) by (auto simp: FindCallPath_def Let_def split: if_splits)
  then show ?thesis using C assms(2) by (fastforce simp: chained_def)
qed

section \<open>An example\<close>

text \<open>A function f that contains a call of g, and the function g.\<close>

definition demo_graph :: "flt \<Rightarrow> Graph" where
  "demo_graph fl =
     (let g0 = NewGraph ''demo'' (NewGraphStore (NewDiskManager [] (\<lambda>_. False) (\<lambda>_. False)));
          g1 = snd (AddNode fl [''function''] (Some [''name'' \<mapsto> PString ''f'']) g0);
          g2 = snd (AddNode fl [''call''] (Some [''name'' \<mapsto> PString ''g'']) g1);
          g3 = snd (AddNode fl [''function''] (Some [''name'' \<mapsto> PString ''g'']) g2)
      in snd (AddEdge ''call'' 1 3 (snd (AddEdge ''contains'' 1 2 g3))))"

definition demo_order :: order where "demo_order S = filter (\<lambda>i. i \<in> S) [1, 2, 3]"

lemma AddNode_tables [simp]:
  "g_nodeByID (snd (AddNode fl ls ps g)) = (g_nodeByID g)(g_nextNodeID g \<mapsto> NewGNode (g_nextNodeID g) ls ps)"
  "g_nextNodeID (snd (AddNode fl ls ps g)) = g_nextNodeID g + 1" "g_nextEdgeID (snd (AddNode fl ls ps g)) = g_nextEdgeID g"
  "g_edgeByID (snd (AddNode fl ls ps g)) = g_edgeByID g" "g_edgeByFrom (snd (AddNode fl ls ps g)) = g_edgeByFrom g"
  "g_nodeByProp (snd (AddNode fl ls ps g)) = push_props fl (gn_Props (NewGNode 0 ls ps)) (g_nextNodeID g) (g_nodeByProp g)"
  by (simp_all add: AddNode_def index_node_def NewGNode_def Let_def)

lemma AddEdge_tables [simp]:
  assumes "g_nodeByID g a = Some m" "g_nodeByID g b = Some n"
  shows "g_edgeByID (snd (AddEdge t a b g)) = (g_edgeByID g)(g_nextEdgeID g \<mapsto> NewGEdge (g_nextEdgeID g) t a b)"
    "g_edgeByFrom (snd (AddEdge t a b g)) = push a (g_nextEdgeID g) (g_edgeByFrom g)" "g_nodeByProp (snd (AddEdge t a b g)) = g_nodeByProp g"
    "g_nextEdgeID (snd (AddEdge t a b g)) = g_nextEdgeID g + 1" "g_nodeByID (snd (AddEdge t a b g)) = g_nodeByID g"
  using assms by (simp_all add: AddEdge_def index_edge_def NewGEdge_def Let_def)

lemma NewGraph_tables [simp]:
  "g_nodeByID (NewGraph name s) = Map.empty" "g_edgeByID (NewGraph name s) = Map.empty"
  "g_nodeByProp (NewGraph name s) = (\<lambda>_ _. [])" "g_edgeByFrom (NewGraph name s) = (\<lambda>_. [])"
  "g_nextNodeID (NewGraph name s) = 1" "g_nextEdgeID (NewGraph name s) = 1"
  by (simp_all add: NewGraph_def)

lemma demo_reach: "graph_reach fl (demo_graph fl)"
  unfolding demo_graph_def Let_def
  by (intro graph_reach.step [OF _ graph_step.add_edge] graph_reach.step [OF _ graph_step.add_node] graph_reach.start)
    (simp_all add: room_def)

definition demo_f :: GNode where "demo_f = \<lparr>gn_ID = 1, gn_Labels = [''function''], gn_Props = [''name'' \<mapsto> PString ''f'']\<rparr>"
definition demo_call :: GNode where "demo_call = \<lparr>gn_ID = 2, gn_Labels = [''call''], gn_Props = [''name'' \<mapsto> PString ''g'']\<rparr>"
definition demo_g :: GNode where "demo_g = \<lparr>gn_ID = 3, gn_Labels = [''function''], gn_Props = [''name'' \<mapsto> PString ''g'']\<rparr>"
definition demo_e1 :: GEdge where "demo_e1 = \<lparr>ge_ID = 1, ge_Type = ''contains'', ge_From = 1, ge_To = 2, ge_Props = None\<rparr>"
definition demo_e2 :: GEdge where "demo_e2 = \<lparr>ge_ID = 2, ge_Type = ''call'', ge_From = 1, ge_To = 3, ge_Props = None\<rparr>"

lemmas demo_defs = demo_f_def demo_call_def demo_g_def demo_e1_def demo_e2_def

lemma demo_tables:
  "g_nodeByID (demo_graph fl) = [1 \<mapsto> demo_f, 2 \<mapsto> demo_call, 3 \<mapsto> demo_g]"
  "g_edgeByID (demo_graph fl) = [1 \<mapsto> demo_e1, 2 \<mapsto> demo_e2]"
  "g_edgeByFrom (demo_graph fl) 1 = [1, 2]" "g_nodeByProp (demo_graph fl) ''name'' ''f'' = [1]"
  "g_nodeByProp (demo_graph fl) ''name'' ''g'' = [2, 3]"
  by (simp_all add: demo_graph_def Let_def NewGNode_def NewGEdge_def demo_defs push_props_def push_def)

lemma demo_node: "g_nodeByID (demo_graph fl) (gn_ID n) = Some n \<longleftrightarrow> n \<in> {demo_f, demo_call, demo_g}"
  unfolding demo_tables by (auto simp: demo_defs split: if_splits)

lemma demo_edge: "g_edgeByID (demo_graph fl) (ge_ID e) = Some e \<longleftrightarrow> e \<in> {demo_e1, demo_e2}"
  unfolding demo_tables by (auto simp: demo_defs split: if_splits)

lemma demo_order_ok: "set (demo_order (dom (g_nodeByID (demo_graph fl)))) = dom (g_nodeByID (demo_graph fl))"
  by (auto simp: demo_order_def demo_tables)

theorem find_path_is_shortest_witness:
  "\<forall>fl. \<exists>ps. FindPath 1 3 \<lparr>tc_MaxDepth = 0, tc_EdgeTypes = [''call''], tc_Direction = DirectionOutgoing\<rparr> (demo_graph fl) = Ok ps
    \<and> ps \<noteq> [] \<and> length (p_Edges (hd ps)) \<le> 1"
proof
  fix fl
  let ?c = "\<lparr>tc_MaxDepth = 0, tc_EdgeTypes = [''call''], tc_Direction = DirectionOutgoing\<rparr>"
  have "demo_e2 \<in> set (GetEdges 1 DirectionOutgoing (demo_graph fl))"
    unfolding GetEdges_out(1) [OF graph_reach_ok [OF demo_reach]] demo_edge by (simp add: demo_defs)
  then have "route ?c (demo_graph fl) 1 [demo_e2] 3" "within ?c (length [demo_e2])"
    by (simp_all add: usable_def type_ok_def next_id_def demo_tables demo_defs within_def)
  then show "\<exists>ps. FindPath 1 3 ?c (demo_graph fl) = Ok ps \<and> ps \<noteq> [] \<and> length (p_Edges (hd ps)) \<le> 1"
    using find_path_is_shortest [of "demo_graph fl" 1 3 ?c] by (fastforce simp: demo_tables)
qed

theorem lookups_match_the_tables_witness:
  "\<forall>fl. set (FindNodes fl demo_order (by_name ''function'' (PString ''g'')) (demo_graph fl)) = {demo_g}
    \<and> set (GetEdges 3 DirectionIncoming (demo_graph fl)) = {demo_e2}"
proof
  fix fl
  note L = lookups_match_the_tables [of fl "demo_graph fl" demo_order "by_name ''function'' (PString ''g'')" 3, OF demo_reach demo_order_ok, unfolded demo_node demo_edge]
  have "set (FindNodes fl demo_order (by_name ''function'' (PString ''g'')) (demo_graph fl)) = {demo_g}"
    unfolding L [THEN conjunct1] by (auto simp: query_matches_def by_name_def prints_def demo_defs)
  moreover have "set (GetEdges 3 DirectionIncoming (demo_graph fl)) = {demo_e2}"
    unfolding L [THEN conjunct2, THEN conjunct2, THEN conjunct1] by (auto simp: demo_defs)
  ultimately show "set (FindNodes fl demo_order (by_name ''function'' (PString ''g'')) (demo_graph fl)) = {demo_g}
    \<and> set (GetEdges 3 DirectionIncoming (demo_graph fl)) = {demo_e2}" ..
qed

theorem delete_node_takes_its_edges_witness:
  "\<forall>fl. GetEdges 1 DirectionOutgoing (demo_graph fl) = [demo_e1, demo_e2]
    \<and> GetEdges 1 DirectionOutgoing (snd (DeleteNode 3 (demo_graph fl))) = [demo_e1]
    \<and> g_edgeByID (snd (DeleteNode 3 (demo_graph fl))) 2 = None \<and> g_edgeByID (snd (DeleteNode 3 (demo_graph fl))) 1 = Some demo_e1"
proof
  fix fl
  have n: "g_nodeByID (demo_graph fl) 3 = Some demo_g" by (simp add: demo_tables)
  have g: "GetEdges 1 DirectionOutgoing (demo_graph fl) = [demo_e1, demo_e2]"
    by (simp add: GetEdges_def DirectionOutgoing_def DirectionIncoming_def DirectionBoth_def fetch_def demo_tables)
  note D = delete_node_takes_its_edges [OF demo_reach n]
  have "GetEdges 1 DirectionOutgoing (snd (DeleteNode 3 (demo_graph fl))) = [demo_e1]"
    using D g by (simp add: demo_defs)
  moreover have "\<forall>j. g_edgeByID (snd (DeleteNode 3 (demo_graph fl))) j = (case g_edgeByID (demo_graph fl) j of None \<Rightarrow> None
      | Some e \<Rightarrow> if ge_From e = 3 \<or> ge_To e = 3 then None else Some e)" using D by blast
  ultimately show "GetEdges 1 DirectionOutgoing (demo_graph fl) = [demo_e1, demo_e2]
    \<and> GetEdges 1 DirectionOutgoing (snd (DeleteNode 3 (demo_graph fl))) = [demo_e1]
    \<and> g_edgeByID (snd (DeleteNode 3 (demo_graph fl))) 2 = None \<and> g_edgeByID (snd (DeleteNode 3 (demo_graph fl))) 1 = Some demo_e1"
    using g by (simp add: demo_tables demo_e1_def demo_e2_def)
qed

lemma demo_call_paths: "FindCallPath fl demo_order ''f'' ''g'' (demo_graph fl) = Ok [[''f'', ''g'']]"
proof -
  have f: "FindNodes fl demo_order (by_name ''function'' (PString ''f'')) (demo_graph fl) = [demo_f]"
    by (simp add: FindNodes_def by_name_def fetch_def demo_tables) (simp add: demo_defs)
  have g: "FindNodes fl demo_order (by_name ''function'' (PString ''g'')) (demo_graph fl) = [demo_g]"
    by (simp add: FindNodes_def by_name_def fetch_def demo_tables) (simp add: demo_defs)
  have n: "GetNeighbors 1 DirectionOutgoing (demo_graph fl) = [demo_call, demo_g]"
    by (simp add: GetNeighbors_def GetEdges_def fetch_def demo_tables DirectionOutgoing_def DirectionIncoming_def DirectionBoth_def)
      (simp add: demo_defs)
  have "findCallPaths fl demo_order (demo_graph fl) 1 3 [''f''] {} 10 = ([[''f'', ''g'']], {})"
    by (subst findCallPaths.simps) (simp add: n paths_children.simps paths_funcs.simps findCallPaths.simps prop_or_nil_def GetProp_def demo_call_def g, simp add: demo_defs paths_children.simps)
  then show ?thesis using f g by (simp add: FindCallPath_def) (simp add: demo_defs)
qed

theorem call_paths_are_chains_witness:
  "\<forall>fl. FindCallPath fl demo_order ''f'' ''g'' (demo_graph fl) = Ok [[''f'', ''g'']]
    \<and> (\<exists>(f :: GNode) (t :: GNode). call_chain fl demo_order (demo_graph fl) (gn_ID f) [''g''] (gn_ID t))"
proof
  fix fl
  have "[''f'', ''g''] \<in> set [[''f'', ''g'']]" by simp
  from call_paths_are_chains [of fl demo_order _ _ "demo_graph fl", OF demo_call_paths this]
  have "\<exists>(f :: GNode) (t :: GNode). call_chain fl demo_order (demo_graph fl) (gn_ID f) [''g''] (gn_ID t)" by (simp del: call_chain.simps) blast
  then show "FindCallPath fl demo_order ''f'' ''g'' (demo_graph fl) = Ok [[''f'', ''g'']]
    \<and> (\<exists>(f :: GNode) (t :: GNode). call_chain fl demo_order (demo_graph fl) (gn_ID f) [''g''] (gn_ID t))" using demo_call_paths by blast
qed

text \<open>
  A graph with one node is saved; the node is in its page twice, as AddNode has put it there before SaveToDisk
  does. The codec knows three texts: the one page of nodes, the metadata, and
  nothing that starts with a zero byte.
\<close>

definition demo_meta :: "(string \<times> jval) list" where
  "demo_meta = [(''name'', JString ''demo''), (''next_edge_id'', JNumber 1), (''next_edge_page'', JNumber 1000),
     (''next_node_id'', JNumber 2), (''next_node_page'', JNumber 2), (''next_ref_id'', JNumber 1)]"

definition demo_json :: gjson where
  "demo_json = \<lparr>js_nodes = (\<lambda>ns. if ns = [demo_f, demo_f] then Some [91, 93] else None), js_edges = (\<lambda>_. None),
     js_get_nodes = (\<lambda>bs. if bs = [91, 93] then [Some demo_f, Some demo_f] else []), js_get_edges = (\<lambda>_. []),
     js_obj = (\<lambda>kvs. if kvs = demo_meta then [123, 125] else []), js_get_obj = (\<lambda>bs. if bs = [123, 125] then Some demo_meta else None)\<rparr>"

definition one_node :: "flt \<Rightarrow> Graph" where
  "one_node fl = snd (AddNode fl [''function''] (Some [''name'' \<mapsto> PString ''f''])
     (NewGraph ''demo'' (NewGraphStore (NewDiskManager [] (\<lambda>_. False) (\<lambda>_. False)))))"

lemma text_page_facts:
  assumes "length data \<le> 4044"
  shows "page_wf (text_page pid data)" "pg_ID (text_page pid data) = pid"
    "slice 48 52 (pg_Data (text_page pid data)) = put32 (word_of_nat (length data))"
    "slice 52 (52 + length data) (pg_Data (text_page pid data)) = data"
proof -
  have L: "length (pg_Data (NewPage pid)) = 4096" using page_ok_length [OF NewPage_ok, of pid] by (simp add: layout)
  have t: "take 4044 data = data" using assms by simp
  have id: "stored_id (pg_Data (NewPage pid)) = pid" by simp
  show "pg_ID (text_page pid data) = pid" by (simp add: text_page_def Let_def NewPage_def zero_page_def Page_writeHeader_def)
  have D: "pg_Data (text_page pid data) = overwrite 52 data (overwrite 48 (put32 (word_of_nat (length data))) (pg_Data (NewPage pid)))"
    by (simp add: text_page_def Let_def meta_offset_def layout t)
  show "slice 48 52 (pg_Data (text_page pid data)) = put32 (word_of_nat (length data))"
    "slice 52 (52 + length data) (pg_Data (text_page pid data)) = data"
    unfolding D using L assms by (simp_all add: codec)
  have "slice 0 8 (pg_Data (text_page pid data)) = slice 0 8 (pg_Data (NewPage pid))"
    unfolding D using L assms by (simp add: codec)
  then show "page_wf (text_page pid data)"
    using id L assms by (simp add: page_wf_def stored_id_def D layout) (simp add: text_page_def Let_def NewPage_def zero_page_def Page_writeHeader_def)
qed

lemma one_node_tables:
  "g_nodeByID (one_node fl) = [1 \<mapsto> demo_f]" "g_edgeByID (one_node fl) = Map.empty" "g_refByID (one_node fl) = Map.empty"
  "g_Name (one_node fl) = ''demo''" "g_nextNodeID (one_node fl) = 2" "g_nextEdgeID (one_node fl) = 1" "g_nextRefID (one_node fl) = 1"
  "g_Store (one_node fl) = GraphStore_PutNode demo_f (NewGraphStore (NewDiskManager [] (\<lambda>_. False) (\<lambda>_. False)))"
  by (simp_all add: one_node_def AddNode_def index_node_def NewGNode_def NewGraph_def Let_def demo_f_def)

lemma one_node_saved:
  "\<exists>g. SaveToDisk demo_json demo_order (one_node fl) = (Ok (), g) \<and> gs_nextNodePage (g_Store g) = 2 \<and> gs_nextEdgePage (g_Store g) = 1000
    \<and> disk_data (gs_Disk (g_Store g)) 1 = pg_Data (text_page 1 [91, 93]) \<and> disk_data (gs_Disk (g_Store g)) 0 = pg_Data (text_page 0 [123, 125])
    \<and> disk_ok (gs_Disk (g_Store g)) \<and> dm_rfail (gs_Disk (g_Store g)) = (\<lambda>_. False)"
proof -
  let ?d0 = "NewDiskManager [] (\<lambda>_. False) (\<lambda>_. False)"
  have d0: "disk_ok ?d0" "dm_wfail ?d0 = (\<lambda>_. False)" "dm_rfail ?d0 = (\<lambda>_. False)"
    by (simp_all add: disk_ok_def NewDiskManager_def Let_def)
  note t1 = text_page_facts [of "[91, 93]" 1] and t0 = text_page_facts [of "[123, 125]" 0]
  obtain d1 where w1: "DiskManager_WritePage (text_page 1 [91, 93]) ?d0 = (Ok (), (text_page 1 [91, 93])\<lparr>pg_Dirty := False\<rparr>, d1)"
      "disk_ok d1" "disk_data d1 1 = pg_Data (text_page 1 [91, 93])" "dm_rfail d1 = (\<lambda>_. False)" "dm_wfail d1 = (\<lambda>_. False)"
    using WritePage_spec [OF d0(1) t1(1)] t1(2) d0 by (auto simp: pid_ok_def)
  obtain d2 where w2: "DiskManager_WritePage (text_page 0 [123, 125]) d1 = (Ok (), (text_page 0 [123, 125])\<lparr>pg_Dirty := False\<rparr>, d2)"
      "disk_ok d2" "disk_data d2 0 = pg_Data (text_page 0 [123, 125])" "disk_data d2 1 = disk_data d1 1" "dm_rfail d2 = (\<lambda>_. False)"
    using WritePage_spec [OF w1(2) t0(1)] t0(2) w1(4,5) by (auto simp: pid_ok_def)
  have n: "map_values demo_order (g_nodeByID (one_node fl)) = [demo_f]" "map_values demo_order (g_edgeByID (one_node fl)) = []"
    "map_values demo_order (g_refByID (one_node fl)) = []"
    by (simp_all add: one_node_tables map_values_def demo_order_def fetch_def)
  show ?thesis using w1 w2 n
    by (simp add: SaveToDisk_def Let_def GraphStore_PutNode_def new_node_page_def NewGraphStore_def one_node_tables np_add_def
        NodeStoreStart_def EdgeStoreStart_def MaxNodesPerPage_def GraphStore_Flush_def demo_json_def write_graph_page_def meta_object_def demo_meta_def)
qed

text \<open>The saved graph is read back by a graph over the same store: its name arrives, its node does not.\<close>

theorem load_restores_nothing_witness:
  "\<forall>fl. \<exists>g g' r. SaveToDisk demo_json demo_order (one_node fl) = (Ok (), g) \<and> g_nodeByID g 1 = Some demo_f
    \<and> slice 52 54 (disk_data (gs_Disk (g_Store g)) 1) = [91, 93] \<and> js_get_nodes demo_json [91, 93] = [Some demo_f, Some demo_f]
    \<and> Load fl demo_json (NewGraph [] (g_Store g)) = (r, g') \<and> g_nodeByID g' = Map.empty \<and> g_Name g' = ''demo''"
proof
  fix fl
  obtain g where g: "SaveToDisk demo_json demo_order (one_node fl) = (Ok (), g)" "gs_nextNodePage (g_Store g) = 2" "gs_nextEdgePage (g_Store g) = 1000"
      "disk_data (gs_Disk (g_Store g)) 1 = pg_Data (text_page 1 [91, 93])" "disk_data (gs_Disk (g_Store g)) 0 = pg_Data (text_page 0 [123, 125])"
      "disk_ok (gs_Disk (g_Store g))" "dm_rfail (gs_Disk (g_Store g)) = (\<lambda>_. False)"
    using one_node_saved by blast
  let ?h = "NewGraph [] (g_Store g)"
  have st: "g_Store ?h = g_Store g" by (simp add: NewGraph_def)
  obtain r g' where L: "Load fl demo_json ?h = (r, g')" by fastforce
  have meta: "load_meta (parse_obj demo_json bs) ?h = ?h\<lparr>g_Name := if bs = [123, 125] then ''demo'' else []\<rparr>" for bs
    by (simp add: parse_obj_def demo_json_def demo_meta_def load_meta_def field_int64_def field_uint64_def EqualFold_def meta_names Let_def)
  have "g_Store g' = g_Store g" using Load_cases [OF L] st unfolding meta by auto
  moreover have nul: "rejects_nul demo_json" by (simp add: rejects_nul_def demo_json_def)
  ultimately have none: "g_nodeByID g' = g_nodeByID ?h"
    using load_restores_nothing [of demo_json fl ?h r g' ?h] L g(2,3) by simp
  have js: "js_get_nodes demo_json [91, 93] = [Some demo_f, Some demo_f]" by (simp add: demo_json_def)
  have empty: "g_nodeByID g' = Map.empty" using none by (simp add: NewGraph_def)
  note t1 = text_page_facts [of "[91, 93]" 1, simplified] and t0 = text_page_facts [of "[123, 125]" 0, simplified]
  have slot: "slice 52 54 (disk_data (gs_Disk (g_Store g)) 1) = [91, 93]" using g(4) t1(4) by simp
  have saved: "g_nodeByID g 1 = Some demo_f"
    using SaveToDisk_tables [of demo_json demo_order "one_node fl"] g(1) by (auto simp: one_node_tables)
  have "DiskManager_ReadPage 0 (gs_Disk (g_Store ?h)) = Ok \<lparr>pg_Data = pg_Data (text_page 0 [123, 125]), pg_ID = 0, pg_Dirty = False\<rparr>"
    using ReadPage_disk_data [of "gs_Disk (g_Store g)" 0] g(5,6,7) st by (simp add: pid_ok_def)
  then have "load_rest fl demo_json (?h\<lparr>g_Name := ''demo''\<rparr>) = (r, g')"
    using L t0(3,4) meta [of "[123, 125]"]
    by (simp add: Load_def load_rest_def Let_def meta_offset_def layout)
  moreover have "GetAllNodes demo_json (g_Store g) = []" "GetAllEdges demo_json (g_Store g) = []"
    unfolding GetAllNodes_def GetAllEdges_def using g(2,3) nul
      page_range_small [of 2 NodeStoreStart] page_range_small [of 1000 EdgeStoreStart] by (auto simp: rejects_nul_def intro!: read_pages_empty)
  ultimately have name: "g_Name g' = ''demo''" using st by (auto simp: load_rest_def)
  show "\<exists>g g' r. SaveToDisk demo_json demo_order (one_node fl) = (Ok (), g) \<and> g_nodeByID g 1 = Some demo_f
    \<and> slice 52 54 (disk_data (gs_Disk (g_Store g)) 1) = [91, 93] \<and> js_get_nodes demo_json [91, 93] = [Some demo_f, Some demo_f]
    \<and> Load fl demo_json (NewGraph [] (g_Store g)) = (r, g') \<and> g_nodeByID g' = Map.empty \<and> g_Name g' = ''demo''"
    using g(1) saved slot L js empty name by blast
qed

end
