(* ===== verification/Psi.thy ===== *)
theory Psi imports Graph begin

text \<open>
  \<^verbatim>\<open>pkg/psi/parser.go\<close> and \<^verbatim>\<open>language.go\<close>: the walk over the syntax trees of a repository that
  fills the code graph, the resolution of calls across files, and the edges between files.
  The syntax tree comes from the package gotreesitter; it enters as a value that gives what the
  code reads of it: the type of a node, its byte range and its children, where a child may be nil. The
  files, too, are arguments: what Walk visits, with the content and the tree of each file.
  Paths are those of a Unix system.
\<close>

section \<open>Languages\<close>

definition has_ext :: "string \<Rightarrow> string \<Rightarrow> bool" where
  "has_ext filePath ext \<longleftrightarrow> length filePath > length ext \<and> drop (length filePath - length ext) filePath = ext"

text \<open>The name of the language; no two entries of the registry share an extension.\<close>

definition DetectLanguage :: "string \<Rightarrow> string option" where
  "DetectLanguage filePath =
     (if has_ext filePath ''.go'' then Some ''Go''
      else if has_ext filePath ''.py'' then Some ''Python''
      else if has_ext filePath ''.js'' then Some ''JavaScript'' else None)"

section \<open>Syntax trees\<close>

datatype ts = TS (ts_type: string) (ts_start: u32) (ts_end: u32) (ts_children: "ts option list")

fun nodeType :: "ts option \<Rightarrow> string" where
  "nodeType None = []"
| "nodeType (Some n) = ts_type n"

text \<open>\<^verbatim>\<open>source[start:end]\<close>\<close>

definition content_of :: "ts \<Rightarrow> string \<Rightarrow> (graph_err, string) outcome" where
  "content_of n source =
     (if unat (ts_start n) \<le> unat (ts_end n) \<and> unat (ts_end n) \<le> length source
      then Ok (slice (unat (ts_start n)) (unat (ts_end n)) source) else Panic)"

text \<open>The content of the node a search returned, or the empty string.\<close>

definition content_or_empty :: "ts option \<Rightarrow> string \<Rightarrow> (graph_err, string) outcome" where
  "content_or_empty r source = (case r of None \<Rightarrow> Ok [] | Some n \<Rightarrow> content_of n source)"

fun first_some :: "('a \<Rightarrow> 'b option) \<Rightarrow> 'a list \<Rightarrow> 'b option" where
  "first_some f [] = None"
| "first_some f (x # xs) = (case f x of Some y \<Rightarrow> Some y | None \<Rightarrow> first_some f xs)"

fun typed :: "string set \<Rightarrow> ts option \<Rightarrow> ts option" where
  "typed types None = None"
| "typed types (Some c) = (if ts_type c \<in> types then Some c else None)"

definition extractName :: "ts \<Rightarrow> string \<Rightarrow> (graph_err, string) outcome" where
  "extractName n source =
     content_or_empty (first_some (typed {''field_identifier'', ''identifier'', ''type_identifier''}) (ts_children n)) source"

definition under :: "string \<Rightarrow> (ts \<Rightarrow> ts option) \<Rightarrow> ts option \<Rightarrow> ts option" where
  "under t f c = (case c of None \<Rightarrow> None | Some n \<Rightarrow> if ts_type n = t then f n else None)"

definition receiver_type :: "ts \<Rightarrow> ts option" where
  "receiver_type n =
     first_some (under ''parameter_list'' (\<lambda>l.
       first_some (under ''parameter_declaration'' (\<lambda>p.
         first_some (typed {''type_identifier'', ''pointer_type''}) (ts_children p))) (ts_children l))) (ts_children n)"

definition TrimLeft :: "string \<Rightarrow> string \<Rightarrow> string" where
  "TrimLeft s cutset = dropWhile (\<lambda>c. c \<in> set cutset) s"

definition extractReceiverClass :: "ts \<Rightarrow> string \<Rightarrow> (graph_err, string) outcome" where
  "extractReceiverClass n source = bind_out (content_or_empty (receiver_type n) source) (\<lambda>s. Ok (TrimLeft s ''*&''))"

definition call_name_node :: "ts option \<Rightarrow> ts option" where
  "call_name_node c =
     (case under ''selector_expression'' (\<lambda>n. first_some (typed {''field_identifier''}) (ts_children n)) c of
        Some s \<Rightarrow> Some s
      | None \<Rightarrow> typed {''identifier'', ''field_identifier''} c)"

definition extractCallName :: "ts \<Rightarrow> string \<Rightarrow> (graph_err, string) outcome" where
  "extractCallName n source = content_or_empty (first_some call_name_node (ts_children n)) source"

section \<open>The parser's state\<close>

record PSIParser =
  psi_Graph :: Graph
  psi_fileID :: i64
  psi_currentFilePath :: string
  psi_currentPackage :: string

definition NewPSIParser :: "Graph \<Rightarrow> PSIParser" where
  "NewPSIParser g = \<lparr>psi_Graph = g, psi_fileID = 0, psi_currentFilePath = [], psi_currentPackage = []\<rparr>"

definition psi_add_node :: "flt \<Rightarrow> string list \<Rightarrow> props \<Rightarrow> PSIParser \<Rightarrow> i64 \<times> PSIParser" where
  "psi_add_node fl labels ps p =
     (case AddNode fl labels (Some ps) (psi_Graph p) of (n, g) \<Rightarrow> (gn_ID n, p\<lparr>psi_Graph := g\<rparr>))"

text \<open>The error of \<^verbatim>\<open>AddEdge\<close> is dropped everywhere.\<close>

definition psi_add_edge :: "string \<Rightarrow> i64 \<Rightarrow> i64 \<Rightarrow> PSIParser \<Rightarrow> PSIParser" where
  "psi_add_edge t a b p = p\<lparr>psi_Graph := snd (AddEdge t a b (psi_Graph p))\<rparr>"

definition string_prop :: "GNode \<Rightarrow> string \<Rightarrow> string option" where
  "string_prop n key = (case gn_Props n key of Some (PString s) \<Rightarrow> Some s | _ \<Rightarrow> None)"

definition findClassNode :: "flt \<Rightarrow> order \<Rightarrow> string \<Rightarrow> PSIParser \<Rightarrow> i64" where
  "findClassNode fl ord className p =
     (let nodes = FindNodes fl ord (by_name ''class'' (PString className)) (psi_Graph p) in
      case List.find (\<lambda>n. string_prop n ''file'' = Some (psi_currentFilePath p)) nodes of
        Some n \<Rightarrow> gn_ID n
      | None \<Rightarrow> (case nodes of n # _ \<Rightarrow> gn_ID n | [] \<Rightarrow> 0))"

section \<open>The walk\<close>

text \<open>The properties of the four kinds of nodes.\<close>

definition place_props :: "PSIParser \<Rightarrow> props" where
  "place_props p = [''package'' \<mapsto> PString (psi_currentPackage p), ''path'' \<mapsto> PString (psi_currentFilePath p),
     ''file'' \<mapsto> PString (psi_currentFilePath p)]"

definition class_props :: "string \<Rightarrow> ts \<Rightarrow> PSIParser \<Rightarrow> props" where
  "class_props name n p = (place_props p)(''name'' \<mapsto> PString name, ''start_byte'' \<mapsto> PUint32 (ts_start n), ''end_byte'' \<mapsto> PUint32 (ts_end n))"

definition method_props :: "string \<Rightarrow> string \<Rightarrow> ts \<Rightarrow> PSIParser \<Rightarrow> props" where
  "method_props name className n p = (place_props p)(''name'' \<mapsto> PString name, ''class'' \<mapsto> PString className,
     ''is_method'' \<mapsto> PBool True, ''start_byte'' \<mapsto> PUint32 (ts_start n), ''end_byte'' \<mapsto> PUint32 (ts_end n))"

definition function_props :: "string \<Rightarrow> PSIParser \<Rightarrow> props" where
  "function_props name p = (place_props p)(''name'' \<mapsto> PString name, ''is_method'' \<mapsto> PBool False)"

definition call_props :: "string \<Rightarrow> string \<Rightarrow> PSIParser \<Rightarrow> props" where
  "call_props name contextClass p = (place_props p)(''name'' \<mapsto> PString name, ''context'' \<mapsto> PString contextClass)"

text \<open>Adds a node with one \<^verbatim>\<open>contains\<close> edge into it.\<close>

definition add_contained :: "flt \<Rightarrow> string \<Rightarrow> props \<Rightarrow> i64 \<Rightarrow> PSIParser \<Rightarrow> i64 \<times> PSIParser" where
  "add_contained fl label ps parentID p =
     (case psi_add_node fl [label] ps p of (i, p1) \<Rightarrow> (i, psi_add_edge ''contains'' parentID i p1))"

text \<open>
  A method belongs to the class node of its receiver, if there is one; the class is looked up
  after the method's node was added.
\<close>

definition add_method :: "flt \<Rightarrow> order \<Rightarrow> string \<Rightarrow> string \<Rightarrow> ts \<Rightarrow> i64 \<Rightarrow> PSIParser \<Rightarrow> i64 \<times> PSIParser" where
  "add_method fl ord name className n parentID p =
     (case psi_add_node fl [''function''] (method_props name className n p) p of
        (i, p1) \<Rightarrow>
          (let classID = (if className \<noteq> [] then findClassNode fl ord className p1 else 0)
           in (i, psi_add_edge ''contains'' (if classID \<noteq> 0 then classID else parentID) i p1)))"

definition set_package :: "ts \<Rightarrow> string \<Rightarrow> PSIParser \<Rightarrow> (graph_err, unit) outcome \<times> PSIParser" where
  "set_package n source p =
     (case first_some (typed {''package_identifier''}) (ts_children n) of
        None \<Rightarrow> (Ok (), p)
      | Some c \<Rightarrow> (case content_of c source of Ok s \<Rightarrow> (Ok (), p\<lparr>psi_currentPackage := s\<rparr>) | _ \<Rightarrow> (Panic, p)))"

fun walkNode :: "flt \<Rightarrow> order \<Rightarrow> i64 \<Rightarrow> ts \<Rightarrow> string \<Rightarrow> string \<Rightarrow> PSIParser \<Rightarrow> (graph_err, unit) outcome \<times> PSIParser"
  and walkChildren :: "flt \<Rightarrow> order \<Rightarrow> ts option list \<Rightarrow> i64 \<Rightarrow> string \<Rightarrow> string \<Rightarrow> PSIParser \<Rightarrow> (graph_err, unit) outcome \<times> PSIParser" where
  "walkNode fl ord parentID (TS t s e cs) source contextClass p =
     (let n = TS t s e cs in
      if t = ''package_clause'' then
        (case set_package n source p of (Ok _, p1) \<Rightarrow> walkChildren fl ord cs parentID source contextClass p1 | r \<Rightarrow> r)
      else if t = ''type_spec'' then
        (case extractName n source of
           Ok name \<Rightarrow> (if name = [] then (Ok (), p)
             else case add_contained fl ''class'' (class_props name n p) parentID p of
               (i, p1) \<Rightarrow> walkChildren fl ord cs i source name p1)
         | _ \<Rightarrow> (Panic, p))
      else if t = ''method_declaration'' then
        (case (extractName n source, extractReceiverClass n source) of
           (Ok name, Ok recv) \<Rightarrow>
             (let className = (if recv = [] then contextClass else recv) in
              if name = [] then (Ok (), p)
              else case add_method fl ord name className n parentID p of
                (i, p1) \<Rightarrow> walkChildren fl ord cs i source className p1)
         | _ \<Rightarrow> (Panic, p))
      else if t = ''function_declaration'' then
        (case extractName n source of
           Ok name \<Rightarrow> (if name = [] then (Ok (), p)
             else case add_contained fl ''function'' (function_props name p) parentID p of
               (i, p1) \<Rightarrow> walkChildren fl ord cs i source contextClass p1)
         | _ \<Rightarrow> (Panic, p))
      else if t = ''call_expression'' then
        (case extractCallName n source of
           Ok name \<Rightarrow> (if name = [] then (Ok (), p)
             else (Ok (), snd (add_contained fl ''call'' (call_props name contextClass p) parentID p)))
         | _ \<Rightarrow> (Panic, p))
      else walkChildren fl ord cs parentID source contextClass p)"
| "walkChildren fl ord [] parentID source contextClass p = (Ok (), p)"
| "walkChildren fl ord (None # cs) parentID source contextClass p = walkChildren fl ord cs parentID source contextClass p"
| "walkChildren fl ord (Some c # cs) parentID source contextClass p =
     (case walkNode fl ord parentID c source contextClass p of
        (Ok _, p1) \<Rightarrow> walkChildren fl ord cs parentID source contextClass p1
      | r \<Rightarrow> r)"

section \<open>Files\<close>

datatype psi_err = ReadFailed string | ParseFailed string | WalkFailed string

text \<open>\<^verbatim>\<open>filepath.Base\<close>\<close>

definition path_base :: "string \<Rightarrow> string" where
  "path_base path =
     (if path = [] then ''.''
      else let q = rev (dropWhile (\<lambda>c. c = CHR ''/'') (rev path))
        in if q = [] then ''/'' else rev (takeWhile (\<lambda>c. c \<noteq> CHR ''/'') (rev q)))"

text \<open>One step of Walk: the path, an error of Walk itself, whether it is a directory, what ReadFile and the library's parser give.\<close>

record walk_entry =
  we_path :: string
  we_err :: bool
  we_isDir :: bool
  we_content :: "string option"
  we_tree :: "ts option"

definition ParseFile :: "flt \<Rightarrow> order \<Rightarrow> string \<Rightarrow> walk_entry \<Rightarrow> PSIParser \<Rightarrow> (psi_err, unit) outcome \<times> PSIParser" where
  "ParseFile fl ord lang w p =
     (case we_content w of
        None \<Rightarrow> (Err (ReadFailed (we_path w)), p)
      | Some source \<Rightarrow>
          let path = we_path w;
              (i, p1) = psi_add_node fl [''file'', lang] [''path'' \<mapsto> PString path, ''name'' \<mapsto> PString (path_base path)]
                (p\<lparr>psi_currentFilePath := path\<rparr>);
              p2 = p1\<lparr>psi_fileID := i, psi_currentPackage := []\<rparr>
          in case we_tree w of
               None \<Rightarrow> (Err (ParseFailed path), p2)
             | Some root \<Rightarrow>
                 (case walkNode fl ord i root source [] p2 of
                    (Ok _, p3) \<Rightarrow> (Ok (), p3)
                  | (_, p3) \<Rightarrow> (Panic, p3)))"

fun walk_files :: "flt \<Rightarrow> order \<Rightarrow> walk_entry list \<Rightarrow> PSIParser \<Rightarrow> (psi_err, unit) outcome \<times> PSIParser" where
  "walk_files fl ord [] p = (Ok (), p)"
| "walk_files fl ord (w # ws) p =
     (if we_err w then (Err (WalkFailed (we_path w)), p)
      else if we_isDir w then walk_files fl ord ws p
      else case DetectLanguage (we_path w) of
        None \<Rightarrow> walk_files fl ord ws p
      | Some lang \<Rightarrow> (case ParseFile fl ord lang w p of (Ok _, p1) \<Rightarrow> walk_files fl ord ws p1 | r \<Rightarrow> r))"

section \<open>Resolving calls across files\<close>

text \<open>Only the first \<^verbatim>\<open>contains\<close> edge of a node is followed.\<close>

function findEnclosingFunctionRec :: "Graph \<Rightarrow> i64 \<Rightarrow> i64 set \<Rightarrow> i64" where
  "findEnclosingFunctionRec g nodeID visited =
     (if nodeID \<in> visited then 0
      else case List.find (\<lambda>e. ge_Type e = ''contains'') (GetEdges nodeID DirectionIncoming g) of
        None \<Rightarrow> 0
      | Some e \<Rightarrow>
          (case GetNode (ge_From e) g of
             Some parent \<Rightarrow> if HasLabel parent ''function'' then gn_ID parent
               else findEnclosingFunctionRec g (ge_From e) (insert nodeID visited)
           | None \<Rightarrow> findEnclosingFunctionRec g (ge_From e) (insert nodeID visited)))"
  by pat_completeness auto
termination
  by (relation "measure (\<lambda>(_, _, visited). card (- visited))") (auto intro!: psubset_card_mono)

declare findEnclosingFunctionRec.simps [simp del]

definition findEnclosingFunction :: "Graph \<Rightarrow> i64 \<Rightarrow> i64" where
  "findEnclosingFunction g nodeID = findEnclosingFunctionRec g nodeID {}"

fun first_method :: "Graph \<Rightarrow> string \<Rightarrow> GNode list \<Rightarrow> i64 option" where
  "first_method g name [] = None"
| "first_method g name (c # cs) =
     (case List.find (\<lambda>m. HasLabel m ''function'' \<and> string_prop m ''name'' = Some name) (GetNeighbors (gn_ID c) DirectionOutgoing g) of
        Some m \<Rightarrow> Some (gn_ID m)
      | None \<Rightarrow> first_method g name cs)"

definition context_given :: "string \<Rightarrow> bool" where
  "context_given s \<longleftrightarrow> s \<noteq> [] \<and> s \<noteq> ''<nil>''"

definition findTargetFunction :: "flt \<Rightarrow> order \<Rightarrow> string \<Rightarrow> string \<Rightarrow> string \<Rightarrow> Graph \<Rightarrow> i64" where
  "findTargetFunction fl ord name pkg contextClass g =
     (let funcs = FindNodes fl ord (by_name ''function'' (PString name)) g in
      case (if context_given contextClass
            then first_method g name (FindNodes fl ord (by_name ''class'' (PString contextClass)) g) else None) of
        Some i \<Rightarrow> i
      | None \<Rightarrow>
          (case (if context_given pkg then List.find (\<lambda>f. string_prop f ''package'' = Some pkg) funcs else None) of
             Some f \<Rightarrow> gn_ID f
           | None \<Rightarrow> (case funcs of f # _ \<Rightarrow> gn_ID f | [] \<Rightarrow> 0)))"

definition resolve_one :: "flt \<Rightarrow> order \<Rightarrow> GNode \<Rightarrow> PSIParser \<Rightarrow> PSIParser" where
  "resolve_one fl ord call p =
     (let src = findEnclosingFunction (psi_Graph p) (gn_ID call) in
      if src = 0 then p
      else let name = prop_or_nil call ''name''; pkg = prop_or_nil call ''package''; ctx = prop_or_nil call ''context'';
               target = findTargetFunction fl ord (fmt_prop fl name) (fmt_prop fl pkg) (fmt_prop fl ctx) (psi_Graph p)
        in if target \<noteq> 0 then psi_add_edge ''call'' src target p
           else snd (add_contained fl ''unresolved_call''
             [''name'' \<mapsto> name, ''package'' \<mapsto> pkg, ''context'' \<mapsto> ctx, ''file'' \<mapsto> PString (psi_currentFilePath p), ''resolved'' \<mapsto> PBool False] src p))"

definition resolveCrossFileCalls :: "flt \<Rightarrow> order \<Rightarrow> PSIParser \<Rightarrow> PSIParser" where
  "resolveCrossFileCalls fl ord p =
     fold (resolve_one fl ord) (FindNodes fl ord \<lparr>q_Label = ''call'', q_Property = [], q_Value = PNil\<rparr> (psi_Graph p)) p"

section \<open>Edges between files\<close>

definition file_of :: "GNode \<Rightarrow> string option" where
  "file_of n =
     (if HasLabel n ''file'' then string_prop n ''path''
      else case string_prop n ''file'' of Some f \<Rightarrow> Some f | None \<Rightarrow> string_prop n ''path'')"

definition node_files :: "GNode list \<Rightarrow> i64 \<Rightarrow> string" where
  "node_files ns i = (case map_of (rev (concat (map (\<lambda>n. case file_of n of Some f \<Rightarrow> [(gn_ID n, f)] | None \<Rightarrow> []) ns))) i of
     Some f \<Rightarrow> f | None \<Rightarrow> [])"

definition file_ids :: "GNode list \<Rightarrow> string \<Rightarrow> i64 option" where
  "file_ids ns = map_of (rev (concat (map (\<lambda>n. if HasLabel n ''file''
     then (case string_prop n ''path'' of Some f \<Rightarrow> [(f, gn_ID n)] | None \<Rightarrow> []) else []) ns)))"

definition pair_key :: "i64 \<Rightarrow> i64 \<Rightarrow> string" where
  "pair_key a b = (if sint a > sint b then dec_int (sint b) @ ''|'' @ dec_int (sint a) else dec_int (sint a) @ ''|'' @ dec_int (sint b))"

fun file_edges :: "(i64 \<Rightarrow> string) \<Rightarrow> (string \<Rightarrow> i64 option) \<Rightarrow> GEdge list \<Rightarrow> string set \<Rightarrow> PSIParser \<Rightarrow> PSIParser" where
  "file_edges files ids [] done p = p"
| "file_edges files ids (e # es) done p =
     (let a = files (ge_From e); b = files (ge_To e) in
      if a = [] \<or> b = [] \<or> a = b then file_edges files ids es done p
      else case (ids a, ids b) of
        (Some i, Some j) \<Rightarrow>
          (if pair_key i j \<in> done then file_edges files ids es done p
           else file_edges files ids es (insert (pair_key i j) done) (psi_add_edge ''file-call'' i j p))
      | _ \<Rightarrow> file_edges files ids es done p)"

definition buildFileEdges :: "order \<Rightarrow> PSIParser \<Rightarrow> PSIParser" where
  "buildFileEdges ord p =
     (let callEdges = filter (\<lambda>e. ge_Type e = ''call'') (Graph_GetAllEdges ord (psi_Graph p)) in
      if callEdges = [] then p
      else let ns = Graph_GetAllNodes ord (psi_Graph p)
        in file_edges (node_files ns) (file_ids ns) callEdges {} p)"

definition ParseRepo :: "flt \<Rightarrow> order \<Rightarrow> walk_entry list \<Rightarrow> PSIParser \<Rightarrow> (psi_err, unit) outcome \<times> PSIParser" where
  "ParseRepo fl ord entries p =
     (case walk_files fl ord entries p of
        (Ok _, p1) \<Rightarrow> (Ok (), buildFileEdges ord (resolveCrossFileCalls fl ord p1))
      | r \<Rightarrow> r)"

end
