(* ===== verification/PsiSpec.thy ===== *)
theory PsiSpec imports Psi GraphProps begin

text \<open>
  The containment forest: parsing a file hangs every node it creates under exactly one older
  node by a \<^verbatim>\<open>contains\<close> edge, only file nodes are roots. So the search for the function
  around a call goes up a tree.
\<close>

definition contains_edge :: "Graph \<Rightarrow> i64 \<Rightarrow> i64 \<Rightarrow> GEdge \<Rightarrow> bool" where
  "contains_edge g a b e \<longleftrightarrow> g_edgeByID g (ge_ID e) = Some e \<and> ge_Type e = ''contains'' \<and> ge_From e = a \<and> ge_To e = b"

definition is_root :: "GNode \<Rightarrow> bool" where "is_root n \<longleftrightarrow> HasLabel n ''file''"

definition forest :: "Graph \<Rightarrow> bool" where
  "forest g \<longleftrightarrow> (\<forall>i n. g_nodeByID g i = Some n \<longrightarrow>
       (if is_root n then \<forall>a e. \<not> contains_edge g a i e else \<exists>a e. \<forall>b e'. contains_edge g b i e' \<longleftrightarrow> b = a \<and> e' = e))
     \<and> (\<forall>a b e. contains_edge g a b e \<longrightarrow> sint a < sint b)"

text \<open>The invariant of the walk; \<open>k\<close> more nodes and edges can be added.\<close>

definition walk_inv :: "flt \<Rightarrow> nat \<Rightarrow> Graph \<Rightarrow> bool" where
  "walk_inv fl k g \<longleftrightarrow> graph_ok fl g \<and> forest g \<and> sint (g_nextNodeID g) + int k \<le> 2 ^ 63 - 1 \<and> sint (g_nextEdgeID g) + int k \<le> 2 ^ 63 - 1"

definition more_nodes :: "Graph \<Rightarrow> Graph \<Rightarrow> bool" where
  "more_nodes g g' \<longleftrightarrow> (\<forall>i. g_nodeByID g i \<noteq> None \<longrightarrow> g_nodeByID g' i \<noteq> None)"

lemma more_nodes_refl [simp]: "more_nodes g g"
  by (simp add: more_nodes_def)

lemma more_nodes_trans: "more_nodes a b \<Longrightarrow> more_nodes b c \<Longrightarrow> more_nodes a c"
  by (simp add: more_nodes_def)

lemma walk_inv_less: "walk_inv fl k g \<Longrightarrow> j \<le> k \<Longrightarrow> walk_inv fl j g"
  by (auto simp: walk_inv_def)

text \<open>A new node under an old one.\<close>

definition grown_by :: "flt \<Rightarrow> string list \<Rightarrow> props \<Rightarrow> i64 \<Rightarrow> Graph \<Rightarrow> Graph" where
  "grown_by fl ls ps a g = snd (AddEdge ''contains'' a (g_nextNodeID g) (snd (AddNode fl ls (Some ps) g)))"

lemma AddNode_fields:
  "g_nodeByID (snd (AddNode fl ls ps g)) = (g_nodeByID g)(g_nextNodeID g \<mapsto> NewGNode (g_nextNodeID g) ls ps)"
  "g_nextNodeID (snd (AddNode fl ls ps g)) = g_nextNodeID g + 1" "g_nextEdgeID (snd (AddNode fl ls ps g)) = g_nextEdgeID g"
  "g_edgeByID (snd (AddNode fl ls ps g)) = g_edgeByID g" "gn_ID (fst (AddNode fl ls ps g)) = g_nextNodeID g"
  by (simp_all add: AddNode_def index_node_def NewGNode_def Let_def)

lemma AddEdge_fields:
  assumes "g_nodeByID g a \<noteq> None" "g_nodeByID g b \<noteq> None"
  shows "g_edgeByID (snd (AddEdge t a b g)) = (g_edgeByID g)(g_nextEdgeID g \<mapsto> NewGEdge (g_nextEdgeID g) t a b)"
    "g_nextEdgeID (snd (AddEdge t a b g)) = g_nextEdgeID g + 1" "g_nodeByID (snd (AddEdge t a b g)) = g_nodeByID g"
    "g_nextNodeID (snd (AddEdge t a b g)) = g_nextNodeID g"
  using assms by (auto simp: AddEdge_def index_edge_def NewGEdge_def Let_def)

lemma no_edge_to_fresh: "no_dangling_edge g \<Longrightarrow> g_nodeByID g i = None \<Longrightarrow> \<not> contains_edge g a i e"
  unfolding no_dangling_edge_def contains_edge_def by metis

lemma AddNode_root_inv:
  assumes inv: "walk_inv fl (Suc k) g" and root: "''file'' \<in> set ls"
  shows "walk_inv fl k (snd (AddNode fl ls ps g))" "more_nodes g (snd (AddNode fl ls ps g))"
    "g_nodeByID (snd (AddNode fl ls ps g)) (g_nextNodeID g) \<noteq> None"
proof -
  have I: "graph_ok fl g" "forest g" "room (g_nextNodeID g)" using inv by (auto simp: walk_inv_def room_def)
  note E = graph_ok_parts(1,4) [OF I(1)]
  have fresh: "g_nodeByID g (g_nextNodeID g) = None" using E(1) numbered_fresh by (auto simp: nodes_ok_def)
  have ce: "contains_edge (snd (AddNode fl ls ps g)) = contains_edge g" by (simp add: contains_edge_def AddNode_fields fun_eq_iff)
  have "\<not> contains_edge g a (g_nextNodeID g) e" for a e by (rule no_edge_to_fresh [OF E(2) fresh])
  moreover have "is_root (NewGNode (g_nextNodeID g) ls ps)" using root by (simp add: is_root_def NewGNode_def)
  ultimately have "forest (snd (AddNode fl ls ps g))" using I(2) unfolding forest_def ce by (auto simp: AddNode_fields split: if_splits)
  then show "walk_inv fl k (snd (AddNode fl ls ps g))"
    using AddNode_ok [OF I(1,3)] inv sint_succ [OF I(3)] by (simp add: walk_inv_def AddNode_fields)
  show "more_nodes g (snd (AddNode fl ls ps g))" "g_nodeByID (snd (AddNode fl ls ps g)) (g_nextNodeID g) \<noteq> None"
    by (simp_all add: more_nodes_def AddNode_fields)
qed

lemma grown_by_inv:
  assumes inv: "walk_inv fl (Suc k) g" and a: "g_nodeByID g a \<noteq> None" and ls: "''file'' \<notin> set ls"
  shows "walk_inv fl k (grown_by fl ls ps a g)" "more_nodes g (grown_by fl ls ps a g)" "g_nodeByID (grown_by fl ls ps a g) (g_nextNodeID g) \<noteq> None"
proof -
  let ?i = "g_nextNodeID g" and ?g1 = "snd (AddNode fl ls (Some ps) g)" and ?e = "NewGEdge (g_nextEdgeID g) ''contains'' a (g_nextNodeID g)"
  have I: "graph_ok fl g" "forest g" "room ?i" "room (g_nextEdgeID g)" using inv by (auto simp: walk_inv_def room_def)
  note ok1 = AddNode_ok [OF I(1,3), of ls "Some ps"]
  have ends: "g_nodeByID ?g1 a \<noteq> None" "g_nodeByID ?g1 ?i \<noteq> None" using a by (simp_all add: AddNode_fields)
  note F = AddEdge_fields [OF ends, of "''contains''"]
  have G: "grown_by fl ls ps a g = snd (AddEdge ''contains'' a ?i ?g1)" by (simp add: grown_by_def)
  have ok2: "graph_ok fl (grown_by fl ls ps a g)" unfolding G by (rule AddEdge_ok [OF ok1]) (simp add: AddNode_fields I(4))
  have nodes: "g_nodeByID (grown_by fl ls ps a g) = (g_nodeByID g)(?i \<mapsto> NewGNode ?i ls (Some ps))" unfolding G by (simp add: F AddNode_fields)
  have edges: "g_edgeByID (grown_by fl ls ps a g) = (g_edgeByID g)(g_nextEdgeID g \<mapsto> ?e)" unfolding G by (simp add: F AddNode_fields)
  have freshN: "g_nodeByID g ?i = None" using graph_ok_parts(1) [OF I(1)] numbered_fresh by (auto simp: nodes_ok_def)
  have freshE: "g_edgeByID g (g_nextEdgeID g) = None" using graph_ok_parts(3) [OF I(1)] numbered_fresh by (auto simp: edges_ok_def)
  have old: "\<not> contains_edge g b ?i e" for b e by (rule no_edge_to_fresh [OF graph_ok_parts(4) [OF I(1)] freshN])
  have ce: "contains_edge (grown_by fl ls ps a g) b j e \<longleftrightarrow> contains_edge g b j e \<or> (b = a \<and> j = ?i \<and> e = ?e)" for b j e
    unfolding contains_edge_def edges using freshE by (auto simp: NewGEdge_def)
  have lt: "sint a < sint ?i" using graph_ok_parts(1) [OF I(1)] a by (auto simp: nodes_ok_def numbered_def)
  have "\<not> is_root (NewGNode ?i ls (Some ps))" using ls by (simp add: is_root_def NewGNode_def)
  then have "forest (grown_by fl ls ps a g)"
    using I(2) old lt unfolding forest_def ce nodes by (auto split: if_splits)
  then show "walk_inv fl k (grown_by fl ls ps a g)"
    using ok2 inv sint_succ [OF I(3)] sint_succ [OF I(4)] unfolding walk_inv_def by (simp add: G F AddNode_fields)
  show "more_nodes g (grown_by fl ls ps a g)" "g_nodeByID (grown_by fl ls ps a g) ?i \<noteq> None"
    using nodes by (auto simp: more_nodes_def)
qed

section \<open>The walk\<close>

lemma psi_add_node_graph:
  "psi_add_node fl ls ps p = (g_nextNodeID (psi_Graph p), p\<lparr>psi_Graph := snd (AddNode fl ls (Some ps) (psi_Graph p))\<rparr>)"
  by (simp add: psi_add_node_def AddNode_def NewGNode_def Let_def)

lemma add_contained_graph:
  "add_contained fl label ps a p = (g_nextNodeID (psi_Graph p), p\<lparr>psi_Graph := grown_by fl [label] ps a (psi_Graph p)\<rparr>)"
  by (simp add: add_contained_def psi_add_node_graph psi_add_edge_def grown_by_def)

lemma by_name_in_nodes:
  "n \<in> set (FindNodes fl ord (by_name label v) g) \<Longrightarrow> label \<noteq> [] \<Longrightarrow> \<exists>i. g_nodeByID g i = Some n \<and> label \<in> set (gn_Labels n)"
  by (auto simp: FindNodes_def by_name_def set_fetch)

lemma findClassNode_old:
  assumes ok: "nodes_ok (psi_Graph p)" and c: "findClassNode fl ord cl p \<noteq> 0"
  shows "\<exists>n. g_nodeByID (psi_Graph p) (findClassNode fl ord cl p) = Some n \<and> ''class'' \<in> set (gn_Labels n)"
proof -
  let ?ns = "FindNodes fl ord (by_name ''class'' (PString cl)) (psi_Graph p)"
  have "\<exists>n \<in> set ?ns. findClassNode fl ord cl p = gn_ID n"
  proof (cases "List.find (\<lambda>n. string_prop n ''file'' = Some (psi_currentFilePath p)) ?ns")
    case None
    then show ?thesis using c by (cases ?ns) (auto simp: findClassNode_def Let_def)
  next
    case (Some n)
    then have "n \<in> set ?ns" by (auto simp: find_Some_iff)
    then show ?thesis using Some by (auto simp: findClassNode_def Let_def)
  qed
  then obtain n where n: "n \<in> set ?ns" "findClassNode fl ord cl p = gn_ID n" by blast
  from by_name_in_nodes [OF n(1)] obtain i where "g_nodeByID (psi_Graph p) i = Some n" "''class'' \<in> set (gn_Labels n)" by auto
  moreover then have "gn_ID n = i" using ok by (auto simp: nodes_ok_def numbered_def)
  ultimately show ?thesis using n(2) by auto
qed

text \<open>The new method node is not a class, so its owner is an older node.\<close>

lemma add_method_graph:
  assumes ok: "graph_ok fl (psi_Graph p)" and r: "room (g_nextNodeID (psi_Graph p))" and a: "g_nodeByID (psi_Graph p) a \<noteq> None"
  shows "\<exists>b. g_nodeByID (psi_Graph p) b \<noteq> None \<and> add_method fl ord name cl n a p
    = (g_nextNodeID (psi_Graph p), p\<lparr>psi_Graph := grown_by fl [''function''] (method_props name cl n p) b (psi_Graph p)\<rparr>)"
proof -
  let ?g1 = "snd (AddNode fl [''function''] (Some (method_props name cl n p)) (psi_Graph p))"
  let ?p1 = "p\<lparr>psi_Graph := ?g1\<rparr>"
  have ok1: "nodes_ok (psi_Graph ?p1)" using AddNode_ok [OF ok r] by (simp add: graph_ok_def)
  define c where "c = (if cl \<noteq> [] then findClassNode fl ord cl ?p1 else 0)"
  have "g_nodeByID (psi_Graph p) (if c \<noteq> 0 then c else a) \<noteq> None"
  proof (cases "c = 0")
    case False
    then have "findClassNode fl ord cl ?p1 \<noteq> 0" "c = findClassNode fl ord cl ?p1" by (auto simp: c_def split: if_splits)
    then obtain m where m: "g_nodeByID ?g1 c = Some m" "''class'' \<in> set (gn_Labels m)" using findClassNode_old [of ?p1 fl ord cl, OF ok1] by auto
    then have "c \<noteq> g_nextNodeID (psi_Graph p)" by (auto simp: AddNode_fields NewGNode_def)
    then show ?thesis using m(1) False by (simp add: AddNode_fields)
  qed (use a in simp)
  then show ?thesis
    by (intro exI [of _ "if c \<noteq> 0 then c else a"])
      (simp add: add_method_def psi_add_node_graph psi_add_edge_def grown_by_def c_def Let_def)
qed

text \<open>An upper bound of the nodes and edges a walk adds.\<close>

fun ts_count :: "ts \<Rightarrow> nat" and ts_counts :: "ts option list \<Rightarrow> nat" where
  "ts_count (TS t s e cs) = Suc (ts_counts cs)"
| "ts_counts [] = 0"
| "ts_counts (None # cs) = ts_counts cs"
| "ts_counts (Some c # cs) = ts_count c + ts_counts cs"

lemma walk_add:
  assumes "walk_inv fl (Suc k) (psi_Graph p)" "g_nodeByID (psi_Graph p) a \<noteq> None" "label \<noteq> ''file''"
  shows "\<exists>i p'. add_contained fl label ps a p = (i, p') \<and> walk_inv fl k (psi_Graph p') \<and> g_nodeByID (psi_Graph p') i \<noteq> None
    \<and> more_nodes (psi_Graph p) (psi_Graph p')"
  using grown_by_inv [OF assms(1,2), of "[label]"] assms(3) by (simp add: add_contained_graph)

lemma walk_method:
  assumes "walk_inv fl (Suc k) (psi_Graph p)" "g_nodeByID (psi_Graph p) a \<noteq> None"
  shows "\<exists>i p'. add_method fl ord name cl n a p = (i, p') \<and> walk_inv fl k (psi_Graph p') \<and> g_nodeByID (psi_Graph p') i \<noteq> None
    \<and> more_nodes (psi_Graph p) (psi_Graph p')"
proof -
  have "graph_ok fl (psi_Graph p)" "room (g_nextNodeID (psi_Graph p))" using assms(1) by (auto simp: walk_inv_def room_def)
  from add_method_graph [OF this assms(2)] obtain b where b: "g_nodeByID (psi_Graph p) b \<noteq> None" "add_method fl ord name cl n a p
      = (g_nextNodeID (psi_Graph p), p\<lparr>psi_Graph := grown_by fl [''function''] (method_props name cl n p) b (psi_Graph p)\<rparr>)" by blast
  show ?thesis using grown_by_inv [OF assms(1) b(1), of "[''function'']"] b(2) by simp
qed

lemma set_package_graph: "set_package n source p = (r, p') \<Longrightarrow> psi_Graph p' = psi_Graph p"
  by (auto simp: set_package_def split: option.splits outcome.splits)

definition walked :: "flt \<Rightarrow> nat \<Rightarrow> PSIParser \<Rightarrow> PSIParser \<Rightarrow> bool" where
  "walked fl k p p' \<longleftrightarrow> walk_inv fl k (psi_Graph p') \<and> more_nodes (psi_Graph p) (psi_Graph p')"

lemma walked_trans: "walked fl k p p' \<Longrightarrow> walked fl j p' p'' \<Longrightarrow> walked fl j p p''"
  by (auto simp: walked_def intro: more_nodes_trans)

lemma walk_keeps:
  "walk_inv fl (ts_count t + k) (psi_Graph p) \<Longrightarrow> g_nodeByID (psi_Graph p) a \<noteq> None \<Longrightarrow>
    walked fl k p (snd (walkNode fl ord a t source ctx p))"
  "walk_inv fl (ts_counts cs + k) (psi_Graph p) \<Longrightarrow> g_nodeByID (psi_Graph p) a \<noteq> None \<Longrightarrow>
    walked fl k p (snd (walkChildren fl ord cs a source ctx p))"
proof (induction t and cs arbitrary: k p a ctx and k p a ctx rule: ts_count_ts_counts.induct)
  case (1 t s e cs)
  let ?n = "TS t s e cs"
  have inv: "walk_inv fl (Suc (ts_counts cs + k)) (psi_Graph p)" "walk_inv fl (ts_counts cs + k) (psi_Graph p)" "walk_inv fl k (psi_Graph p)"
    using "1.prems"(1) walk_inv_less by auto
  have here: "walked fl k p p" using inv(3) by (simp add: walked_def)
  have into: "walked fl k p (snd (walkChildren fl ord cs i source c p'))"
    if "walk_inv fl (ts_counts cs + k) (psi_Graph p')" "g_nodeByID (psi_Graph p') i \<noteq> None" "more_nodes (psi_Graph p) (psi_Graph p')" for i c p'
    using "1.IH" [OF that(1,2)] that(3) by (auto simp: walked_def intro: more_nodes_trans)
  have leaf: "walked fl k p p'" if "walk_inv fl (ts_counts cs + k) (psi_Graph p')" "more_nodes (psi_Graph p) (psi_Graph p')" for p'
    using that walk_inv_less by (auto simp: walked_def)
  have add: "\<exists>i p'. add_contained fl label ps a p = (i, p') \<and> walk_inv fl (ts_counts cs + k) (psi_Graph p') \<and> g_nodeByID (psi_Graph p') i \<noteq> None
      \<and> more_nodes (psi_Graph p) (psi_Graph p')" if "label \<noteq> ''file''" for label ps
    by (rule walk_add [OF inv(1) "1.prems"(2) that])
  consider "t = ''package_clause''" | "t = ''type_spec''" | "t = ''method_declaration''" | "t = ''function_declaration''"
    | "t = ''call_expression''" | "t \<notin> {''package_clause'', ''type_spec'', ''method_declaration'', ''function_declaration'', ''call_expression''}" by auto
  then show ?case
  proof cases
    case 1
    obtain r p1 where sp: "set_package ?n source p = (r, p1)" by fastforce
    note g = set_package_graph [OF sp]
    have "walked fl k p p1" using inv(3) g by (simp add: walked_def)
    then show ?thesis using into [of p1 a ctx] inv(2) "1.prems"(2) g sp 1 by (cases r) simp_all
  next
    case 2
    show ?thesis
    proof (cases "extractName ?n source")
      case (Ok name)
      obtain i p' where "add_contained fl ''class'' (class_props name ?n p) a p = (i, p')" "walk_inv fl (ts_counts cs + k) (psi_Graph p')"
          "g_nodeByID (psi_Graph p') i \<noteq> None" "more_nodes (psi_Graph p) (psi_Graph p')" using add [of "''class''" "class_props name ?n p"] by auto
      then show ?thesis using into [of p' i name] here Ok 2 by simp
    qed (use here 2 in simp_all)
  next
    case 3
    show ?thesis
    proof (cases "extractName ?n source")
      case (Ok name)
      note name = Ok
      show ?thesis
      proof (cases "extractReceiverClass ?n source")
        case (Ok recv)
        obtain i p' where "add_method fl ord name (if recv = [] then ctx else recv) ?n a p = (i, p')" "walk_inv fl (ts_counts cs + k) (psi_Graph p')"
            "g_nodeByID (psi_Graph p') i \<noteq> None" "more_nodes (psi_Graph p) (psi_Graph p')" using walk_method [OF inv(1) "1.prems"(2)] by blast
        then show ?thesis using into [of p' i "if recv = [] then ctx else recv"] here name Ok 3 by (simp add: Let_def)
      qed (use here name 3 in simp_all)
    qed (use here 3 in simp_all)
  next
    case 4
    show ?thesis
    proof (cases "extractName ?n source")
      case (Ok name)
      obtain i p' where "add_contained fl ''function'' (function_props name p) a p = (i, p')" "walk_inv fl (ts_counts cs + k) (psi_Graph p')"
          "g_nodeByID (psi_Graph p') i \<noteq> None" "more_nodes (psi_Graph p) (psi_Graph p')" using add [of "''function''" "function_props name p"] by auto
      then show ?thesis using into [of p' i ctx] here Ok 4 by simp
    qed (use here 4 in simp_all)
  next
    case 5
    show ?thesis
    proof (cases "extractCallName ?n source")
      case (Ok name)
      obtain i p' where "add_contained fl ''call'' (call_props name ctx p) a p = (i, p')" "walk_inv fl (ts_counts cs + k) (psi_Graph p')"
          "g_nodeByID (psi_Graph p') i \<noteq> None" "more_nodes (psi_Graph p) (psi_Graph p')" using add [of "''call''" "call_props name ctx p"] by auto
      then show ?thesis using leaf [of p'] here Ok 5 by simp
    qed (use here 5 in simp_all)
  next
    case 6
    then show ?thesis using into [of p a ctx] inv(2) "1.prems"(2) by simp
  qed
next
  case (4 c cs)
  have w: "walked fl (ts_counts cs + k) p (snd (walkNode fl ord a c source ctx p))"
    by (rule "4.IH"(1)) (use "4.prems" in \<open>simp_all add: add.assoc\<close>)
  obtain r p1 where n: "walkNode fl ord a c source ctx p = (r, p1)" by fastforce
  then have p1: "walk_inv fl (ts_counts cs + k) (psi_Graph p1)" "more_nodes (psi_Graph p) (psi_Graph p1)" using w by (simp_all add: walked_def)
  have "g_nodeByID (psi_Graph p1) a \<noteq> None" using p1(2) "4.prems"(2) by (simp add: more_nodes_def)
  then have "walked fl k p (snd (walkChildren fl ord cs a source ctx p1))"
    using "4.IH"(2) [OF p1(1)] p1(2) by (auto simp: walked_def intro: more_nodes_trans)
  moreover have "walked fl k p p1" using p1 walk_inv_less by (auto simp: walked_def)
  ultimately show ?case using n by (cases r) simp_all
qed (simp_all add: walked_def)

section \<open>Files\<close>

definition entry_count :: "walk_entry \<Rightarrow> nat" where
  "entry_count w = Suc (case we_tree w of None \<Rightarrow> 0 | Some t \<Rightarrow> ts_count t)"

lemma ParseFile_keeps:
  assumes "walk_inv fl (entry_count w + k) (psi_Graph p)"
  shows "walk_inv fl k (psi_Graph (snd (ParseFile fl ord lang w p)))"
proof (cases "we_content w")
  case None
  then show ?thesis using walk_inv_less [OF assms, of k] by (simp add: ParseFile_def)
next
  case (Some source)
  let ?c = "case we_tree w of None \<Rightarrow> 0 | Some t \<Rightarrow> ts_count t"
  let ?ps = "[''path'' \<mapsto> PString (we_path w), ''name'' \<mapsto> PString (path_base (we_path w))]"
  let ?g = "snd (AddNode fl [''file'', lang] (Some ?ps) (psi_Graph p))"
  let ?p2 = "p\<lparr>psi_currentFilePath := we_path w, psi_Graph := ?g, psi_fileID := g_nextNodeID (psi_Graph p), psi_currentPackage := []\<rparr>"
  have inv: "walk_inv fl (Suc (?c + k)) (psi_Graph p)" using assms by (simp add: entry_count_def)
  have R: "walk_inv fl (?c + k) (psi_Graph ?p2)" "g_nodeByID (psi_Graph ?p2) (g_nextNodeID (psi_Graph p)) \<noteq> None"
    using AddNode_root_inv [OF inv, of "[''file'', lang]"] by (simp_all del: AddNode_tables)
  show ?thesis
  proof (cases "we_tree w")
    case None
    then show ?thesis using R(1) Some by (simp add: ParseFile_def psi_add_node_graph Let_def)
  next
    case (Some root)
    have r: "walk_inv fl (ts_count root + k) (psi_Graph ?p2)" using R(1) Some by simp
    obtain x p3 where w: "walkNode fl ord (g_nextNodeID (psi_Graph p)) root source [] ?p2 = (x, p3)" by fastforce
    have "walk_inv fl k (psi_Graph p3)" using walk_keeps(1) [where source = source and ctx = "[]" and ord = ord, OF r R(2)] w by (simp add: walked_def)
    then show ?thesis using \<open>we_content w = Some source\<close> Some w
      by (cases x) (simp_all add: ParseFile_def psi_add_node_graph Let_def)
  qed
qed

lemma walk_files_keeps:
  "walk_inv fl (sum_list (map entry_count ws) + k) (psi_Graph p) \<Longrightarrow> walk_inv fl k (psi_Graph (snd (walk_files fl ord ws p)))"
proof (induction ws arbitrary: p)
  case (Cons w ws)
  have rest: "walk_inv fl (sum_list (map entry_count ws) + k) (psi_Graph p)" "walk_inv fl k (psi_Graph p)"
    by (rule walk_inv_less [OF Cons.prems], simp)+
  show ?case
  proof (cases "DetectLanguage (we_path w)")
    case None
    then show ?thesis using Cons.IH [OF rest(1)] rest(2) by simp
  next
    case (Some lang)
    obtain r p1 where f: "ParseFile fl ord lang w p = (r, p1)" by fastforce
    have "walk_inv fl (entry_count w + (sum_list (map entry_count ws) + k)) (psi_Graph p)" using Cons.prems by (simp add: add.assoc)
    from ParseFile_keeps [OF this] f have p1: "walk_inv fl (sum_list (map entry_count ws) + k) (psi_Graph p1)" by (metis snd_conv)
    then have "walk_inv fl k (psi_Graph p1)" using walk_inv_less by auto
    then show ?thesis using Cons.IH [OF p1] Cons.IH [OF rest(1)] rest(2) f Some by (cases r) simp_all
  qed
qed simp

section \<open>The function around a node\<close>

text \<open>The nearest function on the way up the tree.\<close>

inductive nearest :: "Graph \<Rightarrow> i64 \<Rightarrow> i64 \<Rightarrow> bool" for g where
  here: "contains_edge g a i e \<Longrightarrow> g_nodeByID g a = Some n \<Longrightarrow> HasLabel n ''function'' \<Longrightarrow> nearest g i a"
| up: "contains_edge g a i e \<Longrightarrow> g_nodeByID g a = Some n \<Longrightarrow> \<not> HasLabel n ''function'' \<Longrightarrow> nearest g a f \<Longrightarrow> nearest g i f"

inductive_cases nearest_elim: "nearest g i f"

lemma contains_found:
  assumes ok: "graph_ok fl g" and fo: "forest g" and e: "contains_edge g a i e"
  shows "List.find (\<lambda>e. ge_Type e = ''contains'') (GetEdges i DirectionIncoming g) = Some e"
    "\<And>b e'. contains_edge g b i e' \<longleftrightarrow> b = a \<and> e' = e" "\<exists>n. g_nodeByID g a = Some n"
proof -
  have ends: "\<exists>n. g_nodeByID g i = Some n" "\<exists>n. g_nodeByID g a = Some n"
    using graph_ok_parts(4) [OF ok] e by (auto simp: contains_edge_def no_dangling_edge_def)
  then show "\<exists>n. g_nodeByID g a = Some n" by blast
  obtain n where n: "g_nodeByID g i = Some n" using ends(1) by blast
  have "\<exists>a' e''. \<forall>b e'. contains_edge g b i e' \<longleftrightarrow> b = a' \<and> e' = e''" using fo n e unfolding forest_def by metis
  then show uniq: "\<And>b e'. contains_edge g b i e' \<longleftrightarrow> b = a \<and> e' = e" using e by metis
  have mem: "x \<in> set (GetEdges i DirectionIncoming g) \<and> ge_Type x = ''contains'' \<longleftrightarrow> x = e" for x
    using uniq [of "ge_From x" x] e unfolding GetEdges_in(1) [OF ok] by (auto simp: contains_edge_def)
  show "List.find (\<lambda>e. ge_Type e = ''contains'') (GetEdges i DirectionIncoming g) = Some e"
  proof (cases "List.find (\<lambda>e. ge_Type e = ''contains'') (GetEdges i DirectionIncoming g)")
    case None
    then show ?thesis using mem [of e] by (auto simp: find_None_iff)
  next
    case (Some x)
    then have "x \<in> set (GetEdges i DirectionIncoming g)" "ge_Type x = ''contains''" by (auto simp: find_Some_iff)
    then show ?thesis using mem [of x] Some by simp
  qed
qed

lemma enclosing_rec:
  "graph_ok fl g \<Longrightarrow> forest g \<Longrightarrow> \<forall>v \<in> visited. sint i < sint v \<Longrightarrow>
    (if \<exists>f. nearest g i f then nearest g i (findEnclosingFunctionRec g i visited) else findEnclosingFunctionRec g i visited = 0)"
proof (induction g i visited rule: findEnclosingFunctionRec.induct)
  case (1 g i visited)
  have new: "i \<notin> visited" using "1.prems"(3) by auto
  show ?case
  proof (cases "\<exists>a e. contains_edge g a i e")
    case False
    have "List.find (\<lambda>e. ge_Type e = ''contains'') (GetEdges i DirectionIncoming g) = None"
      using False unfolding find_None_iff GetEdges_in(1) [OF "1.prems"(1)] by (auto simp: contains_edge_def)
    then have "findEnclosingFunctionRec g i visited = 0" using new by (simp add: findEnclosingFunctionRec.simps)
    moreover have "\<not> nearest g i f" for f using False by (auto elim: nearest_elim)
    ultimately show ?thesis by simp
  next
    case True
    then obtain a e where e: "contains_edge g a i e" by blast
    note F = contains_found [OF "1.prems"(1,2) e]
    obtain n where n: "g_nodeByID g a = Some n" using F(3) by blast
    have from_e: "ge_From e = a" using e by (simp add: contains_edge_def)
    have id: "gn_ID n = a" using graph_ok_parts(1) [OF "1.prems"(1)] n by (auto simp: nodes_ok_def numbered_def)
    show ?thesis
    proof (cases "HasLabel n ''function''")
      case True
      have "findEnclosingFunctionRec g i visited = a"
        using new F(1) n True from_e id by (simp add: findEnclosingFunctionRec.simps GetNode_def)
      then show ?thesis using nearest.here [OF e n True] by auto
    next
      case False
      have run: "findEnclosingFunctionRec g i visited = findEnclosingFunctionRec g a (insert i visited)"
        using new F(1) n False from_e by (subst findEnclosingFunctionRec.simps) (simp add: GetNode_def)
      have "sint a < sint i" using "1.prems"(2) e unfolding forest_def by blast
      then have lt: "\<forall>v \<in> insert i visited. sint a < sint v" using "1.prems"(3) by fastforce
      have ga: "GetNode a g = Some n" using n by (simp add: GetNode_def)
      have IH: "if \<exists>f. nearest g a f then nearest g a (findEnclosingFunctionRec g a (insert i visited)) else findEnclosingFunctionRec g a (insert i visited) = 0"
        by (rule "1.IH"(2) [OF new F(1) _ False, unfolded from_e, OF ga "1.prems"(1,2) lt])
      have "nearest g i f \<longleftrightarrow> nearest g a f" for f
        using nearest.up [OF e n False] F(2) n False by (auto elim!: nearest_elim [of g i f])
      then show ?thesis using IH run by simp
    qed
  qed
qed

text \<open>C10: Parsing builds a containment forest: parsing any list of files, whatever their syntax trees, with or without
  errors on the way, keeps all indexes of the graph in step and keeps it a forest: a file node has no
  container, every other node has exactly one, which is older than itself. (The numbers of nodes and edges must not
  run out; a walk adds at most one of each per syntax node and one node per file.)\<close>

theorem parsing_builds_a_forest:
  assumes "graph_ok fl (psi_Graph p)" "forest (psi_Graph p)"
    and "sint (g_nextNodeID (psi_Graph p)) + int (sum_list (map entry_count ws)) \<le> 2 ^ 63 - 1"
      "sint (g_nextEdgeID (psi_Graph p)) + int (sum_list (map entry_count ws)) \<le> 2 ^ 63 - 1"
  shows "graph_ok fl (psi_Graph (snd (walk_files fl ord ws p))) \<and> forest (psi_Graph (snd (walk_files fl ord ws p)))"
  using walk_files_keeps [of fl ws 0 p ord] assms by (simp add: walk_inv_def)

text \<open>C25: The search for the function around a call finds the nearest one: going up the containment forest from a node,
  findEnclosingFunction returns the first node with the label function, and 0 if there is none on
  the way to the root.\<close>

theorem enclosing_function_is_the_nearest:
  assumes "graph_ok fl g" "forest g"
  shows "if \<exists>f. nearest g i f then nearest g i (findEnclosingFunction g i) else findEnclosingFunction g i = 0"
  using enclosing_rec [OF assms, of "{}" i] by (simp add: findEnclosingFunction_def)

section \<open>An example\<close>

text \<open>The file \<^verbatim>\<open>func f() { g() }\<close> as the parser's library gives it.\<close>

definition demo_source :: string where "demo_source = ''f g''"

definition demo_tree :: ts where
  "demo_tree = TS ''source_file'' 0 3 [Some (TS ''function_declaration'' 0 3 [Some (TS ''identifier'' 0 1 []),
     Some (TS ''call_expression'' 2 3 [Some (TS ''identifier'' 2 3 [])])])]"

definition demo_entry :: walk_entry where
  "demo_entry = \<lparr>we_path = ''a.go'', we_err = False, we_isDir = False, we_content = Some demo_source, we_tree = Some demo_tree\<rparr>"

definition empty_parser :: PSIParser where
  "empty_parser = NewPSIParser (NewGraph ''psi'' (NewGraphStore (NewDiskManager [] (\<lambda>_. False) (\<lambda>_. False))))"

lemma empty_parser_ok:
  "graph_ok fl (psi_Graph empty_parser)" "forest (psi_Graph empty_parser)"
  "sint (g_nextNodeID (psi_Graph empty_parser)) + int (sum_list (map entry_count [demo_entry])) \<le> 2 ^ 63 - 1"
  "sint (g_nextEdgeID (psi_Graph empty_parser)) + int (sum_list (map entry_count [demo_entry])) \<le> 2 ^ 63 - 1"
  by (simp add: empty_parser_def NewPSIParser_def NewGraph_ok)
    (simp_all add: empty_parser_def NewPSIParser_def forest_def contains_edge_def NewGraph_def entry_count_def demo_entry_def demo_tree_def)

lemma grown_by_fields:
  assumes "g_nodeByID g a \<noteq> None"
  shows "g_nodeByID (grown_by fl ls ps a g) = (g_nodeByID g)(g_nextNodeID g \<mapsto> NewGNode (g_nextNodeID g) ls (Some ps))"
    "g_edgeByID (grown_by fl ls ps a g) = (g_edgeByID g)(g_nextEdgeID g \<mapsto> NewGEdge (g_nextEdgeID g) ''contains'' a (g_nextNodeID g))"
    "g_nextNodeID (grown_by fl ls ps a g) = g_nextNodeID g + 1" "g_nextEdgeID (grown_by fl ls ps a g) = g_nextEdgeID g + 1"
  using assms by (auto simp: grown_by_def AddEdge_fields AddNode_fields)

lemma demo_names:
  "extractName (TS ''function_declaration'' 0 3 [Some (TS ''identifier'' 0 1 []), x]) demo_source = Ok ''f''"
  "extractCallName (TS ''call_expression'' 2 3 [Some (TS ''identifier'' 2 3 [])]) demo_source = Ok ''g''"
  by (simp_all add: extractName_def extractCallName_def content_or_empty_def content_of_def call_name_node_def under_def demo_source_def slice_def)

lemma demo_walk:
  "\<exists>p n m. walk_files fl ord [demo_entry] empty_parser = (Ok (), p) \<and> g_nodeByID (psi_Graph p) 2 = Some n \<and> gn_Labels n = [''function'']
    \<and> g_nodeByID (psi_Graph p) 3 = Some m \<and> gn_Labels m = [''call''] \<and> g_edgeByID (psi_Graph p) 2 = Some (NewGEdge 2 ''contains'' 2 3)"
proof -
  have lang: "DetectLanguage ''a.go'' = Some ''Go''" by (simp add: DetectLanguage_def has_ext_def)
  show ?thesis
    by (simp add: demo_entry_def demo_tree_def lang ParseFile_def psi_add_node_graph add_contained_graph demo_names Let_def
        grown_by_fields empty_parser_def NewPSIParser_def) (simp add: NewGNode_def)
qed

theorem parsing_builds_a_forest_witness:
  "\<forall>fl ord. \<exists>p. walk_files fl ord [demo_entry] empty_parser = (Ok (), p) \<and> g_edgeByID (psi_Graph p) 2 = Some (NewGEdge 2 ''contains'' 2 3)
    \<and> graph_ok fl (psi_Graph p) \<and> forest (psi_Graph p)"
proof (intro allI)
  fix fl ord
  from demo_walk [of fl ord] obtain p where "walk_files fl ord [demo_entry] empty_parser = (Ok (), p)"
      "g_edgeByID (psi_Graph p) 2 = Some (NewGEdge 2 ''contains'' 2 3)" by blast
  then show "\<exists>p. walk_files fl ord [demo_entry] empty_parser = (Ok (), p) \<and> g_edgeByID (psi_Graph p) 2 = Some (NewGEdge 2 ''contains'' 2 3)
    \<and> graph_ok fl (psi_Graph p) \<and> forest (psi_Graph p)"
    using parsing_builds_a_forest [OF empty_parser_ok, of fl ord] by (metis snd_conv)
qed

lemma demo_forest:
  "\<exists>p. walk_files fl ord [demo_entry] empty_parser = (Ok (), p) \<and> graph_ok fl (psi_Graph p) \<and> forest (psi_Graph p) \<and> nearest (psi_Graph p) 3 2
    \<and> (\<forall>f. nearest (psi_Graph p) 3 f \<longrightarrow> f = 2)"
proof -
  from demo_walk [of fl ord] obtain p n m where p: "walk_files fl ord [demo_entry] empty_parser = (Ok (), p)"
      "g_nodeByID (psi_Graph p) 2 = Some n" "gn_Labels n = [''function'']" "g_nodeByID (psi_Graph p) 3 = Some m"
      "g_edgeByID (psi_Graph p) 2 = Some (NewGEdge 2 ''contains'' 2 3)" by blast
  have "walk_inv fl 0 (psi_Graph p)"
    using walk_files_keeps [of fl "[demo_entry]" 0 empty_parser ord] empty_parser_ok(1) [of fl] empty_parser_ok(2-4) p(1) by (simp add: walk_inv_def)
  then have inv: "graph_ok fl (psi_Graph p)" "forest (psi_Graph p)" by (simp_all add: walk_inv_def)
  have e: "contains_edge (psi_Graph p) 2 3 (NewGEdge 2 ''contains'' 2 3)" using p(5) by (simp add: contains_edge_def NewGEdge_def)
  have "nearest (psi_Graph p) 3 2" by (rule nearest.here [OF e p(2)]) (simp add: p(3))
  moreover have "f = 2" if "nearest (psi_Graph p) 3 f" for f
    using that contains_found(2) [OF inv e] p(2,3) by (auto elim!: nearest_elim [of "psi_Graph p" 3 f])
  ultimately show ?thesis using p(1) inv by blast
qed

theorem enclosing_function_is_the_nearest_witness:
  "\<forall>fl ord. \<exists>p. walk_files fl ord [demo_entry] empty_parser = (Ok (), p) \<and> findEnclosingFunction (psi_Graph p) 3 = 2"
proof (intro allI)
  fix fl ord
  from demo_forest [of fl ord] obtain p where p: "walk_files fl ord [demo_entry] empty_parser = (Ok (), p)" "graph_ok fl (psi_Graph p)"
      "forest (psi_Graph p)" "nearest (psi_Graph p) 3 2" "\<forall>f. nearest (psi_Graph p) 3 f \<longrightarrow> f = 2" by blast
  have "nearest (psi_Graph p) 3 (findEnclosingFunction (psi_Graph p) 3)"
    using enclosing_function_is_the_nearest [OF p(2,3), of 3] p(4) by (auto split: if_splits)
  then show "\<exists>p. walk_files fl ord [demo_entry] empty_parser = (Ok (), p) \<and> findEnclosingFunction (psi_Graph p) 3 = 2" using p(1,5) by blast
qed

end
