(* ===== verification/SqlClient.thy ===== *)
theory SqlClient imports Executor begin

text \<open>
  What the clients of the executor share: \<^verbatim>\<open>pkg/config\<close>, \<^verbatim>\<open>pkg/context\<close> and \<^verbatim>\<open>pkg/snapshot\<close> keep
  no state of their own but build SQL texts, run them, and read the rows of the results. An
  operation is a function of the executor's state that gives an outcome and the new state. The
  numbers a client takes from outside (the time, a random number) are arguments of its operations.
\<close>

section \<open>Environment and errors\<close>

text \<open>
  Besides the executor's environment: \<^verbatim>\<open>int(f)\<close> of a float64, \<^verbatim>\<open>Sprintf("%f", f)\<close>, and the value that
  \<^verbatim>\<open>Sscanf(s, "%f", &f)\<close> leaves in \<^verbatim>\<open>f\<close>.
\<close>

record client_env =
  cl_en :: env
  cl_f_to_int :: "u64 \<Rightarrow> i64"
  cl_fmt_f :: "u64 \<Rightarrow> string"
  cl_scan_f :: "string \<Rightarrow> u64"

datatype client_err =
    ExecFailed storage_err
  | TxFailed tx_err
  | ModelNotFound string
  | NoActiveModel
  | ProjectNotFound string
  | NoActiveProject
  | SessionFailed storage_err
  | VersionNotFound i64
  | WalkFailed
  | FileWriteFailed string

section \<open>Running statements\<close>

type_synonym 'a act = "Executor \<Rightarrow> (client_err, 'a) outcome \<times> Executor"

definition ret :: "'a \<Rightarrow> 'a act" where "ret a e = (Ok a, e)"
definition throw :: "client_err \<Rightarrow> 'a act" where "throw err e = (Err err, e)"

definition and_then :: "'a act \<Rightarrow> ('a \<Rightarrow> 'b act) \<Rightarrow> 'b act" where
  "and_then m f e = (case m e of
     (Ok a, e1) \<Rightarrow> f a e1
   | (Err err, e1) \<Rightarrow> (Err err, e1)
   | (Panic, e1) \<Rightarrow> (Panic, e1)
   | (Hang, e1) \<Rightarrow> (Hang, e1))"

text \<open>\<^verbatim>\<open>result, err := exec.Execute(sql)\<close>: both results as values; with an error the result is nil.\<close>

definition run_sql :: "client_env \<Rightarrow> string \<Rightarrow> (QueryResult option \<times> storage_err option) act" where
  "run_sql cl sql e = (case Execute (cl_en cl) sql e of
     (Ok r, e1) \<Rightarrow> (Ok (Some r, None), e1)
   | (Err err, e1) \<Rightarrow> (Ok (None, Some err), e1)
   | (Panic, e1) \<Rightarrow> (Panic, e1)
   | (Hang, e1) \<Rightarrow> (Hang, e1))"

text \<open>The three ways the clients use it: for the error only, for the result only, for neither.\<close>

definition sql_do :: "client_env \<Rightarrow> string \<Rightarrow> unit act" where
  "sql_do cl sql = and_then (run_sql cl sql) (\<lambda>(_, err). case err of None \<Rightarrow> ret () | Some x \<Rightarrow> throw (ExecFailed x))"

definition sql_rows :: "client_env \<Rightarrow> string \<Rightarrow> QueryResult option act" where
  "sql_rows cl sql = and_then (run_sql cl sql) (\<lambda>(result, _). ret result)"

definition sql_ignore :: "client_env \<Rightarrow> string \<Rightarrow> unit act" where
  "sql_ignore cl sql = and_then (run_sql cl sql) (\<lambda>_. ret ())"

fun sql_all :: "client_env \<Rightarrow> string list \<Rightarrow> unit act" where
  "sql_all cl [] = ret ()"
| "sql_all cl (sql # sqls) = and_then (sql_ignore cl sql) (\<lambda>_. sql_all cl sqls)"

section \<open>Building SQL texts\<close>

text \<open>
  \<^verbatim>\<open>fmt.Sprintf\<close>: each verb takes the next argument, given here as the text its verb prints;
  \<^verbatim>\<open>%%\<close> is a percent sign. Every format of the clients has as many verbs as arguments.
\<close>

fun sprintf :: "string \<Rightarrow> string list \<Rightarrow> string" where
  "sprintf [] args = []"
| "sprintf [c] args = [c]"
| "sprintf (c # v # fmt) args =
     (if c \<noteq> CHR ''%'' then c # sprintf (v # fmt) args
      else if v = CHR ''%'' then CHR ''%'' # sprintf fmt args
      else case args of [] \<Rightarrow> sprintf fmt [] | a # args' \<Rightarrow> a @ sprintf fmt args')"

text \<open>\<^verbatim>\<open>%d\<close>\<close>

definition dec :: "i64 \<Rightarrow> string" where "dec i = dec_int (sint i)"

definition apostrophe :: char where "apostrophe = CHR 0x27"

definition escapeSQL :: "string \<Rightarrow> string" where
  "escapeSQL s = concat (map (\<lambda>c. if c = apostrophe then [apostrophe, apostrophe]
                                 else if is_newline c then '' '' else [c]) s)"

section \<open>Reading cells\<close>

text \<open>The rows of a result; none if it is nil or of the type ERROR.\<close>

definition result_rows :: "QueryResult option \<Rightarrow> val list list" where
  "result_rows qr = (case qr of None \<Rightarrow> [] | Some r \<Rightarrow> if qr_Type r = ''ERROR'' then [] else qr_Rows r)"

text \<open>
  \<^verbatim>\<open>Sscanf(s, "%d", &i)\<close> into a zero \<^verbatim>\<open>i\<close>: leading blanks, an optional sign and the longest run of
  digits; without a digit, or out of the range of 64 bits, \<open>i\<close> stays zero. What follows is not
  looked at. (Blanks are the ASCII ones; a newline stops the scan.)
\<close>

definition scan_blank :: "char \<Rightarrow> bool" where
  "scan_blank c \<longleftrightarrow> code c \<in> {9, 11, 12, 13, 32}"

definition scan_int :: "string \<Rightarrow> i64" where
  "scan_int s0 =
     (let s1 = dropWhile scan_blank s0;
          sign = (if s1 \<noteq> [] \<and> (hd s1 = CHR ''-'' \<or> hd s1 = CHR ''+'') then [hd s1] else []);
          digits = takeWhile is_digit (drop (length sign) s1)
      in case Atoi (sign @ digits) of Ok i \<Rightarrow> i | _ \<Rightarrow> 0)"

definition cell_text :: "client_env \<Rightarrow> val \<Rightarrow> string" where
  "cell_text cl v = fmt_v (env_fl (cl_en cl)) v"

definition cell_int :: "client_env \<Rightarrow> val \<Rightarrow> i64" where
  "cell_int cl v = scan_int (cell_text cl v)"

text \<open>The first value of the first row as text, empty for a missing or nil value.\<close>

definition first_value :: "client_env \<Rightarrow> QueryResult option \<Rightarrow> string" where
  "first_value cl qr = (case result_rows qr of
     (VNil # _) # _ \<Rightarrow> []
   | (v # _) # _ \<Rightarrow> cell_text cl v
   | _ \<Rightarrow> [])"

text \<open>A map filled row by row from the first two columns; later rows overwrite earlier ones.\<close>

definition pair_map :: "client_env \<Rightarrow> QueryResult option \<Rightarrow> (string \<times> string) list" where
  "pair_map cl qr = fold (\<lambda>row m. if 2 \<le> length row \<and> row ! 0 \<noteq> VNil \<and> row ! 1 \<noteq> VNil
       then AList.update (cell_text cl (row ! 0)) (cell_text cl (row ! 1)) m else m) (result_rows qr) []"

end
