(* ===== verification/Config.thy ===== *)
theory Config imports SqlClient begin

text \<open>
  \<^verbatim>\<open>pkg/config/manager.go\<close>: the settings, the language models and the projects, kept in three
  tables of the database. The type switches of the row parsers know \<^verbatim>\<open>int\<close>, \<^verbatim>\<open>int64\<close> and \<^verbatim>\<open>float64\<close>, not
  the \<^verbatim>\<open>int32\<close> the executor returns for an INT column. The console output is left out. The time
  stamps of a parsed row are never set: they are the zero time, the number 0.
\<close>

section \<open>Data\<close>

record ModelConfig =
  mc_ID :: i64
  mc_Name :: string
  mc_DisplayName :: string
  mc_BaseURL :: string
  mc_APIKey :: string
  mc_IsDefault :: bool
  mc_CreatedAt :: int
  mc_UpdatedAt :: int

record ProjectConfig =
  pc_ID :: i64
  pc_Name :: string
  pc_RootPath :: string
  pc_Description :: string
  pc_IsActive :: bool
  pc_LastUsed :: int
  pc_CreatedAt :: int

record UserSettings =
  us_ID :: i64
  us_ActiveModelID :: i64
  us_ActiveProjectID :: i64
  us_DefaultSessionID :: i64
  us_Theme :: string
  us_StreamingEnabled :: bool

definition blank_model :: ModelConfig where
  "blank_model = \<lparr>mc_ID = 0, mc_Name = [], mc_DisplayName = [], mc_BaseURL = [], mc_APIKey = [],
     mc_IsDefault = False, mc_CreatedAt = 0, mc_UpdatedAt = 0\<rparr>"

definition blank_project :: ProjectConfig where
  "blank_project = \<lparr>pc_ID = 0, pc_Name = [], pc_RootPath = [], pc_Description = [], pc_IsActive = False,
     pc_LastUsed = 0, pc_CreatedAt = 0\<rparr>"

definition default_settings :: UserSettings where
  "default_settings = \<lparr>us_ID = 0, us_ActiveModelID = 0, us_ActiveProjectID = 0, us_DefaultSessionID = 1,
     us_Theme = ''dark'', us_StreamingEnabled = True\<rparr>"

section \<open>Reading rows\<close>

definition getFirstValue :: "client_env \<Rightarrow> QueryResult option \<Rightarrow> string" where
  "getFirstValue cl qr = first_value cl qr"

definition getAllRows :: "QueryResult option \<Rightarrow> (string \<times> val) list list" where
  "getAllRows qr = (case qr of None \<Rightarrow> []
     | Some r \<Rightarrow> map (\<lambda>row. fold (\<lambda>(col, v) item. AList.update col v item) (zip (qr_Columns r) row) [])
         (result_rows qr))"

definition toInt :: "client_env \<Rightarrow> val \<Rightarrow> i64" where
  "toInt cl v = (case v of
     VInt i \<Rightarrow> i
   | VInt64 i \<Rightarrow> i
   | VFloat64 f \<Rightarrow> cl_f_to_int cl f
   | VString s \<Rightarrow> (case Atoi s of Ok i \<Rightarrow> i | _ \<Rightarrow> 0)
   | _ \<Rightarrow> 0)"

text \<open>
  The value \<^verbatim>\<open>Atoi\<close> returns when its error is dropped: the nearest \<^verbatim>\<open>int\<close> for a number out of range,
  0 for anything else that is not a number.
\<close>

definition Atoi_value :: "string \<Rightarrow> i64" where
  "Atoi_value s = (case Atoi s of
     Ok i \<Rightarrow> i
   | Err (ValueOutOfRange _) \<Rightarrow>
       (if s \<noteq> [] \<and> hd s = CHR ''-'' then - word_of_nat (2 ^ 63) else word_of_nat (2 ^ 63 - 1))
   | _ \<Rightarrow> 0)"

text \<open>The type switches of the three row parsers: an integer with a default, the same with text, a flag.\<close>

definition int_switch :: "client_env \<Rightarrow> i64 \<Rightarrow> val \<Rightarrow> i64" where
  "int_switch cl dflt v = (case v of
     VInt64 i \<Rightarrow> i | VInt i \<Rightarrow> i | VFloat64 f \<Rightarrow> cl_f_to_int cl f | _ \<Rightarrow> dflt)"

definition int_or_text_switch :: "client_env \<Rightarrow> i64 \<Rightarrow> val \<Rightarrow> i64" where
  "int_or_text_switch cl dflt v = (case v of VString s \<Rightarrow> Atoi_value s | _ \<Rightarrow> int_switch cl dflt v)"

definition flag_switch :: "client_env \<Rightarrow> bool \<Rightarrow> val \<Rightarrow> bool" where
  "flag_switch cl dflt v = (case v of
     VInt64 i \<Rightarrow> i = 1 | VInt i \<Rightarrow> i = 1
   | VFloat64 f \<Rightarrow> f_eq (env_fl (cl_en cl)) f (f_of_int (env_fl (cl_en cl)) 1)
   | VBool b \<Rightarrow> b | _ \<Rightarrow> dflt)"

definition text_cell :: "client_env \<Rightarrow> val \<Rightarrow> string" where
  "text_cell cl v = (case v of VNil \<Rightarrow> [] | _ \<Rightarrow> cell_text cl v)"

definition parse_model :: "client_env \<Rightarrow> val list \<Rightarrow> ModelConfig" where
  "parse_model cl row =
     (if 8 \<le> length row then
        \<lparr>mc_ID = toInt cl (row ! 0), mc_Name = text_cell cl (row ! 1), mc_DisplayName = text_cell cl (row ! 2),
         mc_BaseURL = text_cell cl (row ! 3), mc_APIKey = text_cell cl (row ! 4),
         mc_IsDefault = flag_switch cl False (row ! 5), mc_CreatedAt = 0, mc_UpdatedAt = 0\<rparr>
      else blank_model)"

definition parseModels :: "client_env \<Rightarrow> QueryResult option \<Rightarrow> ModelConfig list" where
  "parseModels cl qr = map (parse_model cl) (result_rows qr)"

definition parse_project :: "client_env \<Rightarrow> val list \<Rightarrow> ProjectConfig" where
  "parse_project cl row =
     (if 7 \<le> length row then
        \<lparr>pc_ID = int_or_text_switch cl 0 (row ! 0), pc_Name = text_cell cl (row ! 1),
         pc_RootPath = text_cell cl (row ! 2), pc_Description = text_cell cl (row ! 3),
         pc_IsActive = flag_switch cl False (row ! 4), pc_LastUsed = 0, pc_CreatedAt = 0\<rparr>
      else blank_project)"

definition parseProjects :: "client_env \<Rightarrow> QueryResult option \<Rightarrow> ProjectConfig list" where
  "parseProjects cl qr = map (parse_project cl) (result_rows qr)"

definition parseSettings :: "client_env \<Rightarrow> QueryResult option \<Rightarrow> UserSettings" where
  "parseSettings cl qr = (case result_rows qr of
     [] \<Rightarrow> default_settings
   | row # _ \<Rightarrow>
       (if 5 \<le> length row then
          \<lparr>us_ID = 0,
           us_ActiveModelID = int_or_text_switch cl 0 (row ! 0),
           us_ActiveProjectID = int_or_text_switch cl 0 (row ! 1),
           us_DefaultSessionID = int_switch cl 1 (row ! 2),
           us_Theme = (case row ! 3 of VString s \<Rightarrow> s | _ \<Rightarrow> ''dark''),
           us_StreamingEnabled = flag_switch cl True (row ! 4)\<rparr>
        else default_settings))"

section \<open>Tables\<close>

definition config_tables :: "string list" where
  "config_tables = [
     ''CREATE TABLE IF NOT EXISTS model_configs (
            name TEXT NOT_NULL UNIQUE,
            display_name TEXT NOT_NULL,
            base_url TEXT NOT_NULL,
            api_key TEXT NOT_NULL,
            is_default INT DEFAULT 0,
            created_at INT NOT_NULL,
            updated_at INT NOT_NULL
        )'',
     ''CREATE TABLE IF NOT EXISTS project_configs (
            name TEXT NOT_NULL UNIQUE,
            root_path TEXT NOT_NULL,
            description TEXT,
            is_active INT DEFAULT 0,
            last_used INT NOT_NULL,
            created_at INT NOT_NULL
        )'',
     ''CREATE TABLE IF NOT EXISTS user_settings (
            active_model_id INT,
            active_project_id INT,
            default_session_id INT DEFAULT 1,
            theme TEXT DEFAULT 'dark',
            streaming_enabled INT DEFAULT 1
        )'']"

definition config_initTables :: "client_env \<Rightarrow> unit act" where
  "config_initTables cl =
     and_then (sql_all cl config_tables) (\<lambda>_.
     and_then (sql_rows cl ''SELECT id FROM user_settings WHERE id = 1'') (\<lambda>result.
       if result_rows result = [] then sql_ignore cl ''
            INSERT INTO user_settings (id, default_session_id, streaming_enabled) 
            VALUES (1, 1, 1)
        ''
       else ret ()))"

definition NewConfigManager :: "client_env \<Rightarrow> unit act" where
  "NewConfigManager cl = config_initTables cl"

section \<open>Settings\<close>

definition GetSettings :: "client_env \<Rightarrow> UserSettings act" where
  "GetSettings cl =
     and_then (run_sql cl ''
        SELECT active_model_id, active_project_id, default_session_id, theme, streaming_enabled
        FROM user_settings WHERE id = 1
    '') (\<lambda>(result, err).
       case err of Some _ \<Rightarrow> ret default_settings | None \<Rightarrow> ret (parseSettings cl result))"

definition SetActiveModel :: "client_env \<Rightarrow> i64 \<Rightarrow> unit act" where
  "SetActiveModel cl mid = sql_do cl (sprintf ''
        UPDATE user_settings SET active_model_id = %d WHERE id = 1
    '' [dec mid])"

definition SetStreamingEnabled :: "client_env \<Rightarrow> bool \<Rightarrow> unit act" where
  "SetStreamingEnabled cl enabled =
     (let v = (if enabled then 1 else 0) in sql_do cl (sprintf ''
        UPDATE user_settings SET streaming_enabled = %d WHERE id = 1
    '' [dec v]))"

section \<open>Models\<close>

definition query_models :: "client_env \<Rightarrow> string \<Rightarrow> ModelConfig list act" where
  "query_models cl sql =
     and_then (run_sql cl sql) (\<lambda>(result, err).
       case err of Some x \<Rightarrow> throw (ExecFailed x) | None \<Rightarrow> ret (parseModels cl result))"

definition first_or :: "client_err \<Rightarrow> 'a list \<Rightarrow> 'a act" where
  "first_or err xs = (case xs of [] \<Rightarrow> throw err | x # _ \<Rightarrow> ret x)"

definition GetModelByName :: "client_env \<Rightarrow> string \<Rightarrow> ModelConfig act" where
  "GetModelByName cl name =
     and_then (query_models cl (sprintf ''
        SELECT name, display_name, base_url, api_key, is_default, created_at, updated_at
        FROM model_configs WHERE name = '%s'
    '' [escapeSQL name]))
       (first_or (ModelNotFound name))"

definition AddModel :: "client_env \<Rightarrow> i64 \<Rightarrow> string \<Rightarrow> string \<Rightarrow> string \<Rightarrow> string \<Rightarrow> bool \<Rightarrow> ModelConfig act" where
  "AddModel cl now name displayName baseURL apiKey isDefault =
     and_then (if isDefault then sql_ignore cl ''UPDATE model_configs SET is_default = 0'' else ret ()) (\<lambda>_.
     let defaultVal = (if isDefault then 1 else 0) in
     and_then (sql_do cl (sprintf ''
        INSERT INTO model_configs (name, display_name, base_url, api_key, is_default, created_at, updated_at)
        VALUES ('%s', '%s', '%s', '%s', %d, %d, %d)
    ''
         [escapeSQL name, escapeSQL displayName, escapeSQL baseURL, escapeSQL apiKey, dec defaultVal, dec now, dec now]))
       (\<lambda>_. GetModelByName cl name))"

text \<open>
  The model chosen in the settings if there is one, else the default model. The error of the first
  query falls through to the second.
\<close>

definition GetActiveModel :: "client_env \<Rightarrow> ModelConfig act" where
  "GetActiveModel cl =
     and_then (GetSettings cl) (\<lambda>settings.
     and_then (if 0 < sint (us_ActiveModelID settings)
         then and_then (run_sql cl (sprintf ''
            SELECT id, name, display_name, base_url, api_key, is_default, created_at, updated_at
            FROM model_configs WHERE id = %d
        '' [dec (us_ActiveModelID settings)]))
           (\<lambda>(result, err). ret (if err = None then parseModels cl result else []))
         else ret []) (\<lambda>chosen.
       case chosen of m # _ \<Rightarrow> ret m
       | [] \<Rightarrow> and_then (query_models cl ''
        SELECT id, name, display_name, base_url, api_key, is_default, created_at, updated_at
        FROM model_configs WHERE is_default = 1 LIMIT 1
    '')
           (first_or NoActiveModel)))"

definition ListModels :: "client_env \<Rightarrow> ModelConfig list act" where
  "ListModels cl = query_models cl ''
        SELECT id, name, display_name, base_url, api_key, is_default, created_at, updated_at
        FROM model_configs ORDER BY is_default DESC, name ASC
    ''"

definition DeleteModel :: "client_env \<Rightarrow> i64 \<Rightarrow> unit act" where
  "DeleteModel cl mid = sql_do cl (sprintf ''DELETE FROM model_configs WHERE id = %d'' [dec mid])"

section \<open>Projects\<close>

definition query_projects :: "client_env \<Rightarrow> string \<Rightarrow> ProjectConfig list act" where
  "query_projects cl sql =
     and_then (run_sql cl sql) (\<lambda>(result, err).
       case err of Some x \<Rightarrow> throw (ExecFailed x) | None \<Rightarrow> ret (parseProjects cl result))"

definition GetProjectByName :: "client_env \<Rightarrow> string \<Rightarrow> ProjectConfig act" where
  "GetProjectByName cl name =
     and_then (query_projects cl (sprintf ''
        SELECT id, name, root_path, description, is_active, last_used, created_at
        FROM project_configs WHERE name = '%s'
    '' [escapeSQL name]))
       (first_or (ProjectNotFound name))"

definition AddProject :: "client_env \<Rightarrow> i64 \<Rightarrow> string \<Rightarrow> string \<Rightarrow> string \<Rightarrow> ProjectConfig act" where
  "AddProject cl now name rootPath description =
     and_then (sql_do cl (sprintf ''
        INSERT INTO project_configs (name, root_path, description, is_active, last_used, created_at)
        VALUES ('%s', '%s', '%s', 0, %d, %d)
    ''
         [escapeSQL name, escapeSQL rootPath, escapeSQL description, dec now, dec now]))
       (\<lambda>_. GetProjectByName cl name)"

definition GetActiveProject :: "client_env \<Rightarrow> ProjectConfig act" where
  "GetActiveProject cl =
     and_then (GetSettings cl) (\<lambda>settings.
     and_then (if 0 < sint (us_ActiveProjectID settings)
         then and_then (run_sql cl (sprintf ''
            SELECT id, name, root_path, description, is_active, last_used, created_at
            FROM project_configs WHERE id = %d
        '' [dec (us_ActiveProjectID settings)]))
           (\<lambda>(result, err). ret (if err = None then parseProjects cl result else []))
         else ret []) (\<lambda>chosen.
       case chosen of p # _ \<Rightarrow> ret p
       | [] \<Rightarrow> and_then (query_projects cl ''
        SELECT id, name, root_path, description, is_active, last_used, created_at
        FROM project_configs LIMIT 1
    '')
           (first_or NoActiveProject)))"

definition ListProjects :: "client_env \<Rightarrow> ProjectConfig list act" where
  "ListProjects cl = query_projects cl ''
        SELECT id, name, root_path, description, is_active, last_used, created_at
        FROM project_configs ORDER BY last_used DESC, name ASC
    ''"

definition SetActiveProject :: "client_env \<Rightarrow> i64 \<Rightarrow> i64 \<Rightarrow> unit act" where
  "SetActiveProject cl now pid =
     and_then (sql_ignore cl (sprintf ''
        UPDATE project_configs SET last_used = %d WHERE id = %d
    '' [dec now, dec pid])) (\<lambda>_.
       sql_do cl (sprintf ''
        UPDATE user_settings SET active_project_id = %d WHERE id = 1
    '' [dec pid]))"

definition DeleteProject :: "client_env \<Rightarrow> i64 \<Rightarrow> unit act" where
  "DeleteProject cl pid = sql_do cl (sprintf ''DELETE FROM project_configs WHERE id = %d'' [dec pid])"

end
