(* ===== verification/ClientSpec.thy ===== *)
theory ClientSpec imports SqlClient SqlProps ExecSpec begin

text \<open>
  How the lexer and the parser take the texts the clients build: a text that ends at a token boundary
  is lexed on its own, a number and an escaped text in it become tokens that are known, and what
  stands at the front of a statement fixes its table and columns whatever follows.
\<close>

section \<open>Lexing a text piece by piece\<close>

definition prepend :: "Token list \<Rightarrow> (parse_err, Token list) outcome \<Rightarrow> (parse_err, Token list) outcome" where
  "prepend ts r = bind_out r (\<lambda>us. Ok (ts @ us))"

lemma prepend_Nil [simp]: "prepend [] r = r"
  by (cases r) (simp_all add: prepend_def)

lemma emit_prepend [simp]: "emit t (prepend ts r) = prepend (t # ts) r"
  by (cases r) (simp_all add: prepend_def emit_def)

lemma prepend_prepend [simp]: "prepend ts (prepend us r) = prepend (ts @ us) r"
  by (cases r) (simp_all add: prepend_def)

lemma emit_eq_prepend: "emit t r = prepend [t] r"
  by (cases r) (simp_all add: prepend_def emit_def)

lemma emit_Ok_iff: "emit t r = Ok ts \<longleftrightarrow> (\<exists>us. ts = t # us \<and> r = Ok us)"
  by (cases r) (auto simp: emit_def)

text \<open>A character that ends every token and starts none that could go on.\<close>

definition boundary :: "char \<Rightarrow> bool" where
  "boundary c \<longleftrightarrow> ws_char c \<or> c = CHR ''('' \<or> c = CHR '')'' \<or> c = CHR '',''"

definition ends_token :: "string \<Rightarrow> bool" where
  "ends_token s \<longleftrightarrow> s \<noteq> [] \<and> boundary (last s)"

lemma boundary_chars:
  assumes "boundary c"
  shows "\<not> word_char c" "\<not> num_char c" "\<not> quote_char c" "\<not> is_digit c" "\<not> word_start c" "c \<noteq> CHR ''.''"
    "c \<notin> {CHR ''='', CHR ''>'', CHR ''<'', CHR ''!''}"
  using assms by (auto simp: boundary_def word_char_def num_char_def quote_char_def word_start_def ws_char_def is_digit_def
      is_lower_def is_upper_def code_def)

lemma ends_token_run:
  assumes "ends_token s" "\<not> P (last s)"
  shows "takeWhile P (s @ t) = takeWhile P s" "dropWhile P (s @ t) = dropWhile P s @ t"
    "ends_token (dropWhile P s)" "length (dropWhile P s) \<le> length s"
proof -
  have ex: "\<exists>c \<in> set s. \<not> P c" using assms last_in_set by (auto simp: ends_token_def)
  then show "takeWhile P (s @ t) = takeWhile P s" "dropWhile P (s @ t) = dropWhile P s @ t"
    by (auto simp: takeWhile_append1 dropWhile_append1)
  have "dropWhile P s \<noteq> []" using ex by (auto simp: dropWhile_eq_Nil_conv)
  moreover have "last (dropWhile P s) = last s"
    using calculation by (metis last_appendR takeWhile_dropWhile_id)
  ultimately show "ends_token (dropWhile P s)" using assms by (simp add: ends_token_def)
qed (rule length_dropWhile_le)

lemma ends_token_tl: "ends_token (c # s) \<Longrightarrow> \<not> boundary c \<Longrightarrow> ends_token s"
  by (cases s) (auto simp: ends_token_def)

lemma starts_append: "s \<noteq> [] \<Longrightarrow> starts P (s @ t) = starts P s"
  by (cases s) (simp_all add: starts_def)

text \<open>What happens when no token starts here but perhaps a punctuation mark.\<close>

lemma lex_other:
  assumes "\<not> ws_char ch" "ch \<noteq> CHR ''-''" "\<not> quote_char ch"
    "\<not> (is_digit ch \<or> (ch = CHR ''.'' \<and> starts is_digit rest))" "\<not> word_start ch"
    "ch \<notin> {CHR ''='', CHR ''>'', CHR ''<'', CHR ''!''}"
  shows "lex_from p (ch # rest) =
    (if ch \<in> {CHR ''('', CHR '')'', CHR '','', CHR '';''} then emit (tok TokenPunctuation [ch]) (lex_from (p + 1) rest)
     else Err (UnexpectedChar ch p))"
  unfolding lex_from.simps(2) by (simp only: assms simp_thms if_False)

lemma lex_append:
  assumes "lex_from p s = Ok ts" "ends_token s" "CHR ''-'' \<notin> set s"
  shows "\<exists>q. lex_from p (s @ t) = prepend ts (lex_from q t)"
  using assms
proof (induction "length s" arbitrary: p s ts rule: less_induct)
  case less
  obtain ch rest where s: "s = ch # rest" using less.prems(2) by (cases s) (auto simp: ends_token_def)
  have nd: "ch \<noteq> CHR ''-''" "CHR ''-'' \<notin> set rest" using less.prems(3) s by auto
  have IH: "\<exists>q. lex_from p' (s' @ t) = prepend us (lex_from q t)"
    if "lex_from p' s' = Ok us" "ends_token s'" "length s' \<le> length rest" "set s' \<subseteq> set rest" for p' s' us
    using less.hyps [of s' p' us] that nd s by auto
  have last: "rest \<noteq> [] \<Longrightarrow> ends_token rest" using less.prems(2) s by (simp add: ends_token_def)
  have nb: "ends_token rest" if "\<not> boundary ch" using ends_token_tl less.prems(2) s that by blast
  consider (space) "ws_char ch"
    | (str) "\<not> ws_char ch" "quote_char ch"
    | (num) "\<not> ws_char ch" "\<not> quote_char ch" "is_digit ch \<or> (ch = CHR ''.'' \<and> starts is_digit rest)"
    | (word) "\<not> ws_char ch" "\<not> quote_char ch" "\<not> (is_digit ch \<or> (ch = CHR ''.'' \<and> starts is_digit rest))" "word_start ch"
    | (oper) "\<not> ws_char ch" "\<not> quote_char ch" "\<not> (is_digit ch \<or> (ch = CHR ''.'' \<and> starts is_digit rest))" "\<not> word_start ch"
        "ch \<in> {CHR ''='', CHR ''>'', CHR ''<'', CHR ''!''}"
    | (punc) "\<not> ws_char ch" "\<not> quote_char ch" "\<not> (is_digit ch \<or> (ch = CHR ''.'' \<and> starts is_digit rest))" "\<not> word_start ch"
        "ch \<notin> {CHR ''='', CHR ''>'', CHR ''<'', CHR ''!''}"
    by blast
  then show ?case
  proof cases
    case space
    then have "lex_from p (s @ t) = lex_from (p + 1) (rest @ t)" "lex_from (p + 1) rest = Ok ts"
      using less.prems(1) s by simp_all
    then show ?thesis using IH [of "p + 1" rest ts] last
      by (cases "rest = []") (auto simp: s)
  next
    case str
    let ?P = "\<lambda>c. c \<noteq> ch"
    have nbd: "\<not> boundary ch" using str boundary_chars by blast
    have e: "ends_token rest" by (rule nb [OF nbd])
    have after: "dropWhile ?P rest \<noteq> []" using less.prems(1) s str nd by (auto simp: Let_def split: if_splits)
    then obtain after' where a: "dropWhile ?P rest = ch # after'"
      by (metis (mono_tags, lifting) hd_dropWhile list.exhaust_sel)
    have m: "\<exists>c \<in> set rest. \<not> ?P c" using after by (auto simp: dropWhile_eq_Nil_conv)
    have app: "takeWhile ?P (rest @ t) = takeWhile ?P rest" "dropWhile ?P (rest @ t) = ch # after' @ t"
      using m a by (auto simp: takeWhile_append1 dropWhile_append1)
    have "last (ch # after') = last rest" using a by (metis last_appendR list.discI takeWhile_dropWhile_id)
    then have e': "ends_token after'" using e nbd by (cases "after' = []") (auto simp: ends_token_def)
    obtain us where us: "ts = tok TokenString (takeWhile ?P rest) # us"
        "lex_from (p + length (takeWhile ?P rest) + 2) after' = Ok us"
      using less.prems(1) s str nd a by (auto simp: Let_def emit_Ok_iff)
    have "set (dropWhile ?P rest) \<subseteq> set rest" by (meson set_dropWhileD subsetI)
    then have "set after' \<subseteq> set rest" using a by auto
    moreover have "length after' \<le> length rest" using a length_dropWhile_le [of ?P rest] by simp
    ultimately obtain q where "lex_from (p + length (takeWhile ?P rest) + 2) (after' @ t) = prepend us (lex_from q t)"
      using IH [OF us(2) e'] by blast
    moreover have "lex_from p (s @ t) = emit (tok TokenString (takeWhile ?P rest))
        (lex_from (p + length (takeWhile ?P rest) + 2) (after' @ t))"
      using s str nd app by (simp add: Let_def)
    ultimately show ?thesis using us(1) by auto
  next
    case num
    have nbd: "\<not> boundary ch" using num boundary_chars by blast
    have e: "ends_token rest" by (rule nb [OF nbd])
    have nc: "num_char ch" using num by (auto simp: num_char_def)
    note run = ends_token_run [OF e, where P = num_char, OF boundary_chars(2)]
    have bl: "boundary (last rest)" using e by (simp add: ends_token_def)
    have st: "starts is_digit (rest @ t) = starts is_digit rest" using e starts_append by (auto simp: ends_token_def)
    obtain us where us: "ts = tok TokenNumber (ch # takeWhile num_char rest) # us"
        "lex_from (p + length (ch # takeWhile num_char rest)) (dropWhile num_char rest) = Ok us"
      using less.prems(1) s num nd nc by (auto simp: Let_def emit_Ok_iff)
    obtain q where q: "lex_from (p + length (ch # takeWhile num_char rest)) (dropWhile num_char rest @ t) = prepend us (lex_from q t)"
      using IH [OF us(2) run(3) [OF bl] run(4) [OF bl]] set_dropWhileD by fastforce
    have "lex_from p (s @ t) = emit (tok TokenNumber (ch # takeWhile num_char rest))
        (lex_from (p + length (ch # takeWhile num_char rest)) (dropWhile num_char rest @ t))"
      using s num nd nc run(1,2) [OF bl] st by (auto simp: Let_def)
    then show ?thesis using q us(1) by auto
  next
    case word
    have nbd: "\<not> boundary ch" using word boundary_chars by blast
    have e: "ends_token rest" by (rule nb [OF nbd])
    have wc: "word_char ch" using word word_start_char by blast
    note run = ends_token_run [OF e, where P = word_char, OF boundary_chars(1)]
    have bl: "boundary (last rest)" using e by (simp add: ends_token_def)
    have st: "starts is_digit (rest @ t) = starts is_digit rest" using e starts_append by (auto simp: ends_token_def)
    obtain us where us: "ts = classify_word (ch # takeWhile word_char rest) # us"
        "lex_from (p + length (ch # takeWhile word_char rest)) (dropWhile word_char rest) = Ok us"
      using less.prems(1) s word nd wc by (auto simp: Let_def emit_Ok_iff)
    obtain q where q: "lex_from (p + length (ch # takeWhile word_char rest)) (dropWhile word_char rest @ t) = prepend us (lex_from q t)"
      using IH [OF us(2) run(3) [OF bl] run(4) [OF bl]] set_dropWhileD by fastforce
    have "lex_from p (s @ t) = emit (classify_word (ch # takeWhile word_char rest))
        (lex_from (p + length (ch # takeWhile word_char rest)) (dropWhile word_char rest @ t))"
      using s word nd wc run(1,2) [OF bl] st by (auto simp: Let_def)
    then show ?thesis using q us(1) by auto
  next
    case oper
    have nbd: "\<not> boundary ch" using oper boundary_chars by blast
    have e: "ends_token rest" by (rule nb [OF nbd])
    have st: "starts P (rest @ t) = starts P rest" for P using e starts_append by (auto simp: ends_token_def)
    show ?thesis
    proof (cases "starts (\<lambda>c. c = CHR ''='') rest")
      case True
      then obtain r2 where r2: "rest = CHR ''='' # r2" by (cases rest) (auto simp: starts_def)
      have e2: "ends_token r2" using e r2 ends_token_tl [of "CHR ''=''" r2] boundary_chars(7) by auto
      obtain us where us: "ts = tok TokenOperator [ch, CHR ''=''] # us" "lex_from (p + 2) r2 = Ok us"
        using less.prems(1) s oper nd r2 True by (auto simp: emit_Ok_iff)
      obtain q where "lex_from (p + 2) (r2 @ t) = prepend us (lex_from q t)"
        using IH [OF us(2) e2] r2 by auto
      moreover have "lex_from p (s @ t) = emit (tok TokenOperator [ch, CHR ''='']) (lex_from (p + 2) (r2 @ t))"
        using s oper nd st True r2 by auto
      ultimately show ?thesis using us(1) by auto
    next
      case False
      obtain us where us: "ts = tok TokenOperator [ch] # us" "lex_from (p + 1) rest = Ok us"
        using less.prems(1) s oper nd False by (auto simp: emit_Ok_iff)
      obtain q where "lex_from (p + 1) (rest @ t) = prepend us (lex_from q t)"
        using IH [OF us(2) e] by auto
      moreover have "lex_from p (s @ t) = emit (tok TokenOperator [ch]) (lex_from (p + 1) (rest @ t))"
        using s oper nd st False by auto
      ultimately show ?thesis using us(1) by auto
    qed
  next
    case punc
    let ?S = "{CHR ''('', CHR '')'', CHR '','', CHR '';''}"
    have "lex_from p s = (if ch \<in> ?S then emit (tok TokenPunctuation [ch]) (lex_from (p + 1) rest) else Err (UnexpectedChar ch p))"
      unfolding s by (rule lex_other) (use punc nd in blast)+
    then have eq: "(if ch \<in> ?S then emit (tok TokenPunctuation [ch]) (lex_from (p + 1) rest) else Err (UnexpectedChar ch p)) = Ok ts"
      using less.prems(1) by argo
    then have pc: "ch \<in> ?S" by (rule contrapos_pp) simp
    then have "emit (tok TokenPunctuation [ch]) (lex_from (p + 1) rest) = Ok ts" using eq by argo
    then obtain us where us: "ts = tok TokenPunctuation [ch] # us" "lex_from (p + 1) rest = Ok us"
      by (auto simp: emit_Ok_iff)
    have ex: "\<exists>q. lex_from (p + 1) (rest @ t) = prepend us (lex_from q t)"
    proof (cases "rest = []")
      case True
      then show ?thesis using us(2) by auto
    next
      case False
      then show ?thesis using IH [OF us(2) last] by simp
    qed
    have nn: "\<not> (is_digit ch \<or> (ch = CHR ''.'' \<and> starts is_digit (rest @ t)))" using punc pc by auto
    have "lex_from p (s @ t) = emit (tok TokenPunctuation [ch]) (lex_from (p + 1) (rest @ t))"
      unfolding s append_Cons by (subst lex_other) (use punc nd nn pc in \<open>blast | simp\<close>)+
    then show ?thesis using us(1) ex by auto
  qed
qed

text \<open>The position only shows in the error.\<close>

definition same_tokens :: "(parse_err, Token list) outcome \<Rightarrow> (parse_err, Token list) outcome \<Rightarrow> bool" where
  "same_tokens r r' \<longleftrightarrow> (\<forall>ts. r = Ok ts \<longrightarrow> r' = Ok ts)"

lemma same_if: "same_tokens a a' \<Longrightarrow> same_tokens b b' \<Longrightarrow> same_tokens (if c then a else b) (if c then a' else b')"
  by simp

lemma same_emit: "same_tokens r r' \<Longrightarrow> same_tokens (emit t r) (emit t r')"
  by (auto simp: same_tokens_def emit_Ok_iff)

lemma same_err: "same_tokens (Err x) r"
  by (simp add: same_tokens_def)

lemma lex_from_same: "same_tokens (lex_from p s) (lex_from q s)"
proof (induction "length s" arbitrary: p q s rule: less_induct)
  case less
  show ?case
  proof (cases s)
    case (Cons ch rest)
    have IH: "same_tokens (lex_from p' t) (lex_from q' t)" if "length t \<le> length rest" for p' q' t
      using less.hyps [of t p' q'] that Cons by simp
    have tl: "length (tl t) \<le> length rest" if "length t \<le> length rest" for t :: string
      using that by simp
    show ?thesis unfolding Cons lex_from.simps(2) Let_def
      by (intro same_if same_emit same_err IH tl length_dropWhile_le order_refl)
  qed (simp add: same_tokens_def)
qed

lemma lex_from_pos: "lex_from p s = Ok ts \<Longrightarrow> lex_from q s = Ok ts"
  using lex_from_same [of p s q] by (simp add: same_tokens_def)

declare lex_from.simps(2) [simp del]

section \<open>Texts made of fixed pieces, numbers and escaped texts\<close>

definition stops_number :: "string \<Rightarrow> bool" where
  "stops_number t \<longleftrightarrow> t = [] \<or> \<not> num_char (hd t)"

text \<open>
  Wherever the text \<open>s\<close> stands, it is either refused or gives the tokens \<open>ts\<close>, and lexing goes on
  behind it.
\<close>

definition piece :: "string \<Rightarrow> Token list \<Rightarrow> bool" where
  "piece s ts \<longleftrightarrow> (\<forall>p t. stops_number t \<longrightarrow>
     (\<exists>e. lex_from p (s @ t) = Err e) \<or> (\<exists>q. lex_from p (s @ t) = prepend ts (lex_from q t)))"

lemma prepend_Err [simp]: "prepend ts (Err e) = Err e"
  by (simp add: prepend_def)

lemma piece_fixed:
  assumes "Lex s = Ok ts" "ends_token s" "CHR ''-'' \<notin> set s"
  shows "piece s ts"
  using lex_append [OF lex_from_pos assms(2,3)] assms(1) by (auto simp: piece_def Lex_def)

lemma piece_append:
  assumes "piece s ts" "piece s' ts'" "\<And>t. stops_number t \<Longrightarrow> stops_number (s' @ t)"
  shows "piece (s @ s') (ts @ ts')"
  unfolding piece_def
proof (intro allI impI)
  fix p t assume t: "stops_number t"
  have st: "stops_number (s' @ t)" using assms(3) t by blast
  from assms(1) st consider (e) e where "lex_from p (s @ s' @ t) = Err e"
    | (o) q where "lex_from p (s @ s' @ t) = prepend ts (lex_from q (s' @ t))"
    unfolding piece_def by blast
  then show "(\<exists>e. lex_from p ((s @ s') @ t) = Err e) \<or> (\<exists>q. lex_from p ((s @ s') @ t) = prepend (ts @ ts') (lex_from q t))"
  proof cases
    case e
    then show ?thesis by simp
  next
    case o
    then show ?thesis using assms(2) t unfolding piece_def append_assoc by (metis prepend_Err prepend_prepend)
  qed
qed

lemma piece_whole:
  assumes "piece s ts"
  shows "(\<exists>e. Lex s = Err e) \<or> Lex s = Ok ts"
  using assms unfolding piece_def Lex_def
  by (metis append_Nil2 bind_out.simps(1) lex_from.simps(1) prepend_def stops_number_def)

text \<open>Whatever follows a piece, its tokens stand at the front.\<close>

lemma piece_front:
  assumes "piece s ts" "stops_number t"
  shows "(\<exists>e. Lex (s @ t) = Err e) \<or> (\<exists>us. Lex (s @ t) = Ok (ts @ us))"
proof -
  from assms consider (e) e where "lex_from 0 (s @ t) = Err e"
    | (o) q where "lex_from 0 (s @ t) = prepend ts (lex_from q t)" unfolding piece_def by blast
  then show ?thesis
  proof cases
    case o
    then show ?thesis using lex_from_returns [of q t]
      by (cases "lex_from q t") (auto simp: Lex_def prepend_def)
  qed (auto simp: Lex_def)
qed

text \<open>A refused piece refuses the text.\<close>

lemma piece_refused:
  assumes "piece s ts" "stops_number t" "\<And>q. \<exists>e. lex_from q t = Err e"
  shows "\<exists>e. Lex (s @ t) = Err e"
  using assms unfolding piece_def Lex_def by (metis prepend_Err)

lemma dec_nat_digits: "\<forall>c \<in> set (dec_nat n). is_digit c"
proof (induction n rule: dec_nat.induct)
  case (1 n)
  then show ?case using digit_facts by (subst dec_nat.simps) auto
qed

text \<open>A negative number is refused: the lexer knows no minus sign.\<close>

lemma piece_dec: "piece (dec i) [tok TokenNumber (dec i)]"
  unfolding piece_def
proof (intro allI impI)
  fix p t assume t: "stops_number t"
  obtain c v where v: "dec_nat (nat \<bar>sint i\<bar>) = c # v" "is_digit c" "\<forall>x \<in> set v. is_digit x"
    using dec_nat_head [of "nat \<bar>sint i\<bar>"] dec_nat_digits [of "nat \<bar>sint i\<bar>"]
    by (cases "dec_nat (nat \<bar>sint i\<bar>)") auto
  note c = digit_char [OF v(2)]
  show "(\<exists>e. lex_from p (dec i @ t) = Err e) \<or> (\<exists>q. lex_from p (dec i @ t) = prepend [tok TokenNumber (dec i)] (lex_from q t))"
  proof (cases "sint i < 0")
    case True
    then have "dec i = CHR ''-'' # c # v" using v(1) by (simp add: dec_def dec_int_def)
    moreover have "lex_from p (CHR ''-'' # (c # v) @ t) = Err (UnexpectedChar (CHR ''-'') p)"
    proof -
      have "\<not> ws_char (CHR ''-'')" "\<not> quote_char (CHR ''-'')" "\<not> is_digit (CHR ''-'')" "\<not> word_start (CHR ''-'')"
        by (simp_all add: ws_char_def quote_char_def is_digit_def word_start_def is_lower_def is_upper_def code_def)
      then show ?thesis using c(3) by (subst lex_from.simps(2)) (simp add: starts_def)
    qed
    ultimately show ?thesis by simp
  next
    case False
    then have d: "dec i = c # v" using v(1) by (simp add: dec_def dec_int_def)
    have nv: "\<forall>x \<in> set v. num_char x" using v(3) digit_char(1) by blast
    have run: "takeWhile num_char (v @ t) = v" "dropWhile num_char (v @ t) = t"
      using nv t by (auto simp: stops_number_def takeWhile_append2 dropWhile_append2 takeWhile_eq_Nil_iff dropWhile_eq_self_iff)
    have "lex_from p (dec i @ t) = emit (tok TokenNumber (dec i)) (lex_from (p + length (c # v)) t)"
      unfolding d append_Cons using c v(2) run by (subst lex_from.simps(2)) simp
    then show ?thesis by (auto simp: emit_eq_prepend)
  qed
qed

text \<open>
  What the lexer makes of an escaped text in apostrophes: one string per part between apostrophes.
\<close>

fun parts :: "string \<Rightarrow> string \<Rightarrow> string list" where
  "parts w [] = [w]"
| "parts w (c # s) =
     (if c = apostrophe then w # parts [] s
      else parts (w @ [if is_newline c then CHR '' '' else c]) s)"

definition quoted :: "string \<Rightarrow> string" where
  "quoted s = apostrophe # escapeSQL s @ [apostrophe]"

definition string_tokens :: "string list \<Rightarrow> Token list" where
  "string_tokens vs = map (tok TokenString) vs"

lemma apostrophe_facts: "quote_char apostrophe" "\<not> ws_char apostrophe" "apostrophe \<noteq> CHR ''-''" "\<not> num_char apostrophe"
  by (simp_all add: apostrophe_def quote_char_def ws_char_def num_char_def is_digit_def code_def)

lemma lex_one_string:
  assumes "apostrophe \<notin> set w"
  shows "lex_from p (apostrophe # w @ apostrophe # t) = emit (tok TokenString w) (lex_from (p + length w + 2) t)"
proof -
  have "\<forall>c \<in> set w. c \<noteq> apostrophe" using assms by blast
  note run_append [of w "\<lambda>c. c \<noteq> apostrophe" apostrophe t, OF this]
  then show ?thesis using apostrophe_facts by (subst lex_from.simps(2)) (simp add: Let_def)
qed

lemma lex_escaped:
  assumes "apostrophe \<notin> set w"
  shows "\<exists>q. lex_from p (apostrophe # w @ escapeSQL s @ apostrophe # t) = prepend (string_tokens (parts w s)) (lex_from q t)"
  using assms
proof (induction w s arbitrary: p rule: parts.induct)
  case (1 w)
  then show ?case using lex_one_string [of w p t] by (auto simp: escapeSQL_def string_tokens_def emit_eq_prepend)
next
  case (2 w c s)
  show ?case
  proof (cases "c = apostrophe")
    case True
    then have e: "escapeSQL (c # s) = apostrophe # apostrophe # escapeSQL s" by (simp add: escapeSQL_def)
    have "\<exists>q. lex_from (p + length w + 2) (apostrophe # [] @ escapeSQL s @ apostrophe # t)
        = prepend (string_tokens (parts [] s)) (lex_from q t)" by (rule 2(1) [OF True]) simp
    then obtain q where q: "lex_from (p + length w + 2) (apostrophe # escapeSQL s @ apostrophe # t)
        = prepend (string_tokens (parts [] s)) (lex_from q t)" by auto
    have "lex_from p (apostrophe # w @ escapeSQL (c # s) @ apostrophe # t)
        = emit (tok TokenString w) (lex_from (p + length w + 2) (apostrophe # escapeSQL s @ apostrophe # t))"
      using lex_one_string [OF 2(3), of p "apostrophe # escapeSQL s @ apostrophe # t"] e by simp
    then show ?thesis using q True by (auto simp: string_tokens_def)
  next
    case False
    let ?c = "if is_newline c then CHR '' '' else c"
    have na: "?c \<noteq> apostrophe" using False by (simp add: apostrophe_def)
    have "escapeSQL (c # s) = ?c # escapeSQL s" using False by (simp add: escapeSQL_def)
    moreover have "\<exists>q. lex_from p (apostrophe # (w @ [?c]) @ escapeSQL s @ apostrophe # t)
        = prepend (string_tokens (parts (w @ [?c]) s)) (lex_from q t)"
      using 2(3) na by (intro 2(2) [OF False]) simp
    moreover have "parts w (c # s) = parts (w @ [?c]) s" using False by simp
    ultimately show ?thesis by (simp only: append_assoc append_Cons append_Nil)
  qed
qed

lemma piece_quoted: "piece (quoted s) (string_tokens (parts [] s))"
  using lex_escaped [of "[]"] by (auto simp: piece_def quoted_def)

lemma parts_plain:
  "apostrophe \<notin> set s \<Longrightarrow> parts w s = [w @ map (\<lambda>c. if is_newline c then CHR '' '' else c) s]"
  by (induction w s rule: parts.induct) auto

lemma length_parts: "length (parts w s) = length (filter (\<lambda>c. c = apostrophe) s) + 1"
  by (induction w s rule: parts.induct) auto

lemma piece_fixed_then:
  assumes "Lex f = Ok ts" "ends_token f" "CHR ''-'' \<notin> set f" "piece s us"
  shows "piece (f @ s) (ts @ us)"
  unfolding piece_def
proof (intro allI impI)
  fix p t assume t: "stops_number t"
  obtain q where q: "lex_from p (f @ s @ t) = prepend ts (lex_from q (s @ t))"
    using lex_append [OF lex_from_pos assms(2,3)] assms(1) unfolding Lex_def by blast
  show "(\<exists>e. lex_from p ((f @ s) @ t) = Err e) \<or> (\<exists>q. lex_from p ((f @ s) @ t) = prepend (ts @ us) (lex_from q t))"
    using assms(4) t unfolding piece_def append_assoc q by (metis prepend_Err prepend_prepend)
qed

text \<open>
  A text as a list of segments: fixed text, a number, an escaped text. A number or an escaped text
  stands at the end or before a fixed text that cannot continue a number.
\<close>

datatype segment = Fixed string | Number i64 | Quoted string

fun seg_text :: "segment \<Rightarrow> string" where
  "seg_text (Fixed f) = f"
| "seg_text (Number i) = dec i"
| "seg_text (Quoted s) = quoted s"

definition fixed_text :: "string \<Rightarrow> bool" where
  "fixed_text s \<longleftrightarrow> is_Ok (Lex s) \<and> ends_token s \<and> CHR ''-'' \<notin> set s"

definition fixed_tokens :: "string \<Rightarrow> Token list" where
  "fixed_tokens f = (case Lex f of Ok ts \<Rightarrow> ts | _ \<Rightarrow> [])"

fun seg_tokens :: "segment \<Rightarrow> Token list" where
  "seg_tokens (Fixed f) = fixed_tokens f"
| "seg_tokens (Number i) = [tok TokenNumber (dec i)]"
| "seg_tokens (Quoted s) = string_tokens (parts [] s)"

fun stop_here :: "segment list \<Rightarrow> bool" where
  "stop_here [] = True"
| "stop_here (Fixed f # ss) = (f \<noteq> [] \<and> stops_number f)"
| "stop_here _ = False"

fun chain :: "segment list \<Rightarrow> bool" where
  "chain [] = True"
| "chain (Fixed f # ss) = (fixed_text f \<and> chain ss)"
| "chain (Number i # ss) = (stop_here ss \<and> chain ss)"
| "chain (Quoted s # ss) = (stop_here ss \<and> chain ss)"

definition segs_text :: "segment list \<Rightarrow> string" where
  "segs_text ss = concat (map seg_text ss)"

definition segs_tokens :: "segment list \<Rightarrow> Token list" where
  "segs_tokens ss = concat (map seg_tokens ss)"

lemma piece_Nil: "piece [] []"
  by (auto simp: piece_def)

lemma piece_seg_then:
  assumes "piece s ts" "stop_here ss" "piece (segs_text ss) us"
  shows "piece (s @ segs_text ss) (ts @ us)"
proof (rule piece_append [OF assms(1,3)])
  fix t show "stops_number t \<Longrightarrow> stops_number (segs_text ss @ t)"
    using assms(2) by (cases ss rule: stop_here.cases) (auto simp: segs_text_def stops_number_def)
qed

lemma chain_piece: "chain ss \<Longrightarrow> piece (segs_text ss) (segs_tokens ss)"
proof (induction ss rule: chain.induct)
  case 1
  then show ?case by (simp add: segs_text_def segs_tokens_def piece_Nil)
next
  case (2 f ss)
  then have f: "Lex f = Ok (fixed_tokens f)" "ends_token f" "CHR ''-'' \<notin> set f"
    by (auto simp: fixed_text_def fixed_tokens_def elim: is_Ok.elims)
  show ?case using piece_fixed_then [OF f] 2 by (simp add: segs_text_def segs_tokens_def)
next
  case (3 i ss)
  then show ?case using piece_seg_then [OF piece_dec] by (simp add: segs_text_def segs_tokens_def)
next
  case (4 s ss)
  then show ?case using piece_seg_then [OF piece_quoted] by (simp add: segs_text_def segs_tokens_def)
qed

lemma chain_Lex: "chain ss \<Longrightarrow> (\<exists>e. Lex (segs_text ss) = Err e) \<or> Lex (segs_text ss) = Ok (segs_tokens ss)"
  by (rule piece_whole [OF chain_piece])

text \<open>A fixed text fixes the first tokens, whatever stands behind it.\<close>

lemma fixed_front:
  assumes "Lex f = Ok ts" "ends_token f" "CHR ''-'' \<notin> set f"
  shows "(\<exists>e. Lex (f @ t) = Err e) \<or> (\<exists>us. Lex (f @ t) = Ok (ts @ us))"
proof -
  obtain q where q: "lex_from 0 (f @ t) = prepend ts (lex_from q t)"
    using lex_append [OF lex_from_pos assms(2,3)] assms(1) unfolding Lex_def by blast
  show ?thesis using lex_from_returns [of q t] q
    by (cases "lex_from q t") (auto simp: Lex_def prepend_def)
qed

section \<open>Statements without effect\<close>

text \<open>The statement is answered with an error result and nothing has changed.\<close>

definition no_effect :: "client_env \<Rightarrow> string \<Rightarrow> Executor \<Rightarrow> bool" where
  "no_effect cl sql e \<longleftrightarrow> (\<exists>x. run_sql cl sql e = (Ok (Some (error_result x), None), e))"

lemma refused_no_effect: "Lex sql = Err x \<Longrightarrow> no_effect cl sql e"
  by (auto simp: no_effect_def run_sql_def Execute_def Parse_def fail_def)

lemma unparsed_no_effect: "Parse sql = Err x \<Longrightarrow> no_effect cl sql e"
  by (auto simp: no_effect_def run_sql_def Execute_def fail_def)

lemma no_effect_do: "no_effect cl sql e \<Longrightarrow> sql_do cl sql e = (Ok (), e)"
  by (auto simp: no_effect_def sql_do_def and_then_def ret_def)

lemma no_effect_ignore: "no_effect cl sql e \<Longrightarrow> sql_ignore cl sql e = (Ok (), e)"
  by (auto simp: no_effect_def sql_ignore_def and_then_def ret_def)

lemma no_effect_rows: "no_effect cl sql e \<Longrightarrow> \<exists>x. sql_rows cl sql e = (Ok (Some (error_result x)), e)"
  by (auto simp: no_effect_def sql_rows_def and_then_def ret_def)

lemma result_rows_error [simp]: "result_rows (Some (error_result x)) = []"
  by (simp add: result_rows_def error_result_def)

text \<open>The table a statement works on.\<close>

fun stmt_table :: "Statement \<Rightarrow> string option" where
  "stmt_table (InsertStmt s) = Some (ins_Table s)"
| "stmt_table (SelectStmt s) = Some (sel_Table s)"
| "stmt_table (DeleteStmt s) = Some (del_Table s)"
| "stmt_table (UpdateStmt s) = Some (upd_Table s)"
| "stmt_table _ = None"

lemma missing_table_no_effect:
  assumes "Parse sql = Ok stmt" "stmt_table stmt = Some t" "ex_Tables e t = None"
  shows "no_effect cl sql e"
proof -
  have "run_statement en stmt e = fail (NoTable t) e" for en
    using assms(2,3) by (cases stmt) (auto simp: run_statement_def executeInsert_def executeSelect_def
        executeDelete_def executeUpdate_def)
  then have "Execute en sql e = (Ok (error_result (NoTable t)), e)" for en
    using assms(1) by (simp add: Execute_def execute_parsed_def fail_def error_result_def)
  then show ?thesis by (auto simp: no_effect_def run_sql_def)
qed

end
