(* ===== verification/ClientStmts.thy ===== *)
theory ClientStmts imports ClientSpec begin

text \<open>
  Statements of which only the front is fixed: the rest holds numbers and texts of the caller. The
  front alone decides the table and the columns, so that a missing table, a missing column or a
  refused command makes the statement fail whatever is in the rest.
\<close>

section \<open>What the front of a statement fixes\<close>

lemma Parse_front:
  assumes "fixed_text f"
  shows "(\<exists>x. Parse (f @ t) = Err x) \<or> (\<exists>us. Parse (f @ t) = bind_out (Parse_tokens (fixed_tokens f @ us)) (\<lambda>(s, _). Ok s))"
proof -
  have f: "Lex f = Ok (fixed_tokens f)" "ends_token f" "CHR ''-'' \<notin> set f"
    using assms by (auto simp: fixed_text_def fixed_tokens_def elim: is_Ok.elims)
  show ?thesis using fixed_front [OF f, of t] by (auto simp: Parse_def)
qed

text \<open>A front that fixes the table: without the table the statement fails, whatever follows.\<close>

lemma front_missing_no_effect:
  assumes "fixed_text f"
    and p: "\<And>us. (\<exists>x. Parse_tokens (fixed_tokens f @ us) = Err x)
      \<or> (\<exists>stmt r. Parse_tokens (fixed_tokens f @ us) = Ok (stmt, r) \<and> stmt_table stmt = Some t)"
    and "ex_Tables e t = None"
  shows "no_effect cl (f @ x) e"
proof -
  from Parse_front [OF assms(1), of x] consider (e) err where "Parse (f @ x) = Err err"
    | (o) us where "Parse (f @ x) = bind_out (Parse_tokens (fixed_tokens f @ us)) (\<lambda>(s, _). Ok s)" by blast
  then show ?thesis
  proof cases
    case e
    then show ?thesis by (rule unparsed_no_effect)
  next
    case o
    from p [of us] show ?thesis
      using o unparsed_no_effect missing_table_no_effect [OF _ _ assms(3)] by fastforce
  qed
qed

text \<open>\<^verbatim>\<open>INSERT INTO t (... )\<close>, with the column list closed.\<close>

fun insert_head :: "Token list \<Rightarrow> string option" where
  "insert_head (a # b # c # d # ts) =
     (if a = kw ''INSERT'' \<and> b = kw ''INTO'' \<and> tk_Type c = TokenIdentifier \<and> d = punct ''(''
         \<and> (\<exists>t \<in> set ts. tk_Value t = '')'') then Some (tk_Value c) else None)"
| "insert_head _ = None"

lemma ident_is_idt: "tk_Type c = TokenIdentifier \<Longrightarrow> c = idt (tk_Value c)"
  by (simp add: idt_def)

lemma parse_insert_head:
  assumes "insert_head ts = Some t"
  shows "(\<exists>x. Parse_tokens (ts @ us) = Err x)
    \<or> (\<exists>s r. Parse_tokens (ts @ us) = Ok (InsertStmt s, r) \<and> ins_Table s = t)"
proof -
  obtain c ts' where ts: "ts = kw ''INSERT'' # kw ''INTO'' # c # punct ''('' # ts'" "tk_Type c = TokenIdentifier"
      "t = tk_Value c" "\<exists>t \<in> set ts'. tk_Value t = '')''"
    using assms by (cases ts rule: insert_head.cases) (auto split: if_splits)
  have c: "c = idt t" using ts ident_is_idt by simp
  have np: "\<not> no_paren (ts' @ us)" using ts(4) by (auto simp: no_paren_def)
  have run: "Parse_tokens (ts @ us) = bind_out (parseInsert (ts @ us)) (\<lambda>(s, r). Ok (InsertStmt s, r))"
    by (simp add: ts(1) Parse_tokens_def)
  have ret: "returns (parseInsert (ts @ us))"
    using insert_columns_returns [OF np] by (auto simp: ts(1) c parseInsert_def comes_back)
  have tab: "parseInsert (ts @ us) = Ok (s, r) \<Longrightarrow> ins_Table s = t" for s r
    by (auto simp: ts(1) c parseInsert_def bind_out_Ok_iff)
  show ?thesis using ret tab run by (cases "parseInsert (ts @ us)") auto
qed

lemma insert_missing_no_effect:
  assumes "fixed_text f" "insert_head (fixed_tokens f) = Some t" "ex_Tables e t = None"
  shows "no_effect cl (f @ x) e"
  using parse_insert_head [OF assms(2)] front_missing_no_effect [OF assms(1) _ assms(3), of cl x]
  by (metis stmt_table.simps(1))

text \<open>\<^verbatim>\<open>SELECT ... FROM t\<close>, with a word behind it that does not start a join.\<close>

lemma want_append: "want v ts = Ok ((), ts') \<Longrightarrow> ts \<noteq> [] \<Longrightarrow> want v (ts @ us) = Ok ((), ts' @ us)"
  by (cases ts) (auto simp: want_def split: if_splits)

lemma parseAggregate_append:
  assumes "parseAggregate ts = Ok (a, ts')"
  shows "parseAggregate (ts @ us) = Ok (a, ts' @ us)"
proof -
  have ne: "want v xs = Ok ((), ys) \<Longrightarrow> v \<noteq> [] \<Longrightarrow> xs \<noteq> []" for v xs ys
    by (cases xs) (auto simp: want_def split: if_splits)
  obtain t0 ts0 where ts: "ts = t0 # ts0" using assms by (cases ts) (auto simp: parseAggregate_def want_def next_tok_def)
  obtain ts1 where ts1: "want ''('' ts0 = Ok ((), ts1)"
    using assms ts by (auto simp: parseAggregate_def bind_out_Ok_iff Let_def)
  obtain t1 ts2 where t1: "ts1 = t1 # ts2"
    using assms ts ts1 by (cases ts1) (auto simp: parseAggregate_def)
  obtain ts3 where ts3: "want '')'' ts2 = Ok ((), ts3)"
    using assms ts ts1 t1 by (auto simp: parseAggregate_def bind_out_Ok_iff Let_def)
  show ?thesis
    using assms ts ts1 t1 ts3 want_append [OF ts1 ne [OF ts1], of us] want_append [OF ts3 ne [OF ts3], of us]
    by (auto simp: parseAggregate_def Let_def bind_out_Ok_iff split: if_splits)
qed

lemma select_columns_append:
  "select_columns ts cols aggs = Ok (ca, ts') \<Longrightarrow> ts' \<noteq> [] \<Longrightarrow> cur_val ts' = ''FROM''
    \<Longrightarrow> select_columns (ts @ us) cols aggs = Ok (ca, ts' @ us)"
proof (induction ts cols aggs rule: select_columns.induct)
  case (1 ts cols aggs)
  show ?case
  proof (cases "cur_type ts \<noteq> TokenEOF \<and> cur_val ts \<noteq> ''FROM'' \<and> ts \<noteq> []")
    case False
    then have "ts' = ts \<and> ca = (cols, aggs)" using 1(4) by (subst (asm) select_columns.simps) (auto split: if_splits)
    then show ?thesis using 1(5,6) by (cases ts) (auto simp: select_columns.simps [of "_ # _"])
  next
    case True
    then obtain t0 ts0 where ts: "ts = t0 # ts0" by (cases ts) auto
    show ?thesis
    proof (cases "is_aggregate (cur_val ts)")
      case agg: True
      obtain a ts1 where a: "parseAggregate ts = Ok (a, ts1)"
        using 1(4) True agg by (subst (asm) select_columns.simps) (auto split: outcome.splits)
      then have "select_columns ts1 (cols @ [ag_Func a @ ''('' @ ag_Column a @ '')'']) (aggs @ [a]) = Ok (ca, ts')"
        using 1(4) True agg by (subst (asm) select_columns.simps) auto
      then have "select_columns (ts1 @ us) (cols @ [ag_Func a @ ''('' @ ag_Column a @ '')'']) (aggs @ [a]) = Ok (ca, ts' @ us)"
        using 1(1) [OF True agg] a 1(5,6) by blast
      then show ?thesis using True agg parseAggregate_append [OF a, of us] ts
        by (subst select_columns.simps) auto
    next
      case False
      then show ?thesis using 1(2,3) [OF True False] 1(4,5,6) True ts
        by (subst select_columns.simps, subst (asm) (3) select_columns.simps) (auto split: if_splits)
    qed
  qed
qed

record select_front =
  sf_Columns :: "string list"
  sf_Aggregates :: "Aggregate list"
  sf_Table :: string

definition select_head :: "Token list \<Rightarrow> select_front option" where
  "select_head ts =
     (if cur_type ts = TokenKeyword \<and> cur_val ts = ''SELECT'' then
        (case select_columns (next_tok ts) [] [] of
           Ok ((cols, aggs), f # c # d # ts') \<Rightarrow>
             (if tk_Value f = ''FROM'' \<and> tk_Type c = TokenIdentifier \<and> tk_Value d \<notin> {''JOIN'', ''INNER'', ''LEFT''}
              then Some \<lparr>sf_Columns = cols, sf_Aggregates = aggs, sf_Table = tk_Value c\<rparr> else None)
         | _ \<Rightarrow> None)
      else None)"

definition fits_front :: "SelectStatement \<Rightarrow> select_front \<Rightarrow> bool" where
  "fits_front s h \<longleftrightarrow> sel_Columns s = sf_Columns h \<and> sel_Aggregates s = sf_Aggregates h
     \<and> sel_Table s = sf_Table h \<and> sel_Join s = None"

lemma parse_select_head:
  assumes "select_head ts = Some h"
  shows "(\<exists>x. Parse_tokens (ts @ us) = Err x)
    \<or> (\<exists>s r. Parse_tokens (ts @ us) = Ok (SelectStmt s, r) \<and> fits_front s h)"
proof -
  obtain cols aggs f c d ts' where sc: "select_columns (next_tok ts) [] [] = Ok ((cols, aggs), f # c # d # ts')"
      and k: "cur_type ts = TokenKeyword" "cur_val ts = ''SELECT''"
      and f: "tk_Value f = ''FROM''" "tk_Type c = TokenIdentifier" "tk_Value d \<notin> {''JOIN'', ''INNER'', ''LEFT''}"
      and h: "h = \<lparr>sf_Columns = cols, sf_Aggregates = aggs, sf_Table = tk_Value c\<rparr>"
    using assms by (auto simp: select_head_def split: if_splits outcome.splits list.splits prod.splits)
  obtain t0 ts0 where ts: "ts = t0 # ts0" using k by (cases ts) auto
  have sc': "select_columns (ts0 @ us) [] [] = Ok ((cols, aggs), f # c # d # ts' @ us)"
    using select_columns_append [of ts0 "[]" "[]" "(cols, aggs)" "f # c # d # ts'" us] sc f(1) ts by simp
  have c: "c = idt (tk_Value c)" by (rule ident_is_idt [OF f(2)])
  have fit: "parseSelect (ts @ us) = Ok (s, r) \<Longrightarrow> fits_front s h" for s r
    using sc' f c by (auto simp: ts h fits_front_def parseSelect_def bind_out_Ok_iff want_def ident_def parseJoin_def)
  have run: "Parse_tokens (ts @ us) = bind_out (parseSelect (ts @ us)) (\<lambda>(s, r). Ok (SelectStmt s, r))"
    using k by (simp add: Parse_tokens_def ts)
  show ?thesis using parseSelect_returns [of "ts @ us"] fit run by (cases "parseSelect (ts @ us)") auto
qed

lemma Parse_select_front:
  assumes "fixed_text f" "select_head (fixed_tokens f) = Some h"
  shows "(\<exists>x. Parse (f @ t) = Err x) \<or> (\<exists>s. Parse (f @ t) = Ok (SelectStmt s) \<and> fits_front s h)"
  using Parse_front [OF assms(1), of t] parse_select_head [OF assms(2)] by (metis (no_types, lifting) bind_out.simps(1,2) case_prod_conv)

lemma select_missing_no_effect:
  assumes "fixed_text f" "select_head (fixed_tokens f) = Some h" "ex_Tables e (sf_Table h) = None"
  shows "no_effect cl (f @ x) e"
  using Parse_select_front [OF assms(1,2), of x]
proof (elim disjE exE conjE)
  fix s assume "Parse (f @ x) = Ok (SelectStmt s)" "fits_front s h"
  then show ?thesis using assms(3) missing_table_no_effect [of _ "SelectStmt s" "sf_Table h" e cl]
    by (simp add: fits_front_def stmt_table.simps)
qed (rule unparsed_no_effect)

text \<open>An INSERT with anything but INTO behind it is refused.\<close>

lemma insert_or_refused:
  assumes "fixed_text f" "fixed_tokens f = kw ''INSERT'' # t # ts" "tk_Value t \<noteq> ''INTO''"
  shows "no_effect cl (f @ x) e"
proof -
  have "Parse_tokens (fixed_tokens f @ us) = Err (Expected ''INTO'')" for us
    using assms(2,3) by (simp add: Parse_tokens_def parseInsert_def want_def)
  then have "\<exists>err. Parse (f @ x) = Err err" using Parse_front [OF assms(1), of x] by auto
  then show ?thesis using unparsed_no_effect by blast
qed

section \<open>Creating tables\<close>

text \<open>The statement does not create the table \<open>t\<close>: it is refused, or creates another one, or names an unknown type.\<close>

definition leaves_table :: "string \<Rightarrow> string \<Rightarrow> bool" where
  "leaves_table t sql = (case Parse sql of
     Err _ \<Rightarrow> True
   | Ok (CreateTableStmt s) \<Rightarrow> ct_Table s \<noteq> t \<or> \<not> is_Ok (build_columns (ct_Columns s))
   | _ \<Rightarrow> False)"

text \<open>The table a text creates, if it creates one and is no other statement.\<close>

definition created :: "string \<Rightarrow> string option option" where
  "created sql = (case Parse sql of
     Err _ \<Rightarrow> Some None
   | Ok (CreateTableStmt s) \<Rightarrow> Some (if is_Ok (build_columns (ct_Columns s)) then Some (ct_Table s) else None)
   | _ \<Rightarrow> None)"

lemma created_leaves: "created sql = Some n \<Longrightarrow> n \<noteq> Some t \<Longrightarrow> leaves_table t sql"
  by (auto simp: created_def leaves_table_def split: outcome.splits Statement.splits if_splits)

lemma creates_leave:
  assumes "map created sqls = map Some ns" "Some t \<notin> set ns"
  shows "list_all (leaves_table t) sqls"
proof -
  have "leaves_table t sql" if s: "sql \<in> set sqls" for sql
  proof -
    have "created sql \<in> set (map Some ns)" unfolding assms(1) [symmetric] using s by simp
    then obtain n where "created sql = Some n" "n \<in> set ns" by auto
    then show ?thesis using created_leaves assms(2) by metis
  qed
  then show ?thesis by (simp add: list_all_iff)
qed

lemma build_columns_returns: "returns (build_columns cs)"
  by (induction cs) (auto split: option.splits)

lemma executeCreate_tables:
  "\<exists>r e'. executeCreate en s e = (Ok r, e')
    \<and> (ct_Table s \<noteq> t \<or> \<not> is_Ok (build_columns (ct_Columns s)) \<longrightarrow> ex_Tables e' t = ex_Tables e t)"
  using build_columns_returns [of "ct_Columns s"]
  by (auto simp: executeCreate_def fail_def or_fail_def Let_def Catalog_AddTable_def Catalog_Save_def returns_iff
      split: outcome.splits)

lemma run_create:
  assumes "leaves_table t sql"
  shows "\<exists>e'. sql_ignore cl sql e = (Ok (), e') \<and> ex_Tables e' t = ex_Tables e t"
proof (cases "\<exists>x. Parse sql = Err x")
  case True
  then show ?thesis using unparsed_no_effect no_effect_ignore by blast
next
  case False
  then obtain s where s: "Parse sql = Ok (CreateTableStmt s)" "ct_Table s \<noteq> t \<or> \<not> is_Ok (build_columns (ct_Columns s))"
    using assms by (auto simp: leaves_table_def split: outcome.splits Statement.splits)
  obtain r e1 where c: "executeCreate (cl_en cl) s e = (Ok r, e1)" "ex_Tables e1 t = ex_Tables e t"
    using executeCreate_tables [of "cl_en cl" s e t] s(2) by blast
  then show ?thesis using s(1)
    by (auto simp: sql_ignore_def and_then_def ret_def run_sql_def Execute_def execute_parsed_def run_statement_def flush_quietly_def)
qed

lemma run_creates:
  "list_all (leaves_table t) sqls \<Longrightarrow> \<exists>e'. sql_all cl sqls e = (Ok (), e') \<and> ex_Tables e' t = ex_Tables e t"
proof (induction sqls arbitrary: e)
  case (Cons sql sqls)
  obtain e1 where e1: "sql_ignore cl sql e = (Ok (), e1)" "ex_Tables e1 t = ex_Tables e t"
    using run_create [of t sql cl e] Cons.prems by auto
  then show ?case using Cons.IH [of e1] Cons.prems by (auto simp: and_then_def)
qed (simp add: ret_def)

end
