(* ===== verification/RowTypes.thy ===== *)
theory RowTypes imports ExecRows begin

text \<open>
  Rows are well typed however their bytes came about: decoding checks nothing but lengths, and still
  every value it returns is NULL or of the type of its column.
\<close>

lemma row_fits_blank: "row_fits cols (replicate (length cols) VNil)"
  by (simp add: row_fits_def list_all2_conv_all_nth)

lemma drop_Cons_nth: "drop i cols = c # cs \<Longrightarrow> cols ! i = c \<and> drop (Suc i) cols = cs"
  by (metis drop_Suc list.sel(3) nth_via_drop tl_drop)

text \<open>
  The bytes hold a row of the columns: the null bitmap, and the fixed part of every column of a
  known type that the bitmap does not mark NULL. (The fixed part of a NULL column is skipped
  unread, and texts that lie outside are left NULL.)
\<close>

definition known :: "ColumnDef \<Rightarrow> bool" where
  "known c \<longleftrightarrow> col_ColType c \<in> {TypeInt, TypeFloat, TypeText, TypeBool}"

definition widths :: "ColumnDef list \<Rightarrow> nat" where
  "widths cs = sum_list (map colFixedSize cs)"

definition holds_row :: "byte list \<Rightarrow> ColumnDef list \<Rightarrow> bool" where
  "holds_row data cols \<longleftrightarrow> data \<noteq> [] \<and> (length cols + 7) div 8 \<le> length data
     \<and> (\<forall>k < length cols. known (cols ! k) \<and> \<not> is_null_at (take ((length cols + 7) div 8) data) k \<longrightarrow>
          (length cols + 7) div 8 + widths (take (Suc k) cols) \<le> length data)"

definition holds_cols :: "byte list \<Rightarrow> byte list \<Rightarrow> nat \<Rightarrow> ColumnDef list \<Rightarrow> nat \<Rightarrow> bool" where
  "holds_cols data nb i cs pos \<longleftrightarrow>
     (\<forall>k < length cs. known (cs ! k) \<and> \<not> is_null_at nb (i + k) \<longrightarrow> pos + widths (take (Suc k) cs) \<le> length data)"

lemma holds_cols_Cons:
  "holds_cols data nb i (c # cs) pos \<longleftrightarrow>
     (known c \<and> \<not> is_null_at nb i \<longrightarrow> pos + colFixedSize c \<le> length data)
     \<and> holds_cols data nb (Suc i) cs (pos + colFixedSize c)"
  by (auto simp: holds_cols_def widths_def All_less_Suc2 add.assoc)

lemma des_loop_typed:
  "drop i cols = cs \<Longrightarrow> length vals = length cols \<Longrightarrow> row_fits cols vals \<Longrightarrow>
    case des_loop data nb i cs pos vals offs of
      Ok (p, vs, os) \<Rightarrow> holds_cols data nb i cs pos \<and> row_fits cols vs
    | Err _ \<Rightarrow> \<not> holds_cols data nb i cs pos | _ \<Rightarrow> False"
proof (induction cs arbitrary: i pos vals offs)
  case Nil
  then show ?case by (simp add: holds_cols_def)
next
  case (Cons c cs)
  have c: "cols ! i = c" "drop (Suc i) cols = cs" using drop_Cons_nth [OF Cons.prems(1)] by simp_all
  have i: "i < length vals" using Cons.prems(1,2) by (metis drop_eq_Nil leI list.distinct(1))
  define P :: "bool \<Rightarrow> des_res \<Rightarrow> bool" where
    "P b r \<longleftrightarrow> (case r of Ok (p, vs, os) \<Rightarrow> b \<and> row_fits cols vs | Err _ \<Rightarrow> \<not> b | _ \<Rightarrow> False)" for b r
  have err: "P b (Err e) \<longleftrightarrow> \<not> b" for b e by (simp add: P_def)
  have IH: "P (holds_cols data nb (Suc i) cs p) (des_loop data nb (Suc i) cs p vs os)"
    if "length vs = length cols" "row_fits cols vs" for p vs os
    unfolding P_def by (rule Cons.IH [OF c(2) that])
  have set: "length (vals[i := v]) = length cols \<and> row_fits cols (vals[i := v])" if "v = VNil \<or> fits (col_ColType c) v" for v
    using row_fits_update [OF Cons.prems(3), of v i] c(1) that Cons.prems(2) by simp
  have "P (holds_cols data nb i (c # cs) pos) (des_loop data nb i (c # cs) pos vals offs)"
    using Cons.prems(2,3)
    by (cases "is_null_at nb i"; cases "col_ColType c")
       (simp_all add: des_loop_Cons [OF i] holds_cols_Cons known_def colFixedSize_def IH err set del: des_loop.simps)
  then show ?case by (simp only: P_def)
qed

lemma des_texts_typed:
  "\<forall>x \<in> set offs. fst x < length cols \<Longrightarrow> row_fits cols vals \<Longrightarrow>
    \<exists>vs. des_texts data cols vp offs vals = Ok vs \<and> row_fits cols vs"
proof (induction offs arbitrary: vals)
  case (Cons x offs)
  obtain ci off where x: "x = (ci, off)" by fastforce
  have ci: "ci < length cols" "ci < length vals" using Cons.prems x by (simp_all add: row_fits_def list_all2_lengthD)
  show ?case using Cons.IH Cons.prems row_fits_update [OF Cons.prems(2), of _ ci]
    by (simp only: x des_texts_Cons [OF ci] Let_def split: if_split) (simp del: des_texts.simps)
qed simp

lemma decoded_spec:
  "case DeserializeRow data schema of
     Ok row \<Rightarrow> holds_row data (sch_Columns schema) \<and> row_fits (sch_Columns schema) (row_Values row)
   | Err _ \<Rightarrow> \<not> holds_row data (sch_Columns schema) | _ \<Rightarrow> False"
proof -
  let ?cols = "sch_Columns schema" and ?n = "(length (sch_Columns schema) + 7) div 8"
  let ?loop = "des_loop data (slice 0 ?n data) 0 ?cols ?n (replicate (length ?cols) VNil) []"
  have nb: "take ?n data = slice 0 ?n data" by (simp add: slice_def)
  have h: "holds_row data ?cols \<longleftrightarrow> data \<noteq> [] \<and> ?n \<le> length data \<and> holds_cols data (slice 0 ?n data) 0 ?cols ?n"
    by (simp add: holds_row_def holds_cols_def nb)
  have typed: "case ?loop of Ok (p, vs, os) \<Rightarrow> holds_cols data (slice 0 ?n data) 0 ?cols ?n \<and> row_fits ?cols vs
    | Err _ \<Rightarrow> \<not> holds_cols data (slice 0 ?n data) 0 ?cols ?n | _ \<Rightarrow> False"
    by (rule des_loop_typed) (simp_all add: row_fits_blank)
  have ends: "case ?loop of Ok (p, vs, os) \<Rightarrow> length vs = length (replicate (length ?cols) VNil)
      \<and> (\<forall>x \<in> set os. x \<in> set [] \<or> fst x < 0 + length ?cols) | Err _ \<Rightarrow> True | _ \<Rightarrow> False"
    by (rule des_loop_ends) simp
  have empty: "\<not> holds_row [] ?cols" by (simp add: holds_row_def)
  show ?thesis
  proof (cases ?loop)
    case (Ok r)
    obtain p vs os where r: "r = (p, vs, os)" by (metis prod.exhaust)
    obtain ws where "des_texts data ?cols (p + length ?cols * 2) os vs = Ok ws" "row_fits ?cols ws"
      using des_texts_typed [of os ?cols vs data] ends typed Ok r by auto
    then show ?thesis using Ok r typed h empty by (cases "data = []") (simp_all add: DeserializeRow_def Let_def)
  next
    case (Err e)
    then show ?thesis using typed h empty by (cases "data = []") (simp_all add: DeserializeRow_def Let_def)
  qed (use typed in simp_all)
qed

lemma decoded_fits: "DeserializeRow data schema = Ok row \<Longrightarrow> row_fits (sch_Columns schema) (row_Values row)"
  using decoded_spec [of data schema] by simp

text \<open>C26: Decoding never panics, whatever the bytes and the schema, although every access to the bytes, the
  bitmap, the columns and the values is one that can panic. It succeeds exactly if the bytes are not empty
  and hold the null bitmap and the fixed part of each column that is not marked NULL, and gives an error
  otherwise; and a decoded row is well typed: it has one value per column, each NULL or of
  the dynamic type that belongs to the column's type (int32 for INT, float64 for FLOAT, bool, string).\<close>

theorem decoded_rows_are_well_typed:
  "case DeserializeRow data schema of
     Ok row \<Rightarrow> holds_row data (sch_Columns schema)
       \<and> list_all2 (\<lambda>c v. v = VNil \<or> fits (col_ColType c) v) (sch_Columns schema) (row_Values row)
   | Err _ \<Rightarrow> \<not> holds_row data (sch_Columns schema)
   | Panic \<Rightarrow> False
   | Hang \<Rightarrow> False"
  using decoded_spec [of data schema] by (simp add: row_fits_def cong: outcome.case_cong)

text \<open>The rows of a table.\<close>

lemma table_rows_fit: "r \<in> set (table_rows h e) \<Longrightarrow> row_fits (sch_Columns (hf_Schema h)) (row_Values r)"
  using decoded_fits by (fastforce simp: table_rows_def decode_rows_def decode_def split: outcome.splits)

lemma table_row_value:
  assumes "r \<in> set (table_rows h e)" "k < length (sch_Columns (hf_Schema h))"
  shows "row_Values r ! k = VNil \<or> fits (col_ColType (sch_Columns (hf_Schema h) ! k)) (row_Values r ! k)"
  using table_rows_fit [OF assms(1)] assms(2) by (auto simp: row_fits_def list_all2_conv_all_nth)

end
