(* ===== verification/ClientTables.thy ===== *)
theory ClientTables imports ClientStmts RowTypes ExecProps begin

text \<open>
  What the statements of the clients do to the tables: selections and updates whose condition names a
  column the table does not have, or compares with a number no row holds.
\<close>

section \<open>Conditions that select nothing\<close>

lemma condition_no_column:
  assumes "bo_Left c = Identifier n" "findColumnIndex schema n = None"
  shows "filterRows fl rows schema c = []"
  using assms by (simp add: filterRows_def evaluateCondition_def)

lemma run_sql_select:
  assumes "Parse sql = Ok (SelectStmt s)" "sel_Join s = None"
    "\<And>h rows. ex_Tables e (sel_Table s) = Some h \<Longrightarrow> P (select_rows (cl_en cl) s (hf_Schema h) rows)"
    "\<And>x. P (error_result x)"
  shows "(\<exists>e'. run_sql cl sql e = (Hang, e'))
    \<or> (\<exists>r e'. run_sql cl sql e = (Ok (Some r, None), e') \<and> P r \<and> ex_Tables e' = ex_Tables e)"
proof (cases "ex_Tables e (sel_Table s)")
  case None
  then obtain x where "run_sql cl sql e = (Ok (Some (error_result x), None), e)"
    using missing_table_no_effect [OF assms(1), of "sel_Table s" e cl] by (auto simp: no_effect_def stmt_table.simps)
  then show ?thesis using assms(4) by auto
next
  case (Some h)
  obtain r e1 where s: "on_store (HeapFile_ScanFull h) e = (r, e1)" by fastforce
  then have t: "ex_Tables e1 = ex_Tables e" by (auto simp: on_store_def split: prod.splits)
  show ?thesis using s t assms(1,2,4) assms(3) [OF Some] Some
    by (cases r) (auto simp: run_sql_def Execute_def execute_parsed_def run_statement_def executeSelect_def or_fail_def fail_def is_select_def)
qed

lemma select_rows_no_column:
  assumes "sel_Condition s = Some c" "bo_Left c = Identifier n" "findColumnIndex schema n = None"
    "sel_Aggregates s = []" "sel_OrderBy s = []"
  shows "result_rows (Some (select_rows en s schema rows)) = []"
proof -
  have "applyLimitOffset [] l o' = []" for l o' by (simp add: applyLimitOffset_def Let_def)
  then show ?thesis using assms condition_no_column [OF assms(2,3)]
    by (auto simp: select_rows_def Let_def result_rows_def select_result_def error_result_def split: outcome.splits)
qed

lemma select_indexes_unknown:
  "n \<in> set cs \<Longrightarrow> findColumnIndex schema n = None \<Longrightarrow> \<exists>c. select_indexes schema cs = Err c"
  by (induction cs) (auto split: option.splits)

lemma select_rows_unknown_column:
  assumes "n \<in> set (sel_Columns s)" "findColumnIndex schema n = None" "sel_Columns s \<noteq> [''*'']" "sel_Aggregates s = []"
  shows "result_rows (Some (select_rows en s schema rows)) = []"
  using select_indexes_unknown [OF assms(1,2)] assms(3,4)
  by (auto simp: select_rows_def Let_def result_rows_def error_result_def)

lemma select_indexes_length: "select_indexes schema cs = Ok is \<Longrightarrow> length is = length cs"
  by (induction cs arbitrary: "is") (auto simp: bind_out_Ok_iff split: option.splits)

lemma select_rows_width:
  assumes "sel_Columns s \<noteq> [''*'']" "sel_Aggregates s = []"
  shows "list_all (\<lambda>row. length row = length (sel_Columns s)) (result_rows (Some (select_rows en s schema rows)))"
  using assms select_indexes_length [of schema "sel_Columns s"]
  by (auto simp: select_rows_def Let_def result_rows_def select_result_def error_result_def list_all_iff bind_out_Ok_iff
      split: outcome.splits)

section \<open>Updates that match nothing\<close>

lemma update_nothing:
  assumes st: "settled e" and p: "Parse sql = Ok (UpdateStmt s)" and h: "ex_Tables e (upd_Table s) = Some h"
    and none: "matching_rows (cl_en cl) (hf_Schema h) (upd_Condition s) (table_rows h e) = []"
  shows "\<exists>e'. sql_do cl sql e = (Ok (), e') \<and> sql_ignore cl sql e = (Ok (), e') \<and> same_tables e e'"
proof -
  have "\<not> hf_locked h" using st h by (simp add: settled_def)
  then obtain e1 where e1: "on_store (HeapFile_ScanFull h) e = (Ok (table_rows h e), e1)" "same_tables e e1"
    using scan_table [OF st] by blast
  have r: "run_statement (cl_en cl) (UpdateStmt s) e = (Ok (message_result ''UPDATE'' 0 (msg_updated 0)), e1)"
    using e1(1) h none by (simp add: run_statement_def executeUpdate_def or_fail_def)
  obtain e2 where "Execute (cl_en cl) sql e = (Ok (message_result ''UPDATE'' 0 (msg_updated 0)), e2)" "same_tables e1 e2"
    using Execute_statement [OF p r same_tables_settled [OF st e1(2)]] by blast
  then show ?thesis using same_tables_trans [OF e1(2)]
    by (auto simp: sql_do_def sql_ignore_def run_sql_def and_then_def ret_def)
qed

lemma no_effect_same_tables: "no_effect cl sql e \<Longrightarrow> settled e \<Longrightarrow> \<exists>e'. sql_do cl sql e = (Ok (), e') \<and> same_tables e e'"
  using no_effect_do same_tables_refl by blast

section \<open>Numbers that no row holds\<close>

lemma dec_nat_inj: "m < 2 ^ 63 \<Longrightarrow> n < 2 ^ 63 \<Longrightarrow> dec_nat m = dec_nat n \<Longrightarrow> m = n"
proof -
  assume m: "m < 2 ^ 63" and n: "n < 2 ^ 63" and eq: "dec_nat m = dec_nat n"
  have "(word_of_nat m :: i64) = word_of_nat n"
    using Atoi_dec [OF m] Atoi_dec [OF n] unfolding eq by simp
  then have "unat (word_of_nat m :: i64) = unat (word_of_nat n :: i64)" by simp
  then show ?thesis using m n by (simp add: unat_of_nat)
qed

lemma dec_int_inj:
  assumes "0 \<le> i" "i < 2 ^ 63" "j < 2 ^ 63" "dec_int i = dec_int j"
  shows "i = j"
proof (cases "j < 0")
  case True
  then have "hd (dec_nat (nat i)) = CHR ''-''" using assms(1,4) by (simp add: dec_int_def)
  then show ?thesis using dec_nat_head [of "nat i"] by (simp add: is_digit_def code_def)
next
  case False
  then have "nat i = nat j" using assms dec_nat_inj [of "nat i" "nat j"] by (simp add: dec_int_def)
  then show ?thesis using False assms(1) by simp
qed

text \<open>An integer column holds 32-bit numbers: comparing it with a larger number selects no row.\<close>

lemma condition_big_number:
  assumes c: "bo_Left c = Identifier n" "bo_Operator c = ''=''" "bo_Right c = Literal (dec i)"
    and k: "findColumnIndex (hf_Schema h) n = Some k" "col_ColType (sch_Columns (hf_Schema h) ! k) = TypeInt"
    and i: "2 ^ 31 \<le> sint i"
  shows "filterRows fl (table_rows h e) (hf_Schema h) c = []"
proof -
  have "fmt_v fl (row_Values r ! k) \<noteq> dec i" if r: "r \<in> set (table_rows h e)" for r
  proof -
    have "row_Values r ! k = VNil \<or> fits TypeInt (row_Values r ! k)"
      using table_row_value [OF r findColumnIndex_bound [OF k(1)]] k(2) by simp
    then consider "row_Values r ! k = VNil" | (int) v where "row_Values r ! k = VInt32 v"
      by (cases "row_Values r ! k") auto
    then show ?thesis
    proof cases
      case 1
      moreover have "hd (dec i) \<noteq> CHR ''<''" using i dec_nat_head [of "nat (sint i)"]
        by (auto simp: dec_def dec_int_def is_digit_def code_def)
      ultimately show ?thesis by (metis fmt_v.simps(1) list.sel(1))
    next
      case int
      have v: "sint v < 2 ^ 31" using sint_less [of v] by simp
      have "dec_int (sint i) \<noteq> dec_int (sint v)"
        using dec_int_inj [of "sint i" "sint v"] i v sint_less [of i] by auto
      then show ?thesis using int by (simp add: dec_def)
    qed
  qed
  then show ?thesis using c k(1) by (auto simp: filterRows_def evaluateCondition_def filter_empty_conv Let_def)
qed

text \<open>A negative number is refused by the lexer.\<close>

lemma refused_negative:
  assumes "chain ss" "sint i < 0"
  shows "\<exists>x. Lex (segs_text ss @ dec i @ t) = Err x"
proof -
  obtain c v where v: "dec i = CHR ''-'' # c # v" "is_digit c"
    using assms(2) dec_nat_head [of "nat (- sint i)"] by (cases "dec_nat (nat (- sint i))") (auto simp: dec_def dec_int_def)
  have m: "\<not> ws_char (CHR ''-'')" "\<not> quote_char (CHR ''-'')" "\<not> is_digit (CHR ''-'')" "\<not> word_start (CHR ''-'')" "\<not> num_char (CHR ''-'')"
    by (simp_all add: ws_char_def quote_char_def is_digit_def word_start_def is_lower_def is_upper_def code_def num_char_def)
  have c: "c \<noteq> CHR ''-''" using digit_char(3) [OF v(2)] .
  have "\<exists>e. lex_from q (dec i @ t) = Err e" for q
    using m c unfolding v(1) by (simp add: lex_from.simps(2) starts_def)
  moreover have "stops_number (dec i @ t)" using m unfolding v(1) by (simp add: stops_number_def)
  ultimately show ?thesis using piece_refused [OF chain_piece [OF assms(1)]] by blast
qed

section \<open>Escaped texts\<close>

lemma concat_parts: "concat (parts w s)
    = w @ map (\<lambda>c. if is_newline c then CHR '' '' else c) (filter (\<lambda>c. c \<noteq> apostrophe) s)"
  by (induction w s rule: parts.induct) auto

text \<open>C34: What the SQL lexer makes of an escaped text. The clients put a text into a statement as the output of
  escapeSQL between two apostrophes; escapeSQL doubles every apostrophe, which the lexer does not
  know. A text with n apostrophes comes back as n + 1 string tokens, together the text without its
  apostrophes and with every line break turned into a blank. So a text survives as one string
  exactly if it has no apostrophe.\<close>

theorem escaped_text_is_cut_at_apostrophes:
  "Lex (apostrophe # escapeSQL s @ [apostrophe]) = Ok (string_tokens (parts [] s))
   \<and> length (parts [] s) = length (filter (\<lambda>c. c = apostrophe) s) + 1
   \<and> concat (parts [] s) = map (\<lambda>c. if is_newline c then CHR '' '' else c) (filter (\<lambda>c. c \<noteq> apostrophe) s)"
proof -
  obtain q where "lex_from 0 (apostrophe # [] @ escapeSQL s @ apostrophe # []) = prepend (string_tokens (parts [] s)) (lex_from q [])"
    using lex_escaped [of "[]" 0 s "[]"] by auto
  then have "Lex (apostrophe # escapeSQL s @ [apostrophe]) = Ok (string_tokens (parts [] s))"
    by (simp add: Lex_def prepend_def)
  then show ?thesis using length_parts [of "[]" s] concat_parts [of "[]" s] by simp
qed

end
