(* ===== verification/ClientReads.thy ===== *)
theory ClientReads imports ClientTables begin

text \<open>
  What the selections of the clients answer, as a function of the tables.
\<close>

section \<open>Selections in an executor at rest\<close>

lemma run_sql_scan:
  assumes st: "settled e" and p: "Parse sql = Ok (SelectStmt s)" "sel_Join s = None" and h: "ex_Tables e (sel_Table s) = Some h"
  shows "\<exists>e'. run_sql cl sql e = (Ok (Some (select_rows (cl_en cl) s (hf_Schema h) (table_rows h e)), None), e') \<and> same_tables e e'"
proof -
  have "\<not> hf_locked h" using st h by (simp add: settled_def)
  then obtain e1 where e1: "on_store (HeapFile_ScanFull h) e = (Ok (table_rows h e), e1)" "same_tables e e1"
    using scan_table [OF st] by blast
  have r: "run_statement (cl_en cl) (SelectStmt s) e = (Ok (select_rows (cl_en cl) s (hf_Schema h) (table_rows h e)), e1)"
    using e1(1) h p(2) by (simp add: run_statement_def executeSelect_def or_fail_def)
  obtain e2 where "Execute (cl_en cl) sql e = (Ok (select_rows (cl_en cl) s (hf_Schema h) (table_rows h e)), e2)" "same_tables e1 e2"
    using Execute_statement [OF p(1) r same_tables_settled [OF st e1(2)]] by blast
  then show ?thesis using same_tables_trans [OF e1(2)] by (auto simp: run_sql_def)
qed

lemma run_sql_select_settled:
  assumes st: "settled e" and p: "Parse sql = Ok (SelectStmt s)" "sel_Join s = None"
    and P: "\<And>h. ex_Tables e (sel_Table s) = Some h \<Longrightarrow> P (select_rows (cl_en cl) s (hf_Schema h) (table_rows h e))"
      "\<And>x. P (error_result x)"
  shows "\<exists>r e'. run_sql cl sql e = (Ok (Some r, None), e') \<and> P r \<and> same_tables e e'"
proof (cases "ex_Tables e (sel_Table s)")
  case None
  then obtain x where "run_sql cl sql e = (Ok (Some (error_result x), None), e)"
    using missing_table_no_effect [OF p(1), of "sel_Table s" e cl] by (auto simp: no_effect_def stmt_table.simps)
  then show ?thesis using P(2) same_tables_refl [OF st] by blast
next
  case (Some h)
  then show ?thesis using run_sql_scan [OF st p Some, of cl] P(1) [OF Some] by blast
qed

section \<open>Selections as a function of the tables\<close>

text \<open>What a selection answers, from the tables alone.\<close>

definition answer :: "client_env \<Rightarrow> Executor \<Rightarrow> string \<Rightarrow> QueryResult" where
  "answer cl e sql = (case Parse sql of
     Ok (SelectStmt s) \<Rightarrow> (case ex_Tables e (sel_Table s) of
        Some h \<Rightarrow> select_rows (cl_en cl) s (hf_Schema h) (table_rows h e)
      | None \<Rightarrow> error_result (NoTable (sel_Table s)))
   | Err x \<Rightarrow> error_result (ParseFailed x)
   | _ \<Rightarrow> error_result InternalError)"

lemma answer_same: "same_tables e e' \<Longrightarrow> answer cl e' sql = answer cl e sql"
  using same_tables_fields(1,5) [of e e'] by (auto simp: answer_def split: outcome.splits Statement.splits option.splits)

lemma sql_rows_answer:
  assumes st: "settled e" and f: "fixed_text f" "select_head (fixed_tokens f) = Some h"
  shows "\<exists>e'. sql_rows cl (f @ t) e = (Ok (Some (answer cl e (f @ t))), e') \<and> same_tables e e'"
  using Parse_select_front [OF f, of t]
proof (elim disjE exE conjE)
  fix x assume p: "Parse (f @ t) = Err x"
  then have "sql_rows cl (f @ t) e = (Ok (Some (error_result (ParseFailed x))), e)"
    by (simp add: sql_rows_def run_sql_def Execute_def fail_def and_then_def ret_def)
  then show ?thesis using p same_tables_refl [OF st] by (auto simp: answer_def)
next
  fix s assume p: "Parse (f @ t) = Ok (SelectStmt s)" "fits_front s h"
  then have j: "sel_Join s = None" by (simp add: fits_front_def)
  show ?thesis
  proof (cases "ex_Tables e (sel_Table s)")
    case None
    then have "run_statement (cl_en cl) (SelectStmt s) e = (Ok (error_result (NoTable (sel_Table s))), e)"
      using j by (simp add: run_statement_def executeSelect_def fail_def)
    then obtain e' where "Execute (cl_en cl) (f @ t) e = (Ok (error_result (NoTable (sel_Table s))), e')" "same_tables e e'"
      using Execute_statement [OF p(1) _ st] by blast
    then show ?thesis using None p(1) by (auto simp: answer_def sql_rows_def run_sql_def and_then_def ret_def)
  next
    case (Some tb)
    then show ?thesis using run_sql_scan [OF st p(1) j Some, of cl] p(1)
      by (auto simp: answer_def sql_rows_def and_then_def ret_def)
  qed
qed

end
