(* ===== verification/ConfigProps.thy ===== *)
theory ConfigProps imports Config ClientReads ExecDemo begin

text \<open>
  The configuration manager over its own tables. None of the three has a column \<open>id\<close>, and most of its
  statements name one.
\<close>

section \<open>Tables without the column\<close>

text \<open>No table of the list \<open>T\<close> has a column \<open>id\<close>, if it exists.\<close>

definition idless :: "string list \<Rightarrow> Executor \<Rightarrow> bool" where
  "idless T e \<longleftrightarrow> settled e
     \<and> (\<forall>t \<in> set T. \<forall>h. ex_Tables e t = Some h \<longrightarrow> findColumnIndex (hf_Schema h) ''id'' = None)"

lemma idless_same: "idless T e \<Longrightarrow> same_tables e e' \<Longrightarrow> idless T e'"
  using same_tables_settled [of e e'] same_tables_fields(1) [of e e'] by (simp add: idless_def)

text \<open>The selections that name the column, among the columns or in the condition.\<close>

definition names_id :: "SelectStatement \<Rightarrow> bool" where
  "names_id s \<longleftrightarrow> sel_Join s = None \<and> sel_Aggregates s = []
     \<and> (''id'' \<in> set (sel_Columns s) \<and> sel_Columns s \<noteq> [''*'']
        \<or> (case sel_Condition s of Some c \<Rightarrow> bo_Left c = Identifier ''id'' \<and> sel_OrderBy s = [] | None \<Rightarrow> False))"

lemma names_id_no_rows:
  assumes "names_id s" "findColumnIndex schema ''id'' = None"
  shows "result_rows (Some (select_rows en s schema rows)) = []"
proof (cases "''id'' \<in> set (sel_Columns s) \<and> sel_Columns s \<noteq> [''*'']")
  case True
  then show ?thesis using select_rows_unknown_column [of "''id''" s schema en rows] assms by (simp add: names_id_def)
next
  case False
  then obtain c where "sel_Condition s = Some c" "bo_Left c = Identifier ''id''" "sel_OrderBy s = []" "sel_Aggregates s = []"
    using assms(1) by (auto simp: names_id_def split: option.splits)
  then show ?thesis using select_rows_no_column [of s c "''id''" schema en rows] assms(2) by simp
qed

lemma select_idless:
  assumes "idless T e" "Parse sql = Ok (SelectStmt s)" "names_id s" "sel_Table s \<in> set T"
  shows "\<exists>r e'. run_sql cl sql e = (Ok (Some r, None), e') \<and> result_rows (Some r) = [] \<and> same_tables e e'"
proof (rule run_sql_select_settled [OF _ assms(2)])
  show "settled e" "sel_Join s = None" using assms by (simp_all add: idless_def names_id_def)
  fix h assume "ex_Tables e (sel_Table s) = Some h"
  then show "result_rows (Some (select_rows (cl_en cl) s (hf_Schema h) (table_rows h e))) = []"
    using names_id_no_rows [OF assms(3)] assms(1,4) by (simp add: idless_def)
qed simp

text \<open>An update whose condition names the column.\<close>

lemma update_idless:
  assumes i: "idless T e" and p: "Parse sql = Ok (UpdateStmt s)" and t: "upd_Table s \<in> set T"
    and c: "upd_Condition s = Some c" "bo_Left c = Identifier ''id''"
  shows "\<exists>e'. sql_do cl sql e = (Ok (), e') \<and> sql_ignore cl sql e = (Ok (), e') \<and> same_tables e e'"
proof (cases "ex_Tables e (upd_Table s)")
  case None
  then have "no_effect cl sql e" using missing_table_no_effect [OF p, of "upd_Table s" e cl] by (simp add: stmt_table.simps)
  then show ?thesis using no_effect_do no_effect_ignore same_tables_refl i by (metis idless_def)
next
  case (Some h)
  then have "matching_rows (cl_en cl) (hf_Schema h) (upd_Condition s) (table_rows h e) = []"
    using i t c condition_no_column [OF c(2)] by (simp add: matching_rows_def idless_def)
  then show ?thesis using update_nothing [OF _ p Some] i by (simp add: idless_def)
qed

section \<open>Creating the tables\<close>

definition idless_create :: "string \<Rightarrow> bool" where
  "idless_create sql = (case Parse sql of
     Err _ \<Rightarrow> True
   | Ok (CreateTableStmt s) \<Rightarrow> (case build_columns (ct_Columns s) of
        Ok cols \<Rightarrow> findColumnIndex \<lparr>sch_Name = ct_Table s, sch_Columns = cols\<rparr> ''id'' = None
      | _ \<Rightarrow> True)
   | _ \<Rightarrow> False)"

lemma executeCreate_idless:
  assumes i: "idless T e" and c: "\<And>cols. build_columns (ct_Columns s) = Ok cols
      \<Longrightarrow> findColumnIndex \<lparr>sch_Name = ct_Table s, sch_Columns = cols\<rparr> ''id'' = None"
  shows "\<exists>r e'. executeCreate en s e = (Ok r, e') \<and> idless T e'"
proof -
  have i': "idless T (e\<lparr>ex_Catalog := cat\<rparr>)" for cat using i by (simp add: idless_def settled_def)
  have n: "idless T (e\<lparr>ex_Catalog := cat, ex_Tables := (ex_Tables e)(ct_Table s \<mapsto> NewHeapFile \<lparr>sch_Name = ct_Table s, sch_Columns = cols\<rparr>)\<rparr>)"
    if "build_columns (ct_Columns s) = Ok cols" for cat cols
    using i c [OF that] by (auto simp: idless_def settled_def NewHeapFile_def)
  show ?thesis
  proof (cases "build_columns (ct_Columns s)")
    case (Ok cols)
    obtain x cat where cat: "Catalog_AddTable (env_js en) \<lparr>sch_Name = ct_Table s, sch_Columns = cols\<rparr> (ex_Catalog e) = (x, cat)"
      by fastforce
    then have "(\<exists>y. x = Err y) \<or> x = Ok ()" by (auto simp: Catalog_AddTable_def Catalog_Save_def split: if_splits)
    then show ?thesis using Ok cat i' n [OF Ok] by (auto simp: executeCreate_def or_fail_def fail_def Let_def)
  qed (use i build_columns_returns [of "ct_Columns s"] in \<open>auto simp: executeCreate_def fail_def\<close>)
qed

lemma create_idless:
  assumes i: "idless T e" and c: "idless_create sql"
  shows "\<exists>e'. sql_ignore cl sql e = (Ok (), e') \<and> idless T e'"
proof (cases "\<exists>x. Parse sql = Err x")
  case True
  then show ?thesis using unparsed_no_effect no_effect_ignore i by blast
next
  case False
  then obtain s where s: "Parse sql = Ok (CreateTableStmt s)"
    using c by (auto simp: idless_create_def split: outcome.splits Statement.splits)
  then obtain r e1 where e1: "executeCreate (cl_en cl) s e = (Ok r, e1)" "idless T e1"
    using executeCreate_idless [OF i, of s "cl_en cl"] c by (auto simp: idless_create_def split: outcome.splits)
  obtain e2 where "Execute (cl_en cl) sql e = (Ok r, e2)" "same_tables e1 e2"
    using Execute_statement [OF s, of "cl_en cl" e r e1] e1 by (auto simp: run_statement_def idless_def)
  then show ?thesis using idless_same [OF e1(2)] by (auto simp: sql_ignore_def run_sql_def and_then_def ret_def)
qed

lemma create_all_idless:
  "idless T e \<Longrightarrow> list_all idless_create sqls \<Longrightarrow> \<exists>e'. sql_all cl sqls e = (Ok (), e') \<and> idless T e'"
proof (induction sqls arbitrary: e)
  case (Cons sql sqls)
  obtain e1 where "sql_ignore cl sql e = (Ok (), e1)" "idless T e1" using create_idless [OF Cons.prems(1)] Cons.prems(2) by auto
  then show ?case using Cons.IH [of e1] Cons.prems(2) by (auto simp: and_then_def)
qed (simp add: ret_def)

lemma config_tables_idless: "list_all idless_create config_tables"
  by code_simp

section \<open>The statements of the manager\<close>

definition config_names :: "string list" where
  "config_names = [''user_settings'', ''model_configs'', ''project_configs'']"

text \<open>The front of a selection that names the column.\<close>

definition front_names_id :: "string \<Rightarrow> bool" where
  "front_names_id f \<longleftrightarrow> fixed_text f \<and> (case select_head (fixed_tokens f) of
     Some h \<Rightarrow> sf_Aggregates h = [] \<and> ''id'' \<in> set (sf_Columns h) \<and> sf_Columns h \<noteq> [''*''] \<and> sf_Table h \<in> set config_names
   | None \<Rightarrow> False)"

definition reads_nothing :: "client_env \<Rightarrow> string \<Rightarrow> Executor \<Rightarrow> bool" where
  "reads_nothing cl sql e \<longleftrightarrow>
     (\<exists>r e'. run_sql cl sql e = (Ok (Some r, None), e') \<and> result_rows (Some r) = [] \<and> same_tables e e')"

lemma front_reads_nothing:
  assumes "front_names_id f" "idless config_names e"
  shows "reads_nothing cl (f @ t) e"
proof -
  obtain h where h: "fixed_text f" "select_head (fixed_tokens f) = Some h" "sf_Aggregates h = []"
      "''id'' \<in> set (sf_Columns h)" "sf_Columns h \<noteq> [''*'']" "sf_Table h \<in> set config_names"
    using assms(1) by (auto simp: front_names_id_def split: option.splits)
  from Parse_select_front [OF h(1,2), of t] show ?thesis
  proof (elim disjE exE conjE)
    fix x assume "Parse (f @ t) = Err x"
    then have "no_effect cl (f @ t) e" by (rule unparsed_no_effect)
    then show ?thesis using same_tables_refl assms(2) by (auto simp: no_effect_def reads_nothing_def idless_def)
  next
    fix s assume s: "Parse (f @ t) = Ok (SelectStmt s)" "fits_front s h"
    then have "names_id s" "sel_Table s \<in> set config_names" using h by (simp_all add: names_id_def fits_front_def)
    then show ?thesis using select_idless [OF assms(2) s(1)] by (simp add: reads_nothing_def)
  qed
qed

definition whole_names_id :: "string \<Rightarrow> bool" where
  "whole_names_id sql = (case Parse sql of
     Ok (SelectStmt s) \<Rightarrow> names_id s \<and> sel_Table s \<in> set config_names | _ \<Rightarrow> False)"

lemma whole_reads_nothing: "whole_names_id sql \<Longrightarrow> idless config_names e \<Longrightarrow> reads_nothing cl sql e"
  using select_idless [of config_names e sql]
  by (auto simp: whole_names_id_def reads_nothing_def split: outcome.splits Statement.splits)

lemma config_reads:
  "whole_names_id ''SELECT id FROM user_settings WHERE id = 1''"
  "whole_names_id ''
        SELECT active_model_id, active_project_id, default_session_id, theme, streaming_enabled
        FROM user_settings WHERE id = 1
    ''"
  by code_simp+

lemma config_fronts:
  "front_names_id ''
        SELECT id, name, display_name, base_url, api_key, is_default, created_at, updated_at
        FROM model_configs WHERE ''"
  "front_names_id ''
        SELECT id, name, display_name, base_url, api_key, is_default, created_at, updated_at
        FROM model_configs ORDER ''"
  "front_names_id ''
        SELECT id, name, root_path, description, is_active, last_used, created_at
        FROM project_configs LIMIT ''"
  "front_names_id ''
        SELECT id, name, root_path, description, is_active, last_used, created_at
        FROM project_configs ORDER ''"
  by code_simp+

section \<open>Reading\<close>

lemma rows_none: "result_rows (Some r) = [] \<Longrightarrow> parseModels cl (Some r) = [] \<and> parseProjects cl (Some r) = []
    \<and> parseSettings cl (Some r) = default_settings"
  by (simp add: parseModels_def parseProjects_def parseSettings_def)

lemma query_models_none:
  assumes "reads_nothing cl sql e"
  shows "\<exists>e'. query_models cl sql e = (Ok [], e') \<and> same_tables e e'"
  using assms rows_none by (auto simp: reads_nothing_def query_models_def and_then_def ret_def)

lemma query_projects_none:
  assumes "reads_nothing cl sql e"
  shows "\<exists>e'. query_projects cl sql e = (Ok [], e') \<and> same_tables e e'"
  using assms rows_none by (auto simp: reads_nothing_def query_projects_def and_then_def ret_def)

lemma GetSettings_default:
  assumes "idless config_names e"
  shows "\<exists>e'. GetSettings cl e = (Ok default_settings, e') \<and> same_tables e e'"
  using whole_reads_nothing [OF config_reads(2) assms, of cl] rows_none
  by (auto simp: reads_nothing_def GetSettings_def and_then_def ret_def)

lemma ListModels_none:
  assumes "idless config_names e"
  shows "\<exists>e'. ListModels cl e = (Ok [], e') \<and> same_tables e e'"
  using query_models_none [OF front_reads_nothing [OF config_fronts(2) assms]] unfolding ListModels_def by fastforce

lemma ListProjects_none:
  assumes "idless config_names e"
  shows "\<exists>e'. ListProjects cl e = (Ok [], e') \<and> same_tables e e'"
  using query_projects_none [OF front_reads_nothing [OF config_fronts(4) assms]] unfolding ListProjects_def by fastforce

lemma default_ids [simp]: "us_ActiveModelID default_settings = 0" "us_ActiveProjectID default_settings = 0"
  by (simp_all add: default_settings_def)

lemma GetActiveModel_none:
  assumes "idless config_names e"
  shows "\<exists>e'. GetActiveModel cl e = (Err NoActiveModel, e') \<and> same_tables e e'"
proof -
  obtain e1 where e1: "GetSettings cl e = (Ok default_settings, e1)" "same_tables e e1"
    using GetSettings_default [OF assms] by blast
  have i: "idless config_names e1" by (rule idless_same [OF assms e1(2)])
  obtain e2 where "query_models cl ''
        SELECT id, name, display_name, base_url, api_key, is_default, created_at, updated_at
        FROM model_configs WHERE is_default = 1 LIMIT 1
    '' e1 = (Ok [], e2)" "same_tables e1 e2"
    using query_models_none [OF front_reads_nothing [OF config_fronts(1) i]] by fastforce
  then show ?thesis using e1 same_tables_trans [OF e1(2)]
    by (auto simp: GetActiveModel_def and_then_def ret_def first_or_def throw_def)
qed

lemma GetActiveProject_none:
  assumes "idless config_names e"
  shows "\<exists>e'. GetActiveProject cl e = (Err NoActiveProject, e') \<and> same_tables e e'"
proof -
  obtain e1 where e1: "GetSettings cl e = (Ok default_settings, e1)" "same_tables e e1"
    using GetSettings_default [OF assms] by blast
  have i: "idless config_names e1" by (rule idless_same [OF assms e1(2)])
  obtain e2 where "query_projects cl ''
        SELECT id, name, root_path, description, is_active, last_used, created_at
        FROM project_configs LIMIT 1
    '' e1 = (Ok [], e2)" "same_tables e1 e2"
    using query_projects_none [OF front_reads_nothing [OF config_fronts(3) i]] by fastforce
  then show ?thesis using e1 same_tables_trans [OF e1(2)]
    by (auto simp: GetActiveProject_def and_then_def ret_def first_or_def throw_def)
qed

section \<open>Writing\<close>

definition changes_nothing :: "client_env \<Rightarrow> string \<Rightarrow> Executor \<Rightarrow> bool" where
  "changes_nothing cl sql e \<longleftrightarrow>
     (\<exists>e'. sql_do cl sql e = (Ok (), e') \<and> sql_ignore cl sql e = (Ok (), e') \<and> same_tables e e')"

lemma no_effect_changes_nothing: "no_effect cl sql e \<Longrightarrow> idless T e \<Longrightarrow> changes_nothing cl sql e"
  using no_effect_do no_effect_ignore same_tables_refl unfolding changes_nothing_def idless_def by blast

lemma delete_idless:
  assumes i: "idless T e" and p: "Parse sql = Ok (DeleteStmt s)" and t: "del_Table s \<in> set T"
    and c: "del_Condition s = Some c" "bo_Left c = Identifier ''id''"
  shows "changes_nothing cl sql e"
proof (cases "ex_Tables e (del_Table s)")
  case None
  then show ?thesis using no_effect_changes_nothing [OF missing_table_no_effect [OF p, of "del_Table s" e cl] i]
    by (simp add: stmt_table.simps)
next
  case (Some h)
  have st: "settled e" using i by (simp add: idless_def)
  have m: "matching_rows (cl_en cl) (hf_Schema h) (del_Condition s) (table_rows h e) = []"
    using i t c Some condition_no_column [OF c(2)] by (simp add: matching_rows_def idless_def)
  have "\<not> hf_locked h" using st Some by (simp add: settled_def)
  then obtain e1 where e1: "on_store (HeapFile_ScanFull h) e = (Ok (table_rows h e), e1)" "same_tables e e1"
    using scan_table [OF st] by blast
  have r: "run_statement (cl_en cl) (DeleteStmt s) e = (Ok (message_result ''DELETE'' 0 (msg_deleted 0)), e1)"
    using e1(1) Some m by (simp add: run_statement_def executeDelete_def or_fail_def)
  obtain e2 where "Execute (cl_en cl) sql e = (Ok (message_result ''DELETE'' 0 (msg_deleted 0)), e2)" "same_tables e1 e2"
    using Execute_statement [OF p r same_tables_settled [OF st e1(2)]] by blast
  then show ?thesis using same_tables_trans [OF e1(2)]
    by (auto simp: changes_nothing_def sql_do_def sql_ignore_def run_sql_def and_then_def ret_def)
qed

text \<open>The updates and deletions of the manager, by their tokens.\<close>

definition where_id :: "string \<Rightarrow> BinaryOp" where
  "where_id v = \<lparr>bo_Left = Identifier ''id'', bo_Operator = ''='', bo_Right = Literal v\<rparr>"

lemma update_tokens:
  "Parse_tokens [kw ''UPDATE'', idt t, kw ''SET'', idt c, tok TokenOperator ''='', tok TokenNumber v,
     kw ''WHERE'', idt ''id'', tok TokenOperator ''='', tok TokenNumber w]
   = Ok (UpdateStmt \<lparr>upd_Table = t, upd_Updates = [\<lparr>up_Column = c, up_Value = Literal v\<rparr>], upd_Condition = Some (where_id w)\<rparr>, [])"
  by (simp add: where_id_def Parse_tokens_def parseUpdate_def update_pairs.simps update_pair_def want_def ident_def
      parseExpression_def parseWhere_def parseCondition_def)

lemma delete_tokens:
  "Parse_tokens [kw ''DELETE'', kw ''FROM'', idt t, kw ''WHERE'', idt ''id'', tok TokenOperator ''='', tok TokenNumber w]
   = Ok (DeleteStmt \<lparr>del_Table = t, del_Condition = Some (where_id w)\<rparr>, [])"
  by (simp add: where_id_def Parse_tokens_def parseDelete_def want_def ident_def
      parseExpression_def parseWhere_def parseCondition_def)

lemma segs_idless:
  assumes ss: "chain ss" and i: "idless T e" and t: "t \<in> set T"
    and p: "segs_tokens ss = [kw ''UPDATE'', idt t, kw ''SET'', idt c, tok TokenOperator ''='', tok TokenNumber v,
          kw ''WHERE'', idt ''id'', tok TokenOperator ''='', tok TokenNumber w]
        \<or> segs_tokens ss = [kw ''DELETE'', kw ''FROM'', idt t, kw ''WHERE'', idt ''id'', tok TokenOperator ''='', tok TokenNumber w]"
  shows "changes_nothing cl (segs_text ss) e"
  using chain_Lex [OF ss]
proof (elim disjE exE)
  fix x assume "Lex (segs_text ss) = Err x"
  then show ?thesis using no_effect_changes_nothing [OF refused_no_effect i] by blast
next
  assume l: "Lex (segs_text ss) = Ok (segs_tokens ss)"
  from p show ?thesis
  proof
    assume "segs_tokens ss = [kw ''UPDATE'', idt t, kw ''SET'', idt c, tok TokenOperator ''='', tok TokenNumber v,
          kw ''WHERE'', idt ''id'', tok TokenOperator ''='', tok TokenNumber w]"
    then have "Parse (segs_text ss) = Ok (UpdateStmt \<lparr>upd_Table = t, upd_Updates = [\<lparr>up_Column = c, up_Value = Literal v\<rparr>],
        upd_Condition = Some (where_id w)\<rparr>)"
      using l update_tokens [of t c v w] by (simp add: Parse_def)
    from update_idless [OF i this, of "where_id w" cl] show ?thesis
      using t by (simp add: where_id_def changes_nothing_def)
  next
    assume "segs_tokens ss = [kw ''DELETE'', kw ''FROM'', idt t, kw ''WHERE'', idt ''id'', tok TokenOperator ''='', tok TokenNumber w]"
    then have "Parse (segs_text ss) = Ok (DeleteStmt \<lparr>del_Table = t, del_Condition = Some (where_id w)\<rparr>)"
      using l delete_tokens [of t w] by (simp add: Parse_def)
    from delete_idless [OF i this, of "where_id w" cl] show ?thesis using t by (simp add: where_id_def)
  qed
qed

lemma segs_tokens_Cons: "segs_tokens (s # ss) = seg_tokens s @ segs_tokens ss"
  and segs_tokens_Nil: "segs_tokens [] = []"
  by (simp_all add: segs_tokens_def)

definition set_segments :: "string \<Rightarrow> i64 \<Rightarrow> segment list" where
  "set_segments f v = [Fixed f, Number v, Fixed '' WHERE id = 1
    '']"

lemma set_tail: "chain [Fixed '' WHERE id = 1
    '']" "stop_here [Fixed '' WHERE id = 1
    '']" "fixed_tokens '' WHERE id = 1
    '' = [kw ''WHERE'', idt ''id'', tok TokenOperator ''='', tok TokenNumber ''1'']"
  by code_simp+

lemma set_changes_nothing:
  assumes f: "fixed_text f" "fixed_tokens f = [kw ''UPDATE'', idt ''user_settings'', kw ''SET'', idt c, tok TokenOperator ''='']"
    and i: "idless config_names e"
  shows "changes_nothing cl (f @ dec v @ '' WHERE id = 1
    '') e"
proof -
  have "chain (set_segments f v)" using f(1) set_tail(1,2) by (simp add: set_segments_def)
  moreover have "segs_text (set_segments f v) = f @ dec v @ '' WHERE id = 1
    ''" by (simp add: segs_text_def set_segments_def)
  moreover have "segs_tokens (set_segments f v) = [kw ''UPDATE'', idt ''user_settings'', kw ''SET'', idt c,
      tok TokenOperator ''='', tok TokenNumber (dec v), kw ''WHERE'', idt ''id'', tok TokenOperator ''='', tok TokenNumber ''1'']"
    by (simp add: segs_tokens_Cons segs_tokens_Nil set_segments_def f(2) set_tail(3))
  moreover have "''user_settings'' \<in> set config_names" by (simp add: config_names_def)
  ultimately show ?thesis using segs_idless [OF _ i, of "set_segments f v"] by metis
qed

lemma SetActiveModel_nothing:
  assumes "idless config_names e"
  shows "\<exists>e'. SetActiveModel cl mid e = (Ok (), e') \<and> same_tables e e'"
proof -
  let ?f = "''
        UPDATE user_settings SET active_model_id = ''"
  have "fixed_text ?f" "fixed_tokens ?f = [kw ''UPDATE'', idt ''user_settings'', kw ''SET'', idt ''active_model_id'', tok TokenOperator ''='']"
    by code_simp+
  from set_changes_nothing [OF this assms, of cl mid] show ?thesis
    by (auto simp: SetActiveModel_def changes_nothing_def)
qed

lemma SetStreamingEnabled_nothing:
  assumes "idless config_names e"
  shows "\<exists>e'. SetStreamingEnabled cl on e = (Ok (), e') \<and> same_tables e e'"
proof -
  let ?f = "''
        UPDATE user_settings SET streaming_enabled = ''"
  have "fixed_text ?f" "fixed_tokens ?f = [kw ''UPDATE'', idt ''user_settings'', kw ''SET'', idt ''streaming_enabled'', tok TokenOperator ''='']"
    by code_simp+
  from set_changes_nothing [OF this assms, of cl "if on then 1 else 0"] show ?thesis
    by (auto simp: SetStreamingEnabled_def Let_def changes_nothing_def)
qed

lemma SetActiveProject_nothing:
  assumes i: "idless config_names e"
  shows "\<exists>e'. SetActiveProject cl now pid e = (Ok (), e') \<and> same_tables e e'"
proof -
  let ?f = "''
        UPDATE user_settings SET active_project_id = ''" and ?g = "''
        UPDATE project_configs SET last_used = ''" and ?h = "'' WHERE id = ''" and ?z = "''
    ''"
  have g: "fixed_text ?g" "fixed_tokens ?g = [kw ''UPDATE'', idt ''project_configs'', kw ''SET'', idt ''last_used'', tok TokenOperator ''='']"
    "fixed_text ?h" "stop_here [Fixed ?h]" "fixed_tokens ?h = [kw ''WHERE'', idt ''id'', tok TokenOperator ''='']"
    "fixed_text ?z" "stop_here [Fixed ?z]" "fixed_tokens ?z = []"
    by code_simp+
  let ?ss = "[Fixed ?g, Number now, Fixed ?h, Number pid, Fixed ?z]"
  have c: "chain ?ss" using g by simp
  have k: "segs_tokens ?ss = [kw ''UPDATE'', idt ''project_configs'', kw ''SET'', idt ''last_used'', tok TokenOperator ''='',
      tok TokenNumber (dec now), kw ''WHERE'', idt ''id'', tok TokenOperator ''='', tok TokenNumber (dec pid)]"
    by (simp add: segs_tokens_Cons segs_tokens_Nil g(2,5,8))
  have "''project_configs'' \<in> set config_names" by (simp add: config_names_def)
  then have "changes_nothing cl (segs_text ?ss) e" using segs_idless [OF c i] k by metis
  then obtain e1 where e1: "sql_ignore cl (segs_text ?ss) e = (Ok (), e1)" "same_tables e e1"
    by (auto simp: changes_nothing_def)
  have f: "fixed_text ?f" "fixed_tokens ?f = [kw ''UPDATE'', idt ''user_settings'', kw ''SET'', idt ''active_project_id'', tok TokenOperator ''='']"
    by code_simp+
  obtain e2 where "sql_do cl (?f @ dec pid @ '' WHERE id = 1
    '') e1 = (Ok (), e2)" "same_tables e1 e2"
    using set_changes_nothing [OF f idless_same [OF i e1(2)], of cl pid] by (auto simp: changes_nothing_def)
  then show ?thesis using e1 same_tables_trans [OF e1(2)]
    by (auto simp: SetActiveProject_def and_then_def segs_text_def)
qed

lemma delete_changes_nothing:
  assumes f: "fixed_text f" "fixed_tokens f = [kw ''DELETE'', kw ''FROM'', idt t, kw ''WHERE'', idt ''id'', tok TokenOperator ''='']"
    and t: "t \<in> set config_names" and i: "idless config_names e"
  shows "changes_nothing cl (f @ dec v) e"
proof -
  have "chain [Fixed f, Number v]" using f(1) by simp
  moreover have "segs_tokens [Fixed f, Number v]
      = [kw ''DELETE'', kw ''FROM'', idt t, kw ''WHERE'', idt ''id'', tok TokenOperator ''='', tok TokenNumber (dec v)]"
    by (simp add: segs_tokens_Cons segs_tokens_Nil f(2))
  moreover have "segs_text [Fixed f, Number v] = f @ dec v" by (simp add: segs_text_def)
  ultimately show ?thesis using segs_idless [OF _ i t] by metis
qed

lemma DeleteModel_nothing:
  assumes "idless config_names e"
  shows "\<exists>e'. DeleteModel cl mid e = (Ok (), e') \<and> same_tables e e'"
proof -
  let ?f = "''DELETE FROM model_configs WHERE id = ''"
  have f: "fixed_text ?f" "fixed_tokens ?f = [kw ''DELETE'', kw ''FROM'', idt ''model_configs'', kw ''WHERE'', idt ''id'', tok TokenOperator ''='']"
    by code_simp+
  have "''model_configs'' \<in> set config_names" by (simp add: config_names_def)
  from delete_changes_nothing [OF f this assms, of cl mid] show ?thesis
    by (auto simp: DeleteModel_def changes_nothing_def)
qed

lemma DeleteProject_nothing:
  assumes "idless config_names e"
  shows "\<exists>e'. DeleteProject cl pid e = (Ok (), e') \<and> same_tables e e'"
proof -
  let ?f = "''DELETE FROM project_configs WHERE id = ''"
  have f: "fixed_text ?f" "fixed_tokens ?f = [kw ''DELETE'', kw ''FROM'', idt ''project_configs'', kw ''WHERE'', idt ''id'', tok TokenOperator ''='']"
    by code_simp+
  have "''project_configs'' \<in> set config_names" by (simp add: config_names_def)
  from delete_changes_nothing [OF f this assms, of cl pid] show ?thesis
    by (auto simp: DeleteProject_def changes_nothing_def)
qed

section \<open>The manager on a fresh database\<close>

lemma insert_idless:
  assumes i: "idless T e" and p: "Parse sql = Ok (InsertStmt s)" and t: "ins_Table s \<in> set T"
    and c: "ins_Columns s = ''id'' # cs" "ins_Values s \<noteq> []"
  shows "\<exists>e'. sql_ignore cl sql e = (Ok (), e') \<and> idless T e'"
proof (cases "ex_Tables e (ins_Table s)")
  case None
  then have "no_effect cl sql e" using missing_table_no_effect [OF p, of "ins_Table s" e cl] by (simp add: stmt_table.simps)
  then show ?thesis using no_effect_ignore i by blast
next
  case (Some h)
  have none: "findColumnIndex (hf_Schema h) ''id'' = None" using i t Some by (simp add: idless_def)
  obtain r e1 where v: "insert_row_values (cl_en cl) s (hf_Schema h) e = (r, e1)" by fastforce
  then have "settled e1" "ex_Tables e1 = ex_Tables e" using insert_values_settled [OF _ v] i by (simp_all add: idless_def)
  then have i1: "idless T e1" using i by (simp add: idless_def)
  obtain w ws where w: "ins_Values s = w # ws" using c(2) by (cases "ins_Values s") auto
  have "\<exists>x. r = Err x" using v c(1) w none
    by (auto simp: insert_row_values_def Let_def split: if_splits prod.splits)
  then obtain x where "executeInsert (cl_en cl) s e = (Ok (error_result x), e1)"
    using v Some by (auto simp: executeInsert_def fail_def)
  then obtain e2 where "Execute (cl_en cl) sql e = (Ok (error_result x), e2)" "same_tables e1 e2"
    using Execute_statement [OF p, of "cl_en cl" e "error_result x" e1] i1 by (auto simp: run_statement_def idless_def)
  then show ?thesis using idless_same [OF i1] by (auto simp: sql_ignore_def run_sql_def and_then_def ret_def)
qed

definition settings_row :: string where "settings_row = ''
            INSERT INTO user_settings (id, default_session_id, streaming_enabled) 
            VALUES (1, 1, 1)
        ''"

lemma settings_row_parsed:
  "Parse settings_row = Ok (InsertStmt \<lparr>ins_Table = ''user_settings'',
     ins_Columns = [''id'', ''default_session_id'', ''streaming_enabled''],
     ins_Values = [Literal ''1'', Literal ''1'', Literal ''1'']\<rparr>)"
  by code_simp

lemma NewConfigManager_idless:
  assumes "idless config_names e"
  shows "\<exists>e'. NewConfigManager cl e = (Ok (), e') \<and> idless config_names e'"
proof -
  obtain e1 where e1: "sql_all cl config_tables e = (Ok (), e1)" "idless config_names e1"
    using create_all_idless [OF assms config_tables_idless] by blast
  obtain r e2 where e2: "run_sql cl ''SELECT id FROM user_settings WHERE id = 1'' e1 = (Ok (Some r, None), e2)"
      "result_rows (Some r) = []" "same_tables e1 e2"
    using whole_reads_nothing [OF config_reads(1) e1(2), of cl] by (auto simp: reads_nothing_def)
  have i2: "idless config_names e2" by (rule idless_same [OF e1(2) e2(3)])
  obtain e3 where "sql_ignore cl settings_row e2 = (Ok (), e3)" "idless config_names e3"
    using insert_idless [OF i2 settings_row_parsed, of "[''default_session_id'', ''streaming_enabled'']" cl]
    by (auto simp: config_names_def)
  then show ?thesis using e1(1) e2(1,2)
    by (auto simp: NewConfigManager_def config_initTables_def sql_rows_def and_then_def ret_def settings_row_def)
qed

text \<open>C37: The configuration cannot be read back: as long as no table of the manager has a column called id, which is
  how NewConfigManager creates them, the settings are always the default ones, the lists of models
  and projects are empty, and no model or project is active, whatever rows the tables hold. The
  queries name the column id, and their error result is taken for an empty one.\<close>

theorem configuration_is_never_read_back:
  assumes "settled e"
    "\<forall>t \<in> {''user_settings'', ''model_configs'', ''project_configs''}. \<forall>h.
       ex_Tables e t = Some h \<longrightarrow> findColumnIndex (hf_Schema h) ''id'' = None"
  shows "fst (GetSettings cl e) = Ok default_settings \<and> fst (ListModels cl e) = Ok [] \<and> fst (ListProjects cl e) = Ok []
    \<and> fst (GetActiveModel cl e) = Err NoActiveModel \<and> fst (GetActiveProject cl e) = Err NoActiveProject"
proof -
  have i: "idless config_names e" using assms by (auto simp: idless_def config_names_def)
  show ?thesis
    using GetSettings_default [OF i, of cl] ListModels_none [OF i, of cl] ListProjects_none [OF i, of cl]
      GetActiveModel_none [OF i, of cl] GetActiveProject_none [OF i, of cl] by auto
qed

lemma demo_idless: "idless config_names demo_exec"
  using demo_settled by (simp add: idless_def config_names_def)

text \<open>The demo executor after NewConfigManager has made the tables.\<close>

theorem configuration_is_never_read_back_witness:
  "\<forall>cl. \<exists>e1. NewConfigManager cl demo_exec = (Ok (), e1) \<and> fst (GetSettings cl e1) = Ok default_settings
    \<and> fst (GetActiveModel cl e1) = Err NoActiveModel"
proof
  fix cl
  obtain e1 where e1: "NewConfigManager cl demo_exec = (Ok (), e1)" "idless config_names e1"
    using NewConfigManager_idless [OF demo_idless] by blast
  then have "settled e1" "\<forall>t \<in> {''user_settings'', ''model_configs'', ''project_configs''}. \<forall>h.
       ex_Tables e1 t = Some h \<longrightarrow> findColumnIndex (hf_Schema h) ''id'' = None"
    by (auto simp: idless_def config_names_def)
  from configuration_is_never_read_back [OF this, of cl] e1(1)
  show "\<exists>e1. NewConfigManager cl demo_exec = (Ok (), e1) \<and> fst (GetSettings cl e1) = Ok default_settings
    \<and> fst (GetActiveModel cl e1) = Err NoActiveModel" by blast
qed

text \<open>C38: Changes of the configuration are lost: on a database without its tables NewConfigManager succeeds, and
  then SetActiveModel, SetStreamingEnabled, SetActiveProject, DeleteModel and DeleteProject all
  report success and leave every table as it is.\<close>

theorem configuration_changes_are_lost:
  assumes "settled e" "ex_Tables e ''user_settings'' = None" "ex_Tables e ''model_configs'' = None"
    "ex_Tables e ''project_configs'' = None"
  shows "\<exists>e1. NewConfigManager cl e = (Ok (), e1) \<and> settled e1
    \<and> (\<exists>e2. SetActiveModel cl mid e1 = (Ok (), e2) \<and> same_tables e1 e2)
    \<and> (\<exists>e2. SetStreamingEnabled cl on e1 = (Ok (), e2) \<and> same_tables e1 e2)
    \<and> (\<exists>e2. SetActiveProject cl now pid e1 = (Ok (), e2) \<and> same_tables e1 e2)
    \<and> (\<exists>e2. DeleteModel cl mid e1 = (Ok (), e2) \<and> same_tables e1 e2)
    \<and> (\<exists>e2. DeleteProject cl pid e1 = (Ok (), e2) \<and> same_tables e1 e2)"
proof -
  have "idless config_names e" using assms by (auto simp: idless_def config_names_def)
  then obtain e1 where e1: "NewConfigManager cl e = (Ok (), e1)" and i: "idless config_names e1"
    using NewConfigManager_idless by blast
  show ?thesis
    using e1 i SetActiveModel_nothing [OF i, of cl mid] SetStreamingEnabled_nothing [OF i, of cl on]
      SetActiveProject_nothing [OF i, of cl now pid] DeleteModel_nothing [OF i, of cl mid] DeleteProject_nothing [OF i, of cl pid]
    by (auto simp: idless_def)
qed

theorem configuration_changes_are_lost_witness:
  "\<forall>cl. \<exists>e1. NewConfigManager cl demo_exec = (Ok (), e1) \<and> settled e1
    \<and> (\<exists>e2. SetActiveModel cl 3 e1 = (Ok (), e2) \<and> same_tables e1 e2)
    \<and> (\<exists>e2. SetStreamingEnabled cl False e1 = (Ok (), e2) \<and> same_tables e1 e2)
    \<and> (\<exists>e2. SetActiveProject cl 100 2 e1 = (Ok (), e2) \<and> same_tables e1 e2)
    \<and> (\<exists>e2. DeleteModel cl 3 e1 = (Ok (), e2) \<and> same_tables e1 e2)
    \<and> (\<exists>e2. DeleteProject cl 2 e1 = (Ok (), e2) \<and> same_tables e1 e2)"
  by (rule allI, rule configuration_changes_are_lost [OF demo_settled]) simp_all

section \<open>Models by name\<close>

lemma named_model_rows:
  assumes "select_head (fixed_tokens f) = Some h" "fixed_text f" "sf_Columns h \<noteq> [''*'']" "sf_Aggregates h = []"
    "length (sf_Columns h) = n"
  shows "(\<exists>e'. run_sql cl (f @ t) e = (Hang, e'))
    \<or> (\<exists>r e'. run_sql cl (f @ t) e = (Ok (Some r, None), e') \<and> list_all (\<lambda>row. length row = n) (result_rows (Some r)))"
  using Parse_select_front [OF assms(2,1), of t]
proof (elim disjE exE conjE)
  fix x assume "Parse (f @ t) = Err x"
  then show ?thesis using unparsed_no_effect [of "f @ t" x cl e] by (auto simp: no_effect_def)
next
  fix s assume s: "Parse (f @ t) = Ok (SelectStmt s)" "fits_front s h"
  have w: "list_all (\<lambda>row. length row = n) (result_rows (Some (select_rows (cl_en cl) s schema rows)))" for schema rows
    using select_rows_width [of s "cl_en cl" schema rows] s(2) assms(3-5) by (simp add: fits_front_def)
  from run_sql_select [OF s(1), where P = "\<lambda>r. list_all (\<lambda>row. length row = n) (result_rows (Some r))" and cl = cl and e = e]
  show ?thesis using s(2) w by (auto simp: fits_front_def)
qed

lemma short_models: "list_all (\<lambda>row. length row = 7) (result_rows qr) \<Longrightarrow> set (parseModels cl qr) \<subseteq> {blank_model}"
  by (auto simp: parseModels_def parse_model_def list_all_iff)

text \<open>A model looked up by its name has no fields: GetModelByName selects seven columns, the parser of rows
  wants eight, so the model it returns is blank, whatever is stored (also for AddModel, which
  answers with it); otherwise it is not found.\<close>

theorem named_model_is_blank:
  "fst (GetModelByName cl name e) \<in> {Ok blank_model, Err (ModelNotFound name), Hang}"
proof -
  let ?f = "''
        SELECT name, display_name, base_url, api_key, is_default, created_at, updated_at
        FROM model_configs WHERE name = ''"
  have "fixed_text ?f \<and> (case select_head (fixed_tokens ?f) of None \<Rightarrow> False
      | Some h \<Rightarrow> sf_Columns h \<noteq> [''*''] \<and> sf_Aggregates h = [] \<and> length (sf_Columns h) = 7)" by code_simp
  then obtain h where h: "select_head (fixed_tokens ?f) = Some h" "fixed_text ?f" "sf_Columns h \<noteq> [''*'']"
      "sf_Aggregates h = []" "length (sf_Columns h) = 7" by (auto split: option.splits)
  let ?t = "quoted name @ ''
    ''"
  have sql: "sprintf ''
        SELECT name, display_name, base_url, api_key, is_default, created_at, updated_at
        FROM model_configs WHERE name = '%s'
    '' [escapeSQL name] = ?f @ ?t" by (simp add: quoted_def apostrophe_def)
  from named_model_rows [OF h, of cl ?t e] show ?thesis
  proof (elim disjE exE conjE)
    fix e' assume "run_sql cl (?f @ ?t) e = (Hang, e')"
    then show ?thesis unfolding GetModelByName_def sql by (simp add: query_models_def and_then_def)
  next
    fix r e' assume r: "run_sql cl (?f @ ?t) e = (Ok (Some r, None), e')" "list_all (\<lambda>row. length row = 7) (result_rows (Some r))"
    have "fst (GetModelByName cl name e) = fst (first_or (ModelNotFound name) (parseModels cl (Some r)) e')"
      unfolding GetModelByName_def sql using r(1) by (simp add: query_models_def and_then_def ret_def split: prod.splits outcome.splits)
    then show ?thesis using short_models [OF r(2), of cl]
      by (cases "parseModels cl (Some r)") (auto simp: first_or_def throw_def ret_def)
  qed
qed

end
