(* ===== verification/Memory.thy ===== *)
theory Memory imports SqlClient begin

text \<open>
  \<^verbatim>\<open>pkg/context/memory.go\<close>: the working memory of the agent, in tables of the database: the
  instruction stack, thoughts, inferences, a buffer of key and value pairs, observations. The
  random identifier of a new entry and the time are arguments of the operations.
\<close>

section \<open>Data\<close>

datatype MemoryLevel = Metaspace | Heap | Stack

record Inference =
  inf_ID :: i64
  inf_SessionID :: i64
  inf_Conclusion :: string
  inf_Confidence :: u64
  inf_Type :: string
  inf_Source :: string
  inf_VersionID :: i64
  inf_CreatedAt :: i64
  inf_ExpiresAt :: i64
  inf_Metadata :: "(string \<times> val) list"

record Thought =
  th_ID :: i64
  th_SessionID :: i64
  th_InstructionID :: i64
  th_Type :: string
  th_Content :: string
  th_Confidence :: u64
  th_VersionID :: i64
  th_CreatedAt :: i64

record Instruction =
  inst_ID :: i64
  inst_SessionID :: i64
  inst_ParentID :: i64
  inst_Content :: string
  inst_Status :: string
  inst_Depth :: i64
  inst_VersionID :: i64
  inst_CreatedAt :: i64
  inst_CompletedAt :: i64

record BufferItem =
  bi_Key :: string
  bi_Value :: string
  bi_TTL :: i64
  bi_VersionID :: i64
  bi_CreatedAt :: i64
  bi_AccessCount :: i64
  bi_LastAccess :: i64

record Observation =
  ob_ID :: i64
  ob_SessionID :: i64
  ob_ToolName :: string
  ob_Input :: string
  ob_Output :: string
  ob_Success :: bool
  ob_VersionID :: i64
  ob_CreatedAt :: i64

datatype InstructionNode = InstructionNode Instruction "InstructionNode list"

record Session =
  se_ID :: i64
  se_CurrentEpoch :: i64

definition zero_inference :: Inference where
  "zero_inference = \<lparr>inf_ID = 0, inf_SessionID = 0, inf_Conclusion = [], inf_Confidence = 0, inf_Type = [],
     inf_Source = [], inf_VersionID = 0, inf_CreatedAt = 0, inf_ExpiresAt = 0, inf_Metadata = []\<rparr>"

definition zero_thought :: Thought where
  "zero_thought = \<lparr>th_ID = 0, th_SessionID = 0, th_InstructionID = 0, th_Type = [], th_Content = [],
     th_Confidence = 0, th_VersionID = 0, th_CreatedAt = 0\<rparr>"

definition zero_instruction :: Instruction where
  "zero_instruction = \<lparr>inst_ID = 0, inst_SessionID = 0, inst_ParentID = 0, inst_Content = [], inst_Status = [],
     inst_Depth = 0, inst_VersionID = 0, inst_CreatedAt = 0, inst_CompletedAt = 0\<rparr>"

definition zero_item :: BufferItem where
  "zero_item = \<lparr>bi_Key = [], bi_Value = [], bi_TTL = 0, bi_VersionID = 0, bi_CreatedAt = 0,
     bi_AccessCount = 0, bi_LastAccess = 0\<rparr>"

section \<open>Reading rows\<close>

definition parse_inference :: "client_env \<Rightarrow> val list \<Rightarrow> Inference" where
  "parse_inference cl row = zero_inference\<lparr>
     inf_ID := cell_int cl (row ! 0), inf_Conclusion := cell_text cl (row ! 1),
     inf_Confidence := cl_scan_f cl (cell_text cl (row ! 2)), inf_Type := cell_text cl (row ! 3),
     inf_Source := cell_text cl (row ! 4)\<rparr>"

definition parseInferences :: "client_env \<Rightarrow> QueryResult option \<Rightarrow> Inference list" where
  "parseInferences cl qr = map (parse_inference cl) (filter (\<lambda>row. 5 \<le> length row) (result_rows qr))"

definition parse_instruction :: "client_env \<Rightarrow> val list \<Rightarrow> Instruction" where
  "parse_instruction cl row = zero_instruction\<lparr>
     inst_ID := cell_int cl (row ! 0), inst_ParentID := cell_int cl (row ! 1),
     inst_Content := cell_text cl (row ! 2), inst_Status := cell_text cl (row ! 3),
     inst_Depth := cell_int cl (row ! 4),
     inst_CreatedAt := (if 5 < length row then cell_int cl (row ! 5) else 0)\<rparr>"

definition parseInstructions :: "client_env \<Rightarrow> QueryResult option \<Rightarrow> Instruction list" where
  "parseInstructions cl qr = map (parse_instruction cl) (filter (\<lambda>row. 5 \<le> length row) (result_rows qr))"

definition parse_thought :: "client_env \<Rightarrow> val list \<Rightarrow> Thought" where
  "parse_thought cl row = zero_thought\<lparr>
     th_ID := cell_int cl (row ! 0), th_InstructionID := cell_int cl (row ! 1),
     th_Type := cell_text cl (row ! 2), th_Content := cell_text cl (row ! 3),
     th_Confidence := cl_scan_f cl (cell_text cl (row ! 4)),
     th_CreatedAt := (if 5 < length row then cell_int cl (row ! 5) else 0)\<rparr>"

definition parseThoughts :: "client_env \<Rightarrow> QueryResult option \<Rightarrow> Thought list" where
  "parseThoughts cl qr = map (parse_thought cl) (filter (\<lambda>row. 5 \<le> length row) (result_rows qr))"

definition parseStringList :: "client_env \<Rightarrow> QueryResult option \<Rightarrow> string list" where
  "parseStringList cl qr =
     map (\<lambda>row. cell_text cl (row ! 0)) (filter (\<lambda>row. 0 < length row \<and> row ! 0 \<noteq> VNil) (result_rows qr))"

section \<open>Tables\<close>

definition memory_tables :: "string list" where
  "memory_tables = [
     ''CREATE TABLE IF NOT EXISTS sessions (
			id INT PRIMARY_KEY,
			current_epoch INT DEFAULT 0,
			created_at INT NOT_NULL
		)'',
     ''CREATE TABLE IF NOT EXISTS instruction_stack (
			id INT PRIMARY_KEY,
			session_id INT NOT_NULL,
			version_id INT NOT_NULL,
			rolled_back INT DEFAULT 0,
			parent_id INT,
			depth INT DEFAULT 0,
			content TEXT NOT_NULL,
			status TEXT DEFAULT 'pending',
			created_at INT NOT_NULL,
			completed_at INT
		)'',
     ''CREATE TABLE IF NOT EXISTS reasoning_space (
			id INT PRIMARY_KEY,
			session_id INT NOT_NULL,
			version_id INT NOT_NULL,
			rolled_back INT DEFAULT 0,
			instruction_id INT,
			thought_type TEXT NOT_NULL,
			content TEXT NOT_NULL,
			confidence REAL DEFAULT 0.5,
			created_at INT NOT_NULL
		)'',
     ''CREATE TABLE IF NOT EXISTS buffer_space (
			id INT PRIMARY_KEY,
			session_id INT NOT_NULL,
			version_id INT NOT_NULL,
			rolled_back INT DEFAULT 0,
			key TEXT,
			value TEXT,
			ttl INT DEFAULT 300,
			created_at INT NOT_NULL,
			access_count INT DEFAULT 0,
			last_access INT
		)'',
     ''CREATE TABLE IF NOT EXISTS inference_space (
			id INT PRIMARY_KEY,
			session_id INT NOT_NULL,
			version_id INT NOT_NULL,
			rolled_back INT DEFAULT 0,
			conclusion TEXT NOT_NULL,
			confidence REAL DEFAULT 0.5,
			inference_type TEXT DEFAULT 'assumption',
			source TEXT,
			created_at INT NOT_NULL,
			expires_at INT
		)'',
     ''CREATE TABLE IF NOT EXISTS metaspace (
			id INT PRIMARY_KEY,
			agent_id TEXT NOT_NULL,
			version INT NOT_NULL,
			content_type TEXT NOT_NULL,
			content TEXT NOT_NULL,
			priority INT DEFAULT 0,
			is_active INT DEFAULT 1
		)'',
     ''CREATE TABLE IF NOT EXISTS version_memory (
			version_id INT PRIMARY_KEY,
			instructions TEXT,
			thoughts TEXT,
			inferences TEXT,
			buffer TEXT,
			created_at INT
		)'',
     ''CREATE TABLE IF NOT EXISTS observations (
			id INT PRIMARY_KEY,
			session_id INT NOT_NULL,
			version_id INT NOT_NULL,
			tool_name TEXT,
			input TEXT,
			output TEXT,
			success INT,
			created_at INT
		)'',
     ''CREATE INDEX IF NOT EXISTS idx_instructions_version ON instruction_stack(version_id)'',
     ''CREATE INDEX IF NOT EXISTS idx_thoughts_version ON reasoning_space(version_id)'',
     ''CREATE INDEX IF NOT EXISTS idx_inferences_version ON inference_space(version_id)'',
     ''CREATE INDEX IF NOT EXISTS idx_buffer_version ON buffer_space(version_id)'']"

definition NewMemoryManager :: "client_env \<Rightarrow> unit act" where
  "NewMemoryManager cl = sql_all cl memory_tables"

section \<open>Metaspace\<close>

definition SetMetaspace_sql :: "i64 \<Rightarrow> string \<Rightarrow> string \<Rightarrow> string \<Rightarrow> i64 \<Rightarrow> string" where
  "SetMetaspace_sql rid key v contentType priority = sprintf ''
		INSERT INTO metaspace (id, agent_id, version, content_type, content, priority, is_active)
		VALUES (%d, '%s', 1, '%s', '%s', %d, 1)
	''
     [dec rid, escapeSQL key, contentType, escapeSQL v, dec priority]"

definition SetMetaspace :: "client_env \<Rightarrow> i64 \<Rightarrow> string \<Rightarrow> string \<Rightarrow> string \<Rightarrow> i64 \<Rightarrow> unit act" where
  "SetMetaspace cl rid key v contentType priority =
     sql_do cl (SetMetaspace_sql rid key v contentType priority)"

definition GetMetaspace :: "client_env \<Rightarrow> string \<Rightarrow> string act" where
  "GetMetaspace cl key =
     and_then (sql_rows cl (sprintf ''SELECT content FROM metaspace WHERE agent_id = '%s' AND is_active = 1'' [escapeSQL key]))
       (\<lambda>result. ret (first_value cl result))"

definition GetAllMetaspace :: "client_env \<Rightarrow> (string \<times> string) list act" where
  "GetAllMetaspace cl =
     and_then (sql_rows cl ''
		SELECT agent_id, content FROM metaspace 
		WHERE is_active = 1 
		ORDER BY priority DESC
	'')
       (\<lambda>result. ret (pair_map cl result))"

section \<open>Inferences, buffer, observations\<close>

definition AddInference_sql :: "client_env \<Rightarrow> i64 \<Rightarrow> i64 \<Rightarrow> i64 \<Rightarrow> i64 \<Rightarrow> string \<Rightarrow> u64 \<Rightarrow> string \<Rightarrow> string \<Rightarrow> i64 \<Rightarrow> string" where
  "AddInference_sql cl now rid sessionID versionID conclusion confidence inferenceType source expiresAt = sprintf ''
		INSERT INTO inference_space (id, session_id, version_id, conclusion, confidence, inference_type, source, created_at, expires_at)
		VALUES (%d, %d, %d, '%s', %f, '%s', '%s', %d, %d)
	''
     [dec rid, dec sessionID, dec versionID, escapeSQL conclusion, cl_fmt_f cl confidence, inferenceType, source,
         dec now, dec expiresAt]"

definition AddInference :: "client_env \<Rightarrow> i64 \<Rightarrow> i64 \<Rightarrow> i64 \<Rightarrow> i64 \<Rightarrow> string \<Rightarrow> u64 \<Rightarrow> string \<Rightarrow> string \<Rightarrow> unit act" where
  "AddInference cl now rid sessionID versionID conclusion confidence inferenceType source =
     (let expiresAt = now + 86400 in
      sql_do cl (AddInference_sql cl now rid sessionID versionID conclusion confidence inferenceType source expiresAt))"

definition GetActiveInferences_sql :: "client_env \<Rightarrow> i64 \<Rightarrow> i64 \<Rightarrow> i64 \<Rightarrow> u64 \<Rightarrow> string" where
  "GetActiveInferences_sql cl now sessionID versionID minConfidence = sprintf ''
		SELECT id, conclusion, confidence, inference_type, source, created_at
		FROM inference_space 
		WHERE session_id = %d 
		  AND version_id = %d
		  AND confidence >= %f 
		  AND (expires_at = 0 OR expires_at > %d)
		  AND rolled_back = 0
		ORDER BY confidence DESC
		LIMIT 20
	''
     [dec sessionID, dec versionID, cl_fmt_f cl minConfidence, dec now]"

definition GetActiveInferences :: "client_env \<Rightarrow> i64 \<Rightarrow> i64 \<Rightarrow> i64 \<Rightarrow> u64 \<Rightarrow> Inference list act" where
  "GetActiveInferences cl now sessionID versionID minConfidence =
     and_then (sql_rows cl (GetActiveInferences_sql cl now sessionID versionID minConfidence))
       (\<lambda>result. ret (parseInferences cl result))"

definition SetBuffer_sql :: "i64 \<Rightarrow> i64 \<Rightarrow> i64 \<Rightarrow> i64 \<Rightarrow> string \<Rightarrow> string \<Rightarrow> i64 \<Rightarrow> string" where
  "SetBuffer_sql now rid sessionID versionID key v ttl = sprintf ''
		INSERT INTO buffer_space (id, session_id, version_id, key, value, ttl, created_at)
		VALUES (%d, %d, %d, '%s', '%s', %d, %d)
	''
     [dec rid, dec sessionID, dec versionID, escapeSQL key, escapeSQL v, dec ttl, dec now]"

definition SetBuffer :: "client_env \<Rightarrow> i64 \<Rightarrow> i64 \<Rightarrow> i64 \<Rightarrow> i64 \<Rightarrow> string \<Rightarrow> string \<Rightarrow> i64 \<Rightarrow> unit act" where
  "SetBuffer cl now rid sessionID versionID key v ttl0 =
     (let ttl = (if ttl0 = 0 then 300 else ttl0) in
      sql_do cl (SetBuffer_sql now rid sessionID versionID key v ttl))"

definition GetBuffer_sql :: "i64 \<Rightarrow> i64 \<Rightarrow> i64 \<Rightarrow> string \<Rightarrow> string" where
  "GetBuffer_sql now sessionID versionID key = sprintf ''
		SELECT value FROM buffer_space 
		WHERE session_id = %d 
		  AND version_id = %d
		  AND key = '%s' 
		  AND (created_at + ttl > %d)
		  AND rolled_back = 0
	''
     [dec sessionID, dec versionID, escapeSQL key, dec now]"

definition GetBuffer :: "client_env \<Rightarrow> i64 \<Rightarrow> i64 \<Rightarrow> i64 \<Rightarrow> i64 \<Rightarrow> string \<Rightarrow> (string \<times> bool) act" where
  "GetBuffer cl now now2 sessionID versionID key =
     and_then (sql_rows cl (GetBuffer_sql now sessionID versionID key)) (\<lambda>result.
       let v = first_value cl result in
       if v \<noteq> [] then
         and_then (sql_ignore cl (sprintf ''
			UPDATE buffer_space SET access_count = access_count + 1, last_access = %d
			WHERE session_id = %d AND version_id = %d AND key = '%s'
		''
           [dec now2, dec sessionID, dec versionID, escapeSQL key])) (\<lambda>_. ret (v, True))
       else ret ([], False))"

definition AddObservation :: "client_env \<Rightarrow> i64 \<Rightarrow> i64 \<Rightarrow> i64 \<Rightarrow> i64 \<Rightarrow> string \<Rightarrow> string \<Rightarrow> string \<Rightarrow> bool \<Rightarrow> unit act" where
  "AddObservation cl now rid sessionID versionID toolName inp outp success =
     (let successInt = (if success then 1 else 0) in
      sql_do cl (sprintf ''
		INSERT INTO observations (id, session_id, version_id, tool_name, input, output, success, created_at)
		VALUES (%d, %d, %d, '%s', '%s', '%s', %d, %d)
	''
        [dec rid, dec sessionID, dec versionID, escapeSQL toolName, escapeSQL inp, escapeSQL outp, dec successInt, dec now]))"

section \<open>The instruction stack\<close>

definition in_tx :: "(Executor \<Rightarrow> (tx_err, 'a) outcome \<times> Executor) \<Rightarrow> 'a act" where
  "in_tx f e = (case f e of (r, e1) \<Rightarrow> (map_err TxFailed r, e1))"

text \<open>An error rolls the transaction back, whatever that returns, and is passed on.\<close>

definition or_rollback :: "'a act \<Rightarrow> 'a act" where
  "or_rollback m e = (case m e of (Err err, e1) \<Rightarrow> (Err err, snd (Rollback e1)) | r \<Rightarrow> r)"

text \<open>The depth of a new instruction: one more than its parent's; 0 without a parent or if it is not found.\<close>

definition instruction_depth :: "client_env \<Rightarrow> i64 \<Rightarrow> i64 act" where
  "instruction_depth cl parentID e =
     (if 0 < sint parentID then
        (case ExecuteInTxWithResult (cl_en cl) (sprintf ''SELECT depth FROM instruction_stack WHERE id = %d'' [dec parentID]) e of
           (Ok r, e1) \<Rightarrow> (let d = first_value cl (Some r) in ret (if d \<noteq> [] then scan_int d + 1 else 0) e1)
         | (Err _, e1) \<Rightarrow> ret 0 e1
         | (Panic, e1) \<Rightarrow> (Panic, e1)
         | (Hang, e1) \<Rightarrow> (Hang, e1))
      else ret 0 e)"

definition push_sql :: "i64 \<Rightarrow> i64 \<Rightarrow> i64 \<Rightarrow> i64 \<Rightarrow> string \<Rightarrow> i64 \<Rightarrow> i64 \<Rightarrow> string" where
  "push_sql rid sessionID versionID parentID content depth now =
     sprintf ''
		INSERT INTO instruction_stack (id, session_id, version_id, parent_id, content, depth, created_at)
		VALUES (%d, %d, %d, %d, '%s', %d, %d)
	''
       [dec rid, dec sessionID, dec versionID, dec parentID, escapeSQL content, dec depth, dec now]"

definition PushInstruction :: "client_env \<Rightarrow> i64 \<Rightarrow> i64 \<Rightarrow> i64 \<Rightarrow> i64 \<Rightarrow> string \<Rightarrow> i64 \<Rightarrow> i64 act" where
  "PushInstruction cl now rid sessionID versionID content parentID =
     and_then (in_tx BeginTransaction) (\<lambda>_.
     and_then (instruction_depth cl parentID) (\<lambda>depth.
     and_then (or_rollback (in_tx (ExecuteInTx (push_sql rid sessionID versionID parentID content depth now)))) (\<lambda>_.
     and_then (or_rollback (in_tx (Commit (cl_en cl)))) (\<lambda>_. ret rid))))"

definition PopInstruction_sql :: "string \<Rightarrow> i64 \<Rightarrow> i64 \<Rightarrow> string" where
  "PopInstruction_sql status now iid = sprintf ''
		UPDATE instruction_stack SET status = '%s', completed_at = %d
		WHERE id = %d
	''
     [status, dec now, dec iid]"

definition PopInstruction :: "client_env \<Rightarrow> i64 \<Rightarrow> i64 \<Rightarrow> bool \<Rightarrow> unit act" where
  "PopInstruction cl now iid success =
     (let status = (if \<not> success then ''failed'' else ''completed'') in
      sql_do cl (PopInstruction_sql status now iid))"

definition GetCurrentStack_sql :: "i64 \<Rightarrow> i64 \<Rightarrow> string" where
  "GetCurrentStack_sql sessionID versionID = sprintf ''
		SELECT id, parent_id, content, status, depth, created_at
		FROM instruction_stack 
		WHERE session_id = %d 
		  AND version_id = %d
		  AND status = 'pending'
		ORDER BY depth ASC
	''
     [dec sessionID, dec versionID]"

definition GetCurrentStack :: "client_env \<Rightarrow> i64 \<Rightarrow> i64 \<Rightarrow> Instruction list act" where
  "GetCurrentStack cl sessionID versionID =
     and_then (sql_rows cl (GetCurrentStack_sql sessionID versionID))
       (\<lambda>result. ret (parseInstructions cl result))"

definition AddThought_sql :: "client_env \<Rightarrow> i64 \<Rightarrow> i64 \<Rightarrow> i64 \<Rightarrow> i64 \<Rightarrow> i64 \<Rightarrow> string \<Rightarrow> string \<Rightarrow> u64 \<Rightarrow> string" where
  "AddThought_sql cl now rid sessionID versionID instructionID thoughtType content confidence = sprintf ''
		INSERT INTO reasoning_space (id, session_id, version_id, instruction_id, thought_type, content, confidence, created_at)
		VALUES (%d, %d, %d, %d, '%s', '%s', %f, %d)
	''
     [dec rid, dec sessionID, dec versionID, dec instructionID, thoughtType, escapeSQL content,
        cl_fmt_f cl confidence, dec now]"

definition AddThought :: "client_env \<Rightarrow> i64 \<Rightarrow> i64 \<Rightarrow> i64 \<Rightarrow> i64 \<Rightarrow> i64 \<Rightarrow> string \<Rightarrow> string \<Rightarrow> u64 \<Rightarrow> unit act" where
  "AddThought cl now rid sessionID versionID instructionID thoughtType content confidence =
     sql_do cl (AddThought_sql cl now rid sessionID versionID instructionID thoughtType content confidence)"

section \<open>Garbage collection\<close>

definition memory_GC :: "client_env \<Rightarrow> i64 \<Rightarrow> i64 \<Rightarrow> i64 \<Rightarrow> unit act" where
  "memory_GC cl now sessionID versionID =
     (let weekAgo = now - 7 * 86400 in
      sql_all cl [
        sprintf ''
		DELETE FROM buffer_space 
		WHERE session_id = %d AND version_id = %d
		  AND (created_at + ttl < %d OR rolled_back = 1)
	'' [dec sessionID, dec versionID, dec now],
        sprintf ''
		DELETE FROM observations 
		WHERE session_id = %d AND created_at < %d
	'' [dec sessionID, dec weekAgo],
        sprintf ''
		DELETE FROM reasoning_space WHERE session_id = %d AND rolled_back = 1
	'' [dec sessionID],
        sprintf ''
		DELETE FROM inference_space WHERE session_id = %d AND rolled_back = 1
	'' [dec sessionID]])"

record GCStats =
  gc_DeletedBuffer :: i64
  gc_DeletedThoughts :: i64
  gc_DeletedInferences :: i64
  gc_DeletedObservations :: i64
  gc_FreedBytes :: i64

definition zero_stats :: GCStats where
  "zero_stats = \<lparr>gc_DeletedBuffer = 0, gc_DeletedThoughts = 0, gc_DeletedInferences = 0,
     gc_DeletedObservations = 0, gc_FreedBytes = 0\<rparr>"

definition GetGCStats :: "client_env \<Rightarrow> i64 \<Rightarrow> GCStats act" where
  "GetGCStats cl sessionID =
     and_then (sql_rows cl (sprintf ''
		SELECT 
			(SELECT COUNT(*) FROM buffer_space WHERE session_id = %d AND rolled_back = 1),
			(SELECT COUNT(*) FROM reasoning_space WHERE session_id = %d AND rolled_back = 1),
			(SELECT COUNT(*) FROM inference_space WHERE session_id = %d AND rolled_back = 1),
			(SELECT COUNT(*) FROM observations WHERE session_id = %d)
	''
       [dec sessionID, dec sessionID, dec sessionID, dec sessionID])) (\<lambda>result.
       ret (case result of
          None \<Rightarrow> zero_stats
        | Some r \<Rightarrow>
            (if qr_Type r = ''SELECT'' \<and> qr_Rows r \<noteq> [] \<and> 4 \<le> length (hd (qr_Rows r)) then
               (let row = hd (qr_Rows r) in zero_stats\<lparr>
                  gc_DeletedBuffer := cell_int cl (row ! 0), gc_DeletedThoughts := cell_int cl (row ! 1),
                  gc_DeletedInferences := cell_int cl (row ! 2), gc_DeletedObservations := cell_int cl (row ! 3)\<rparr>)
             else zero_stats)))"

section \<open>Queries\<close>

definition getInstructionsFlat :: "client_env \<Rightarrow> i64 \<Rightarrow> i64 \<Rightarrow> Instruction list act" where
  "getInstructionsFlat cl sessionID versionID =
     and_then (sql_rows cl (sprintf ''
		SELECT id, parent_id, content, status, depth, created_at
		FROM instruction_stack 
		WHERE session_id = %d 
		  AND version_id = %d
		  AND rolled_back = 0
		ORDER BY depth ASC, created_at ASC
	'' [dec sessionID, dec versionID]))
       (\<lambda>result. ret (parseInstructions cl result))"

definition GetRecentThoughts_sql :: "i64 \<Rightarrow> i64 \<Rightarrow> i64 \<Rightarrow> string" where
  "GetRecentThoughts_sql sessionID versionID limit = sprintf ''
		SELECT id, instruction_id, thought_type, content, confidence, created_at
		FROM reasoning_space 
		WHERE session_id = %d 
		  AND version_id = %d
		  AND rolled_back = 0
		ORDER BY created_at DESC
		LIMIT %d
	''
     [dec sessionID, dec versionID, dec limit]"

definition GetRecentThoughts :: "client_env \<Rightarrow> i64 \<Rightarrow> i64 \<Rightarrow> i64 \<Rightarrow> Thought list act" where
  "GetRecentThoughts cl sessionID versionID limit0 =
     (let limit = (if sint limit0 \<le> 0 then 10 else limit0) in
      and_then (sql_rows cl (GetRecentThoughts_sql sessionID versionID limit))
        (\<lambda>result. ret (parseThoughts cl result)))"

definition GetThoughtsByInstruction :: "client_env \<Rightarrow> i64 \<Rightarrow> i64 \<Rightarrow> i64 \<Rightarrow> Thought list act" where
  "GetThoughtsByInstruction cl sessionID versionID instructionID =
     and_then (sql_rows cl (sprintf ''
		SELECT id, instruction_id, thought_type, content, confidence, created_at
		FROM reasoning_space 
		WHERE session_id = %d 
		  AND version_id = %d
		  AND instruction_id = %d
		  AND rolled_back = 0
		ORDER BY created_at ASC
	'' [dec sessionID, dec versionID, dec instructionID]))
       (\<lambda>result. ret (parseThoughts cl result))"

definition GetBufferKeys_sql :: "i64 \<Rightarrow> i64 \<Rightarrow> i64 \<Rightarrow> string" where
  "GetBufferKeys_sql now sessionID versionID = sprintf ''
		SELECT DISTINCT key 
		FROM buffer_space 
		WHERE session_id = %d 
		  AND version_id = %d
		  AND rolled_back = 0
		  AND (created_at + ttl > %d)
		ORDER BY access_count DESC
	''
     [dec sessionID, dec versionID, dec now]"

definition GetBufferKeys :: "client_env \<Rightarrow> i64 \<Rightarrow> i64 \<Rightarrow> i64 \<Rightarrow> string list act" where
  "GetBufferKeys cl now sessionID versionID =
     and_then (sql_rows cl (GetBufferKeys_sql now sessionID versionID))
       (\<lambda>result. ret (parseStringList cl result))"

definition GetBufferAll_sql :: "i64 \<Rightarrow> i64 \<Rightarrow> i64 \<Rightarrow> string" where
  "GetBufferAll_sql now sessionID versionID = sprintf ''
		SELECT key, value 
		FROM buffer_space 
		WHERE session_id = %d 
		  AND version_id = %d
		  AND rolled_back = 0
		  AND (created_at + ttl > %d)
		ORDER BY access_count DESC
	''
     [dec sessionID, dec versionID, dec now]"

definition GetBufferAll :: "client_env \<Rightarrow> i64 \<Rightarrow> i64 \<Rightarrow> i64 \<Rightarrow> (string \<times> string) list act" where
  "GetBufferAll cl now sessionID versionID =
     and_then (sql_rows cl (GetBufferAll_sql now sessionID versionID))
       (\<lambda>result. ret (pair_map cl result))"

definition GetBufferByPrefix_sql :: "i64 \<Rightarrow> i64 \<Rightarrow> i64 \<Rightarrow> string \<Rightarrow> string" where
  "GetBufferByPrefix_sql now sessionID versionID prefx = sprintf ''
		SELECT key, value 
		FROM buffer_space 
		WHERE session_id = %d 
		  AND version_id = %d
		  AND key LIKE '%s%%'
		  AND rolled_back = 0
		  AND (created_at + ttl > %d)
	''
     [dec sessionID, dec versionID, escapeSQL prefx, dec now]"

definition GetBufferByPrefix :: "client_env \<Rightarrow> i64 \<Rightarrow> i64 \<Rightarrow> i64 \<Rightarrow> string \<Rightarrow> (string \<times> string) list act" where
  "GetBufferByPrefix cl now sessionID versionID prefx =
     and_then (sql_rows cl (GetBufferByPrefix_sql now sessionID versionID prefx))
       (\<lambda>result. ret (pair_map cl result))"

definition DeleteBufferKey :: "client_env \<Rightarrow> i64 \<Rightarrow> i64 \<Rightarrow> string \<Rightarrow> unit act" where
  "DeleteBufferKey cl sessionID versionID key =
     sql_do cl (sprintf ''
		UPDATE buffer_space SET rolled_back = 1
		WHERE session_id = %d AND version_id = %d AND key = '%s'
	'' [dec sessionID, dec versionID, escapeSQL key])"

definition IncrementBufferAccess :: "client_env \<Rightarrow> i64 \<Rightarrow> i64 \<Rightarrow> i64 \<Rightarrow> string \<Rightarrow> unit act" where
  "IncrementBufferAccess cl now sessionID versionID key =
     sql_ignore cl (sprintf ''
		UPDATE buffer_space 
		SET access_count = access_count + 1, last_access = %d
		WHERE session_id = %d AND version_id = %d AND key = '%s'
	'' [dec now, dec sessionID, dec versionID, escapeSQL key])"

definition GetCurrentInstruction :: "client_env \<Rightarrow> i64 \<Rightarrow> i64 \<Rightarrow> Instruction option act" where
  "GetCurrentInstruction cl sessionID versionID =
     and_then (sql_rows cl (sprintf ''
		SELECT id, parent_id, content, status, depth, created_at
		FROM instruction_stack 
		WHERE session_id = %d 
		  AND version_id = %d
		  AND status = 'executing'
		LIMIT 1
	'' [dec sessionID, dec versionID]))
       (\<lambda>result. ret (case parseInstructions cl result of [] \<Rightarrow> None | i # _ \<Rightarrow> Some i))"

definition GetInferencesByType :: "client_env \<Rightarrow> i64 \<Rightarrow> i64 \<Rightarrow> i64 \<Rightarrow> string \<Rightarrow> Inference list act" where
  "GetInferencesByType cl now sessionID versionID inferenceType =
     and_then (sql_rows cl (sprintf ''
		SELECT id, conclusion, confidence, inference_type, source, created_at
		FROM inference_space 
		WHERE session_id = %d 
		  AND version_id = %d
		  AND inference_type = '%s'
		  AND rolled_back = 0
		  AND (expires_at = 0 OR expires_at > %d)
		ORDER BY confidence DESC
	'' [dec sessionID, dec versionID, inferenceType, dec now]))
       (\<lambda>result. ret (parseInferences cl result))"

definition GetInferencesBySource :: "client_env \<Rightarrow> i64 \<Rightarrow> i64 \<Rightarrow> i64 \<Rightarrow> string \<Rightarrow> Inference list act" where
  "GetInferencesBySource cl now sessionID versionID source =
     and_then (sql_rows cl (sprintf ''
		SELECT id, conclusion, confidence, inference_type, source, created_at
		FROM inference_space 
		WHERE session_id = %d 
		  AND version_id = %d
		  AND source = '%s'
		  AND rolled_back = 0
		  AND (expires_at = 0 OR expires_at > %d)
		ORDER BY confidence DESC
	'' [dec sessionID, dec versionID, source, dec now]))
       (\<lambda>result. ret (parseInferences cl result))"

definition InvalidateInference :: "client_env \<Rightarrow> i64 \<Rightarrow> i64 \<Rightarrow> unit act" where
  "InvalidateInference cl now iid = sql_do cl (sprintf ''
		UPDATE inference_space SET rolled_back = 1, expires_at = %d
		WHERE id = %d
	'' [dec now, dec iid])"

definition InvalidateInferencesByVersion :: "client_env \<Rightarrow> i64 \<Rightarrow> i64 \<Rightarrow> unit act" where
  "InvalidateInferencesByVersion cl now versionID =
     sql_do cl (sprintf ''
		UPDATE inference_space SET rolled_back = 1, expires_at = %d
		WHERE version_id = %d
	'' [dec now, dec versionID])"

section \<open>The instruction tree\<close>

fun traverse :: "('a \<Rightarrow> ('e, 'b) outcome) \<Rightarrow> 'a list \<Rightarrow> ('e, 'b list) outcome" where
  "traverse f [] = Ok []"
| "traverse f (x # xs) = bind_out (f x) (\<lambda>y. bind_out (traverse f xs) (\<lambda>ys. Ok (y # ys)))"

text \<open>
  The recursion goes from an instruction to those that name it as their parent. It need not end: a
  cycle of parents is followed for ever (Go ends the process when the stack is exhausted). The
  first argument bounds its depth; \<open>Hang\<close> means that the bound was reached.
\<close>

fun buildInstructionTree :: "nat \<Rightarrow> Instruction list \<Rightarrow> i64 \<Rightarrow> (client_err, InstructionNode list) outcome" where
  "buildInstructionTree 0 instructions parentID = Hang"
| "buildInstructionTree (Suc fuel) instructions parentID =
     traverse (\<lambda>inst. bind_out (buildInstructionTree fuel instructions (inst_ID inst))
         (\<lambda>children. Ok (InstructionNode inst children)))
       (filter (\<lambda>inst. inst_ParentID inst = parentID) instructions)"

definition GetInstructionTree :: "client_env \<Rightarrow> i64 \<Rightarrow> i64 \<Rightarrow> InstructionNode list act" where
  "GetInstructionTree cl sessionID versionID =
     and_then (getInstructionsFlat cl sessionID versionID) (\<lambda>instructions e.
       (buildInstructionTree (length instructions + 1) instructions 0, e))"

section \<open>Reading everything for a snapshot\<close>

definition GetAllInstructions :: "client_env \<Rightarrow> i64 \<Rightarrow> Instruction list act" where
  "GetAllInstructions cl sessionID =
     and_then (sql_rows cl (sprintf ''
		SELECT id, session_id, content, depth, status, created_at
		FROM instruction_stack 
		WHERE session_id = %d AND rolled_back = 0
		ORDER BY created_at ASC
	'' [dec sessionID])) (\<lambda>result.
       ret (map (\<lambda>row. zero_instruction\<lparr>
           inst_ID := cell_int cl (row ! 0), inst_SessionID := cell_int cl (row ! 1),
           inst_Content := cell_text cl (row ! 2), inst_Depth := cell_int cl (row ! 3),
           inst_Status := cell_text cl (row ! 4), inst_CreatedAt := cell_int cl (row ! 5)\<rparr>)
         (filter (\<lambda>row. 6 \<le> length row) (result_rows result))))"

definition GetAllThoughts :: "client_env \<Rightarrow> i64 \<Rightarrow> Thought list act" where
  "GetAllThoughts cl sessionID =
     and_then (sql_rows cl (sprintf ''
		SELECT id, session_id, thought_type, content, confidence, created_at
		FROM reasoning_space 
		WHERE session_id = %d AND rolled_back = 0
		ORDER BY created_at ASC
	'' [dec sessionID])) (\<lambda>result.
       ret (map (\<lambda>row. zero_thought\<lparr>
           th_ID := cell_int cl (row ! 0), th_SessionID := cell_int cl (row ! 1),
           th_Type := cell_text cl (row ! 2), th_Content := cell_text cl (row ! 3),
           th_Confidence := cl_scan_f cl (cell_text cl (row ! 4)), th_CreatedAt := cell_int cl (row ! 5)\<rparr>)
         (filter (\<lambda>row. 6 \<le> length row) (result_rows result))))"

definition GetAllInferences :: "client_env \<Rightarrow> i64 \<Rightarrow> Inference list act" where
  "GetAllInferences cl sessionID =
     and_then (sql_rows cl (sprintf ''
		SELECT id, session_id, conclusion, confidence, inference_type, source, created_at
		FROM inference_space 
		WHERE session_id = %d AND rolled_back = 0
		ORDER BY created_at ASC
	'' [dec sessionID])) (\<lambda>result.
       ret (map (\<lambda>row. zero_inference\<lparr>
           inf_ID := cell_int cl (row ! 0), inf_SessionID := cell_int cl (row ! 1),
           inf_Conclusion := cell_text cl (row ! 2), inf_Confidence := cl_scan_f cl (cell_text cl (row ! 3)),
           inf_Type := cell_text cl (row ! 4), inf_Source := cell_text cl (row ! 5),
           inf_CreatedAt := cell_int cl (row ! 6)\<rparr>)
         (filter (\<lambda>row. 7 \<le> length row) (result_rows result))))"

definition GetAllBuffer :: "client_env \<Rightarrow> i64 \<Rightarrow> (string \<times> BufferItem) list act" where
  "GetAllBuffer cl sessionID =
     and_then (sql_rows cl (sprintf ''
		SELECT key, value, ttl, created_at
		FROM buffer_space 
		WHERE session_id = %d AND rolled_back = 0
	'' [dec sessionID])) (\<lambda>result.
       ret (fold (\<lambda>row buffer.
           if 4 \<le> length row \<and> row ! 0 \<noteq> VNil then
             let item = zero_item\<lparr>
               bi_Key := cell_text cl (row ! 0),
               bi_Value := (if row ! 1 \<noteq> VNil then cell_text cl (row ! 1) else []),
               bi_TTL := cell_int cl (row ! 2), bi_CreatedAt := cell_int cl (row ! 3)\<rparr>
             in AList.update (bi_Key item) item buffer
           else buffer) (result_rows result) []))"

section \<open>Sessions\<close>

definition epoch_of :: "val list \<Rightarrow> i64" where
  "epoch_of row = (if 1 < length row then (case row ! 1 of VInt64 i \<Rightarrow> i | VInt i \<Rightarrow> i | _ \<Rightarrow> 0) else 0)"

definition GetOrCreateSession :: "client_env \<Rightarrow> i64 \<Rightarrow> i64 \<Rightarrow> Session act" where
  "GetOrCreateSession cl now sessionID =
     and_then (run_sql cl (sprintf ''SELECT id, current_epoch FROM sessions WHERE id = %d'' [dec sessionID])) (\<lambda>(result, err).
       case err of Some x \<Rightarrow> throw (ExecFailed x)
       | None \<Rightarrow>
         (case result_rows result of
            [] \<Rightarrow>
              and_then (run_sql cl (sprintf ''
			INSERT INTO sessions (id, current_epoch, created_at)
			VALUES (%d, 0, %d)
		'' [dec sessionID, dec now])) (\<lambda>(_, err2).
                case err2 of Some x \<Rightarrow> throw (SessionFailed x)
                | None \<Rightarrow> ret \<lparr>se_ID = sessionID, se_CurrentEpoch = 0\<rparr>)
          | row # _ \<Rightarrow> ret \<lparr>se_ID = sessionID, se_CurrentEpoch = epoch_of row\<rparr>))"

end
