(* ===== verification/MemoryProps.thy ===== *)
theory MemoryProps imports Memory ClientStmts ExecDemo begin

text \<open>
  The properties of the agent's memory.
\<close>

section \<open>The buffer\<close>

text \<open>A text is refused at a plus sign behind a chain of segments.\<close>

lemma refused_plus: "chain ss \<Longrightarrow> \<exists>x. Lex (segs_text ss @ CHR ''+'' # t) = Err x"
proof -
  assume ss: "chain ss"
  have c: "\<not> ws_char (CHR ''+'')" "\<not> quote_char (CHR ''+'')" "\<not> is_digit (CHR ''+'')" "\<not> word_start (CHR ''+'')" "\<not> num_char (CHR ''+'')"
    by (simp_all add: ws_char_def quote_char_def is_digit_def word_start_def is_lower_def is_upper_def code_def num_char_def)
  have "\<exists>e. lex_from q (CHR ''+'' # t) = Err e" for q using c by (simp add: lex_from.simps(2))
  then show ?thesis using piece_refused [OF chain_piece [OF ss]] c by (simp add: stops_number_def)
qed

lemma escapeSQL_append: "escapeSQL (s @ t) = escapeSQL s @ escapeSQL t"
  by (simp add: escapeSQL_def)

lemma GetBuffer_refused: "\<exists>x. Lex (GetBuffer_sql now sessionID versionID key) = Err x"
proof -
  let ?ss = "[Fixed ''
		SELECT value FROM buffer_space 
		WHERE session_id = '', Number sessionID, Fixed '' 
		  AND version_id = '', Number versionID, Fixed ''
		  AND key = '', Quoted key, Fixed '' 
		  AND (created_at '']"
  have "chain ?ss" by code_simp
  moreover have "\<exists>t. GetBuffer_sql now sessionID versionID key = segs_text ?ss @ CHR ''+'' # t"
    by (simp add: GetBuffer_sql_def quoted_def apostrophe_def segs_text_def)
  ultimately show ?thesis using refused_plus by metis
qed

lemma GetBufferKeys_refused: "\<exists>x. Lex (GetBufferKeys_sql now sessionID versionID) = Err x"
proof -
  let ?ss = "[Fixed ''
		SELECT DISTINCT key 
		FROM buffer_space 
		WHERE session_id = '', Number sessionID, Fixed '' 
		  AND version_id = '', Number versionID, Fixed ''
		  AND rolled_back = 0
		  AND (created_at '']"
  have "chain ?ss" by code_simp
  moreover have "\<exists>t. GetBufferKeys_sql now sessionID versionID = segs_text ?ss @ CHR ''+'' # t"
    by (simp add: GetBufferKeys_sql_def segs_text_def)
  ultimately show ?thesis using refused_plus by metis
qed

lemma GetBufferAll_refused: "\<exists>x. Lex (GetBufferAll_sql now sessionID versionID) = Err x"
proof -
  let ?ss = "[Fixed ''
		SELECT key, value 
		FROM buffer_space 
		WHERE session_id = '', Number sessionID, Fixed '' 
		  AND version_id = '', Number versionID, Fixed ''
		  AND rolled_back = 0
		  AND (created_at '']"
  have "chain ?ss" by code_simp
  moreover have "\<exists>t. GetBufferAll_sql now sessionID versionID = segs_text ?ss @ CHR ''+'' # t"
    by (simp add: GetBufferAll_sql_def segs_text_def)
  ultimately show ?thesis using refused_plus by metis
qed

lemma GetBufferByPrefix_refused: "\<exists>x. Lex (GetBufferByPrefix_sql now sessionID versionID prefx) = Err x"
proof -
  let ?ss = "[Fixed ''
		SELECT key, value 
		FROM buffer_space 
		WHERE session_id = '', Number sessionID, Fixed '' 
		  AND version_id = '', Number versionID, Fixed ''
		  AND key LIKE '', Quoted (prefx @ ''%''), Fixed ''
		  AND rolled_back = 0
		  AND (created_at '']"
  have "chain ?ss" by code_simp
  moreover have "\<exists>t. GetBufferByPrefix_sql now sessionID versionID prefx = segs_text ?ss @ CHR ''+'' # t"
    by (simp add: GetBufferByPrefix_sql_def quoted_def apostrophe_def segs_text_def escapeSQL_append)
       (simp add: escapeSQL_def apostrophe_def is_newline_def code_def)
  ultimately show ?thesis using refused_plus by metis
qed

lemma sql_rows_refused:
  assumes "\<exists>x. Lex sql = Err x"
  shows "\<exists>x. sql_rows cl sql e = (Ok (Some (error_result x)), e)"
  using assms refused_no_effect no_effect_rows by blast

text \<open>C39: The buffer never gives anything back: whatever was stored in it, GetBuffer finds no value for any key,
  and GetBufferKeys, GetBufferAll and GetBufferByPrefix return nothing. Their queries compare
  created_at + ttl with the time, and the lexer knows no plus sign; the error result counts as no rows.\<close>

theorem buffer_never_gives_anything_back:
  "GetBuffer cl now now2 sessionID versionID key e = (Ok ([], False), e)
    \<and> GetBufferKeys cl now sessionID versionID e = (Ok [], e)
    \<and> GetBufferAll cl now sessionID versionID e = (Ok [], e)
    \<and> GetBufferByPrefix cl now sessionID versionID prefx e = (Ok [], e)"
proof -
  obtain x1 where "sql_rows cl (GetBuffer_sql now sessionID versionID key) e = (Ok (Some (error_result x1)), e)"
    using sql_rows_refused [OF GetBuffer_refused] by blast
  moreover obtain x2 where "sql_rows cl (GetBufferKeys_sql now sessionID versionID) e = (Ok (Some (error_result x2)), e)"
    using sql_rows_refused [OF GetBufferKeys_refused] by blast
  moreover obtain x3 where "sql_rows cl (GetBufferAll_sql now sessionID versionID) e = (Ok (Some (error_result x3)), e)"
    using sql_rows_refused [OF GetBufferAll_refused] by blast
  moreover obtain x4 where "sql_rows cl (GetBufferByPrefix_sql now sessionID versionID prefx) e = (Ok (Some (error_result x4)), e)"
    using sql_rows_refused [OF GetBufferByPrefix_refused] by blast
  ultimately show ?thesis
    by (simp add: GetBuffer_def GetBufferKeys_def GetBufferAll_def GetBufferByPrefix_def and_then_def ret_def
        first_value_def parseStringList_def pair_map_def)
qed

section \<open>Thoughts and inferences\<close>

lemma AddThought_no_effect:
  assumes "ex_Tables e ''reasoning_space'' = None"
  shows "no_effect cl (AddThought_sql cl now rid sessionID versionID instructionID thoughtType content confidence) e"
proof -
  let ?f = "''
		INSERT INTO reasoning_space (id, session_id, version_id, instruction_id, thought_type, content, confidence, created_at)
		VALUES (''"
  have f: "fixed_text ?f" by code_simp
  have h: "insert_head (fixed_tokens ?f) = Some ''reasoning_space''" by code_simp
  have "\<exists>t. AddThought_sql cl now rid sessionID versionID instructionID thoughtType content confidence = ?f @ t"
    by (simp add: AddThought_sql_def)
  then show ?thesis using insert_missing_no_effect [OF f h assms] by metis
qed

lemma AddInference_no_effect:
  assumes "ex_Tables e ''inference_space'' = None"
  shows "no_effect cl (AddInference_sql cl now rid sessionID versionID conclusion confidence inferenceType source expiresAt) e"
proof -
  let ?f = "''
		INSERT INTO inference_space (id, session_id, version_id, conclusion, confidence, inference_type, source, created_at, expires_at)
		VALUES (''"
  have f: "fixed_text ?f" by code_simp
  have h: "insert_head (fixed_tokens ?f) = Some ''inference_space''" by code_simp
  have "\<exists>t. AddInference_sql cl now rid sessionID versionID conclusion confidence inferenceType source expiresAt = ?f @ t"
    by (simp add: AddInference_sql_def)
  then show ?thesis using insert_missing_no_effect [OF f h assms] by metis
qed

lemma SetBuffer_no_effect:
  assumes "ex_Tables e ''buffer_space'' = None"
  shows "no_effect cl (SetBuffer_sql now rid sessionID versionID key v ttl) e"
proof -
  let ?f = "''
		INSERT INTO buffer_space (id, session_id, version_id, key, value, ttl, created_at)
		VALUES (''"
  have f: "fixed_text ?f" by code_simp
  have h: "insert_head (fixed_tokens ?f) = Some ''buffer_space''" by code_simp
  have "\<exists>t. SetBuffer_sql now rid sessionID versionID key v ttl = ?f @ t"
    by (simp add: SetBuffer_sql_def)
  then show ?thesis using insert_missing_no_effect [OF f h assms] by metis
qed

lemma GetRecentThoughts_no_effect:
  assumes "ex_Tables e ''reasoning_space'' = None"
  shows "no_effect cl (GetRecentThoughts_sql sessionID versionID limit) e"
proof -
  let ?f = "''
		SELECT id, instruction_id, thought_type, content, confidence, created_at
		FROM reasoning_space 
		WHERE ''"
  have f: "fixed_text ?f" by code_simp
  have "map_option sf_Table (select_head (fixed_tokens ?f)) = Some ''reasoning_space''" by code_simp
  then obtain h where h: "select_head (fixed_tokens ?f) = Some h" "sf_Table h = ''reasoning_space''" by blast
  have "\<exists>t. GetRecentThoughts_sql sessionID versionID limit = ?f @ t"
    by (simp add: GetRecentThoughts_sql_def)
  then show ?thesis using select_missing_no_effect [OF f h(1)] h(2) assms by metis
qed

lemma GetActiveInferences_no_effect:
  assumes "ex_Tables e ''inference_space'' = None"
  shows "no_effect cl (GetActiveInferences_sql cl now sessionID versionID minConfidence) e"
proof -
  let ?f = "''
		SELECT id, conclusion, confidence, inference_type, source, created_at
		FROM inference_space 
		WHERE ''"
  have f: "fixed_text ?f" by code_simp
  have "map_option sf_Table (select_head (fixed_tokens ?f)) = Some ''inference_space''" by code_simp
  then obtain h where h: "select_head (fixed_tokens ?f) = Some h" "sf_Table h = ''inference_space''" by blast
  have "\<exists>t. GetActiveInferences_sql cl now sessionID versionID minConfidence = ?f @ t"
    by (simp add: GetActiveInferences_sql_def)
  then show ?thesis using select_missing_no_effect [OF f h(1)] h(2) assms by metis
qed

text \<open>REAL is not a column type, and key is a keyword: three of the tables are never created.\<close>

lemma memory_tables_created_1: "map created (take 4 memory_tables)
    = [Some (Some ''sessions''), Some (Some ''instruction_stack''), Some None, Some None]"
  by code_simp

lemma memory_tables_created_2: "map created (drop 4 memory_tables)
    = [Some None, Some (Some ''metaspace''), Some (Some ''version_memory''), Some (Some ''observations''),
       Some None, Some None, Some None, Some None]"
  by code_simp

lemma memory_tables_created: "map created memory_tables = map Some [Some ''sessions'', Some ''instruction_stack'', None, None,
    None, Some ''metaspace'', Some ''version_memory'', Some ''observations'', None, None, None, None]"
proof -
  have "map created memory_tables = map created (take 4 memory_tables) @ map created (drop 4 memory_tables)"
    by (simp only: append_take_drop_id map_append [symmetric])
  then show ?thesis by (simp only: memory_tables_created_1 memory_tables_created_2) simp
qed

lemma memory_tables_missing:
  "list_all (leaves_table ''reasoning_space'') memory_tables"
  "list_all (leaves_table ''inference_space'') memory_tables"
  "list_all (leaves_table ''buffer_space'') memory_tables"
  by (rule creates_leave [OF memory_tables_created], simp)+

lemma NewMemoryManager_tables:
  assumes "ex_Tables e ''reasoning_space'' = None" "ex_Tables e ''inference_space'' = None" "ex_Tables e ''buffer_space'' = None"
  shows "\<exists>e1. NewMemoryManager cl e = (Ok (), e1) \<and> ex_Tables e1 ''reasoning_space'' = None
    \<and> ex_Tables e1 ''inference_space'' = None \<and> ex_Tables e1 ''buffer_space'' = None"
  using memory_tables_missing [THEN run_creates, of cl e] assms by (auto simp: NewMemoryManager_def)

text \<open>Thoughts, inferences and buffer entries are lost: on a database without these tables NewMemoryManager
  succeeds without creating them (REAL is no column type, and a column is called key, a keyword).
  After that every AddThought, AddInference and SetBuffer reports success and changes nothing, and
  the queries find nothing.\<close>

theorem thoughts_and_inferences_are_lost:
  assumes "ex_Tables e ''reasoning_space'' = None" "ex_Tables e ''inference_space'' = None" "ex_Tables e ''buffer_space'' = None"
  shows "\<exists>e1. NewMemoryManager cl e = (Ok (), e1)
    \<and> AddThought cl now rid sessionID versionID instructionID thoughtType content confidence e1 = (Ok (), e1)
    \<and> AddInference cl now rid sessionID versionID conclusion confidence inferenceType source e1 = (Ok (), e1)
    \<and> SetBuffer cl now rid sessionID versionID key v ttl e1 = (Ok (), e1)
    \<and> GetRecentThoughts cl sessionID versionID limit e1 = (Ok [], e1)
    \<and> GetActiveInferences cl now sessionID versionID minConfidence e1 = (Ok [], e1)"
proof -
  obtain e1 where e1: "NewMemoryManager cl e = (Ok (), e1)" "ex_Tables e1 ''reasoning_space'' = None"
      "ex_Tables e1 ''inference_space'' = None" "ex_Tables e1 ''buffer_space'' = None"
    using NewMemoryManager_tables [OF assms] by blast
  have a: "AddThought cl now rid sessionID versionID instructionID thoughtType content confidence e1 = (Ok (), e1)"
    unfolding AddThought_def by (rule no_effect_do [OF AddThought_no_effect [OF e1(2)]])
  have b: "AddInference cl now rid sessionID versionID conclusion confidence inferenceType source e1 = (Ok (), e1)"
    unfolding AddInference_def Let_def by (rule no_effect_do [OF AddInference_no_effect [OF e1(3)]])
  have c: "SetBuffer cl now rid sessionID versionID key v ttl e1 = (Ok (), e1)"
    unfolding SetBuffer_def Let_def by (rule no_effect_do [OF SetBuffer_no_effect [OF e1(4)]])
  have d: "GetRecentThoughts cl sessionID versionID limit e1 = (Ok [], e1)"
  proof -
    let ?l = "if sint limit \<le> 0 then 10 else limit"
    obtain x where "sql_rows cl (GetRecentThoughts_sql sessionID versionID ?l) e1 = (Ok (Some (error_result x)), e1)"
      using no_effect_rows [OF GetRecentThoughts_no_effect [OF e1(2)]] by blast
    then show ?thesis by (simp add: GetRecentThoughts_def Let_def and_then_def ret_def parseThoughts_def)
  qed
  have f: "GetActiveInferences cl now sessionID versionID minConfidence e1 = (Ok [], e1)"
  proof -
    obtain x where "sql_rows cl (GetActiveInferences_sql cl now sessionID versionID minConfidence) e1 = (Ok (Some (error_result x)), e1)"
      using no_effect_rows [OF GetActiveInferences_no_effect [OF e1(3)]] by blast
    then show ?thesis by (simp add: GetActiveInferences_def and_then_def ret_def parseInferences_def)
  qed
  show ?thesis using e1(1) a b c d f by blast
qed

theorem thoughts_and_inferences_are_lost_witness:
  "\<forall>cl. \<exists>e1. NewMemoryManager cl demo_exec = (Ok (), e1)
    \<and> AddThought cl 100 7 1 1 5 ''hypothesis'' ''it rains'' 0 e1 = (Ok (), e1)
    \<and> SetBuffer cl 100 7 1 1 ''key'' ''value'' 60 e1 = (Ok (), e1)
    \<and> GetRecentThoughts cl 1 1 10 e1 = (Ok [], e1)"
proof
  fix cl
  have t: "ex_Tables demo_exec ''reasoning_space'' = None" "ex_Tables demo_exec ''inference_space'' = None"
    "ex_Tables demo_exec ''buffer_space'' = None" by simp_all
  have "\<exists>e1. NewMemoryManager cl demo_exec = (Ok (), e1)
    \<and> AddThought cl 100 7 1 1 5 ''hypothesis'' ''it rains'' 0 e1 = (Ok (), e1)
    \<and> AddInference cl 100 7 1 1 ''wet'' 0 ''fact'' ''eyes'' e1 = (Ok (), e1)
    \<and> SetBuffer cl 100 7 1 1 ''key'' ''value'' 60 e1 = (Ok (), e1)
    \<and> GetRecentThoughts cl 1 1 10 e1 = (Ok [], e1)
    \<and> GetActiveInferences cl 100 1 1 0 e1 = (Ok [], e1)"
    by (rule thoughts_and_inferences_are_lost [OF t])
  then show "\<exists>e1. NewMemoryManager cl demo_exec = (Ok (), e1)
    \<and> AddThought cl 100 7 1 1 5 ''hypothesis'' ''it rains'' 0 e1 = (Ok (), e1)
    \<and> SetBuffer cl 100 7 1 1 ''key'' ''value'' 60 e1 = (Ok (), e1)
    \<and> GetRecentThoughts cl 1 1 10 e1 = (Ok [], e1)" by blast
qed

end
