(* ===== verification/StackProps.thy ===== *)
theory StackProps imports Memory ClientTables ExecDemo begin

text \<open>
  The instruction stack under the random 64-bit identifiers of its entries: the identifier column is
  32 bits wide and the lexer knows no negative numbers.
\<close>

definition pop_segments :: "bool \<Rightarrow> i64 \<Rightarrow> i64 \<Rightarrow> segment list" where
  "pop_segments success now iid = [Fixed (if success then ''
		UPDATE instruction_stack SET status = 'completed', completed_at = ''
       else ''
		UPDATE instruction_stack SET status = 'failed', completed_at = ''),
     Number now, Fixed ''
		WHERE id = '', Number iid, Fixed ''
	'']"

lemma pop_text: "segs_text (pop_segments success now iid)
    = PopInstruction_sql (if \<not> success then ''failed'' else ''completed'') now iid"
  by (cases success) (simp_all add: pop_segments_def segs_text_def PopInstruction_sql_def)

lemma pop_chain: "chain (pop_segments success now iid)"
  by (cases success; simp only: pop_segments_def if_True if_False; code_simp)

definition pop_stmt :: "bool \<Rightarrow> i64 \<Rightarrow> i64 \<Rightarrow> UpdateStatement" where
  "pop_stmt success now iid = \<lparr>upd_Table = ''instruction_stack'',
     upd_Updates = [\<lparr>up_Column = ''status'', up_Value = Literal (if success then ''completed'' else ''failed'')\<rparr>,
       \<lparr>up_Column = ''completed_at'', up_Value = Literal (dec now)\<rparr>],
     upd_Condition = Some \<lparr>bo_Left = Identifier ''id'', bo_Operator = ''='', bo_Right = Literal (dec iid)\<rparr>\<rparr>"

lemma pop_parse:
  "Parse_tokens (segs_tokens (pop_segments success now iid)) = Ok (UpdateStmt (pop_stmt success now iid), [])"
proof -
  have f: "fixed_tokens (if success then ''
		UPDATE instruction_stack SET status = 'completed', completed_at = ''
       else ''
		UPDATE instruction_stack SET status = 'failed', completed_at = '')
    = [kw ''UPDATE'', idt ''instruction_stack'', kw ''SET'', idt ''status'', tok TokenOperator ''='',
       tok TokenString (if success then ''completed'' else ''failed''), punct '','', idt ''completed_at'', tok TokenOperator ''='']"
    by (cases success; simp only: if_True if_False; code_simp)
  have g: "fixed_tokens ''
		WHERE id = '' = [kw ''WHERE'', idt ''id'', tok TokenOperator ''='']" "fixed_tokens ''
	'' = []" by code_simp+
  show ?thesis
    by (simp add: segs_tokens_def pop_segments_def f g pop_stmt_def Parse_tokens_def parseUpdate_def
        update_pairs.simps update_pair_def want_def ident_def parseExpression_def parseWhere_def parseCondition_def)
qed

text \<open>A finished instruction stays on the stack: PopInstruction reports success and changes no row when the
  identifier is negative or at least 2^31, as all but one in 2^33 of the random 64-bit identifiers
  are. The column INT holds 32 bits, and a negative number is refused by the lexer.\<close>

theorem popped_instruction_stays:
  assumes "settled e" "ex_Tables e ''instruction_stack'' = Some h"
    "findColumnIndex (hf_Schema h) ''id'' = Some k" "col_ColType (sch_Columns (hf_Schema h) ! k) = TypeInt"
    "sint iid < 0 \<or> 2 ^ 31 \<le> sint iid"
  shows "\<exists>e'. PopInstruction cl now iid success e = (Ok (), e') \<and> same_tables e e'"
proof -
  let ?sql = "segs_text (pop_segments success now iid)"
  have pop: "PopInstruction cl now iid success e = sql_do cl ?sql e"
    by (simp add: PopInstruction_def pop_text)
  have "\<exists>e'. sql_do cl ?sql e = (Ok (), e') \<and> same_tables e e'"
    using chain_Lex [OF pop_chain [of success now iid]]
  proof (elim disjE exE)
    fix x assume "Lex ?sql = Err x"
    then show ?thesis using no_effect_same_tables [OF refused_no_effect assms(1)] by blast
  next
    assume l: "Lex ?sql = Ok (segs_tokens (pop_segments success now iid))"
    then have p: "Parse ?sql = Ok (UpdateStmt (pop_stmt success now iid))" by (simp add: Parse_def pop_parse)
    show ?thesis
    proof (cases "sint iid < 0")
      case True
      let ?ss = "take 3 (pop_segments success now iid)"
      have "chain ?ss" using pop_chain [of success now iid] by (simp add: pop_segments_def numeral_3_eq_3)
      moreover have "?sql = segs_text ?ss @ dec iid @ seg_text (last (pop_segments success now iid))"
        by (simp add: pop_segments_def numeral_3_eq_3 segs_text_def)
      ultimately obtain x where "Lex ?sql = Err x" using refused_negative [OF _ True] by metis
      then show ?thesis using l by simp
    next
      case False
      then have "filterRows (env_fl (cl_en cl)) (table_rows h e) (hf_Schema h)
          \<lparr>bo_Left = Identifier ''id'', bo_Operator = ''='', bo_Right = Literal (dec iid)\<rparr> = []"
        using assms(5) by (intro condition_big_number [OF _ _ _ assms(3,4)]) simp_all
      then have "matching_rows (cl_en cl) (hf_Schema h) (upd_Condition (pop_stmt success now iid)) (table_rows h e) = []"
        by (simp add: matching_rows_def pop_stmt_def)
      moreover have "ex_Tables e (upd_Table (pop_stmt success now iid)) = Some h" using assms(2) by (simp add: pop_stmt_def)
      ultimately show ?thesis using update_nothing [OF assms(1) p] by blast
    qed
  qed
  then show ?thesis using pop by simp
qed

definition stack_exec :: Executor where
  "stack_exec = demo_exec\<lparr>ex_Tables := [''instruction_stack'' \<mapsto> NewHeapFile (key_schema\<lparr>sch_Name := ''instruction_stack''\<rparr>)]\<rparr>"

lemma stack_settled: "settled stack_exec"
  using demo_settled by (simp add: settled_def stack_exec_def NewHeapFile_def)

theorem popped_instruction_stays_witness:
  "\<forall>cl. \<exists>e'. PopInstruction cl 100 (2 ^ 40) True stack_exec = (Ok (), e') \<and> same_tables stack_exec e'"
proof
  fix cl
  let ?h = "NewHeapFile (key_schema\<lparr>sch_Name := ''instruction_stack''\<rparr>)"
  have "ex_Tables stack_exec ''instruction_stack'' = Some ?h" by (simp add: stack_exec_def)
  moreover have "findColumnIndex (hf_Schema ?h) ''id'' = Some 0" by code_simp
  moreover have "col_ColType (sch_Columns (hf_Schema ?h) ! 0) = TypeInt" by (simp add: NewHeapFile_def)
  moreover have "sint (2 ^ 40 :: i64) < 0 \<or> 2 ^ 31 \<le> sint (2 ^ 40 :: i64)" by simp
  ultimately show "\<exists>e'. PopInstruction cl 100 (2 ^ 40) True stack_exec = (Ok (), e') \<and> same_tables stack_exec e'"
    by (rule popped_instruction_stays [OF stack_settled])
qed

section \<open>Pushing\<close>

lemma push_refused:
  assumes "sint rid < 0"
  shows "\<exists>x. Lex (push_sql rid sessionID versionID parentID content depth now) = Err x"
proof -
  let ?f = "''
		INSERT INTO instruction_stack (id, session_id, version_id, parent_id, content, depth, created_at)
		VALUES (''"
  have "chain [Fixed ?f]" by code_simp
  moreover have "\<exists>t. push_sql rid sessionID versionID parentID content depth now = segs_text [Fixed ?f] @ dec rid @ t"
    by (simp add: push_sql_def segs_text_def)
  ultimately show ?thesis using refused_negative [OF _ assms] by metis
qed

text \<open>Half of the pushed instructions are lost: with a negative random identifier PushInstruction commits its
  transaction and returns the identifier, but no table has changed: the INSERT is refused inside
  Commit, which drops the error.\<close>

theorem pushed_instruction_is_lost:
  assumes "settled e" "\<not> ex_inTransaction e" "sint parentID \<le> 0" "sint rid < 0"
  shows "\<exists>e'. PushInstruction cl now rid sessionID versionID content parentID e = (Ok rid, e')
    \<and> ex_Tables e' = ex_Tables e \<and> (\<forall>h. table_rows h e' = table_rows h e)"
proof -
  let ?sql = "push_sql rid sessionID versionID parentID content 0 now"
  let ?e1 = "e\<lparr>ex_inTransaction := True, ex_txResults := [], ex_txQueries := [?sql]\<rparr>"
  obtain x where "Lex ?sql = Err x" using push_refused [OF assms(4)] by blast
  then have ex: "Execute (cl_en cl) ?sql ?e1 = (Ok (error_result (ParseFailed x)), ?e1)"
    by (simp add: Execute_def Parse_def fail_def)
  have hs: "heap_store (ex_store e)" using assms(1) by (simp add: settled_def)
  obtain st where st: "BufferPool_FlushAll (ex_store e) = (Ok (), st)" "kept (ex_store e) st"
    using FlushAll_kept [OF hs] by (cases "BufferPool_FlushAll (ex_store e)") auto
  have c: "Commit (cl_en cl) ?e1 = (Ok (), ?e1\<lparr>ex_txResults := [error_result (ParseFailed x)], ex_store := st,
      ex_inTransaction := False, ex_txQueries := []\<rparr>)"
    using ex st(1) by (simp add: Commit_def on_store_def)
  have "heap_rows t st = heap_rows t (ex_store e)" for t using kept_rows [OF hs st(2)] by blast
  then show ?thesis using c assms(2,3)
    by (simp add: PushInstruction_def and_then_def in_tx_def BeginTransaction_def instruction_depth_def ret_def
        or_rollback_def ExecuteInTx_def table_rows_def)
qed

theorem pushed_instruction_is_lost_witness:
  "\<forall>cl. \<exists>e'. PushInstruction cl 100 (-5) 1 1 ''plan'' 0 demo_exec = (Ok (-5), e')
    \<and> ex_Tables e' = ex_Tables demo_exec \<and> (\<forall>h. table_rows h e' = table_rows h demo_exec)"
proof
  fix cl
  have "\<not> ex_inTransaction demo_exec" "sint (0 :: i64) \<le> 0" "sint (-5 :: i64) < 0" by simp_all
  then show "\<exists>e'. PushInstruction cl 100 (-5) 1 1 ''plan'' 0 demo_exec = (Ok (-5), e')
    \<and> ex_Tables e' = ex_Tables demo_exec \<and> (\<forall>h. table_rows h e' = table_rows h demo_exec)"
    by (rule pushed_instruction_is_lost [OF demo_settled])
qed

end
