(* ===== verification/LlmContext.thy ===== *)
theory LlmContext imports Memory begin

text \<open>
  \<^verbatim>\<open>pkg/context/llm_engine.go\<close>: the text given to the language model, gathered from the memory,
  ordered by weight and cut to a budget of tokens. Weights are float64 values given by their bits.
\<close>

record ContextChunk =
  ch_Type :: string
  ch_Content :: string
  ch_Weight :: u64
  ch_TokenEstimate :: i64

text \<open>The constants 1.0, 0.8, 0.7, 0.5 and 0.3 as float64.\<close>

definition f64_1_0 :: u64 where "f64_1_0 = 0x3FF0000000000000"
definition f64_0_8 :: u64 where "f64_0_8 = 0x3FE999999999999A"
definition f64_0_7 :: u64 where "f64_0_7 = 0x3FE6666666666666"
definition f64_0_5 :: u64 where "f64_0_5 = 0x3FE0000000000000"
definition f64_0_3 :: u64 where "f64_0_3 = 0x3FD3333333333333"

text \<open>\<^verbatim>\<open>len(s) / 4\<close>\<close>

definition token_estimate :: "string \<Rightarrow> i64" where
  "token_estimate s = word_of_nat (length s div 4)"

definition instruction_chunk :: "Instruction \<Rightarrow> ContextChunk" where
  "instruction_chunk inst = \<lparr>ch_Type = ''instruction'', ch_Content = inst_Content inst,
     ch_Weight = f64_1_0, ch_TokenEstimate = token_estimate (inst_Content inst)\<rparr>"

definition inference_chunk :: "Inference \<Rightarrow> ContextChunk" where
  "inference_chunk i = \<lparr>ch_Type = ''inference'', ch_Content = inf_Conclusion i,
     ch_Weight = inf_Confidence i, ch_TokenEstimate = token_estimate (inf_Conclusion i)\<rparr>"

definition thought_chunk :: "Thought \<Rightarrow> ContextChunk" where
  "thought_chunk t = \<lparr>ch_Type = ''thought'', ch_Content = th_Content t,
     ch_Weight = (if th_Type t = ''decision'' then f64_0_8 else f64_0_5),
     ch_TokenEstimate = token_estimate (th_Content t)\<rparr>"

definition buffer_chunk :: "string list \<Rightarrow> ContextChunk" where
  "buffer_chunk keys = \<lparr>ch_Type = ''buffer'',
     ch_Content = utf8 [208, 148, 208, 190, 209, 129, 209, 130, 209, 131, 208, 191, 208, 189, 209, 139, 208, 181, 32, 208, 180, 208, 176, 208, 189, 208, 189, 209, 139, 208, 181, 58, 32] @ Join keys '', '',
     ch_Weight = f64_0_3, ch_TokenEstimate = word_of_nat (length keys) * 2\<rparr>"

definition gatherChunks :: "client_env \<Rightarrow> i64 \<Rightarrow> i64 \<Rightarrow> i64 \<Rightarrow> i64 \<Rightarrow> ContextChunk list act" where
  "gatherChunks cl now now2 sessionID versionID =
     and_then (GetCurrentStack cl sessionID versionID) (\<lambda>instructions.
     and_then (GetActiveInferences cl now sessionID versionID f64_0_7) (\<lambda>inferences.
     and_then (GetRecentThoughts cl sessionID versionID 10) (\<lambda>thoughts.
     and_then (GetBufferKeys cl now2 sessionID versionID) (\<lambda>bufferKeys.
       ret (map instruction_chunk instructions @ map inference_chunk inferences @ map thought_chunk thoughts
            @ (if bufferKeys \<noteq> [] then [buffer_chunk bufferKeys] else []))))))"

text \<open>
  The two nested loops of \<^verbatim>\<open>sortByWeight\<close>. One round of the inner loop compares the chunk at the
  front with each later one and swaps when the front is lighter.
\<close>

fun settle_front :: "flt \<Rightarrow> ContextChunk \<Rightarrow> ContextChunk list \<Rightarrow> ContextChunk \<times> ContextChunk list" where
  "settle_front fl x [] = (x, [])"
| "settle_front fl x (y # ys) =
     (if f_less fl (ch_Weight x) (ch_Weight y)
      then (case settle_front fl y ys of (m, zs) \<Rightarrow> (m, x # zs))
      else (case settle_front fl x ys of (m, zs) \<Rightarrow> (m, y # zs)))"

lemma settle_front_length [simp]: "length (snd (settle_front fl x ys)) = length ys"
  by (induction fl x ys rule: settle_front.induct) (auto split: prod.splits)

function sortByWeight :: "flt \<Rightarrow> ContextChunk list \<Rightarrow> ContextChunk list" where
  "sortByWeight fl [] = []"
| "sortByWeight fl (x # ys) =
     fst (settle_front fl x ys) # sortByWeight fl (snd (settle_front fl x ys))"
  by pat_completeness auto
termination
  by (relation "measure (\<lambda>(_, xs). length xs)") auto

text \<open>A slice expression out of bounds panics; \<^verbatim>\<open>maxTokens * 4\<close> wraps.\<close>

definition truncateToFit :: "string \<Rightarrow> i64 \<Rightarrow> (client_err, string) outcome" where
  "truncateToFit content maxTokens =
     (let maxChars = maxTokens * 4 in
      if int (length content) \<le> sint maxChars then Ok content
      else let n = sint (maxChars - 3) in
        if 0 \<le> n \<and> n \<le> int (length content) then Ok (take (nat n) content @ ''...'') else Panic)"

fun compress :: "i64 \<Rightarrow> i64 \<Rightarrow> ContextChunk list \<Rightarrow> (client_err, ContextChunk list) outcome" where
  "compress maxTokens totalTokens [] = Ok []"
| "compress maxTokens totalTokens (chunk # chunks) =
     (if sint (totalTokens + ch_TokenEstimate chunk) \<le> sint maxTokens then
        bind_out (compress maxTokens (totalTokens + ch_TokenEstimate chunk) chunks) (\<lambda>rest. Ok (chunk # rest))
      else if ch_Type chunk = ''instruction'' then
        bind_out (truncateToFit (ch_Content chunk) (maxTokens - totalTokens)) (\<lambda>truncated.
          Ok [\<lparr>ch_Type = ch_Type chunk, ch_Content = truncated, ch_Weight = ch_Weight chunk,
               ch_TokenEstimate = maxTokens - totalTokens\<rparr>])
      else compress maxTokens totalTokens chunks)"

definition format_chunk :: "ContextChunk \<Rightarrow> string" where
  "format_chunk chunk =
     (let head = (if ch_Type chunk = ''instruction'' then Some (utf8 [61, 61, 61, 32, 240, 159, 142, 175, 32, 208, 152, 208, 157, 208, 161, 208, 162, 208, 160, 208, 163, 208, 154, 208, 166, 208, 152, 208, 175, 32, 61, 61, 61, 10])
           else if ch_Type chunk = ''inference'' then Some (utf8 [61, 61, 61, 32, 226, 156, 133, 32, 208, 146, 208, 171, 208, 146, 208, 158, 208, 148, 32, 61, 61, 61, 10])
           else if ch_Type chunk = ''thought'' then Some (utf8 [61, 61, 61, 32, 240, 159, 146, 173, 32, 208, 156, 208, 171, 208, 161, 208, 155, 208, 172, 32, 61, 61, 61, 10])
           else if ch_Type chunk = ''buffer'' then Some (utf8 [61, 61, 61, 32, 240, 159, 147, 166, 32, 208, 148, 208, 158, 208, 161, 208, 162, 208, 163, 208, 159, 208, 157, 208, 171, 208, 149, 32, 208, 148, 208, 144, 208, 157, 208, 157, 208, 171, 208, 149, 32, 61, 61, 61, 10])
           else None)
      in case head of None \<Rightarrow> [] | Some h \<Rightarrow> h @ ch_Content chunk @ utf8 [10, 10])"

definition format_chunks :: "ContextChunk list \<Rightarrow> string" where
  "format_chunks chunks = concat (map format_chunk chunks)"

definition BuildContextForLLM :: "client_env \<Rightarrow> i64 \<Rightarrow> i64 \<Rightarrow> i64 \<Rightarrow> i64 \<Rightarrow> i64 \<Rightarrow> string act" where
  "BuildContextForLLM cl now now2 sessionID versionID maxTokens =
     and_then (gatherChunks cl now now2 sessionID versionID) (\<lambda>chunks e.
       (bind_out (compress maxTokens 0 (sortByWeight (env_fl (cl_en cl)) chunks)) (\<lambda>cs. Ok (format_chunks cs)), e))"

end
