(* ===== verification/ContextProps.thy ===== *)
theory ContextProps imports LlmContext Examples begin

text \<open>
  The instruction tree, and the context built for the language model: ordering by weight and the
  budget of tokens.
\<close>

section \<open>The instruction tree\<close>

text \<open>An instruction below the identifier \<open>p\<close>: its chain of parents reaches \<open>p\<close>.\<close>

inductive descends :: "Instruction list \<Rightarrow> i64 \<Rightarrow> Instruction \<Rightarrow> bool" for insts where
  child: "i \<in> set insts \<Longrightarrow> inst_ParentID i = p \<Longrightarrow> descends insts p i"
| deeper: "descends insts p i \<Longrightarrow> j \<in> set insts \<Longrightarrow> inst_ParentID j = inst_ID i \<Longrightarrow> descends insts p j"

definition parent_cycle :: "Instruction list \<Rightarrow> i64 \<Rightarrow> bool" where
  "parent_cycle insts p \<longleftrightarrow> (\<exists>i. descends insts p i \<and> descends insts (inst_ID i) i)"

fun tree_root :: "InstructionNode \<Rightarrow> Instruction" where
  "tree_root (InstructionNode i cs) = i"

fun tree_instructions :: "InstructionNode \<Rightarrow> Instruction list" where
  "tree_instructions (InstructionNode i cs) = i # concat (map tree_instructions cs)"

text \<open>Every node has exactly the instructions that name it as their parent below it, in their order.\<close>

fun well_hung :: "Instruction list \<Rightarrow> InstructionNode \<Rightarrow> bool" where
  "well_hung insts (InstructionNode i cs) \<longleftrightarrow>
     map tree_root cs = filter (\<lambda>j. inst_ParentID j = inst_ID i) insts \<and> list_all (well_hung insts) cs"

text \<open>A path of the recursion.\<close>

fun linked :: "Instruction list \<Rightarrow> i64 \<Rightarrow> Instruction list \<Rightarrow> bool" where
  "linked insts p [] = True"
| "linked insts p (i # c) \<longleftrightarrow> i \<in> set insts \<and> inst_ParentID i = p \<and> linked insts (inst_ID i) c"

definition last_id :: "i64 \<Rightarrow> Instruction list \<Rightarrow> i64" where
  "last_id p c = (if c = [] then p else inst_ID (last c))"

lemma linked_append: "linked insts p (c @ d) \<longleftrightarrow> linked insts p c \<and> linked insts (last_id p c) d"
  by (induction c arbitrary: p) (auto simp: last_id_def)

lemma linked_subset: "linked insts p c \<Longrightarrow> set c \<subseteq> set insts"
  by (induction c arbitrary: p) auto

lemma descends_linked: "descends insts p i \<longleftrightarrow> (\<exists>c. linked insts p (c @ [i]))"
proof
  assume "descends insts p i"
  then show "\<exists>c. linked insts p (c @ [i])"
  proof induction
    case (child i p)
    then have "linked insts p ([] @ [i])" by simp
    then show ?case by blast
  next
    case (deeper p i j)
    then obtain c where "linked insts p (c @ [i])" by blast
    then have "linked insts p ((c @ [i]) @ [j])" using deeper by (simp add: linked_append last_id_def)
    then show ?case by blast
  qed
next
  have "linked insts p (c @ [i]) \<Longrightarrow> descends insts p i" for c
  proof (induction c arbitrary: i rule: rev_induct)
    case Nil
    then show ?case by (simp add: descends.child)
  next
    case (snoc j c)
    then have "linked insts p (c @ [j])" "i \<in> set insts" "inst_ParentID i = inst_ID j"
      by (simp_all add: linked_append last_id_def)
    then show ?case using snoc.IH descends.deeper by blast
  qed
  then show "\<exists>c. linked insts p (c @ [i]) \<Longrightarrow> descends insts p i" by blast
qed

text \<open>The recursion either gives a tree or goes on for ever, and it goes \<open>n\<close> steps deep along a path of length \<open>n\<close>.\<close>

lemma traverse_cases:
  assumes "\<And>x. x \<in> set xs \<Longrightarrow> f x = Hang \<or> (\<exists>y. f x = Ok y)"
  shows "(traverse f xs = Hang \<longleftrightarrow> (\<exists>x \<in> set xs. f x = Hang)) \<and> (traverse f xs = Hang \<or> (\<exists>ys. traverse f xs = Ok ys))"
  using assms
proof (induction xs)
  case (Cons x xs)
  have x: "f x = Hang \<or> (\<exists>y. f x = Ok y)" using Cons.prems by simp
  have "(traverse f xs = Hang \<longleftrightarrow> (\<exists>x \<in> set xs. f x = Hang)) \<and> (traverse f xs = Hang \<or> (\<exists>ys. traverse f xs = Ok ys))"
    by (rule Cons.IH) (simp add: Cons.prems)
  then show ?case using x by auto
qed simp

lemma traverse_Ok: "traverse f xs = Ok ys \<longleftrightarrow> list_all2 (\<lambda>x y. f x = Ok y) xs ys"
  by (induction xs arbitrary: ys) (auto simp: bind_out_Ok_iff list_all2_Cons1)

lemma build_cases:
  "(buildInstructionTree n insts p = Hang \<longleftrightarrow> (\<exists>c. length c = n \<and> linked insts p c))
    \<and> (buildInstructionTree n insts p = Hang \<or> (\<exists>ts. buildInstructionTree n insts p = Ok ts))"
proof (induction n arbitrary: p)
  case (Suc n)
  let ?f = "\<lambda>inst. bind_out (buildInstructionTree n insts (inst_ID inst)) (\<lambda>children. Ok (InstructionNode inst children))"
  have f: "?f x = Hang \<longleftrightarrow> buildInstructionTree n insts (inst_ID x) = Hang" "?f x = Hang \<or> (\<exists>y. ?f x = Ok y)" for x
    using Suc.IH [of "inst_ID x"] by auto
  let ?xs = "filter (\<lambda>inst. inst_ParentID inst = p) insts"
  have "(\<exists>x \<in> set ?xs. ?f x = Hang) \<longleftrightarrow> (\<exists>x \<in> set ?xs. \<exists>c. length c = n \<and> linked insts (inst_ID x) c)"
    unfolding f(1) using Suc.IH by blast
  also have "\<dots> \<longleftrightarrow> (\<exists>c. length c = Suc n \<and> linked insts p c)"
  proof
    assume "\<exists>x \<in> set ?xs. \<exists>c. length c = n \<and> linked insts (inst_ID x) c"
    then obtain x c where "x \<in> set ?xs" "length c = n" "linked insts (inst_ID x) c" by blast
    then have "length (x # c) = Suc n \<and> linked insts p (x # c)" by simp
    then show "\<exists>c. length c = Suc n \<and> linked insts p c" by blast
  next
    assume "\<exists>c. length c = Suc n \<and> linked insts p c"
    then obtain x c where "length c = n" "linked insts p (x # c)" by (auto simp: length_Suc_conv)
    then show "\<exists>x \<in> set ?xs. \<exists>c. length c = n \<and> linked insts (inst_ID x) c" by auto
  qed
  finally have fin: "(\<exists>x \<in> set ?xs. ?f x = Hang) \<longleftrightarrow> (\<exists>c. length c = Suc n \<and> linked insts p c)" .
  show ?case unfolding buildInstructionTree.simps using traverse_cases [of ?xs ?f, OF f(2)] fin by blast
qed simp

lemma build_shape:
  "buildInstructionTree n insts p = Ok ts \<Longrightarrow>
     map tree_root ts = filter (\<lambda>j. inst_ParentID j = p) insts \<and> list_all (well_hung insts) ts
     \<and> set (concat (map tree_instructions ts)) = {i. descends insts p i}"
proof (induction n arbitrary: p ts)
  case (Suc n)
  let ?xs = "filter (\<lambda>inst. inst_ParentID inst = p) insts"
  let ?f = "\<lambda>inst. bind_out (buildInstructionTree n insts (inst_ID inst)) (\<lambda>children. Ok (InstructionNode inst children))"
  have all: "list_all2 (\<lambda>x y. ?f x = Ok y) ?xs ts" using Suc.prems by (simp add: traverse_Ok)
  have node: "tree_root y = x \<and> well_hung insts y
      \<and> set (tree_instructions y) = insert x {i. descends insts (inst_ID x) i}" if f: "?f x = Ok y" for x y
  proof -
    obtain cs where "buildInstructionTree n insts (inst_ID x) = Ok cs" "y = InstructionNode x cs"
      using f by (auto simp: bind_out_Ok_iff)
    then show ?thesis using Suc.IH [of "inst_ID x" cs] by auto
  qed
  have roots: "map tree_root ts = ?xs \<and> list_all (well_hung insts) ts
      \<and> set (concat (map tree_instructions ts)) = (\<Union>x \<in> set ?xs. insert x {i. descends insts (inst_ID x) i})"
    using all by (induction rule: list_all2_induct) (use node in auto)
  have desc: "descends insts p i \<longleftrightarrow> (\<exists>x \<in> set ?xs. i = x \<or> descends insts (inst_ID x) i)" for i
  proof -
    have "(\<exists>c. linked insts p (c @ [i])) \<longleftrightarrow> (\<exists>x \<in> set ?xs. i = x \<or> (\<exists>c. linked insts (inst_ID x) (c @ [i])))"
      (is "?l \<longleftrightarrow> ?r")
    proof
      assume ?l
      then obtain c where c: "linked insts p (c @ [i])" by blast
      show ?r using c by (cases c) auto
    next
      assume ?r
      then obtain x where x: "x \<in> set ?xs" "i = x \<or> (\<exists>c. linked insts (inst_ID x) (c @ [i]))" by blast
      then have "linked insts p ([] @ [i]) \<or> (\<exists>c. linked insts p ((x # c) @ [i]))" by auto
      then show ?l by blast
    qed
    then show ?thesis by (simp only: descends_linked)
  qed
  show ?case using roots desc by auto
qed simp

text \<open>A path longer than the list of instructions repeats one: it has gone round a cycle.\<close>

lemma linked_take: "linked insts p c \<Longrightarrow> linked insts p (take n c)"
  using linked_append [of insts p "take n c" "drop n c"] by simp

lemma long_path_cycle:
  assumes "linked insts p c" "length insts < length c"
  shows "parent_cycle insts p"
proof -
  have "card (set c) \<le> length insts"
    using card_mono [OF finite_set linked_subset [OF assms(1)]] card_length [of insts] by linarith
  then have "\<not> distinct c" using assms(2) distinct_card [of c] by auto
  then obtain a x b d where c: "c = a @ [x] @ b @ [x] @ d" using not_distinct_decomp by blast
  have "linked insts p ((a @ [x]) @ (b @ [x]) @ d)" using assms(1) c by simp
  then have "linked insts p (a @ [x])" "linked insts (last_id p (a @ [x])) ((b @ [x]) @ d)"
    unfolding linked_append [of insts p "a @ [x]"] by blast+
  then have "linked insts p (a @ [x])" "linked insts (inst_ID x) (b @ [x])"
    unfolding linked_append [of insts _ "b @ [x]"] by (simp_all add: last_id_def)
  then show ?thesis unfolding parent_cycle_def descends_linked by blast
qed

lemma cycle_long_path:
  assumes "parent_cycle insts p"
  shows "\<exists>c. length c = n \<and> linked insts p c"
proof -
  obtain i a b where a: "linked insts p (a @ [i])" and b: "linked insts (inst_ID i) (b @ [i])"
    using assms by (auto simp: parent_cycle_def descends_linked)
  have r: "linked insts (inst_ID i) (concat (replicate k (b @ [i])))
      \<and> last_id (inst_ID i) (concat (replicate k (b @ [i]))) = inst_ID i" for k
  proof (induction k)
    case (Suc k)
    have "last_id (inst_ID i) (b @ [i]) = inst_ID i" by (simp add: last_id_def)
    moreover have "last_id q (u @ v) = last_id (last_id q u) v" for q u v by (simp add: last_id_def)
    ultimately show ?case using Suc b by (simp only: replicate_Suc concat.simps linked_append)
  qed (simp add: last_id_def)
  let ?c = "(a @ [i]) @ concat (replicate n (b @ [i]))"
  have "linked insts p ?c" using a r [of n] unfolding linked_append by (simp add: last_id_def)
  then have "linked insts p (take n ?c)" by (rule linked_take)
  moreover have "length (take n ?c) = n" by (simp add: length_concat sum_list_replicate)
  ultimately show ?thesis by blast
qed

text \<open>C31: GetInstructionTree shows every instruction below the root: unless the parents form a cycle, the
  recursion ends (within one more level than there are instructions) and gives a forest that holds
  exactly the instructions whose chain of parents reaches the root, each node above exactly the
  instructions that name it as their parent. With a cycle below the root, in particular with an
  instruction whose identifier is 0 and that has no parent, it never returns.\<close>

theorem instruction_tree_is_complete:
  "case buildInstructionTree (length insts + 1) insts p of
     Ok ts \<Rightarrow> \<not> parent_cycle insts p \<and> set (concat (map tree_instructions ts)) = {i. descends insts p i}
       \<and> map tree_root ts = filter (\<lambda>i. inst_ParentID i = p) insts \<and> list_all (well_hung insts) ts
   | Hang \<Rightarrow> parent_cycle insts p \<and> (\<forall>fuel. buildInstructionTree fuel insts p = Hang)
   | _ \<Rightarrow> False"
proof (cases "buildInstructionTree (length insts + 1) insts p = Hang")
  case True
  then obtain c where c: "length c = length insts + 1" "linked insts p c"
    using build_cases [of "length insts + 1" insts p] by blast
  then have "parent_cycle insts p" using long_path_cycle [of insts p c] by simp
  moreover have "buildInstructionTree n insts p = Hang" for n
    using cycle_long_path [OF calculation, of n] build_cases [of n insts p] by blast
  ultimately show ?thesis using True by simp
next
  case False
  then obtain ts where ts: "buildInstructionTree (length insts + 1) insts p = Ok ts"
    using build_cases [of "length insts + 1" insts p] by blast
  have "\<not> parent_cycle insts p"
    using cycle_long_path [of insts p "length insts + 1"] build_cases [of "length insts + 1" insts p] False by blast
  then show ?thesis using ts build_shape [OF ts] by simp
qed

section \<open>The context for the model\<close>

text \<open>One round of the inner loop brings a heaviest chunk to the front and loses none.\<close>

definition weights_ordered :: "flt \<Rightarrow> u64 set \<Rightarrow> bool" where
  "weights_ordered fl S \<longleftrightarrow> (\<forall>a \<in> S. \<forall>b \<in> S. \<forall>c \<in> S. (f_less fl a b \<longrightarrow> \<not> f_less fl b a)
     \<and> (\<not> f_less fl a b \<longrightarrow> \<not> f_less fl b c \<longrightarrow> \<not> f_less fl a c))"

lemma weights_ordered_subset:
  assumes "weights_ordered fl T" "S \<subseteq> T"
  shows "weights_ordered fl S"
  unfolding weights_ordered_def
proof (intro ballI)
  fix a b c assume "a \<in> S" "b \<in> S" "c \<in> S"
  then have "a \<in> T" "b \<in> T" "c \<in> T" using assms(2) by auto
  then show "(f_less fl a b \<longrightarrow> \<not> f_less fl b a) \<and> (\<not> f_less fl a b \<longrightarrow> \<not> f_less fl b c \<longrightarrow> \<not> f_less fl a c)"
    using bspec [OF bspec [OF bspec [OF assms(1) [unfolded weights_ordered_def], of a], of b], of c] by simp
qed

lemma settle_front_mset:
  "mset (fst (settle_front fl x ys) # snd (settle_front fl x ys)) = mset (x # ys)"
  by (induction fl x ys rule: settle_front.induct) (auto split: prod.splits)

lemma settle_front_set: "insert (fst (settle_front fl x ys)) (set (snd (settle_front fl x ys))) = insert x (set ys)"
  using arg_cong [OF settle_front_mset [of fl x ys], of set_mset] by simp

lemma settle_front_heaviest:
  assumes "weights_ordered fl (ch_Weight ` insert x (set ys))"
  shows "\<forall>c \<in> insert x (set (snd (settle_front fl x ys))). \<not> f_less fl (ch_Weight (fst (settle_front fl x ys))) (ch_Weight c)"
  using assms
proof (induction ys arbitrary: x)
  case Nil
  then show ?case by (auto simp: weights_ordered_def)
next
  case (Cons y ys)
  let ?S = "insert x (set (y # ys))"
  have irr: "\<And>a b. a \<in> ?S \<Longrightarrow> b \<in> ?S \<Longrightarrow> f_less fl (ch_Weight a) (ch_Weight b) \<Longrightarrow> \<not> f_less fl (ch_Weight b) (ch_Weight a)"
    using Cons.prems unfolding weights_ordered_def by blast
  have tr: "\<And>a b c. a \<in> ?S \<Longrightarrow> b \<in> ?S \<Longrightarrow> c \<in> ?S \<Longrightarrow> \<not> f_less fl (ch_Weight a) (ch_Weight b) \<Longrightarrow>
      \<not> f_less fl (ch_Weight b) (ch_Weight c) \<Longrightarrow> \<not> f_less fl (ch_Weight a) (ch_Weight c)"
    using Cons.prems unfolding weights_ordered_def by blast
  have sub: "weights_ordered fl (ch_Weight ` insert z (set ys))" if "z \<in> {x, y}" for z
    by (rule weights_ordered_subset [OF Cons.prems]) (use that in auto)
  show ?case
  proof (cases "f_less fl (ch_Weight x) (ch_Weight y)")
    case True
    obtain m zs where m: "settle_front fl y ys = (m, zs)" by fastforce
    have h: "\<not> f_less fl (ch_Weight m) (ch_Weight y)" "\<forall>c \<in> set zs. \<not> f_less fl (ch_Weight m) (ch_Weight c)"
      using Cons.IH [OF sub [of y]] m by simp_all
    have "m \<in> ?S" using settle_front_set [of fl y ys] m by auto
    then have "\<not> f_less fl (ch_Weight m) (ch_Weight x)" by (rule tr [OF _ _ _ h(1) irr [OF _ _ True]]) simp_all
    then show ?thesis using True m h by simp
  next
    case False
    obtain m zs where m: "settle_front fl x ys = (m, zs)" by fastforce
    have h: "\<not> f_less fl (ch_Weight m) (ch_Weight x)" "\<forall>c \<in> set zs. \<not> f_less fl (ch_Weight m) (ch_Weight c)"
      using Cons.IH [OF sub [of x]] m by simp_all
    have "m \<in> ?S" using settle_front_set [of fl x ys] m by auto
    then have "\<not> f_less fl (ch_Weight m) (ch_Weight y)" by (rule tr [OF _ _ _ h(1) False]) simp_all
    then show ?thesis using False m h by simp
  qed
qed

lemma sortByWeight_mset: "mset (sortByWeight fl cs) = mset cs"
proof (induction fl cs rule: sortByWeight.induct)
  case (2 fl x ys)
  then show ?case using settle_front_mset [of fl x ys] by simp
qed simp

lemma sortByWeight_sorted:
  assumes "weights_ordered fl (ch_Weight ` set cs)"
  shows "sorted_wrt (\<lambda>a b. \<not> f_less fl (ch_Weight a) (ch_Weight b)) (sortByWeight fl cs)"
  using assms
proof (induction fl cs rule: sortByWeight.induct)
  case (2 fl x ys)
  have s: "set (sortByWeight fl (snd (settle_front fl x ys))) = set (snd (settle_front fl x ys))"
    using sortByWeight_mset mset_eq_setD by blast
  have "set (snd (settle_front fl x ys)) \<subseteq> insert x (set ys)" using settle_front_set [of fl x ys] by blast
  then have "weights_ordered fl (ch_Weight ` set (snd (settle_front fl x ys)))"
    by (intro weights_ordered_subset [OF 2(2)]) auto
  then show ?case using 2(1) s settle_front_heaviest [of fl x ys] 2(2) by simp
qed simp

text \<open>
  Go's \<^verbatim>\<open><\<close> on float64, on the bits: a NaN is less than nothing and nothing is less than it; other values
  are a sign and a magnitude that grows with the remaining 63 bits, and both zeros are equal.
\<close>

definition float_magnitude :: "u64 \<Rightarrow> int" where "float_magnitude w = int (unat w mod 2 ^ 63)"
definition float_nan :: "u64 \<Rightarrow> bool" where "float_nan w \<longleftrightarrow> 2047 * 2 ^ 52 < float_magnitude w"
definition float_key :: "u64 \<Rightarrow> int" where "float_key w = (if 2 ^ 63 \<le> unat w then - float_magnitude w else float_magnitude w)"

definition float_less :: "u64 \<Rightarrow> u64 \<Rightarrow> bool" where
  "float_less a b \<longleftrightarrow> \<not> float_nan a \<and> \<not> float_nan b \<and> float_key a < float_key b"

text \<open>C33: The chunks are ordered by weight: with Go's comparison of float64 values and no NaN among the weights,
  sortByWeight permutes the chunks so that none comes before a heavier one.\<close>

theorem chunks_are_sorted_by_weight:
  assumes less: "f_less fl = float_less" and real: "\<forall>c \<in> set cs. \<not> float_nan (ch_Weight c)"
  shows "mset (sortByWeight fl cs) = mset cs
    \<and> sorted_wrt (\<lambda>a b. \<not> float_less (ch_Weight a) (ch_Weight b)) (sortByWeight fl cs)"
proof -
  have "weights_ordered fl (ch_Weight ` set cs)"
    using real by (auto simp: weights_ordered_def less float_less_def)
  then show ?thesis using sortByWeight_mset sortByWeight_sorted [of fl cs] unfolding less by blast
qed

definition demo_chunk :: "string \<Rightarrow> u64 \<Rightarrow> ContextChunk" where
  "demo_chunk s w = \<lparr>ch_Type = ''instruction'', ch_Content = s, ch_Weight = w, ch_TokenEstimate = token_estimate s\<rparr>"

text \<open>The weights 0.3, 1.0 and -1.0.\<close>

theorem chunks_are_sorted_by_weight_witness:
  "let cs = [demo_chunk ''low'' 0x3FD3333333333333, demo_chunk ''negative'' 0xBFF0000000000000, demo_chunk ''high'' 0x3FF0000000000000];
     ds = sortByWeight (demo_flt\<lparr>f_less := float_less\<rparr>) cs
   in mset ds = mset cs \<and> sorted_wrt (\<lambda>a b. \<not> float_less (ch_Weight a) (ch_Weight b)) ds
     \<and> float_less 0x3FD3333333333333 0x3FF0000000000000 \<and> float_less 0xBFF0000000000000 0x3FD3333333333333"
proof -
  let ?cs = "[demo_chunk ''low'' 0x3FD3333333333333, demo_chunk ''negative'' 0xBFF0000000000000, demo_chunk ''high'' 0x3FF0000000000000]"
  have "\<forall>c \<in> set ?cs. \<not> float_nan (ch_Weight c)"
    by (simp add: demo_chunk_def float_nan_def float_magnitude_def)
  moreover have "float_less 0x3FD3333333333333 0x3FF0000000000000" "float_less 0xBFF0000000000000 0x3FD3333333333333"
    by (simp_all add: float_less_def float_nan_def float_key_def float_magnitude_def)
  ultimately show ?thesis
    using chunks_are_sorted_by_weight [of "demo_flt\<lparr>f_less := float_less\<rparr>" ?cs] by (simp add: Let_def)
qed

text \<open>
  The budget without machine integers: what has been used after the chunks, and the first instruction
  that does not fit, with the tokens left for it.
\<close>

fun first_cut :: "int \<Rightarrow> int \<Rightarrow> ContextChunk list \<Rightarrow> (int \<times> ContextChunk) option" where
  "first_cut m t [] = None"
| "first_cut m t (c # cs) =
     (if t + sint (ch_TokenEstimate c) \<le> m then first_cut m (t + sint (ch_TokenEstimate c)) cs
      else if ch_Type c = ''instruction'' then Some (m - t, c)
      else first_cut m t cs)"

definition chunk_small :: "ContextChunk \<Rightarrow> bool" where
  "chunk_small c \<longleftrightarrow> 0 \<le> sint (ch_TokenEstimate c) \<and> sint (ch_TokenEstimate c) < 2 ^ 60
     \<and> (ch_Type c = ''instruction'' \<longrightarrow> length (ch_Content c) < 2 ^ 60 \<and> ch_TokenEstimate c = token_estimate (ch_Content c))"

lemma sint_within:
  fixes w :: i64
  assumes "w = word_of_int i" "- (2 ^ 63) \<le> i" "i < 2 ^ 63"
  shows "sint w = i"
  using assms by (simp add: sint_sbintrunc' signed_take_bit_int_eq_self)

lemma sint_arith:
  fixes a b :: i64
  shows "0 \<le> sint a \<Longrightarrow> 0 \<le> sint b \<Longrightarrow> sint a + sint b < 2 ^ 63 \<Longrightarrow> sint (a + b) = sint a + sint b"
    "0 \<le> sint a \<Longrightarrow> 0 \<le> sint b \<Longrightarrow> sint (a - b) = sint a - sint b"
    "0 \<le> sint a \<Longrightarrow> sint a < 2 ^ 61 \<Longrightarrow> sint (a * 4) = sint a * 4"
    "0 \<le> sint a \<Longrightarrow> sint (a - 3) = sint a - 3"
  using sint_less [of a] sint_less [of b] by (auto intro!: sint_within)

lemma token_estimate_sint:
  assumes "length s < 2 ^ 60"
  shows "sint (token_estimate s) = int (length s) div 4"
proof -
  have "sint (token_estimate s) = int (length s div 4)"
  proof (rule sint_within)
    show "token_estimate s = word_of_int (int (length s div 4))"
      unfolding token_estimate_def by (rule of_int_of_nat_eq [symmetric])
  qed (use assms in simp_all)
  then show ?thesis by (simp add: zdiv_int)
qed

text \<open>An instruction that does not fit is cut, unless nothing is left for it.\<close>

lemma truncate_cases:
  assumes "length s < 2 ^ 60" "0 \<le> sint r" "sint r < int (length s) div 4"
  shows "truncateToFit s r = (if r = 0 then Panic else Ok (take (nat (sint r * 4 - 3)) s @ ''...''))"
proof -
  have r: "sint r < 2 ^ 58" using assms by simp
  have m: "sint (r * 4) = sint r * 4" using sint_arith(3) [OF assms(2)] r by simp
  have m3: "sint (r * 4 - 3) = sint r * 4 - 3" using sint_arith(4) [of "r * 4"] m assms(2) by simp
  have z: "r = 0 \<longleftrightarrow> sint r = 0" by (simp add: signed_eq_0_iff)
  have "\<not> int (length s) \<le> sint r * 4" using assms(3) by linarith
  then show ?thesis using m m3 z assms by (auto simp: truncateToFit_def Let_def)
qed

lemma compress_spec:
  assumes "0 \<le> sint t" "sint t \<le> sint m" "sint m < 2 ^ 60" "list_all chunk_small cs"
  shows "(compress m t cs = Panic \<longleftrightarrow> (\<exists>c. first_cut (sint m) (sint t) cs = Some (0, c)))
    \<and> compress m t cs \<noteq> Hang \<and> (\<forall>err. compress m t cs \<noteq> Err err)
    \<and> (\<forall>out. compress m t cs = Ok out \<longrightarrow> sint t + sum_list (map (\<lambda>c. sint (ch_TokenEstimate c)) out) \<le> sint m)"
  using assms
proof (induction m t cs rule: compress.induct)
  case (2 m t c cs)
  have e: "0 \<le> sint (ch_TokenEstimate c)" "sint (ch_TokenEstimate c) < 2 ^ 60" using 2(6) by (simp_all add: chunk_small_def)
  have add: "sint (t + ch_TokenEstimate c) = sint t + sint (ch_TokenEstimate c)"
    using sint_arith(1) [OF 2(3) e(1)] 2(4,5) e(2) by simp
  show ?case
  proof (cases "sint (t + ch_TokenEstimate c) \<le> sint m")
    case True
    have IH: "(compress m (t + ch_TokenEstimate c) cs = Panic
          \<longleftrightarrow> (\<exists>c'. first_cut (sint m) (sint (t + ch_TokenEstimate c)) cs = Some (0, c')))
      \<and> compress m (t + ch_TokenEstimate c) cs \<noteq> Hang \<and> (\<forall>err. compress m (t + ch_TokenEstimate c) cs \<noteq> Err err)
      \<and> (\<forall>out. compress m (t + ch_TokenEstimate c) cs = Ok out \<longrightarrow>
           sint (t + ch_TokenEstimate c) + sum_list (map (\<lambda>c. sint (ch_TokenEstimate c)) out) \<le> sint m)"
      using 2(1) [OF True] 2(3-6) add e True by simp
    show ?thesis using IH True add
      by (cases "compress m (t + ch_TokenEstimate c) cs") auto
  next
    case False
    show ?thesis
    proof (cases "ch_Type c = ''instruction''")
      case True
      have len: "length (ch_Content c) < 2 ^ 60" "sint (ch_TokenEstimate c) = int (length (ch_Content c)) div 4"
        using 2(6) True token_estimate_sint by (simp_all add: chunk_small_def)
      have sub: "sint (m - t) = sint m - sint t" using sint_arith(2) [of m t] 2(3,4) by linarith
      have r: "0 \<le> sint (m - t)" "sint (m - t) < int (length (ch_Content c)) div 4"
        using sub 2(4) False add len(2) by linarith+
      have z: "m - t = 0 \<longleftrightarrow> sint m - sint t = 0" using sub by (metis signed_eq_0_iff)
      show ?thesis using False True add sub z truncate_cases [OF len(1) r]
        by auto
    next
      case no: False
      show ?thesis using 2(2) [OF False no] 2(3-6) False no add by simp
    qed
  qed
qed simp

text \<open>C32: The context keeps to its budget: for chunks and budgets of less than 2^60 tokens compress gives chunks
  whose estimates add up to at most the budget, or it panics. It panics exactly when the first
  instruction that does not fit finds the budget used up to the last token: then the slice
  expression content[:maxChars-3] has the bound -3.\<close>

theorem context_keeps_the_budget:
  assumes "0 \<le> sint maxTokens" "sint maxTokens < 2 ^ 60" "list_all chunk_small cs"
  shows "case compress maxTokens 0 cs of
      Ok out \<Rightarrow> sum_list (map (\<lambda>c. sint (ch_TokenEstimate c)) out) \<le> sint maxTokens
        \<and> (\<nexists>c. first_cut (sint maxTokens) 0 cs = Some (0, c))
    | Panic \<Rightarrow> \<exists>c. first_cut (sint maxTokens) 0 cs = Some (0, c)
    | _ \<Rightarrow> False"
  using compress_spec [of 0 maxTokens cs] assms by (cases "compress maxTokens 0 cs") auto

theorem context_keeps_the_budget_witness:
  "case compress 3 0 [demo_chunk ''01234567'' 2, demo_chunk ''012345678901'' 1] of
      Ok out \<Rightarrow> sum_list (map (\<lambda>c. sint (ch_TokenEstimate c)) out) \<le> sint (3 :: i64)
        \<and> (\<nexists>c. first_cut (sint (3 :: i64)) 0 [demo_chunk ''01234567'' 2, demo_chunk ''012345678901'' 1] = Some (0, c))
    | Panic \<Rightarrow> \<exists>c. first_cut (sint (3 :: i64)) 0 [demo_chunk ''01234567'' 2, demo_chunk ''012345678901'' 1] = Some (0, c)
    | _ \<Rightarrow> False"
proof (rule context_keeps_the_budget)
  show "0 \<le> sint (3 :: i64)" "sint (3 :: i64) < 2 ^ 60" by simp_all
  show "list_all chunk_small [demo_chunk ''01234567'' 2, demo_chunk ''012345678901'' 1]"
    by (simp add: chunk_small_def demo_chunk_def token_estimate_def)
qed

end
