(* ===== verification/Snapshot.thy ===== *)
theory Snapshot imports Memory begin

text \<open>
  \<^verbatim>\<open>pkg/snapshot/manager.go\<close>: versions of the project's files and of the agent's memory. The
  environment adds what the package takes from outside: the contents of files, which files can be
  written, SHA-256 in hexadecimal, JSON for the four kinds of memory entries, and the order in
  which a map of file hashes is ranged over. Paths are those of a Unix system. The time of each
  statement is a function of its position.
\<close>

section \<open>Data\<close>

record SnapInstruction =
  sni_ID :: i64
  sni_SessionID :: i64
  sni_Content :: string
  sni_Depth :: i64
  sni_Status :: string
  sni_CreatedAt :: i64

record SnapThought =
  snt_ID :: i64
  snt_SessionID :: i64
  snt_Type :: string
  snt_Content :: string
  snt_Confidence :: u64
  snt_CreatedAt :: i64

record SnapInference =
  snf_ID :: i64
  snf_SessionID :: i64
  snf_Conclusion :: string
  snf_Confidence :: u64
  snf_Type :: string
  snf_Source :: string
  snf_CreatedAt :: i64

record SnapItem =
  snb_Key :: string
  snb_Value :: string
  snb_TTL :: i64
  snb_CreatedAt :: i64

type_synonym snap_buffer = "(string \<times> SnapItem) list"

record snap_env =
  sn_cl :: client_env
  sn_read :: "string \<Rightarrow> string option"
  sn_writable :: "string \<Rightarrow> bool"
  sn_sha256 :: "string \<Rightarrow> string"
  sn_order :: "(string \<times> string) list \<Rightarrow> (string \<times> string) list"
  sn_order_buffer :: "snap_buffer \<Rightarrow> snap_buffer"
  sn_enc_instructions :: "SnapInstruction list \<Rightarrow> string"
  sn_enc_thoughts :: "SnapThought list \<Rightarrow> string"
  sn_enc_inferences :: "SnapInference list \<Rightarrow> string"
  sn_enc_buffer :: "snap_buffer \<Rightarrow> string"
  sn_dec_instructions :: "string \<Rightarrow> SnapInstruction list"
  sn_dec_thoughts :: "string \<Rightarrow> SnapThought list"
  sn_dec_inferences :: "string \<Rightarrow> SnapInference list"
  sn_dec_buffer :: "string \<Rightarrow> snap_buffer"

text \<open>The manager: the project's path, and whether it has a memory manager.\<close>

record SnapshotManager =
  sm_projectPath :: string
  sm_hasMemory :: bool

record Version =
  ve_ID :: i64
  ve_VersionNum :: i64
  ve_ParentID :: i64
  ve_Description :: string
  ve_CreatedAt :: i64
  ve_CreatedBy :: string

record FileDiff =
  fd_Path :: string
  fd_OldContent :: string
  fd_NewContent :: string
  fd_UnifiedDiff :: string

record Diff =
  di_Added :: "string list"
  di_Removed :: "string list"
  di_Modified :: "FileDiff list"

section \<open>Paths\<close>

text \<open>\<^verbatim>\<open>filepath.Clean\<close> and \<^verbatim>\<open>filepath.Join\<close> of two elements.\<close>

fun split_path :: "string \<Rightarrow> string \<Rightarrow> string list" where
  "split_path w [] = [w]"
| "split_path w (c # s) = (if c = CHR ''/'' then w # split_path [] s else split_path (w @ [c]) s)"

fun clean_parts :: "bool \<Rightarrow> string list \<Rightarrow> string list \<Rightarrow> string list" where
  "clean_parts rooted st [] = rev st"
| "clean_parts rooted st (p # ps) =
     (if p = [] \<or> p = ''.'' then clean_parts rooted st ps
      else if p = ''..'' then
        (case st of q # st' \<Rightarrow> if q = ''..'' then clean_parts rooted (p # st) ps else clean_parts rooted st' ps
         | [] \<Rightarrow> if rooted then clean_parts rooted [] ps else clean_parts rooted [p] ps)
      else clean_parts rooted (p # st) ps)"

definition path_clean :: "string \<Rightarrow> string" where
  "path_clean s =
     (let rooted = (s \<noteq> [] \<and> hd s = CHR ''/'');
          r = (if rooted then ''/'' else []) @ Join (clean_parts rooted [] (split_path [] s)) ''/''
      in if r = [] then ''.'' else r)"

definition path_join :: "string \<Rightarrow> string \<Rightarrow> string" where
  "path_join a b = (if a = [] then (if b = [] then [] else path_clean b)
                    else if b = [] then path_clean a else path_clean (a @ ''/'' @ b))"

section \<open>The files of the project\<close>

text \<open>What \<^verbatim>\<open>filepath.Walk\<close> meets: a file with its size, a directory that can be listed or not, an
  entry whose \<^verbatim>\<open>Lstat\<close> fails.\<close>

datatype FsNode = FsFile string nat | FsDir string bool "FsNode list" | FsBroken string

fun fs_name :: "FsNode \<Rightarrow> string" where
  "fs_name (FsFile name sz) = name"
| "fs_name (FsDir name readable children) = name"
| "fs_name (FsBroken name) = name"

definition rel_child :: "string \<Rightarrow> string \<Rightarrow> string" where
  "rel_child rel name = (if rel = ''.'' then name else rel @ ''/'' @ name)"

text \<open>
  The paths relative to the root. The callback returns nil for an entry with an error and skips a
  directory whose name starts with a dot, the root included.
\<close>

fun changed_under :: "string \<Rightarrow> FsNode \<Rightarrow> string list" where
  "changed_under rel (FsFile name sz) = (if sz > 1024 * 1024 then [] else [rel])"
| "changed_under rel (FsDir name readable children) =
     (if \<not> readable \<or> HasPrefix name ''.'' then []
      else concat (map (\<lambda>c. changed_under (rel_child rel (fs_name c)) c) children))"
| "changed_under rel (FsBroken name) = []"

definition getChangedFiles :: "FsNode \<Rightarrow> string list" where
  "getChangedFiles root = changed_under ''.'' root"

section \<open>Tables and versions\<close>

definition snapshot_tables :: "string list" where
  "snapshot_tables = [
     ''CREATE TABLE IF NOT EXISTS versions (
            id INT PRIMARY_KEY AUTOINCREMENT,
            version_num INT NOT_NULL UNIQUE,
            parent_version INT,
            description TEXT,
            created_at INT NOT_NULL,
            created_by TEXT,
            metadata TEXT
        )'',
     ''CREATE TABLE IF NOT EXISTS objects (
            id INT PRIMARY_KEY AUTOINCREMENT,
            hash TEXT UNIQUE NOT_NULL,
            content TEXT,
            size INT,
            created_at INT
        )'',
     ''CREATE TABLE IF NOT EXISTS version_files (
            version_id INT NOT_NULL,
            file_path TEXT NOT_NULL,
            object_hash TEXT NOT_NULL,
            operation TEXT,
        )'',
     ''CREATE TABLE IF NOT EXISTS version_memory (
            version_id INT PRIMARY_KEY,
            instructions TEXT,
            thoughts TEXT,
            inferences TEXT,
            buffer TEXT,
            created_at INT
        )'']"

definition NewSnapshotManager :: "snap_env \<Rightarrow> unit act" where
  "NewSnapshotManager sn = sql_all (sn_cl sn) snapshot_tables"

text \<open>The first cell of the result as a number.\<close>

definition first_number :: "client_env \<Rightarrow> QueryResult option \<Rightarrow> i64" where
  "first_number cl qr = (case result_rows qr of
     [] \<Rightarrow> 0
   | row # _ \<Rightarrow> if 0 < length row \<and> row ! 0 \<noteq> VNil then cell_int cl (row ! 0) else 0)"

definition getCurrentVersion :: "client_env \<Rightarrow> i64 act" where
  "getCurrentVersion cl =
     and_then (sql_rows cl ''SELECT COALESCE(MAX(version_num), 0) FROM versions'')
       (\<lambda>result. ret (first_number cl result))"

definition getVersionID :: "client_env \<Rightarrow> i64 \<Rightarrow> i64 act" where
  "getVersionID cl versionNum =
     and_then (sql_rows cl (sprintf ''SELECT id FROM versions WHERE version_num = %d'' [dec versionNum]))
       (\<lambda>result. ret (first_number cl result))"

definition parse_version :: "client_env \<Rightarrow> val list \<Rightarrow> Version" where
  "parse_version cl row = \<lparr>ve_ID = cell_int cl (row ! 0), ve_VersionNum = cell_int cl (row ! 1),
     ve_ParentID = cell_int cl (row ! 2), ve_Description = cell_text cl (row ! 3),
     ve_CreatedAt = cell_int cl (row ! 4), ve_CreatedBy = cell_text cl (row ! 5)\<rparr>"

definition ListVersions :: "client_env \<Rightarrow> Version list act" where
  "ListVersions cl =
     and_then (run_sql cl ''
		SELECT id, version_num, parent_version, description, created_at, created_by
		FROM versions ORDER BY version_num DESC
	'') (\<lambda>(result, err).
       case err of Some x \<Rightarrow> throw (ExecFailed x)
       | None \<Rightarrow> ret (map (parse_version cl) (filter (\<lambda>row. 6 \<le> length row) (result_rows result))))"

definition GetVersion :: "client_env \<Rightarrow> i64 \<Rightarrow> Version act" where
  "GetVersion cl vid =
     and_then (run_sql cl (sprintf ''
		SELECT id, version_num, parent_version, description, created_at, created_by
		FROM versions WHERE id = %d
	'' [dec vid])) (\<lambda>(result, err).
       case err of Some x \<Rightarrow> throw (ExecFailed x)
       | None \<Rightarrow>
         (case result_rows result of
            [] \<Rightarrow> throw (VersionNotFound vid)
          | row # _ \<Rightarrow> if 6 \<le> length row then ret (parse_version cl row) else throw (VersionNotFound vid)))"

definition DeleteVersion :: "client_env \<Rightarrow> i64 \<Rightarrow> unit act" where
  "DeleteVersion cl vid =
     and_then (sql_do cl (sprintf ''DELETE FROM version_files WHERE version_id = %d'' [dec vid])) (\<lambda>_.
     and_then (sql_do cl (sprintf ''DELETE FROM version_memory WHERE version_id = %d'' [dec vid])) (\<lambda>_.
       sql_do cl (sprintf ''DELETE FROM versions WHERE id = %d'' [dec vid])))"

text \<open>The error of \<^verbatim>\<open>GetVersion\<close> is dropped: then the version is nil.\<close>

definition GetCurrentVersion :: "client_env \<Rightarrow> Version option act" where
  "GetCurrentVersion cl =
     and_then (getCurrentVersion cl) (\<lambda>currentNum.
       if currentNum = 0 then ret None
       else and_then (getVersionID cl currentNum) (\<lambda>vid e.
         case GetVersion cl vid e of
           (Ok v, e1) \<Rightarrow> (Ok (Some v), e1)
         | (Err _, e1) \<Rightarrow> (Ok None, e1)
         | (Panic, e1) \<Rightarrow> (Panic, e1)
         | (Hang, e1) \<Rightarrow> (Hang, e1)))"

section \<open>Taking a snapshot\<close>

fun snapshot_each :: "snap_env \<Rightarrow> (nat \<Rightarrow> i64) \<Rightarrow> nat \<Rightarrow> i64 \<Rightarrow> string list \<Rightarrow> unit act" where
  "snapshot_each sn now i versionID [] = ret ()"
| "snapshot_each sn now i versionID (file # files) =
     (case sn_read sn file of
        None \<Rightarrow> snapshot_each sn now (Suc i) versionID files
      | Some content \<Rightarrow>
          (let h = sn_sha256 sn content in
           and_then (sql_ignore (sn_cl sn) (sprintf ''
            INSERT OR IGNORE INTO objects (hash, content, size, created_at)
            VALUES ('%s', '%s', %d, %d)
        ''
               [h, escapeSQL content, dec (word_of_nat (length content)), dec (now i)])) (\<lambda>_.
           and_then (sql_ignore (sn_cl sn) (sprintf ''
            INSERT OR REPLACE INTO version_files (version_id, file_path, object_hash, operation)
            VALUES (%d, '%s', '%s', 'modify')
        ''
               [dec versionID, escapeSQL file, h])) (\<lambda>_.
             snapshot_each sn now (Suc i) versionID files))))"

definition snapshotFiles :: "snap_env \<Rightarrow> (nat \<Rightarrow> i64) \<Rightarrow> FsNode \<Rightarrow> i64 \<Rightarrow> unit act" where
  "snapshotFiles sn now root versionID = snapshot_each sn now 1 versionID (getChangedFiles root)"

text \<open>The four getters of the current memory; with or without a memory manager they return nothing.\<close>

definition getCurrentInstructions :: "SnapInstruction list" where "getCurrentInstructions = []"
definition getCurrentThoughts :: "SnapThought list" where "getCurrentThoughts = []"
definition getCurrentInferences :: "SnapInference list" where "getCurrentInferences = []"
definition getCurrentBuffer :: snap_buffer where "getCurrentBuffer = []"

definition snapshotMemory :: "snap_env \<Rightarrow> i64 \<Rightarrow> i64 \<Rightarrow> unit act" where
  "snapshotMemory sn now versionID =
     sql_do (sn_cl sn) (sprintf ''
        INSERT OR REPLACE INTO version_memory (version_id, instructions, thoughts, inferences, buffer, created_at)
        VALUES (%d, '%s', '%s', '%s', '%s', %d)
    ''
       [dec versionID, escapeSQL (sn_enc_instructions sn getCurrentInstructions),
        escapeSQL (sn_enc_thoughts sn getCurrentThoughts),
        escapeSQL (sn_enc_inferences sn getCurrentInferences),
        escapeSQL (sn_enc_buffer sn getCurrentBuffer), dec now])"

definition CreateSnapshot :: "snap_env \<Rightarrow> (nat \<Rightarrow> i64) \<Rightarrow> FsNode \<Rightarrow> string \<Rightarrow> string \<Rightarrow> i64 act" where
  "CreateSnapshot sn now root description createdBy =
     and_then (getCurrentVersion (sn_cl sn)) (\<lambda>currentVersion.
     let newVersion = currentVersion + 1 in
     and_then (sql_do (sn_cl sn) (sprintf ''
        INSERT INTO versions (version_num, parent_version, description, created_at, created_by)
        VALUES (%d, %d, '%s', %d, '%s')
    ''
         [dec newVersion, dec currentVersion, escapeSQL description, dec (now 0), createdBy])) (\<lambda>_.
     and_then (getVersionID (sn_cl sn) newVersion) (\<lambda>versionID.
     and_then (snapshotFiles sn now root versionID) (\<lambda>_.
     and_then (snapshotMemory sn (now (1 + length (getChangedFiles root))) versionID) (\<lambda>_.
       ret versionID)))))"

section \<open>Going back to a version\<close>

definition getFilesAtVersion :: "client_env \<Rightarrow> i64 \<Rightarrow> (string \<times> string) list act" where
  "getFilesAtVersion cl versionID =
     and_then (sql_rows cl (sprintf ''
		SELECT file_path, object_hash FROM version_files WHERE version_id = %d
	'' [dec versionID]))
       (\<lambda>result. ret (pair_map cl result))"

definition getContent :: "client_env \<Rightarrow> string \<Rightarrow> string act" where
  "getContent cl h =
     and_then (sql_rows cl (sprintf (''SELECT content FROM objects WHERE hash = '%s'' @ [apostrophe]) [h]))
       (\<lambda>result. ret (first_value cl result))"

text \<open>The files written so far are the second component of the state.\<close>

type_synonym files = "string \<Rightarrow> string option"

fun restore_each :: "snap_env \<Rightarrow> SnapshotManager \<Rightarrow> (string \<times> string) list \<Rightarrow> Executor \<Rightarrow> files
    \<Rightarrow> (client_err, unit) outcome \<times> Executor \<times> files" where
  "restore_each sn sm [] e fs = (Ok (), e, fs)"
| "restore_each sn sm ((path, h) # rest) e fs =
     (case getContent (sn_cl sn) h e of
        (Ok content, e1) \<Rightarrow>
          (let fullPath = path_join (sm_projectPath sm) path in
           if sn_writable sn fullPath then restore_each sn sm rest e1 (fs(fullPath \<mapsto> content))
           else (Err (FileWriteFailed fullPath), e1, fs))
      | (Err err, e1) \<Rightarrow> (Err err, e1, fs)
      | (Panic, e1) \<Rightarrow> (Panic, e1, fs)
      | (Hang, e1) \<Rightarrow> (Hang, e1, fs))"

definition restoreFiles :: "snap_env \<Rightarrow> SnapshotManager \<Rightarrow> i64 \<Rightarrow> Executor \<Rightarrow> files
    \<Rightarrow> (client_err, unit) outcome \<times> Executor \<times> files" where
  "restoreFiles sn sm versionID e fs =
     (case getFilesAtVersion (sn_cl sn) versionID e of
        (Ok m, e1) \<Rightarrow> restore_each sn sm (sn_order sn m) e1 fs
      | (Err err, e1) \<Rightarrow> (Err err, e1, fs)
      | (Panic, e1) \<Rightarrow> (Panic, e1, fs)
      | (Hang, e1) \<Rightarrow> (Hang, e1, fs))"

definition restoreInstructions :: "snap_env \<Rightarrow> SnapshotManager \<Rightarrow> SnapInstruction list \<Rightarrow> unit act" where
  "restoreInstructions sn sm instructions =
     (if \<not> sm_hasMemory sm then ret ()
      else sql_all (sn_cl sn) (''DELETE FROM instruction_stack WHERE session_id > 0'' #
        map (\<lambda>inst. sprintf ''
			INSERT INTO instruction_stack (session_id, content, depth, created_at)
			VALUES (%d, '%s', %d, '%s', %d)
		''
          [dec (sni_SessionID inst), escapeSQL (sni_Content inst), dec (sni_Depth inst), sni_Status inst, dec (sni_CreatedAt inst)])
          instructions))"

definition restoreThoughts :: "snap_env \<Rightarrow> SnapshotManager \<Rightarrow> SnapThought list \<Rightarrow> unit act" where
  "restoreThoughts sn sm thoughts =
     (if \<not> sm_hasMemory sm then ret ()
      else sql_all (sn_cl sn) (''DELETE FROM reasoning_space WHERE session_id > 0'' #
        map (\<lambda>t. sprintf ''
			INSERT INTO reasoning_space (session_id, thought_type, content, confidence, created_at)
			VALUES (%d, '%s', '%s', %f, %d)
		''
          [dec (snt_SessionID t), snt_Type t, escapeSQL (snt_Content t), cl_fmt_f (sn_cl sn) (snt_Confidence t), dec (snt_CreatedAt t)])
          thoughts))"

definition restoreInferences :: "snap_env \<Rightarrow> SnapshotManager \<Rightarrow> SnapInference list \<Rightarrow> unit act" where
  "restoreInferences sn sm inferences =
     (if \<not> sm_hasMemory sm then ret ()
      else sql_all (sn_cl sn) (''DELETE FROM inference_space WHERE session_id > 0'' #
        map (\<lambda>i. sprintf ''
			INSERT INTO inference_space (session_id, conclusion, confidence, inference_type, source, created_at)
			VALUES (%d, '%s', %f, '%s', '%s', %d)
		''
          [dec (snf_SessionID i), escapeSQL (snf_Conclusion i), cl_fmt_f (sn_cl sn) (snf_Confidence i), snf_Type i,
           snf_Source i, dec (snf_CreatedAt i)])
          inferences))"

definition restoreBuffer :: "snap_env \<Rightarrow> SnapshotManager \<Rightarrow> snap_buffer \<Rightarrow> unit act" where
  "restoreBuffer sn sm buffer =
     (if \<not> sm_hasMemory sm then ret ()
      else sql_all (sn_cl sn) (''DELETE FROM buffer_space WHERE session_id > 0'' #
        map (\<lambda>(key, item). sprintf ''
			INSERT INTO buffer_space (session_id, key, value, ttl, created_at)
			VALUES (1, '%s', '%s', %d, %d)
		''
          [escapeSQL key, escapeSQL (snb_Value item), dec (snb_TTL item), dec (snb_CreatedAt item)])
          (sn_order_buffer sn buffer)))"

definition unless_nil :: "val \<Rightarrow> unit act \<Rightarrow> unit act" where
  "unless_nil v m = (if v \<noteq> VNil then m else ret ())"

definition restoreMemory :: "snap_env \<Rightarrow> SnapshotManager \<Rightarrow> i64 \<Rightarrow> unit act" where
  "restoreMemory sn sm versionID =
     and_then (sql_rows (sn_cl sn) (sprintf ''
        SELECT instructions, thoughts, inferences, buffer
        FROM version_memory WHERE version_id = %d
    '' [dec versionID])) (\<lambda>result.
       case result_rows result of
         [] \<Rightarrow> ret ()
       | row # _ \<Rightarrow>
           (if 4 \<le> length row then
              and_then (unless_nil (row ! 0) (restoreInstructions sn sm (sn_dec_instructions sn (cell_text (sn_cl sn) (row ! 0))))) (\<lambda>_.
              and_then (unless_nil (row ! 1) (restoreThoughts sn sm (sn_dec_thoughts sn (cell_text (sn_cl sn) (row ! 1))))) (\<lambda>_.
              and_then (unless_nil (row ! 2) (restoreInferences sn sm (sn_dec_inferences sn (cell_text (sn_cl sn) (row ! 2))))) (\<lambda>_.
                unless_nil (row ! 3) (restoreBuffer sn sm (sn_dec_buffer sn (cell_text (sn_cl sn) (row ! 3)))))))
            else ret ()))"

definition RollbackToVersion :: "snap_env \<Rightarrow> SnapshotManager \<Rightarrow> i64 \<Rightarrow> Executor \<Rightarrow> files
    \<Rightarrow> (client_err, unit) outcome \<times> Executor \<times> files" where
  "RollbackToVersion sn sm versionID e fs =
     (case restoreFiles sn sm versionID e fs of
        (Ok _, e1, fs1) \<Rightarrow> (case restoreMemory sn sm versionID e1 of (r, e2) \<Rightarrow> (r, e2, fs1))
      | r \<Rightarrow> r)"

section \<open>Comparing versions\<close>

text \<open>\<^verbatim>\<open>oldContent[:100]\<close> panics for a text of less than 100 bytes.\<close>

definition first_100 :: "string \<Rightarrow> (client_err, string) outcome" where
  "first_100 s = (if 100 \<le> length s then Ok (take 100 s) else Panic)"

definition unifiedDiff :: "string \<Rightarrow> string \<Rightarrow> (client_err, string) outcome" where
  "unifiedDiff oldContent newContent =
     (if oldContent = newContent then Ok []
      else bind_out (first_100 oldContent) (\<lambda>a. bind_out (first_100 newContent) (\<lambda>b.
        Ok (sprintf (''--- old'' @ utf8 [10] @ ''+++ new'' @ utf8 [10] @ ''%s'' @ utf8 [10] @ ''%s'') [a, b]))))"

fun diff_each :: "snap_env \<Rightarrow> (string \<times> string) list \<Rightarrow> (string \<times> string) list \<Rightarrow> Diff \<Rightarrow> Diff act" where
  "diff_each sn filesB [] diff = ret diff"
| "diff_each sn filesB ((path, hashA) # rest) diff =
     (case map_of filesB path of
        Some hashB \<Rightarrow>
          (if hashA \<noteq> hashB then
             and_then (getContent (sn_cl sn) hashA) (\<lambda>contentA.
             and_then (getContent (sn_cl sn) hashB) (\<lambda>contentB.
             and_then (\<lambda>e. (unifiedDiff contentA contentB, e)) (\<lambda>u.
               diff_each sn filesB rest (diff\<lparr>di_Modified := di_Modified diff
                 @ [\<lparr>fd_Path = path, fd_OldContent = contentA, fd_NewContent = contentB, fd_UnifiedDiff = u\<rparr>]\<rparr>))))
           else diff_each sn filesB rest diff)
      | None \<Rightarrow> diff_each sn filesB rest (diff\<lparr>di_Removed := di_Removed diff @ [path]\<rparr>))"

definition Snapshot_Diff :: "snap_env \<Rightarrow> i64 \<Rightarrow> i64 \<Rightarrow> Diff act" where
  "Snapshot_Diff sn versionA versionB =
     and_then (getFilesAtVersion (sn_cl sn) versionA) (\<lambda>filesA.
     and_then (getFilesAtVersion (sn_cl sn) versionB) (\<lambda>filesB.
     and_then (diff_each sn filesB (sn_order sn filesA) \<lparr>di_Added = [], di_Removed = [], di_Modified = []\<rparr>) (\<lambda>diff.
       ret (diff\<lparr>di_Added := di_Added diff
         @ filter (\<lambda>path. map_of filesA path = None) (map fst (sn_order sn filesB))\<rparr>))))"

end
