(* ===== verification/ClientDemo.thy ===== *)
theory ClientDemo imports ExecDemo begin

text \<open>
  The database of the witness of the snapshot properties: the tables of versions without a row.
\<close>

definition file_schema :: TableSchema where
  "file_schema = \<lparr>sch_Name = ''version_files'', sch_Columns =
     [demo_column ''version_id'' TypeInt, demo_column ''file_path'' TypeText, demo_column ''object_hash'' TypeText]\<rparr>"

definition version_exec :: "store \<Rightarrow> Executor" where
  "version_exec st = demo_exec\<lparr>ex_store := st, ex_Tables := [''version_files'' \<mapsto> NewHeapFile file_schema,
     ''version_memory'' \<mapsto> NewHeapFile (file_schema\<lparr>sch_Name := ''version_memory''\<rparr>)]\<rparr>"

lemma version_exec_settled: "heap_store st \<Longrightarrow> settled (version_exec st)"
  by (simp add: settled_def version_exec_def NewHeapFile_def file_schema_def)

text \<open>No page but the first: no rows.\<close>

definition empty_store :: store where "empty_store = disk_store 2 [NewPage 0]"

lemma empty_image: "image_ok [NewPage 0]"
  using NewPage_ok by (simp add: image_ok_def ReadHeader_NewPage)

lemma empty_store: "heap_store empty_store" "heap_rows tid empty_store = []"
proof -
  show "heap_store empty_store" unfolding empty_store_def by (rule image_store [OF empty_image]) simp
  have "unat (dm_pageCount (st_disk empty_store)) = 1"
    using image_count(2) [OF empty_image, of 2] by (simp add: empty_store_def)
  then show "heap_rows tid empty_store = []" by (simp add: heap_rows_def heap_upto_def)
qed

end
