(* ===== verification/SnapshotProps.thy ===== *)
theory SnapshotProps imports Snapshot ClientReads ClientDemo begin

text \<open>
  Snapshots: what taking one stores, what going back restores, and what the comparison of two versions
  shows.
\<close>

section \<open>Taking a snapshot\<close>

text \<open>The front of an INSERT that has something else than INTO behind it.\<close>

definition refused_front :: "string \<Rightarrow> bool" where
  "refused_front f \<longleftrightarrow> fixed_text f \<and> (case fixed_tokens f of
     a # b # _ \<Rightarrow> a = kw ''INSERT'' \<and> tk_Value b \<noteq> ''INTO'' | _ \<Rightarrow> False)"

lemma refused_front_no_effect: "refused_front f \<Longrightarrow> no_effect cl (f @ t) e"
  using insert_or_refused [of f] by (auto simp: refused_front_def split: list.splits)

abbreviation object_front :: string where "object_front \<equiv> ''
            INSERT OR IGNORE INTO objects (hash, content, size, created_at)
            VALUES (''"

abbreviation version_file_front :: string where "version_file_front \<equiv> ''
            INSERT OR REPLACE INTO version_files (version_id, file_path, object_hash, operation)
            VALUES (''"

abbreviation version_memory_front :: string where "version_memory_front \<equiv> ''
        INSERT OR REPLACE INTO version_memory (version_id, instructions, thoughts, inferences, buffer, created_at)
        VALUES (''"

lemma snapshot_fronts: "refused_front object_front" "refused_front version_file_front" "refused_front version_memory_front"
  by code_simp+

lemma snapshot_each_nothing: "snapshot_each sn now i v files e = (Ok (), e)"
proof (induction files arbitrary: i)
  case (Cons path files)
  show ?case
  proof (cases "sn_read sn path")
    case (Some content)
    let ?h = "sn_sha256 sn content"
    obtain t1 where t1: "sprintf ''
            INSERT OR IGNORE INTO objects (hash, content, size, created_at)
            VALUES ('%s', '%s', %d, %d)
        '' [?h, escapeSQL content, dec (word_of_nat (length content)), dec (now i)] = object_front @ t1" by simp
    obtain t2 where t2: "sprintf ''
            INSERT OR REPLACE INTO version_files (version_id, file_path, object_hash, operation)
            VALUES (%d, '%s', '%s', 'modify')
        '' [dec v, escapeSQL path, ?h] = version_file_front @ t2" by simp
    have "sql_ignore (sn_cl sn) (object_front @ t1) e = (Ok (), e)" "sql_ignore (sn_cl sn) (version_file_front @ t2) e = (Ok (), e)"
      using snapshot_fronts(1,2) [THEN refused_front_no_effect, THEN no_effect_ignore] by blast+
    then show ?thesis unfolding snapshot_each.simps Some option.case Let_def t1 t2 by (simp add: and_then_def Cons.IH)
  qed (simp add: Cons.IH)
qed (simp add: ret_def)

text \<open>C40: A snapshot stores nothing: saving the files and saving the memory report success and leave the database
  exactly as it was, whatever files the project has. INSERT OR IGNORE and INSERT OR REPLACE are
  refused by the parser, and the error comes back inside a result nobody looks at.\<close>

theorem snapshots_store_nothing:
  "snapshotFiles sn now root versionID e = (Ok (), e) \<and> snapshotMemory sn t versionID e = (Ok (), e)"
proof -
  let ?args = "[dec versionID, escapeSQL (sn_enc_instructions sn getCurrentInstructions),
        escapeSQL (sn_enc_thoughts sn getCurrentThoughts), escapeSQL (sn_enc_inferences sn getCurrentInferences),
        escapeSQL (sn_enc_buffer sn getCurrentBuffer), dec t]"
  obtain x where x: "sprintf ''
        INSERT OR REPLACE INTO version_memory (version_id, instructions, thoughts, inferences, buffer, created_at)
        VALUES (%d, '%s', '%s', '%s', '%s', %d)
    '' ?args = version_memory_front @ x" by simp
  have "snapshotMemory sn t versionID e = (Ok (), e)"
    unfolding snapshotMemory_def x by (rule no_effect_do [OF refused_front_no_effect [OF snapshot_fronts(3)]])
  then show ?thesis by (simp add: snapshotFiles_def snapshot_each_nothing)
qed

section \<open>Going back\<close>

text \<open>Reading a version's rows of a table that has none.\<close>

definition version_select :: "string \<Rightarrow> string list \<Rightarrow> string \<Rightarrow> SelectStatement" where
  "version_select t cols v = \<lparr>sel_Table = t, sel_Columns = cols, sel_Aggregates = [],
     sel_Condition = Some \<lparr>bo_Left = Identifier ''version_id'', bo_Operator = ''='', bo_Right = Literal v\<rparr>,
     sel_Join = None, sel_OrderBy = [], sel_OrderDir = [], sel_Limit = -1, sel_Offset = 0, sel_GroupBy = []\<rparr>"

definition no_rows :: "string \<Rightarrow> Executor \<Rightarrow> bool" where
  "no_rows t e \<longleftrightarrow> (\<forall>h. ex_Tables e t = Some h \<longrightarrow> table_rows h e = [])"

lemma no_rows_same: "no_rows t e \<Longrightarrow> same_tables e e' \<Longrightarrow> no_rows t e'"
  using same_tables_fields(1,5) [of e e'] by (simp add: no_rows_def)

lemma select_rows_empty:
  assumes "sel_Aggregates s = []" "sel_OrderBy s = []"
  shows "result_rows (Some (select_rows en s schema [])) = []"
proof -
  have "applyLimitOffset [] l o' = []" for l o' by (simp add: applyLimitOffset_def Let_def)
  then show ?thesis using assms
    by (auto simp: select_rows_def Let_def result_rows_def select_result_def error_result_def filterRows_def
        split: outcome.splits option.splits)
qed

definition version_segments :: "string \<Rightarrow> i64 \<Rightarrow> string \<Rightarrow> segment list" where
  "version_segments f v z = [Fixed f, Number v, Fixed z]"

lemma version_read_nothing:
  assumes st: "settled e" and n: "no_rows t e" and ss: "chain (version_segments f v z)"
    and p: "Parse_tokens (segs_tokens (version_segments f v z)) = Ok (SelectStmt (version_select t cols (dec v)), [])"
  shows "\<exists>r e'. sql_rows cl (f @ dec v @ z) e = (Ok (Some r), e') \<and> result_rows (Some r) = [] \<and> same_tables e e'"
proof -
  let ?sql = "segs_text (version_segments f v z)"
  have "\<exists>r e'. run_sql cl ?sql e = (Ok (Some r, None), e') \<and> result_rows (Some r) = [] \<and> same_tables e e'"
    using chain_Lex [OF ss]
  proof (elim disjE exE)
    fix x assume "Lex ?sql = Err x"
    then show ?thesis using refused_no_effect [of ?sql x cl e] same_tables_refl [OF st] by (auto simp: no_effect_def)
  next
    assume "Lex ?sql = Ok (segs_tokens (version_segments f v z))"
    then have "Parse ?sql = Ok (SelectStmt (version_select t cols (dec v)))" by (simp add: Parse_def p)
    from run_sql_select_settled [OF st this, where P = "\<lambda>r. result_rows (Some r) = []" and cl = cl]
    show ?thesis using n by (simp add: version_select_def no_rows_def select_rows_empty)
  qed
  then show ?thesis by (auto simp: segs_text_def version_segments_def sql_rows_def and_then_def ret_def)
qed

abbreviation files_front :: string where "files_front \<equiv> ''
		SELECT file_path, object_hash FROM version_files WHERE version_id = ''"

abbreviation memory_front :: string where "memory_front \<equiv> ''
        SELECT instructions, thoughts, inferences, buffer
        FROM version_memory WHERE version_id = ''"

lemma files_parsed:
  "chain (version_segments files_front v ''
	'')"
  "Parse_tokens (segs_tokens (version_segments files_front v ''
	'')) = Ok (SelectStmt (version_select ''version_files'' [''file_path'', ''object_hash''] (dec v)), [])"
proof -
  have f: "chain [Fixed files_front]" "fixed_tokens files_front = [kw ''SELECT'', idt ''file_path'', punct '','', idt ''object_hash'',
      kw ''FROM'', idt ''version_files'', kw ''WHERE'', idt ''version_id'', tok TokenOperator ''='']"
    and z: "chain [Fixed ''
	'']" "stop_here [Fixed ''
	'']" "fixed_tokens ''
	'' = []" by code_simp+
  show "chain (version_segments files_front v ''
	'')" using f(1) z(1,2) by (simp add: version_segments_def)
  show "Parse_tokens (segs_tokens (version_segments files_front v ''
	'')) = Ok (SelectStmt (version_select ''version_files'' [''file_path'', ''object_hash''] (dec v)), [])"
    by (simp add: segs_tokens_def version_segments_def f(2) z(3) version_select_def Parse_tokens_def parseSelect_def
        select_columns.simps is_aggregate_def want_def ident_def parseJoin_def parseExpression_def parseWhere_def
        parseCondition_def parseOrderBy_def parseCount_def)
qed

lemma memory_parsed:
  "chain (version_segments memory_front v ''
    '')"
  "Parse_tokens (segs_tokens (version_segments memory_front v ''
    '')) = Ok (SelectStmt (version_select ''version_memory'' [''instructions'', ''thoughts'', ''inferences'', ''buffer''] (dec v)), [])"
proof -
  have f: "chain [Fixed memory_front]" "fixed_tokens memory_front = [kw ''SELECT'', idt ''instructions'', punct '','', idt ''thoughts'',
      punct '','', idt ''inferences'', punct '','', idt ''buffer'',
      kw ''FROM'', idt ''version_memory'', kw ''WHERE'', idt ''version_id'', tok TokenOperator ''='']"
    and z: "chain [Fixed ''
    '']" "stop_here [Fixed ''
    '']" "fixed_tokens ''
    '' = []" by code_simp+
  show "chain (version_segments memory_front v ''
    '')" using f(1) z(1,2) by (simp add: version_segments_def)
  show "Parse_tokens (segs_tokens (version_segments memory_front v ''
    '')) = Ok (SelectStmt (version_select ''version_memory'' [''instructions'', ''thoughts'', ''inferences'', ''buffer''] (dec v)), [])"
    by (simp add: segs_tokens_def version_segments_def f(2) z(3) version_select_def Parse_tokens_def parseSelect_def
        select_columns.simps is_aggregate_def want_def ident_def parseJoin_def parseExpression_def parseWhere_def
        parseCondition_def parseOrderBy_def parseCount_def)
qed

lemma getFilesAtVersion_nothing:
  assumes "settled e" "no_rows ''version_files'' e"
  shows "\<exists>e'. getFilesAtVersion cl v e = (Ok [], e') \<and> same_tables e e'"
proof -
  obtain r e' where r: "sql_rows cl (files_front @ dec v @ ''
	'') e = (Ok (Some r), e')" "result_rows (Some r) = []" "same_tables e e'"
    using version_read_nothing [OF assms files_parsed, of cl v] by blast
  have "sprintf ''
		SELECT file_path, object_hash FROM version_files WHERE version_id = %d
	'' [dec v] = files_front @ dec v @ ''
	''" by simp
  then show ?thesis using r unfolding getFilesAtVersion_def by (simp add: and_then_def pair_map_def ret_def)
qed

lemma restoreMemory_nothing:
  assumes "settled e" "no_rows ''version_memory'' e"
  shows "\<exists>e'. restoreMemory sn sm v e = (Ok (), e') \<and> same_tables e e'"
proof -
  obtain r e' where r: "sql_rows (sn_cl sn) (memory_front @ dec v @ ''
    '') e = (Ok (Some r), e')" "result_rows (Some r) = []" "same_tables e e'"
    using version_read_nothing [OF assms memory_parsed, of "sn_cl sn" v] by blast
  have "sprintf ''
        SELECT instructions, thoughts, inferences, buffer
        FROM version_memory WHERE version_id = %d
    '' [dec v] = memory_front @ dec v @ ''
    ''" by simp
  then show ?thesis using r unfolding restoreMemory_def by (simp add: and_then_def ret_def)
qed

text \<open>Going back to a version restores nothing: with no rows for files and memory, and a snapshot adds none,
  RollbackToVersion reports success for every version number, writes no file, and changes no table.\<close>

theorem rollback_restores_nothing:
  assumes "settled e" "no_rows ''version_files'' e" "no_rows ''version_memory'' e" "sn_order sn [] = []"
  shows "\<exists>e'. RollbackToVersion sn sm versionID e fs = (Ok (), e', fs) \<and> same_tables e e'"
proof -
  obtain e1 where e1: "getFilesAtVersion (sn_cl sn) versionID e = (Ok [], e1)" "same_tables e e1"
    using getFilesAtVersion_nothing [OF assms(1,2)] by blast
  obtain e2 where e2: "restoreMemory sn sm versionID e1 = (Ok (), e2)" "same_tables e1 e2"
    using restoreMemory_nothing [OF same_tables_settled [OF assms(1) e1(2)] no_rows_same [OF assms(3) e1(2)]] by blast
  show ?thesis using e1(1) e2(1) same_tables_trans [OF e1(2) e2(2)] assms(4)
    by (simp add: RollbackToVersion_def restoreFiles_def)
qed

text \<open>A map ranged over in the order of its list, and paths that can all be written.\<close>

definition demo_snap :: "client_env \<Rightarrow> snap_env" where
  "demo_snap cl = \<lparr>sn_cl = cl, sn_read = (\<lambda>_. None), sn_writable = (\<lambda>_. True), sn_sha256 = id, sn_order = id,
     sn_order_buffer = id, sn_enc_instructions = (\<lambda>_. []), sn_enc_thoughts = (\<lambda>_. []), sn_enc_inferences = (\<lambda>_. []),
     sn_enc_buffer = (\<lambda>_. []), sn_dec_instructions = (\<lambda>_. []), sn_dec_thoughts = (\<lambda>_. []),
     sn_dec_inferences = (\<lambda>_. []), sn_dec_buffer = (\<lambda>_. [])\<rparr>"

theorem rollback_restores_nothing_witness:
  "\<forall>cl. \<exists>e'. RollbackToVersion (demo_snap cl) \<lparr>sm_projectPath = ''/p'', sm_hasMemory = True\<rparr> 3
      (version_exec empty_store) [''/p/a.go'' \<mapsto> ''x''] = (Ok (), e', [''/p/a.go'' \<mapsto> ''x''])
    \<and> same_tables (version_exec empty_store) e'"
proof
  fix cl
  have n: "no_rows t (version_exec empty_store)" for t
    using empty_store(2) by (auto simp: no_rows_def table_rows_def version_exec_def decode_rows_def)
  have o: "sn_order (demo_snap cl) [] = []" by (simp add: demo_snap_def)
  show "\<exists>e'. RollbackToVersion (demo_snap cl) \<lparr>sm_projectPath = ''/p'', sm_hasMemory = True\<rparr> 3
      (version_exec empty_store) [''/p/a.go'' \<mapsto> ''x''] = (Ok (), e', [''/p/a.go'' \<mapsto> ''x''])
    \<and> same_tables (version_exec empty_store) e'"
    by (rule rollback_restores_nothing [OF version_exec_settled [OF empty_store(1)] n n o])
qed

end
