(* ===== verification/DemoStore.thy ===== *)
theory DemoStore imports Examples begin

text \<open>
  Stores for the witnesses that need several rows: every row on a page of its own, behind page 0.
\<close>

definition row_page :: "u64 \<Rightarrow> u32 \<times> byte list \<Rightarrow> page" where
  "row_page n x = snd (Page_InsertRow (snd x) (set_table (fst x) (NewPage n)))"

lemma row_page_facts:
  assumes "0 < length (snd x)" "length (snd x) \<le> max_row"
  shows "page_ok (row_page n x)" "page_rows (row_page n x) = [Some (snd x)]" "table_of (row_page n x) = fst x"
    "h_PageID (Page_ReadHeader (row_page n x)) = n"
proof -
  let ?p = "set_table (fst x) (NewPage n)"
  note t = set_table_facts [OF NewPage_ok, of "fst x" n]
  have e: "free_end ?p - free_off ?p = 4072" using t by (simp add: free_end_def free_off_def ReadHeader_NewPage)
  have "length (snd x) + SlotSize \<le> free_end ?p - free_off ?p" using assms(2) e by (simp add: max_row_def layout)
  from InsertRow_refines [OF t(1) this] obtain p' where
    p': "Page_InsertRow (snd x) ?p = (Ok (h_RowCount (Page_ReadHeader ?p)), p')" "page_ok p'"
      "page_rows p' = page_rows ?p @ [if snd x = [] then None else Some (snd x)]"
      "h_TableID (Page_ReadHeader p') = h_TableID (Page_ReadHeader ?p)"
      "h_PageID (Page_ReadHeader p') = h_PageID (Page_ReadHeader ?p)"
    by blast
  have "row_page n x = p'" by (simp add: row_page_def p'(1))
  then show "page_ok (row_page n x)" "page_rows (row_page n x) = [Some (snd x)]" "table_of (row_page n x) = fst x"
    "h_PageID (Page_ReadHeader (row_page n x)) = n"
    using p' assms t(2,3,9) e by (auto simp: page_rows_NewPage table_of_def ReadHeader_NewPage)
qed

definition rows_pages :: "(u32 \<times> byte list) list \<Rightarrow> page list" where
  "rows_pages xs = NewPage 0 # map (\<lambda>i. row_page (word_of_nat (Suc i)) (xs ! i)) [0..<length xs]"

definition rows_store :: "(u32 \<times> byte list) list \<Rightarrow> store" where
  "rows_store xs = disk_store 2 (rows_pages xs)"

lemma rows_store:
  assumes rows: "\<forall>x \<in> set xs. 0 < length (snd x) \<and> length (snd x) \<le> max_row" and few: "length xs < 1000"
  shows "heap_store (rows_store xs)"
    and "heap_rows tid (rows_store xs) = concat (map (\<lambda>i. if fst (xs ! i) = tid
      then [(\<lparr>rid_PageID = word_of_nat (Suc i), rid_SlotID = 0\<rparr>, snd (xs ! i))] else []) [0..<length xs])"
proof -
  have f: "page_ok (row_page n (xs ! i)) \<and> page_rows (row_page n (xs ! i)) = [Some (snd (xs ! i))]
      \<and> table_of (row_page n (xs ! i)) = fst (xs ! i) \<and> h_PageID (Page_ReadHeader (row_page n (xs ! i))) = n"
    if "i < length xs" for n i using row_page_facts [of "xs ! i" n] rows that by simp
  have ok: "image_ok (rows_pages xs)"
    using f few NewPage_ok by (auto simp: image_ok_def rows_pages_def nth_Cons ReadHeader_NewPage split: nat.split)
  show "heap_store (rows_store xs)" unfolding rows_store_def by (rule image_store [OF ok]) simp
  have n: "unat (dm_pageCount (st_disk (rows_store xs))) = Suc (length xs)"
    using image_count(2) [OF ok, of 2] by (simp add: rows_store_def rows_pages_def)
  have live: "page_live tid (pg_of (rows_store xs) (word_of_nat (Suc i)))
      = (if fst (xs ! i) = tid then [(\<lparr>rid_PageID = word_of_nat (Suc i), rid_SlotID = 0\<rparr>, snd (xs ! i))] else [])"
    if i: "i < length xs" for i
  proof -
    have u: "unat (word_of_nat (Suc i) :: u64) = Suc i" using i few by (simp add: unat_of_nat del: of_nat_Suc)
    have "pg_Data (pg_of (rows_store xs) (word_of_nat (Suc i))) = pg_Data (row_page (word_of_nat (Suc i)) (xs ! i))"
      unfolding pg_of_def rows_store_def image_view [OF ok] u using i by (simp add: rows_pages_def)
    note b = page_bytes [OF this]
    show ?thesis using b f [OF i] by (simp add: page_live_def live_at_def pg_of_def)
  qed
  have "heap_rows tid (rows_store xs) = concat (map (\<lambda>i. page_live tid (pg_of (rows_store xs) (word_of_nat (Suc i)))) [0..<length xs])"
    unfolding heap_rows_def heap_upto_def n One_nat_def map_Suc_upt [symmetric] map_map comp_def by (rule refl)
  also have "\<dots> = concat (map (\<lambda>i. if fst (xs ! i) = tid
      then [(\<lparr>rid_PageID = word_of_nat (Suc i), rid_SlotID = 0\<rparr>, snd (xs ! i))] else []) [0..<length xs])"
    using live by (intro arg_cong [where f = concat] map_cong) auto
  finally show "heap_rows tid (rows_store xs) = concat (map (\<lambda>i. if fst (xs ! i) = tid
      then [(\<lparr>rid_PageID = word_of_nat (Suc i), rid_SlotID = 0\<rparr>, snd (xs ! i))] else []) [0..<length xs])" .
qed

end
