(* ===== verification/DiffProps.thy ===== *)
theory DiffProps imports SnapshotProps DemoStore begin

text \<open>
  The comparison of two versions as a function of the tables.
\<close>

section \<open>What the manager reads\<close>

definition files_at :: "client_env \<Rightarrow> Executor \<Rightarrow> i64 \<Rightarrow> (string \<times> string) list" where
  "files_at cl e v = pair_map cl (Some (answer cl e (sprintf ''
		SELECT file_path, object_hash FROM version_files WHERE version_id = %d
	'' [dec v])))"

definition content_at :: "client_env \<Rightarrow> Executor \<Rightarrow> string \<Rightarrow> string" where
  "content_at cl e h = first_value cl (Some (answer cl e
     (sprintf (''SELECT content FROM objects WHERE hash = '%s'' @ [apostrophe]) [h])))"

lemma at_same: "same_tables e e' \<Longrightarrow> files_at cl e' = files_at cl e" "same_tables e e' \<Longrightarrow> content_at cl e' = content_at cl e"
  using answer_same [of e e'] by (auto simp: files_at_def content_at_def fun_eq_iff)

lemma getFilesAtVersion_reads:
  assumes "settled e"
  shows "\<exists>e'. getFilesAtVersion cl v e = (Ok (files_at cl e v), e') \<and> same_tables e e'"
proof -
  let ?f = "''
		SELECT file_path, object_hash FROM version_files WHERE ''" and ?sql = "sprintf ''
		SELECT file_path, object_hash FROM version_files WHERE version_id = %d
	'' [dec v]"
  have "fixed_text ?f \<and> select_head (fixed_tokens ?f) \<noteq> None" by code_simp
  then obtain h where f: "fixed_text ?f" "select_head (fixed_tokens ?f) = Some h" by auto
  obtain t where t: "?sql = ?f @ t" by simp
  obtain e' where "sql_rows cl ?sql e = (Ok (Some (answer cl e ?sql)), e')" "same_tables e e'"
    using sql_rows_answer [OF assms f, of cl t] unfolding t by blast
  then show ?thesis unfolding getFilesAtVersion_def files_at_def by (simp only: and_then_def ret_def prod.case outcome.case) simp
qed

lemma getContent_reads:
  assumes "settled e"
  shows "\<exists>e'. getContent cl h e = (Ok (content_at cl e h), e') \<and> same_tables e e'"
proof -
  let ?f = "''SELECT content FROM objects WHERE ''" and ?sql = "sprintf (''SELECT content FROM objects WHERE hash = '%s'' @ [apostrophe]) [h]"
  have "fixed_text ?f \<and> select_head (fixed_tokens ?f) \<noteq> None" by code_simp
  then obtain hd where f: "fixed_text ?f" "select_head (fixed_tokens ?f) = Some hd" by auto
  obtain t where t: "?sql = ?f @ t" by simp
  obtain e' where "sql_rows cl ?sql e = (Ok (Some (answer cl e ?sql)), e')" "same_tables e e'"
    using sql_rows_answer [OF assms f, of cl t] unfolding t by blast
  then show ?thesis unfolding getContent_def content_at_def by (simp only: and_then_def ret_def prod.case outcome.case) simp
qed

section \<open>The comparison\<close>

text \<open>The paths both versions have, with their hashes where these differ.\<close>

fun changed_files :: "(string \<times> string) list \<Rightarrow> (string \<times> string) list \<Rightarrow> (string \<times> string \<times> string) list" where
  "changed_files [] B = []"
| "changed_files ((p, ha) # A) B = (case map_of B p of
     Some hb \<Rightarrow> if ha \<noteq> hb then (p, ha, hb) # changed_files A B else changed_files A B
   | None \<Rightarrow> changed_files A B)"

definition too_short :: "string \<Rightarrow> string \<Rightarrow> bool" where
  "too_short a b \<longleftrightarrow> a \<noteq> b \<and> (length a < 100 \<or> length b < 100)"

definition some_short :: "(string \<Rightarrow> string) \<Rightarrow> (string \<times> string \<times> string) list \<Rightarrow> bool" where
  "some_short c fs \<longleftrightarrow> (\<exists>(p, ha, hb) \<in> set fs. too_short (c ha) (c hb))"

lemma some_short_simps [simp]: "\<not> some_short c []"
  "some_short c ((p, ha, hb) # fs) \<longleftrightarrow> too_short (c ha) (c hb) \<or> some_short c fs"
  by (auto simp: some_short_def)

definition file_diff :: "string \<Rightarrow> string \<Rightarrow> string \<Rightarrow> FileDiff" where
  "file_diff p a b = \<lparr>fd_Path = p, fd_OldContent = a, fd_NewContent = b,
     fd_UnifiedDiff = (if a = b then []
       else ''--- old'' @ utf8 [10] @ ''+++ new'' @ utf8 [10] @ take 100 a @ utf8 [10] @ take 100 b)\<rparr>"

lemma utf8_newline: "utf8 [10] = [CHR 0x0A]"
  by code_simp

lemma unifiedDiff_cases:
  "unifiedDiff a b = (if too_short a b then Panic else Ok (fd_UnifiedDiff (file_diff p a b)))"
  by (auto simp: unifiedDiff_def too_short_def first_100_def file_diff_def utf8_newline)

lemma diff_each_reads:
  assumes "settled e"
  shows "if some_short (content_at (sn_cl sn) e) (changed_files A B)
    then fst (diff_each sn B A d e) = Panic
    else \<exists>e'. diff_each sn B A d e = (Ok (d\<lparr>di_Removed := di_Removed d @ filter (\<lambda>p. map_of B p = None) (map fst A),
        di_Modified := di_Modified d @ map (\<lambda>(p, ha, hb). file_diff p (content_at (sn_cl sn) e ha) (content_at (sn_cl sn) e hb))
          (changed_files A B)\<rparr>), e') \<and> same_tables e e'"
  using assms
proof (induction A B arbitrary: d e rule: changed_files.induct)
  case (1 B)
  then show ?case using same_tables_refl by (auto simp: ret_def)
next
  case (2 p ha A B)
  show ?case
  proof (cases "map_of B p")
    case None
    then show ?thesis using "2.IH"(1) [OF None "2.prems", of "d\<lparr>di_Removed := di_Removed d @ [p]\<rparr>"]
      by (simp split: if_splits)
  next
    case (Some hb)
    show ?thesis
    proof (cases "ha = hb")
      case True
      then show ?thesis using "2.IH"(3) [OF Some _ "2.prems", of d] Some by simp
    next
      case False
      let ?a = "content_at (sn_cl sn) e ha" and ?b = "content_at (sn_cl sn) e hb"
      obtain e1 where e1: "getContent (sn_cl sn) ha e = (Ok ?a, e1)" "same_tables e e1"
        using getContent_reads [OF "2.prems"] by blast
      have s1: "settled e1" by (rule same_tables_settled [OF "2.prems" e1(2)])
      obtain e2 where e2: "getContent (sn_cl sn) hb e1 = (Ok ?b, e2)" "same_tables e1 e2"
        using getContent_reads [OF s1, of "sn_cl sn" hb] at_same(2) [OF e1(2)] by auto
      have st: "same_tables e e2" by (rule same_tables_trans [OF e1(2) e2(2)])
      have s2: "settled e2" by (rule same_tables_settled [OF s1 e2(2)])
      note step = e1(1) e2(1) Some False
      show ?thesis
      proof (cases "too_short ?a ?b")
        case True
        then show ?thesis using step by (simp add: and_then_def unifiedDiff_cases [of _ _ p])
      next
        case ok: False
        let ?d = "d\<lparr>di_Modified := di_Modified d @ [file_diff p ?a ?b]\<rparr>"
        have run: "diff_each sn B ((p, ha) # A) d e = diff_each sn B A ?d e2"
          using step ok by (simp add: and_then_def unifiedDiff_cases [of _ _ p]) (simp add: file_diff_def)
        have ih: "if some_short (content_at (sn_cl sn) e) (changed_files A B)
          then fst (diff_each sn B A ?d e2) = Panic
          else \<exists>e'. diff_each sn B A ?d e2 = (Ok (?d\<lparr>di_Removed := di_Removed ?d @ filter (\<lambda>p. map_of B p = None) (map fst A),
            di_Modified := di_Modified ?d @ map (\<lambda>(p, ha, hb). file_diff p (content_at (sn_cl sn) e ha) (content_at (sn_cl sn) e hb))
              (changed_files A B)\<rparr>), e') \<and> same_tables e2 e'"
          using "2.IH"(2) [OF Some False s2, of ?d] unfolding at_same(2) [OF st] .
        show ?thesis using ih Some False ok same_tables_trans [OF st] unfolding run by (simp split: if_splits) blast
      qed
    qed
  qed
qed

text \<open>C27: On an executor between statements, the comparison of two versions is exact: the removed paths are those
  only the first version has, the added ones those only the second has, the modified ones those of both whose
  object hashes differ, each with the two contents read from the table of objects; all in the order in which
  the maps are ranged over. But when the two contents read for a modified file differ and one of them is shorter
  than 100 bytes, the comparison panics instead. (The content of a missing object reads as empty; two
  contents that read the same do not panic, however short.)\<close>

theorem diff_is_exact:
  assumes "settled e" and A: "A = files_at (sn_cl sn) e versionA" and B: "B = files_at (sn_cl sn) e versionB"
    and c: "c = content_at (sn_cl sn) e"
  shows "if \<exists>(p, ha, hb) \<in> set (changed_files (sn_order sn A) B). c ha \<noteq> c hb \<and> (length (c ha) < 100 \<or> length (c hb) < 100)
    then fst (Snapshot_Diff sn versionA versionB e) = Panic
    else \<exists>e'. Snapshot_Diff sn versionA versionB e
      = (Ok \<lparr>di_Added = filter (\<lambda>p. map_of A p = None) (map fst (sn_order sn B)),
             di_Removed = filter (\<lambda>p. map_of B p = None) (map fst (sn_order sn A)),
             di_Modified = map (\<lambda>(p, ha, hb). file_diff p (c ha) (c hb)) (changed_files (sn_order sn A) B)\<rparr>, e')
        \<and> same_tables e e'"
proof -
  obtain e1 where e1: "getFilesAtVersion (sn_cl sn) versionA e = (Ok A, e1)" "same_tables e e1"
    using getFilesAtVersion_reads [OF assms(1)] A by blast
  have s1: "settled e1" by (rule same_tables_settled [OF assms(1) e1(2)])
  obtain e2 where e2: "getFilesAtVersion (sn_cl sn) versionB e1 = (Ok B, e2)" "same_tables e1 e2"
    using getFilesAtVersion_reads [OF s1, of "sn_cl sn" versionB] at_same(1) [OF e1(2)] B by auto
  have st: "same_tables e e2" by (rule same_tables_trans [OF e1(2) e2(2)])
  have s2: "settled e2" by (rule same_tables_settled [OF s1 e2(2)])
  let ?d = "\<lparr>di_Added = [], di_Removed = [], di_Modified = []\<rparr>"
  have d: "if some_short c (changed_files (sn_order sn A) B)
    then fst (diff_each sn B (sn_order sn A) ?d e2) = Panic
    else \<exists>e'. diff_each sn B (sn_order sn A) ?d e2 = (Ok (?d\<lparr>di_Removed := di_Removed ?d @ filter (\<lambda>p. map_of B p = None) (map fst (sn_order sn A)),
        di_Modified := di_Modified ?d @ map (\<lambda>(p, ha, hb). file_diff p (c ha) (c hb)) (changed_files (sn_order sn A) B)\<rparr>), e')
        \<and> same_tables e2 e'"
    using diff_each_reads [OF s2, where A = "sn_order sn A" and B = B and sn = sn and d = ?d] unfolding at_same(2) [OF st] c .
  have run: "Snapshot_Diff sn versionA versionB e = and_then (diff_each sn B (sn_order sn A) ?d)
      (\<lambda>diff. ret (diff\<lparr>di_Added := di_Added diff @ filter (\<lambda>path. map_of A path = None) (map fst (sn_order sn B))\<rparr>)) e2"
    using e1(1) e2(1) by (simp add: Snapshot_Diff_def and_then_def)
  have short: "(\<exists>(p, ha, hb) \<in> set (changed_files (sn_order sn A) B). c ha \<noteq> c hb \<and> (length (c ha) < 100 \<or> length (c hb) < 100))
      = some_short c (changed_files (sn_order sn A) B)"
    by (simp add: some_short_def too_short_def)
  show ?thesis
  proof (cases "some_short c (changed_files (sn_order sn A) B)")
    case True
    then have "fst (diff_each sn B (sn_order sn A) ?d e2) = Panic" using d by simp
    then show ?thesis using True unfolding run short
      by (cases "diff_each sn B (sn_order sn A) ?d e2") (simp add: and_then_def)
  next
    case False
    then obtain e' where "diff_each sn B (sn_order sn A) ?d e2 = (Ok (?d\<lparr>di_Removed := di_Removed ?d @ filter (\<lambda>p. map_of B p = None) (map fst (sn_order sn A)),
        di_Modified := di_Modified ?d @ map (\<lambda>(p, ha, hb). file_diff p (c ha) (c hb)) (changed_files (sn_order sn A) B)\<rparr>), e')"
        "same_tables e2 e'" using d by auto
    then show ?thesis using False same_tables_trans [OF st] unfolding run short by (auto simp: and_then_def ret_def)
  qed
qed

text \<open>
  A database with one file in three versions: it changes between versions 1 and 2, whose objects are stored, and the
  object of version 3 is missing.
\<close>

definition object_schema :: TableSchema where
  "object_schema = \<lparr>sch_Name = ''objects'', sch_Columns = [demo_column ''hash'' TypeText, demo_column ''content'' TypeText]\<rparr>"

definition version_bytes :: "byte \<Rightarrow> byte list" where
  "version_bytes v = [0, v, 0, 0, 0, 0, 0, 6, 0, 0, 0, 0, 0, 6, 0, 4, 0, 97, 46, 103, 111, 2, 0, 104, 48 + v]"

definition object_bytes :: "byte \<Rightarrow> byte \<Rightarrow> byte list" where
  "object_bytes v c = [0, 0, 0, 4, 0, 0, 0, 4, 0, 2, 0, 104, 48 + v, 100, 0] @ replicate 100 c"

abbreviation file_tid :: u32 where "file_tid \<equiv> HeapFile_TableID (NewHeapFile file_schema)"
abbreviation object_tid :: u32 where "object_tid \<equiv> HeapFile_TableID (NewHeapFile object_schema)"

definition change_rows :: "(u32 \<times> byte list) list" where
  "change_rows = [(file_tid, version_bytes 1), (file_tid, version_bytes 2), (file_tid, version_bytes 3),
     (object_tid, object_bytes 1 120), (object_tid, object_bytes 2 121)]"

definition change_exec :: Executor where
  "change_exec = demo_exec\<lparr>ex_store := rows_store change_rows,
     ex_Tables := [''version_files'' \<mapsto> NewHeapFile file_schema, ''objects'' \<mapsto> NewHeapFile object_schema]\<rparr>"

lemma change_rows_fit: "\<forall>x \<in> set change_rows. 0 < length (snd x) \<and> length (snd x) \<le> max_row" "length change_rows < 1000"
  by (simp_all add: change_rows_def version_bytes_def object_bytes_def max_row_def layout)

lemma change_settled: "settled change_exec"
  using rows_store(1) [OF change_rows_fit]
  by (simp add: settled_def change_exec_def NewHeapFile_def file_schema_def object_schema_def)

lemma tids_differ: "file_tid \<noteq> object_tid"
  by (simp add: HeapFile_TableID_def NewHeapFile_def file_schema_def object_schema_def hashString_ascii code_def)

lemma change_decoded:
  "DeserializeRow (version_bytes 1) file_schema = Ok \<lparr>row_RID = InvalidRID, row_Values = [VInt32 1, VString ''a.go'', VString ''h1'']\<rparr>"
  "DeserializeRow (version_bytes 2) file_schema = Ok \<lparr>row_RID = InvalidRID, row_Values = [VInt32 2, VString ''a.go'', VString ''h2'']\<rparr>"
  "DeserializeRow (version_bytes 3) file_schema = Ok \<lparr>row_RID = InvalidRID, row_Values = [VInt32 3, VString ''a.go'', VString ''h3'']\<rparr>"
  by code_simp+

lemma object_decoded:
  "DeserializeRow (object_bytes 1 120) object_schema = Ok \<lparr>row_RID = InvalidRID, row_Values = [VString ''h1'', VString (replicate 100 CHR ''x'')]\<rparr>"
  "DeserializeRow (object_bytes 2 121) object_schema = Ok \<lparr>row_RID = InvalidRID, row_Values = [VString ''h2'', VString (replicate 100 CHR ''y'')]\<rparr>"
  by code_simp+

lemma change_heap:
  "map snd (heap_rows file_tid (rows_store change_rows)) = [version_bytes 1, version_bytes 2, version_bytes 3]"
  "map snd (heap_rows object_tid (rows_store change_rows)) = [object_bytes 1 120, object_bytes 2 121]"
  unfolding rows_store(2) [OF change_rows_fit] using tids_differ
  by (simp_all add: change_rows_def upt_rec numeral_nat)

lemma values_of_bytes:
  "map row_Values (decode_rows schema rs)
    = concat (map (\<lambda>d. case DeserializeRow d schema of Ok row \<Rightarrow> [row_Values row] | _ \<Rightarrow> []) (map snd rs))"
  by (induction rs) (auto simp: decode_rows_def decode_def split: outcome.split)

lemma change_tables:
  "map row_Values (table_rows (NewHeapFile file_schema) change_exec)
    = [[VInt32 1, VString ''a.go'', VString ''h1''], [VInt32 2, VString ''a.go'', VString ''h2''], [VInt32 3, VString ''a.go'', VString ''h3'']]"
  "map row_Values (table_rows (NewHeapFile object_schema) change_exec)
    = [[VString ''h1'', VString (replicate 100 CHR ''x'')], [VString ''h2'', VString (replicate 100 CHR ''y'')]]"
proof -
  have s: "hf_Schema (NewHeapFile schema) = schema" for schema by (simp add: NewHeapFile_def)
  have e: "ex_store change_exec = rows_store change_rows" by (simp add: change_exec_def)
  show "map row_Values (table_rows (NewHeapFile file_schema) change_exec)
      = [[VInt32 1, VString ''a.go'', VString ''h1''], [VInt32 2, VString ''a.go'', VString ''h2''], [VInt32 3, VString ''a.go'', VString ''h3'']]"
    unfolding table_rows_def s e values_of_bytes change_heap by (simp add: change_decoded)
  show "map row_Values (table_rows (NewHeapFile object_schema) change_exec)
      = [[VString ''h1'', VString (replicate 100 CHR ''x'')], [VString ''h2'', VString (replicate 100 CHR ''y'')]]"
    unfolding table_rows_def s e values_of_bytes change_heap by (simp add: object_decoded)
qed

text \<open>What the queries of the comparison answer.\<close>

lemma change_open: "ex_Tables change_exec ''version_files'' = Some (NewHeapFile file_schema)"
    "ex_Tables change_exec ''objects'' = Some (NewHeapFile object_schema)"
    "hf_Schema (NewHeapFile file_schema) = file_schema" "hf_Schema (NewHeapFile object_schema) = object_schema"
  by (simp_all add: change_exec_def NewHeapFile_def)

lemma change_files:
  "files_at cl change_exec 1 = [(''a.go'', ''h1'')]" "files_at cl change_exec 2 = [(''a.go'', ''h2'')]"
  "files_at cl change_exec 3 = [(''a.go'', ''h3'')]"
proof -
  have d: "dec 1 = ''1''" "dec 2 = ''2''" "dec 3 = ''3''" "dec_int 1 = ''1''" "dec_int 2 = ''2''" "dec_int 3 = ''3''" by code_simp+
  have c: "findColumnIndex file_schema ''version_id'' = Some 0" "findColumnIndex file_schema ''file_path'' = Some 1"
    "findColumnIndex file_schema ''object_hash'' = Some 2" by code_simp+
  have p: "Parse (''
		SELECT file_path, object_hash FROM version_files WHERE version_id = '' @ v @ ''
	'') = Ok (SelectStmt (version_select ''version_files'' [''file_path'', ''object_hash''] v))" if "v \<in> {''1'', ''2'', ''3''}" for v
    using that unfolding insert_iff empty_iff by (elim disjE FalseE; simp only:; code_simp)
  obtain r1 r2 r3 where r: "table_rows (NewHeapFile file_schema) change_exec = [r1, r2, r3]"
      "row_Values r1 = [VInt32 1, VString ''a.go'', VString ''h1'']" "row_Values r2 = [VInt32 2, VString ''a.go'', VString ''h2'']"
      "row_Values r3 = [VInt32 3, VString ''a.go'', VString ''h3'']"
    using change_tables(1) by (auto simp: map_eq_Cons_conv)
  show "files_at cl change_exec 1 = [(''a.go'', ''h1'')]" "files_at cl change_exec 2 = [(''a.go'', ''h2'')]"
    "files_at cl change_exec 3 = [(''a.go'', ''h3'')]"
    using p [of "''1''"] p [of "''2''"] p [of "''3''"]
    by (simp_all add: files_at_def d answer_def version_select_def change_open select_rows_def Let_def r c
        filterRows_def evaluateCondition_def select_result_def pair_map_def result_rows_def cell_text_def)
qed

lemma change_contents:
  "content_at cl change_exec ''h1'' = replicate 100 CHR ''x''" "content_at cl change_exec ''h2'' = replicate 100 CHR ''y''"
  "content_at cl change_exec ''h3'' = []"
proof -
  have c: "findColumnIndex object_schema ''hash'' = Some 0" "findColumnIndex object_schema ''content'' = Some 1" by code_simp+
  have p: "Parse (''SELECT content FROM objects WHERE hash = '' @ [apostrophe] @ v @ [apostrophe])
      = Ok (SelectStmt \<lparr>sel_Table = ''objects'', sel_Columns = [''content''], sel_Aggregates = [],
     sel_Condition = Some \<lparr>bo_Left = Identifier ''hash'', bo_Operator = ''='', bo_Right = Literal v\<rparr>,
     sel_Join = None, sel_OrderBy = [], sel_OrderDir = [], sel_Limit = -1, sel_Offset = 0, sel_GroupBy = []\<rparr>)"
    if "v \<in> {''h1'', ''h2'', ''h3''}" for v
    using that unfolding insert_iff empty_iff by (elim disjE FalseE; simp only:; code_simp)
  obtain r1 r2 where r: "table_rows (NewHeapFile object_schema) change_exec = [r1, r2]"
      "row_Values r1 = [VString ''h1'', VString (replicate 100 CHR ''x'')]" "row_Values r2 = [VString ''h2'', VString (replicate 100 CHR ''y'')]"
    using change_tables(2) by (auto simp: map_eq_Cons_conv)
  have q: "sprintf (''SELECT content FROM objects WHERE hash = '%s'' @ [apostrophe]) [v]
      = ''SELECT content FROM objects WHERE hash = '' @ [apostrophe] @ v @ [apostrophe]" for v
    by (simp add: apostrophe_def)
  show "content_at cl change_exec ''h1'' = replicate 100 CHR ''x''" "content_at cl change_exec ''h2'' = replicate 100 CHR ''y''"
    "content_at cl change_exec ''h3'' = []"
    unfolding content_at_def q using p [of "''h1''"] p [of "''h2''"] p [of "''h3''"]
    by (simp_all only: insert_iff simp_thms answer_def outcome.case Statement.case change_open option.case SelectStatement.simps)
       (simp_all add: select_rows_def Let_def r c filterRows_def evaluateCondition_def select_result_def result_rows_def
         cell_text_def first_value_def)
qed

text \<open>From version 1 to 2 the file is modified; from version 1 to 3 the comparison panics.\<close>

theorem diff_is_exact_witness:
  "\<forall>cl. (\<exists>e'. Snapshot_Diff (demo_snap cl) 1 2 change_exec
      = (Ok \<lparr>di_Added = [], di_Removed = [],
             di_Modified = [file_diff ''a.go'' (replicate 100 CHR ''x'') (replicate 100 CHR ''y'')]\<rparr>, e'))
    \<and> fst (Snapshot_Diff (demo_snap cl) 1 3 change_exec) = Panic"
proof (intro allI conjI)
  fix cl
  have o: "sn_order (demo_snap cl) fs = fs" "sn_cl (demo_snap cl) = cl" for fs by (simp_all add: demo_snap_def)
  note spec = diff_is_exact [OF change_settled refl refl refl, of "demo_snap cl" 1, unfolded o change_files]
  have "(replicate 100 CHR ''x'' :: string) \<noteq> replicate 100 CHR ''y''" by simp
  then show "\<exists>e'. Snapshot_Diff (demo_snap cl) 1 2 change_exec
      = (Ok \<lparr>di_Added = [], di_Removed = [],
             di_Modified = [file_diff ''a.go'' (replicate 100 CHR ''x'') (replicate 100 CHR ''y'')]\<rparr>, e')"
    using spec [of 2] unfolding change_files by (auto simp: change_contents)
  show "fst (Snapshot_Diff (demo_snap cl) 1 3 change_exec) = Panic"
    using spec [of 3] unfolding change_files by (auto simp: change_contents)
qed

end
