(* ===== verification/LlmClient.thy ===== *)
theory LlmClient imports GoLib begin

text \<open>
  \<^verbatim>\<open>pkg/agent/types.go\<close> and \<^verbatim>\<open>pkg/agent/llm.go\<close>: messages and tool calls, and the client of the language
  model. The model answers over HTTP: \<open>lv_http\<close> gives the reply to the n-th request. JSON is a
  parameter, too: what a body or the payload of a line of the stream decodes to, and whether a text is
  a JSON value. The callbacks of a stream are the list of their calls, in order. Console output is left
  out.
\<close>

section \<open>Messages\<close>

record ToolCallFunction =
  tf_Name :: string
  tf_Arguments :: string

record ToolCall =
  tlc_ID :: string
  tlc_Type :: string
  tlc_Function :: ToolCallFunction

record Message =
  ms_Role :: string
  ms_Content :: string
  ms_ToolCalls :: "ToolCall list"
  ms_ToolCallID :: string

text \<open>The parameters of every tool are strings: their names, and those that are required.\<close>

record ToolFunction =
  fnc_Name :: string
  fnc_Description :: string
  fnc_Properties :: "string list"
  fnc_Required :: "string list"

record Tool =
  tool_Type :: string
  tool_Function :: ToolFunction

record ChatRequest =
  rq_Model :: string
  rq_Messages :: "Message list"
  rq_Tools :: "Tool list"
  rq_Stream :: bool

text \<open>The message of a choice, and the delta of a choice in a stream; a response is the list of its choices.\<close>

record Reply =
  re_Content :: string
  re_ToolCalls :: "ToolCall list"

record LLMClient =
  lc_APIKey :: string
  lc_Model :: string
  lc_BaseURL :: string

section \<open>The network\<close>

record http_request =
  hr_URL :: string
  hr_Headers :: "(string \<times> string) list"
  hr_Body :: ChatRequest

text \<open>
  The request cannot be made, no response comes, or a response with its status and body; the last
  component is the error with which reading the body ends, if it does not end with the end of the body.
\<close>

datatype http_reply = NoRequest string | NoResponse string | Response nat string "string option"

record llm_env =
  lv_http :: "nat \<Rightarrow> http_request \<Rightarrow> http_reply"
  lv_valid :: "string \<Rightarrow> bool"
  lv_delta :: "string \<Rightarrow> Reply list option"
  lv_reply :: "string \<Rightarrow> string + Reply list"

datatype llm_err =
    RequestFailed string
  | NetworkFailed string
  | LlmStatus nat string
  | StreamBroken string
  | BodyBroken string
  | BadReply string
  | EmptyReply

section \<open>Lines of a stream\<close>

text \<open>\<^verbatim>\<open>strings.TrimSpace\<close>, \<^verbatim>\<open>strings.TrimRight(s, "/")\<close>; the blanks are the ASCII ones.\<close>

definition TrimSpace :: "string \<Rightarrow> string" where
  "TrimSpace s = rev (dropWhile is_space (rev (dropWhile is_space s)))"

definition TrimRight_slash :: "string \<Rightarrow> string" where
  "TrimRight_slash s = rev (dropWhile (\<lambda>c. c = CHR ''/'') (rev s))"

text \<open>\<^verbatim>\<open>ReadString('\n')\<close> until it fails: what follows the last line feed is dropped.\<close>

fun complete_lines :: "string \<Rightarrow> string \<Rightarrow> string list" where
  "complete_lines w [] = []"
| "complete_lines w (c # s) = (if c = CHR 0x0A then (w @ [c]) # complete_lines [] s else complete_lines (w @ [c]) s)"

section \<open>Tool calls in pieces\<close>

definition call_args :: "ToolCall \<Rightarrow> string" where
  "call_args c = tf_Arguments (tlc_Function c)"

definition complete_call :: "(string \<Rightarrow> bool) \<Rightarrow> ToolCall \<Rightarrow> bool" where
  "complete_call valid c \<longleftrightarrow> call_args c \<noteq> [] \<and> valid (call_args c)"

definition start_call :: "ToolCall \<Rightarrow> ToolCall" where
  "start_call tc = \<lparr>tlc_ID = tlc_ID tc, tlc_Type = tlc_Type tc,
     tlc_Function = \<lparr>tf_Name = tf_Name (tlc_Function tc), tf_Arguments = [] @ call_args tc\<rparr>\<rparr>"

definition extend_call :: "ToolCall \<Rightarrow> ToolCall \<Rightarrow> ToolCall" where
  "extend_call c tc = \<lparr>
     tlc_ID = (if tlc_ID tc \<noteq> [] \<and> tlc_ID c = [] then tlc_ID tc else tlc_ID c),
     tlc_Type = (if tlc_Type tc \<noteq> [] \<and> tlc_Type c = [] then tlc_Type tc else tlc_Type c),
     tlc_Function = \<lparr>
       tf_Name = (if tf_Name (tlc_Function tc) \<noteq> [] \<and> tf_Name (tlc_Function c) = []
                  then tf_Name (tlc_Function tc) else tf_Name (tlc_Function c)),
       tf_Arguments = call_args c @ call_args tc\<rparr>\<rparr>"

text \<open>A call whose arguments are complete is handed over at once.\<close>

definition hand_over :: "(string \<Rightarrow> bool) \<Rightarrow> ToolCall \<Rightarrow> ToolCall option \<times> ToolCall list" where
  "hand_over valid c = (if complete_call valid c then (None, [c]) else (Some c, []))"

text \<open>One piece: the call under construction, and the calls handed over.\<close>

definition tool_delta :: "(string \<Rightarrow> bool) \<Rightarrow> ToolCall option \<Rightarrow> ToolCall \<Rightarrow> ToolCall option \<times> ToolCall list" where
  "tool_delta valid cur tc = (case cur of
     None \<Rightarrow> if tlc_ID tc \<noteq> [] then hand_over valid (start_call tc) else (None, [])
   | Some c \<Rightarrow>
       if tlc_ID tc \<noteq> [] \<and> tlc_ID c \<noteq> tlc_ID tc then
         (let flushed = (if complete_call valid c then [c] else []);
              (cur', called) = hand_over valid (start_call tc)
          in (cur', flushed @ called))
       else hand_over valid (extend_call c tc))"

fun tool_deltas :: "(string \<Rightarrow> bool) \<Rightarrow> ToolCall option \<Rightarrow> ToolCall list \<Rightarrow> ToolCall option \<times> ToolCall list" where
  "tool_deltas valid cur [] = (cur, [])"
| "tool_deltas valid cur (tc # tcs) =
     (let (cur1, called1) = tool_delta valid cur tc; (cur2, called2) = tool_deltas valid cur1 tcs
      in (cur2, called1 @ called2))"

section \<open>The stream\<close>

datatype stream_call = OnChunk string | OnToolCall ToolCall

text \<open>The text of the chunks, and the tool calls.\<close>

fun stream_text :: "stream_call list \<Rightarrow> string" where
  "stream_text [] = []"
| "stream_text (OnChunk chunk # cs) = chunk @ stream_text cs"
| "stream_text (OnToolCall call # cs) = stream_text cs"

fun stream_calls :: "stream_call list \<Rightarrow> ToolCall list" where
  "stream_calls [] = []"
| "stream_calls (OnChunk chunk # cs) = stream_calls cs"
| "stream_calls (OnToolCall call # cs) = call # stream_calls cs"

text \<open>The calls made for the lines, and whether \<^verbatim>\<open>[DONE]\<close> ended the loop.\<close>

fun stream_lines :: "llm_env \<Rightarrow> ToolCall option \<Rightarrow> string list \<Rightarrow> stream_call list \<times> bool" where
  "stream_lines lv cur [] = ([], False)"
| "stream_lines lv cur (line0 # lines) =
     (let line = TrimSpace line0 in
      if \<not> HasPrefix line ''data: '' then stream_lines lv cur lines
      else
        let payload = drop 6 line in
        if payload = ''[DONE]'' then ([], True)
        else case lv_delta lv payload of
            None \<Rightarrow> stream_lines lv cur lines
          | Some [] \<Rightarrow> stream_lines lv cur lines
          | Some (delta # _) \<Rightarrow>
              (let text = (if re_Content delta \<noteq> [] then [OnChunk (re_Content delta)] else []);
                   (cur1, called) = tool_deltas (lv_valid lv) cur (re_ToolCalls delta);
                   (calls, done) = stream_lines lv cur1 lines
               in (text @ map OnToolCall called @ calls, done)))"

definition request_of :: "LLMClient \<Rightarrow> string \<Rightarrow> (string \<times> string) list \<Rightarrow> ChatRequest \<Rightarrow> http_request" where
  "request_of c path headers body = \<lparr>hr_URL = TrimRight_slash (lc_BaseURL c) @ path,
     hr_Headers = headers @ (if lc_APIKey c \<noteq> [] then [(''Authorization'', ''Bearer '' @ lc_APIKey c)] else []),
     hr_Body = body\<rparr>"

definition stream_request :: "LLMClient \<Rightarrow> Tool list \<Rightarrow> Message list \<Rightarrow> http_request" where
  "stream_request c tools messages = request_of c ''/v1/chat/completions''
     [(''Content-Type'', ''application/json''), (''Accept'', ''text/event-stream'')]
     \<lparr>rq_Model = lc_Model c, rq_Messages = messages, rq_Tools = tools, rq_Stream = True\<rparr>"

definition ChatStream :: "llm_env \<Rightarrow> nat \<Rightarrow> http_request \<Rightarrow> (llm_err, unit) outcome \<times> stream_call list" where
  "ChatStream lv n req = (case lv_http lv n req of
     NoRequest err \<Rightarrow> (Err (RequestFailed err), [])
   | NoResponse err \<Rightarrow> (Err (NetworkFailed err), [])
   | Response status body broken \<Rightarrow>
       if status \<noteq> 200 then (Err (LlmStatus status body), [])
       else case stream_lines lv None (complete_lines [] body) of
           (calls, done) \<Rightarrow>
             (case broken of
                Some err \<Rightarrow> if done then (Ok (), calls) else (Err (StreamBroken err), calls)
              | None \<Rightarrow> (Ok (), calls)))"

section \<open>The request without a stream\<close>

definition chat_request :: "LLMClient \<Rightarrow> Tool list \<Rightarrow> Message list \<Rightarrow> http_request" where
  "chat_request c tools messages = request_of c ''/chat/completions'' [(''Content-Type'', ''application/json'')]
     \<lparr>rq_Model = lc_Model c, rq_Messages = messages, rq_Tools = tools, rq_Stream = False\<rparr>"

definition Chat :: "llm_env \<Rightarrow> nat \<Rightarrow> http_request \<Rightarrow> (llm_err, Reply list) outcome" where
  "Chat lv n req = (case lv_http lv n req of
     NoRequest err \<Rightarrow> Err (RequestFailed err)
   | NoResponse err \<Rightarrow> Err (NetworkFailed err)
   | Response status body broken \<Rightarrow>
       (case broken of
          Some err \<Rightarrow> Err (BodyBroken err)
        | None \<Rightarrow>
            if status \<noteq> 200 then Err (LlmStatus status body)
            else case lv_reply lv body of
                Inl err \<Rightarrow> Err (BadReply err)
              | Inr choices \<Rightarrow> if choices = [] then Err EmptyReply else Ok choices))"

end
