(* ===== verification/Agent.thy ===== *)
theory Agent imports Snapshot LlmContext LlmClient Graph begin

text \<open>
  \<^verbatim>\<open>pkg/agent/agent.go\<close>, \<^verbatim>\<open>tools.go\<close> and \<^verbatim>\<open>system.go\<close>: the loop around the language model. Its state
  is the executor (through the memory manager), the files, the requests made of the model and the events
  sent to the caller. The time and the random numbers come from a clock that every use of the memory
  moves on. Files that can be written, directories, the shell and the texts of the operating system's
  errors are parameters. Log output is left out.
\<close>

section \<open>Environment and state\<close>

text \<open>An entry of a directory: its name, whether it is a directory, and its size unless \<^verbatim>\<open>Info\<close> fails.\<close>

type_synonym dir_entry = "string \<times> bool \<times> nat option"

type_synonym file_map = "string \<Rightarrow> string option"

record agent_env =
  ag_cl :: client_env
  ag_lv :: llm_env
  ag_ord :: order
  ag_now :: "nat \<Rightarrow> i64"
  ag_rand :: "nat \<Rightarrow> i64"
  ag_args :: "string \<Rightarrow> (string \<times> string) list"  \<comment> \<open>the JSON arguments as a map of strings\<close>
  ag_shown :: "string \<Rightarrow> (string \<times> string) list"  \<comment> \<open>the same as a map of printed values\<close>
  ag_io_text :: "string \<Rightarrow> string"
  ag_err_text :: "client_err \<Rightarrow> string"
  ag_writable :: "string \<Rightarrow> bool"
  ag_removable :: "string \<Rightarrow> bool"
  ag_dir :: "file_map \<Rightarrow> string \<Rightarrow> string + dir_entry list"
  ag_shell :: "file_map \<Rightarrow> string \<Rightarrow> string \<times> string option \<times> file_map"

record AgentLoop =
  al_SessionID :: string
  al_PSIGraph :: "Graph option"
  al_LLMKey :: string
  al_Model :: string
  al_BaseURL :: string
  al_hasMemory :: bool
  al_ProjectPath :: string
  al_CurrentVersion :: i64

record StreamEvent =
  sv_Type :: string
  sv_Content :: string
  sv_Tool :: string

record agent_state =
  as_ex :: Executor
  as_fs :: file_map
  as_tick :: nat
  as_asked :: "http_request list"
  as_events :: "StreamEvent list"

datatype agent_err = MemoryFailed client_err | LlmFailed llm_err | MemoryManagerNil

type_synonym 'a agt = "agent_state \<Rightarrow> (agent_err, 'a) outcome \<times> agent_state"

definition aret :: "'a \<Rightarrow> 'a agt" where "aret a s = (Ok a, s)"
definition athrow :: "agent_err \<Rightarrow> 'a agt" where "athrow err s = (Err err, s)"

definition abind :: "'a agt \<Rightarrow> ('a \<Rightarrow> 'b agt) \<Rightarrow> 'b agt" where
  "abind m f s = (case m s of
     (Ok a, s1) \<Rightarrow> f a s1
   | (Err err, s1) \<Rightarrow> (Err err, s1)
   | (Panic, s1) \<Rightarrow> (Panic, s1)
   | (Hang, s1) \<Rightarrow> (Hang, s1))"

text \<open>A use of the memory manager, which dereferences a nil pointer if there is none.\<close>

definition mem :: "agent_env \<Rightarrow> bool \<Rightarrow> (i64 \<Rightarrow> i64 \<Rightarrow> 'a act) \<Rightarrow> 'a agt" where
  "mem en present f s =
     (if \<not> present then (Panic, s)
      else case f (ag_now en (as_tick s)) (ag_rand en (as_tick s)) (as_ex s) of
        (r, e) \<Rightarrow> (map_err MemoryFailed r, s\<lparr>as_ex := e, as_tick := Suc (as_tick s)\<rparr>))"

text \<open>The same with its error dropped.\<close>

definition quietly :: "unit agt \<Rightarrow> unit agt" where
  "quietly m s = (case m s of (Err _, s1) \<Rightarrow> (Ok (), s1) | r \<Rightarrow> r)"

definition event :: "string \<Rightarrow> string \<Rightarrow> string \<Rightarrow> unit agt" where
  "event ty content tool s = (Ok (), s\<lparr>as_events := as_events s @ [\<lparr>sv_Type = ty, sv_Content = content, sv_Tool = tool\<rparr>]\<rparr>)"

definition truncate_text :: "string \<Rightarrow> nat \<Rightarrow> string" where
  "truncate_text s n = (if length s \<le> n then s else take n s @ ''...'')"

definition parseIntSafe :: "string \<Rightarrow> i64" where "parseIntSafe s = scan_int s"

definition f64_0_9 :: u64 where "f64_0_9 = 0x3FECCCCCCCCCCCCD"

section \<open>The prompt\<close>

definition SystemPrompt :: string where
  "SystemPrompt = (utf8 [208, 162, 209, 139, 32, 226, 128, 148, 32, 65, 73, 45, 208, 176, 208, 179, 208, 181, 208, 189, 209, 130, 32, 209, 129, 32,
       208, 180, 208, 190, 209, 129, 209, 130, 209, 131, 208, 191, 208, 190, 208, 188, 32, 208, 186, 32, 208, 184, 208, 189, 209, 129,
       209, 130, 209, 128, 209, 131, 208, 188, 208, 181, 208, 189, 209, 130, 208, 176, 208, 188, 32, 208, 180, 208, 187, 209, 143, 32,
       209, 128, 208, 176, 208, 177, 208, 190, 209, 130, 209, 139, 32, 209, 129, 32, 208, 186, 208, 190, 208, 180, 208, 190, 208, 188,
       46, 10, 10, 208, 148, 208, 190, 209, 129, 209, 130, 209, 131, 208, 191, 208, 189, 209, 139, 208, 181, 32, 208, 184, 208, 189,
       209, 129, 209, 130, 209, 128, 209, 131, 208, 188, 208, 181, 208, 189, 209, 130, 209, 139] @ '':
- read_file(path) '' @ utf8 [226, 128, 148, 32, 208, 191, 209, 128, 208, 190, 209, 135, 208, 184, 209, 130, 208, 176, 209, 130, 209, 140, 32, 209, 129, 208,
       190, 208, 180, 208, 181, 209, 128, 208, 182, 208, 184, 208, 188, 208, 190, 208, 181, 32, 209, 132, 208, 176, 208, 185, 208, 187,
       208, 176] @ ''
- write_file(path, content) '' @ utf8 [226, 128, 148, 32, 209, 129, 208, 190, 208, 183, 208, 180, 208, 176, 209, 130, 209, 140, 32, 208, 184, 208, 187, 208, 184, 32,
       208, 191, 208, 181, 209, 128, 208, 181, 208, 183, 208, 176, 208, 191, 208, 184, 209, 129, 208, 176, 209, 130, 209, 140, 32, 209,
       132, 208, 176, 208, 185, 208, 187] @ ''
- edit_file(path, old_string, new_string) '' @ utf8 [226, 128, 148, 32, 208, 183, 208, 176, 208, 188, 208, 181, 208, 189, 208, 184, 209, 130, 209, 140, 32, 209, 129, 209, 130, 209,
       128, 208, 190, 208, 186, 209, 131, 32, 208, 178, 32, 209, 132, 208, 176, 208, 185, 208, 187, 208, 181] @ ''
- delete_file(path) '' @ utf8 [226, 128, 148, 32, 209, 131, 208, 180, 208, 176, 208, 187, 208, 184, 209, 130, 209, 140, 32, 209, 132, 208, 176, 208, 185, 208,
       187] @ ''
- list_dir(path) '' @ utf8 [226, 128, 148, 32, 208, 191, 208, 190, 208, 186, 208, 176, 208, 183, 208, 176, 209, 130, 209, 140, 32, 209, 129, 208, 190, 208,
       180, 208, 181, 209, 128, 208, 182, 208, 184, 208, 188, 208, 190, 208, 181, 32, 208, 180, 208, 184, 209, 128, 208, 181, 208, 186,
       209, 130, 208, 190, 209, 128, 208, 184, 208, 184] @ ''
- run_command(command) '' @ utf8 [226, 128, 148, 32, 208, 178, 209, 139, 208, 191, 208, 190, 208, 187, 208, 189, 208, 184, 209, 130, 209, 140] @ '' shell-'' @ utf8 [208, 186, 208, 190, 208, 188, 208, 176, 208, 189, 208, 180, 209, 131] @ ''
- get_class(name) '' @ utf8 [226, 128, 148, 32, 208, 191, 208, 190, 208, 186, 208, 176, 208, 183, 208, 176, 209, 130, 209, 140, 32, 208, 188, 208, 181, 209,
       130, 208, 190, 208, 180, 209, 139, 32, 208, 186, 208, 187, 208, 176, 209, 129, 209, 129, 208, 176, 32, 40, 208, 184, 208, 183] @ '' PSI-'' @ utf8 [208, 179, 209, 128, 208, 176, 209, 132, 208, 176] @ '')
- find_callers(function) '' @ utf8 [226, 128, 148, 32, 208, 189, 208, 176, 208, 185, 209, 130, 208, 184, 32, 208, 186, 209, 130, 208, 190, 32, 208, 178, 209, 139,
       208, 183, 209, 139, 208, 178, 208, 176, 208, 181, 209, 130, 32, 209, 132, 209, 131, 208, 189, 208, 186, 209, 134, 208, 184, 209,
       142, 32, 40, 208, 184, 208, 183] @ '' PSI-'' @ utf8 [208, 179, 209, 128, 208, 176, 209, 132, 208, 176] @ '')
- find_callees(function) '' @ utf8 [226, 128, 148, 32, 208, 189, 208, 176, 208, 185, 209, 130, 208, 184, 32, 208, 186, 208, 190, 208, 179, 208, 190, 32, 208, 178,
       209, 139, 208, 183, 209, 139, 208, 178, 208, 176, 208, 181, 209, 130, 32, 209, 132, 209, 131, 208, 189, 208, 186, 209, 134, 208,
       184, 209, 143, 32, 40, 208, 184, 208, 183] @ '' PSI-'' @ utf8 [208, 179, 209, 128, 208, 176, 209, 132, 208, 176, 41, 10, 10, 208, 152, 209, 129, 208, 191, 208, 190, 208, 187, 209, 140, 208,
       183, 209, 131, 208, 185, 32, 208, 184, 208, 189, 209, 129, 209, 130, 209, 128, 209, 131, 208, 188, 208, 181, 208, 189, 209, 130,
       209, 139, 32, 208, 186, 208, 190, 208, 179, 208, 180, 208, 176, 32, 209, 141, 209, 130, 208, 190, 32, 208, 189, 208, 181, 208,
       190, 208, 177, 209, 133, 208, 190, 208, 180, 208, 184, 208, 188, 208, 190, 46, 32, 208, 158, 209, 130, 208, 178, 208, 181, 209,
       135, 208, 176, 208, 185, 32, 208, 186, 209, 128, 208, 176, 209, 130, 208, 186, 208, 190, 32, 208, 184, 32, 208, 191, 208, 190,
       32, 208, 180, 208, 181, 208, 187, 209, 131, 46])"

definition string_tool :: "string \<Rightarrow> string \<Rightarrow> string list \<Rightarrow> string list \<Rightarrow> Tool" where
  "string_tool name description ps required = \<lparr>tool_Type = ''function'', tool_Function =
     \<lparr>fnc_Name = name, fnc_Description = description, fnc_Properties = ps, fnc_Required = required\<rparr>\<rparr>"

definition AvailableTools :: "Tool list" where
  "AvailableTools = [
     string_tool ''read_file'' (utf8 [208, 159, 209, 128, 208, 190, 209, 135, 208, 184, 209, 130, 208, 176, 209, 130, 209, 140, 32, 209, 129, 208, 190, 208, 180, 208,
       181, 209, 128, 208, 182, 208, 184, 208, 188, 208, 190, 208, 181, 32, 209, 132, 208, 176, 208, 185, 208, 187, 208, 176]) [''path''] [''path''],
     string_tool ''write_file'' (utf8 [208, 161, 208, 190, 208, 183, 208, 180, 208, 176, 209, 130, 209, 140, 32, 208, 184, 208, 187, 208, 184, 32, 208, 191, 208, 181,
       209, 128, 208, 181, 208, 183, 208, 176, 208, 191, 208, 184, 209, 129, 208, 176, 209, 130, 209, 140, 32, 209, 132, 208, 176, 208,
       185, 208, 187]) [''path'', ''content''] [''path'', ''content''],
     string_tool ''edit_file'' (utf8 [208, 151, 208, 176, 208, 188, 208, 181, 208, 189, 208, 184, 209, 130, 209, 140, 32, 209, 132, 209, 128, 208, 176, 208, 179, 208,
       188, 208, 181, 208, 189, 209, 130, 32, 208, 178, 32, 209, 132, 208, 176, 208, 185, 208, 187, 208, 181]) [''path'', ''old_string'', ''new_string''] [''path'', ''old_string'', ''new_string''],
     string_tool ''delete_file'' (utf8 [208, 163, 208, 180, 208, 176, 208, 187, 208, 184, 209, 130, 209, 140, 32, 209, 132, 208, 176, 208, 185, 208, 187]) [''path''] [''path''],
     string_tool ''list_dir'' (utf8 [208, 159, 208, 190, 208, 186, 208, 176, 208, 183, 208, 176, 209, 130, 209, 140, 32, 209, 129, 208, 190, 208, 180, 208, 181, 209,
       128, 208, 182, 208, 184, 208, 188, 208, 190, 208, 181, 32, 208, 180, 208, 184, 209, 128, 208, 181, 208, 186, 209, 130, 208, 190,
       209, 128, 208, 184, 208, 184]) [''path''] [''path''],
     string_tool ''run_command'' (utf8 [208, 146, 209, 139, 208, 191, 208, 190, 208, 187, 208, 189, 208, 184, 209, 130, 209, 140] @ '' shell-'' @ utf8 [208, 186, 208, 190, 208, 188, 208, 176, 208, 189, 208, 180, 209, 131]) [''command''] [''command''],
     string_tool ''search_code'' (utf8 [208, 159, 208, 190, 208, 184, 209, 129, 208, 186, 32, 209, 129, 209, 130, 209, 128, 208, 190, 208, 186, 208, 184, 32, 208, 191,
       208, 190, 32, 209, 132, 208, 176, 208, 185, 208, 187, 208, 176, 208, 188] @ '' (grep)'') [''pattern''] [''pattern''],
     string_tool ''get_class'' (utf8 [208, 159, 208, 190, 208, 186, 208, 176, 208, 183, 208, 176, 209, 130, 209, 140, 32, 208, 188, 208, 181, 209, 130, 208, 190, 208,
       180, 209, 139, 32, 208, 186, 208, 187, 208, 176, 209, 129, 209, 129, 208, 176, 32, 208, 184, 208, 183] @ '' PSI-'' @ utf8 [208, 179, 209, 128, 208, 176, 209, 132, 208, 176]) [''class''] [''class''],
     string_tool ''find_callers'' (utf8 [208, 157, 208, 176, 208, 185, 209, 130, 208, 184, 32, 209, 132, 209, 131, 208, 189, 208, 186, 209, 134, 208, 184, 208, 184, 32,
       208, 186, 208, 190, 209, 130, 208, 190, 209, 128, 209, 139, 208, 181, 32, 208, 178, 209, 139, 208, 183, 209, 139, 208, 178, 208,
       176, 209, 142, 209, 130, 32, 209, 131, 208, 186, 208, 176, 208, 183, 208, 176, 208, 189, 208, 189, 209, 131, 209, 142]) [''function''] [''function''],
     string_tool ''find_callees'' (utf8 [208, 157, 208, 176, 208, 185, 209, 130, 208, 184, 32, 209, 132, 209, 131, 208, 189, 208, 186, 209, 134, 208, 184, 208, 184, 32,
       208, 186, 208, 190, 209, 130, 208, 190, 209, 128, 209, 139, 208, 181, 32, 208, 178, 209, 139, 208, 183, 209, 139, 208, 178, 208,
       176, 208, 181, 209, 130, 32, 209, 131, 208, 186, 208, 176, 208, 183, 208, 176, 208, 189, 208, 189, 208, 176, 209, 143]) [''function''] [''function''],
     string_tool ''find_call_path'' (utf8 [208, 157, 208, 176, 208, 185, 209, 130, 208, 184, 32, 209, 134, 208, 181, 208, 191, 208, 190, 209, 135, 208, 186, 209, 131, 32,
       208, 178, 209, 139, 208, 183, 208, 190, 208, 178, 208, 190, 208, 178, 32, 208, 188, 208, 181, 208, 182, 208, 180, 209, 131, 32,
       208, 180, 208, 178, 209, 131, 208, 188, 209, 143, 32, 209, 132, 209, 131, 208, 189, 208, 186, 209, 134, 208, 184, 209, 143, 208,
       188, 208, 184]) [''from'', ''to''] [''from'', ''to'']]"

definition buildPrompt :: "string \<Rightarrow> string \<Rightarrow> string \<Rightarrow> string" where
  "buildPrompt context psiContext userMessage = sprintf (utf8 [208, 162, 209, 139, 32, 226, 128, 148, 32, 65, 73, 45, 208, 176, 208, 179, 208, 181, 208, 189, 209, 130, 32, 208, 180, 208,
       187, 209, 143, 32, 208, 176, 208, 189, 208, 176, 208, 187, 208, 184, 208, 183, 208, 176, 32, 208, 186, 208, 190, 208, 180, 208,
       176, 32, 208, 184, 32, 208, 178, 209, 139, 208, 191, 208, 190, 208, 187, 208, 189, 208, 181, 208, 189, 208, 184, 209, 143, 32,
       208, 183, 208, 176, 208, 180, 208, 176, 209, 135] @ ''.

=== '' @ utf8 [208, 162, 208, 146, 208, 158, 208, 153, 32, 208, 154, 208, 158, 208, 157, 208, 162, 208, 149, 208, 154, 208, 161, 208, 162, 32,
       40, 208, 191, 208, 176, 208, 188, 209, 143, 209, 130, 209, 140, 44, 32, 208, 178, 209, 139, 208, 178, 208, 190, 208, 180, 209,
       139, 44, 32, 208, 180, 208, 176, 208, 189, 208, 189, 209, 139, 208, 181] @ '') ===
%s

=== '' @ utf8 [208, 161, 208, 162, 208, 160, 208, 163, 208, 154, 208, 162, 208, 163, 208, 160, 208, 144, 32, 208, 159, 208, 160, 208, 158, 208,
       149, 208, 154, 208, 162, 208, 144] @ '' ===
%s

=== '' @ utf8 [208, 162, 208, 149, 208, 154, 208, 163, 208, 169, 208, 144, 208, 175, 32, 208, 151, 208, 144, 208, 148, 208, 144, 208, 167, 208,
       144] @ '' ===
%s

'' @ utf8 [208, 159, 208, 160, 208, 144, 208, 146, 208, 152, 208, 155, 208, 144] @ '':
1. '' @ utf8 [208, 152, 209, 129, 208, 191, 208, 190, 208, 187, 209, 140, 208, 183, 209, 131, 208, 185, 32, 208, 180, 208, 190, 209, 129, 209,
       130, 209, 131, 208, 191, 208, 189, 209, 139, 208, 181, 32, 208, 184, 208, 189, 209, 129, 209, 130, 209, 128, 209, 131, 208, 188,
       208, 181, 208, 189, 209, 130, 209, 139] @ '' (read_file, write_file, list_dir, get_class, find_callers, find_callees)
2. '' @ utf8 [208, 157, 208, 181, 32, 208, 191, 208, 190, 208, 178, 209, 130, 208, 190, 209, 128, 209, 143, 208, 185, 32, 209, 131, 208, 182,
       208, 181, 32, 209, 129, 208, 180, 208, 181, 208, 187, 208, 176, 208, 189, 208, 189, 209, 139, 208, 181, 32, 208, 178, 209, 139,
       208, 178, 208, 190, 208, 180, 209, 139, 10, 51, 46, 32, 208, 149, 209, 129, 208, 187, 208, 184, 32, 208, 180, 208, 176, 208,
       189, 208, 189, 209, 139, 208, 181, 32, 209, 131, 208, 182, 208, 181, 32, 208, 181, 209, 129, 209, 130, 209, 140, 32, 208, 178,
       32, 208, 177, 209, 131, 209, 132, 208, 181, 209, 128, 208, 181, 32, 226, 128, 148, 32, 208, 184, 209, 129, 208, 191, 208, 190,
       208, 187, 209, 140, 208, 183, 209, 131, 208, 185, 32, 208, 184, 209, 133, 10, 52, 46, 32, 208, 158, 209, 130, 208, 178, 208,
       181, 209, 135, 208, 176, 208, 185, 32, 208, 189, 208, 176, 32, 209, 128, 209, 131, 209, 129, 209, 129, 208, 186, 208, 190, 208,
       188, 32, 209, 143, 208, 183, 209, 139, 208, 186, 208, 181, 10, 53, 46, 32, 208, 145, 209, 131, 208, 180, 209, 140, 32, 208,
       186, 208, 190, 208, 189, 208, 186, 209, 128, 208, 181, 209, 130, 208, 189, 209, 139, 208, 188, 32, 208, 184, 32, 208, 191, 208,
       190, 208, 187, 208, 181, 208, 183, 208, 189, 209, 139, 208, 188]) [context, psiContext, userMessage]"

definition node_line :: "flt \<Rightarrow> GNode \<Rightarrow> string" where
  "node_line fl n = ''  - '' @ fmt_prop fl (prop_or_nil n ''name'') @ utf8 [10]"

definition buildPSIContext :: "flt \<Rightarrow> order \<Rightarrow> Graph option \<Rightarrow> string" where
  "buildPSIContext fl ord graph = (case graph of
     None \<Rightarrow> (utf8 [208, 147, 209, 128, 208, 176, 209, 132, 32, 208, 186, 208, 190, 208, 180, 208, 176, 32, 208, 189, 208, 181, 32, 208, 183, 208,
       176, 208, 179, 209, 128, 209, 131, 208, 182, 208, 181, 208, 189, 46, 32, 208, 152, 209, 129, 208, 191, 208, 190, 208, 187, 209,
       140, 208, 183, 209, 131, 208, 185, 32, 208, 184, 208, 189, 209, 129, 209, 130, 209, 128, 209, 131, 208, 188, 208, 181, 208, 189,
       209, 130, 209, 139, 32, 208, 180, 208, 187, 209, 143, 32, 209, 128, 208, 176, 208, 177, 208, 190, 209, 130, 209, 139, 32, 209,
       129, 32, 209, 132, 208, 176, 208, 185, 208, 187, 208, 190, 208, 178, 208, 190, 208, 185, 32, 209, 129, 208, 184, 209, 129, 209,
       130, 208, 181, 208, 188, 208, 190, 208, 185, 46])
   | Some g \<Rightarrow>
       (let labelled = (\<lambda>l. FindNodes fl ord \<lparr>q_Label = l, q_Property = [], q_Value = PNil\<rparr> g);
            classes = labelled ''class''; functions = labelled ''function''; calls = labelled ''call''
        in sprintf (utf8 [240, 159, 147, 138, 32, 208, 161, 209, 130, 208, 176, 209, 130, 208, 184, 209, 129, 209, 130, 208, 184, 208, 186, 208, 176] @ '': %d '' @ utf8 [208, 186, 208, 187, 208, 176, 209, 129, 209, 129, 208, 190, 208, 178] @ '', %d '' @ utf8 [209, 132, 209, 131, 208, 189, 208, 186, 209, 134, 208, 184, 208, 185] @ '', %d '' @ utf8 [208, 178, 209, 139, 208, 183, 208, 190, 208, 178, 208, 190, 208, 178, 10])
             [dec_nat (length classes), dec_nat (length functions), dec_nat (length calls)]
           @ (if classes \<noteq> [] then (utf8 [10, 240, 159, 147, 166, 32, 208, 158, 209, 129, 208, 189, 208, 190, 208, 178, 208, 189, 209, 139, 208, 181, 32, 208, 186, 208,
       187, 208, 176, 209, 129, 209, 129, 209, 139, 58, 10]) @ concat (map (node_line fl) (take 7 classes))
                @ (if 7 < length classes then sprintf (''  ... '' @ utf8 [208, 184, 32, 208, 181, 209, 137, 209, 145, 32, 37, 100, 32, 208, 186, 208, 187, 208, 176, 209, 129, 209, 129, 208, 190, 208,
       178, 10]) [dec_nat (length classes - 7)] else [])
              else [])
           @ (if functions \<noteq> [] \<and> length functions \<le> 20
              then (utf8 [10, 240, 159, 148, 167, 32, 208, 164, 209, 131, 208, 189, 208, 186, 209, 134, 208, 184, 208, 184, 58, 10]) @ concat (map (node_line fl) (take 10 functions)) else [])))"

section \<open>The tools\<close>

record ToolExecutor =
  te_PSIGraph :: "Graph option"
  te_ProjectPath :: string
  te_hasMemory :: bool
  te_VersionID :: i64

text \<open>\<^verbatim>\<open>%+v\<close> of a map prints its keys in order.\<close>

fun insert_key :: "string \<times> string \<Rightarrow> (string \<times> string) list \<Rightarrow> (string \<times> string) list" where
  "insert_key p [] = [p]"
| "insert_key p (q # qs) = (if str_less (fst p) (fst q) then p # q # qs else q # insert_key p qs)"

definition fmt_args :: "(string \<times> string) list \<Rightarrow> string" where
  "fmt_args m = ''map['' @ Join (map (\<lambda>(k, v). k @ '':'' @ v) (fold insert_key m [])) '' '' @ '']''"

definition arg :: "(string \<times> string) list \<Rightarrow> string \<Rightarrow> string" where
  "arg m k = (case map_of m k of Some v \<Rightarrow> v | None \<Rightarrow> [])"

definition resolvePath :: "ToolExecutor \<Rightarrow> string \<Rightarrow> string" where
  "resolvePath te path =
     (if path \<noteq> [] \<and> hd path = CHR ''/'' then path
      else if te_ProjectPath te \<noteq> [] then path_join (te_ProjectPath te) path
      else path)"

text \<open>A tool gives its answer, or panics, and may change the files.\<close>

type_synonym tool_run = "file_map \<Rightarrow> (agent_err, string) outcome \<times> file_map"

definition readFile :: "agent_env \<Rightarrow> ToolExecutor \<Rightarrow> string \<Rightarrow> tool_run" where
  "readFile en te path fs = (Ok (case fs (resolvePath te path) of
       None \<Rightarrow> sprintf (utf8 [208, 158, 209, 136, 208, 184, 208, 177, 208, 186, 208, 176, 32, 209, 135, 209, 130, 208, 181, 208, 189, 208, 184, 209, 143] @ '' %s: %v'') [path, ag_io_text en (resolvePath te path)]
     | Some content \<Rightarrow> content), fs)"

definition writeFile :: "agent_env \<Rightarrow> ToolExecutor \<Rightarrow> string \<Rightarrow> string \<Rightarrow> tool_run" where
  "writeFile en te path content fs =
     (let fullPath = resolvePath te path in
      if ag_writable en fullPath
      then (Ok (sprintf (utf8 [226, 156, 147, 32, 208, 164, 208, 176, 208, 185, 208, 187, 32, 37, 115, 32, 208, 183, 208, 176, 208, 191, 208, 184, 209, 129,
       208, 176, 208, 189] @ '' (%d '' @ utf8 [208, 177, 208, 176, 208, 185, 209, 130, 41]) [fullPath, dec_nat (length content)]), fs(fullPath \<mapsto> content))
      else (Ok (sprintf (utf8 [208, 158, 209, 136, 208, 184, 208, 177, 208, 186, 208, 176, 32, 208, 183, 208, 176, 208, 191, 208, 184, 209, 129, 208, 184, 58,
       32, 37, 118]) [ag_io_text en fullPath]), fs))"

text \<open>\<^verbatim>\<open>strings.Replace(s, old, new, 1)\<close>\<close>

fun replace_first :: "string \<Rightarrow> string \<Rightarrow> string \<Rightarrow> string" where
  "replace_first [] old new = (if old = [] then new else [])"
| "replace_first (c # s) old new =
     (if HasPrefix (c # s) old then new @ drop (length old) (c # s) else c # replace_first s old new)"

text \<open>The error of the write is dropped.\<close>

definition editFile :: "agent_env \<Rightarrow> ToolExecutor \<Rightarrow> string \<Rightarrow> string \<Rightarrow> string \<Rightarrow> tool_run" where
  "editFile en te path oldStr newStr fs =
     (let fullPath = resolvePath te path in
      case fs fullPath of
        None \<Rightarrow> (Ok (sprintf (utf8 [208, 158, 209, 136, 208, 184, 208, 177, 208, 186, 208, 176, 32, 209, 135, 209, 130, 208, 181, 208, 189, 208, 184, 209, 143, 58,
       32, 37, 118]) [ag_io_text en fullPath]), fs)
      | Some content \<Rightarrow>
          (let updated = replace_first content oldStr newStr in
           if updated = content then (Ok (utf8 [208, 158, 209, 136, 208, 184, 208, 177, 208, 186, 208, 176, 58, 32, 209, 129, 209, 130, 209, 128, 208, 190, 208, 186, 208, 176,
       32, 208, 189, 208, 181, 32, 208, 189, 208, 176, 208, 185, 208, 180, 208, 181, 208, 189, 208, 176]), fs)
           else (Ok (sprintf (utf8 [226, 156, 147, 32, 208, 164, 208, 176, 208, 185, 208, 187, 32, 37, 115, 32, 208, 190, 208, 177, 208, 189, 208, 190, 208, 178,
       208, 187, 209, 145, 208, 189]) [fullPath]),
                 if ag_writable en fullPath then fs(fullPath \<mapsto> updated) else fs)))"

definition deleteFile :: "agent_env \<Rightarrow> ToolExecutor \<Rightarrow> string \<Rightarrow> tool_run" where
  "deleteFile en te path fs =
     (let fullPath = resolvePath te path in
      (Ok (sprintf (utf8 [226, 156, 147, 32, 208, 164, 208, 176, 208, 185, 208, 187, 32, 37, 115, 32, 209, 131, 208, 180, 208, 176, 208, 187, 209, 145,
       208, 189]) [fullPath]),
       if ag_removable en fullPath then fs(fullPath := None) else fs))"

text \<open>An entry whose \<^verbatim>\<open>Info\<close> fails is a nil pointer.\<close>

fun dir_lines :: "dir_entry list \<Rightarrow> (agent_err, string) outcome" where
  "dir_lines [] = Ok []"
| "dir_lines ((name, isDir, sz) # es) =
     (if isDir then bind_out (dir_lines es) (\<lambda>r. Ok (sprintf (utf8 [240, 159, 147, 129] @ '' %s/
'') [name] @ r))
      else case sz of
          None \<Rightarrow> Panic
        | Some n \<Rightarrow> bind_out (dir_lines es) (\<lambda>r. Ok (sprintf (utf8 [240, 159, 147, 132] @ '' %s (%d '' @ utf8 [208, 177, 208, 176, 208, 185, 209, 130, 41, 10]) [name, dec_nat n] @ r)))"

definition listDir :: "agent_env \<Rightarrow> ToolExecutor \<Rightarrow> string \<Rightarrow> tool_run" where
  "listDir en te path fs = (case ag_dir en fs (resolvePath te path) of
     Inl err \<Rightarrow> (Ok (sprintf (utf8 [208, 158, 209, 136, 208, 184, 208, 177, 208, 186, 208, 176, 58, 32, 37, 118]) [err]), fs)
   | Inr entries \<Rightarrow> (dir_lines entries, fs))"

definition runCommand :: "agent_env \<Rightarrow> string \<Rightarrow> tool_run" where
  "runCommand en command fs = (case ag_shell en fs command of
     (out, None, fs1) \<Rightarrow> (Ok out, fs1)
   | (out, Some err, fs1) \<Rightarrow> (Ok (sprintf (utf8 [208, 158, 209, 136, 208, 184, 208, 177, 208, 186, 208, 176] @ '': %v
%s'') [err, out]), fs1))"

text \<open>The questions to the graph panic if there is none.\<close>

definition psiGetClass :: "flt \<Rightarrow> order \<Rightarrow> Graph option \<Rightarrow> string \<Rightarrow> (agent_err, string) outcome" where
  "psiGetClass fl ord graph className = (case graph of None \<Rightarrow> Panic | Some g \<Rightarrow>
     (case FindNodes fl ord (by_name ''class'' (PString className)) g of
        [] \<Rightarrow> Ok (sprintf (utf8 [208, 154, 208, 187, 208, 176, 209, 129, 209, 129, 32, 39, 37, 115, 39, 32, 208, 189, 208, 181, 32, 208, 189, 208, 176, 208,
       185, 208, 180, 208, 181, 208, 189]) [className])
      | n # _ \<Rightarrow> Ok (sprintf (utf8 [208, 154, 208, 187, 208, 176, 209, 129, 209, 129, 32, 39, 37, 115, 39, 58, 10]) [className]
          @ concat (map (node_line fl) (filter (\<lambda>c. HasLabel c ''function'') (GetNeighbors (gn_ID n) DirectionOutgoing g))))))"

definition psiFindCallers :: "flt \<Rightarrow> order \<Rightarrow> Graph option \<Rightarrow> string \<Rightarrow> (agent_err, string) outcome" where
  "psiFindCallers fl ord graph funcName = (case graph of None \<Rightarrow> Panic | Some g \<Rightarrow>
     (let callers = GetCallersByName fl ord funcName g in
      Ok (if callers = [] then sprintf (utf8 [208, 164, 209, 131, 208, 189, 208, 186, 209, 134, 208, 184, 209, 143, 32, 39, 37, 115, 39, 32, 208, 189, 208, 184, 208, 186,
       208, 181, 208, 188, 32, 208, 189, 208, 181, 32, 208, 178, 209, 139, 208, 183, 209, 139, 208, 178, 208, 176, 208, 181, 209, 130,
       209, 129, 209, 143]) [funcName]
          else sprintf (utf8 [208, 146, 209, 139, 208, 183, 209, 139, 208, 178, 208, 176, 209, 142, 209, 130, 32, 39, 37, 115, 39, 58, 32, 37, 115]) [funcName, Join callers '', ''])))"

definition psiFindCallees :: "flt \<Rightarrow> order \<Rightarrow> Graph option \<Rightarrow> string \<Rightarrow> (agent_err, string) outcome" where
  "psiFindCallees fl ord graph funcName = (case graph of None \<Rightarrow> Panic | Some g \<Rightarrow>
     (let callees = GetCalleesByName fl ord funcName g in
      Ok (if callees = [] then sprintf (utf8 [208, 164, 209, 131, 208, 189, 208, 186, 209, 134, 208, 184, 209, 143, 32, 39, 37, 115, 39, 32, 208, 189, 208, 184, 208, 186,
       208, 190, 208, 179, 208, 190, 32, 208, 189, 208, 181, 32, 208, 178, 209, 139, 208, 183, 209, 139, 208, 178, 208, 176, 208, 181,
       209, 130]) [funcName]
          else sprintf (utf8 [39, 37, 115, 39, 32, 208, 178, 209, 139, 208, 183, 209, 139, 208, 178, 208, 176, 208, 181, 209, 130, 58, 32, 37, 115]) [funcName, Join callees '', ''])))"

definition run_tool :: "agent_env \<Rightarrow> ToolExecutor \<Rightarrow> string \<Rightarrow> (string \<times> string) list \<Rightarrow> tool_run" where
  "run_tool en te name args fs =
     (let fl = env_fl (cl_en (ag_cl en)); ord = ag_ord en in
      if name = ''read_file'' then readFile en te (arg args ''path'') fs
      else if name = ''write_file'' then writeFile en te (arg args ''path'') (arg args ''content'') fs
      else if name = ''edit_file'' then editFile en te (arg args ''path'') (arg args ''old_string'') (arg args ''new_string'') fs
      else if name = ''delete_file'' then deleteFile en te (arg args ''path'') fs
      else if name = ''list_dir'' then listDir en te (arg args ''path'') fs
      else if name = ''run_command'' then runCommand en (arg args ''command'') fs
      else if name = ''get_class'' then (psiGetClass fl ord (te_PSIGraph te) (arg args ''class''), fs)
      else if name = ''find_callers'' then (psiFindCallers fl ord (te_PSIGraph te) (arg args ''function''), fs)
      else if name = ''find_callees'' then (psiFindCallees fl ord (te_PSIGraph te) (arg args ''function''), fs)
      else (Ok (sprintf (utf8 [208, 157, 208, 181, 208, 184, 208, 183, 208, 178, 208, 181, 209, 129, 209, 130, 208, 189, 209, 139, 208, 185, 32, 208, 184, 208,
       189, 209, 129, 209, 130, 209, 128, 209, 131, 208, 188, 208, 181, 208, 189, 209, 130, 58, 32, 37, 115]) [name]), fs))"

text \<open>The call is noted before and after; without a memory manager it is not.\<close>

definition note_call :: "agent_env \<Rightarrow> ToolExecutor \<Rightarrow> string \<Rightarrow> (string \<times> string) list \<Rightarrow> string \<Rightarrow> bool \<Rightarrow> unit agt" where
  "note_call en te name args result success =
     (if te_hasMemory te then
        quietly (mem en True (\<lambda>now rid. AddObservation (ag_cl en) now rid 0 (te_VersionID te) name (fmt_args args) result success))
      else aret ())"

definition ToolExecutor_Execute :: "agent_env \<Rightarrow> ToolExecutor \<Rightarrow> ToolCall \<Rightarrow> string agt" where
  "ToolExecutor_Execute en te call =
     (let name = tf_Name (tlc_Function call); args = ag_args en (tf_Arguments (tlc_Function call)) in
      abind (note_call en te name args [] False) (\<lambda>_.
      abind (\<lambda>s. case run_tool en te name args (as_fs s) of (r, fs) \<Rightarrow> (r, s\<lparr>as_fs := fs\<rparr>)) (\<lambda>result.
      abind (note_call en te name args result True) (\<lambda>_.
        aret result))))"

section \<open>The loop\<close>

text \<open>Texts of errors.\<close>

fun llm_err_text :: "llm_err \<Rightarrow> string" where
  "llm_err_text (RequestFailed err) = sprintf (utf8 [208, 190, 209, 136, 208, 184, 208, 177, 208, 186, 208, 176, 32, 209, 129, 208, 190, 208, 183, 208, 180, 208, 176, 208, 189, 208,
       184, 209, 143, 32, 208, 183, 208, 176, 208, 191, 209, 128, 208, 190, 209, 129, 208, 176, 58, 32, 37, 119]) [err]"
| "llm_err_text (NetworkFailed err) = sprintf (utf8 [209, 129, 208, 181, 209, 130, 208, 181, 208, 178, 208, 176, 209, 143, 32, 208, 190, 209, 136, 208, 184, 208, 177, 208, 186, 208,
       176, 58, 32, 37, 119]) [err]"
| "llm_err_text (LlmStatus status body) = sprintf (utf8 [76, 76, 77, 32, 208, 190, 209, 136, 208, 184, 208, 177, 208, 186, 208, 176] @ '' %d: %s'') [dec_nat status, body]"
| "llm_err_text (StreamBroken err) = sprintf (utf8 [208, 190, 209, 136, 208, 184, 208, 177, 208, 186, 208, 176, 32, 209, 135, 209, 130, 208, 181, 208, 189, 208, 184, 209, 143, 32,
       208, 191, 208, 190, 209, 130, 208, 190, 208, 186, 208, 176, 58, 32, 37, 119]) [err]"
| "llm_err_text (BodyBroken err) = sprintf (utf8 [208, 190, 209, 136, 208, 184, 208, 177, 208, 186, 208, 176, 32, 209, 135, 209, 130, 208, 181, 208, 189, 208, 184, 209, 143, 32,
       208, 190, 209, 130, 208, 178, 208, 181, 209, 130, 208, 176, 58, 32, 37, 119]) [err]"
| "llm_err_text (BadReply err) = sprintf (utf8 [208, 190, 209, 136, 208, 184, 208, 177, 208, 186, 208, 176, 32, 208, 191, 208, 176, 209, 128, 209, 129, 208, 184, 208, 189, 208,
       179, 208, 176, 32, 208, 190, 209, 130, 208, 178, 208, 181, 209, 130, 208, 176, 58, 32, 37, 119]) [err]"
| "llm_err_text EmptyReply = (utf8 [208, 191, 209, 131, 209, 129, 209, 130, 208, 190, 208, 185, 32, 208, 190, 209, 130, 208, 178, 208, 181, 209, 130, 32, 208, 190,
       209, 130, 32, 76, 76, 77])"

text \<open>A thought of the current instruction, an inference, an entry of the buffer; errors are dropped.\<close>

definition think :: "agent_env \<Rightarrow> AgentLoop \<Rightarrow> i64 \<Rightarrow> i64 \<Rightarrow> string \<Rightarrow> string \<Rightarrow> u64 \<Rightarrow> unit agt" where
  "think en a sessionID instructionID ty content confidence =
     quietly (mem en (al_hasMemory a) (\<lambda>now rid.
       AddThought (ag_cl en) now rid sessionID (al_CurrentVersion a) instructionID ty content confidence))"

definition infer :: "agent_env \<Rightarrow> AgentLoop \<Rightarrow> i64 \<Rightarrow> string \<Rightarrow> u64 \<Rightarrow> string \<Rightarrow> string \<Rightarrow> unit agt" where
  "infer en a sessionID conclusion confidence ty source =
     quietly (mem en (al_hasMemory a) (\<lambda>now rid.
       AddInference (ag_cl en) now rid sessionID (al_CurrentVersion a) conclusion confidence ty source))"

definition buffer :: "agent_env \<Rightarrow> AgentLoop \<Rightarrow> i64 \<Rightarrow> string \<Rightarrow> string \<Rightarrow> unit agt" where
  "buffer en a sessionID key v =
     quietly (mem en (al_hasMemory a) (\<lambda>now rid. SetBuffer (ag_cl en) now rid sessionID (al_CurrentVersion a) key v 300))"

definition agent_client :: "AgentLoop \<Rightarrow> LLMClient" where
  "agent_client a = \<lparr>lc_APIKey = al_LLMKey a, lc_Model = al_Model a, lc_BaseURL = al_BaseURL a\<rparr>"

definition agent_tools :: "AgentLoop \<Rightarrow> ToolExecutor" where
  "agent_tools a = \<lparr>te_PSIGraph = al_PSIGraph a, te_ProjectPath = al_ProjectPath a, te_hasMemory = al_hasMemory a,
     te_VersionID = al_CurrentVersion a\<rparr>"

text \<open>The reply to a request depends on how many have been made before.\<close>

definition ask :: "agent_env \<Rightarrow> AgentLoop \<Rightarrow> Message list \<Rightarrow> Reply list agt" where
  "ask en a messages s =
     (let req = chat_request (agent_client a) AvailableTools messages in
      (map_err LlmFailed (Chat (ag_lv en) (length (as_asked s)) req), s\<lparr>as_asked := as_asked s @ [req]\<rparr>))"

definition plain_message :: "string \<Rightarrow> string \<Rightarrow> Message" where
  "plain_message role content = \<lparr>ms_Role = role, ms_Content = content, ms_ToolCalls = [], ms_ToolCallID = []\<rparr>"

definition tool_message :: "string \<Rightarrow> string \<Rightarrow> Message" where
  "tool_message cid content = \<lparr>ms_Role = ''tool'', ms_Content = content, ms_ToolCalls = [], ms_ToolCallID = cid\<rparr>"

definition assistant_message :: "string \<Rightarrow> ToolCall list \<Rightarrow> Message" where
  "assistant_message content calls = \<lparr>ms_Role = ''assistant'', ms_Content = content, ms_ToolCalls = calls, ms_ToolCallID = []\<rparr>"

text \<open>The instruction, the context and the first two messages.\<close>

definition context_of :: "agent_env \<Rightarrow> AgentLoop \<Rightarrow> i64 \<Rightarrow> string agt" where
  "context_of en a sessionID s =
     abind (mem en (al_hasMemory a) (\<lambda>now rid.
       BuildContextForLLM (ag_cl en) now (ag_now en (Suc (as_tick s))) sessionID (al_CurrentVersion a) 4000))
       (\<lambda>text s1. (Ok text, s1\<lparr>as_tick := Suc (as_tick s1)\<rparr>)) s"

definition begin_run :: "agent_env \<Rightarrow> AgentLoop \<Rightarrow> i64 \<Rightarrow> i64 \<Rightarrow> string \<Rightarrow> Message list agt" where
  "begin_run en a sessionID instructionID userMessage =
     abind (think en a sessionID instructionID ''observation''
       (sprintf (utf8 [208, 159, 208, 190, 208, 187, 209, 131, 209, 135, 208, 181, 208, 189, 208, 176, 32, 208, 184, 208, 189, 209, 129, 209, 130, 209,
       128, 209, 131, 208, 186, 209, 134, 208, 184, 209, 143, 58, 32, 37, 115]) [truncate_text userMessage 100]) f64_0_9) (\<lambda>_.
     abind (context_of en a sessionID) (\<lambda>llmContext.
       aret [plain_message ''system'' SystemPrompt,
         plain_message ''user'' (buildPrompt llmContext
           (buildPSIContext (env_fl (cl_en (ag_cl en))) (ag_ord en) (al_PSIGraph a)) userMessage)]))"

text \<open>The tools of one answer: the messages for the model and those for the caller.\<close>

fun run_calls :: "agent_env \<Rightarrow> AgentLoop \<Rightarrow> i64 \<Rightarrow> i64 \<Rightarrow> ToolCall list \<Rightarrow> (Message list \<times> Message list) agt" where
  "run_calls en a sessionID instructionID [] = aret ([], [])"
| "run_calls en a sessionID instructionID (call # calls) =
     (let name = tf_Name (tlc_Function call) in
      abind (ToolExecutor_Execute en (agent_tools a) call) (\<lambda>result.
      abind (buffer en a sessionID name result) (\<lambda>_.
      abind (think en a sessionID instructionID ''observation''
        (sprintf (utf8 [208, 160, 208, 181, 208, 183, 209, 131, 208, 187, 209, 140, 209, 130, 208, 176, 209, 130] @ '' %s: %s'') [name, truncate_text result 200]) f64_0_7) (\<lambda>_.
      abind (run_calls en a sessionID instructionID calls) (\<lambda>(ms, shown).
        aret (tool_message (tlc_ID call) result # ms,
              tool_message (tlc_ID call) (sprintf ''%s: %s'' [name, truncate_text result 200]) # shown))))))"

text \<open>An error of the model becomes a thought and ends the run.\<close>

definition or_give_up :: "agent_env \<Rightarrow> AgentLoop \<Rightarrow> i64 \<Rightarrow> i64 \<Rightarrow> 'a agt \<Rightarrow> 'a agt" where
  "or_give_up en a sessionID instructionID m s = (case m s of
     (Err (LlmFailed err), s1) \<Rightarrow>
       abind (think en a sessionID instructionID ''error'' (sprintf (utf8 [76, 76, 77, 32, 208, 190, 209, 136, 208, 184, 208, 177, 208, 186, 208, 176, 58, 32, 37, 118]) [llm_err_text err]) f64_0_5)
         (\<lambda>_. athrow (LlmFailed err)) s1
   | r \<Rightarrow> r)"

text \<open>What a round does with the answer; \<open>go\<close> is the rest of the loop.\<close>

definition take_answer :: "agent_env \<Rightarrow> AgentLoop \<Rightarrow> i64 \<Rightarrow> i64 \<Rightarrow> (Message list \<Rightarrow> Message list \<Rightarrow> (string \<times> Message list) agt)
    \<Rightarrow> nat \<Rightarrow> Message list \<Rightarrow> Message list \<Rightarrow> Reply list \<Rightarrow> (string \<times> Message list) agt" where
  "take_answer en a sessionID instructionID go iteration messages allMessages choices =
     (let msg = hd choices; calls = re_ToolCalls msg;
          all1 = allMessages @ [plain_message ''assistant'' (re_Content msg)] in
      if calls = [] then
        abind (think en a sessionID instructionID ''conclusion''
          (sprintf (utf8 [208, 164, 208, 184, 208, 189, 208, 176, 208, 187, 209, 140, 208, 189, 209, 139, 208, 185, 32, 208, 190, 209, 130, 208, 178, 208,
       181, 209, 130, 58, 32, 37, 115]) [truncate_text (re_Content msg) 200]) f64_0_9) (\<lambda>_.
        abind (infer en a sessionID (re_Content msg) f64_0_9 ''fact'' ''agent'') (\<lambda>_.
          aret (re_Content msg, all1)))
      else
        abind (think en a sessionID instructionID ''action''
          (sprintf (utf8 [208, 146, 209, 139, 208, 183, 209, 139, 208, 178, 208, 176, 208, 181, 208, 188, 32, 37, 100, 32, 208, 184, 208, 189, 209, 129,
       209, 130, 209, 128, 209, 131, 208, 188, 208, 181, 208, 189, 209, 130, 208, 190, 208, 178]) [dec_nat (length calls)]) f64_0_8) (\<lambda>_.
        abind (run_calls en a sessionID instructionID calls) (\<lambda>(ms, shown).
        abind (if 0 < iteration \<and> iteration mod 5 = 0
          then quietly (mem en (al_hasMemory a) (\<lambda>now rid. memory_GC (ag_cl en) now sessionID (al_CurrentVersion a)))
          else aret ()) (\<lambda>_.
          go (messages @ assistant_message (re_Content msg) calls # ms) (all1 @ shown)))))"

definition run_round :: "agent_env \<Rightarrow> AgentLoop \<Rightarrow> i64 \<Rightarrow> i64 \<Rightarrow> (Message list \<Rightarrow> Message list \<Rightarrow> (string \<times> Message list) agt)
    \<Rightarrow> nat \<Rightarrow> Message list \<Rightarrow> Message list \<Rightarrow> (string \<times> Message list) agt" where
  "run_round en a sessionID instructionID go iteration messages allMessages =
     abind (think en a sessionID instructionID ''analysis''
       (sprintf (utf8 [208, 152, 209, 130, 208, 181, 209, 128, 208, 176, 209, 134, 208, 184, 209, 143] @ '' %d: '' @ utf8 [208, 190, 209, 130, 208, 191, 209, 128, 208, 176, 208, 178, 208, 187, 209, 143, 208, 181, 208, 188, 32, 208, 183, 208, 176, 208,
       191, 209, 128, 208, 190, 209, 129, 32, 208, 178, 32, 76, 76, 77]) [dec_nat (iteration + 1)]) f64_0_8) (\<lambda>_.
     abind (or_give_up en a sessionID instructionID (ask en a messages))
       (take_answer en a sessionID instructionID go iteration messages allMessages))"

text \<open>At most \<open>k\<close> rounds. The answer is empty if the model gave an empty one or the rounds ran out.\<close>

fun run_rounds :: "agent_env \<Rightarrow> AgentLoop \<Rightarrow> i64 \<Rightarrow> i64 \<Rightarrow> nat \<Rightarrow> nat \<Rightarrow> Message list \<Rightarrow> Message list \<Rightarrow> (string \<times> Message list) agt" where
  "run_rounds en a sessionID instructionID 0 iteration messages allMessages = aret ([], allMessages)"
| "run_rounds en a sessionID instructionID (Suc k) iteration messages allMessages =
     run_round en a sessionID instructionID (\<lambda>ms shown. run_rounds en a sessionID instructionID k (Suc iteration) ms shown)
       iteration messages allMessages"

definition limit_text :: string where
  "limit_text = (utf8 [208, 148, 208, 190, 209, 129, 209, 130, 208, 184, 208, 179, 208, 189, 209, 131, 209, 130, 32, 208, 187, 208, 184, 208, 188, 208,
       184, 209, 130, 32, 208, 184, 209, 130, 208, 181, 209, 128, 208, 176, 209, 134, 208, 184, 208, 185, 32, 208, 177, 208, 181, 208,
       183, 32, 208, 191, 208, 190, 208, 187, 209, 131, 209, 135, 208, 181, 208, 189, 208, 184, 209, 143, 32, 208, 190, 209, 130, 208,
       178, 208, 181, 209, 130, 208, 176])"

definition AgentLoop_Run :: "agent_env \<Rightarrow> AgentLoop \<Rightarrow> string \<Rightarrow> (string \<times> Message list) agt" where
  "AgentLoop_Run en a userMessage =
     (let sessionID = parseIntSafe (al_SessionID a) in
      abind (mem en (al_hasMemory a) (\<lambda>now rid.
        PushInstruction (ag_cl en) now rid sessionID (al_CurrentVersion a) userMessage 0)) (\<lambda>instructionID.
      abind (begin_run en a sessionID instructionID userMessage) (\<lambda>messages.
      abind (run_rounds en a sessionID instructionID 10 0 messages []) (\<lambda>(answer, allMessages).
      abind (if answer = [] then infer en a sessionID limit_text f64_0_3 ''error'' ''system'' else aret ()) (\<lambda>_.
      let finalAnswer = (if answer = [] then limit_text else answer) in
      abind (quietly (mem en (al_hasMemory a) (\<lambda>now rid.
        PopInstruction (ag_cl en) now instructionID (finalAnswer \<noteq> [])))) (\<lambda>_.
        aret (finalAnswer, allMessages)))))))"

section \<open>The loop with a stream of events\<close>

text \<open>What is shown of the arguments of a call.\<close>

definition shown_arg :: "(string \<times> string) list \<Rightarrow> string" where
  "shown_arg m = (case map_of m ''path'' of Some v \<Rightarrow> '' ('' @ v @ '')''
     | None \<Rightarrow> (case map_of m ''pattern'' of Some v \<Rightarrow> '' ('' @ v @ '')''
     | None \<Rightarrow> (case map_of m ''command'' of Some v \<Rightarrow> '' ('' @ v @ '')'' | None \<Rightarrow> [])))"

fun on_stream :: "agent_env \<Rightarrow> stream_call \<Rightarrow> unit agt" where
  "on_stream en (OnChunk chunk) = event ''chunk'' chunk []"
| "on_stream en (OnToolCall call) = event ''tool_start''
     (sprintf (utf8 [240, 159, 148, 167, 32, 208, 146, 209, 139, 208, 183, 209, 139, 208, 178, 208, 176, 209, 142] @ '' %s%s...
'')
        [tf_Name (tlc_Function call), shown_arg (ag_shown en (tf_Arguments (tlc_Function call)))])
     (tf_Name (tlc_Function call))"

fun each :: "('b \<Rightarrow> unit agt) \<Rightarrow> 'b list \<Rightarrow> unit agt" where
  "each f [] = aret ()"
| "each f (x # xs) = abind (f x) (\<lambda>_. each f xs)"

text \<open>The request, with its callbacks run; an error comes after the calls made before it.\<close>

definition ask_stream :: "agent_env \<Rightarrow> AgentLoop \<Rightarrow> Message list \<Rightarrow> (llm_err option \<times> stream_call list) agt" where
  "ask_stream en a messages s =
     (let req = stream_request (agent_client a) AvailableTools messages;
          (r, calls) = ChatStream (ag_lv en) (length (as_asked s)) req
      in abind (each (on_stream en) calls) (\<lambda>_. aret (case r of Err err \<Rightarrow> Some err | _ \<Rightarrow> None, calls))
           (s\<lparr>as_asked := as_asked s @ [req]\<rparr>))"

fun stream_tools :: "agent_env \<Rightarrow> AgentLoop \<Rightarrow> i64 \<Rightarrow> i64 \<Rightarrow> ToolCall list \<Rightarrow> Message list agt" where
  "stream_tools en a sessionID instructionID [] = aret []"
| "stream_tools en a sessionID instructionID (call # calls) =
     (let name = tf_Name (tlc_Function call) in
      abind (ToolExecutor_Execute en (agent_tools a) call) (\<lambda>result.
      abind (buffer en a sessionID name result) (\<lambda>_.
      abind (think en a sessionID instructionID ''observation'' (truncate_text result 500) f64_0_7) (\<lambda>_.
      abind (event ''tool_result'' (sprintf (utf8 [240, 159, 147, 139, 32, 208, 160, 208, 181, 208, 183, 209, 131, 208, 187, 209, 140, 209, 130, 208, 176, 209, 130] @ '':
%s

'') [truncate_text result 500]) name) (\<lambda>_.
      abind (stream_tools en a sessionID instructionID calls) (\<lambda>ms.
        aret (tool_message (tlc_ID call) result # ms)))))))"

text \<open>What a round does with the stream; the result is the text of all rounds.\<close>

definition take_stream :: "agent_env \<Rightarrow> AgentLoop \<Rightarrow> i64 \<Rightarrow> i64 \<Rightarrow> (Message list \<Rightarrow> string \<Rightarrow> string agt)
    \<Rightarrow> Message list \<Rightarrow> string \<Rightarrow> llm_err option \<times> stream_call list \<Rightarrow> string agt" where
  "take_stream en a sessionID instructionID go messages full res =
     (let (err, calls) = res; full1 = full @ stream_text calls; tools = stream_calls calls in
      case err of
        Some x \<Rightarrow>
          abind (think en a sessionID instructionID ''error'' (sprintf (utf8 [76, 76, 77, 32, 208, 190, 209, 136, 208, 184, 208, 177, 208, 186, 208, 176, 58, 32, 37, 118]) [llm_err_text x]) f64_0_5) (\<lambda>_.
          abind (event ''error'' (llm_err_text x) []) (\<lambda>_. athrow (LlmFailed x)))
      | None \<Rightarrow>
          (if tools = [] then abind (event ''done'' [] []) (\<lambda>_. aret full1)
           else
             abind (stream_tools en a sessionID instructionID tools) (\<lambda>ms.
             abind (event ''chunk'' (utf8 [10, 240, 159, 146, 173, 32, 208, 159, 209, 128, 208, 190, 208, 180, 208, 190, 208, 187, 208, 182, 208, 176, 209, 142, 32, 208,
       176, 208, 189, 208, 176, 208, 187, 208, 184, 208, 183] @ ''...

'') []) (\<lambda>_.
               go (messages @ assistant_message [] tools # ms) full1))))"

definition stream_round :: "agent_env \<Rightarrow> AgentLoop \<Rightarrow> i64 \<Rightarrow> i64 \<Rightarrow> (Message list \<Rightarrow> string \<Rightarrow> string agt)
    \<Rightarrow> nat \<Rightarrow> Message list \<Rightarrow> string \<Rightarrow> string agt" where
  "stream_round en a sessionID instructionID go iteration messages full =
     abind (think en a sessionID instructionID ''analysis''
       (sprintf (utf8 [208, 152, 209, 130, 208, 181, 209, 128, 208, 176, 209, 134, 208, 184, 209, 143] @ '' %d: '' @ utf8 [209, 129, 209, 130, 209, 128, 208, 184, 208, 188, 208, 184, 208, 189, 208, 179, 32, 208, 190, 209, 130, 208, 178, 208, 181, 209,
       130, 208, 176]) [dec_nat (iteration + 1)]) f64_0_8) (\<lambda>_.
     abind (ask_stream en a messages) (take_stream en a sessionID instructionID go messages full))"

fun stream_rounds :: "agent_env \<Rightarrow> AgentLoop \<Rightarrow> i64 \<Rightarrow> i64 \<Rightarrow> nat \<Rightarrow> nat \<Rightarrow> Message list \<Rightarrow> string \<Rightarrow> string agt" where
  "stream_rounds en a sessionID instructionID 0 iteration messages full = aret full"
| "stream_rounds en a sessionID instructionID (Suc k) iteration messages full =
     stream_round en a sessionID instructionID (\<lambda>ms full1. stream_rounds en a sessionID instructionID k (Suc iteration) ms full1)
       iteration messages full"

text \<open>An error of the memory is reported and passed on.\<close>

definition or_report :: "(client_err \<Rightarrow> string) \<Rightarrow> 'a agt \<Rightarrow> 'a agt" where
  "or_report text m s = (case m s of
     (Err (MemoryFailed err), s1) \<Rightarrow> abind (event ''error'' (text err) []) (\<lambda>_. athrow (MemoryFailed err)) s1
   | r \<Rightarrow> r)"

definition AgentLoop_RunStream :: "agent_env \<Rightarrow> AgentLoop \<Rightarrow> string \<Rightarrow> unit agt" where
  "AgentLoop_RunStream en a userMessage =
     (if \<not> al_hasMemory a then abind (event ''error'' (''MemoryManager '' @ utf8 [208, 189, 208, 181, 32, 208, 184, 208, 189, 208, 184, 209, 134, 208, 184, 208, 176, 208, 187, 208, 184, 208, 183, 208, 184, 209,
       128, 208, 190, 208, 178, 208, 176, 208, 189]) []) (\<lambda>_. athrow MemoryManagerNil)
      else let sessionID = parseIntSafe (al_SessionID a) in
      abind (or_report (\<lambda>err. sprintf (utf8 [208, 158, 209, 136, 208, 184, 208, 177, 208, 186, 208, 176, 32, 209, 129, 208, 181, 209, 129, 209, 129, 208, 184, 208, 184, 58,
       32, 37, 118]) [ag_err_text en err])
        (mem en True (\<lambda>now rid. GetOrCreateSession (ag_cl en) now sessionID))) (\<lambda>_.
      abind (or_report (ag_err_text en)
        (mem en True (\<lambda>now rid. PushInstruction (ag_cl en) now rid sessionID (al_CurrentVersion a) userMessage 0))) (\<lambda>instructionID.
      abind (begin_run en a sessionID instructionID userMessage) (\<lambda>messages.
      abind (stream_rounds en a sessionID instructionID 10 0 messages []) (\<lambda>full.
      abind (if full \<noteq> [] then
          abind (think en a sessionID instructionID ''conclusion'' (truncate_text full 500) f64_0_9) (\<lambda>_.
            infer en a sessionID full f64_0_9 ''fact'' ''agent'')
        else aret ()) (\<lambda>_.
      abind (quietly (mem en True (\<lambda>now rid. PopInstruction (ag_cl en) now instructionID True))) (\<lambda>_.
        event ''done'' [] [])))))))"

end
