(* ===== verification/LlmProps.thy ===== *)
theory LlmProps imports LlmClient begin

text \<open>
  Tool calls arrive in pieces and come out whole: what a received response consists of (the relation \<open>reads_as\<close>
  between its lines and the deltas they carry, other lines and an end mark among them) and what
  \<^verbatim>\<open>ChatStream\<close> hands to its callbacks.
\<close>

section \<open>A call in pieces\<close>

text \<open>
  The pieces of a call: the first has the identifier, the type and the name, the others only carry on the
  arguments, with the identifier or without it. The arguments become valid JSON with the last piece
  and not before.
\<close>

fun goes_on :: "(string \<Rightarrow> bool) \<Rightarrow> string \<Rightarrow> string \<Rightarrow> ToolCall list \<Rightarrow> string \<Rightarrow> bool" where
  "goes_on valid cid sofar [] args \<longleftrightarrow> sofar = args \<and> args \<noteq> [] \<and> valid args"
| "goes_on valid cid sofar (d # ds) args \<longleftrightarrow> (sofar = [] \<or> \<not> valid sofar) \<and> (tlc_ID d = [] \<or> tlc_ID d = cid)
     \<and> tlc_Type d = [] \<and> tf_Name (tlc_Function d) = [] \<and> goes_on valid cid (sofar @ call_args d) ds args"

definition sent_as :: "(string \<Rightarrow> bool) \<Rightarrow> ToolCall \<Rightarrow> ToolCall list \<Rightarrow> bool" where
  "sent_as valid c ds \<longleftrightarrow> tlc_ID c \<noteq> [] \<and> ds \<noteq> []
     \<and> tlc_ID (hd ds) = tlc_ID c \<and> tlc_Type (hd ds) = tlc_Type c \<and> tf_Name (tlc_Function (hd ds)) = tf_Name (tlc_Function c)
     \<and> goes_on valid (tlc_ID c) (call_args (hd ds)) (tl ds) (call_args c)"

definition with_args :: "ToolCall \<Rightarrow> string \<Rightarrow> ToolCall" where
  "with_args c a = \<lparr>tlc_ID = tlc_ID c, tlc_Type = tlc_Type c,
     tlc_Function = \<lparr>tf_Name = tf_Name (tlc_Function c), tf_Arguments = a\<rparr>\<rparr>"

lemma with_args_simps [simp]: "tlc_ID (with_args c a) = tlc_ID c" "tlc_Type (with_args c a) = tlc_Type c"
  "tf_Name (tlc_Function (with_args c a)) = tf_Name (tlc_Function c)" "call_args (with_args c a) = a"
  "with_args c (call_args c) = c" "with_args (with_args c a) b = with_args c b"
  by (simp_all add: with_args_def call_args_def)

lemma extend_with_args:
  "tlc_Type d = [] \<Longrightarrow> tf_Name (tlc_Function d) = [] \<Longrightarrow> tlc_ID c \<noteq> [] \<Longrightarrow>
    extend_call (with_args c a) d = with_args c (a @ call_args d)"
  by (simp add: extend_call_def with_args_def call_args_def)

lemma tool_deltas_append:
  "tool_deltas valid cur (ds @ es) =
     (case tool_deltas valid cur ds of (cur1, called1) \<Rightarrow> case tool_deltas valid cur1 es of (cur2, called2) \<Rightarrow> (cur2, called1 @ called2))"
  by (induction ds arbitrary: cur) (auto split: prod.splits)

lemma carry_on:
  assumes "goes_on valid (tlc_ID c) a ds args" "tlc_ID c \<noteq> []"
  shows "(case hand_over valid (with_args c a) of (cur, called) \<Rightarrow>
    case tool_deltas valid cur ds of (cur2, called2) \<Rightarrow> (cur2, called @ called2)) = (None, [with_args c args])"
  using assms
proof (induction ds arbitrary: a)
  case Nil
  then show ?case by (simp add: hand_over_def complete_call_def)
next
  case (Cons d ds)
  then have "\<not> complete_call valid (with_args c a)" by (simp add: complete_call_def)
  moreover have "tool_delta valid (Some (with_args c a)) d = hand_over valid (with_args c (a @ call_args d))"
    using Cons.prems extend_with_args [of d c a] by (auto simp: tool_delta_def)
  ultimately show ?case using Cons.IH [of "a @ call_args d"] Cons.prems
    by (simp add: hand_over_def [of valid "with_args c a"])
qed

lemma one_call:
  assumes "sent_as valid c ds"
  shows "tool_deltas valid None ds = (None, [c])"
proof -
  obtain d ds' where ds: "ds = d # ds'" using assms by (cases ds) (auto simp: sent_as_def)
  have s: "start_call d = with_args c (call_args d)"
    using assms by (simp add: ds sent_as_def start_call_def with_args_def call_args_def)
  have "tool_delta valid None d = hand_over valid (with_args c (call_args d))"
    using assms s by (simp add: ds sent_as_def tool_delta_def)
  then show ?thesis using carry_on [of valid c "call_args d" ds' "call_args c"] assms
    by (simp add: ds sent_as_def)
qed

lemma all_calls: "list_all2 (sent_as valid) cs dss \<Longrightarrow> tool_deltas valid None (concat dss) = (None, cs)"
  by (induction rule: list_all2_induct) (simp_all add: tool_deltas_append one_call)

section \<open>The stream\<close>

text \<open>A line of the stream that carries a delta.\<close>

definition carries :: "llm_env \<Rightarrow> string \<Rightarrow> Reply \<Rightarrow> bool" where
  "carries lv line r \<longleftrightarrow> HasPrefix (TrimSpace line) ''data: '' \<and> drop 6 (TrimSpace line) \<noteq> ''[DONE]''
     \<and> (\<exists>more. lv_delta lv (drop 6 (TrimSpace line)) = Some (r # more))"

lemma stream_text_append: "stream_text (xs @ ys) = stream_text xs @ stream_text ys"
  by (induction xs rule: stream_text.induct) simp_all

lemma stream_calls_append: "stream_calls (xs @ ys) = stream_calls xs @ stream_calls ys"
  by (induction xs rule: stream_calls.induct) simp_all

lemma only_calls [simp]: "stream_text (map OnToolCall cs) = []" "stream_calls (map OnToolCall cs) = cs"
  by (induction cs) simp_all

text \<open>
  A line the client skips: one that is no data line (a blank line, a comment, an event name), or one whose
  payload does not decode or has no choice.
\<close>

definition skipped :: "llm_env \<Rightarrow> string \<Rightarrow> bool" where
  "skipped lv line \<longleftrightarrow> \<not> HasPrefix (TrimSpace line) ''data: ''
     \<or> (drop 6 (TrimSpace line) \<noteq> ''[DONE]'' \<and> lv_delta lv (drop 6 (TrimSpace line)) \<in> {None, Some []})"

text \<open>
  How the lines of a response read as deltas: skipped lines anywhere, the deltas in order, up to the end
  or to the mark \<^verbatim>\<open>[DONE]\<close>, behind which there may be anything.
\<close>

inductive reads_as :: "llm_env \<Rightarrow> string list \<Rightarrow> Reply list \<Rightarrow> bool" for lv where
  at_end: "reads_as lv [] []"
| at_done: "TrimSpace line = ''data: [DONE]'' \<Longrightarrow> reads_as lv (line # rest) []"
| skip: "skipped lv line \<Longrightarrow> reads_as lv lines rs \<Longrightarrow> reads_as lv (line # lines) rs"
| delta: "carries lv line r \<Longrightarrow> reads_as lv lines rs \<Longrightarrow> reads_as lv (line # lines) (r # rs)"

lemma stream_reads:
  assumes "reads_as lv lines rs"
  shows "stream_text (fst (stream_lines lv cur lines)) = concat (map re_Content rs)
    \<and> stream_calls (fst (stream_lines lv cur lines)) = snd (tool_deltas (lv_valid lv) cur (concat (map re_ToolCalls rs)))"
  using assms
proof (induction arbitrary: cur rule: reads_as.induct)
  case (at_done line rest)
  then show ?case by (simp add: HasPrefix_def Let_def)
next
  case (skip line lines rs)
  then have "stream_lines lv cur (line # lines) = stream_lines lv cur lines" by (auto simp: skipped_def Let_def)
  then show ?case using skip.IH by simp
next
  case (delta line r lines rs)
  obtain more' where l: "HasPrefix (TrimSpace line) ''data: ''" "drop 6 (TrimSpace line) \<noteq> ''[DONE]''"
      "lv_delta lv (drop 6 (TrimSpace line)) = Some (r # more')" using delta.hyps(1) by (auto simp: carries_def)
  obtain cur1 called where d: "tool_deltas (lv_valid lv) cur (re_ToolCalls r) = (cur1, called)" by fastforce
  obtain calls done' where s: "stream_lines lv cur1 lines = (calls, done')" by fastforce
  have "stream_lines lv cur (line # lines)
      = ((if re_Content r \<noteq> [] then [OnChunk (re_Content r)] else []) @ map OnToolCall called @ calls, done')"
    using l d s by (simp add: Let_def)
  moreover have "stream_text calls = concat (map re_Content rs)"
    "stream_calls calls = snd (tool_deltas (lv_valid lv) cur1 (concat (map re_ToolCalls rs)))"
    using delta.IH [of cur1] s by simp_all
  ultimately show ?case using d
    by (simp add: stream_text_append stream_calls_append tool_deltas_append split: prod.splits)
qed simp

text \<open>C29: Tool calls come out of the stream whole. Take a response of status 200 that is received to its end: its
  lines are data lines with a delta, mixed with lines that carry none (blank lines, comments, payloads that do
  not decode or have no choice), up to the end or to the line data: [DONE], whatever follows that; an unfinished last
  line is dropped. However the pieces are spread over the deltas, if each call is sent as a first piece with its
  identifier, type and name followed by pieces of its arguments, which are valid JSON only when complete, then
  ChatStream returns without an error, the callbacks have got exactly the calls, in order, and the chunks
  of text are exactly the contents of the deltas.\<close>

theorem streamed_calls_come_out_whole:
  assumes "lv_http lv n req = Response 200 body None" and "reads_as lv (complete_lines [] body) rs"
    and "list_all2 (sent_as (lv_valid lv)) calls pieces" "concat (map re_ToolCalls rs) = concat pieces"
  shows "\<exists>made. ChatStream lv n req = (Ok (), made) \<and> stream_calls made = calls
    \<and> stream_text made = concat (map re_Content rs)"
proof -
  obtain made ended where "stream_lines lv None (complete_lines [] body) = (made, ended)" by fastforce
  then show ?thesis
    using stream_reads [OF assms(2), of None] all_calls [OF assms(3)] assms(1,4) by (simp add: ChatStream_def)
qed

text \<open>A call read_file in two pieces, between a comment, blank lines and a broken payload, with more behind the end mark.\<close>

definition demo_piece :: "string \<Rightarrow> string \<Rightarrow> string \<Rightarrow> ToolCall" where
  "demo_piece i n a = \<lparr>tlc_ID = i, tlc_Type = [], tlc_Function = \<lparr>tf_Name = n, tf_Arguments = a\<rparr>\<rparr>"

definition demo_body :: string where
  "demo_body = concat (map (\<lambda>l. l @ [CHR 0x0A]) ['': ping'', [], ''data: a'', [], ''data: oops'', '' data: b'' @ [CHR 0x0D],
     ''data: [DONE]'', ''data: a''])"

definition demo_llm :: llm_env where
  "demo_llm = \<lparr>lv_http = (\<lambda>_ _. Response 200 demo_body None), lv_valid = (\<lambda>s. s = ''{1}''),
     lv_delta = (\<lambda>s. if s = ''a'' then Some [\<lparr>re_Content = ''text'', re_ToolCalls = [demo_piece ''c1'' ''read_file'' ''{'']\<rparr>]
       else if s = ''b'' then Some [\<lparr>re_Content = [], re_ToolCalls = [demo_piece [] [] ''1}'']\<rparr>] else None),
     lv_reply = (\<lambda>_. Inl [])\<rparr>"

theorem streamed_calls_come_out_whole_witness:
  "\<forall>req. \<exists>made. ChatStream demo_llm 0 req = (Ok (), made)
    \<and> stream_calls made = [demo_piece ''c1'' ''read_file'' ''{1}''] \<and> stream_text made = ''text''"
proof
  fix req
  let ?rs = "[\<lparr>re_Content = ''text'', re_ToolCalls = [demo_piece ''c1'' ''read_file'' ''{'']\<rparr>,
    \<lparr>re_Content = [], re_ToolCalls = [demo_piece [] [] ''1}'']\<rparr>]"
  have h: "lv_http demo_llm 0 req = Response 200 demo_body None" by (simp add: demo_llm_def)
  have l: "complete_lines [] demo_body = ['': ping'' @ [CHR 0x0A], [CHR 0x0A], ''data: a'' @ [CHR 0x0A], [CHR 0x0A],
      ''data: oops'' @ [CHR 0x0A], '' data: b'' @ [CHR 0x0D, CHR 0x0A], ''data: [DONE]'' @ [CHR 0x0A], ''data: a'' @ [CHR 0x0A]]"
    by (simp add: demo_body_def)
  have t: "TrimSpace ('': ping'' @ [CHR 0x0A]) = '': ping''" "TrimSpace [CHR 0x0A] = []" "TrimSpace (''data: a'' @ [CHR 0x0A]) = ''data: a''"
    "TrimSpace (''data: oops'' @ [CHR 0x0A]) = ''data: oops''" "TrimSpace ('' data: b'' @ [CHR 0x0D, CHR 0x0A]) = ''data: b''"
    "TrimSpace (''data: [DONE]'' @ [CHR 0x0A]) = ''data: [DONE]''"
    by code_simp+
  have skip: "skipped demo_llm ('': ping'' @ [CHR 0x0A])" "skipped demo_llm [CHR 0x0A]" "skipped demo_llm (''data: oops'' @ [CHR 0x0A])"
    unfolding skipped_def t by (simp_all add: HasPrefix_def demo_llm_def)
  have carry: "carries demo_llm (''data: a'' @ [CHR 0x0A]) (?rs ! 0)" "carries demo_llm ('' data: b'' @ [CHR 0x0D, CHR 0x0A]) (?rs ! 1)"
    unfolding carries_def t by (simp_all add: HasPrefix_def demo_llm_def)
  have a: "reads_as demo_llm (complete_lines [] demo_body) [?rs ! 0, ?rs ! 1]"
    unfolding l by (intro reads_as.skip [OF skip(1)] reads_as.skip [OF skip(2)] reads_as.delta [OF carry(1)] reads_as.skip [OF skip(3)]
      reads_as.delta [OF carry(2)] reads_as.at_done [OF t(6)])
  have b: "list_all2 (sent_as (lv_valid demo_llm)) [demo_piece ''c1'' ''read_file'' ''{1}'']
      [[demo_piece ''c1'' ''read_file'' ''{'', demo_piece [] [] ''1}'']]"
    by (simp add: sent_as_def demo_piece_def demo_llm_def call_args_def)
  have c: "concat (map re_ToolCalls [?rs ! 0, ?rs ! 1]) = concat [[demo_piece ''c1'' ''read_file'' ''{'', demo_piece [] [] ''1}'']]" by simp
  have "concat (map re_Content [?rs ! 0, ?rs ! 1]) = ''text''" by simp
  then show "\<exists>made. ChatStream demo_llm 0 req = (Ok (), made)
    \<and> stream_calls made = [demo_piece ''c1'' ''read_file'' ''{1}''] \<and> stream_text made = ''text''"
    using streamed_calls_come_out_whole [OF h a b c] by simp
qed

end
