(* ===== verification/AgentProps.thy ===== *)
theory AgentProps imports Agent LlmProps begin

text \<open>
  The dialog with the model, and the tools.
\<close>

section \<open>Actions that ask nothing\<close>

definition asks_nothing :: "'a agt \<Rightarrow> bool" where
  "asks_nothing m \<longleftrightarrow> (\<forall>s. as_asked (snd (m s)) = as_asked s)"

named_theorems asks_nothing_intro

lemma asks_nothing_abind [asks_nothing_intro]:
  assumes "asks_nothing m" "\<And>a. asks_nothing (f a)"
  shows "asks_nothing (abind m f)"
  unfolding asks_nothing_def
proof
  fix s
  obtain r s1 where m: "m s = (r, s1)" by fastforce
  then have "as_asked s1 = as_asked s" using assms(1) by (metis asks_nothing_def snd_conv)
  then show "as_asked (snd (abind m f s)) = as_asked s" using m assms(2)
    by (cases r) (simp_all add: abind_def asks_nothing_def)
qed

lemma asks_nothing_basic [asks_nothing_intro]: "asks_nothing (aret a)" "asks_nothing (athrow err)" "asks_nothing (event ty c t)"
  by (simp_all add: asks_nothing_def aret_def athrow_def event_def)

lemma asks_nothing_mem [asks_nothing_intro]: "asks_nothing (mem en present f)"
  by (auto simp: asks_nothing_def mem_def split: prod.splits)

lemma asks_nothing_quietly [asks_nothing_intro]: "asks_nothing m \<Longrightarrow> asks_nothing (quietly m)"
  by (auto simp: asks_nothing_def quietly_def split: prod.split outcome.split) (metis snd_conv)+

lemma asks_nothing_if [asks_nothing_intro]: "asks_nothing m \<Longrightarrow> asks_nothing m' \<Longrightarrow> asks_nothing (if c then m else m')"
  by simp

lemma asks_nothing_notes [asks_nothing_intro]: "asks_nothing (think en a sid iid ty c conf)" "asks_nothing (infer en a sid c conf ty src)"
  "asks_nothing (buffer en a sid k v)" "asks_nothing (note_call en te name args res ok)"
  unfolding think_def infer_def buffer_def note_call_def by (intro asks_nothing_intro)+

lemma asks_nothing_tool [asks_nothing_intro]: "asks_nothing (ToolExecutor_Execute en te call)"
proof -
  have "asks_nothing (\<lambda>s. case run_tool en te name args (as_fs s) of (r, fs) \<Rightarrow> (r, s\<lparr>as_fs := fs\<rparr>))" for name args
    by (auto simp: asks_nothing_def split: prod.split)
  then show ?thesis unfolding ToolExecutor_Execute_def Let_def by (intro asks_nothing_intro)
qed

lemma asks_nothing_begin [asks_nothing_intro]: "asks_nothing (begin_run en a sid iid msg)"
proof -
  have "asks_nothing (context_of en a sid)"
    unfolding asks_nothing_def
  proof
    fix s :: agent_state
    let ?m = "mem en (al_hasMemory a) (\<lambda>now rid. BuildContextForLLM (ag_cl en) now (ag_now en (Suc (as_tick s))) sid (al_CurrentVersion a) 4000)"
    have "asks_nothing (abind ?m (\<lambda>text s1. (Ok text, s1\<lparr>as_tick := Suc (as_tick s1)\<rparr>)))"
      by (intro asks_nothing_intro) (simp add: asks_nothing_def)
    then show "as_asked (snd (context_of en a sid s)) = as_asked s" by (simp add: asks_nothing_def context_of_def)
  qed
  then show ?thesis unfolding begin_run_def by (intro asks_nothing_intro)
qed

lemma asks_nothing_calls [asks_nothing_intro]: "asks_nothing (run_calls en a sid iid calls)" "asks_nothing (stream_tools en a sid iid calls)"
proof -
  show "asks_nothing (run_calls en a sid iid calls)"
  proof (induction calls)
    case (Cons call calls)
    have "asks_nothing (case p of (ms, shown) \<Rightarrow> aret (f ms shown))" for p :: "Message list \<times> Message list" and f :: "Message list \<Rightarrow> Message list \<Rightarrow> 'z"
      by (cases p) (simp add: asks_nothing_intro)
    then show ?case unfolding run_calls.simps Let_def by (intro asks_nothing_intro Cons.IH)
  qed (simp add: asks_nothing_intro)
  show "asks_nothing (stream_tools en a sid iid calls)"
  proof (induction calls)
    case (Cons call calls)
    then show ?case unfolding stream_tools.simps Let_def by (intro asks_nothing_intro)
  qed (simp add: asks_nothing_intro)
qed

lemma asked_same: "asks_nothing m \<Longrightarrow> m s = (r, s') \<Longrightarrow> as_asked s' = as_asked s"
  by (metis asks_nothing_def snd_conv)

lemma after_quiet:
  assumes "asks_nothing m" "Q (as_asked s)" "\<And>a s1. m s = (Ok a, s1) \<Longrightarrow> as_asked s1 = as_asked s \<Longrightarrow> Q (as_asked (snd (f a s1)))"
  shows "Q (as_asked (snd (abind m f s)))"
proof -
  obtain r s1 where m: "m s = (r, s1)" by fastforce
  then have "as_asked s1 = as_asked s" by (rule asked_same [OF assms(1)])
  then show ?thesis using m assms(2,3) by (cases r) (simp_all add: abind_def)
qed

section \<open>The dialog\<close>

text \<open>
  A dialog opens with the instructions of the system and the user; then every answer of the model with
  tool calls is followed by one message per call, in the order of the calls and with their identifiers.
\<close>

inductive dialog :: "Message list \<Rightarrow> bool" where
  begins: "dialog [plain_message ''system'' c, plain_message ''user'' u]"
| answered: "dialog ms \<Longrightarrow> calls \<noteq> [] \<Longrightarrow> map ms_ToolCallID ts = map tlc_ID calls \<Longrightarrow> \<forall>t \<in> set ts. ms_Role t = ''tool''
    \<Longrightarrow> dialog (ms @ assistant_message c calls # ts)"

text \<open>What has been asked grows by at most \<open>k\<close> requests, each a dialog that starts with \<open>ms\<close> and extends the one before.\<close>

fun extending :: "Message list \<Rightarrow> http_request list \<Rightarrow> bool" where
  "extending ms [] = True"
| "extending ms (r # rs) \<longleftrightarrow> (\<exists>ext. rq_Messages (hr_Body r) = ms @ ext) \<and> extending (rq_Messages (hr_Body r)) rs"

definition asks_on :: "nat \<Rightarrow> Message list \<Rightarrow> http_request list \<Rightarrow> http_request list \<Rightarrow> bool" where
  "asks_on k ms A A' \<longleftrightarrow> (\<exists>reqs. A' = A @ reqs \<and> length reqs \<le> k \<and> (\<forall>r \<in> set reqs. dialog (rq_Messages (hr_Body r))) \<and> extending ms reqs)"

lemma asks_on_refl: "asks_on k ms A A"
  by (auto simp: asks_on_def)

lemma extending_ext: "extending (ms @ ext) rs \<Longrightarrow> extending ms rs"
  by (cases rs) auto

lemma asks_on_step:
  assumes "dialog ms" "rq_Messages (hr_Body r) = ms" "asks_on k (ms @ ext) (A @ [r]) A'"
  shows "asks_on (Suc k) ms A A'"
proof -
  obtain reqs where q: "A' = A @ r # reqs" "length reqs \<le> k" "\<forall>r \<in> set reqs. dialog (rq_Messages (hr_Body r))" "extending (ms @ ext) reqs"
    using assms(3) by (auto simp: asks_on_def)
  then have "extending ms (r # reqs)" using extending_ext assms(2) by auto
  then show ?thesis using q assms(1,2) unfolding asks_on_def by (intro exI [of _ "r # reqs"]) auto
qed

lemma asks_on_one: "dialog ms \<Longrightarrow> rq_Messages (hr_Body r) = ms \<Longrightarrow> asks_on (Suc k) ms A (A @ [r])"
  using asks_on_step [of ms r k "[]" A "A @ [r]"] asks_on_refl by simp

lemma request_messages [simp]: "rq_Messages (hr_Body (chat_request c tools ms)) = ms" "rq_Messages (hr_Body (stream_request c tools ms)) = ms"
  by (simp_all add: chat_request_def stream_request_def request_of_def)

lemma abind_Ok: "abind m f s = (Ok b, s') \<longleftrightarrow> (\<exists>a s1. m s = (Ok a, s1) \<and> f a s1 = (Ok b, s'))"
  by (auto simp: abind_def split: prod.splits outcome.splits)

lemma abind_OkE: "abind m f s = (Ok b, s') \<Longrightarrow> (\<And>a s1. m s = (Ok a, s1) \<Longrightarrow> f a s1 = (Ok b, s') \<Longrightarrow> P) \<Longrightarrow> P"
  by (auto simp: abind_Ok)

definition answers :: "Message list \<Rightarrow> ToolCall list \<Rightarrow> bool" where
  "answers ms calls \<longleftrightarrow> map ms_ToolCallID ms = map tlc_ID calls \<and> (\<forall>t \<in> set ms. ms_Role t = ''tool'')"

lemma answers_Cons: "answers ms calls \<Longrightarrow> answers (tool_message (tlc_ID call) r # ms) (call # calls)"
  by (simp add: answers_def tool_message_def)

lemma run_calls_answers: "run_calls en a sid iid calls s = (Ok (ms, shown), s') \<Longrightarrow> answers ms calls"
proof (induction calls arbitrary: s ms shown s')
  case Nil
  then show ?case by (simp add: aret_def answers_def)
next
  case (Cons call calls)
  from Cons.prems obtain p s1 s2 where p: "run_calls en a sid iid calls s1 = (Ok p, s2)"
    and "\<exists>r. ms = tool_message (tlc_ID call) r # fst p"
    unfolding run_calls.simps Let_def by (elim abind_OkE) (rule that, assumption, auto simp: aret_def split: prod.splits)
  then obtain r where ms: "ms = tool_message (tlc_ID call) r # fst p" by blast
  from p have "answers (fst p) calls" using Cons.IH [of s1 "fst p" "snd p" s2] by simp
  then show ?case using ms answers_Cons by simp
qed

lemma stream_tools_answers: "stream_tools en a sid iid calls s = (Ok ms, s') \<Longrightarrow> answers ms calls"
proof (induction calls arbitrary: s ms s')
  case Nil
  then show ?case by (simp add: aret_def answers_def)
next
  case (Cons call calls)
  from Cons.prems obtain ms1 s1 s2 where p: "stream_tools en a sid iid calls s1 = (Ok ms1, s2)"
    and "\<exists>r. ms = tool_message (tlc_ID call) r # ms1"
    unfolding stream_tools.simps Let_def by (elim abind_OkE) (rule that, assumption, auto simp: aret_def)
  then obtain r where ms: "ms = tool_message (tlc_ID call) r # ms1" by blast
  from Cons.IH [OF p] show ?case using ms answers_Cons by simp
qed

text \<open>An action that makes one request, and what follows it.\<close>

lemma after_request:
  assumes m: "\<And>r s1. m s = (r, s1) \<Longrightarrow> as_asked s1 = as_asked s @ [req]" and ms: "dialog ms" "rq_Messages (hr_Body req) = ms"
    and f: "\<And>b s1. m s = (Ok b, s1) \<Longrightarrow> as_asked s1 = as_asked s @ [req] \<Longrightarrow>
      asks_on (Suc k) ms (as_asked s) (as_asked (snd (f b s1)))"
  shows "asks_on (Suc k) ms (as_asked s) (as_asked (snd (abind m f s)))"
proof -
  obtain r s1 where r: "m s = (r, s1)" by fastforce
  then have "asks_on (Suc k) ms (as_asked s) (as_asked s1)" using m asks_on_one [OF ms] by simp
  then show ?thesis using r m [OF r] f by (cases r) (simp_all add: abind_def)
qed

lemma asked_quietly: "asks_nothing m \<Longrightarrow> as_asked s1 = A \<Longrightarrow> Q A \<Longrightarrow> Q (as_asked (snd (m s1)))"
  by (simp add: asks_nothing_def)

lemma give_up_asked:
  assumes g: "or_give_up en a sid iid m s = (r, s1)" and m: "\<And>r s1. m s = (r, s1) \<Longrightarrow> as_asked s1 = A"
  shows "as_asked s1 = A"
proof -
  obtain r0 s0 where r0: "m s = (r0, s0)" by fastforce
  note s0 = m [OF r0]
  show ?thesis
  proof (cases "\<exists>err. r0 = Err (LlmFailed err)")
    case True
    then obtain err t where "abind (think en a sid iid ''error'' t f64_0_5) (\<lambda>_. athrow (LlmFailed err)) s0 = (r, s1)"
      using g r0 by (auto simp: or_give_up_def)
    moreover have "asks_nothing (abind (think en a sid iid ''error'' t f64_0_5) (\<lambda>_. athrow (LlmFailed err)))" for t err
      by (intro asks_nothing_intro)
    ultimately show ?thesis using asked_same s0 by metis
  next
    case False
    then have "s1 = s0" using g r0 by (auto simp: or_give_up_def split: outcome.splits agent_err.splits)
    then show ?thesis using s0 by simp
  qed
qed

lemma ask_asked: "ask en a ms s = (r, s1) \<Longrightarrow> as_asked s1 = as_asked s @ [chat_request (agent_client a) AvailableTools ms]"
  by (auto simp: ask_def Let_def)

lemma asks_nothing_each: "(\<And>x. asks_nothing (f x)) \<Longrightarrow> asks_nothing (each f xs)"
  by (induction xs) (simp_all add: asks_nothing_intro)

lemma asks_nothing_on_stream: "asks_nothing (on_stream en c)"
  by (cases c) (simp_all add: asks_nothing_intro)

lemma ask_stream_asked:
  assumes "ask_stream en a ms s = (r, s1)"
  shows "as_asked s1 = as_asked s @ [stream_request (agent_client a) AvailableTools ms]"
proof -
  have quiet: "asks_nothing (abind (each (on_stream en) calls) (\<lambda>_. aret (x, calls)))" for calls and x :: "llm_err option"
    by (intro asks_nothing_intro asks_nothing_each asks_nothing_on_stream)
  let ?req = "stream_request (agent_client a) AvailableTools ms"
  obtain r0 calls where "ChatStream (ag_lv en) (length (as_asked s)) ?req = (r0, calls)" by fastforce
  then have "abind (each (on_stream en) calls) (\<lambda>_. aret (case r0 of Err err \<Rightarrow> Some err | _ \<Rightarrow> None, calls))
      (s\<lparr>as_asked := as_asked s @ [?req]\<rparr>) = (r, s1)"
    using assms by (simp add: ask_stream_def Let_def)
  from asked_same [OF quiet this] show ?thesis by simp
qed

lemma take_answer_asks:
  assumes D: "dialog ms" and A: "as_asked s = A @ [r]" and r: "rq_Messages (hr_Body r) = ms"
    and go: "\<And>ext shown s. dialog (ms @ ext) \<Longrightarrow> asks_on k (ms @ ext) (as_asked s) (as_asked (snd (go (ms @ ext) shown s)))"
  shows "asks_on (Suc k) ms A (as_asked (snd (take_answer en a sid iid go i ms shown choices s)))"
proof -
  let ?P = "\<lambda>A'. asks_on (Suc k) ms A A'"
  have here: "as_asked s1 = as_asked s \<Longrightarrow> ?P (as_asked s1)" for s1 using asks_on_one [OF D r] A by simp
  show ?thesis
  proof (cases "re_ToolCalls (hd choices) = []")
    case True
    have "asks_nothing (take_answer en a sid iid go i ms shown choices)"
      unfolding take_answer_def Let_def using True by (simp add: asks_nothing_intro)
    then have "as_asked (snd (take_answer en a sid iid go i ms shown choices s)) = as_asked s" by (simp add: asks_nothing_def)
    then show ?thesis by (rule here)
  next
    case False
    let ?c = "re_ToolCalls (hd choices)"
    show ?thesis unfolding take_answer_def Let_def if_not_P [OF False]
    proof (rule after_quiet [where Q = ?P], goal_cases)
      case (3 u s1)
      note s1 = 3(2)
      show ?case
      proof (rule after_quiet [where Q = ?P], goal_cases)
        case (3 p s2)
        obtain ts sh where p: "p = (ts, sh)" by fastforce
        have "answers ts ?c" using run_calls_answers 3(1) p by blast
        then have D': "dialog (ms @ assistant_message (re_Content (hd choices)) ?c # ts)"
          using dialog.answered [OF D False] by (simp add: answers_def)
        have s2: "as_asked s2 = as_asked s" using 3(2) s1 by simp
        show ?case unfolding p prod.case
        proof (rule after_quiet [where Q = ?P], goal_cases)
          case (3 v s3)
          then have "as_asked s3 = A @ [r]" using s2 A by simp
          then show ?case using asks_on_step [OF D r] go [OF D'] by metis
        qed (intro asks_nothing_intro, rule here, rule s2)
      qed (intro asks_nothing_intro, rule here, rule s1)
    qed (intro asks_nothing_intro, rule here, rule refl)
  qed
qed

lemma take_stream_asks:
  assumes D: "dialog ms" and A: "as_asked s = A @ [r]" and r: "rq_Messages (hr_Body r) = ms"
    and go: "\<And>ext full s. dialog (ms @ ext) \<Longrightarrow> asks_on k (ms @ ext) (as_asked s) (as_asked (snd (go (ms @ ext) full s)))"
  shows "asks_on (Suc k) ms A (as_asked (snd (take_stream en a sid iid go ms full res s)))"
proof -
  let ?P = "\<lambda>A'. asks_on (Suc k) ms A A'"
  have here: "as_asked s1 = as_asked s \<Longrightarrow> ?P (as_asked s1)" for s1 using asks_on_one [OF D r] A by simp
  obtain err calls where res: "res = (err, calls)" by fastforce
  show ?thesis
  proof (cases "err = None \<and> stream_calls calls \<noteq> []")
    case False
    have "asks_nothing (take_stream en a sid iid go ms full res)"
      unfolding take_stream_def Let_def res prod.case using False by (cases err) (auto simp: asks_nothing_intro)
    then have "as_asked (snd (take_stream en a sid iid go ms full res s)) = as_asked s" by (simp add: asks_nothing_def)
    then show ?thesis by (rule here)
  next
    case True
    then have T: "stream_calls calls \<noteq> []" and err: "err = None" by simp_all
    show ?thesis unfolding take_stream_def Let_def res err prod.case option.case if_not_P [OF T]
    proof (rule after_quiet [where Q = ?P], goal_cases)
      case (3 ts s1)
      have D': "dialog (ms @ assistant_message [] (stream_calls calls) # ts)"
        using dialog.answered [OF D T] stream_tools_answers [OF 3(1)] by (simp add: answers_def)
      note s1 = 3(2)
      show ?case
      proof (rule after_quiet [where Q = ?P], goal_cases)
        case (3 v s2)
        then have "as_asked s2 = A @ [r]" using s1 A by simp
        then show ?case using asks_on_step [OF D r] go [OF D'] by metis
      qed (intro asks_nothing_intro, rule here, rule s1)
    qed (intro asks_nothing_intro, rule here, rule refl)
  qed
qed

section \<open>The rounds\<close>

lemma run_rounds_asks:
  "dialog ms \<Longrightarrow> asks_on k ms (as_asked s) (as_asked (snd (run_rounds en a sid iid k i ms shown s)))"
proof (induction k arbitrary: i ms shown s)
  case 0
  then show ?case by (simp add: aret_def asks_on_refl)
next
  case (Suc k)
  let ?req = "chat_request (agent_client a) AvailableTools ms"
  show ?case unfolding run_rounds.simps run_round_def
  proof (rule after_quiet, goal_cases)
    case (3 u s1)
    have "asks_on (Suc k) ms (as_asked s1) (as_asked (snd (abind (or_give_up en a sid iid (ask en a ms))
        (take_answer en a sid iid (\<lambda>ms shown. run_rounds en a sid iid k (Suc i) ms shown) i ms shown) s1)))"
    proof (rule after_request [where req = ?req])
      show "as_asked s2 = as_asked s1 @ [?req]" if "or_give_up en a sid iid (ask en a ms) s1 = (r, s2)" for r s2
        using give_up_asked [OF that] ask_asked by blast
      show "asks_on (Suc k) ms (as_asked s1) (as_asked (snd (take_answer en a sid iid (\<lambda>ms shown. run_rounds en a sid iid k (Suc i) ms shown) i ms shown b s2)))"
        if "as_asked s2 = as_asked s1 @ [?req]" for b s2
        by (rule take_answer_asks [OF Suc.prems that]) (simp_all add: Suc.IH)
    qed (simp_all add: Suc.prems)
    then show ?case using 3(2) by simp
  qed (intro asks_nothing_intro, rule asks_on_refl)
qed

lemma stream_rounds_asks:
  "dialog ms \<Longrightarrow> asks_on k ms (as_asked s) (as_asked (snd (stream_rounds en a sid iid k i ms full s)))"
proof (induction k arbitrary: i ms full s)
  case 0
  then show ?case by (simp add: aret_def asks_on_refl)
next
  case (Suc k)
  let ?req = "stream_request (agent_client a) AvailableTools ms"
  show ?case unfolding stream_rounds.simps stream_round_def
  proof (rule after_quiet, goal_cases)
    case (3 u s1)
    have "asks_on (Suc k) ms (as_asked s1) (as_asked (snd (abind (ask_stream en a ms)
        (take_stream en a sid iid (\<lambda>ms full. stream_rounds en a sid iid k (Suc i) ms full) ms full) s1)))"
    proof (rule after_request [where req = ?req])
      show "as_asked s2 = as_asked s1 @ [?req]" if "ask_stream en a ms s1 = (r, s2)" for r s2
        using ask_stream_asked [OF that] .
      show "asks_on (Suc k) ms (as_asked s1) (as_asked (snd (take_stream en a sid iid (\<lambda>ms full. stream_rounds en a sid iid k (Suc i) ms full) ms full b s2)))"
        if "as_asked s2 = as_asked s1 @ [?req]" for b s2
        by (rule take_stream_asks [OF Suc.prems that]) (simp_all add: Suc.IH)
    qed (simp_all add: Suc.prems)
    then show ?case using 3(2) by simp
  qed (intro asks_nothing_intro, rule asks_on_refl)
qed

text \<open>Before the rounds nothing is asked, and after them nothing more.\<close>

lemma begin_run_dialog: "begin_run en a sid iid msg s = (Ok ms, s') \<Longrightarrow> dialog ms"
  unfolding begin_run_def by (elim abind_OkE) (auto simp: aret_def intro: dialog.begins)

lemma then_quiet:
  assumes "asks_on k ms A (as_asked (snd (m s)))" "\<And>b. asks_nothing (f b)"
  shows "asks_on k ms A (as_asked (snd (abind m f s)))"
proof -
  obtain r s1 where m: "m s = (r, s1)" by fastforce
  then show ?thesis using assms by (cases r) (simp_all add: abind_def asks_nothing_def)
qed

lemma asks_on_any: "asks_on k ms A A' \<Longrightarrow> asks_on k [] A A'"
proof -
  have "extending ms rs \<Longrightarrow> extending [] rs" for rs by (cases rs) auto
  then show "asks_on k ms A A' \<Longrightarrow> asks_on k [] A A'" by (auto simp: asks_on_def)
qed

lemma asks_nothing_report [asks_nothing_intro]: "asks_nothing m \<Longrightarrow> asks_nothing (or_report text m)"
proof -
  assume m: "asks_nothing m"
  have e: "asks_nothing (abind (event ''error'' t []) (\<lambda>_. athrow err :: 'a agt))" for t err
    by (intro asks_nothing_intro)
  show ?thesis unfolding asks_nothing_def
  proof
    fix s
    obtain r s1 where r: "m s = (r, s1)" by fastforce
    then have "as_asked s1 = as_asked s" by (rule asked_same [OF m])
    then show "as_asked (snd (or_report text m s)) = as_asked s"
      using r e by (auto simp: or_report_def asks_nothing_def split: outcome.splits agent_err.splits)
  qed
qed

lemma talk_asks:
  assumes "\<And>ms s. dialog ms \<Longrightarrow> asks_on k ms (as_asked s) (as_asked (snd (rounds ms s)))" "\<And>b. asks_nothing (rest b)"
  shows "asks_on k [] (as_asked s) (as_asked (snd (abind (begin_run en a sid iid msg) (\<lambda>ms. abind (rounds ms) rest) s)))"
proof (rule after_quiet, goal_cases)
  case (3 ms s1)
  then have "dialog ms" using begin_run_dialog by blast
  then have "asks_on k ms (as_asked s1) (as_asked (snd (abind (rounds ms) rest s1)))"
    using assms by (intro then_quiet)
  then show ?case using 3(2) asks_on_any by simp
qed (intro asks_nothing_intro, rule asks_on_refl)

lemma asks_nothing_prod [asks_nothing_intro]: "(\<And>a b. asks_nothing (f a b)) \<Longrightarrow> asks_nothing (case p of (a, b) \<Rightarrow> f a b)"
  by (cases p) simp

lemma run_asks: "asks_on 10 [] (as_asked s) (as_asked (snd (AgentLoop_Run en a msg s)))"
  unfolding AgentLoop_Run_def Let_def
proof (rule after_quiet, goal_cases)
  case (3 iid s1)
  show ?case unfolding 3(2) [symmetric]
    by (rule talk_asks) (intro run_rounds_asks asks_nothing_intro, assumption?)+
qed (intro asks_nothing_intro, rule asks_on_refl)

lemma run_stream_asks: "asks_on 10 [] (as_asked s) (as_asked (snd (AgentLoop_RunStream en a msg s)))"
proof (cases "al_hasMemory a")
  case False
  have "asks_nothing (abind (event ''error'' t []) (\<lambda>_. athrow err :: unit agt))" for t err
    by (intro asks_nothing_intro)
  then show ?thesis using False by (simp add: AgentLoop_RunStream_def asks_nothing_def asks_on_refl)
next
  case True
  show ?thesis unfolding AgentLoop_RunStream_def Let_def if_not_P [OF True [THEN not_not [THEN iffD2]]]
  proof (rule after_quiet, goal_cases)
    case (3 u s1)
    show ?case unfolding 3(2) [symmetric]
    proof (rule after_quiet, goal_cases)
      case (3 iid s2)
      show ?case unfolding 3(2) [symmetric]
        by (rule talk_asks) (intro stream_rounds_asks asks_nothing_intro, assumption?)+
    qed (intro asks_nothing_intro, rule asks_on_refl)
  qed (intro asks_nothing_intro, rule asks_on_refl)
qed

text \<open>C28: The agent talks to the model in well-formed dialogs and stops: whatever the model answers and the tools
  do, a run with or without a stream makes at most ten requests; every request opens with the instructions of the
  system and the user, every answer with tool calls in it is followed by exactly one result per call, in the order
  of the calls and with their identifiers, and every request extends the one before.\<close>

theorem agent_asks_in_dialogs:
  "asks_on 10 [] (as_asked s) (as_asked (snd (AgentLoop_Run en a msg s)))
    \<and> asks_on 10 [] (as_asked s) (as_asked (snd (AgentLoop_RunStream en a msg s)))"
  by (simp add: run_asks run_stream_asks)

end
