(* ===== verification/AgentEvents.thy ===== *)
theory AgentEvents imports AgentProps begin

text \<open>
  What the caller of the streaming loop learns: the last event tells how the run ended.
\<close>

section \<open>Actions that do not fail\<close>

definition never_fails :: "'a agt \<Rightarrow> bool" where
  "never_fails m \<longleftrightarrow> (\<forall>s err. fst (m s) \<noteq> Err err)"

lemma bind_out_Err: "bind_out r f = Err err \<longleftrightarrow> r = Err err \<or> (\<exists>a. r = Ok a \<and> f a = Err err)"
  by (cases r) auto

lemma map_err_Err: "map_err g r = Err x \<longleftrightarrow> (\<exists>err. r = Err err \<and> x = g err)"
  by (cases r) auto

named_theorems never_fails_intro

lemma never_fails_abind [never_fails_intro]:
  "never_fails m \<Longrightarrow> (\<And>a. never_fails (f a)) \<Longrightarrow> never_fails (abind m f)"
  by (auto simp: never_fails_def abind_def split: prod.splits outcome.splits) (metis fst_conv)

lemma never_fails_basic [never_fails_intro]: "never_fails (aret a)" "never_fails (event ty c t)" "never_fails (quietly m)"
  by (auto simp: never_fails_def aret_def event_def quietly_def split: prod.splits outcome.splits)

lemma never_fails_if [never_fails_intro]: "never_fails m \<Longrightarrow> never_fails m' \<Longrightarrow> never_fails (if c then m else m')"
  by simp

lemma never_fails_notes [never_fails_intro]: "never_fails (think en a sid iid ty c conf)" "never_fails (infer en a sid c conf ty src)"
  "never_fails (buffer en a sid k v)" "never_fails (note_call en te name args res ok)"
  unfolding think_def infer_def buffer_def note_call_def by (intro never_fails_intro)+

lemma dir_lines_never_fail: "dir_lines es \<noteq> Err err"
  by (induction es rule: dir_lines.induct) (auto simp: bind_out_Err split: option.splits)

lemma run_tool_never_fails: "fst (run_tool en te name args fs) \<noteq> Err err"
  by (auto simp: run_tool_def Let_def readFile_def writeFile_def editFile_def deleteFile_def listDir_def dir_lines_never_fail
      runCommand_def psiGetClass_def psiFindCallers_def psiFindCallees_def split: option.splits sum.splits prod.splits list.splits)

lemma never_fails_tool [never_fails_intro]: "never_fails (ToolExecutor_Execute en te call)"
proof -
  have "never_fails (\<lambda>s. case run_tool en te name args (as_fs s) of (r, fs) \<Rightarrow> (r, s\<lparr>as_fs := fs\<rparr>))" for name args
    using run_tool_never_fails by (auto simp: never_fails_def split: prod.split) (metis fst_conv)
  then show ?thesis unfolding ToolExecutor_Execute_def Let_def by (intro never_fails_intro)
qed

lemma never_fails_tools [never_fails_intro]: "never_fails (stream_tools en a sid iid calls)"
proof (induction calls)
  case (Cons call calls)
  then show ?case unfolding stream_tools.simps Let_def by (intro never_fails_intro)
qed (simp add: never_fails_intro)

text \<open>The context is built from queries whose errors are dropped.\<close>

definition no_error :: "'a act \<Rightarrow> bool" where
  "no_error m \<longleftrightarrow> (\<forall>e err. fst (m e) \<noteq> Err err)"

lemma no_error_then: "no_error m \<Longrightarrow> (\<And>a. no_error (f a)) \<Longrightarrow> no_error (and_then m f)"
  by (auto simp: no_error_def and_then_def split: prod.splits outcome.splits) (metis fst_conv)

lemma no_error_basic: "no_error (ret a)" "no_error (run_sql cl sql)"
  by (auto simp: no_error_def ret_def run_sql_def split: prod.splits outcome.splits)

lemma no_error_sql_rows: "no_error (sql_rows cl sql)"
  unfolding sql_rows_def by (intro no_error_then no_error_basic) (auto simp: no_error_basic split: prod.split)

lemma compress_never_fails: "compress maxTokens sofar chunks \<noteq> Err err"
  by (induction maxTokens sofar chunks rule: compress.induct)
    (auto simp: bind_out_Err truncateToFit_def Let_def split: if_splits)

lemma no_error_context: "no_error (BuildContextForLLM cl now now2 sid v n)"
proof -
  have "no_error (gatherChunks cl now now2 sid v)"
    unfolding gatherChunks_def GetCurrentStack_def GetActiveInferences_def GetRecentThoughts_def GetBufferKeys_def Let_def
    by (intro no_error_then no_error_basic no_error_sql_rows)
  then show ?thesis unfolding BuildContextForLLM_def
    by (rule no_error_then) (auto simp: no_error_def bind_out_Err compress_never_fails)
qed

lemma never_fails_mem [never_fails_intro]: "(\<And>now rid. no_error (f now rid)) \<Longrightarrow> never_fails (mem en present f)"
  by (auto simp: never_fails_def no_error_def mem_def map_err_Err split: prod.splits) (metis fst_conv)

lemma never_fails_begin [never_fails_intro]: "never_fails (begin_run en a sid iid msg)"
proof -
  have "never_fails (context_of en a sid)"
    unfolding never_fails_def
  proof (intro allI)
    fix s :: agent_state and err
    let ?m = "mem en (al_hasMemory a) (\<lambda>now rid. BuildContextForLLM (ag_cl en) now (ag_now en (Suc (as_tick s))) sid (al_CurrentVersion a) 4000)"
    have "never_fails (abind ?m (\<lambda>text s1. (Ok text, s1\<lparr>as_tick := Suc (as_tick s1)\<rparr>)))"
      by (intro never_fails_intro no_error_context) (simp add: never_fails_def)
    then show "fst (context_of en a sid s) \<noteq> Err err" by (simp add: never_fails_def context_of_def)
  qed
  then show ?thesis unfolding begin_run_def by (intro never_fails_intro)
qed

section \<open>Errors are reported\<close>

definition ends_with :: "string \<Rightarrow> agent_state \<Rightarrow> bool" where
  "ends_with ty s \<longleftrightarrow> as_events s \<noteq> [] \<and> sv_Type (last (as_events s)) = ty"

definition reports :: "'a agt \<Rightarrow> bool" where
  "reports m \<longleftrightarrow> (\<forall>s err s'. m s = (Err err, s') \<longrightarrow> ends_with ''error'' s')"

named_theorems reports_intro

lemma reports_never_fails [reports_intro]: "never_fails m \<Longrightarrow> reports m"
  by (auto simp: never_fails_def reports_def) (metis fst_conv)

lemma reports_abind: "reports m \<Longrightarrow> (\<And>a. reports (f a)) \<Longrightarrow> reports (abind m f)"
  by (auto simp: reports_def abind_def split: prod.splits outcome.splits)

lemma reports_error: "reports (abind (event ''error'' t tool) (\<lambda>_. athrow err))"
  by (auto simp: reports_def abind_def event_def athrow_def ends_with_def)

lemma reports_or_report:
  "(\<And>s err s'. m s = (Err err, s') \<Longrightarrow> \<exists>x. err = MemoryFailed x) \<Longrightarrow> reports (or_report text m)"
  using reports_error [unfolded reports_def] unfolding reports_def or_report_def
  by (auto split: prod.splits outcome.splits agent_err.splits; blast)

lemma mem_errors: "mem en present f s = (Err err, s') \<Longrightarrow> \<exists>x. err = MemoryFailed x"
  by (auto simp: mem_def map_err_Err split: prod.splits if_splits)

lemma never_fails_ask_stream [never_fails_intro]: "never_fails (ask_stream en a ms)"
proof -
  have on: "never_fails (on_stream en c)" for c by (cases c) (simp_all add: never_fails_intro)
  have "never_fails (each (on_stream en) cs)" for cs by (induction cs) (simp_all add: never_fails_intro on)
  then have "never_fails (abind (each (on_stream en) calls) (\<lambda>_. aret (x, calls)))" for calls and x :: "llm_err option"
    by (intro never_fails_intro)
  then show ?thesis by (auto simp: never_fails_def ask_stream_def Let_def split: prod.splits)
qed

lemma reports_take_stream:
  assumes "\<And>ms full. reports (go ms full)"
  shows "reports (take_stream en a sid iid go ms full res)"
proof -
  obtain err calls where res: "res = (err, calls)" by fastforce
  show ?thesis
  proof (cases err)
    case (Some x)
    show ?thesis unfolding take_stream_def Let_def res prod.case Some option.case
      by (intro reports_abind reports_error reports_never_fails never_fails_intro)
  next
    case None
    show ?thesis unfolding take_stream_def Let_def res prod.case None option.case
      by (cases "stream_calls calls = []")
        (simp_all add: assms reports_abind reports_never_fails never_fails_intro)
  qed
qed

lemma reports_rounds: "reports (stream_rounds en a sid iid k i ms full)"
proof (induction k arbitrary: i ms full)
  case (Suc k)
  show ?case unfolding stream_rounds.simps stream_round_def
    by (intro reports_abind reports_never_fails never_fails_intro reports_take_stream Suc.IH)
qed (simp add: reports_never_fails never_fails_intro)

lemma run_stream_reports: "reports (AgentLoop_RunStream en a msg)"
proof (cases "al_hasMemory a")
  case False
  then show ?thesis by (simp add: AgentLoop_RunStream_def reports_error [unfolded reports_def] reports_def)
next
  case True
  show ?thesis unfolding AgentLoop_RunStream_def Let_def if_not_P [OF True [THEN not_not [THEN iffD2]]]
    by (intro reports_abind reports_rounds reports_or_report, erule mem_errors, erule mem_errors)
      (intro reports_never_fails never_fails_intro)+
qed

section \<open>Success is reported\<close>

definition says_done :: "unit agt \<Rightarrow> bool" where
  "says_done m \<longleftrightarrow> (\<forall>s s'. m s = (Ok (), s') \<longrightarrow> ends_with ''done'' s')"

lemma says_done_abind: "(\<And>b. says_done (f b)) \<Longrightarrow> says_done (abind m f)"
  by (auto simp: says_done_def abind_Ok)

lemma says_done_event: "says_done (event ''done'' t tool)"
  by (auto simp: says_done_def event_def ends_with_def)

lemma run_stream_done: "says_done (AgentLoop_RunStream en a msg)"
proof (cases "al_hasMemory a")
  case False
  have "says_done (abind (event ''error'' t tool) (\<lambda>_. athrow err))" for t tool err
    by (auto simp: says_done_def abind_Ok athrow_def)
  then show ?thesis using False by (simp add: AgentLoop_RunStream_def says_done_def)
next
  case True
  show ?thesis unfolding AgentLoop_RunStream_def Let_def if_not_P [OF True [THEN not_not [THEN iffD2]]]
    by (intro says_done_abind says_done_event)
qed

text \<open>C30: The caller of the streaming loop always learns how the run ended: if the run succeeds, the last event
  it is sent is "done", and if the run fails, for whatever reason, the last one is "error". (A run need
  not end: a panic or a blocked mutex below it sends nothing.)\<close>

theorem stream_ends_with_its_outcome:
  "case AgentLoop_RunStream en a msg s of
      (Ok _, s') \<Rightarrow> ends_with ''done'' s'
    | (Err _, s') \<Rightarrow> ends_with ''error'' s'
    | _ \<Rightarrow> True"
  using run_stream_reports [of en a msg] run_stream_done [of en a msg]
  by (auto simp: reports_def says_done_def split: prod.splits outcome.splits)

section \<open>The tools\<close>

lemma HasPrefix_append: "HasPrefix s old \<longleftrightarrow> (\<exists>post. s = old @ post)"
  by (auto simp: HasPrefix_def) (metis append_take_drop_id)

lemma replace_first_at:
  assumes "\<And>i. i < length pre \<Longrightarrow> \<not> HasPrefix (drop i (pre @ old @ post)) old"
  shows "replace_first (pre @ old @ post) old new = pre @ new @ post"
  using assms
proof (induction pre)
  case Nil
  show ?case
  proof (cases "old @ post")
    case (Cons c s)
    then have "HasPrefix (c # s) old" by (metis HasPrefix_append)
    moreover have "drop (length old) (c # s) = post" using Cons by (metis append_eq_conv_conj)
    ultimately show ?thesis using Cons by simp
  qed simp
next
  case (Cons c pre)
  have "\<not> HasPrefix (drop i (pre @ old @ post)) old" if "i < length pre" for i
    using Cons.prems [of "Suc i"] that by simp
  moreover have "\<not> HasPrefix (c # pre @ old @ post) old" using Cons.prems [of 0] by simp
  ultimately show ?case using Cons.IH by simp
qed

lemma replace_first_none: "\<forall>i \<le> length s. \<not> HasPrefix (drop i s) old \<Longrightarrow> replace_first s old new = s"
proof (induction s)
  case (Cons c s)
  have "\<not> HasPrefix (drop i s) old" if "i \<le> length s" for i using Cons.prems [rule_format, of "Suc i"] that by simp
  moreover have "\<not> HasPrefix (c # s) old" using Cons.prems [rule_format, of 0] by simp
  ultimately show ?case using Cons.IH by simp
qed (auto simp: HasPrefix_def)

text \<open>An edit replaces the first occurrence and nothing else; without one the file stays as it is.\<close>

lemma edit_replaces_the_first_occurrence:
  assumes "fs (resolvePath te path) = Some (pre @ old @ post)" "ag_writable en (resolvePath te path)"
    "\<And>i. i < length pre \<Longrightarrow> \<not> HasPrefix (drop i (pre @ old @ post)) old"
  shows "snd (editFile en te path old new fs) = fs(resolvePath te path \<mapsto> pre @ new @ post)"
  using replace_first_at [OF assms(3), of new] assms(1,2)
  by (auto simp: editFile_def Let_def fun_upd_idem)

lemma edit_without_an_occurrence:
  assumes "fs (resolvePath te path) = Some content" "\<forall>i \<le> length content. \<not> HasPrefix (drop i content) old"
  shows "snd (editFile en te path old new fs) = fs"
  using replace_first_none [OF assms(2)] assms(1) by (simp add: editFile_def Let_def)

text \<open>The model is offered two tools that the program does not have.\<close>

lemma offered_tools_are_missing:
  assumes "name = ''search_code'' \<or> name = ''find_call_path''"
  shows "name \<in> set (map (\<lambda>t. fnc_Name (tool_Function t)) AvailableTools)"
    and "run_tool en te name args fs = run_tool en te name [] fs"
  using assms by (auto simp: AvailableTools_def string_tool_def run_tool_def)

end
