(* ===== verification/Spec2Isabelle.thy ===== *)
theory Spec2Isabelle imports StorageProps SqlProps JoinProps ExecProps Unenforced Constraints IndexProps GraphProps PsiSpec ConfigProps MemoryProps StackProps ContextProps DiffProps RowTypes AgentEvents begin

text \<open>
  AgentDB is a small database for AI agents: a page-based SQL engine, a graph of the code of a
  repository, and clients of both (a configuration store, the agent's memory, snapshots, the agent's loop
  around a language model, an HTTP server). This library models its Go code and proves what makes each
  part correct. File names below are those of the repository, under \<^verbatim>\<open>pkg/\<close> unless a path is given.

  \<^bold>\<open>How the program hangs together.\<close> \<^verbatim>\<open>main.go\<close> opens one database file, a buffer pool over it and an executor, and
  hands the executor to the server. A statement goes from text to tokens (\<^verbatim>\<open>parser/lexer.go\<close>), to a syntax tree
  (\<^verbatim>\<open>parser/parser.go\<close>), to the executor, which reads and writes heap files; these fetch pages from
  the buffer pool, which reads and writes the disk manager. Clients build SQL texts, run them and read
  the rows of the results. The PSI parser fills the code graph; the agent and the server ask it.

  \<^bold>\<open>Conventions.\<close> Integers have Go's width (\<open>i64\<close>, \<open>u16\<close>, ...) and wrap. A call gives an \<open>outcome\<close>: \<open>Ok\<close>, \<open>Err\<close>, \<open>Panic\<close> (a
  run-time panic) or \<open>Hang\<close> (a call that never returns: a mutex locked twice, a loop without progress).
  State is passed explicitly; a failed call gives the state it leaves behind. A string is its bytes,
  \<^verbatim>\<open>utf8\<close> marking a literal given by them. A Go map is a function or a list of pairs, and where its
  iteration order can be seen, the order is a parameter. Float64 values are bit patterns with the operations
  the code uses on them as parameters (\<open>flt\<close>).

  \<^bold>\<open>Storage\<close> (\<^verbatim>\<open>storage/\<close>). \<open>Prelude\<close> and \<open>StorageTypes\<close>: words, outcomes, windows of byte lists, schemas. \<open>Row\<close>: the row
  format; every access of the decoder to bytes is a checked one that can panic. \<open>Page\<close>: the slotted page. \<open>Disk\<close>: the file as its bytes. \<open>BufferPool\<close>: frames, page map, LRU list; \<open>PageCache\<close>
  states its contract as a locale (pages keep their contents across fetches, changes through a pinned
  handle are kept, pins balance) and interprets it on the pool. \<open>HeapFile\<close>: tables; \<open>HeapSpec\<close> refines them to the list
  of rows a store holds for a table number. \<open>StorageProps\<close>: encoding and decoding of rows, fetch keeps every page,
  insertion adds one row to one table, a scan returns the table, what was flushed is what a restart
  finds, and the update that blocks on its own mutex. \<open>RowTypes\<close>: decoding never panics, succeeds on exactly
  the bytes that hold what the schema asks for, and is well typed.

  \<^bold>\<open>SQL\<close> (\<^verbatim>\<open>parser/\<close>, \<^verbatim>\<open>executor/\<close>, \<^verbatim>\<open>catalog/\<close>). \<open>GoLib\<close>: what is used of the standard library. \<open>Lexer\<close>, \<open>Ast\<close>, \<open>Parser\<close>: the front end;
  \<open>SqlText\<close> is the concrete syntax it is checked against, and \<open>SqlProps\<close> has the round trip and the return of the parser.
  \<open>Query\<close>, \<open>Joins\<close>, \<open>Constraints\<close>, \<open>Catalog\<close>, \<open>Executor\<close>: conditions, aggregates, joins, the constraint checks nobody calls, all
  statements and transactions. \<open>ExecSpec\<close>, \<open>ExecTables\<close>, \<open>ExecRows\<close> lift the heap specification to tables; \<open>ExecProps\<close>
  states insertion then selection, deletion, dropping, unique keys, the transaction machine, a created table after
  a restart; \<open>JoinProps\<close> what a join of two tables answers; \<open>Unenforced\<close> that declared constraints make no difference to INSERT.

  \<^bold>\<open>Index\<close> (\<^verbatim>\<open>index/\<close>). \<open>Node\<close>, \<open>BTree\<close>: the B+ tree over a cache of nodes. \<open>BTreeSpec\<close>, \<open>IndexProps\<close>: the tree read as a map, insertion then
  search, with the case of a key equal to a separator, and the index that is not read back.

  \<^bold>\<open>Code graph\<close> (\<^verbatim>\<open>graph/\<close>, \<^verbatim>\<open>psi/\<close>). \<open>GraphStore\<close>, \<open>Graph\<close>, \<open>Traverse\<close>, \<open>Psi\<close>: nodes, edges, references, their indexes, the store, path searches, the
  walk over syntax trees. \<open>GraphSpec\<close>: the invariant that every index agrees with its table, kept by every
  operation that changes it (the step relation \<open>graph_step\<close>). \<open>TraverseSpec\<close>, \<open>GraphProps\<close>: shortest paths, all simple routes, call
  paths, deletion, loading. \<open>PsiSpec\<close>: parsing builds a forest, so the enclosing function is the nearest one.

  \<^bold>\<open>Clients of the SQL engine\<close> (\<^verbatim>\<open>config/\<close>, \<^verbatim>\<open>context/\<close>, \<^verbatim>\<open>snapshot/\<close>). \<open>SqlClient\<close>: running statements, building texts, reading cells. \<open>Config\<close>, \<open>Memory\<close>,
  \<open>LlmContext\<close>, \<open>Snapshot\<close>: every operation with its statement texts. \<open>ClientSpec\<close>, \<open>ClientStmts\<close>, \<open>ClientTables\<close>, \<open>ClientReads\<close>: how the lexer and the parser take
  a text of which only parts are fixed, and what such a statement does. \<open>ConfigProps\<close>, \<open>MemoryProps\<close>, \<open>StackProps\<close>,
  \<open>SnapshotProps\<close>, \<open>DiffProps\<close>: what is stored and found again, which is little, because several tables cannot be
  created and many queries name columns that do not exist; the comparison of versions. \<open>ContextProps\<close>: the
  instruction tree, the order by weight, the budget of tokens.

  \<^bold>\<open>Agent\<close> (\<^verbatim>\<open>agent/\<close>). \<open>LlmClient\<close>: messages and the client of the model. \<open>Agent\<close>: tools, prompts and the two loops. \<open>LlmProps\<close>: the
  stream of a response hands over every tool call whole. \<open>AgentProps\<close>: every request is a well-formed dialog that extends the last one, at most ten are made.
  \<open>AgentEvents\<close>: the last event tells how the run ended; editing a file.

  \<open>Examples\<close>, \<open>DemoStore\<close>, \<open>ExecDemo\<close> and \<open>ClientDemo\<close> hold the concrete inputs of the witnesses.

  \<^bold>\<open>Termination and bounds.\<close> Loops are structural or have a measure. Five recursions carry fuel or a bound: the descent
  in the B+ tree and the walk along its leaves have fuel, and the specification shows for search and insertion that
  any fuel above the height gives the same result; the runes of a string have its length, which is enough as each
  takes a byte (\<open>runes_enough\<close>); the instruction tree has the number of rows plus one, enough when the parents
  are acyclic (otherwise the code does not return); call paths stop at ten names and the agent at ten rounds, as in the code.
  The parser's two loops that make no progress on an unclosed list give \<open>Hang\<close>.

  \<^bold>\<open>Parameters\<close> stand for what is not in the repository: the float operations; \<^verbatim>\<open>encoding/json\<close> (\<open>json_codec\<close>, \<open>gjson\<close>, the decoded bodies
  and deltas); \<^verbatim>\<open>sort.Slice\<close>; the order of Go maps; syntax trees from gotreesitter; directory
  walks, contents and write failures of files; the hash of a file; the shell; the clock and random numbers; the
  replies of the language model; the texts of system errors. A property that relies on one of them says so in a
  hypothesis, and its witness instantiates it.

  \<^bold>\<open>Not modelled.\<close> The HTTP server (\<^verbatim>\<open>server/server.go\<close>, \<^verbatim>\<open>internal/handler/\<close>: routes and JSON around the operations above),
  the entry points and the test data. The failure to open a database file (\<open>NewDiskManager\<close> starts from an open one).
  The methods that dump a page, a heap file or a tree for debugging, \<^verbatim>\<open>Token.String\<close>, the two methods that print a result as JSON,
  log and console output, fsync and \<^verbatim>\<open>Close\<close>, which have no state of their own. Concurrency: every
  operation of a component holds its mutex for its whole duration, so calls are sequential; a mutex taken twice is \<open>Hang\<close>.
\<close>

end
